(* ===== verification/Prelude.thy ===== *)
theory Prelude
  imports Complex_Main "HOL-Library.Product_Lexorder" "HOL-Library.List_Lexorder"
    "HOL-Library.Char_ord"
begin

text \<open>
  Shared vocabulary of the development.

  A Python \<open>float\<close> is a \<open>pyfloat\<close>: a finite value, one of the two infinities, or
  NaN. The finite values are exact reals: rounding of a finite result and overflow of
  a float operation to infinity are not modelled; NaN and the infinities propagate,
  and comparisons with NaN are false, as IEEE 754 has it. What raises in Python is a
  value of the sum type \<open>py_exn + 'a\<close> here: division by a zero, \<open>math.floor\<close> of a
  non-finite value, \<open>float\<close> of an integer that is too large.

  A value of unknown type (\<open>Any\<close>, a decoded JSON document) is a \<open>pyval\<close>.
\<close>

section \<open>Floats\<close>

datatype pyfloat = Fin real | PInf | NInf | NaN

instantiation pyfloat :: "{zero, one, plus, uminus, minus, times, abs, ord}"
begin

definition zero_pyfloat :: pyfloat where "zero_pyfloat = Fin 0"

definition one_pyfloat :: pyfloat where "one_pyfloat = Fin 1"

fun plus_pyfloat :: "pyfloat \<Rightarrow> pyfloat \<Rightarrow> pyfloat" where
  "plus_pyfloat NaN _ = NaN"
| "plus_pyfloat _ NaN = NaN"
| "plus_pyfloat (Fin a) (Fin b) = Fin (a + b)"
| "plus_pyfloat PInf NInf = NaN"
| "plus_pyfloat NInf PInf = NaN"
| "plus_pyfloat PInf _ = PInf"
| "plus_pyfloat _ PInf = PInf"
| "plus_pyfloat NInf _ = NInf"
| "plus_pyfloat _ NInf = NInf"

fun uminus_pyfloat :: "pyfloat \<Rightarrow> pyfloat" where
  "uminus_pyfloat (Fin a) = Fin (- a)"
| "uminus_pyfloat PInf = NInf"
| "uminus_pyfloat NInf = PInf"
| "uminus_pyfloat NaN = NaN"

definition minus_pyfloat :: "pyfloat \<Rightarrow> pyfloat \<Rightarrow> pyfloat" where
  "minus_pyfloat a b = a + (- b)"

fun times_pyfloat :: "pyfloat \<Rightarrow> pyfloat \<Rightarrow> pyfloat" where
  "times_pyfloat NaN _ = NaN"
| "times_pyfloat _ NaN = NaN"
| "times_pyfloat (Fin a) (Fin b) = Fin (a * b)"
| "times_pyfloat (Fin a) PInf = (if a > 0 then PInf else if a < 0 then NInf else NaN)"
| "times_pyfloat (Fin a) NInf = (if a > 0 then NInf else if a < 0 then PInf else NaN)"
| "times_pyfloat PInf (Fin a) = (if a > 0 then PInf else if a < 0 then NInf else NaN)"
| "times_pyfloat NInf (Fin a) = (if a > 0 then NInf else if a < 0 then PInf else NaN)"
| "times_pyfloat PInf PInf = PInf"
| "times_pyfloat NInf NInf = PInf"
| "times_pyfloat PInf NInf = NInf"
| "times_pyfloat NInf PInf = NInf"

fun abs_pyfloat :: "pyfloat \<Rightarrow> pyfloat" where
  "abs_pyfloat (Fin a) = Fin \<bar>a\<bar>"
| "abs_pyfloat PInf = PInf"
| "abs_pyfloat NInf = PInf"
| "abs_pyfloat NaN = NaN"

fun less_eq_pyfloat :: "pyfloat \<Rightarrow> pyfloat \<Rightarrow> bool" where
  "less_eq_pyfloat NaN _ = False"
| "less_eq_pyfloat _ NaN = False"
| "less_eq_pyfloat NInf _ = True"
| "less_eq_pyfloat _ PInf = True"
| "less_eq_pyfloat (Fin a) (Fin b) = (a \<le> b)"
| "less_eq_pyfloat PInf (Fin _) = False"
| "less_eq_pyfloat PInf NInf = False"
| "less_eq_pyfloat (Fin _) NInf = False"

fun less_pyfloat :: "pyfloat \<Rightarrow> pyfloat \<Rightarrow> bool" where
  "less_pyfloat NaN _ = False"
| "less_pyfloat _ NaN = False"
| "less_pyfloat (Fin a) (Fin b) = (a < b)"
| "less_pyfloat NInf NInf = False"
| "less_pyfloat PInf PInf = False"
| "less_pyfloat PInf _ = False"
| "less_pyfloat _ NInf = False"
| "less_pyfloat NInf _ = True"
| "less_pyfloat _ PInf = True"

instance ..

end

lemma minus_Fin [simp]: "Fin a - Fin b = Fin (a - b)"
  by (simp add: minus_pyfloat_def)

lemma zero_Fin: "(0 :: pyfloat) = Fin 0"
  by (simp add: zero_pyfloat_def)

lemma one_Fin: "(1 :: pyfloat) = Fin 1"
  by (simp add: one_pyfloat_def)

text \<open>\<open>==\<close> on floats: NaN is equal to nothing, itself included.\<close>

fun feq :: "pyfloat \<Rightarrow> pyfloat \<Rightarrow> bool" where
  "feq (Fin a) (Fin b) = (a = b)"
| "feq PInf PInf = True"
| "feq NInf NInf = True"
| "feq _ _ = False"

fun isfinite :: "pyfloat \<Rightarrow> bool" where
  "isfinite (Fin _) = True"
| "isfinite _ = False"

lemma isfinite_iff: "isfinite x \<longleftrightarrow> (\<exists>r. x = Fin r)"
  by (cases x) auto

lemma isfiniteE: "isfinite x \<Longrightarrow> (\<And>r. x = Fin r \<Longrightarrow> P) \<Longrightarrow> P"
  by (auto simp: isfinite_iff)

fun realval :: "pyfloat \<Rightarrow> real" where
  "realval (Fin a) = a"
| "realval _ = 0"

lemma Fin_realval [simp]: "isfinite x \<Longrightarrow> Fin (realval x) = x"
  by (cases x) auto

lemma isfinite_add [simp]: "isfinite a \<Longrightarrow> isfinite b \<Longrightarrow> isfinite (a + b)"
  by (cases a; cases b) auto

lemma isfinite_mult [simp]: "isfinite a \<Longrightarrow> isfinite b \<Longrightarrow> isfinite (a * b)"
  by (cases a; cases b) auto

lemma isfinite_minus [simp]: "isfinite a \<Longrightarrow> isfinite b \<Longrightarrow> isfinite (a - b)"
  by (cases a; cases b) auto

text \<open>Python's two-argument \<open>max\<close> and \<open>min\<close>: the first argument unless the second
  compares strictly better, so a NaN in second place is dropped.\<close>

definition py_max :: "pyfloat \<Rightarrow> pyfloat \<Rightarrow> pyfloat" where
  "py_max a b = (if b > a then b else a)"

definition py_min :: "pyfloat \<Rightarrow> pyfloat \<Rightarrow> pyfloat" where
  "py_min a b = (if b < a then b else a)"

lemma py_max_Fin [simp]: "py_max (Fin a) (Fin b) = Fin (max a b)"
  by (simp add: py_max_def max_def)

lemma py_min_Fin [simp]: "py_min (Fin a) (Fin b) = Fin (min a b)"
  by (simp add: py_min_def min_def)

section \<open>Exceptions\<close>

datatype py_exn = TypeError | ValueError | OverflowError | ZeroDivisionError
  | KeyError | RuntimeError | LookupError

definition ebind :: "'e + 'a \<Rightarrow> ('a \<Rightarrow> 'e + 'b) \<Rightarrow> 'e + 'b" where
  "ebind x f = (case x of Inl e \<Rightarrow> Inl e | Inr y \<Rightarrow> f y)"

lemma ebind_simps [simp]: "ebind (Inl e) f = Inl e" "ebind (Inr y) f = f y"
  by (simp_all add: ebind_def)

lemma ebind_Inr_iff: "ebind x f = Inr z \<longleftrightarrow> (\<exists>y. x = Inr y \<and> f y = Inr z)"
  by (cases x) auto

lemma ebind_Inl_iff: "ebind x f = Inl e \<longleftrightarrow> x = Inl e \<or> (\<exists>y. x = Inr y \<and> f y = Inl e)"
  by (cases x) auto

lemma ebind_cong [fundef_cong]:
  "x = y \<Longrightarrow> (\<And>z. y = Inr z \<Longrightarrow> f z = g z) \<Longrightarrow> ebind x f = ebind y g"
  by (cases y) auto

text \<open>\<open>guard_e e b\<close>: raise \<open>e\<close> unless \<open>b\<close>.\<close>

definition guard_e :: "'e \<Rightarrow> bool \<Rightarrow> 'e + unit" where
  "guard_e e b = (if b then Inr () else Inl e)"

lemma guard_e_simps [simp]:
  "guard_e e True = Inr ()" "guard_e e False = Inl e"
  "guard_e e b = Inr u \<longleftrightarrow> b" "guard_e e b = Inl e' \<longleftrightarrow> \<not> b \<and> e = e'"
  by (auto simp: guard_e_def)

text \<open>A loop whose body may raise: the first error stops it.\<close>

fun emap :: "('a \<Rightarrow> 'e + 'b) \<Rightarrow> 'a list \<Rightarrow> 'e + 'b list" where
  "emap f [] = Inr []"
| "emap f (x # xs) = ebind (f x) (\<lambda>y. ebind (emap f xs) (\<lambda>ys. Inr (y # ys)))"

lemma emap_Inr: "(\<And>x. x \<in> set xs \<Longrightarrow> f x = Inr (g x)) \<Longrightarrow> emap f xs = Inr (map g xs)"
  by (induction xs) auto

lemma emap_length: "emap f xs = Inr ys \<Longrightarrow> length ys = length xs"
  by (induction xs arbitrary: ys) (auto simp: ebind_Inr_iff)

lemma emap_from: "emap f xs = Inr ys \<Longrightarrow> y \<in> set ys \<Longrightarrow> \<exists>x \<in> set xs. f x = Inr y"
  by (induction xs arbitrary: ys) (auto simp: ebind_Inr_iff)

lemma emap_map: "emap f (map g xs) = emap (\<lambda>x. f (g x)) xs"
  by (induction xs) simp_all

text \<open>\<open>x / y\<close> on floats, \<open>math.floor\<close>, and \<open>float\<close> of an integer. The bound is the
  least integer that rounds to \<open>2 ^ 1024\<close>.\<close>

fun py_div :: "pyfloat \<Rightarrow> pyfloat \<Rightarrow> py_exn + pyfloat" where
  "py_div NaN (Fin b) = (if b = 0 then Inl ZeroDivisionError else Inr NaN)"
| "py_div NaN _ = Inr NaN"
| "py_div _ NaN = Inr NaN"
| "py_div (Fin a) (Fin b) = (if b = 0 then Inl ZeroDivisionError else Inr (Fin (a / b)))"
| "py_div (Fin a) PInf = Inr (Fin 0)"
| "py_div (Fin a) NInf = Inr (Fin 0)"
| "py_div PInf (Fin b) = (if b = 0 then Inl ZeroDivisionError else Inr (if b > 0 then PInf else NInf))"
| "py_div NInf (Fin b) = (if b = 0 then Inl ZeroDivisionError else Inr (if b > 0 then NInf else PInf))"
| "py_div PInf _ = Inr NaN"
| "py_div NInf _ = Inr NaN"

fun py_floor :: "pyfloat \<Rightarrow> py_exn + int" where
  "py_floor (Fin a) = Inr \<lfloor>a\<rfloor>"
| "py_floor NaN = Inl ValueError"
| "py_floor _ = Inl OverflowError"

definition float_of_int :: "int \<Rightarrow> py_exn + pyfloat" where
  "float_of_int i =
     (if \<bar>i\<bar> \<ge> 2 ^ 1024 - 2 ^ 970 then Inl OverflowError else Inr (Fin (real_of_int i)))"

lemma py_div_Fin: "b \<noteq> 0 \<Longrightarrow> py_div (Fin a) (Fin b) = Inr (Fin (a / b))"
  by simp

text \<open>\<open>a / b\<close> where the code has checked that \<open>b\<close> is not zero.\<close>

definition truediv :: "pyfloat \<Rightarrow> pyfloat \<Rightarrow> pyfloat" where
  "truediv a b = (case py_div a b of Inl _ \<Rightarrow> NaN | Inr x \<Rightarrow> x)"

lemma py_div_truediv: "\<not> feq b 0 \<Longrightarrow> py_div a b = Inr (truediv a b)"
  by (cases a; cases b) (auto simp: truediv_def zero_Fin)

section \<open>Values of unknown type\<close>

text \<open>A \<open>datetime\<close> is its wall clock in microseconds since 1970-01-01T00:00 and, when it
  is aware, its UTC offset in microseconds. A \<open>date\<close> is its day number.\<close>

record datetime =
  wall :: int
  utc_offset :: "int option"

abbreviation day_us :: int where "day_us \<equiv> 86400000000"

abbreviation hour_us :: int where "hour_us \<equiv> 3600000000"

definition day_of :: "datetime \<Rightarrow> int" where
  "day_of d = wall d div day_us"

datatype pyval = VNone | VBool bool | VInt int | VFloat pyfloat | VStr string
  | VDatetime datetime | VDate int | VList "pyval list" | VDict "(string \<times> pyval) list"

text \<open>\<open>float(v)\<close>; the text form of a number is read by \<open>fparse\<close>, the standard
  library's parser.\<close>

fun py_float :: "(string \<Rightarrow> pyfloat option) \<Rightarrow> pyval \<Rightarrow> py_exn + pyfloat" where
  "py_float fparse (VBool b) = Inr (Fin (if b then 1 else 0))"
| "py_float fparse (VInt i) = float_of_int i"
| "py_float fparse (VFloat x) = Inr x"
| "py_float fparse (VStr s) = (case fparse s of None \<Rightarrow> Inl ValueError | Some x \<Rightarrow> Inr x)"
| "py_float fparse _ = Inl TypeError"

text \<open>Truth of a value, as \<open>if v\<close> and \<open>a or b\<close> ask it.\<close>

definition truthy :: "pyval \<Rightarrow> bool" where
  "truthy v = (case v of
     VNone \<Rightarrow> False | VBool b \<Rightarrow> b | VInt i \<Rightarrow> i \<noteq> 0 | VFloat x \<Rightarrow> \<not> feq x 0 | VStr s \<Rightarrow> s \<noteq> []
   | VList vs \<Rightarrow> vs \<noteq> [] | VDict d \<Rightarrow> d \<noteq> [] | _ \<Rightarrow> True)"

section \<open>Strings\<close>

text \<open>ASCII case mapping and trimming, as \<open>str.upper\<close>, \<open>str.lower\<close> and \<open>str.strip\<close> do it
  on ASCII text.\<close>

definition upper_char :: "char \<Rightarrow> char" where
  "upper_char c = (if 97 \<le> (of_char c :: nat) \<and> (of_char c :: nat) \<le> 122
                   then char_of ((of_char c :: nat) - 32) else c)"

definition lower_char :: "char \<Rightarrow> char" where
  "lower_char c = (if 65 \<le> (of_char c :: nat) \<and> (of_char c :: nat) \<le> 90
                   then char_of ((of_char c :: nat) + 32) else c)"

definition upper :: "string \<Rightarrow> string" where "upper = map upper_char"

definition lower :: "string \<Rightarrow> string" where "lower = map lower_char"

definition is_space :: "char \<Rightarrow> bool" where
  "is_space c \<longleftrightarrow> (let n = (of_char c :: nat) in n = 32 \<or> (9 \<le> n \<and> n \<le> 13) \<or> (28 \<le> n \<and> n \<le> 31))"

definition strip :: "string \<Rightarrow> string" where
  "strip s = rev (dropWhile is_space (rev (dropWhile is_space s)))"

lemma upper_char_idem [simp]: "upper_char (upper_char c) = upper_char c"
  by (auto simp: upper_char_def of_char_of)

lemma upper_idem [simp]: "upper (upper s) = upper s"
  by (simp add: upper_def)

text \<open>\<open>s.split(c)\<close> and \<open>c.join(parts)\<close> for a one-character separator.\<close>

fun split_on :: "char \<Rightarrow> string \<Rightarrow> string list" where
  "split_on c [] = [[]]"
| "split_on c (x # xs) =
     (if x = c then [] # split_on c xs
      else (case split_on c xs of [] \<Rightarrow> [[x]] | y # ys \<Rightarrow> (x # y) # ys))"

fun join_with :: "char \<Rightarrow> string list \<Rightarrow> string" where
  "join_with c [] = []"
| "join_with c [x] = x"
| "join_with c (x # y # ys) = x @ c # join_with c (y # ys)"

lemma split_on_nonempty [simp]: "split_on c s \<noteq> []"
  by (induction s) (auto split: list.splits)

lemma split_on_plain: "c \<notin> set s \<Longrightarrow> split_on c s = [s]"
  by (induction s) auto

lemma split_on_append: "split_on c (a @ c # b) = split_on c a @ split_on c b"
proof (induction a)
  case (Cons x a)
  then show ?case by (cases "split_on c a") auto
qed simp

lemma split_on_join: "p \<noteq> [] \<Longrightarrow> list_all (\<lambda>s. c \<notin> set s) p \<Longrightarrow> split_on c (join_with c p) = p"
  by (induction c p rule: join_with.induct) (auto simp: split_on_plain split_on_append)

lemma join_append: "p \<noteq> [] \<Longrightarrow> q \<noteq> [] \<Longrightarrow> join_with c (p @ q) = join_with c p @ c # join_with c q"
  by (induction c p rule: join_with.induct) (auto simp: neq_Nil_conv)

section \<open>Dictionaries\<close>

text \<open>A Python dictionary keeps insertion order: an association list with distinct keys.
  Assigning to a key it has keeps the key's place.\<close>

type_synonym ('k, 'v) dict = "('k \<times> 'v) list"

abbreviation dict_get :: "('k, 'v) dict \<Rightarrow> 'k \<Rightarrow> 'v option" where
  "dict_get \<equiv> map_of"

fun dict_set :: "'k \<Rightarrow> 'v \<Rightarrow> ('k, 'v) dict \<Rightarrow> ('k, 'v) dict" where
  "dict_set k v [] = [(k, v)]"
| "dict_set k v ((k', v') # d) = (if k = k' then (k, v) # d else (k', v') # dict_set k v d)"

definition dict_del :: "'k \<Rightarrow> ('k, 'v) dict \<Rightarrow> ('k, 'v) dict" where
  "dict_del k d = filter (\<lambda>p. fst p \<noteq> k) d"

definition dict_or :: "('k, 'v) dict \<Rightarrow> 'k \<Rightarrow> 'v \<Rightarrow> 'v" where
  "dict_or d k v = (case dict_get d k of None \<Rightarrow> v | Some w \<Rightarrow> w)"

definition dict_merge :: "('k, 'v) dict \<Rightarrow> ('k, 'v) dict \<Rightarrow> ('k, 'v) dict" where
  "dict_merge d e = foldl (\<lambda>acc p. dict_set (fst p) (snd p) acc) d e"

lemma map_of_dict_set [simp]: "map_of (dict_set k v d) = (map_of d)(k \<mapsto> v)"
  by (induction k v d rule: dict_set.induct) auto

lemma dict_set_keys [simp]: "fst ` set (dict_set k v d) = insert k (fst ` set d)"
  by (induction k v d rule: dict_set.induct) auto

lemma dict_set_map_fst:
  "map fst (dict_set k v d) = (if k \<in> fst ` set d then map fst d else map fst d @ [k])"
  by (induction k v d rule: dict_set.induct) auto

lemma distinct_dict_set [simp]:
  "distinct (map fst d) \<Longrightarrow> distinct (map fst (dict_set k v d))"
  by (simp add: dict_set_map_fst)

lemma map_of_dict_del [simp]: "map_of (dict_del k d) = (map_of d)(k := None)"
  by (induction d) (auto simp: dict_del_def fun_eq_iff)

lemma dict_or_set [simp]: "dict_or (dict_set k v d) k' w = (if k' = k then v else dict_or d k' w)"
  by (simp add: dict_or_def)

lemma map_of_dict_merge: "map_of (dict_merge d e) k =
  (case map_of (rev e) k of None \<Rightarrow> map_of d k | Some v \<Rightarrow> Some v)"
proof (induction e rule: rev_induct)
  case Nil
  then show ?case by (simp add: dict_merge_def)
next
  case (snoc p e)
  then show ?case by (cases p) (simp add: dict_merge_def)
qed

section \<open>Lists\<close>

lemma sum_list_diff_take:
  fixes xs :: "real list"
  assumes "i \<le> j"
  shows "sum_list (take j xs) - sum_list (take i xs) = sum_list (drop i (take j xs))"
proof -
  have "take j xs = take i xs @ drop i (take j xs)"
    using assms by (metis append_take_drop_id min.absorb1 take_take)
  then have "sum_list (take j xs) = sum_list (take i xs) + sum_list (drop i (take j xs))"
    by (metis sum_list.append)
  then show ?thesis by simp
qed

lemma sum_list_all_zero: "(\<And>x. x \<in> set xs \<Longrightarrow> f x = (0::real)) \<Longrightarrow> (\<Sum>x\<leftarrow>xs. f x) = 0"
  by (induction xs) auto

lemma sum_list_update_distinct:
  fixes f g :: "'a \<Rightarrow> real"
  assumes "distinct xs" "t \<in> set xs" "\<And>x. x \<in> set xs \<Longrightarrow> x \<noteq> t \<Longrightarrow> f x = g x"
  shows "(\<Sum>x\<leftarrow>xs. f x) = (\<Sum>x\<leftarrow>xs. g x) + (f t - g t)"
  using assms
proof (induction xs)
  case Nil
  then show ?case by simp
next
  case (Cons a xs)
  show ?case
  proof (cases "a = t")
    case True
    with Cons.prems have "(\<Sum>x\<leftarrow>xs. f x) = (\<Sum>x\<leftarrow>xs. g x)"
      by (intro arg_cong [where f = sum_list] map_cong) auto
    with True show ?thesis by simp
  next
    case False
    with Cons.prems have "t \<in> set xs" by auto
    with Cons have "(\<Sum>x\<leftarrow>xs. f x) = (\<Sum>x\<leftarrow>xs. g x) + (f t - g t)" by auto
    with False Cons.prems(3) [of a] show ?thesis by simp
  qed
qed

lemma sum_list_group:
  fixes f :: "'a \<Rightarrow> real"
  assumes "distinct ts" "list_all (\<lambda>x. k x \<in> set ts) xs"
  shows "(\<Sum>x\<leftarrow>xs. f x) = (\<Sum>t\<leftarrow>ts. \<Sum>x\<leftarrow>filter (\<lambda>x. k x = t) xs. f x)"
  using assms(2)
proof (induction xs)
  case Nil
  then show ?case by (simp add: sum_list_all_zero)
next
  case (Cons x xs)
  have "(\<Sum>t\<leftarrow>ts. \<Sum>y\<leftarrow>filter (\<lambda>y. k y = t) (x # xs). f y) =
      (\<Sum>t\<leftarrow>ts. \<Sum>y\<leftarrow>filter (\<lambda>y. k y = t) xs. f y) + f x"
    by (subst sum_list_update_distinct [where t = "k x" and g = "\<lambda>t. \<Sum>y\<leftarrow>filter (\<lambda>y. k y = t) xs. f y"])
       (use assms(1) Cons.prems in auto)
  with Cons show ?case by simp
qed

text \<open>\<open>list(dict.fromkeys(xs))\<close>: the first occurrence of each element.\<close>

definition first_occurrences :: "'a list \<Rightarrow> 'a list" where
  "first_occurrences xs = rev (remdups (rev xs))"

lemma set_first_occurrences [simp]: "set (first_occurrences xs) = set xs"
  by (simp add: first_occurrences_def)

text \<open>\<open>drop_duplicates(key, keep="last")\<close>.\<close>

fun keep_last :: "('a \<Rightarrow> 'k) \<Rightarrow> 'a list \<Rightarrow> 'a list" where
  "keep_last key [] = []"
| "keep_last key (x # xs) = (if key x \<in> key ` set xs then keep_last key xs else x # keep_last key xs)"

lemma keep_last_subset: "set (keep_last key xs) \<subseteq> set xs"
  by (induction xs) auto

lemma keep_last_distinct: "distinct (map key (keep_last key xs))"
proof (induction xs)
  case (Cons x xs)
  have "key x \<notin> key ` set (keep_last key xs)" if "key x \<notin> key ` set xs"
    using that keep_last_subset [of key xs] by blast
  with Cons show ?case by simp
qed simp

section \<open>Machines\<close>

text \<open>A handler-driven component: a state, an operation type, one step per operation.
  What every step keeps, every run keeps; \<open>pre\<close> says which operations are in scope.\<close>

locale machine =
  fixes step :: "'s \<Rightarrow> 'o \<Rightarrow> 's"
    and inv :: "'s \<Rightarrow> bool"
    and pre :: "'o \<Rightarrow> bool"
  assumes step_inv: "inv s \<Longrightarrow> pre x \<Longrightarrow> inv (step s x)"
begin

lemma run_inv: "inv s \<Longrightarrow> list_all pre xs \<Longrightarrow> inv (foldl step s xs)"
  by (induction xs arbitrary: s) (auto intro: step_inv)

lemma run_frame:
  assumes "\<And>s x. inv s \<Longrightarrow> pre x \<Longrightarrow> f (step s x) = f s"
  shows "inv s \<Longrightarrow> list_all pre xs \<Longrightarrow> f (foldl step s xs) = f s"
  by (induction xs arbitrary: s) (simp_all add: assms step_inv)

end

end
