(* ===== verification/Bar_Interval.thy ===== *)
theory Bar_Interval
  imports Prelude
begin

text \<open>
  \<open>engine/data/bar_interval.py\<close>: the bar sizes a run may use, the bound on the bars an
  intraday window loads, and the warm-up it needs. A date is its day number, day 0 being
  Thursday 1970-01-01.
\<close>

section \<open>Definitions\<close>

definition daily_bar_seconds :: int where "daily_bar_seconds = 86400"

definition bar_seconds_choices :: "int list" where
  "bar_seconds_choices = [60, 300, 900, 1800, 3600, daily_bar_seconds]"

definition session_minutes :: int where "session_minutes = 390"

definition max_intraday_bars :: int where "max_intraday_bars = 250000"

text \<open>\<open>value in BAR_SECONDS_CHOICES\<close> compares with \<open>==\<close>, which a whole float passes.\<close>

definition choice_of :: "pyval \<Rightarrow> int option" where
  "choice_of v = (case v of
     VInt i \<Rightarrow> if i \<in> set bar_seconds_choices then Some i else None
   | VFloat (Fin x) \<Rightarrow> if \<lfloor>x\<rfloor> \<in> set bar_seconds_choices \<and> x = real_of_int \<lfloor>x\<rfloor> then Some \<lfloor>x\<rfloor> else None
   | _ \<Rightarrow> None)"

definition bar_minutes :: "pyval \<Rightarrow> py_exn + int" where
  "bar_minutes v = (case choice_of v of None \<Rightarrow> Inl ValueError | Some s \<Rightarrow> Inr (s div 60))"

definition is_intraday :: "pyval \<Rightarrow> py_exn + bool" where
  "is_intraday v = ebind (bar_minutes v) (\<lambda>m. Inr (m < session_minutes))"

definition bars_per_session :: "int \<Rightarrow> int" where
  "bars_per_session minutes = \<lceil>real_of_int session_minutes / real_of_int minutes\<rceil>"

definition weekday :: "int \<Rightarrow> int" where "weekday d = (d + 3) mod 7"

definition weekdays_between :: "int \<Rightarrow> int \<Rightarrow> int" where
  "weekdays_between start end_day =
     (if end_day < start then 0
      else let n = end_day - start + 1;
               full_weeks = n div 7;
               remainder = n mod 7;
               partial = length (filter (\<lambda>offset. (weekday start + offset) mod 7 < 5) [0..remainder - 1])
           in full_weeks * 5 + int partial)"

definition estimate_bar_count :: "int \<Rightarrow> int \<Rightarrow> int \<Rightarrow> int \<Rightarrow> int" where
  "estimate_bar_count ticker_count start end_day minutes =
     ticker_count * weekdays_between start end_day * bars_per_session minutes"

text \<open>Raising \<open>IntradayWindowTooLarge\<close> is the answer False.\<close>

definition check_intraday_size :: "int \<Rightarrow> int \<Rightarrow> int \<Rightarrow> int \<Rightarrow> bool" where
  "check_intraday_size ticker_count start end_day minutes \<longleftrightarrow>
     estimate_bar_count ticker_count start end_day minutes \<le> max_intraday_bars"

definition warmup_calendar_days :: "int \<Rightarrow> int \<Rightarrow> int" where
  "warmup_calendar_days period minutes =
     (let sessions = \<lceil>real_of_int (max period 1) / real_of_int (bars_per_session minutes)\<rceil>
      in \<lceil>real_of_int sessions * 7 / 5 * (12 / 10)\<rceil> + 4)"

section \<open>Counting weekdays\<close>

definition weekday_set :: "int \<Rightarrow> int \<Rightarrow> int set" where
  "weekday_set a n = {d. a \<le> d \<and> d < a + n \<and> weekday d < 5}"

lemma weekday_set_finite [simp]: "finite (weekday_set a n)"
  by (rule finite_subset [of _ "{a..<a + n}"]) (auto simp: weekday_set_def)

lemma weekday_set_empty [simp]: "weekday_set a 0 = {}"
  by (auto simp: weekday_set_def)

lemma weekday_set_split:
  assumes "0 \<le> n" "0 \<le> k"
  shows "card (weekday_set a (n + k)) = card (weekday_set a n) + card (weekday_set (a + n) k)"
proof -
  have "weekday_set a (n + k) = weekday_set a n \<union> weekday_set (a + n) k"
    "weekday_set a n \<inter> weekday_set (a + n) k = {}"
    using assms by (auto simp: weekday_set_def)
  then show ?thesis by (simp add: card_Un_disjoint)
qed

lemma weekday_set_one: "card (weekday_set a 1) = (if weekday a < 5 then 1 else 0)"
proof -
  have "weekday_set a 1 = (if weekday a < 5 then {a} else {})" by (auto simp: weekday_set_def)
  then show ?thesis by simp
qed

lemma weekday_set_offsets:
  "card (weekday_set a (int k)) = length (filter (\<lambda>i. (weekday a + int i) mod 7 < 5) [0..<k])"
proof (induction k)
  case 0
  then show ?case by simp
next
  case (Suc k)
  have "weekday (a + int k) = (weekday a + int k) mod 7" by (simp add: weekday_def mod_simps ac_simps)
  then have "card (weekday_set a (int k + 1)) = card (weekday_set a (int k)) +
      (if (weekday a + int k) mod 7 < 5 then 1 else 0)"
    using weekday_set_split [of "int k" 1 a] weekday_set_one [of "a + int k"] by simp
  with Suc show ?case by (simp add: add.commute)
qed

lemma weekday_set_week: "card (weekday_set a 7) = 5"
proof -
  have "weekday a = 0 \<or> weekday a = 1 \<or> weekday a = 2 \<or> weekday a = 3 \<or> weekday a = 4 \<or> weekday a = 5 \<or> weekday a = 6"
    unfolding weekday_def by presburger
  moreover have "[0..<7] = [0, 1, 2, 3, 4, 5, 6 :: nat]" by code_simp
  moreover have "card (weekday_set a 7) = length (filter (\<lambda>i. (weekday a + int i) mod 7 < 5) [0..<7])"
    using weekday_set_offsets [of a 7] by simp
  ultimately show ?thesis by (elim disjE) simp_all
qed

lemma weekday_set_weeks: "card (weekday_set a (7 * int k)) = 5 * k"
proof (induction k)
  case 0
  then show ?case by simp
next
  case (Suc k)
  then show ?case using weekday_set_split [of "7 * int k" 7 a] weekday_set_week [of "a + 7 * int k"]
    by (simp add: algebra_simps)
qed

lemma weekdays_between_card:
  "weekdays_between a b = int (card {d. a \<le> d \<and> d \<le> b \<and> weekday d < 5})"
proof (cases "b < a")
  case True
  then have "{d. a \<le> d \<and> d \<le> b \<and> weekday d < 5} = {}" by auto
  then have "card {d. a \<le> d \<and> d \<le> b \<and> weekday d < 5} = 0" by (simp only: card.empty)
  with True show ?thesis by (simp add: weekdays_between_def)
next
  case False
  define n where "n = b - a + 1"
  define k r where "k = n div 7" and "r = n mod 7"
  have n: "n = 7 * k + r" "0 \<le> k" "0 \<le> r" using False by (auto simp: n_def k_def r_def)
  have "{d. a \<le> d \<and> d \<le> b \<and> weekday d < 5} = weekday_set a (r + 7 * k)"
    using n by (auto simp: weekday_set_def n_def)
  moreover have "card (weekday_set (a + r) (7 * k)) = 5 * nat k"
    using weekday_set_weeks [of "a + r" "nat k"] n(2) by simp
  moreover have up: "[0..r - 1] = map int [0..<nat r]"
    using n(3) by (intro nth_equalityI) auto
  have "card (weekday_set a r) = length (filter (\<lambda>i. (weekday a + i) mod 7 < 5) [0..r - 1])"
    using weekday_set_offsets [of a "nat r"] n(3) unfolding up by (simp add: filter_map comp_def)
  ultimately show ?thesis
    using False n(2,3) weekday_set_split [of r "7 * k" a]
    by (simp add: weekdays_between_def Let_def flip: n_def k_def r_def)
qed

text \<open>Any window of \<open>n\<close> days has at least \<open>(5 n - 10) / 7\<close> weekdays.\<close>

lemma weekdays_lower:
  assumes "0 \<le> n"
  shows "5 * n - 10 \<le> 7 * int (card (weekday_set a n))"
proof -
  define k r where "k = n div 7" and "r = n mod 7"
  have n: "n = r + 7 * k" "0 \<le> k" "0 \<le> r" "r < 7" using assms by (auto simp: k_def r_def)
  have "card (weekday_set (a + r) (7 * k)) = 5 * nat k"
    using weekday_set_weeks [of "a + r" "nat k"] n(2) by simp
  then have c: "card (weekday_set a n) = card (weekday_set a r) + 5 * nat k"
    using weekday_set_split [of r "7 * k" a] n by simp
  have "card (weekday_set a 7) = card (weekday_set a r) + card (weekday_set (a + r) (7 - r))"
    using weekday_set_split [of r "7 - r" a] n by simp
  moreover have "card (weekday_set (a + r) (7 - r)) \<le> card {a + r..<a + 7}"
    by (rule card_mono) (auto simp: weekday_set_def)
  then have "card (weekday_set (a + r) (7 - r)) \<le> nat (7 - r)" by simp
  ultimately have "r - 2 \<le> int (card (weekday_set a r))" using weekday_set_week [of a] n(4) by linarith
  then show ?thesis using n c by linarith
qed

lemma bars_per_session_bounds:
  assumes "0 < m"
  shows "session_minutes \<le> bars_per_session m * m" "(bars_per_session m - 1) * m < session_minutes" "0 < bars_per_session m"
proof -
  let ?x = "real_of_int session_minutes / real_of_int m"
  have x: "real_of_int (bars_per_session m) - 1 < ?x" "?x \<le> real_of_int (bars_per_session m)"
    unfolding bars_per_session_def by linarith+
  then have "real_of_int session_minutes \<le> real_of_int (bars_per_session m * m)"
    "real_of_int ((bars_per_session m - 1) * m) < real_of_int session_minutes"
    using assms by (simp_all add: field_simps)
  then show "session_minutes \<le> bars_per_session m * m" "(bars_per_session m - 1) * m < session_minutes"
    by (simp_all only: of_int_le_iff of_int_less_iff)
  have "0 < ?x" using assms by (simp add: session_minutes_def)
  then show "0 < bars_per_session m" using x by linarith
qed

section \<open>Properties\<close>

text \<open>the weekday count is exact, and the bar estimate bounds every window: with \<open>bars\<close>
  bars of the given length covering each session, no window of that many tickers holds more
  bars than the estimate.\<close>

theorem weekday_count_exact:
  assumes "0 < minutes"
  shows "weekdays_between a b = int (card {d. a \<le> d \<and> d \<le> b \<and> weekday d < 5}) \<and>
    session_minutes \<le> bars_per_session minutes * minutes \<and>
    (bars_per_session minutes - 1) * minutes < session_minutes \<and>
    estimate_bar_count n a b minutes =
      n * int (card {d. a \<le> d \<and> d \<le> b \<and> weekday d < 5}) * bars_per_session minutes"
  using bars_per_session_bounds [OF assms] by (simp add: weekdays_between_card estimate_bar_count_def)

theorem weekday_count_exact_witness:
  "weekdays_between 0 9 = int (card {d. 0 \<le> d \<and> d \<le> 9 \<and> weekday d < 5}) \<and>
    session_minutes \<le> bars_per_session 60 * 60 \<and> (bars_per_session 60 - 1) * 60 < session_minutes \<and>
    estimate_bar_count 2 0 9 60 = 2 * int (card {d. 0 \<le> d \<and> d \<le> 9 \<and> weekday d < 5}) * bars_per_session 60"
  by (rule weekday_count_exact) simp

text \<open>the warm-up is long enough. Any run of that many calendar days holds enough weekday
  sessions for the requested number of bars.\<close>

theorem warmup_covers_period:
  assumes "0 < minutes"
  shows "period \<le> weekdays_between a (a + warmup_calendar_days period minutes - 1) * bars_per_session minutes"
proof -
  let ?b = "bars_per_session minutes"
  define s where "s = \<lceil>real_of_int (max period 1) / real_of_int ?b\<rceil>"
  define n where "n = warmup_calendar_days period minutes"
  have b: "0 < ?b" by (rule bars_per_session_bounds [OF assms])
  have "real_of_int (max period 1) / real_of_int ?b \<le> real_of_int s" unfolding s_def by linarith
  then have "real_of_int (max period 1) \<le> real_of_int (s * ?b)" using b by (simp add: field_simps)
  then have ps: "max period 1 \<le> s * ?b" by (simp only: of_int_le_iff)
  then have s: "0 < s" using b by (metis less_le_trans max.cobounded2 not_less zero_less_mult_pos2 zero_less_one)
  have n: "real_of_int s * 7 / 5 * (12 / 10) + 4 \<le> real_of_int n"
    unfolding n_def warmup_calendar_days_def Let_def s_def [symmetric] by linarith
  then have "42 * real_of_int s + 100 \<le> 25 * real_of_int n" by simp
  then have n': "42 * s + 100 \<le> 25 * n" by linarith
  then have "0 \<le> n" using s by linarith
  from weekdays_lower [OF this, of a] n' s have "s \<le> int (card (weekday_set a n))" by linarith
  moreover have "{d. a \<le> d \<and> d \<le> a + n - 1 \<and> weekday d < 5} = weekday_set a n"
    by (auto simp: weekday_set_def)
  ultimately have "s \<le> weekdays_between a (a + n - 1)" by (simp add: weekdays_between_card)
  then have "s * ?b \<le> weekdays_between a (a + n - 1) * ?b" using b by (intro mult_right_mono) auto
  with ps show ?thesis unfolding n_def by linarith
qed

theorem warmup_covers_period_witness:
  "90 \<le> weekdays_between 4 (4 + warmup_calendar_days 90 60 - 1) * bars_per_session 60"
  by (rule warmup_covers_period) simp

end
