(* ===== verification/Run_Controls.thy ===== *)
theory Run_Controls
  imports Bar_Interval
begin

text \<open>
  \<open>src/services/run_controls.py\<close>: the execution controls a run form sends beside the
  strategy's own parameters. JSON values are \<open>pyval\<close>s; \<open>news\<close> says whether the server has
  a news database. A refused control is a ValueError, and a JSON integer beyond the floats
  makes \<open>math.isfinite\<close> raise an OverflowError.
\<close>

section \<open>Definitions\<close>

definition control_keys :: "string list" where
  "control_keys = [''universe'', ''slippageBps'', ''commissionPerShare'', ''signals'', ''sentimentGate'',
     ''barIntervalSeconds'', ''weights'']"

definition weight_sum_tolerance :: real where "weight_sum_tolerance = 1 / 10 ^ 6"

definition timeframe_labels :: "(int, string) dict" where
  "timeframe_labels = [(60, ''1m''), (300, ''5m''), (900, ''15m''), (1800, ''30m''), (3600, ''1h''), (86400, ''1d'')]"

definition timeframe_label :: "(string, pyval) dict \<Rightarrow> string" where
  "timeframe_label params =
     (case dict_get params ''barIntervalSeconds'' of
        Some (VInt s) \<Rightarrow> dict_or timeframe_labels s ''1d''
      | _ \<Rightarrow> ''1d'')"

text \<open>\<open>not isinstance(value, bool) and isinstance(value, (int, float)) and math.isfinite(value)\<close>,
  with the value as a float.\<close>

definition finite_number :: "pyval \<Rightarrow> py_exn + pyfloat" where
  "finite_number v = (case v of
     VInt i \<Rightarrow> float_of_int i
   | VFloat x \<Rightarrow> if isfinite x then Inr x else Inl ValueError
   | _ \<Rightarrow> Inl ValueError)"

text \<open>The ticker pattern \<open>[A-Z0-9^][A-Z0-9.^=-]{0,19}\<close>.\<close>

definition ticker_head :: "char \<Rightarrow> bool" where
  "ticker_head c \<longleftrightarrow> (let n = (of_char c :: nat) in (65 \<le> n \<and> n \<le> 90) \<or> (48 \<le> n \<and> n \<le> 57) \<or> c = CHR ''^'')"

definition ticker_ok :: "string \<Rightarrow> bool" where
  "ticker_ok s = (case s of
     [] \<Rightarrow> False
   | c # cs \<Rightarrow> ticker_head c \<and> length cs \<le> 19 \<and>
       list_all (\<lambda>d. ticker_head d \<or> d = CHR ''.'' \<or> d = CHR ''='' \<or> d = CHR ''-'') cs)"

fun as_str :: "pyval \<Rightarrow> string option" where
  "as_str (VStr s) = Some s"
| "as_str _ = None"

definition universe_of :: "pyval \<Rightarrow> py_exn + string list" where
  "universe_of v = (case v of
     VList vs \<Rightarrow>
       if \<not> (1 \<le> length vs \<and> length vs \<le> 50) then Inl ValueError
       else if \<not> list_all (\<lambda>v. as_str v \<noteq> None) vs then Inl ValueError
       else let universe = map (\<lambda>v. upper (strip (the (as_str v)))) vs in
            if \<not> list_all ticker_ok universe then Inl ValueError
            else if \<not> distinct universe then Inl ValueError
            else Inr universe
   | _ \<Rightarrow> Inl ValueError)"

text \<open>The loop over the submitted weights.\<close>

fun weight_loop :: "(string \<times> pyval) list \<Rightarrow> (string, pyfloat) dict \<Rightarrow> py_exn + (string, pyfloat) dict" where
  "weight_loop [] acc = Inr acc"
| "weight_loop ((key, value) # rest) acc =
     (let ticker = upper (strip key) in
      if dict_get acc ticker \<noteq> None then Inl ValueError
      else ebind (finite_number value) (\<lambda>x.
             if x < 0 then Inl ValueError else weight_loop rest (dict_set ticker x acc)))"

definition py_sum :: "pyfloat list \<Rightarrow> pyfloat" where
  "py_sum xs = foldl (+) (Fin 0) xs"

text \<open>A dictionary comprehension over a list of keys.\<close>

definition dict_comp :: "('k \<Rightarrow> 'v) \<Rightarrow> 'k list \<Rightarrow> ('k, 'v) dict" where
  "dict_comp f ks = foldl (\<lambda>d k. dict_set k (f k) d) [] ks"

definition validated_weights :: "pyval \<Rightarrow> string list \<Rightarrow> py_exn + (string, pyfloat) dict" where
  "validated_weights raw universe = (case raw of
     VDict kvs \<Rightarrow>
       ebind (weight_loop kvs []) (\<lambda>weights.
         if set (map fst weights) \<noteq> set universe then Inl ValueError
         else let total = py_sum (map snd weights) in
              if total \<le> 0 then Inl ValueError
              else if total > Fin (1 + weight_sum_tolerance) then Inl ValueError
              else Inr (dict_comp (\<lambda>t. dict_or weights t (Fin 0)) universe))
   | _ \<Rightarrow> Inl ValueError)"

definition validated_sentiment_gate :: "bool \<Rightarrow> pyval \<Rightarrow> string \<Rightarrow> py_exn + pyval option" where
  "validated_sentiment_gate news raw mode = (case raw of
     VDict d \<Rightarrow>
       (case dict_get d ''enabled'' of
          Some (VBool b) \<Rightarrow>
            if \<not> b then Inr None
            else ebind (finite_number (dict_or d ''threshold'' VNone)) (\<lambda>x.
                   if \<not> (Fin (-1) \<le> x \<and> x \<le> Fin 0) then Inl ValueError
                   else if mode = ''fast'' then Inl ValueError
                   else if \<not> news then Inl ValueError
                   else Inr (Some (VDict [(''enabled'', VBool True), (''threshold'', VFloat x)])))
        | _ \<Rightarrow> Inl ValueError)
   | _ \<Rightarrow> Inl ValueError)"

definition bar_interval_controls :: "pyval \<Rightarrow> string \<Rightarrow> py_exn + (string, pyval) dict" where
  "bar_interval_controls v mode =
     ebind (is_intraday v) (\<lambda>intraday.
       let seconds = the (choice_of v) in
       if \<not> intraday then Inr [(''barIntervalSeconds'', VInt seconds)]
       else if mode = ''fast'' then Inl ValueError
       else Inr [(''barIntervalSeconds'', VInt seconds), (''BAR_INTERVAL_SECONDS'', VInt seconds), (''INTERVAL'', VInt 0)])"

abbreviation vtickers :: "string list \<Rightarrow> pyval" where "vtickers ts \<equiv> VList (map VStr ts)"

abbreviation vweights :: "(string, pyfloat) dict \<Rightarrow> pyval" where
  "vweights ws \<equiv> VDict (map (\<lambda>(t, x). (t, VFloat x)) ws)"

definition equal_weights :: "string list \<Rightarrow> (string, pyfloat) dict" where
  "equal_weights universe = dict_comp (\<lambda>t. Fin (1 / real (length universe))) universe"

definition universe_controls ::
  "(string, pyval) dict \<Rightarrow> string list \<Rightarrow> py_exn + (string, pyval) dict \<times> string list" where
  "universe_controls raw default_universe =
     (case dict_get raw ''universe'' of
        None \<Rightarrow> Inr ([], default_universe)
      | Some v \<Rightarrow>
          ebind (universe_of v) (\<lambda>universe.
            let c = [(''universe'', vtickers universe)] in
            Inr (if set universe \<noteq> set default_universe
                 then c @ [(''TICKERS'', vtickers universe), (''WEIGHTS'', vweights (equal_weights universe))]
                 else c, universe)))"

definition weight_controls ::
  "(string, pyval) dict \<Rightarrow> string list \<Rightarrow> (string, pyval) dict \<Rightarrow> py_exn + (string, pyval) dict" where
  "weight_controls raw universe c =
     (case dict_get raw ''weights'' of
        None \<Rightarrow> Inr c
      | Some v \<Rightarrow>
          ebind (validated_weights v universe) (\<lambda>ws.
            Inr (dict_set ''WEIGHTS'' (vweights ws) (dict_set ''TICKERS'' (vtickers universe)
                  (dict_set ''weights'' (vweights ws) c)))))"

definition cost_control ::
  "(string, pyval) dict \<Rightarrow> string \<Rightarrow> real \<Rightarrow> (string, pyval) dict \<Rightarrow> py_exn + (string, pyval) dict" where
  "cost_control raw key maximum c =
     (case dict_get raw key of
        None \<Rightarrow> Inr c
      | Some v \<Rightarrow>
          ebind (finite_number v) (\<lambda>x.
            if Fin 0 \<le> x \<and> x \<le> Fin maximum then Inr (dict_set key (VFloat x) c) else Inl ValueError))"

definition split_controls ::
  "bool \<Rightarrow> (string, pyval) dict \<Rightarrow> string list \<Rightarrow> string
   \<Rightarrow> py_exn + (string, pyval) dict \<times> (string, pyval) dict \<times> string list" where
  "split_controls news raw default_universe mode =
     (let params = filter (\<lambda>(k, v). k \<notin> set control_keys) raw in
      ebind (universe_controls raw default_universe) (\<lambda>(c0, universe).
      ebind (weight_controls raw universe c0) (\<lambda>c1.
      ebind (cost_control raw ''slippageBps'' 1000 c1) (\<lambda>c2.
      ebind (cost_control raw ''commissionPerShare'' 100 c2) (\<lambda>c3.
      ebind (guard_e ValueError (\<not> (mode = ''fast'' \<and>
               (case dict_get c3 ''commissionPerShare'' of Some (VFloat x) \<Rightarrow> \<not> feq x 0 | _ \<Rightarrow> False)))) (\<lambda>_.
      ebind (case dict_get raw ''barIntervalSeconds'' of
               None \<Rightarrow> Inr c3
             | Some v \<Rightarrow> ebind (bar_interval_controls v mode) (\<lambda>b. Inr (dict_merge c3 b))) (\<lambda>c4.
      ebind (guard_e ValueError (case dict_get raw ''signals'' of None \<Rightarrow> True | Some v \<Rightarrow> v = VList [])) (\<lambda>_.
      ebind (case dict_get raw ''sentimentGate'' of
               None \<Rightarrow> Inr c4
             | Some v \<Rightarrow> ebind (validated_sentiment_gate news v mode) (\<lambda>g.
                 Inr (case g of None \<Rightarrow> c4 | Some gate \<Rightarrow> dict_set ''sentimentGate'' gate c4))) (\<lambda>c5.
        Inr (params, c5, universe))))))))))"

section \<open>What an accepted form satisfies\<close>

text \<open>An allocation the engine can hold: over exactly the run's tickers, nothing negative,
  something allocated, no leverage.\<close>

definition allocation_ok :: "string list \<Rightarrow> pyval \<Rightarrow> bool" where
  "allocation_ok universe v \<longleftrightarrow> (\<exists>ws. v = vweights ws \<and> distinct (map fst ws) \<and> set (map fst ws) = set universe \<and>
     (\<forall>(t, x)\<in>set ws. \<exists>r. x = Fin r \<and> 0 \<le> r) \<and>
     0 < (\<Sum>(t, x)\<leftarrow>ws. realval x) \<and> (\<Sum>(t, x)\<leftarrow>ws. realval x) \<le> 1 + weight_sum_tolerance)"

definition controls_ok :: "bool \<Rightarrow> string \<Rightarrow> string list \<Rightarrow> (string, pyval) dict \<Rightarrow> bool" where
  "controls_ok news mode universe c \<longleftrightarrow>
     (\<forall>v. dict_get c ''WEIGHTS'' = Some v \<longrightarrow> allocation_ok universe v \<and> dict_get c ''TICKERS'' = Some (vtickers universe)) \<and>
     (\<forall>v. dict_get c ''slippageBps'' = Some v \<longrightarrow> (\<exists>x. v = VFloat (Fin x) \<and> 0 \<le> x \<and> x \<le> 1000)) \<and>
     (\<forall>v. dict_get c ''commissionPerShare'' = Some v \<longrightarrow>
        (\<exists>x. v = VFloat (Fin x) \<and> 0 \<le> x \<and> x \<le> 100 \<and> (mode = ''fast'' \<longrightarrow> x = 0))) \<and>
     (\<forall>v. dict_get c ''BAR_INTERVAL_SECONDS'' = Some v \<longrightarrow> mode \<noteq> ''fast'' \<and>
        (\<exists>s \<in> set bar_seconds_choices. v = VInt s \<and> s div 60 < session_minutes)) \<and>
     (\<forall>v. dict_get c ''sentimentGate'' = Some v \<longrightarrow> mode \<noteq> ''fast'' \<and> news \<and>
        (\<exists>x. v = VDict [(''enabled'', VBool True), (''threshold'', VFloat (Fin x))] \<and> -1 \<le> x \<and> x \<le> 0))"

lemma finite_number_Inr: "finite_number v = Inr x \<Longrightarrow> \<exists>r. x = Fin r"
  by (auto simp: finite_number_def float_of_int_def isfinite_iff split: pyval.splits if_splits)

lemma universe_of_Inr: "universe_of v = Inr u \<Longrightarrow> distinct u \<and> list_all ticker_ok u \<and> u \<noteq> []"
  by (auto simp: universe_of_def Let_def split: pyval.splits if_splits)

lemma weight_loop_Inr:
  "weight_loop kvs acc = Inr ws \<Longrightarrow> distinct (map fst acc) \<Longrightarrow> (\<forall>(t, x)\<in>set acc. \<exists>r. x = Fin r \<and> 0 \<le> r) \<Longrightarrow>
   distinct (map fst ws) \<and> (\<forall>(t, x)\<in>set ws. \<exists>r. x = Fin r \<and> 0 \<le> r)"
proof (induction kvs acc rule: weight_loop.induct)
  case (1 acc)
  then show ?case by simp
next
  case (2 key v rest acc)
  let ?t = "upper (strip key)"
  from 2(2) obtain x where new: "dict_get acc ?t = None" and x: "finite_number v = Inr x" "\<not> x < 0"
    and loop: "weight_loop rest (dict_set ?t x acc) = Inr ws"
    by (auto simp: Let_def ebind_Inr_iff split: if_splits)
  obtain r where r: "x = Fin r" "0 \<le> r" using finite_number_Inr [OF x(1)] x(2) by (auto simp: zero_Fin)
  have "dict_set t v d = d @ [(t, v)]" if "dict_get d t = None" for t :: string and v :: pyfloat and d
    using that by (induction t v d rule: dict_set.induct) (auto split: if_splits)
  from this [OF new] have "\<forall>(t, y)\<in>set (dict_set ?t x acc). \<exists>r. y = Fin r \<and> 0 \<le> r" using 2(4) r by auto
  moreover have "distinct (map fst (dict_set ?t x acc))" using 2(3) by simp
  ultimately show ?case using 2(1) [OF refl] new x loop by auto
qed

lemma py_sum_Fin: "\<forall>x\<in>set xs. isfinite x \<Longrightarrow> py_sum xs = Fin (\<Sum>x\<leftarrow>xs. realval x)"
proof -
  have "\<forall>x\<in>set xs. isfinite x \<Longrightarrow> foldl (+) (Fin a) xs = Fin (a + (\<Sum>x\<leftarrow>xs. realval x))" for a
    by (induction xs arbitrary: a) (auto simp: isfinite_iff)
  then show "\<forall>x\<in>set xs. isfinite x \<Longrightarrow> py_sum xs = Fin (\<Sum>x\<leftarrow>xs. realval x)" by (simp add: py_sum_def)
qed

lemma dict_comp_snoc: "dict_comp f (ks @ [k]) = dict_set k (f k) (dict_comp f ks)"
  by (simp add: dict_comp_def)

lemma dict_comp_props:
  "distinct (map fst (dict_comp f ks)) \<and> fst ` set (dict_comp f ks) = set ks \<and>
   dict_get (dict_comp f ks) k = (if k \<in> set ks then Some (f k) else None)"
proof (induction ks rule: rev_induct)
  case Nil
  then show ?case by (simp add: dict_comp_def)
next
  case (snoc k' ks)
  then show ?case by (auto simp: dict_comp_snoc)
qed

lemma dict_sum:
  fixes g :: "'v \<Rightarrow> real"
  shows "distinct (map fst d) \<Longrightarrow> (\<Sum>(t, x)\<leftarrow>d. g x) = (\<Sum>t\<in>fst ` set d. g (the (map_of d t)))"
proof (induction d)
  case Nil
  then show ?case by simp
next
  case (Cons p d)
  obtain t x where p: "p = (t, x)" by force
  have "(\<Sum>u\<in>fst ` set d. g (the (map_of (p # d) u))) = (\<Sum>u\<in>fst ` set d. g (the (map_of d u)))"
    using Cons.prems p by (intro sum.cong) auto
  then show ?case using Cons p by simp
qed

lemma allocation_weights:
  assumes "validated_weights v universe = Inr ws"
  shows "allocation_ok universe (vweights ws)"
proof -
  obtain kvs weights where v: "v = VDict kvs" and loop: "weight_loop kvs [] = Inr weights"
    and keys: "set (map fst weights) = set universe"
    and tot: "\<not> py_sum (map snd weights) \<le> 0" "\<not> py_sum (map snd weights) > Fin (1 + weight_sum_tolerance)"
    and ws: "ws = dict_comp (\<lambda>t. dict_or weights t (Fin 0)) universe"
    using assms by (auto simp: validated_weights_def ebind_Inr_iff Let_def split: pyval.splits if_splits)
  from weight_loop_Inr [OF loop] have d: "distinct (map fst weights)"
    and fin: "\<forall>(t, x)\<in>set weights. \<exists>r. x = Fin r \<and> 0 \<le> r" by simp_all
  have "\<forall>x\<in>set (map snd weights). isfinite x" using fin by (auto simp: isfinite_iff)
  from py_sum_Fin [OF this] have total: "py_sum (map snd weights) = Fin (\<Sum>(t, x)\<leftarrow>weights. realval x)"
    by (simp add: case_prod_beta' comp_def)
  note dc = dict_comp_props [of "\<lambda>t. dict_or weights t (Fin 0)" universe, folded ws]
  have "(\<Sum>(t, x)\<leftarrow>ws. realval x) = (\<Sum>t\<in>fst ` set ws. realval (the (map_of ws t)))"
    using dict_sum [of ws realval] dc by blast
  also have "\<dots> = (\<Sum>t\<in>fst ` set weights. realval (the (map_of weights t)))"
  proof (rule sum.cong)
    show "fst ` set ws = fst ` set weights" using dc keys by simp
    fix t assume "t \<in> fst ` set weights"
    then have "map_of weights t \<noteq> None" "t \<in> set universe" using keys by (auto simp: map_of_eq_None_iff)
    then show "realval (the (map_of ws t)) = realval (the (map_of weights t))"
      using dc [of t] by (auto simp: dict_or_def)
  qed
  also have "\<dots> = (\<Sum>(t, x)\<leftarrow>weights. realval x)" using dict_sum [OF d, of realval] by simp
  finally have sums: "(\<Sum>(t, x)\<leftarrow>ws. realval x) = (\<Sum>(t, x)\<leftarrow>weights. realval x)" .
  have "\<exists>r. x = Fin r \<and> 0 \<le> r" if "(t, x) \<in> set ws" for t x
  proof -
    have "map_of ws t = Some x" by (rule map_of_is_SomeI) (use that dc in blast)+
    then have "x = dict_or weights t (Fin 0)" using dc [of t] by (auto split: if_splits)
    then show ?thesis using fin by (auto simp: dict_or_def dest!: map_of_SomeD split: option.splits)
  qed
  then show ?thesis using dc keys tot total sums
    unfolding allocation_ok_def by (intro exI [of _ ws]) (auto simp: zero_Fin)
qed

lemma allocation_equal:
  assumes "distinct universe" "universe \<noteq> []"
  shows "allocation_ok universe (vweights (equal_weights universe))"
    and "(\<Sum>(t, x)\<leftarrow>equal_weights universe. realval x) = 1"
proof -
  let ?ws = "equal_weights universe"
  have dc: "distinct (map fst ?ws)" "fst ` set ?ws = set universe"
    "\<And>k. dict_get ?ws k = (if k \<in> set universe then Some (Fin (1 / real (length universe))) else None)"
    using dict_comp_props [of "\<lambda>t. Fin (1 / real (length universe))" universe] by (auto simp: equal_weights_def)
  have "(\<Sum>(t, x)\<leftarrow>?ws. realval x) = (\<Sum>t\<in>set universe. 1 / real (length universe))"
    using dict_sum [OF dc(1), of realval] dc(2,3) by simp
  also have "\<dots> = 1" using assms by (simp add: distinct_card)
  finally show one: "(\<Sum>(t, x)\<leftarrow>?ws. realval x) = 1" .
  have "\<exists>r. x = Fin r \<and> 0 \<le> r" if "(t, x) \<in> set ?ws" for t x
  proof -
    have "dict_get ?ws t = Some x" by (rule map_of_is_SomeI) (use that dc(1) in blast)+
    then show ?thesis using dc(3) by (auto split: if_splits)
  qed
  then show "allocation_ok universe (vweights ?ws)" using one dc(1,2)
    unfolding allocation_ok_def by (intro exI [of _ ?ws]) (auto simp: weight_sum_tolerance_def)
qed

section \<open>The stages\<close>

lemma universe_stage:
  assumes "universe_controls raw du = Inr (c, u)"
  shows "\<forall>k. dict_get c k \<noteq> None \<longrightarrow> k \<in> {''universe'', ''TICKERS'', ''WEIGHTS''}"
    and "\<forall>v. dict_get c ''WEIGHTS'' = Some v \<longrightarrow> allocation_ok u v \<and> dict_get c ''TICKERS'' = Some (vtickers u)"
    and "if dict_get raw ''universe'' = None then u = du else distinct u \<and> list_all ticker_ok u"
  using assms universe_of_Inr allocation_equal(1)
  by (auto simp: universe_controls_def ebind_Inr_iff Let_def split: option.splits if_splits)

lemma weight_stage:
  assumes "weight_controls raw u c = Inr c'"
    and "\<forall>v. dict_get c ''WEIGHTS'' = Some v \<longrightarrow> allocation_ok u v \<and> dict_get c ''TICKERS'' = Some (vtickers u)"
  shows "\<forall>v. dict_get c' ''WEIGHTS'' = Some v \<longrightarrow> allocation_ok u v \<and> dict_get c' ''TICKERS'' = Some (vtickers u)"
    and "\<forall>k. k \<notin> {''weights'', ''TICKERS'', ''WEIGHTS''} \<longrightarrow> dict_get c' k = dict_get c k"
  using assms allocation_weights
  by (auto simp: weight_controls_def ebind_Inr_iff split: option.splits)

lemma cost_stage:
  assumes "cost_control raw key m c = Inr c'"
  shows "\<forall>k. k \<noteq> key \<longrightarrow> dict_get c' k = dict_get c k"
    and "dict_get c' key = dict_get c key \<or> (\<exists>x. dict_get c' key = Some (VFloat (Fin x)) \<and> 0 \<le> x \<and> x \<le> m)"
  using assms
  by (auto simp: cost_control_def ebind_Inr_iff dest!: finite_number_Inr split: option.splits if_splits)

lemma bar_stage:
  assumes "bar_interval_controls v mode = Inr b"
  shows "\<forall>k. k \<notin> {''barIntervalSeconds'', ''BAR_INTERVAL_SECONDS'', ''INTERVAL''} \<longrightarrow> dict_get (dict_merge c b) k = dict_get c k"
    and "dict_get (dict_merge c b) ''BAR_INTERVAL_SECONDS'' = dict_get c ''BAR_INTERVAL_SECONDS'' \<or>
      mode \<noteq> ''fast'' \<and> (\<exists>s \<in> set bar_seconds_choices.
        dict_get (dict_merge c b) ''BAR_INTERVAL_SECONDS'' = Some (VInt s) \<and> s div 60 < session_minutes)"
  using assms
  by (auto simp: bar_interval_controls_def is_intraday_def bar_minutes_def ebind_Inr_iff Let_def dict_merge_def
      choice_of_def split: if_splits option.splits pyval.splits pyfloat.splits)

lemma gate_stage:
  assumes "validated_sentiment_gate news v mode = Inr (Some gate)"
  shows "mode \<noteq> ''fast'' \<and> news \<and>
    (\<exists>x. gate = VDict [(''enabled'', VBool True), (''threshold'', VFloat (Fin x))] \<and> -1 \<le> x \<and> x \<le> 0)"
  using assms
  by (auto simp: validated_sentiment_gate_def ebind_Inr_iff dest!: finite_number_Inr
      split: pyval.splits option.splits if_splits)

lemma split_controls_stages:
  assumes "split_controls news raw du mode = Inr (params, c, universe)"
  obtains c0 c1 c2 c3 c4 where
    "universe_controls raw du = Inr (c0, universe)" "weight_controls raw universe c0 = Inr c1"
    "cost_control raw ''slippageBps'' 1000 c1 = Inr c2"
    "cost_control raw ''commissionPerShare'' 100 c2 = Inr c3"
    "\<not> (mode = ''fast'' \<and> (case dict_get c3 ''commissionPerShare'' of Some (VFloat x) \<Rightarrow> \<not> feq x 0 | _ \<Rightarrow> False))"
    "(case dict_get raw ''barIntervalSeconds'' of None \<Rightarrow> Inr c3
      | Some v \<Rightarrow> ebind (bar_interval_controls v mode) (\<lambda>b. Inr (dict_merge c3 b))) = Inr c4"
    "(case dict_get raw ''sentimentGate'' of None \<Rightarrow> Inr c4
      | Some v \<Rightarrow> ebind (validated_sentiment_gate news v mode) (\<lambda>g.
          Inr (case g of None \<Rightarrow> c4 | Some gate \<Rightarrow> dict_set ''sentimentGate'' gate c4))) = Inr c"
    "params = filter (\<lambda>(k, v). k \<notin> set control_keys) raw"
  using assms by (auto simp: split_controls_def Let_def ebind_Inr_iff)

lemma split_controls_sound:
  assumes "split_controls news raw du mode = Inr (params, c, universe)"
  shows "controls_ok news mode universe c \<and>
    list_all (\<lambda>(k, v). k \<notin> set control_keys) params \<and>
    (if dict_get raw ''universe'' = None then universe = du else distinct universe \<and> list_all ticker_ok universe)"
proof -
  from assms obtain c0 c1 c2 c3 c4 where
    s0: "universe_controls raw du = Inr (c0, universe)" and s1: "weight_controls raw universe c0 = Inr c1"
    and s2: "cost_control raw ''slippageBps'' 1000 c1 = Inr c2"
    and s3: "cost_control raw ''commissionPerShare'' 100 c2 = Inr c3"
    and fast: "\<not> (mode = ''fast'' \<and> (case dict_get c3 ''commissionPerShare'' of Some (VFloat x) \<Rightarrow> \<not> feq x 0 | _ \<Rightarrow> False))"
    and s4: "(case dict_get raw ''barIntervalSeconds'' of None \<Rightarrow> Inr c3
      | Some v \<Rightarrow> ebind (bar_interval_controls v mode) (\<lambda>b. Inr (dict_merge c3 b))) = Inr c4"
    and s5: "(case dict_get raw ''sentimentGate'' of None \<Rightarrow> Inr c4
      | Some v \<Rightarrow> ebind (validated_sentiment_gate news v mode) (\<lambda>g.
          Inr (case g of None \<Rightarrow> c4 | Some gate \<Rightarrow> dict_set ''sentimentGate'' gate c4))) = Inr c"
    and params: "params = filter (\<lambda>(k, v). k \<notin> set control_keys) raw"
    by (rule split_controls_stages)
  note u = universe_stage [OF s0]
  note w = weight_stage [OF s1 u(2)]
  note sl = cost_stage [OF s2]
  note co = cost_stage [OF s3]
  have b: "(\<forall>k. k \<notin> {''barIntervalSeconds'', ''BAR_INTERVAL_SECONDS'', ''INTERVAL''} \<longrightarrow> dict_get c4 k = dict_get c3 k) \<and>
    (dict_get c4 ''BAR_INTERVAL_SECONDS'' = dict_get c3 ''BAR_INTERVAL_SECONDS'' \<or> mode \<noteq> ''fast'' \<and>
      (\<exists>s \<in> set bar_seconds_choices. dict_get c4 ''BAR_INTERVAL_SECONDS'' = Some (VInt s) \<and> s div 60 < session_minutes))"
  proof (cases "dict_get raw ''barIntervalSeconds''")
    case None
    with s4 show ?thesis by simp
  next
    case (Some v)
    with s4 obtain d where d: "bar_interval_controls v mode = Inr d" "c4 = dict_merge c3 d" by (auto simp: ebind_Inr_iff)
    show ?thesis unfolding d(2) using bar_stage [OF d(1), of c3] by blast
  qed
  note b1 = conjunct1 [OF b] and b2 = conjunct2 [OF b]
  have g1: "\<forall>k. k \<noteq> ''sentimentGate'' \<longrightarrow> dict_get c k = dict_get c4 k"
    and g2: "dict_get c ''sentimentGate'' = dict_get c4 ''sentimentGate'' \<or> mode \<noteq> ''fast'' \<and> news \<and>
      (\<exists>x. dict_get c ''sentimentGate'' = Some (VDict [(''enabled'', VBool True), (''threshold'', VFloat (Fin x))])
        \<and> -1 \<le> x \<and> x \<le> 0)"
    using s5 gate_stage [of news _ mode] by (auto simp: ebind_Inr_iff split: option.splits)
  have none: "dict_get c0 k = None" if "k \<notin> {''universe'', ''TICKERS'', ''WEIGHTS''}" for k
    using u(1) that by blast
  have "dict_get c ''WEIGHTS'' = dict_get c1 ''WEIGHTS''" "dict_get c ''TICKERS'' = dict_get c1 ''TICKERS''"
    using g1 b1 co(1) sl(1) by simp_all
  moreover have "dict_get c ''slippageBps'' = dict_get c2 ''slippageBps''" "dict_get c1 ''slippageBps'' = None"
    using g1 b1 co(1) w(2) none by simp_all
  moreover have "dict_get c ''commissionPerShare'' = dict_get c3 ''commissionPerShare''"
    "dict_get c2 ''commissionPerShare'' = None"
    using g1 b1 sl(1) w(2) none by simp_all
  moreover have "dict_get c ''BAR_INTERVAL_SECONDS'' = dict_get c4 ''BAR_INTERVAL_SECONDS''"
    "dict_get c3 ''BAR_INTERVAL_SECONDS'' = None"
    using g1 co(1) sl(1) w(2) none by simp_all
  moreover have "dict_get c4 ''sentimentGate'' = None"
    using b1 co(1) sl(1) w(2) none by simp
  ultimately have eqs: "dict_get c ''WEIGHTS'' = dict_get c1 ''WEIGHTS''" "dict_get c ''TICKERS'' = dict_get c1 ''TICKERS''"
    "dict_get c ''slippageBps'' = dict_get c2 ''slippageBps''" "dict_get c1 ''slippageBps'' = None"
    "dict_get c ''commissionPerShare'' = dict_get c3 ''commissionPerShare''" "dict_get c2 ''commissionPerShare'' = None"
    "dict_get c ''BAR_INTERVAL_SECONDS'' = dict_get c4 ''BAR_INTERVAL_SECONDS''" "dict_get c3 ''BAR_INTERVAL_SECONDS'' = None"
    "dict_get c4 ''sentimentGate'' = None" by blast+
  have "controls_ok news mode universe c"
    unfolding controls_ok_def
  proof (intro conjI)
    show "\<forall>v. dict_get c ''WEIGHTS'' = Some v \<longrightarrow> allocation_ok universe v \<and> dict_get c ''TICKERS'' = Some (vtickers universe)"
      unfolding eqs(1,2) by (rule w(1))
    show "\<forall>v. dict_get c ''slippageBps'' = Some v \<longrightarrow> (\<exists>x. v = VFloat (Fin x) \<and> 0 \<le> x \<and> x \<le> 1000)"
      using sl(2) unfolding eqs(3,4) by auto
    show "\<forall>v. dict_get c ''commissionPerShare'' = Some v \<longrightarrow>
        (\<exists>x. v = VFloat (Fin x) \<and> 0 \<le> x \<and> x \<le> 100 \<and> (mode = ''fast'' \<longrightarrow> x = 0))"
      using co(2) fast unfolding eqs(5,6) by (auto simp: zero_Fin)
    show "\<forall>v. dict_get c ''BAR_INTERVAL_SECONDS'' = Some v \<longrightarrow> mode \<noteq> ''fast'' \<and>
        (\<exists>s \<in> set bar_seconds_choices. v = VInt s \<and> s div 60 < session_minutes)"
      using b2 unfolding eqs(7,8) by auto
    show "\<forall>v. dict_get c ''sentimentGate'' = Some v \<longrightarrow> mode \<noteq> ''fast'' \<and> news \<and>
        (\<exists>x. v = VDict [(''enabled'', VBool True), (''threshold'', VFloat (Fin x))] \<and> -1 \<le> x \<and> x \<le> 0)"
      using g2 unfolding eqs(9) by auto
  qed
  then show ?thesis using u(3) by (auto simp: params list_all_iff)
qed

section \<open>Properties\<close>

text \<open>an accepted run form is executable as it stands. Its ticker list has valid distinct
  symbols, its allocation covers exactly those tickers with nonnegative weights that add up
  to more than nothing and no more than one, costs are within their limits and zero
  commission in fast mode, intraday bars and the news gate only come in event mode, and no
  control leaks into the strategy's parameters.\<close>

theorem accepted_controls_sound:
  assumes "split_controls news raw du mode = Inr (params, c, universe)"
  shows "controls_ok news mode universe c \<and>
    list_all (\<lambda>(k, v). k \<notin> set control_keys) params \<and>
    (if dict_get raw ''universe'' = None then universe = du else distinct universe \<and> list_all ticker_ok universe)"
  by (rule split_controls_sound [OF assms])

definition demo_form :: "(string, pyval) dict" where
  "demo_form = [(''weights'', VDict [(''MSFT'', VFloat (Fin (1/4))), (''AAPL'', VFloat (Fin (3/4)))]),
     (''slippageBps'', VFloat (Fin 5)), (''LOOKBACK'', VInt 20)]"

lemma demo_split: "split_controls False demo_form [''AAPL'', ''MSFT''] ''event'' =
  Inr ([(''LOOKBACK'', VInt 20)],
    [(''weights'', vweights [(''AAPL'', Fin (3/4)), (''MSFT'', Fin (1/4))]),
     (''TICKERS'', vtickers [''AAPL'', ''MSFT'']),
     (''WEIGHTS'', vweights [(''AAPL'', Fin (3/4)), (''MSFT'', Fin (1/4))]), (''slippageBps'', VFloat (Fin 5))],
    [''AAPL'', ''MSFT''])"
proof -
  have up: "upper (strip ''AAPL'') = ''AAPL''" "upper (strip ''MSFT'') = ''MSFT''" by code_simp+
  have "validated_weights (VDict [(''MSFT'', VFloat (Fin (1/4))), (''AAPL'', VFloat (Fin (3/4)))]) [''AAPL'', ''MSFT''] =
    Inr [(''AAPL'', Fin (3/4)), (''MSFT'', Fin (1/4))]"
    by (auto simp: validated_weights_def up finite_number_def zero_Fin py_sum_def weight_sum_tolerance_def
        dict_comp_def dict_or_def)
  then show ?thesis
    by (simp add: split_controls_def demo_form_def control_keys_def universe_controls_def weight_controls_def
        cost_control_def finite_number_def)
qed

theorem accepted_controls_sound_witness:
  "\<exists>params c universe. split_controls False demo_form [''AAPL'', ''MSFT''] ''event'' = Inr (params, c, universe) \<and>
    controls_ok False ''event'' universe c"
  using demo_split accepted_controls_sound [OF demo_split] by blast

text \<open>a changed universe without explicit weights gets exactly equal weights that add
  up to one, over the submitted tickers.\<close>

theorem changed_universe_equal_weights:
  assumes "universe_controls raw du = Inr (c, universe)" and "dict_get raw ''universe'' = Some v" and "set universe \<noteq> set du"
  shows "dict_get c ''WEIGHTS'' = Some (vweights (equal_weights universe)) \<and>
    (\<Sum>(t, x)\<leftarrow>equal_weights universe. realval x) = 1 \<and>
    fst ` set (equal_weights universe) = set universe \<and>
    list_all (\<lambda>t. dict_get (equal_weights universe) t = Some (Fin (1 / real (length universe)))) universe"
proof -
  have u: "universe_of v = Inr universe" using assms(1,2) by (auto simp: universe_controls_def ebind_Inr_iff Let_def)
  show ?thesis
    using assms allocation_equal(2) [of universe] universe_of_Inr [OF u]
      dict_comp_props [of "\<lambda>t. Fin (1 / real (length universe))" universe]
    by (auto simp: universe_controls_def ebind_Inr_iff Let_def list_all_iff equal_weights_def)
qed

theorem changed_universe_equal_weights_witness:
  "\<exists>c. universe_controls [(''universe'', VList [VStr ''IBM'', VStr ''T''])] [''T''] = Inr (c, [''IBM'', ''T'']) \<and>
    dict_get c ''WEIGHTS'' = Some (vweights (equal_weights [''IBM'', ''T'']))"
proof -
  have "universe_of (VList [VStr ''IBM'', VStr ''T'']) = Inr [''IBM'', ''T'']" by code_simp
  then obtain c where c: "universe_controls [(''universe'', VList [VStr ''IBM'', VStr ''T''])] [''T''] = Inr (c, [''IBM'', ''T''])"
    by (simp add: universe_controls_def Let_def)
  from changed_universe_equal_weights [OF c] c show ?thesis by auto
qed

text \<open>An integer beyond the floats is not refused as a bad control: \<open>math.isfinite\<close> raises.\<close>

lemma huge_control_overflows:
  "split_controls news [(''slippageBps'', VInt (2 ^ 1024))] du mode = Inl OverflowError"
  by (simp add: split_controls_def universe_controls_def weight_controls_def cost_control_def finite_number_def
      float_of_int_def)

end
