(* ===== verification/Job_Manager.thy ===== *)
theory Job_Manager
  imports Prelude
begin

text \<open>
  \<open>src/workers/job_manager.py\<close>, the job state of \<open>src/workers/report_job.py\<close> and the
  report table of \<open>src/repositories/reports.py\<close>. Jobs are shared objects: the heap maps
  a reference to its job, the manager's dictionary maps run ids to references, so a thread
  that looked a job up keeps it when the dictionary drops it. Each section a thread runs
  under a job's lock is one operation; threads interleave between sections. The process
  pool's answer, the worker's outcome and the database's answer are arguments; the IPC
  process and engine construction are taken never to fail.
\<close>

section \<open>State\<close>

record run_spec =
  sp_id :: string
  sp_owner :: "string option"
  sp_name :: string
  sp_strategy_key :: string
  sp_strategy_name :: string
  sp_kind :: string
  sp_start :: int
  sp_end :: int
  sp_capital :: pyfloat
  sp_symbol :: string
  sp_params :: "(string \<times> pyval) list"
  sp_created :: int
  sp_purpose :: string

text \<open>The fields of a \<open>BacktestDetail\<close> the manager reads; the rest of a report is \<open>d_body\<close>.\<close>

record detail =
  d_id :: string
  d_name :: string
  d_strategy :: string
  d_created :: int
  d_status :: string
  d_progress :: int
  d_error :: "string option"
  d_curve :: "(int \<times> pyfloat) list"
  d_body :: pyval

record job_state =
  st_status :: string
  st_progress :: int
  st_cancel :: bool
  st_error :: "string option"

datatype fut = Pending | Running | Cancelled | Done

record job =
  j_spec :: run_spec
  j_state :: job_state
  j_future :: "fut option"
  j_finished :: "int option"
  j_detail :: "detail option"
  j_saved :: bool

record saved_report =
  rp_owner :: string
  rp_created :: int
  rp_strategy :: string
  rp_name :: string
  rp_version :: nat
  rp_results :: detail

record strategy_row =
  sr_kind :: string
  sr_status :: string
  sr_enabled :: bool
  sr_validation_job :: "string option"

record manager =
  m_heap :: "job list"
  m_jobs :: "(string, nat) dict"
  m_pool :: bool
  m_closed :: bool
  m_reports :: "(string, saved_report) dict"
  m_strategies :: "(string, strategy_row) dict"

section \<open>Specifications and reports\<close>

definition empty_detail :: "run_spec \<Rightarrow> string \<Rightarrow> int \<Rightarrow> string option \<Rightarrow> detail" where
  "empty_detail sp status progress error =
     \<lparr>d_id = sp_id sp, d_name = sp_name sp, d_strategy = sp_strategy_key sp, d_created = sp_created sp,
      d_status = status, d_progress = progress, d_error = error, d_curve = [], d_body = VNone\<rparr>"

text \<open>\<open>json.dumps(..., allow_nan=False)\<close>: every float in the document is finite.\<close>

fun json_ok :: "pyval \<Rightarrow> bool" where
  "json_ok (VFloat x) = isfinite x"
| "json_ok (VList vs) = list_all json_ok vs"
| "json_ok (VDict kvs) = list_all (\<lambda>(k, v). json_ok v) kvs"
| "json_ok _ = True"

definition document :: "detail \<Rightarrow> string + detail" where
  "document d =
     (if d_status d \<noteq> ''completed'' then Inl ''ValueError: Only successful backtests can be saved.''
      else if d_curve d = [] then Inl ''ValueError: A completed report must contain equity observations.''
      else if \<not> (json_ok (d_body d) \<and> list_all (\<lambda>(t, x). isfinite x) (d_curve d))
      then Inl ''ValueError: Out of range float values are not JSON compliant''
      else Inr (d\<lparr>d_status := [], d_progress := 0, d_error := None\<rparr>))"

text \<open>The insert of \<open>reports.save\<close>: the primary key, the foreign key on the strategy, and
  any failure of the database itself.\<close>

definition save_report ::
  "manager \<Rightarrow> string \<Rightarrow> detail \<Rightarrow> string option \<Rightarrow> string + (string, saved_report) dict" where
  "save_report m owner d db_error =
     ebind (document d) (\<lambda>doc.
       case db_error of
         Some text \<Rightarrow> Inl text
       | None \<Rightarrow>
           if dict_get (m_reports m) (d_id d) \<noteq> None then Inl ''IntegrityError: backtest_reports_pkey''
           else if dict_get (m_strategies m) (d_strategy d) = None
           then Inl ''IntegrityError: backtest_reports_strategy_key_fkey''
           else Inr (dict_set (d_id d) \<lparr>rp_owner = owner, rp_created = d_created d, rp_strategy = d_strategy d,
                       rp_name = d_name d, rp_version = 1, rp_results = doc\<rparr> (m_reports m)))"

text \<open>\<open>reports.add_completed_reports\<close>, the import of starter reports: every document is made before the first row
  is staged, and one transaction inserts all of them or none.\<close>

definition record_values :: "string \<Rightarrow> detail \<Rightarrow> string + string \<times> saved_report" where
  "record_values owner d =
     ebind (document d) (\<lambda>doc. Inr (d_id d, \<lparr>rp_owner = owner, rp_created = d_created d, rp_strategy = d_strategy d,
        rp_name = d_name d, rp_version = 1, rp_results = doc\<rparr>))"

fun insert_reports ::
  "(string, strategy_row) dict \<Rightarrow> (string \<times> saved_report) list \<Rightarrow> (string, saved_report) dict
   \<Rightarrow> string + (string, saved_report) dict" where
  "insert_reports strategies [] reports = Inr reports"
| "insert_reports strategies ((k, rp) # rows) reports =
     (if dict_get reports k \<noteq> None then Inl ''IntegrityError: backtest_reports_pkey''
      else if dict_get strategies (rp_strategy rp) = None then Inl ''IntegrityError: backtest_reports_strategy_key_fkey''
      else insert_reports strategies rows (dict_set k rp reports))"

definition add_completed_reports ::
  "manager \<Rightarrow> string \<Rightarrow> detail list \<Rightarrow> string option \<Rightarrow> manager \<times> (string + unit)" where
  "add_completed_reports m owner details db_error =
     (case ebind (emap (record_values owner) details) (\<lambda>rows.
             case db_error of Some text \<Rightarrow> Inl text
             | None \<Rightarrow> insert_reports (m_strategies m) rows (m_reports m)) of
        Inl text \<Rightarrow> (m, Inl text)
      | Inr reports \<Rightarrow> (m\<lparr>m_reports := reports\<rparr>, Inr ()))"

text \<open>\<open>reports.remove\<close>: the row of that id and owner.\<close>

definition remove_report :: "manager \<Rightarrow> string \<Rightarrow> string \<Rightarrow> manager \<times> bool" where
  "remove_report m key owner =
     (case dict_get (m_reports m) key of
        Some rp \<Rightarrow> if rp_owner rp = owner then (m\<lparr>m_reports := dict_del key (m_reports m)\<rparr>, True) else (m, False)
      | None \<Rightarrow> (m, False))"

section \<open>Helpers\<close>

definition terminal_ttl :: int where "terminal_ttl = 3600 * 1000000"

definition upd_job :: "manager \<Rightarrow> nat \<Rightarrow> (job \<Rightarrow> job) \<Rightarrow> manager" where
  "upd_job m r f = m\<lparr>m_heap := (m_heap m)[r := f (m_heap m ! r)]\<rparr>"

definition running :: "manager \<Rightarrow> bool" where
  "running m \<longleftrightarrow> m_pool m \<and> \<not> m_closed m"

definition start :: "manager \<Rightarrow> manager" where
  "start m = (if running m then m else m\<lparr>m_pool := True, m_closed := False\<rparr>)"

definition expired :: "int \<Rightarrow> job \<Rightarrow> bool" where
  "expired now j = (case j_finished j of None \<Rightarrow> False | Some t \<Rightarrow> now - t > terminal_ttl)"

definition prune :: "int \<Rightarrow> manager \<Rightarrow> manager" where
  "prune now m = m\<lparr>m_jobs := filter (\<lambda>(k, r). \<not> expired now (m_heap m ! r)) (m_jobs m)\<rparr>"

definition lookup :: "int \<Rightarrow> manager \<Rightarrow> string \<Rightarrow> manager \<times> nat option" where
  "lookup now m key = (let m' = prune now m in (m', dict_get (m_jobs m') key))"

definition fail_job :: "int \<Rightarrow> string \<Rightarrow> job \<Rightarrow> job" where
  "fail_job now message j =
     (let msg = take 2000 message in
      j\<lparr>j_detail := Some (empty_detail (j_spec j) ''failed'' 0 (Some msg)),
        j_state := (j_state j)\<lparr>st_status := ''failed'', st_error := Some msg\<rparr>,
        j_finished := Some now\<rparr>)"

definition settle_validation :: "run_spec \<Rightarrow> bool \<Rightarrow> bool \<Rightarrow> manager \<Rightarrow> manager" where
  "settle_validation sp passed db_ok m =
     (if sp_purpose sp \<noteq> ''validation'' \<or> \<not> db_ok then m
      else case dict_get (m_strategies m) (sp_strategy_key sp) of
             None \<Rightarrow> m
           | Some row \<Rightarrow>
               if sr_kind row \<noteq> ''user'' then m
               else m\<lparr>m_strategies := dict_set (sp_strategy_key sp)
                      (row\<lparr>sr_status := (if passed then ''active'' else ''failed_validation''),
                           sr_enabled := passed, sr_validation_job := Some (sp_id sp)\<rparr>) (m_strategies m)\<rparr>)"

section \<open>Operations\<close>

definition register :: "int \<Rightarrow> manager \<Rightarrow> run_spec \<Rightarrow> manager \<times> (py_exn + unit)" where
  "register now m sp =
     (if sp_purpose sp = ''user'' \<and> sp_owner sp = None then (m, Inl ValueError)
      else if \<not> running m then (m, Inl RuntimeError)
      else let m' = prune now m in
           if dict_get (m_jobs m') (sp_id sp) \<noteq> None then (m', Inl ValueError)
           else (m'\<lparr>m_heap := m_heap m' @
                     [\<lparr>j_spec = sp,
                       j_state = \<lparr>st_status = ''queued'', st_progress = 0, st_cancel = False, st_error = None\<rparr>,
                       j_future = None, j_finished = None, j_detail = None, j_saved = False\<rparr>],
                    m_jobs := dict_set (sp_id sp) (length (m_heap m')) (m_jobs m')\<rparr>, Inr ()))"

text \<open>\<open>submit\<close> under the job's lock. \<open>pool_error\<close> is what \<open>ProcessPoolExecutor.submit\<close>
  raises, if it does; a manager without a pool always raises.\<close>

definition submit_section ::
  "int \<Rightarrow> manager \<Rightarrow> nat \<Rightarrow> string option \<Rightarrow> bool \<Rightarrow> manager \<times> (py_exn + unit)" where
  "submit_section now m r pool_error db_ok =
     (let j = m_heap m ! r in
      if j_future j \<noteq> None then (m, Inr ())
      else if j_finished j \<noteq> None then (m, Inl RuntimeError)
      else case (if m_pool m then pool_error else Some ''no pool'') of
             Some text \<Rightarrow>
               (settle_validation (j_spec j) False db_ok
                  (upd_job m r (fail_job now (''Could not queue the backtest: '' @ text))), Inl RuntimeError)
           | None \<Rightarrow> (upd_job m r (\<lambda>j. j\<lparr>j_future := Some Pending\<rparr>), Inr ()))"

definition submit ::
  "int \<Rightarrow> manager \<Rightarrow> string \<Rightarrow> string option \<Rightarrow> bool \<Rightarrow> manager \<times> (py_exn + unit)" where
  "submit now m key pool_error db_ok =
     (case lookup now m key of
        (m', None) \<Rightarrow> (m', Inl RuntimeError)
      | (m', Some r) \<Rightarrow> if running m' then submit_section now m' r pool_error db_ok else (m', Inl RuntimeError))"

text \<open>How a future ends: cancelled before it ran, an exception of the worker process or of
  reading its report, an error the worker returned, or a report.\<close>

datatype outcome = OCancelled | ORaised string | OError string | OReport detail

definition persistence_failed :: string where
  "persistence_failed = ''Backtest or report persistence failed: ''"

definition on_done ::
  "int \<Rightarrow> manager \<Rightarrow> nat \<Rightarrow> outcome \<Rightarrow> string option \<Rightarrow> bool \<Rightarrow> manager" where
  "on_done now m r res db_error db_ok =
     (let j = m_heap m ! r; sp = j_spec j;
          failed = (\<lambda>msg. settle_validation sp False db_ok (upd_job m r (fail_job now msg)));
          complete = (\<lambda>j. j\<lparr>j_state := (j_state j)\<lparr>st_status := ''completed'', st_progress := 100\<rparr>,
                            j_finished := Some now\<rparr>)
      in if m_closed m \<or> st_cancel (j_state j) \<or> res = OCancelled
         then failed (if m_closed m then ''Interrupted by server shutdown'' else ''Cancelled by user'')
         else case res of
                OCancelled \<Rightarrow> failed ''Cancelled by user''
              | ORaised text \<Rightarrow> failed (persistence_failed @ text)
              | OError msg \<Rightarrow> failed msg
              | OReport d \<Rightarrow>
                  (case sp_owner sp of
                     None \<Rightarrow> settle_validation sp True db_ok (upd_job m r (\<lambda>j. complete (j\<lparr>j_detail := Some d\<rparr>)))
                   | Some owner \<Rightarrow>
                       (case save_report m owner d db_error of
                          Inl text \<Rightarrow> failed (persistence_failed @ text)
                        | Inr reports \<Rightarrow>
                            settle_validation sp True db_ok
                              (upd_job (m\<lparr>m_reports := reports\<rparr>) r (\<lambda>j. complete (j\<lparr>j_saved := True\<rparr>))))))"

definition get_detail :: "int \<Rightarrow> manager \<Rightarrow> string \<Rightarrow> string \<Rightarrow> manager \<times> detail option" where
  "get_detail now m key owner =
     (case lookup now m key of
        (m', None) \<Rightarrow> (m', None)
      | (m', Some r) \<Rightarrow>
          let j = m_heap m' ! r in
          if sp_owner (j_spec j) \<noteq> Some owner then (m', None)
          else if j_saved j then (m', None)
          else case j_detail j of
                 Some d \<Rightarrow> (m', Some d)
               | None \<Rightarrow> (m', Some (empty_detail (j_spec j) (st_status (j_state j)) (st_progress (j_state j))
                                    (st_error (j_state j)))))"

datatype cancel_result = NotFound | Saved | Deleted | CancelRequested

text \<open>\<open>cancel\<close> under the job's lock. Cancelling a pending future runs its callback at once,
  in the cancelling thread.\<close>

definition cancel_section ::
  "int \<Rightarrow> manager \<Rightarrow> string \<Rightarrow> nat \<Rightarrow> bool \<Rightarrow> manager \<times> cancel_result" where
  "cancel_section now m key r db_ok =
     (let j = m_heap m ! r in
      if j_saved j then (m, Saved)
      else if j_finished j \<noteq> None then (m\<lparr>m_jobs := dict_del key (m_jobs m)\<rparr>, Deleted)
      else let m1 = upd_job m r (\<lambda>j. j\<lparr>j_state := (j_state j)\<lparr>st_cancel := True\<rparr>\<rparr>) in
           (case j_future j of
              None \<Rightarrow> upd_job m1 r (fail_job now ''Cancelled by user'')
            | Some Pending \<Rightarrow>
                on_done now (upd_job m1 r (\<lambda>j. j\<lparr>j_future := Some Cancelled\<rparr>)) r OCancelled None db_ok
            | Some _ \<Rightarrow> m1, CancelRequested))"

definition cancel ::
  "int \<Rightarrow> manager \<Rightarrow> string \<Rightarrow> string option \<Rightarrow> bool \<Rightarrow> manager \<times> cancel_result" where
  "cancel now m key owner db_ok =
     (case lookup now m key of
        (m', None) \<Rightarrow> (m', NotFound)
      | (m', Some r) \<Rightarrow>
          if sp_owner (j_spec (m_heap m' ! r)) \<noteq> owner then (m', NotFound)
          else cancel_section now m' key r db_ok)"

definition cancel_internal :: "int \<Rightarrow> manager \<Rightarrow> string \<Rightarrow> bool \<Rightarrow> manager \<times> cancel_result" where
  "cancel_internal now m key db_ok =
     (case lookup now m key of
        (m', None) \<Rightarrow> (m', NotFound)
      | (m', Some r) \<Rightarrow> cancel now m' key (sp_owner (j_spec (m_heap m' ! r))) db_ok)"

definition live_summaries :: "int \<Rightarrow> manager \<Rightarrow> string \<Rightarrow> manager \<times> detail list" where
  "live_summaries now m owner =
     (let m' = prune now m;
          jobs = map (\<lambda>(k, r). m_heap m' ! r) (m_jobs m');
          owned = filter (\<lambda>j. sp_owner (j_spec j) = Some owner \<and> sp_purpose (j_spec j) = ''user'') jobs;
          live = filter (\<lambda>j. j_finished j = None \<and> \<not> j_saved j) owned
      in (m', map (\<lambda>j. empty_detail (j_spec j) (st_status (j_state j)) (st_progress (j_state j)) None)
                (sort_key (\<lambda>j. - sp_created (j_spec j)) live)))"

definition submitted_run_ids :: "manager \<Rightarrow> string list" where
  "submitted_run_ids m = map fst (filter (\<lambda>(k, r). j_finished (m_heap m ! r) = None) (m_jobs m))"

text \<open>What \<open>shutdown\<close> does to one unfinished job.\<close>

definition interrupt :: "int \<Rightarrow> bool \<Rightarrow> manager \<Rightarrow> nat \<Rightarrow> manager" where
  "interrupt now db_ok m r =
     (let j = m_heap m ! r in
      if j_finished j \<noteq> None then m
      else let m1 = upd_job m r (\<lambda>j. j\<lparr>j_state := (j_state j)\<lparr>st_cancel := True\<rparr>\<rparr>) in
           if j_future j \<noteq> None then m1
           else settle_validation (j_spec j) False db_ok
                  (upd_job m1 r (fail_job now ''Interrupted by server shutdown'')))"

definition shutdown :: "int \<Rightarrow> manager \<Rightarrow> bool \<Rightarrow> manager" where
  "shutdown now m db_ok =
     (foldl (interrupt now db_ok) (m\<lparr>m_closed := True\<rparr>) (map snd (m_jobs m)))\<lparr>m_pool := False\<rparr>"

section \<open>The worker's side\<close>

record job_control =
  jc_last_poll :: "int option"
  jc_cancelled :: bool
  jc_last_progress :: "(int \<times> string) option"

definition on_progress :: "job_control \<Rightarrow> job_state \<Rightarrow> int \<Rightarrow> string \<Rightarrow> job_control \<times> job_state" where
  "on_progress c s pct stage =
     (let p = (max 0 (min 99 pct), stage) in
      if Some p \<noteq> jc_last_progress c
      then (c\<lparr>jc_last_progress := Some p\<rparr>, s\<lparr>st_progress := fst p\<rparr>) else (c, s))"

definition should_cancel :: "int \<Rightarrow> job_control \<Rightarrow> job_state \<Rightarrow> job_control \<times> bool" where
  "should_cancel now c s =
     (let poll = (case jc_last_poll c of None \<Rightarrow> True | Some t \<Rightarrow> now - t \<ge> 100000);
          c' = (if poll then c\<lparr>jc_last_poll := Some now, jc_cancelled := jc_cancelled c \<or> st_cancel s\<rparr> else c)
      in (c', jc_cancelled c'))"

section \<open>Interleavings\<close>

text \<open>One step of the system: a thread's lookup or locked section, a move of the process
  pool, a state write of a worker, or a statement of the requests that import or delete reports. A step on a
  reference no thread can hold is no step, and a running future cannot be cancelled. A shutdown is one
  uninterrupted step (\<open>JShutdown\<close>), or its parts with other threads in between: closing, the section of each
  job, dropping the pool.\<close>

datatype job_op =
    JStart
  | JPrune int
  | JRegister int run_spec
  | JSubmit int nat "string option" bool
  | JCancel int string nat bool
  | JShutdown int bool
  | JClose
  | JInterrupt int nat bool
  | JPoolDown
  | JRun nat
  | JStarted nat
  | JProgress nat int string job_control
  | JDone int nat outcome "string option" bool
  | JPoolCancel int nat bool
  | JAddReports string "detail list" "string option"
  | JRemoveReport string string

fun job_step :: "manager \<Rightarrow> job_op \<Rightarrow> manager" where
  "job_step m JStart = start m"
| "job_step m (JPrune now) = prune now m"
| "job_step m (JRegister now sp) = fst (register now m sp)"
| "job_step m (JSubmit now r pool_error db_ok) =
     (if r < length (m_heap m) then fst (submit_section now m r pool_error db_ok) else m)"
| "job_step m (JCancel now key r db_ok) =
     (if r < length (m_heap m) then fst (cancel_section now m key r db_ok) else m)"
| "job_step m (JShutdown now db_ok) = shutdown now m db_ok"
| "job_step m JClose = m\<lparr>m_closed := True\<rparr>"
| "job_step m (JInterrupt now r db_ok) = (if r < length (m_heap m) then interrupt now db_ok m r else m)"
| "job_step m JPoolDown = m\<lparr>m_pool := False\<rparr>"
| "job_step m (JAddReports owner details db_error) = fst (add_completed_reports m owner details db_error)"
| "job_step m (JRemoveReport key owner) = fst (remove_report m key owner)"
| "job_step m (JRun r) =
     (if r < length (m_heap m) \<and> j_future (m_heap m ! r) = Some Pending
      then upd_job m r (\<lambda>j. j\<lparr>j_future := Some Running\<rparr>) else m)"
| "job_step m (JStarted r) =
     (if r < length (m_heap m) \<and> j_future (m_heap m ! r) = Some Running
      then upd_job m r (\<lambda>j. j\<lparr>j_state := (j_state j)\<lparr>st_status := ''running'', st_progress := 0\<rparr>\<rparr>) else m)"
| "job_step m (JProgress r pct stage c) =
     (if r < length (m_heap m) \<and> j_future (m_heap m ! r) = Some Running
      then upd_job m r (\<lambda>j. j\<lparr>j_state := snd (on_progress c (j_state j) pct stage)\<rparr>) else m)"
| "job_step m (JDone now r res db_error db_ok) =
     (if r < length (m_heap m) \<and> j_future (m_heap m ! r) = Some Running \<and> res \<noteq> OCancelled
      then on_done now (upd_job m r (\<lambda>j. j\<lparr>j_future := Some Done\<rparr>)) r res db_error db_ok else m)"
| "job_step m (JPoolCancel now r db_ok) =
     (if r < length (m_heap m) \<and> j_future (m_heap m ! r) = Some Pending
      then on_done now (upd_job m r (\<lambda>j. j\<lparr>j_future := Some Cancelled\<rparr>)) r OCancelled None db_ok else m)"

end
