(* ===== verification/Submission.thy ===== *)
theory Submission
  imports Run_Controls Job_Manager
begin

text \<open>
  \<open>src/services/backtests.py\<close>: the submission of a run, from the request to the job in the
  manager's queue. The strategy registry, the market-data service, the parsers of ISO dates,
  \<open>str()\<close> of values that are not text, and the object store are arguments. A refusal the
  student can fix is \<open>Rejected\<close>; any other exception is \<open>Raised\<close>.
\<close>

section \<open>Data\<close>

datatype submit_error = Rejected | Raised py_exn

record request =
  rq_name :: string
  rq_strategy :: string
  rq_start :: string
  rq_end :: string
  rq_capital :: pyfloat
  rq_mode :: string
  rq_params :: "(string, pyval) dict"

record registry_row =
  rg_name :: string
  rg_kind :: string
  rg_class_path :: "string option"
  rg_storage_key :: "string option"
  rg_enabled :: bool
  rg_universe :: "string list"
  rg_specs :: "pyval list"

record coverage_window =
  cv_missing :: "string list"
  cv_start :: "string option"
  cv_end :: "string option"

text \<open>What the submission reads from outside.\<close>

record environment =
  en_max_window :: int
  en_news :: bool
  en_s3 :: bool
  en_packaged :: "string option \<Rightarrow> bool"
  en_registry :: "(string, registry_row) dict"
  en_fmp :: bool
  en_validate :: "string list \<Rightarrow> py_exn + string list"
  en_coverage :: "string list \<Rightarrow> coverage_window"
  en_fromiso :: "string \<Rightarrow> int option"
  en_isodate :: "int \<Rightarrow> string"
  en_str :: "pyval \<Rightarrow> string"

definition reject :: "bool \<Rightarrow> submit_error + unit" where
  "reject bad = guard_e Rejected (\<not> bad)"

text \<open>\<open>except ValueError\<close> around a call: the error becomes a refusal.\<close>

definition as_rejection :: "py_exn + 'a \<Rightarrow> submit_error + 'a" where
  "as_rejection r = (case r of Inl x \<Rightarrow> Inl (if x = ValueError then Rejected else Raised x) | Inr v \<Rightarrow> Inr v)"

definition raising :: "py_exn + 'a \<Rightarrow> submit_error + 'a" where
  "raising r = (case r of Inl x \<Rightarrow> Inl (Raised x) | Inr v \<Rightarrow> Inr v)"

section \<open>Fields\<close>

definition name_limit :: nat where "name_limit = 120"

definition run_modes :: "string list" where "run_modes = [''event'']"

definition mode_key :: string where "mode_key = ''mode''"

definition validated_name :: "string \<Rightarrow> submit_error + string" where
  "validated_name raw = (let name = strip raw in
     ebind (reject (name = [])) (\<lambda>_. ebind (reject (length name > name_limit)) (\<lambda>_. Inr name)))"

definition load_runnable_strategy :: "environment \<Rightarrow> string \<Rightarrow> submit_error + string \<times> registry_row" where
  "load_runnable_strategy env raw = (let key = strip raw in
     ebind (reject (key = [])) (\<lambda>_.
       case dict_get (en_registry env) key of
         None \<Rightarrow> Inl Rejected
       | Some row \<Rightarrow>
           ebind (reject (\<not> rg_enabled row)) (\<lambda>_.
           ebind (reject (en_s3 env \<and> \<not> en_packaged env (rg_storage_key row))) (\<lambda>_. Inr (key, row)))))"

definition validated_date :: "environment \<Rightarrow> string \<Rightarrow> submit_error + int" where
  "validated_date env raw = (case en_fromiso env (strip raw) of None \<Rightarrow> Inl Rejected | Some d \<Rightarrow> Inr d)"

definition validated_window :: "environment \<Rightarrow> request \<Rightarrow> submit_error + int \<times> int" where
  "validated_window env rq =
     ebind (validated_date env (rq_start rq)) (\<lambda>start_day.
     ebind (validated_date env (rq_end rq)) (\<lambda>end_day.
     ebind (reject (start_day \<ge> end_day)) (\<lambda>_.
     ebind (reject (end_day - start_day > en_max_window env)) (\<lambda>_. Inr (start_day, end_day)))))"

definition validated_capital :: "pyfloat \<Rightarrow> submit_error + pyfloat" where
  "validated_capital capital =
     ebind (reject (\<not> isfinite capital)) (\<lambda>_. ebind (reject (capital \<le> 0)) (\<lambda>_. Inr capital))"

definition validated_mode :: "string \<Rightarrow> submit_error + string" where
  "validated_mode raw = (let mode = lower (strip raw) in
     ebind (reject (mode \<notin> set run_modes)) (\<lambda>_. Inr mode))"

definition validated_intraday_size ::
  "(string, pyval) dict \<Rightarrow> string list \<Rightarrow> int \<Rightarrow> int \<Rightarrow> submit_error + unit" where
  "validated_intraday_size controls universe start_day end_day =
     (case dict_get controls ''BAR_INTERVAL_SECONDS'' of
        None \<Rightarrow> Inr ()
      | Some v \<Rightarrow>
          ebind (raising (bar_minutes v)) (\<lambda>minutes.
            reject (\<not> check_intraday_size (int (length universe)) start_day end_day minutes)))"

section \<open>Strategy parameters\<close>

definition str_of :: "environment \<Rightarrow> pyval \<Rightarrow> string" where
  "str_of env v = (case v of VStr s \<Rightarrow> s | _ \<Rightarrow> en_str env v)"

definition spec_table :: "environment \<Rightarrow> pyval list \<Rightarrow> (string, (string, pyval) dict) dict" where
  "spec_table env specs =
     foldl (\<lambda>t spec. case spec of
         VDict d \<Rightarrow> if truthy (dict_or d ''key'' VNone) then dict_set (str_of env (dict_or d ''key'' VNone)) d t else t
       | _ \<Rightarrow> t) [] specs"

definition exact_number :: "pyval \<Rightarrow> pyfloat option" where
  "exact_number v = (case v of VInt i \<Rightarrow> Some (Fin (real_of_int i)) | VFloat x \<Rightarrow> Some x | _ \<Rightarrow> None)"

definition check_param_range :: "pyval \<Rightarrow> (string, pyval) dict \<Rightarrow> submit_error + unit" where
  "check_param_range v spec =
     (case exact_number v of
        None \<Rightarrow> Inr ()
      | Some x \<Rightarrow>
          ebind (reject (case exact_number (dict_or spec ''min'' VNone) of None \<Rightarrow> False | Some lo \<Rightarrow> x < lo)) (\<lambda>_.
            reject (case exact_number (dict_or spec ''max'' VNone) of None \<Rightarrow> False | Some hi \<Rightarrow> x > hi)))"

definition validated_param_value ::
  "environment \<Rightarrow> pyval \<Rightarrow> (string, pyval) dict \<Rightarrow> submit_error + pyval" where
  "validated_param_value env v spec =
     (let spec_type = lower (str_of env (dict_or spec ''type'' (VStr ''number''))) in
      if spec_type = ''boolean''
      then (case v of VBool b \<Rightarrow> Inr v | _ \<Rightarrow> Inl Rejected)
      else ebind (case v of
                    VInt i \<Rightarrow> ebind (raising (float_of_int i)) (\<lambda>_. Inr v)
                  | VFloat (Fin x) \<Rightarrow>
                      if spec_type = ''integer''
                      then (if x = real_of_int \<lfloor>x\<rfloor> then Inr (VInt \<lfloor>x\<rfloor>) else Inl Rejected)
                      else Inr v
                  | _ \<Rightarrow> Inl Rejected) (\<lambda>w.
             ebind (check_param_range w spec) (\<lambda>_. Inr w)))"

fun param_loop ::
  "environment \<Rightarrow> (string, (string, pyval) dict) dict \<Rightarrow> (string \<times> pyval) list \<Rightarrow> submit_error + (string, pyval) dict" where
  "param_loop env specs [] = Inr []"
| "param_loop env specs ((key, v) # rest) =
     (if key = mode_key then Inl Rejected
      else case dict_get specs key of
             None \<Rightarrow> Inl Rejected
           | Some spec \<Rightarrow>
               ebind (validated_param_value env v spec) (\<lambda>w.
               ebind (param_loop env specs rest) (\<lambda>ws. Inr ((key, w) # ws))))"

definition validated_params ::
  "environment \<Rightarrow> registry_row \<Rightarrow> (string, pyval) dict \<Rightarrow> submit_error + (string, pyval) dict" where
  "validated_params env row submitted =
     (if submitted = [] then Inr [] else param_loop env (spec_table env (rg_specs row)) submitted)"

section \<open>Coverage\<close>

definition validated_coverage :: "environment \<Rightarrow> string list \<Rightarrow> int \<Rightarrow> int \<Rightarrow> submit_error + unit" where
  "validated_coverage env universe start_day end_day =
     (if universe = [] then Inr ()
      else ebind (if en_fmp env
                  then ebind (as_rejection (en_validate env universe)) (\<lambda>unknown. reject (unknown \<noteq> []))
                  else Inr ()) (\<lambda>_.
           let cov = en_coverage env universe in
           ebind (reject (cv_missing cov \<noteq> [])) (\<lambda>_.
             case (cv_start cov, cv_end cov) of
               (Some s, Some e) \<Rightarrow> reject (en_isodate env start_day < s \<or> en_isodate env end_day > e)
             | _ \<Rightarrow> Inl Rejected)))"

definition symbol_for :: "string list \<Rightarrow> string" where
  "symbol_for universe =
     (case filter (\<lambda>t. t \<noteq> []) (map strip universe) of [t] \<Rightarrow> t | _ \<Rightarrow> ''MULTI'')"

section \<open>The submission\<close>

definition prepare_run ::
  "environment \<Rightarrow> request \<Rightarrow> string \<Rightarrow> string option \<Rightarrow> int \<Rightarrow> submit_error + run_spec" where
  "prepare_run env rq run_id owner created =
     ebind (validated_name (rq_name rq)) (\<lambda>name.
     ebind (load_runnable_strategy env (rq_strategy rq)) (\<lambda>(key, row).
     ebind (validated_window env rq) (\<lambda>(start_day, end_day).
     ebind (validated_capital (rq_capital rq)) (\<lambda>capital.
     ebind (validated_mode (rq_mode rq)) (\<lambda>mode.
     ebind (as_rejection (split_controls (en_news env) (rq_params rq) (rg_universe row) mode))
           (\<lambda>(strategy_params, controls, universe).
     ebind (validated_params env row strategy_params) (\<lambda>params.
     ebind (validated_intraday_size controls universe start_day end_day) (\<lambda>_.
     ebind (validated_coverage env universe start_day end_day) (\<lambda>_.
       Inr \<lparr>sp_id = run_id, sp_owner = owner, sp_name = name, sp_strategy_key = key,
            sp_strategy_name = rg_name row, sp_kind = rg_kind row, sp_start = start_day, sp_end = end_day,
            sp_capital = capital, sp_symbol = symbol_for universe,
            sp_params = dict_set mode_key (VStr mode) (dict_set ''universe'' (vtickers universe) (dict_merge params controls)),
            sp_created = created, sp_purpose = ''user''\<rparr>)))))))))"

definition submit_backtest_run ::
  "environment \<Rightarrow> request \<Rightarrow> string \<Rightarrow> string option \<Rightarrow> int \<Rightarrow> int \<Rightarrow> string option \<Rightarrow> bool \<Rightarrow> manager
   \<Rightarrow> manager \<times> (submit_error + string)" where
  "submit_backtest_run env rq run_id owner created now pool_error db_ok m =
     (case prepare_run env rq run_id owner created of
        Inl x \<Rightarrow> (m, Inl x)
      | Inr sp \<Rightarrow>
          (case register now m sp of
             (m1, Inl x) \<Rightarrow> (m1, Inl (Raised x))
           | (m1, Inr _) \<Rightarrow>
               (case submit now m1 run_id pool_error db_ok of
                  (m2, Inl x) \<Rightarrow> (m2, Inl (Raised x))
                | (m2, Inr _) \<Rightarrow> (m2, Inr run_id))))"

end
