(* ===== verification/Job_Manager_Claims.thy ===== *)
theory Job_Manager_Claims
  imports Job_Manager
begin

text \<open>
  The life of a job. Every step of the system moves each job of the heap along \<open>job_move\<close>;
  the invariant, the stability of terminal jobs and the precedence of a cancellation are
  proved over that relation, then over whole runs.
\<close>

section \<open>Moves of one job\<close>

abbreviation stopped_messages :: "string set" where
  "stopped_messages \<equiv> {''Cancelled by user'', ''Interrupted by server shutdown''}"

abbreviation in_pool :: "fut option \<Rightarrow> bool" where
  "in_pool f \<equiv> f = Some Pending \<or> f = Some Running"

inductive job_move :: "job \<Rightarrow> job \<Rightarrow> bool" where
  mv_submit: "j_finished j = None \<Longrightarrow> j_future j = None \<Longrightarrow> job_move j (j\<lparr>j_future := Some Pending\<rparr>)"
| mv_flag: "j_finished j = None \<Longrightarrow> in_pool (j_future j) \<Longrightarrow> job_move j (j\<lparr>j_state := (j_state j)\<lparr>st_cancel := True\<rparr>\<rparr>)"
| mv_run: "j_future j = Some Pending \<Longrightarrow> job_move j (j\<lparr>j_future := Some Running\<rparr>)"
| mv_started: "j_future j = Some Running \<Longrightarrow>
    job_move j (j\<lparr>j_state := (j_state j)\<lparr>st_status := ''running'', st_progress := 0\<rparr>\<rparr>)"
| mv_progress: "j_future j = Some Running \<Longrightarrow> 0 \<le> p \<Longrightarrow> p \<le> 99 \<Longrightarrow>
    job_move j (j\<lparr>j_state := (j_state j)\<lparr>st_progress := p\<rparr>\<rparr>)"
| mv_fail: "j_finished j = None \<Longrightarrow> \<not> in_pool f \<Longrightarrow> (st_cancel (j_state j) \<longrightarrow> msg \<in> stopped_messages) \<Longrightarrow>
    job_move j (fail_job now msg (j\<lparr>j_future := f, j_state := (j_state j)\<lparr>st_cancel := c\<rparr>\<rparr>))"
| mv_saved: "j_future j = Some Running \<Longrightarrow> \<not> st_cancel (j_state j) \<Longrightarrow> sp_owner (j_spec j) \<noteq> None \<Longrightarrow>
    job_move j (j\<lparr>j_future := Some Done, j_saved := True,
      j_state := (j_state j)\<lparr>st_status := ''completed'', st_progress := 100\<rparr>, j_finished := Some now\<rparr>)"
| mv_kept: "j_future j = Some Running \<Longrightarrow> \<not> st_cancel (j_state j) \<Longrightarrow> sp_owner (j_spec j) = None \<Longrightarrow>
    job_move j (j\<lparr>j_future := Some Done, j_detail := Some d,
      j_state := (j_state j)\<lparr>st_status := ''completed'', st_progress := 100\<rparr>, j_finished := Some now\<rparr>)"

definition job_wf :: "job \<Rightarrow> bool" where
  "job_wf j \<longleftrightarrow>
     (j_finished j = None \<longrightarrow>
        j_detail j = None \<and> \<not> j_saved j \<and> (st_status (j_state j) = ''queued'' \<or> st_status (j_state j) = ''running'') \<and>
        0 \<le> st_progress (j_state j) \<and> st_progress (j_state j) \<le> 99 \<and> st_error (j_state j) = None \<and>
        (j_future j = None \<or> in_pool (j_future j)) \<and> (st_cancel (j_state j) \<longrightarrow> in_pool (j_future j))) \<and>
     (j_finished j \<noteq> None \<longrightarrow> \<not> in_pool (j_future j) \<and>
        (if j_saved j
         then sp_owner (j_spec j) \<noteq> None \<and> \<not> st_cancel (j_state j) \<and> j_detail j = None \<and>
              st_status (j_state j) = ''completed'' \<and> st_progress (j_state j) = 100
         else j_detail j \<noteq> None \<and>
              (st_status (j_state j) = ''failed'' \<and> st_error (j_state j) \<noteq> None \<or>
               st_status (j_state j) = ''completed'' \<and> sp_owner (j_spec j) = None \<and> \<not> st_cancel (j_state j))))"

lemma move_wf: "job_move j j' \<Longrightarrow> job_wf j \<Longrightarrow> job_wf j'"
  by (induction rule: job_move.induct) (auto simp: job_wf_def fail_job_def Let_def)

lemma move_spec: "job_move j j' \<Longrightarrow> j_spec j' = j_spec j"
  by (induction rule: job_move.induct) (auto simp: fail_job_def Let_def)

lemma move_terminal: "job_move j j' \<Longrightarrow> job_wf j \<Longrightarrow> j_finished j \<noteq> None \<Longrightarrow> j' = j"
  by (induction rule: job_move.induct) (auto simp: job_wf_def)

text \<open>A job that is to be cancelled: it waits for the pool, or it has failed as stopped.\<close>

definition doomed :: "job \<Rightarrow> bool" where
  "doomed j \<longleftrightarrow> \<not> j_saved j \<and>
     (if j_finished j = None then st_cancel (j_state j)
      else st_status (j_state j) = ''failed'' \<and> (\<exists>msg\<in>stopped_messages. st_error (j_state j) = Some msg))"

lemma move_doomed: "job_move j j' \<Longrightarrow> job_wf j \<Longrightarrow> doomed j \<Longrightarrow> doomed j'"
proof (cases "j_finished j")
  case (Some t)
  then show "job_move j j' \<Longrightarrow> job_wf j \<Longrightarrow> doomed j \<Longrightarrow> doomed j'" using move_terminal [of j j'] by simp
next
  case None
  assume "job_move j j'" "job_wf j" "doomed j"
  then show "doomed j'" using None
    by (induction rule: job_move.induct) (auto simp: doomed_def fail_job_def Let_def job_wf_def)
qed

section \<open>Steps move jobs\<close>

definition heap_moves :: "manager \<Rightarrow> manager \<Rightarrow> bool" where
  "heap_moves m m' \<longleftrightarrow> length (m_heap m) \<le> length (m_heap m') \<and>
     (\<forall>r < length (m_heap m). job_move\<^sup>*\<^sup>* (m_heap m ! r) (m_heap m' ! r)) \<and>
     (\<forall>r < length (m_heap m'). length (m_heap m) \<le> r \<longrightarrow> job_wf (m_heap m' ! r))"

lemma heap_moves_refl [intro]: "m_heap m' = m_heap m \<Longrightarrow> heap_moves m m'"
  by (simp add: heap_moves_def)

lemma heap_moves_set:
  assumes "r < length (m_heap m) \<Longrightarrow> job_move (m_heap m ! r) j" "m_heap m' = (m_heap m)[r := j]"
  shows "heap_moves m m'"
proof -
  have "job_move\<^sup>*\<^sup>* (m_heap m ! i) (m_heap m' ! i)" if "i < length (m_heap m)" for i
    using assms that by (cases "i = r") auto
  then show ?thesis using assms(2) by (simp add: heap_moves_def)
qed

lemma heap_moves_ex:
  "\<exists>j'. m_heap m' = (m_heap m)[r := j'] \<and> job_move (m_heap m ! r) j' \<Longrightarrow> heap_moves m m'"
  using heap_moves_set by blast

definition heap_wf :: "manager \<Rightarrow> bool" where
  "heap_wf m \<longleftrightarrow> list_all job_wf (m_heap m) \<and> distinct (map fst (m_jobs m)) \<and>
     (\<forall>(k, r)\<in>set (m_jobs m). r < length (m_heap m) \<and> sp_id (j_spec (m_heap m ! r)) = k)"

lemma moves_wf: "job_move\<^sup>*\<^sup>* j j' \<Longrightarrow> job_wf j \<Longrightarrow> job_wf j' \<and> j_spec j' = j_spec j"
  by (induction rule: rtranclp_induct) (auto simp: move_wf move_spec)

lemma moves_terminal: "job_move\<^sup>*\<^sup>* j j' \<Longrightarrow> job_wf j \<Longrightarrow> j_finished j \<noteq> None \<Longrightarrow> j' = j"
  by (induction rule: rtranclp_induct) (auto dest: move_terminal)

lemma moves_doomed: "job_move\<^sup>*\<^sup>* j j' \<Longrightarrow> job_wf j \<Longrightarrow> doomed j \<Longrightarrow> doomed j'"
  by (induction rule: rtranclp_induct) (auto dest: move_doomed moves_wf)

lemma heap_wf_nth: "heap_wf m \<Longrightarrow> r < length (m_heap m) \<Longrightarrow> job_wf (m_heap m ! r)"
  by (simp add: heap_wf_def list_all_length)

lemma heap_moves_list_wf: "heap_moves m m' \<Longrightarrow> list_all job_wf (m_heap m) \<Longrightarrow> list_all job_wf (m_heap m')"
  by (auto simp: heap_moves_def list_all_length dest: moves_wf) (meson moves_wf not_le)

lemma heap_moves_trans: "heap_moves a b \<Longrightarrow> heap_moves b c \<Longrightarrow> heap_moves a c"
proof -
  assume ab: "heap_moves a b" and bc: "heap_moves b c"
  have "job_move\<^sup>*\<^sup>* (m_heap a ! r) (m_heap c ! r)" if "r < length (m_heap a)" for r
    using ab bc that by (auto simp: heap_moves_def intro: rtranclp_trans [of job_move _ "m_heap b ! r"])
  moreover have "job_wf (m_heap c ! r)" if "r < length (m_heap c)" "length (m_heap a) \<le> r" for r
    using ab bc that moves_wf [of "m_heap b ! r" "m_heap c ! r"]
    by (cases "r < length (m_heap b)") (auto simp: heap_moves_def)
  ultimately show "heap_moves a c" using ab bc by (auto simp: heap_moves_def)
qed

lemma settle_heap [simp]: "m_heap (settle_validation sp p ok m) = m_heap m" "m_jobs (settle_validation sp p ok m) = m_jobs m"
  "m_closed (settle_validation sp p ok m) = m_closed m" "m_reports (settle_validation sp p ok m) = m_reports m"
  by (auto simp: settle_validation_def split: option.splits)

lemma upd_sel [simp]: "m_heap (upd_job m r f) = (m_heap m)[r := f (m_heap m ! r)]" "m_jobs (upd_job m r f) = m_jobs m"
  "m_closed (upd_job m r f) = m_closed m" "m_reports (upd_job m r f) = m_reports m"
  "m_strategies (upd_job m r f) = m_strategies m"
  by (simp_all add: upd_job_def)

lemma on_done_jobs [simp]: "m_jobs (on_done now m r res db ok) = m_jobs m" "m_closed (on_done now m r res db ok) = m_closed m"
  by (auto simp: on_done_def Let_def split: outcome.splits option.splits sum.splits)

lemma on_done_moves:
  assumes wf: "heap_wf m" and r: "r < length (m_heap m)"
    and f: "j_future (m_heap m ! r) = Some Running \<or> j_future (m_heap m ! r) = Some Pending \<and> res = OCancelled"
  shows "heap_moves m (on_done now (upd_job m r (\<lambda>j. j\<lparr>j_future := Some (if res = OCancelled then Cancelled else Done)\<rparr>)) r res db ok)"
    (is "heap_moves m ?m'")
proof -
  let ?j = "m_heap m ! r"
  have fin: "j_finished ?j = None" using heap_wf_nth [OF wf r] f by (auto simp: job_wf_def)
  have fail: "job_move ?j (fail_job now msg (?j\<lparr>j_future := Some g\<rparr>))"
    if "g = Cancelled \<or> g = Done" "st_cancel (j_state ?j) \<longrightarrow> msg \<in> stopped_messages" for msg g
    using mv_fail [OF fin, of "Some g" msg now "st_cancel (j_state ?j)"] that by auto
  have "\<exists>j'. m_heap ?m' = (m_heap m)[r := j'] \<and> job_move ?j j'"
  proof (cases "m_closed m \<or> st_cancel (j_state ?j) \<or> res = OCancelled")
    case True
    then show ?thesis using r
      by (auto simp: on_done_def Let_def intro!: exI fail)
  next
    case False
    then have run: "j_future ?j = Some Running" "\<not> st_cancel (j_state ?j)" using f by auto
    from mv_saved [OF run, of now] mv_kept [OF run, of now] False show ?thesis using r
      by (cases res; cases "sp_owner (j_spec ?j)")
        (auto simp: on_done_def Let_def split: sum.splits intro!: exI fail)
  qed
  then obtain j' where "m_heap ?m' = (m_heap m)[r := j']" "job_move ?j j'" by blast
  then show ?thesis by (intro heap_moves_set)
qed

lemma job_upd_swap: "j\<lparr>j_state := s, j_future := f\<rparr> = j\<lparr>j_future := f, j_state := s\<rparr>"
  by (cases j) simp

lemma cancel_section_moves:
  assumes wf: "heap_wf m" and r: "r < length (m_heap m)"
  shows "heap_moves m (fst (cancel_section now m key r ok))"
proof (cases "j_saved (m_heap m ! r) \<or> j_finished (m_heap m ! r) \<noteq> None")
  case True
  then show ?thesis by (auto simp: cancel_section_def Let_def)
next
  case False
  let ?j = "m_heap m ! r"
  from False have fin: "j_finished ?j = None" by simp
  have fail: "job_move ?j (fail_job now msg (?j\<lparr>j_future := f, j_state := (j_state ?j)\<lparr>st_cancel := True\<rparr>\<rparr>))"
    if "\<not> in_pool f" "msg \<in> stopped_messages" for msg f
    using mv_fail [OF fin that(1), of msg now True] that by auto
  have "\<exists>j'. m_heap (fst (cancel_section now m key r ok)) = (m_heap m)[r := j'] \<and> job_move ?j j'"
  proof (cases "j_future ?j")
    case None
    with False r fail [of None] show ?thesis
      by (cases ?j) (auto simp: cancel_section_def Let_def)
  next
    case (Some g)
    with heap_wf_nth [OF wf r] fin have "g = Pending \<or> g = Running" by (auto simp: job_wf_def)
    then show ?thesis
    proof
      assume g: "g = Pending"
      show ?thesis using False r Some g fail [of "Some Cancelled"]
        by (auto simp: cancel_section_def Let_def on_done_def job_upd_swap intro!: exI)
    next
      assume g: "g = Running"
      show ?thesis using False r Some g mv_flag [OF fin]
        by (auto simp: cancel_section_def Let_def)
    qed
  qed
  then show ?thesis by (elim exE conjE) (rule heap_moves_set)
qed

lemma interrupt_moves:
  assumes wf: "list_all job_wf (m_heap m)" and r: "r < length (m_heap m)"
  shows "heap_moves m (interrupt now ok m r)"
proof (cases "j_finished (m_heap m ! r)")
  case (Some t)
  then show ?thesis by (auto simp: interrupt_def Let_def)
next
  case None
  let ?j = "m_heap m ! r"
  have jw: "job_wf ?j" using wf r by (simp add: list_all_length)
  have "\<exists>j'. m_heap (interrupt now ok m r) = (m_heap m)[r := j'] \<and> job_move ?j j'"
  proof (cases "j_future ?j")
    case N: None
    with None r mv_fail [OF None, of None "''Interrupted by server shutdown''" now True] show ?thesis
      by (cases ?j) (auto simp: interrupt_def Let_def)
  next
    case (Some g)
    with jw None have "in_pool (j_future ?j)" by (auto simp: job_wf_def)
    with None r Some mv_flag [OF None] show ?thesis by (auto simp: interrupt_def Let_def)
  qed
  then show ?thesis by (elim exE conjE) (rule heap_moves_set)
qed

lemma interrupt_jobs [simp]: "m_jobs (interrupt now ok m r) = m_jobs m" "m_reports (interrupt now ok m r) = m_reports m"
  "m_closed (interrupt now ok m r) = m_closed m"
  by (auto simp: interrupt_def Let_def)

lemma interrupts_moves:
  "list_all job_wf (m_heap m) \<Longrightarrow> \<forall>r\<in>set rs. r < length (m_heap m) \<Longrightarrow>
   heap_moves m (foldl (interrupt now ok) m rs) \<and>
   m_jobs (foldl (interrupt now ok) m rs) = m_jobs m \<and> m_reports (foldl (interrupt now ok) m rs) = m_reports m"
proof (induction rs arbitrary: m)
  case Nil
  then show ?case by auto
next
  case (Cons r rs)
  have step: "heap_moves m (interrupt now ok m r)" using Cons.prems by (intro interrupt_moves) auto
  moreover have "\<forall>q\<in>set rs. q < length (m_heap (interrupt now ok m r))"
    using Cons.prems(2) step by (auto simp: heap_moves_def dest: order.strict_trans2)
  ultimately show ?case
    using Cons.IH [of "interrupt now ok m r"] heap_moves_list_wf [OF step Cons.prems(1)]
    by (auto intro: heap_moves_trans)
qed

section \<open>The system\<close>

lemma heap_wf_keep:
  assumes "heap_wf m" "heap_moves m m'" "set (m_jobs m') \<subseteq> set (m_jobs m)" "distinct (map fst (m_jobs m'))"
  shows "heap_wf m'"
proof -
  have jobs: "r < length (m_heap m') \<and> sp_id (j_spec (m_heap m' ! r)) = k" if "(k, r) \<in> set (m_jobs m')" for k r
  proof -
    from that assms(1,3) have r: "r < length (m_heap m)" "sp_id (j_spec (m_heap m ! r)) = k"
      by (auto simp: heap_wf_def)
    with assms(2) moves_wf [of "m_heap m ! r" "m_heap m' ! r"] heap_wf_nth [OF assms(1), of r] show ?thesis
      by (auto simp: heap_moves_def)
  qed
  have "list_all job_wf (m_heap m')" using heap_moves_list_wf [OF assms(2)] assms(1) by (simp add: heap_wf_def)
  with jobs assms(4) show ?thesis by (auto simp: heap_wf_def)
qed

lemma distinct_fst_filter: "distinct (map fst d) \<Longrightarrow> distinct (map fst (filter P d))"
  by (induction d) (auto simp: image_iff)

lemma prune_sel [simp]: "m_heap (prune now m) = m_heap m" "set (m_jobs (prune now m)) \<subseteq> set (m_jobs m)"
  "m_reports (prune now m) = m_reports m" "m_strategies (prune now m) = m_strategies m"
  "m_closed (prune now m) = m_closed m" "m_pool (prune now m) = m_pool m"
  by (auto simp: prune_def)

lemma prune_wf: "heap_wf m \<Longrightarrow> heap_wf (prune now m)"
  by (rule heap_wf_keep [of m]) (auto simp: prune_def heap_wf_def intro!: distinct_fst_filter)

lemma register_step:
  assumes "heap_wf m"
  shows "heap_moves m (fst (register now m sp)) \<and> heap_wf (fst (register now m sp))"
proof -
  note wf = prune_wf [OF assms, of now]
  show ?thesis
  proof (cases "(sp_purpose sp = ''user'' \<and> sp_owner sp = None) \<or> \<not> running m \<or>
      dict_get (m_jobs (prune now m)) (sp_id sp) \<noteq> None")
    case True
    then show ?thesis using assms wf by (auto simp: register_def Let_def)
  next
    case False
    then have new: "sp_id sp \<notin> fst ` set (m_jobs (prune now m))" by (simp add: map_of_eq_None_iff)
    have set_new: "set (dict_set k v d) = insert (k, v) (set d)" if "k \<notin> fst ` set d" for k :: string and v :: nat and d
      using that by (induction k v d rule: dict_set.induct) auto
    have wfn: "job_wf \<lparr>j_spec = sp, j_state = \<lparr>st_status = ''queued'', st_progress = 0, st_cancel = False, st_error = None\<rparr>,
        j_future = None, j_finished = None, j_detail = None, j_saved = False\<rparr>" by (simp add: job_wf_def)
    have reg: "register now m sp = ((prune now m)\<lparr>m_heap := m_heap m @ [\<lparr>j_spec = sp,
        j_state = \<lparr>st_status = ''queued'', st_progress = 0, st_cancel = False, st_error = None\<rparr>,
        j_future = None, j_finished = None, j_detail = None, j_saved = False\<rparr>],
        m_jobs := dict_set (sp_id sp) (length (m_heap m)) (m_jobs (prune now m))\<rparr>, Inr ())"
      using False by (auto simp: register_def Let_def)
    have "heap_moves m (fst (register now m sp))"
      using wfn by (auto simp: reg heap_moves_def nth_append less_Suc_eq)
    moreover have "heap_wf (fst (register now m sp))"
      using wf wfn by (auto simp: reg heap_wf_def nth_append set_new [OF new])
    ultimately show ?thesis by simp
  qed
qed

lemma step_moves:
  assumes wf: "heap_wf m"
  shows "heap_moves m (job_step m x) \<and> heap_wf (job_step m x)"
proof -
  have d: "distinct (map fst (m_jobs m))" using wf by (simp add: heap_wf_def)
  have keep: "heap_moves m m' \<Longrightarrow> m_jobs m' = m_jobs m \<Longrightarrow> heap_moves m m' \<and> heap_wf m'" for m'
    using heap_wf_keep [OF wf] d by simp
  have fin: "in_pool (j_future (m_heap m ! r)) \<Longrightarrow> r < length (m_heap m) \<Longrightarrow> j_finished (m_heap m ! r) = None" for r
    using heap_wf_nth [OF wf, of r] by (auto simp: job_wf_def)
  have one: "heap_moves m (upd_job m r f) \<and> heap_wf (upd_job m r f)"
    if "job_move (m_heap m ! r) (f (m_heap m ! r))" for r f
    by (rule keep, rule heap_moves_set [OF that]) simp_all
  show ?thesis
  proof (cases x)
    case JStart
    have "m_heap (start m) = m_heap m" "m_jobs (start m) = m_jobs m" by (simp_all add: start_def)
    with JStart show ?thesis using keep [of "start m"] by auto
  next
    case (JPrune now)
    then show ?thesis using prune_wf [OF wf] by auto
  next
    case (JRegister now sp)
    then show ?thesis using register_step [OF wf] by simp
  next
    case (JSubmit now r pe ok)
    have "heap_moves m (fst (submit_section now m r pe ok)) \<and> m_jobs (fst (submit_section now m r pe ok)) = m_jobs m"
      if r: "r < length (m_heap m)"
    proof (cases "j_future (m_heap m ! r) \<noteq> None \<or> j_finished (m_heap m ! r) \<noteq> None")
      case True
      then show ?thesis by (auto simp: submit_section_def Let_def)
    next
      case False
      then have none: "j_finished (m_heap m ! r) = None" "j_future (m_heap m ! r) = None" by auto
      with heap_wf_nth [OF wf r] have nc: "\<not> st_cancel (j_state (m_heap m ! r))" by (auto simp: job_wf_def)
      have e: "(m_heap m ! r)\<lparr>j_future := None, j_state := (j_state (m_heap m ! r))\<lparr>st_cancel := False\<rparr>\<rparr> = m_heap m ! r"
        using none nc by (cases "m_heap m ! r") auto
      have "job_move (m_heap m ! r) (fail_job now msg (m_heap m ! r))" for msg
        using mv_fail [OF none(1), of None msg now False] nc e by simp
      then show ?thesis using none mv_submit [OF none]
        by (cases "if m_pool m then pe else Some ''no pool''")
          (auto simp: submit_section_def Let_def simp del: append.simps intro!: heap_moves_ex [of _ m r])
    qed
    then show ?thesis using JSubmit keep wf by auto
  next
    case (JCancel now key r ok)
    have jobs: "m_jobs (fst (cancel_section now m key r ok)) = m_jobs m \<or>
      m_jobs (fst (cancel_section now m key r ok)) = dict_del key (m_jobs m)"
      by (auto simp: cancel_section_def Let_def split: option.splits fut.splits)
    have "heap_wf (fst (cancel_section now m key r ok))" if "r < length (m_heap m)"
      by (rule heap_wf_keep [OF wf cancel_section_moves [OF wf that]])
        (use jobs d in \<open>auto simp: dict_del_def intro!: distinct_fst_filter\<close>)
    then show ?thesis using JCancel wf cancel_section_moves [OF wf] by auto
  next
    case (JShutdown now ok)
    let ?m = "m\<lparr>m_closed := True\<rparr>"
    have "list_all job_wf (m_heap ?m)" "\<forall>r\<in>set (map snd (m_jobs ?m)). r < length (m_heap ?m)"
      using wf by (auto simp: heap_wf_def)
    from interrupts_moves [OF this, of now ok] have
      "heap_moves m (shutdown now m ok)" "m_jobs (shutdown now m ok) = m_jobs m"
      by (auto simp: shutdown_def heap_moves_def)
    then show ?thesis using JShutdown keep by simp
  next
    case JClose
    have "heap_moves m (m\<lparr>m_closed := True\<rparr>)" by (rule heap_moves_refl) simp
    with JClose show ?thesis using keep by simp
  next
    case (JInterrupt now r ok)
    have "list_all job_wf (m_heap m)" using wf by (simp add: heap_wf_def)
    then show ?thesis using JInterrupt wf keep interrupt_moves [of m r now ok] by auto
  next
    case JPoolDown
    have "heap_moves m (m\<lparr>m_pool := False\<rparr>)" by (rule heap_moves_refl) simp
    with JPoolDown show ?thesis using keep by simp
  next
    case (JAddReports owner details db)
    have "m_heap (job_step m x) = m_heap m" "m_jobs (job_step m x) = m_jobs m"
      by (simp_all add: JAddReports add_completed_reports_def split: sum.splits)
    then show ?thesis using keep by auto
  next
    case (JRemoveReport key owner)
    have "m_heap (job_step m x) = m_heap m" "m_jobs (job_step m x) = m_jobs m"
      by (simp_all add: JRemoveReport remove_report_def split: option.splits)
    then show ?thesis using keep by auto
  next
    case (JRun r)
    then show ?thesis using wf one [of r "\<lambda>j. j\<lparr>j_future := Some Running\<rparr>"] mv_run by auto
  next
    case (JStarted r)
    then show ?thesis using wf mv_started
        one [of r "\<lambda>j. j\<lparr>j_state := (j_state j)\<lparr>st_status := ''running'', st_progress := 0\<rparr>\<rparr>"] by auto
  next
    case (JProgress r pct stage c)
    have p: "snd (on_progress c s pct stage) = s \<or>
      (\<exists>p. 0 \<le> p \<and> p \<le> 99 \<and> snd (on_progress c s pct stage) = s\<lparr>st_progress := p\<rparr>)" for s
      by (auto simp: on_progress_def Let_def intro!: exI [of _ "max 0 (min 99 pct)"])
    show ?thesis
    proof (cases "r < length (m_heap m) \<and> j_future (m_heap m ! r) = Some Running")
      case True
      let ?j = "m_heap m ! r"
      have "job_move\<^sup>*\<^sup>* ?j (?j\<lparr>j_state := snd (on_progress c (j_state ?j) pct stage)\<rparr>)"
        using p [of "j_state ?j"] mv_progress [of ?j] True by (auto simp: r_into_rtranclp)
      then have "heap_moves m (upd_job m r (\<lambda>j. j\<lparr>j_state := snd (on_progress c (j_state j) pct stage)\<rparr>))"
        using True by (auto simp: heap_moves_def nth_list_update)
      with True JProgress keep show ?thesis by simp
    qed (use JProgress wf in auto)
  next
    case (JDone now r res db ok)
    then show ?thesis using wf on_done_moves [OF wf, of r res now db ok] keep by auto
  next
    case (JPoolCancel now r ok)
    then show ?thesis using wf on_done_moves [OF wf, of r OCancelled now None ok] keep by auto
  qed
qed

interpretation job_system: machine job_step heap_wf "\<lambda>_. True"
  by unfold_locales (simp add: step_moves)

lemma run_moves: "heap_wf m \<Longrightarrow> heap_moves m (foldl job_step m xs) \<and> heap_wf (foldl job_step m xs)"
proof (induction xs rule: rev_induct)
  case Nil
  then show ?case by auto
next
  case (snoc x xs)
  then show ?case using step_moves [of "foldl job_step m xs" x] by (auto intro: heap_moves_trans)
qed

definition fresh_manager :: "(string, saved_report) dict \<Rightarrow> (string, strategy_row) dict \<Rightarrow> manager" where
  "fresh_manager reports strategies =
     \<lparr>m_heap = [], m_jobs = [], m_pool = False, m_closed = False, m_reports = reports, m_strategies = strategies\<rparr>"

lemma fresh_wf [simp]: "heap_wf (fresh_manager reports strategies)"
  by (simp add: fresh_manager_def heap_wf_def)

lemma run_nth:
  assumes "heap_wf m" "r < length (m_heap m)"
  shows "job_move\<^sup>*\<^sup>* (m_heap m ! r) (m_heap (foldl job_step m xs) ! r)"
  using run_moves [OF assms(1), of xs] assms(2) by (simp add: heap_moves_def)

section \<open>Properties\<close>

text \<open>the life of a job. In every reachable state an unfinished job is queued or running
  with progress below 100 and nothing saved; a finished one has left the pool and is either
  saved and completed for an owner, or failed with a message, or completed without an owner;
  and the dictionary files every job under its own id.\<close>

theorem job_lifecycle:
  "let m = foldl job_step (fresh_manager reports strategies) ops in
     list_all job_wf (m_heap m) \<and> distinct (map fst (m_jobs m)) \<and>
     list_all (\<lambda>(k, r). r < length (m_heap m) \<and> sp_id (j_spec (m_heap m ! r)) = k) (m_jobs m)"
  using job_system.run_inv [OF fresh_wf, of ops reports strategies]
  by (simp add: heap_wf_def list.pred_True Let_def list_all_iff)

definition demo_spec :: run_spec where
  "demo_spec = \<lparr>sp_id = ''r1'', sp_owner = Some ''u1'', sp_name = ''n'', sp_strategy_key = ''k'', sp_strategy_name = ''s'',
     sp_kind = ''user'', sp_start = 0, sp_end = 9, sp_capital = Fin 100, sp_symbol = ''T'', sp_params = [],
     sp_created = 0, sp_purpose = ''user''\<rparr>"

definition demo_ops :: "job_op list" where
  "demo_ops = [JStart, JRegister 0 demo_spec, JSubmit 1 0 None True, JRun 0, JStarted 0]"

definition demo_manager :: manager where
  "demo_manager = foldl job_step (fresh_manager [] []) demo_ops"

lemma demo_manager_eq: "demo_manager = \<lparr>m_heap = [\<lparr>j_spec = demo_spec,
     j_state = \<lparr>st_status = ''running'', st_progress = 0, st_cancel = False, st_error = None\<rparr>,
     j_future = Some Running, j_finished = None, j_detail = None, j_saved = False\<rparr>],
   m_jobs = [(''r1'', 0)], m_pool = True, m_closed = False, m_reports = [], m_strategies = []\<rparr>"
  by (simp add: demo_manager_def demo_ops_def fresh_manager_def start_def running_def register_def prune_def
      demo_spec_def submit_section_def Let_def upd_job_def)

lemma demo_manager_wf: "heap_wf demo_manager"
  unfolding demo_manager_def by (rule job_system.run_inv [OF fresh_wf]) (simp add: demo_ops_def)

text \<open>a finished job is final. Whatever threads, workers, pool and shutdown do next, its
  status, its report and its outcome stay as they are.\<close>

theorem finished_job_final:
  assumes "heap_wf m" and "r < length (m_heap m)" and "j_finished (m_heap m ! r) \<noteq> None"
  shows "m_heap (foldl job_step m ops) ! r = m_heap m ! r"
  by (rule moves_terminal [OF run_nth [OF assms(1,2)] heap_wf_nth [OF assms(1,2)] assms(3)])

theorem finished_job_final_witness:
  "let m = job_step demo_manager (JDone 5 0 (OError ''boom'') None True) in
   m_heap (foldl job_step m [JCancel 6 ''r1'' 0 True, JShutdown 7 True, JDone 8 0 (OError ''x'') None True]) ! 0 = m_heap m ! 0"
  unfolding Let_def
proof (rule finished_job_final)
  show "heap_wf (job_step demo_manager (JDone 5 0 (OError ''boom'') None True))"
    using step_moves [OF demo_manager_wf] by blast
qed (simp_all add: demo_manager_eq on_done_def Let_def fail_job_def)

text \<open>C6: cancellation wins. Once a cancellation of a job was acknowledged as requested, the
  job is never saved, whatever happens next and in whatever order; and if it ends, it ends
  as failed with the message of a stopped run.\<close>

theorem cancellation_wins:
  assumes "heap_wf m" and "r < length (m_heap m)"
    and "cancel_section now m key r ok = (m', CancelRequested)"
  shows "let j = m_heap (foldl job_step m' ops) ! r in
    \<not> j_saved j \<and> (j_finished j \<noteq> None \<longrightarrow>
      st_status (j_state j) = ''failed'' \<and> (\<exists>msg\<in>stopped_messages. st_error (j_state j) = Some msg))"
proof -
  have m': "m' = job_step m (JCancel now key r ok)" using assms(2,3) by simp
  have wf: "heap_wf m'" using step_moves [OF assms(1), of "JCancel now key r ok"] unfolding m' by blast
  have len: "r < length (m_heap m')" using step_moves [OF assms(1), of "JCancel now key r ok"] assms(2)
    unfolding m' heap_moves_def by linarith
  have "doomed (m_heap m' ! r)"
    using assms(2,3)
    by (auto simp: cancel_section_def Let_def doomed_def on_done_def fail_job_def
        split: if_splits option.splits fut.splits)
  from moves_doomed [OF run_nth [OF wf len, of ops] heap_wf_nth [OF wf len] this]
  show ?thesis by (auto simp: doomed_def Let_def)
qed

definition demo_report :: detail where
  "demo_report = (empty_detail demo_spec ''completed'' 100 None)\<lparr>d_curve := [(0, Fin 100)]\<rparr>"

theorem cancellation_wins_witness:
  "let m' = fst (cancel_section 5 demo_manager ''r1'' 0 True);
       j = m_heap (foldl job_step m' [JDone 6 0 (OReport demo_report) None True]) ! 0 in
    \<not> j_saved j \<and> (j_finished j \<noteq> None \<longrightarrow>
      st_status (j_state j) = ''failed'' \<and> (\<exists>msg\<in>stopped_messages. st_error (j_state j) = Some msg))"
proof -
  have c: "cancel_section 5 demo_manager ''r1'' 0 True = (fst (cancel_section 5 demo_manager ''r1'' 0 True), CancelRequested)"
    by (simp add: demo_manager_eq cancel_section_def Let_def)
  show ?thesis
    using cancellation_wins [OF demo_manager_wf _ c, of "[JDone 6 0 (OReport demo_report) None True]"]
    by (simp add: demo_manager_eq Let_def)
qed

text \<open>jobs are private. Under another owner's id a job reads as missing and cannot be
  cancelled, and asking changes nothing beyond dropping expired jobs; the live list shows
  only the caller's own unfinished history runs.\<close>

theorem jobs_are_private:
  assumes "\<forall>r. dict_get (m_jobs (prune now m)) key = Some r \<longrightarrow> sp_owner (j_spec (m_heap m ! r)) \<noteq> Some owner"
  shows "get_detail now m key owner = (prune now m, None) \<and>
    cancel now m key (Some owner) ok = (prune now m, NotFound) \<and>
    list_all (\<lambda>d. \<exists>(k, q)\<in>set (m_jobs m).
      sp_owner (j_spec (m_heap m ! q)) = Some owner \<and> sp_purpose (j_spec (m_heap m ! q)) = ''user'' \<and>
      j_finished (m_heap m ! q) = None \<and> d_id d = sp_id (j_spec (m_heap m ! q))) (snd (live_summaries now m owner))"
proof (intro conjI)
  show "get_detail now m key owner = (prune now m, None)"
    using assms by (auto simp: get_detail_def lookup_def Let_def split: option.splits)
  show "cancel now m key (Some owner) ok = (prune now m, NotFound)"
    using assms by (auto simp: cancel_def lookup_def Let_def split: option.splits)
  have "(k, q) \<in> set (m_jobs m)" if "(k, q) \<in> set (m_jobs (prune now m))" for k q
    using that prune_sel(2) [of now m] by blast
  then show "list_all (\<lambda>d. \<exists>(k, q)\<in>set (m_jobs m).
      sp_owner (j_spec (m_heap m ! q)) = Some owner \<and> sp_purpose (j_spec (m_heap m ! q)) = ''user'' \<and>
      j_finished (m_heap m ! q) = None \<and> d_id d = sp_id (j_spec (m_heap m ! q))) (snd (live_summaries now m owner))"
    by (fastforce simp: list_all_iff live_summaries_def Let_def empty_detail_def)
qed

theorem jobs_are_private_witness:
  "get_detail 9 demo_manager ''r1'' ''u2'' = (prune 9 demo_manager, None) \<and>
    cancel 9 demo_manager ''r1'' (Some ''u2'') True = (prune 9 demo_manager, NotFound) \<and>
    list_all (\<lambda>d. \<exists>(k, q)\<in>set (m_jobs demo_manager).
      sp_owner (j_spec (m_heap demo_manager ! q)) = Some ''u2'' \<and>
      sp_purpose (j_spec (m_heap demo_manager ! q)) = ''user'' \<and>
      j_finished (m_heap demo_manager ! q) = None \<and> d_id d = sp_id (j_spec (m_heap demo_manager ! q)))
      (snd (live_summaries 9 demo_manager ''u2''))"
  by (rule jobs_are_private) (simp add: demo_manager_eq prune_def expired_def demo_spec_def)





text \<open>validation settles. When a validation job of a user strategy ends, the strategy is
  enabled and active exactly if the job completed, and parked as failed otherwise.\<close>

theorem validation_settles:
  assumes "r < length (m_heap m)" and "j_future (m_heap m ! r) = Some Running" and "res \<noteq> OCancelled"
    and "sp_purpose (j_spec (m_heap m ! r)) = ''validation''"
    and "dict_get (m_strategies m) (sp_strategy_key (j_spec (m_heap m ! r))) = Some row" and "sr_kind row = ''user''"
  shows "let m' = job_step m (JDone now r res db True);
             passed = (st_status (j_state (m_heap m' ! r)) = ''completed'')
    in j_finished (m_heap m' ! r) = Some now \<and>
       dict_get (m_strategies m') (sp_strategy_key (j_spec (m_heap m ! r))) =
         Some (row\<lparr>sr_status := (if passed then ''active'' else ''failed_validation''), sr_enabled := passed,
                   sr_validation_job := Some (sp_id (j_spec (m_heap m ! r)))\<rparr>)"
  using assms
  by (cases res) (auto simp: on_done_def Let_def settle_validation_def fail_job_def
      split: option.splits sum.splits)

theorem validation_settles_witness:
  "let m = demo_manager\<lparr>m_heap := [(m_heap demo_manager ! 0)\<lparr>j_spec := demo_spec\<lparr>sp_purpose := ''validation''\<rparr>\<rparr>],
        m_strategies := [(''k'', \<lparr>sr_kind = ''user'', sr_status = ''validating'', sr_enabled = False,
          sr_validation_job = None\<rparr>)]\<rparr>;
       m' = job_step m (JDone 7 0 (OReport demo_report) None True);
       passed = (st_status (j_state (m_heap m' ! 0)) = ''completed'')
    in j_finished (m_heap m' ! 0) = Some 7 \<and>
       dict_get (m_strategies m') (sp_strategy_key (j_spec (m_heap m ! 0))) =
         Some (\<lparr>sr_kind = ''user'', sr_status = ''validating'', sr_enabled = False, sr_validation_job = None\<rparr>
           \<lparr>sr_status := (if passed then ''active'' else ''failed_validation''), sr_enabled := passed,
            sr_validation_job := Some (sp_id (j_spec (m_heap m ! 0)))\<rparr>)"
  unfolding Let_def
  by (rule validation_settles [unfolded Let_def]) (simp_all add: demo_manager_eq demo_spec_def)

section \<open>A path that does not settle\<close>

text \<open>Cancelling a validation job that was registered but not submitted fails the job and
  leaves its strategy as it was, unlike every other failing path.\<close>

lemma unsubmitted_validation_unsettled:
  assumes "j_future (m_heap m ! r) = None" "j_finished (m_heap m ! r) = None" "\<not> j_saved (m_heap m ! r)"
    "r < length (m_heap m)"
  shows "m_strategies (fst (cancel_section now m key r ok)) = m_strategies m \<and>
    st_status (j_state (m_heap (fst (cancel_section now m key r ok)) ! r)) = ''failed''"
  using assms by (simp add: cancel_section_def Let_def fail_job_def)

end
