(* ===== verification/Submission_Claims.thy ===== *)
theory Submission_Claims
  imports Submission Job_Manager_Claims
begin

text \<open>
  What an accepted submission puts in the queue, and that a refused one leaves nothing.
\<close>

lemma reject_Inr [simp]: "reject bad = Inr u \<longleftrightarrow> \<not> bad"
  by (auto simp: reject_def)

lemma reject_Inl [simp]: "reject bad = Inl e \<longleftrightarrow> bad \<and> e = Rejected"
  by (auto simp: reject_def)

lemma reject_simps [simp]: "reject False = Inr ()" "reject True = Inl Rejected"
  by (simp_all add: reject_def)

lemma as_rejection_Inr [simp]: "as_rejection r = Inr v \<longleftrightarrow> r = Inr v"
  by (auto simp: as_rejection_def split: sum.splits)

lemma raising_Inr [simp]: "raising r = Inr v \<longleftrightarrow> r = Inr v"
  by (auto simp: raising_def split: sum.splits)

section \<open>What a prepared run satisfies\<close>

definition spec_ok :: "environment \<Rightarrow> run_spec \<Rightarrow> bool" where
  "spec_ok env sp \<longleftrightarrow> sp_name sp \<noteq> [] \<and> length (sp_name sp) \<le> name_limit \<and>
     (\<exists>row. dict_get (en_registry env) (sp_strategy_key sp) = Some row \<and> rg_enabled row) \<and>
     sp_start sp < sp_end sp \<and> sp_end sp - sp_start sp \<le> en_max_window env \<and>
     (\<exists>c. sp_capital sp = Fin c \<and> 0 < c) \<and>
     dict_get (sp_params sp) ''mode'' = Some (VStr ''event'') \<and>
     (\<exists>universe controls. dict_get (sp_params sp) ''universe'' = Some (vtickers universe) \<and>
        controls_ok (en_news env) ''event'' universe controls \<and>
        (\<forall>k. k \<noteq> ''mode'' \<longrightarrow> k \<noteq> ''universe'' \<longrightarrow> dict_get controls k \<noteq> None \<longrightarrow>
           dict_get (sp_params sp) k = dict_get controls k) \<and>
        (\<forall>s. dict_get controls ''BAR_INTERVAL_SECONDS'' = Some (VInt s) \<longrightarrow>
           check_intraday_size (int (length universe)) (sp_start sp) (sp_end sp) (s div 60)) \<and>
        (universe \<noteq> [] \<longrightarrow> cv_missing (en_coverage env universe) = []))"

lemma split_controls_distinct:
  assumes "split_controls news raw du mode = Inr (params, c, u)"
  shows "distinct (map fst c)"
proof -
  have merge: "distinct (map fst d) \<Longrightarrow> distinct (map fst (dict_merge d e))" for d e :: "(string, pyval) dict"
    by (induction e arbitrary: d) (auto simp: dict_merge_def)
  have u: "distinct (map fst c0)" if "universe_controls raw du = Inr (c0, u)" for c0
    using that by (auto simp: universe_controls_def ebind_Inr_iff Let_def split: option.splits)
  have w: "distinct (map fst c1)" if "weight_controls raw u c0 = Inr c1" "distinct (map fst c0)" for c0 c1
    using that by (auto simp: weight_controls_def ebind_Inr_iff split: option.splits)
  have co: "distinct (map fst c1)" if "cost_control raw key x c0 = Inr c1" "distinct (map fst c0)" for c0 c1 key x
    using that by (auto simp: cost_control_def ebind_Inr_iff split: option.splits if_splits)
  from assms obtain c0 c1 c2 c3 c4 where s: "universe_controls raw du = Inr (c0, u)" "weight_controls raw u c0 = Inr c1"
    "cost_control raw ''slippageBps'' 1000 c1 = Inr c2" "cost_control raw ''commissionPerShare'' 100 c2 = Inr c3"
    and bar: "(case dict_get raw ''barIntervalSeconds'' of None \<Rightarrow> Inr c3
      | Some v \<Rightarrow> ebind (bar_interval_controls v mode) (\<lambda>b. Inr (dict_merge c3 b))) = Inr c4"
    and gate: "(case dict_get raw ''sentimentGate'' of None \<Rightarrow> Inr c4
      | Some v \<Rightarrow> ebind (validated_sentiment_gate news v mode) (\<lambda>g.
          Inr (case g of None \<Rightarrow> c4 | Some gate \<Rightarrow> dict_set ''sentimentGate'' gate c4))) = Inr c"
    by (rule split_controls_stages)
  have "distinct (map fst c3)" by (rule co [OF s(4) co [OF s(3) w [OF s(2) u [OF s(1)]]]])
  then have "distinct (map fst c4)" using bar by (auto simp: ebind_Inr_iff merge split: option.splits)
  then show ?thesis using gate by (auto simp: ebind_Inr_iff split: option.splits)
qed

lemma merge_get:
  "distinct (map fst e) \<Longrightarrow> dict_get (dict_merge d e) k = (case dict_get e k of None \<Rightarrow> dict_get d k | Some v \<Rightarrow> Some v)"
proof -
  assume d: "distinct (map fst e)"
  then have "distinct (map fst (rev e))" by (simp flip: rev_map)
  with d have "map_of (rev e) = map_of e" by (simp add: map_of_inject_set)
  then show ?thesis by (simp add: map_of_dict_merge)
qed

lemma prepare_run_ok:
  assumes "prepare_run env rq run_id owner created = Inr sp"
  shows "spec_ok env sp \<and> sp_id sp = run_id \<and> sp_owner sp = owner \<and> sp_purpose sp = ''user''"
proof -
  from assms obtain key row start_day end_day capital strategy_params controls universe params where
    name: "strip (rq_name rq) \<noteq> []" "length (strip (rq_name rq)) \<le> name_limit"
    and row: "load_runnable_strategy env (rq_strategy rq) = Inr (key, row)"
    and win: "validated_window env rq = Inr (start_day, end_day)"
    and cap: "validated_capital (rq_capital rq) = Inr capital"
    and mode: "lower (strip (rq_mode rq)) \<in> set run_modes"
    and split: "split_controls (en_news env) (rq_params rq) (rg_universe row) (lower (strip (rq_mode rq))) =
      Inr (strategy_params, controls, universe)"
    and size: "validated_intraday_size controls universe start_day end_day = Inr ()"
    and cov: "validated_coverage env universe start_day end_day = Inr ()"
    and sp: "sp = \<lparr>sp_id = run_id, sp_owner = owner, sp_name = strip (rq_name rq), sp_strategy_key = key,
            sp_strategy_name = rg_name row, sp_kind = rg_kind row, sp_start = start_day, sp_end = end_day,
            sp_capital = capital, sp_symbol = symbol_for universe,
            sp_params = dict_set mode_key (VStr (lower (strip (rq_mode rq))))
              (dict_set ''universe'' (vtickers universe) (dict_merge params controls)),
            sp_created = created, sp_purpose = ''user''\<rparr>"
    by (auto simp: prepare_run_def ebind_Inr_iff validated_name_def validated_mode_def Let_def)
  have m: "lower (strip (rq_mode rq)) = ''event''" using mode by (simp add: run_modes_def)
  have r: "dict_get (en_registry env) key = Some row" "rg_enabled row"
    using row by (auto simp: load_runnable_strategy_def Let_def ebind_Inr_iff split: option.splits)
  have w: "start_day < end_day" "end_day - start_day \<le> en_max_window env"
    using win by (auto simp: validated_window_def ebind_Inr_iff)
  have c: "\<exists>c. capital = Fin c \<and> 0 < c"
    using cap by (auto simp: validated_capital_def ebind_Inr_iff isfinite_iff zero_Fin)
  have ok: "controls_ok (en_news env) ''event'' universe controls" using split_controls_sound [OF split] m by simp
  have s: "check_intraday_size (int (length universe)) start_day end_day (x div 60)"
    if "dict_get controls ''BAR_INTERVAL_SECONDS'' = Some (VInt x)" for x
    using size that by (auto simp: validated_intraday_size_def ebind_Inr_iff bar_minutes_def choice_of_def split: if_splits)
  have v: "cv_missing (en_coverage env universe) = []" if "universe \<noteq> []"
    using cov that by (auto simp: validated_coverage_def ebind_Inr_iff Let_def)
  have get: "dict_get (sp_params sp) k = dict_get controls k"
    if "k \<noteq> ''mode''" "k \<noteq> ''universe''" "dict_get controls k \<noteq> None" for k
    using that merge_get [OF split_controls_distinct [OF split], of params k] by (auto simp: sp mode_key_def)
  have u: "dict_get (sp_params sp) ''universe'' = Some (vtickers universe)" by (simp add: sp mode_key_def)
  have "spec_ok env sp"
    unfolding spec_ok_def
  proof (intro conjI exI [of _ universe] exI [of _ controls])
    show "\<exists>row. dict_get (en_registry env) (sp_strategy_key sp) = Some row \<and> rg_enabled row" using r by (simp add: sp)
  qed (use name w c m ok s v get u in \<open>simp_all add: sp mode_key_def\<close>)
  then show ?thesis by (simp add: sp)
qed

section \<open>Properties\<close>

lemma prune_fresh:
  assumes "dict_get (m_jobs m) k = Some r" "j_finished (m_heap m ! r) = None" "distinct (map fst (m_jobs m))"
  shows "dict_get (m_jobs (prune now m)) k = Some r"
proof -
  have "(k, r) \<in> set (m_jobs m)" using assms(1) by (rule map_of_SomeD)
  then have "(k, r) \<in> set (m_jobs (prune now m))" using assms(2) by (simp add: prune_def expired_def)
  moreover have "distinct (map fst (m_jobs (prune now m)))"
    using assms(3) by (simp add: prune_def distinct_fst_filter)
  ultimately show ?thesis by (simp add: map_of_is_SomeI)
qed

lemma submission_Inr:
  assumes "submit_backtest_run env rq run_id owner created now pool_error db_ok m = (m', Inr key)"
  obtains sp m1 where "prepare_run env rq run_id owner created = Inr sp" "register now m sp = (m1, Inr ())"
    "submit now m1 run_id pool_error db_ok = (m', Inr ())" "key = run_id"
proof (cases "prepare_run env rq run_id owner created")
  case (Inr sp)
  obtain m1 r1 where r1: "register now m sp = (m1, r1)" by force
  obtain m2 r2 where r2: "submit now m1 run_id pool_error db_ok = (m2, r2)" by force
  from assms Inr r1 r2 have "r1 = Inr ()" "r2 = Inr ()" "m2 = m'" "key = run_id"
    by (cases r1; cases r2; simp add: submit_backtest_run_def)+
  with Inr r1 r2 show ?thesis by (intro that) simp_all
qed (use assms in \<open>simp add: submit_backtest_run_def\<close>)

text \<open>C29: an accepted submission is a well-formed run waiting in the pool. The job filed
  under the returned id is queued and submitted, belongs to the caller, and its specification
  names an enabled strategy, a forward window within the limit, positive finite capital, event
  mode, accepted controls, an intraday load within the bound, and tickers with market data.\<close>

theorem accepted_submission:
  assumes "heap_wf m"
    and "submit_backtest_run env rq run_id owner created now pool_error db_ok m = (m', Inr key)"
  shows "key = run_id \<and> heap_wf m' \<and>
    (\<exists>r. dict_get (m_jobs m') run_id = Some r \<and>
       (let j = m_heap m' ! r in
        j_future j = Some Pending \<and> j_finished j = None \<and> st_status (j_state j) = ''queued'' \<and>
        spec_ok env (j_spec j) \<and> sp_id (j_spec j) = run_id \<and> sp_owner (j_spec j) = owner \<and> owner \<noteq> None \<and>
        sp_purpose (j_spec j) = ''user''))"
proof -
  from assms(2) obtain sp m1 where sp: "prepare_run env rq run_id owner created = Inr sp"
    and reg: "register now m sp = (m1, Inr ())" and sub: "submit now m1 run_id pool_error db_ok = (m', Inr ())"
    and key: "key = run_id" by (rule submission_Inr)
  note ok = prepare_run_ok [OF sp]
  have m1: "heap_wf m1" using register_step [OF assms(1), of now sp] reg by simp
  let ?r = "length (m_heap m)"
  have m1_eq: "m1 = (prune now m)\<lparr>m_heap := m_heap m @ [\<lparr>j_spec = sp,
      j_state = \<lparr>st_status = ''queued'', st_progress = 0, st_cancel = False, st_error = None\<rparr>,
      j_future = None, j_finished = None, j_detail = None, j_saved = False\<rparr>],
      m_jobs := dict_set run_id ?r (m_jobs (prune now m))\<rparr>" and own: "owner \<noteq> None"
    using reg ok unfolding register_def Let_def by (auto split: if_splits)
  have get: "dict_get (m_jobs m1) run_id = Some ?r" and job: "m_heap m1 ! ?r = \<lparr>j_spec = sp,
      j_state = \<lparr>st_status = ''queued'', st_progress = 0, st_cancel = False, st_error = None\<rparr>,
      j_future = None, j_finished = None, j_detail = None, j_saved = False\<rparr>"
    and len: "?r < length (m_heap m1)"
    by (simp_all add: m1_eq)
  have d: "distinct (map fst (m_jobs m1))" using m1 by (simp add: heap_wf_def)
  have pr: "dict_get (m_jobs (prune now m1)) run_id = Some ?r"
    by (rule prune_fresh [OF get _ d]) (simp add: job)
  then have m': "m' = upd_job (prune now m1) ?r (\<lambda>j. j\<lparr>j_future := Some Pending\<rparr>)"
    using sub job by (auto simp: submit_def lookup_def Let_def submit_section_def split: if_splits option.splits)
  have step: "m' = job_step (prune now m1) (JSubmit now ?r pool_error db_ok)"
    using sub pr len by (auto simp: submit_def lookup_def Let_def split: if_splits)
  have "heap_wf m'" using step_moves [OF prune_wf [OF m1], of now "JSubmit now ?r pool_error db_ok"] step by simp
  then show ?thesis using key own ok pr job len by (auto simp: m' Let_def)
qed



definition demo_env :: environment where
  "demo_env = \<lparr>en_max_window = 3650, en_news = False, en_s3 = False, en_packaged = (\<lambda>_. True),
     en_registry = [(''k'', \<lparr>rg_name = ''Strategy'', rg_kind = ''builtin'', rg_class_path = None, rg_storage_key = None,
       rg_enabled = True, rg_universe = [''T''],
       rg_specs = [VDict [(''key'', VStr ''N''), (''type'', VStr ''integer''), (''min'', VInt 1), (''max'', VInt 50)]]\<rparr>)],
     en_fmp = False, en_validate = (\<lambda>_. Inr []),
     en_coverage = (\<lambda>_. \<lparr>cv_missing = [], cv_start = Some ''2020-01-01'', cv_end = Some ''2026-01-01''\<rparr>),
     en_fromiso = (\<lambda>s. if s = ''2025-01-02'' then Some 20090 else if s = ''2025-06-30'' then Some 20269 else None),
     en_isodate = (\<lambda>d. if d = 20090 then ''2025-01-02'' else ''2025-06-30''), en_str = (\<lambda>_. [])\<rparr>"

definition demo_request :: request where
  "demo_request = \<lparr>rq_name = ''first run'', rq_strategy = ''k'', rq_start = ''2025-01-02'', rq_end = ''2025-06-30'',
     rq_capital = Fin 100000, rq_mode = ''event'', rq_params = [(''N'', VInt 20)]\<rparr>"

lemma demo_text: "strip ''first run'' = ''first run''" "strip ''k'' = ''k''" "strip ''2025-01-02'' = ''2025-01-02''"
  "strip ''2025-06-30'' = ''2025-06-30''" "lower (strip ''event'') = ''event''" "strip ''T'' = ''T''"
  "lower ''integer'' = ''integer''"
  "\<not> ''2025-01-02'' < ''2020-01-01''" "\<not> ''2026-01-01'' < ''2025-06-30''"
  by code_simp+

abbreviation demo_row :: registry_row where
  "demo_row \<equiv> \<lparr>rg_name = ''Strategy'', rg_kind = ''builtin'', rg_class_path = None, rg_storage_key = None,
     rg_enabled = True, rg_universe = [''T''],
     rg_specs = [VDict [(''key'', VStr ''N''), (''type'', VStr ''integer''), (''min'', VInt 1), (''max'', VInt 50)]]\<rparr>"

lemma demo_steps:
  "validated_name ''first run'' = Inr ''first run''"
  "load_runnable_strategy demo_env ''k'' = Inr (''k'', demo_row)"
  "validated_window demo_env demo_request = Inr (20090, 20269)"
  "validated_mode ''event'' = Inr ''event''"
  "split_controls False [(''N'', VInt 20)] [''T''] ''event'' = Inr ([(''N'', VInt 20)], [], [''T''])"
  "validated_params demo_env demo_row [(''N'', VInt 20)] = Inr [(''N'', VInt 20)]"
  "validated_coverage demo_env [''T''] 20090 20269 = Inr ()"
  by (simp_all add: validated_name_def demo_text name_limit_def load_runnable_strategy_def demo_env_def
      validated_window_def validated_date_def demo_request_def validated_mode_def run_modes_def split_controls_def
      control_keys_def universe_controls_def weight_controls_def cost_control_def validated_params_def spec_table_def
      truthy_def dict_or_def str_of_def validated_param_value_def check_param_range_def exact_number_def
      validated_coverage_def float_of_int_def raising_def mode_key_def Let_def)

lemma demo_prepare: "prepare_run demo_env demo_request ''r9'' (Some ''u1'') 5 = Inr
  \<lparr>sp_id = ''r9'', sp_owner = Some ''u1'', sp_name = ''first run'', sp_strategy_key = ''k'', sp_strategy_name = ''Strategy'',
    sp_kind = ''builtin'', sp_start = 20090, sp_end = 20269, sp_capital = Fin 100000, sp_symbol = ''T'',
    sp_params = [(''N'', VInt 20), (''universe'', vtickers [''T'']), (''mode'', VStr ''event'')], sp_created = 5,
    sp_purpose = ''user''\<rparr>"
proof -
  have "rq_name demo_request = ''first run''" "rq_strategy demo_request = ''k''" "rq_capital demo_request = Fin 100000"
    "rq_mode demo_request = ''event''" "rq_params demo_request = [(''N'', VInt 20)]" "en_news demo_env = False"
    by (simp_all add: demo_request_def demo_env_def)
  then show ?thesis
    by (simp add: prepare_run_def demo_steps validated_capital_def zero_Fin as_rejection_def reject_def
        validated_intraday_size_def symbol_for_def demo_text mode_key_def dict_merge_def)
qed

theorem accepted_submission_witness:
  "\<exists>m'. submit_backtest_run demo_env demo_request ''r9'' (Some ''u1'') 5 7 None True demo_manager = (m', Inr ''r9'') \<and>
    (\<exists>r. dict_get (m_jobs m') ''r9'' = Some r \<and> spec_ok demo_env (j_spec (m_heap m' ! r)))"
proof -
  have "snd (submit_backtest_run demo_env demo_request ''r9'' (Some ''u1'') 5 7 None True demo_manager) = Inr ''r9''"
    by (simp add: submit_backtest_run_def demo_prepare demo_manager_eq register_def running_def prune_def expired_def
        submit_def lookup_def submit_section_def Let_def)
  then obtain m' where m': "submit_backtest_run demo_env demo_request ''r9'' (Some ''u1'') 5 7 None True demo_manager = (m', Inr ''r9'')"
    by (metis prod.collapse)
  from accepted_submission [OF demo_manager_wf m'] m' show ?thesis by (auto simp: Let_def)
qed


section \<open>Strategy parameters\<close>

definition param_conforms :: "environment \<Rightarrow> (string, pyval) dict \<Rightarrow> pyval \<Rightarrow> bool" where
  "param_conforms env spec w \<longleftrightarrow>
     (let spec_type = lower (str_of env (dict_or spec ''type'' (VStr ''number''))) in
      if spec_type = ''boolean'' then \<exists>b. w = VBool b
      else (\<exists>x. exact_number w = Some (Fin x) \<and>
              (\<forall>lo. exact_number (dict_or spec ''min'' VNone) = Some lo \<longrightarrow> \<not> Fin x < lo) \<and>
              (\<forall>hi. exact_number (dict_or spec ''max'' VNone) = Some hi \<longrightarrow> \<not> Fin x > hi)) \<and>
           (spec_type = ''integer'' \<longrightarrow> (\<exists>i. w = VInt i)))"

lemma param_value_conforms:
  assumes "validated_param_value env v spec = Inr w"
  shows "param_conforms env spec w"
proof (cases "lower (str_of env (dict_or spec ''type'' (VStr ''number''))) = ''boolean''")
  case True
  with assms show ?thesis by (auto simp: validated_param_value_def param_conforms_def Let_def split: pyval.splits)
next
  case False
  with assms have range: "check_param_range w spec = Inr ()"
    and num: "(\<exists>i. w = VInt i) \<or> (\<exists>x. w = VFloat (Fin x) \<and> lower (str_of env (dict_or spec ''type'' (VStr ''number''))) \<noteq> ''integer'')"
    by (auto simp: validated_param_value_def Let_def ebind_Inr_iff split: pyval.splits pyfloat.splits if_splits)
  from num have "\<exists>x. exact_number w = Some (Fin x)" by (auto simp: exact_number_def)
  then obtain x where x: "exact_number w = Some (Fin x)" by blast
  from range have "\<not> (case exact_number (dict_or spec ''min'' VNone) of None \<Rightarrow> False | Some lo \<Rightarrow> Fin x < lo)"
    "\<not> (case exact_number (dict_or spec ''max'' VNone) of None \<Rightarrow> False | Some hi \<Rightarrow> Fin x > hi)"
    by (auto simp: check_param_range_def x ebind_Inr_iff)
  with False num x show ?thesis by (auto simp: param_conforms_def Let_def)
qed

lemma param_loop_conforms:
  "param_loop env specs sub = Inr ws \<Longrightarrow> map fst ws = map fst sub \<and>
   list_all (\<lambda>(k, w). k \<noteq> mode_key \<and> (\<exists>spec. dict_get specs k = Some spec \<and> param_conforms env spec w)) ws"
  by (induction specs\<equiv>specs sub arbitrary: ws rule: param_loop.induct)
    (auto simp: ebind_Inr_iff param_value_conforms split: if_splits option.splits)

text \<open>C39: no parameter reaches the engine unchecked. The accepted parameters are the
  submitted ones, each declared by the strategy under its key, of the declared type (a whole
  float arrives as an integer), finite and within the declared range; the reserved mode key
  is never among them.\<close>

theorem accepted_params_conform:
  assumes "validated_params env row sub = Inr ws"
  shows "map fst ws = map fst sub \<and>
    list_all (\<lambda>(k, w). k \<noteq> mode_key \<and>
      (\<exists>spec. dict_get (spec_table env (rg_specs row)) k = Some spec \<and> param_conforms env spec w)) ws"
  using assms param_loop_conforms by (auto simp: validated_params_def split: if_splits)

theorem accepted_params_conform_witness:
  "\<exists>ws. validated_params demo_env demo_row [(''N'', VInt 20)] = Inr ws \<and> map fst ws = [''N'']"
  using accepted_params_conform [OF demo_steps(6)] demo_steps(6) by auto

end
