(* ===== verification/Run_Table.thy ===== *)
theory Run_Table
  imports Job_Manager
begin

text \<open>
  The run table: the guarded statements of \<open>src/repositories/runs.py\<close>, the worker's
  statements of \<open>src/workers/run_job.py\<close> and the boot repair of
  \<open>src/workers/reconciler.py\<close>. The database serialises statements, so each is one step
  on the two tables, and a statement's answer is its row count. A statement that raises
  changes nothing.
\<close>

section \<open>Tables\<close>

record run_row =
  rr_status :: string
  rr_progress :: int
  rr_error :: "string option"
  rr_cancel :: bool
  rr_heartbeat :: "int option"
  rr_started :: "int option"
  rr_finished :: "int option"
  rr_purpose :: string
  rr_owner :: "string option"
  rr_strategy :: string
  rr_created :: int
  rr_results :: "pyval option"

record tables =
  tb_runs :: "(string, run_row) dict"
  tb_strategies :: "(string, strategy_row) dict"

definition error_message_limit :: nat where "error_message_limit = 2000"

definition cancelled_message :: string where "cancelled_message = ''Cancelled by user''"

definition interrupted_message :: string where "interrupted_message = ''Interrupted by server restart''"

definition max_requeued_runs :: nat where "max_requeued_runs = 100"

definition terminal_statuses :: "string set" where "terminal_statuses = {''completed'', ''failed''}"

text \<open>\<open>for_user\<close>: an owner id narrows a statement to that owner's rows.\<close>

definition for_user :: "string option \<Rightarrow> run_row \<Rightarrow> bool" where
  "for_user owner row \<longleftrightarrow> (case owner of None \<Rightarrow> True | Some o' \<Rightarrow> rr_owner row = Some o')"

text \<open>\<open>UPDATE ... WHERE id = :id AND pred\<close> and its row count as a flag.\<close>

definition update_run :: "string \<Rightarrow> (run_row \<Rightarrow> bool) \<Rightarrow> (run_row \<Rightarrow> run_row) \<Rightarrow> tables \<Rightarrow> tables \<times> bool" where
  "update_run k pred f tb =
     (case dict_get (tb_runs tb) k of
        Some row \<Rightarrow> if pred row then (tb\<lparr>tb_runs := dict_set k (f row) (tb_runs tb)\<rparr>, True) else (tb, False)
      | None \<Rightarrow> (tb, False))"

definition is_status :: "string \<Rightarrow> run_row \<Rightarrow> bool" where
  "is_status s row \<longleftrightarrow> rr_status row = s"

section \<open>Repository\<close>

definition create_run :: "string \<Rightarrow> string \<Rightarrow> string \<Rightarrow> string option \<Rightarrow> int \<Rightarrow> tables \<Rightarrow> tables \<times> bool" where
  "create_run k strategy purpose owner now tb =
     (if dict_get (tb_runs tb) k \<noteq> None then (tb, False)
      else (tb\<lparr>tb_runs := dict_set k \<lparr>rr_status = ''queued'', rr_progress = 0, rr_error = None, rr_cancel = False,
              rr_heartbeat = None, rr_started = None, rr_finished = None, rr_purpose = purpose, rr_owner = owner,
              rr_strategy = strategy, rr_created = now, rr_results = None\<rparr> (tb_runs tb)\<rparr>, True))"

definition delete_run :: "string \<Rightarrow> string option \<Rightarrow> tables \<Rightarrow> tables \<times> bool" where
  "delete_run k owner tb =
     (case dict_get (tb_runs tb) k of
        Some row \<Rightarrow> if for_user owner row then (tb\<lparr>tb_runs := dict_del k (tb_runs tb)\<rparr>, True) else (tb, False)
      | None \<Rightarrow> (tb, False))"

definition delete_unclaimed_run :: "string \<Rightarrow> string option \<Rightarrow> tables \<Rightarrow> tables \<times> bool" where
  "delete_unclaimed_run k owner tb =
     (case dict_get (tb_runs tb) k of
        Some row \<Rightarrow> if is_status ''queued'' row \<and> for_user owner row
                    then (tb\<lparr>tb_runs := dict_del k (tb_runs tb)\<rparr>, True) else (tb, False)
      | None \<Rightarrow> (tb, False))"

definition set_failed :: "string \<Rightarrow> int \<Rightarrow> run_row \<Rightarrow> run_row" where
  "set_failed message now row =
     row\<lparr>rr_status := ''failed'', rr_error := Some message, rr_finished := Some now\<rparr>"

definition fail_unclaimed_run :: "string \<Rightarrow> string \<Rightarrow> string option \<Rightarrow> int \<Rightarrow> tables \<Rightarrow> tables \<times> bool" where
  "fail_unclaimed_run k message owner now =
     update_run k (\<lambda>row. is_status ''queued'' row \<and> for_user owner row)
       (set_failed (take error_message_limit message) now)"

definition request_cancel :: "string \<Rightarrow> string option \<Rightarrow> tables \<Rightarrow> tables \<times> bool" where
  "request_cancel k owner = update_run k (for_user owner) (\<lambda>row. row\<lparr>rr_cancel := True\<rparr>)"

section \<open>Worker\<close>

definition claim_run :: "string \<Rightarrow> int \<Rightarrow> tables \<Rightarrow> tables \<times> bool" where
  "claim_run k now =
     update_run k (is_status ''queued'')
       (\<lambda>row. row\<lparr>rr_status := ''running'', rr_started := Some now, rr_heartbeat := Some now,
                  rr_progress := 0, rr_error := None\<rparr>)"

definition beat :: "string \<Rightarrow> int \<Rightarrow> tables \<Rightarrow> tables \<times> bool" where
  "beat k now = update_run k (\<lambda>_. True) (\<lambda>row. row\<lparr>rr_heartbeat := Some now\<rparr>)"

text \<open>The throttled poll of \<open>_RunHeartbeat\<close>: progress out, cancellation in. \<open>db_ok\<close> says
  whether the statement went through.\<close>

record heartbeat =
  hb_interval :: int
  hb_pending :: int
  hb_written :: int
  hb_cancelled :: bool
  hb_last_poll :: "int option"

definition new_heartbeat :: "int \<Rightarrow> heartbeat" where
  "new_heartbeat interval =
     \<lparr>hb_interval = max interval 0, hb_pending = 0, hb_written = -1, hb_cancelled = False, hb_last_poll = None\<rparr>"

definition poll :: "string \<Rightarrow> int \<Rightarrow> bool \<Rightarrow> heartbeat \<Rightarrow> tables \<Rightarrow> heartbeat \<times> tables" where
  "poll k now db_ok h tb =
     (if hb_cancelled h then (h, tb)
      else if (case hb_last_poll h of None \<Rightarrow> False | Some t \<Rightarrow> now - t < hb_interval h) then (h, tb)
      else let h1 = h\<lparr>hb_last_poll := Some now\<rparr> in
           if \<not> db_ok then (h1, tb)
           else let (h2, tb2) =
                  (if hb_pending h \<noteq> hb_written h
                   then (h1\<lparr>hb_written := hb_pending h\<rparr>,
                         fst (update_run k (\<lambda>_. True) (\<lambda>row. row\<lparr>rr_progress := hb_pending h\<rparr>) tb))
                   else (h1, tb))
                in (case dict_get (tb_runs tb2) k of
                      Some row \<Rightarrow> (if rr_cancel row then h2\<lparr>hb_cancelled := True\<rparr> else h2, tb2)
                    | None \<Rightarrow> (h2, tb2)))"

definition hb_on_progress :: "string \<Rightarrow> int \<Rightarrow> bool \<Rightarrow> int \<Rightarrow> heartbeat \<Rightarrow> tables \<Rightarrow> heartbeat \<times> tables" where
  "hb_on_progress k now db_ok pct h = poll k now db_ok (h\<lparr>hb_pending := max 0 (min 100 pct)\<rparr>)"

definition hb_should_cancel :: "string \<Rightarrow> int \<Rightarrow> bool \<Rightarrow> heartbeat \<Rightarrow> tables \<Rightarrow> (heartbeat \<times> tables) \<times> bool" where
  "hb_should_cancel k now db_ok h tb =
     (let (h', tb') = poll k now db_ok h tb in ((h', tb'), hb_cancelled h'))"

definition no_reason :: string where "no_reason = ''the run failed without a reason''"

definition fail_run :: "string \<Rightarrow> string \<Rightarrow> int \<Rightarrow> tables \<Rightarrow> tables \<times> bool" where
  "fail_run k message now =
     update_run k (\<lambda>_. True)
       (set_failed (take error_message_limit (if message = [] then no_reason else message)) now)"

text \<open>The transaction of \<open>_persist_success\<close>: the results replace any earlier ones, and the
  row is completed.\<close>

definition persist_success :: "string \<Rightarrow> pyval \<Rightarrow> int \<Rightarrow> tables \<Rightarrow> tables \<times> bool" where
  "persist_success k results now =
     update_run k (\<lambda>_. True)
       (\<lambda>row. row\<lparr>rr_status := ''completed'', rr_progress := 100, rr_error := None,
                  rr_finished := Some now, rr_results := Some results\<rparr>)"

definition apply_validation_outcome :: "string \<Rightarrow> string \<Rightarrow> tables \<Rightarrow> tables" where
  "apply_validation_outcome k outcome tb =
     (if outcome \<noteq> ''completed'' \<and> outcome \<noteq> ''failed'' then tb
      else case dict_get (tb_runs tb) k of
             None \<Rightarrow> tb
           | Some row \<Rightarrow>
               if rr_purpose row \<noteq> ''validation'' then tb
               else (case dict_get (tb_strategies tb) (rr_strategy row) of
                       None \<Rightarrow> tb
                     | Some s \<Rightarrow>
                         if sr_kind s \<noteq> ''user'' then tb
                         else tb\<lparr>tb_strategies := dict_set (rr_strategy row)
                                (s\<lparr>sr_status := (if outcome = ''completed'' then ''active'' else ''failed_validation''),
                                   sr_enabled := (outcome = ''completed''), sr_validation_job := Some k\<rparr>)
                                (tb_strategies tb)\<rparr>))"

definition fail_running_run :: "string \<Rightarrow> string \<Rightarrow> int \<Rightarrow> tables \<Rightarrow> tables \<times> bool" where
  "fail_running_run k message now tb =
     (let (tb', hit) = update_run k (is_status ''running'')
            (set_failed (take error_message_limit (if message = [] then no_reason else message)) now) tb
      in (if hit then apply_validation_outcome k ''failed'' tb' else tb', hit))"

section \<open>Boot\<close>

definition stale :: "int \<Rightarrow> run_row \<Rightarrow> bool" where
  "stale cutoff row \<longleftrightarrow> rr_status row = ''running'' \<and>
     (case rr_heartbeat row of None \<Rightarrow> True | Some t \<Rightarrow> t < cutoff)"

definition reconcile_interrupted_runs :: "int \<Rightarrow> int \<Rightarrow> tables \<Rightarrow> tables \<times> nat" where
  "reconcile_interrupted_runs now stale_after tb =
     (let cutoff = now - stale_after;
          interrupted = filter (\<lambda>(k, row). stale cutoff row) (tb_runs tb);
          tb1 = tb\<lparr>tb_runs := map (\<lambda>(k, row). (k, if stale cutoff row then set_failed interrupted_message now row else row))
                              (tb_runs tb)\<rparr>;
          tb2 = foldl (\<lambda>t (k, row). if rr_purpose row = ''validation'' then apply_validation_outcome k ''failed'' t else t)
                  tb1 interrupted
      in (tb2, length interrupted))"

definition orphaned_queued_run_ids :: "nat \<Rightarrow> tables \<Rightarrow> string list" where
  "orphaned_queued_run_ids limit tb =
     take limit (map fst (sort_key (\<lambda>(k, row). rr_created row) (filter (\<lambda>(k, row). is_status ''queued'' row) (tb_runs tb))))"

section \<open>Concurrent sessions\<close>

text \<open>One committed statement or transaction of some session, and whether it found its row.\<close>

datatype table_op =
    TCreate string string string "string option" int
  | TDelete string "string option"
  | TDeleteUnclaimed string "string option"
  | TFailUnclaimed string string "string option" int
  | TRequestCancel string "string option"
  | TClaim string int
  | TBeat string int
  | TPoll string int bool heartbeat
  | TFail string string int
  | TPersist string pyval int
  | TOutcome string string
  | TFailRunning string string int
  | TReconcile int int

fun table_step :: "tables \<Rightarrow> table_op \<Rightarrow> tables \<times> bool" where
  "table_step tb (TCreate k s p owner now) = create_run k s p owner now tb"
| "table_step tb (TDelete k owner) = delete_run k owner tb"
| "table_step tb (TDeleteUnclaimed k owner) = delete_unclaimed_run k owner tb"
| "table_step tb (TFailUnclaimed k msg owner now) = fail_unclaimed_run k msg owner now tb"
| "table_step tb (TRequestCancel k owner) = request_cancel k owner tb"
| "table_step tb (TClaim k now) = claim_run k now tb"
| "table_step tb (TBeat k now) = beat k now tb"
| "table_step tb (TPoll k now ok h) = (snd (poll k now ok h tb), ok)"
| "table_step tb (TFail k msg now) = fail_run k msg now tb"
| "table_step tb (TPersist k res now) = persist_success k res now tb"
| "table_step tb (TOutcome k out) = (apply_validation_outcome k out tb, True)"
| "table_step tb (TFailRunning k msg now) = fail_running_run k msg now tb"
| "table_step tb (TReconcile now st) = (let (tb', n) = reconcile_interrupted_runs now st tb in (tb', 0 < n))"

text \<open>The statements that take a run out of the queue.\<close>

fun takes_from_queue :: "string \<Rightarrow> table_op \<Rightarrow> bool" where
  "takes_from_queue k (TClaim k' _) = (k' = k)"
| "takes_from_queue k (TDeleteUnclaimed k' _) = (k' = k)"
| "takes_from_queue k (TFailUnclaimed k' _ _ _) = (k' = k)"
| "takes_from_queue k _ = False"

text \<open>How many of them succeed on the run over a history.\<close>

fun queue_exits :: "string \<Rightarrow> tables \<Rightarrow> table_op list \<Rightarrow> nat" where
  "queue_exits k tb [] = 0"
| "queue_exits k tb (x # xs) =
     (if takes_from_queue k x \<and> snd (table_step tb x) then 1 else 0) + queue_exits k (fst (table_step tb x)) xs"

end
