(* ===== verification/Run_Table_Claims.thy ===== *)
theory Run_Table_Claims
  imports Run_Table
begin

text \<open>
  What the run table promises: a queued run leaves the queue once, a run that ended stays
  ended under every guarded statement, the boot repair fails exactly the runs whose worker
  is gone, and the heartbeat reports a cancellation that was asked for and no other.
\<close>

section \<open>One statement, one row\<close>

definition row_of :: "string \<Rightarrow> tables \<Rightarrow> run_row option" where
  "row_of k tb = dict_get (tb_runs tb) k"

lemma update_run_row:
  "row_of k' (fst (update_run k p f tb)) =
     (if k' = k then map_option (\<lambda>row. if p row then f row else row) (row_of k tb) else row_of k' tb)"
  by (auto simp: update_run_def row_of_def split: option.splits)

lemma update_run_hit: "snd (update_run k p f tb) \<longleftrightarrow> (\<exists>row. row_of k tb = Some row \<and> p row)"
  by (auto simp: update_run_def row_of_def split: option.splits)

lemma outcome_row [simp]: "row_of k' (apply_validation_outcome k out tb) = row_of k' tb"
  by (auto simp: apply_validation_outcome_def row_of_def split: option.splits)

lemma fail_running_row:
  "row_of k' (fst (fail_running_run k msg now tb)) =
     row_of k' (fst (update_run k (is_status ''running'')
       (set_failed (take error_message_limit (if msg = [] then no_reason else msg)) now) tb))"
  by (simp add: fail_running_run_def split: prod.splits)

lemma delete_run_row:
  "row_of k' (fst (delete_run k owner tb)) =
     (if k' = k \<and> (\<exists>row. row_of k tb = Some row \<and> for_user owner row) then None else row_of k' tb)"
  by (auto simp: delete_run_def row_of_def split: option.splits)

lemma delete_unclaimed_row:
  "row_of k' (fst (delete_unclaimed_run k owner tb)) =
     (if k' = k \<and> (\<exists>row. row_of k tb = Some row \<and> is_status ''queued'' row \<and> for_user owner row)
      then None else row_of k' tb)"
  by (auto simp: delete_unclaimed_run_def row_of_def split: option.splits)

lemma delete_unclaimed_hit:
  "snd (delete_unclaimed_run k owner tb) \<longleftrightarrow>
     (\<exists>row. row_of k tb = Some row \<and> is_status ''queued'' row \<and> for_user owner row)"
  by (auto simp: delete_unclaimed_run_def row_of_def split: option.splits)

lemma create_run_row: "k' \<noteq> k \<Longrightarrow> row_of k' (fst (create_run k s p owner now tb)) = row_of k' tb"
  by (simp add: create_run_def row_of_def)

lemma poll_row:
  "row_of k' (snd (poll k now ok h tb)) = row_of k' tb \<or>
   k' = k \<and> row_of k' (snd (poll k now ok h tb)) =
     map_option (\<lambda>row. row\<lparr>rr_progress := hb_pending h\<rparr>) (row_of k tb)"
  by (auto simp: poll_def Let_def row_of_def update_run_def split: option.splits)

lemma map_of_map_snd: "map_of (map (\<lambda>(k, v). (k, f v)) d) k = map_option f (map_of d k)"
  by (induction d) auto

lemma settle_fold_row:
  "row_of k (foldl (\<lambda>t (k, row). if rr_purpose row = ''validation''
      then apply_validation_outcome k ''failed'' t else t) tb xs) = row_of k tb"
  by (induction xs arbitrary: tb) auto

lemma reconcile_row:
  "row_of k (fst (reconcile_interrupted_runs now st tb)) =
     map_option (\<lambda>row. if stale (now - st) row then set_failed interrupted_message now row else row) (row_of k tb)"
  unfolding reconcile_interrupted_runs_def Let_def fst_conv settle_fold_row
  by (simp add: row_of_def map_of_map_snd)

lemmas row_rules = update_run_row fail_running_row delete_run_row delete_unclaimed_row reconcile_row

section \<open>Leaving the queue\<close>

definition in_queue :: "string \<Rightarrow> tables \<Rightarrow> bool" where
  "in_queue k tb \<longleftrightarrow> (\<exists>row. row_of k tb = Some row \<and> is_status ''queued'' row)"

text \<open>A history in which the id \<open>k\<close> is not handed out a second time.\<close>

fun creates :: "string \<Rightarrow> table_op \<Rightarrow> bool" where
  "creates k (TCreate k' _ _ _ _) = (k' = k)"
| "creates k _ = False"

lemma not_requeued: "\<not> creates k x \<Longrightarrow> in_queue k (fst (table_step tb x)) \<Longrightarrow> in_queue k tb"
  apply (cases x)
  apply (auto simp: in_queue_def is_status_def row_rules create_run_row set_failed_def stale_def
      fail_unclaimed_run_def request_cancel_def claim_run_def beat_def fail_run_def persist_success_def
      split: if_splits prod.splits)
  subgoal for kk now ok h row
    using poll_row [of k kk now ok h tb] by (cases "row_of k tb") auto
  subgoal for now st row
    using reconcile_row [of k now st tb]
    by (cases "row_of k tb") (auto simp: set_failed_def split: if_splits)
  done

lemma exit_empties:
  assumes "takes_from_queue k x" "snd (table_step tb x)"
  shows "in_queue k tb" "\<not> in_queue k (fst (table_step tb x))"
  using assms
  by (cases x; auto simp: in_queue_def is_status_def row_rules set_failed_def delete_unclaimed_hit
      update_run_hit claim_run_def fail_unclaimed_run_def)+

lemma queue_exits_bound:
  "list_all (\<lambda>x. \<not> creates k x) xs \<Longrightarrow> queue_exits k tb xs \<le> (if in_queue k tb then 1 else 0)"
proof (induction xs arbitrary: tb)
  case Nil
  then show ?case by simp
next
  case (Cons x xs)
  let ?t = "fst (table_step tb x)"
  have ih: "queue_exits k ?t xs \<le> (if in_queue k ?t then 1 else 0)"
    using Cons by simp
  have "in_queue k ?t \<Longrightarrow> in_queue k tb"
    by (rule not_requeued) (use Cons.prems in simp_all)
  with ih exit_empties [of k x tb] show ?case
    by (auto split: if_splits)
qed

text \<open>C18: A run leaves the queue at most once. However workers claim, owners delete and the
  dispatcher gives up on a queued run, concurrently and in any order, with any other
  statements in between, at most one of these statements finds it: it is claimed by one
  worker or deleted or failed unclaimed, and no two of them happen.\<close>

theorem queue_left_once:
  assumes "list_all (\<lambda>x. \<not> creates k x) xs"
  shows "queue_exits k tb xs \<le> 1"
  using queue_exits_bound [OF assms, of tb] by (auto split: if_splits)

definition example_tables :: tables where
  "example_tables = fst (create_run ''r'' ''s'' ''validation'' (Some ''ann'') 5
     \<lparr>tb_runs = [], tb_strategies = [(''s'', \<lparr>sr_kind = ''user'', sr_status = ''validating'', sr_enabled = False, sr_validation_job = None\<rparr>)]\<rparr>)"

theorem queue_left_once_witness:
  "queue_exits ''r'' example_tables [TDeleteUnclaimed ''r'' (Some ''bob''), TClaim ''r'' 7, TClaim ''r'' 8,
     TFailUnclaimed ''r'' ''full'' None 9] = 1"
proof -
  have "queue_exits ''r'' example_tables [TDeleteUnclaimed ''r'' (Some ''bob''), TClaim ''r'' 7, TClaim ''r'' 8,
     TFailUnclaimed ''r'' ''full'' None 9] \<ge> 1"
    by (simp add: example_tables_def create_run_def delete_unclaimed_run_def is_status_def for_user_def claim_run_def
        update_run_def)
  moreover have "queue_exits ''r'' example_tables [TDeleteUnclaimed ''r'' (Some ''bob''), TClaim ''r'' 7, TClaim ''r'' 8,
     TFailUnclaimed ''r'' ''full'' None 9] \<le> 1"
    by (rule queue_left_once) simp
  ultimately show ?thesis by simp
qed

section \<open>Ended runs\<close>

text \<open>The statements that do not check the status they overwrite.\<close>

fun overwrites :: "string \<Rightarrow> table_op \<Rightarrow> bool" where
  "overwrites k (TFail k' _ _) = (k' = k)"
| "overwrites k (TPersist k' _ _) = (k' = k)"
| "overwrites k (TDelete k' _) = (k' = k)"
| "overwrites k (TCreate k' _ _ _ _) = (k' = k)"
| "overwrites k _ = False"

definition ended_with :: "string \<Rightarrow> string \<Rightarrow> string option \<Rightarrow> int option \<Rightarrow> pyval option \<Rightarrow> tables \<Rightarrow> bool" where
  "ended_with k s e t r tb \<longleftrightarrow> (\<exists>row. row_of k tb = Some row \<and> rr_status row = s \<and> rr_error row = e \<and>
     rr_finished row = t \<and> rr_results row = r)"

definition step_tables :: "tables \<Rightarrow> table_op \<Rightarrow> tables" where
  "step_tables tb x = fst (table_step tb x)"

lemma poll_outcome:
  "ended_with k s e t r tb \<Longrightarrow> ended_with k s e t r (snd (poll k' now ok h tb))"
  using poll_row [of k k' now ok h tb] by (cases "row_of k tb") (auto simp: ended_with_def)

lemma reconcile_outcome:
  assumes "s \<in> terminal_statuses" "ended_with k s e t r tb"
  shows "ended_with k s e t r (fst (reconcile_interrupted_runs now st tb))"
proof -
  obtain row where row: "row_of k tb = Some row" "rr_status row = s" "rr_error row = e"
    "rr_finished row = t" "rr_results row = r"
    using assms(2) by (auto simp: ended_with_def)
  with assms(1) have "\<not> stale (now - st) row" by (auto simp: stale_def terminal_statuses_def)
  with row show ?thesis by (simp add: ended_with_def reconcile_row)
qed

lemma update_run_outcome:
  assumes "ended_with k s e t r tb"
    and "\<And>row. k' = k \<Longrightarrow> rr_status row = s \<Longrightarrow> p row \<Longrightarrow>
      rr_status (f row) = rr_status row \<and> rr_error (f row) = rr_error row \<and>
      rr_finished (f row) = rr_finished row \<and> rr_results (f row) = rr_results row"
  shows "ended_with k s e t r (fst (update_run k' p f tb))"
proof -
  obtain row where row: "row_of k tb = Some row" "rr_status row = s" "rr_error row = e"
    "rr_finished row = t" "rr_results row = r"
    using assms(1) by (auto simp: ended_with_def)
  show ?thesis
  proof (cases "k' = k")
    case True
    with row have "row_of k (fst (update_run k' p f tb)) = Some (if p row then f row else row)"
      by (simp add: update_run_row)
    with True assms(2) [of row] row show ?thesis by (simp add: ended_with_def)
  qed (simp add: ended_with_def update_run_row row)
qed

lemma ended_step:
  assumes "s \<in> terminal_statuses" "\<not> overwrites k x" "ended_with k s e t r tb"
  shows "ended_with k s e t r (step_tables tb x)"
proof (cases x)
  case (TPoll k' now ok h)
  then show ?thesis using poll_outcome [OF assms(3)] by (simp add: step_tables_def)
next
  case (TReconcile now st)
  then show ?thesis
    using reconcile_outcome [OF assms(1,3), of now st] by (simp add: step_tables_def case_prod_beta Let_def)
next
  case (TFailRunning k' msg now)
  have "ended_with k s e t r (fst (update_run k' (is_status ''running'')
       (set_failed (take error_message_limit (if msg = [] then no_reason else msg)) now) tb))"
    by (rule update_run_outcome [OF assms(3)])
       (use assms(1) in \<open>auto simp: is_status_def terminal_statuses_def\<close>)
  then show ?thesis
    unfolding TFailRunning step_tables_def table_step.simps
    by (simp only: ended_with_def fail_running_row)
next
  case (TCreate k' s' p' o' now)
  with assms show ?thesis
    by (auto simp: step_tables_def ended_with_def create_run_row)
next
  case (TDelete k' o')
  with assms show ?thesis by (auto simp: step_tables_def ended_with_def delete_run_row)
next
  case (TDeleteUnclaimed k' o')
  with assms show ?thesis
    by (auto simp: step_tables_def ended_with_def delete_unclaimed_row is_status_def terminal_statuses_def)
next
  case (TOutcome k' o')
  with assms show ?thesis by (simp add: step_tables_def ended_with_def)
qed (use assms in \<open>auto intro!: update_run_outcome simp: step_tables_def is_status_def terminal_statuses_def
      fail_unclaimed_run_def request_cancel_def claim_run_def beat_def fail_run_def persist_success_def\<close>)

interpretation ended_runs: machine step_tables
  "\<lambda>tb. s \<in> terminal_statuses \<and> ended_with k s e t r tb" "\<lambda>x. \<not> overwrites k x" for k s e t r
  by unfold_locales (simp add: ended_step)

text \<open>C38: A run that has completed or failed keeps its status, its error, its finish time and
  its results through every claim, deletion of unclaimed runs, cancellation request, heartbeat,
  progress poll, validation verdict, report of a dead worker and boot repair, in any order.
  Only the worker's own two verdicts and a real delete are outside the claim.\<close>

theorem ended_runs_stay_ended:
  assumes "s \<in> terminal_statuses" "list_all (\<lambda>x. \<not> overwrites k x) xs" "ended_with k s e t r tb"
  shows "ended_with k s e t r (foldl step_tables tb xs)"
  using ended_runs.run_inv [of s k e t r tb xs] assms by blast

definition ended_tables :: tables where
  "ended_tables = fst (fail_run ''r'' ''boom'' 9 (fst (claim_run ''r'' 7 example_tables)))"

theorem ended_runs_stay_ended_witness:
  "ended_with ''r'' ''failed'' (Some ''boom'') (Some 9) None (foldl step_tables ended_tables
     [TRequestCancel ''r'' None, TClaim ''r'' 10, TFailRunning ''r'' ''dead'' 11, TReconcile 1000 5])"
  by (rule ended_runs_stay_ended)
     (simp_all add: terminal_statuses_def ended_with_def ended_tables_def row_of_def fail_run_def claim_run_def
       update_run_def is_status_def set_failed_def example_tables_def create_run_def error_message_limit_def)

text \<open>The worker's verdicts are not guarded: a worker that was only slow, whose run the boot
  repair has failed, completes it afterwards, and a run that was completed can be failed.\<close>

lemma late_worker_flips_failed:
  "ended_with ''r'' ''completed'' None (Some 1010) (Some VNone) (foldl step_tables example_tables
     [TClaim ''r'' 7, TReconcile 1000 120, TPersist ''r'' VNone 1010]) \<and>
   ended_with ''r'' ''failed'' (Some interrupted_message) (Some 1000) None (foldl step_tables example_tables
     [TClaim ''r'' 7, TReconcile 1000 120])"
  by (simp add: step_tables_def ended_with_def row_of_def example_tables_def create_run_def claim_run_def
      update_run_def is_status_def reconcile_interrupted_runs_def stale_def set_failed_def persist_success_def
      apply_validation_outcome_def Let_def)

section \<open>Boot repair\<close>

definition strategy_of :: "string \<Rightarrow> tables \<Rightarrow> strategy_row option" where
  "strategy_of n tb = dict_get (tb_strategies tb) n"

definition parked :: "string \<Rightarrow> strategy_row \<Rightarrow> strategy_row" where
  "parked k s = s\<lparr>sr_status := ''failed_validation'', sr_enabled := False, sr_validation_job := Some k\<rparr>"

lemma outcome_strategy:
  "strategy_of n (apply_validation_outcome k ''failed'' tb) =
     (if \<exists>row. row_of k tb = Some row \<and> rr_purpose row = ''validation'' \<and> rr_strategy row = n
      then map_option (\<lambda>s. if sr_kind s = ''user'' then parked k s else s) (strategy_of n tb)
      else strategy_of n tb)"
  by (auto simp: apply_validation_outcome_def row_of_def strategy_of_def parked_def split: option.splits)

text \<open>The validation run that parks the strategy last, in the order the rows came back.\<close>

definition validates :: "string \<Rightarrow> string \<times> run_row \<Rightarrow> bool" where
  "validates n = (\<lambda>(k, row). rr_purpose row = ''validation'' \<and> rr_strategy row = n)"

lemma settle_fold_strategy:
  assumes "\<And>k row. (k, row) \<in> set xs \<Longrightarrow>
      \<exists>row'. row_of k tb = Some row' \<and> rr_purpose row' = rr_purpose row \<and> rr_strategy row' = rr_strategy row"
  shows "strategy_of n (foldl (\<lambda>t (k, row). if rr_purpose row = ''validation''
           then apply_validation_outcome k ''failed'' t else t) tb xs) =
     map_option (\<lambda>s. if sr_kind s = ''user'' \<and> list_ex (validates n) xs
                     then parked (fst (last (filter (validates n) xs))) s else s) (strategy_of n tb)"
  using assms
proof (induction xs rule: rev_induct)
  case Nil
  then show ?case by (simp add: option.map_ident)
next
  case (snoc p xs)
  obtain k row where p: "p = (k, row)" by (cases p)
  let ?f = "\<lambda>t (k, row). if rr_purpose row = ''validation'' then apply_validation_outcome k ''failed'' t else t"
  let ?t = "foldl ?f tb xs"
  obtain row' where r: "row_of k ?t = Some row'" "rr_purpose row' = rr_purpose row" "rr_strategy row' = rr_strategy row"
    using snoc.prems [of k row] p by (auto simp: settle_fold_row)
  have ih: "strategy_of n ?t = map_option (\<lambda>s. if sr_kind s = ''user'' \<and> list_ex (validates n) xs
                     then parked (fst (last (filter (validates n) xs))) s else s) (strategy_of n tb)"
    using snoc.IH snoc.prems by simp
  show ?case
  proof (cases "validates n p")
    case True
    then have "strategy_of n (?f ?t p) = map_option (\<lambda>s. if sr_kind s = ''user'' then parked k s else s) (strategy_of n ?t)"
      using p r by (simp add: validates_def outcome_strategy)
    with True p show ?thesis
      unfolding foldl_append ih by (auto simp: option.map_comp parked_def intro!: option.map_cong)
  next
    case False
    then have "strategy_of n (?f ?t p) = strategy_of n ?t"
      using p r by (auto simp: validates_def outcome_strategy)
    with False show ?thesis
      unfolding foldl_append by (simp add: ih cong: if_cong)
  qed
qed

text \<open>The boot repair fails exactly the runs that claim to be running while their worker
  has not beaten since the cutoff, or never has, and no other; it answers their number; and it
  parks exactly the uploaded strategies such a run was validating, and leaves every other
  strategy alone.\<close>

theorem reconcile_exact:
  assumes "distinct (map fst (tb_runs tb))"
  shows "let (tb', n) = reconcile_interrupted_runs now st tb;
             dead = filter (\<lambda>(k, row). stale (now - st) row) (tb_runs tb) in
         n = length dead \<and>
         (\<forall>k. row_of k tb' = map_option (\<lambda>row. if stale (now - st) row
               then set_failed interrupted_message now row else row) (row_of k tb)) \<and>
         (\<forall>u. strategy_of u tb' = map_option (\<lambda>s. if sr_kind s = ''user'' \<and> list_ex (validates u) dead
               then parked (fst (last (filter (validates u) dead))) s else s) (strategy_of u tb))"
proof -
  define dead where "dead = filter (\<lambda>(k, row). stale (now - st) row) (tb_runs tb)"
  let ?tb1 = "tb\<lparr>tb_runs := map (\<lambda>(k, row). (k, if stale (now - st) row
     then set_failed interrupted_message now row else row)) (tb_runs tb)\<rparr>"
  have "\<exists>row'. row_of k ?tb1 = Some row' \<and> rr_purpose row' = rr_purpose row \<and> rr_strategy row' = rr_strategy row"
    if "(k, row) \<in> set dead" for k row
  proof -
    have "dict_get (tb_runs tb) k = Some row"
      using that assms by (auto simp: dead_def)
    then show ?thesis by (simp add: row_of_def map_of_map_snd set_failed_def)
  qed
  then have "strategy_of u (fst (reconcile_interrupted_runs now st tb)) =
     map_option (\<lambda>s. if sr_kind s = ''user'' \<and> list_ex (validates u) dead
               then parked (fst (last (filter (validates u) dead))) s else s) (strategy_of u tb)" for u
    unfolding reconcile_interrupted_runs_def Let_def fst_conv dead_def [symmetric]
    by (subst settle_fold_strategy) (simp_all add: strategy_of_def)
  moreover have "snd (reconcile_interrupted_runs now st tb) = length dead"
    by (simp add: reconcile_interrupted_runs_def Let_def dead_def)
  ultimately show ?thesis
    unfolding Let_def case_prod_beta [of _ "reconcile_interrupted_runs now st tb"] dead_def [symmetric]
    by (simp only: reconcile_row) simp
qed

theorem reconcile_exact_witness:
  "let tb = fst (claim_run ''r'' 7 example_tables); (tb', n) = reconcile_interrupted_runs 1000 120 tb in
     n = 1 \<and> map_option rr_status (row_of ''r'' tb') = Some ''failed'' \<and>
     map_option sr_status (strategy_of ''s'' tb') = Some ''failed_validation''"
proof -
  let ?tb = "fst (claim_run ''r'' 7 example_tables)"
  have "distinct (map fst (tb_runs ?tb))"
    by (simp add: example_tables_def create_run_def claim_run_def update_run_def is_status_def)
  from reconcile_exact [OF this, of 1000 120] show ?thesis
    by (simp add: Let_def case_prod_beta row_of_def strategy_of_def example_tables_def create_run_def claim_run_def
        update_run_def is_status_def stale_def set_failed_def validates_def parked_def)
qed

section \<open>The heartbeat\<close>

text \<open>The life of a worker's heartbeat on the run \<open>k\<close>: its own callbacks, and the statements
  of other sessions in between.\<close>

datatype hb_event = HbProgress int bool int | HbAsk int bool | HbOther table_op

fun hb_step :: "string \<Rightarrow> heartbeat \<times> tables \<Rightarrow> hb_event \<Rightarrow> heartbeat \<times> tables" where
  "hb_step k (h, tb) (HbProgress now ok pct) = hb_on_progress k now ok pct h tb"
| "hb_step k (h, tb) (HbAsk now ok) = fst (hb_should_cancel k now ok h tb)"
| "hb_step k (h, tb) (HbOther x) = (h, step_tables tb x)"

text \<open>No other session hands the id out again or polls for this run.\<close>

fun hb_pre :: "string \<Rightarrow> hb_event \<Rightarrow> bool" where
  "hb_pre k (HbOther (TPoll k' _ _ _)) = (k' \<noteq> k)"
| "hb_pre k (HbOther x) = (\<not> creates k x)"
| "hb_pre k _ = True"

definition progress_ok :: "string \<Rightarrow> bool \<Rightarrow> tables \<Rightarrow> bool" where
  "progress_ok k c tb \<longleftrightarrow> (\<forall>row. row_of k tb = Some row \<longrightarrow>
     0 \<le> rr_progress row \<and> rr_progress row \<le> 100 \<and> (c \<longrightarrow> rr_cancel row))"

definition hb_inv :: "string \<Rightarrow> heartbeat \<times> tables \<Rightarrow> bool" where
  "hb_inv k = (\<lambda>(h, tb). 0 \<le> hb_pending h \<and> hb_pending h \<le> 100 \<and> progress_ok k (hb_cancelled h) tb)"

definition due :: "int \<Rightarrow> heartbeat \<Rightarrow> bool" where
  "due now h \<longleftrightarrow> (case hb_last_poll h of None \<Rightarrow> True | Some t \<Rightarrow> hb_interval h \<le> now - t)"

lemma poll_inv:
  assumes "hb_inv k (h, tb)"
  shows "hb_inv k (poll k now ok h tb)"
  using assms
  by (auto simp: hb_inv_def progress_ok_def poll_def Let_def row_of_def update_run_def split: option.splits)

lemma progress_ok_create:
  "k' \<noteq> k \<Longrightarrow> progress_ok k c tb \<Longrightarrow> progress_ok k c (fst (create_run k' s p owner now tb))"
  by (simp add: progress_ok_def create_run_row)

lemma progress_ok_update:
  assumes "progress_ok k c tb"
    and "\<And>row. k' = k \<Longrightarrow> p row \<Longrightarrow> 0 \<le> rr_progress row \<Longrightarrow> rr_progress row \<le> 100 \<Longrightarrow>
      0 \<le> rr_progress (f row) \<and> rr_progress (f row) \<le> 100 \<and> (rr_cancel row \<longrightarrow> rr_cancel (f row))"
  shows "progress_ok k c (fst (update_run k' p f tb))"
proof (cases "row_of k tb")
  case None
  then have "row_of k (fst (update_run k' p f tb)) = None"
    by (auto simp: update_run_row)
  then show ?thesis by (simp add: progress_ok_def)
next
  case (Some row)
  then have "row_of k (fst (update_run k' p f tb)) = Some (if k' = k \<and> p row then f row else row)"
    by (auto simp: update_run_row)
  with Some assms show ?thesis by (simp add: progress_ok_def)
qed

lemma progress_ok_other:
  assumes "hb_pre k (HbOther x)" "progress_ok k c tb"
  shows "progress_ok k c (step_tables tb x)"
proof (cases x)
  case (TPoll k' now ok h)
  with assms(1) have "row_of k (snd (poll k' now ok h tb)) = row_of k tb"
    using poll_row [of k k' now ok h tb] by auto
  with TPoll assms(2) show ?thesis by (simp add: step_tables_def progress_ok_def)
next
  case (TReconcile now st)
  then have "row_of k (step_tables tb x) = row_of k (fst (reconcile_interrupted_runs now st tb))"
    by (simp add: step_tables_def case_prod_beta Let_def)
  with assms(2) show ?thesis
    by (cases "row_of k tb") (auto simp: progress_ok_def reconcile_row set_failed_def)
next
  case (TFailRunning k' msg now)
  have "progress_ok k c (fst (update_run k' (is_status ''running'')
       (set_failed (take error_message_limit (if msg = [] then no_reason else msg)) now) tb))"
    by (rule progress_ok_update [OF assms(2)]) (simp add: set_failed_def)
  then show ?thesis
    unfolding TFailRunning step_tables_def table_step.simps by (simp only: progress_ok_def fail_running_row)
next
  case (TCreate k' s' p' o' now)
  with assms show ?thesis by (simp add: step_tables_def progress_ok_create)
next
  case (TDelete k' o')
  with assms show ?thesis by (auto simp: step_tables_def progress_ok_def delete_run_row)
next
  case (TDeleteUnclaimed k' o')
  with assms show ?thesis by (auto simp: step_tables_def progress_ok_def delete_unclaimed_row)
next
  case (TOutcome k' o')
  with assms show ?thesis by (simp add: step_tables_def progress_ok_def)
qed (use assms in \<open>auto intro!: progress_ok_update simp: step_tables_def set_failed_def
      fail_unclaimed_run_def request_cancel_def claim_run_def beat_def fail_run_def persist_success_def\<close>)

lemma hb_step_inv:
  assumes "hb_inv k s" "hb_pre k x"
  shows "hb_inv k (hb_step k s x)"
proof -
  obtain h tb where s: "s = (h, tb)" by (cases s)
  show ?thesis
  proof (cases x)
    case (HbProgress now ok pct)
    have "hb_inv k (h\<lparr>hb_pending := max 0 (min 100 pct)\<rparr>, tb)"
      using assms(1) s by (auto simp: hb_inv_def)
    then show ?thesis using poll_inv by (simp add: s HbProgress hb_on_progress_def)
  next
    case (HbAsk now ok)
    then show ?thesis
      using poll_inv [of k h tb now ok] assms(1) s by (simp add: hb_should_cancel_def case_prod_beta)
  next
    case (HbOther y)
    with assms s show ?thesis by (simp add: hb_inv_def progress_ok_other)
  qed
qed

interpretation heartbeat_run: machine "hb_step k" "hb_inv k" "hb_pre k" for k
  by unfold_locales (rule hb_step_inv)

lemma due_poll_sees:
  assumes "row_of k tb = Some row" "rr_cancel row" "due now h"
  shows "snd (hb_should_cancel k now True h tb)"
  using assms
  by (auto simp: hb_should_cancel_def poll_def due_def row_of_def update_run_def Let_def split: option.splits)

lemma not_due_quiet: "\<not> due now h \<Longrightarrow> fst (hb_should_cancel k now ok h tb) = (h, tb)"
  by (auto simp: hb_should_cancel_def poll_def due_def split: option.splits)

text \<open>After any history of progress reports and cancellation questions, mixed with the
  statements of other sessions, the run's progress is a percentage; the heartbeat believes in a
  cancellation only when the row asks for one; a question asked once the poll interval is over,
  with the database answering, reports every requested cancellation; and a question asked
  earlier costs no statement at all.\<close>

theorem heartbeat_faithful:
  assumes "progress_ok k False tb0" "list_all (hb_pre k) es"
  shows "let (h, tb) = foldl (hb_step k) (new_heartbeat interval, tb0) es in
     progress_ok k (hb_cancelled h) tb \<and>
     (\<forall>now row. row_of k tb = Some row \<and> rr_cancel row \<and> due now h \<longrightarrow> snd (hb_should_cancel k now True h tb)) \<and>
     (\<forall>now ok. \<not> due now h \<longrightarrow> fst (hb_should_cancel k now ok h tb) = (h, tb))"
proof -
  have "hb_inv k (new_heartbeat interval, tb0)"
    using assms(1) by (simp add: hb_inv_def new_heartbeat_def)
  from heartbeat_run.run_inv [OF this assms(2)] show ?thesis
    by (simp add: hb_inv_def case_prod_beta Let_def due_poll_sees not_due_quiet)
qed

theorem heartbeat_faithful_witness:
  "let s = foldl (hb_step ''r'') (new_heartbeat 2, fst (claim_run ''r'' 7 example_tables))
       [HbProgress 10 True 140, HbOther (TRequestCancel ''r'' None)] in
     map_option rr_progress (row_of ''r'' (snd s)) = Some 100 \<and> \<not> hb_cancelled (fst s) \<and>
     progress_ok ''r'' (hb_cancelled (fst s)) (snd s) \<and> snd (hb_should_cancel ''r'' 12 True (fst s) (snd s))"
proof -
  let ?tb = "fst (claim_run ''r'' 7 example_tables)"
  let ?es = "[HbProgress 10 True 140, HbOther (TRequestCancel ''r'' None)]"
  have ok: "progress_ok ''r'' False ?tb" "list_all (hb_pre ''r'') ?es"
    by (simp_all add: progress_ok_def row_of_def example_tables_def create_run_def claim_run_def update_run_def
        is_status_def)
  show ?thesis
    using heartbeat_faithful [OF ok, of 2]
    by (simp add: Let_def row_of_def example_tables_def create_run_def claim_run_def update_run_def is_status_def
        hb_on_progress_def poll_def new_heartbeat_def step_tables_def request_cancel_def for_user_def due_def)
qed

end
