(* ===== verification/Trade_Pairing.thy ===== *)
theory Trade_Pairing
  imports Prelude
begin

text \<open>
  \<open>src/services/trade_pairing.py\<close>: the FIFO pairing of one-leg fills into round-trip
  rows. A raw fill is a dictionary of Python values. The ISO-8601 reader \<open>fromiso\<close>, the
  number reader \<open>fparse\<close> and the rules of the market time zone are the standard library's
  and come in as arguments. A date is its day number.
\<close>

section \<open>Data\<close>

definition eps :: real where "eps = 1 / 10 ^ 9"

text \<open>A time zone: its UTC offset at an instant, and at a wall clock reading.\<close>

record tz_rules =
  z_of_utc :: "int \<Rightarrow> int"
  z_of_wall :: "int \<Rightarrow> int"

record row =
  symbol :: string
  side :: string
  entry_date :: int
  exit_date :: "int option"
  entry_price :: pyfloat
  exit_price :: "pyfloat option"
  row_quantity :: pyfloat
  pnl :: pyfloat
  return_pct :: pyfloat
  row_fees :: pyfloat

record trade_row = row +
  seq :: nat

record lot =
  l_direction :: int
  l_quantity :: pyfloat
  l_price :: pyfloat
  l_day :: int
  l_fee :: pyfloat
  l_index :: nat

record nfill =
  n_direction :: int
  n_ticker :: string
  n_quantity :: pyfloat
  n_price :: pyfloat
  n_day :: int
  n_fee :: pyfloat
  n_key :: "int \<times> nat"

record books =
  open_lots :: "(string, lot list) dict"
  closed :: "row list"
  open_index :: nat

section \<open>Normalisation\<close>

type_synonym raw_fill = "(string, pyval) dict"

definition raw_get :: "raw_fill \<Rightarrow> string \<Rightarrow> pyval" where
  "raw_get raw key = dict_or raw key VNone"

text \<open>\<open>_number\<close> turns a TypeError or ValueError of \<open>float\<close> into a ValueError; the
  OverflowError of an integer beyond the floats is not caught.\<close>

definition number :: "(string \<Rightarrow> pyfloat option) \<Rightarrow> raw_fill \<Rightarrow> string \<Rightarrow> py_exn + pyfloat" where
  "number fparse raw key =
     (if raw_get raw key = VNone then Inl ValueError
      else case py_float fparse (raw_get raw key) of
             Inl x \<Rightarrow> Inl (if x = TypeError \<or> x = ValueError then ValueError else x)
           | Inr v \<Rightarrow> Inr v)"

definition ticker_of :: "raw_fill \<Rightarrow> py_exn + string" where
  "ticker_of raw =
     (case raw_get raw ''ticker'' of
        VStr s \<Rightarrow> if s = [] then Inl ValueError else Inr s
      | _ \<Rightarrow> Inl ValueError)"

definition direction_of :: "raw_fill \<Rightarrow> py_exn + int" where
  "direction_of raw =
     (case raw_get raw ''signal_type'' of
        VStr s \<Rightarrow> if upper s = ''BUY'' then Inr 1 else if upper s = ''SELL'' then Inr (-1)
                  else Inl ValueError
      | _ \<Rightarrow> Inl ValueError)"

definition timestamp_of :: "(string \<Rightarrow> datetime option) \<Rightarrow> raw_fill \<Rightarrow> py_exn + datetime" where
  "timestamp_of fromiso raw =
     (case raw_get raw ''timestamp'' of
        VDatetime d \<Rightarrow> Inr d
      | VDate d \<Rightarrow> Inr \<lparr>wall = d * day_us, utc_offset = None\<rparr>
      | VStr s \<Rightarrow> if s = [] then Inl ValueError
                  else (case fromiso s of None \<Rightarrow> Inl ValueError | Some d \<Rightarrow> Inr d)
      | _ \<Rightarrow> Inl ValueError)"

definition comparable :: "datetime \<Rightarrow> int" where
  "comparable d = (case utc_offset d of None \<Rightarrow> wall d | Some off \<Rightarrow> wall d - off)"

text \<open>\<open>astimezone\<close> of an aware moment, \<open>replace(tzinfo=...)\<close> of a naive one.\<close>

definition localize :: "tz_rules \<Rightarrow> datetime \<Rightarrow> datetime" where
  "localize z d =
     (case utc_offset d of
        Some off \<Rightarrow> let u = wall d - off in \<lparr>wall = u + z_of_utc z u, utc_offset = Some (z_of_utc z u)\<rparr>
      | None \<Rightarrow> d\<lparr>utc_offset := Some (z_of_wall z (wall d))\<rparr>)"

text \<open>One iteration of the loop of \<open>_normalise\<close>: None for a skipped fill.\<close>

definition normalise_one ::
  "(string \<Rightarrow> pyfloat option) \<Rightarrow> (string \<Rightarrow> datetime option) \<Rightarrow> tz_rules option
   \<Rightarrow> nat \<Rightarrow> raw_fill \<Rightarrow> py_exn + nfill option" where
  "normalise_one fparse fromiso zone index raw =
     ebind (number fparse raw ''shares'') (\<lambda>q.
       if q \<le> Fin eps then Inr None
       else ebind (timestamp_of fromiso raw) (\<lambda>m0.
         let moment = (case zone of None \<Rightarrow> m0 | Some z \<Rightarrow> localize z m0) in
         ebind (if raw_get raw ''fees'' = VNone then Inr (Fin 0) else number fparse raw ''fees'') (\<lambda>fees.
         ebind (direction_of raw) (\<lambda>d.
         ebind (ticker_of raw) (\<lambda>t.
         ebind (number fparse raw ''fill_price'') (\<lambda>p.
         ebind (py_div fees q) (\<lambda>fee.
           Inr (Some \<lparr>n_direction = d, n_ticker = t, n_quantity = q, n_price = p,
                      n_day = day_of moment, n_fee = fee, n_key = (comparable moment, index)\<rparr>))))))))"

definition normalise ::
  "(string \<Rightarrow> pyfloat option) \<Rightarrow> (string \<Rightarrow> datetime option) \<Rightarrow> tz_rules option
   \<Rightarrow> raw_fill list \<Rightarrow> py_exn + nfill list" where
  "normalise fparse fromiso zone fills =
     ebind (emap (\<lambda>(i, raw). normalise_one fparse fromiso zone i raw) (enumerate 0 fills)) (\<lambda>ns.
       Inr (sort_key n_key (map the (filter (\<lambda>n. n \<noteq> None) ns))))"

section \<open>Pairing\<close>

definition dir_float :: "int \<Rightarrow> pyfloat" where "dir_float d = Fin (real_of_int d)"

definition side_of :: "int \<Rightarrow> string" where
  "side_of d = (if d = 1 then ''long'' else ''short'')"

definition round_trip :: "lot \<Rightarrow> nfill \<Rightarrow> pyfloat \<Rightarrow> row" where
  "round_trip l f q =
     (let p = (n_price f - l_price l) * q * dir_float (l_direction l);
          entry_notional = l_price l * q
      in \<lparr>symbol = n_ticker f, side = side_of (l_direction l), entry_date = l_day l,
          exit_date = Some (n_day f), entry_price = l_price l, exit_price = Some (n_price f),
          row_quantity = q, pnl = p,
          return_pct = (if feq entry_notional 0 then Fin 0 else truediv p entry_notional),
          row_fees = q * (l_fee l + n_fee f)\<rparr>)"

definition open_row :: "string \<times> lot \<Rightarrow> row" where
  "open_row p = (case p of (t, l) \<Rightarrow>
     \<lparr>symbol = t, side = side_of (l_direction l), entry_date = l_day l, exit_date = None,
      entry_price = l_price l, exit_price = None, row_quantity = l_quantity l, pnl = Fin 0,
      return_pct = Fin 0, row_fees = l_quantity l * l_fee l\<rparr>)"

text \<open>The \<open>while\<close> loop over one book. A lot that is matched but not popped leaves nothing
  to match (or a NaN), so the loop ends: the second component of the measure.\<close>

function close_lots :: "nfill \<Rightarrow> lot list \<Rightarrow> pyfloat \<Rightarrow> row list \<times> lot list \<times> pyfloat" where
  "close_lots f [] r = ([], [], r)"
| "close_lots f (l # ls) r =
     (if r > Fin eps \<and> l_direction l \<noteq> n_direction f
      then let matched = py_min r (l_quantity l);
               left = l_quantity l - matched;
               rest = close_lots f (if left \<le> Fin eps then ls else l\<lparr>l_quantity := left\<rparr> # ls) (r - matched)
           in (round_trip l f matched # fst rest, snd rest)
      else ([], l # ls, r))"
  by pat_completeness auto

definition close_rank :: "lot list \<Rightarrow> pyfloat \<Rightarrow> nat" where
  "close_rank ls r =
     (if r > Fin eps then (case ls of [] \<Rightarrow> 0 | l # _ \<Rightarrow> if l_quantity l = NaN then 1 else 2) else 0)"

lemma close_rank_less:
  assumes "r > Fin eps" "\<not> l_quantity l - py_min r (l_quantity l) \<le> Fin eps"
  shows "close_rank (l\<lparr>l_quantity := l_quantity l - py_min r (l_quantity l)\<rparr> # ls) (r - py_min r (l_quantity l))
    < close_rank (l # ls) r"
  using assms
  by (cases r; cases "l_quantity l") (auto simp: close_rank_def py_min_def eps_def minus_pyfloat_def split: if_splits)

termination close_lots
  by (relation "measures [\<lambda>(f, ls, r). length ls, \<lambda>(f, ls, r). close_rank ls r]")
    (auto simp: close_rank_less)

declare close_lots.simps(2) [simp del]

definition lots_of :: "books \<Rightarrow> string \<Rightarrow> lot list" where
  "lots_of s t = dict_or (open_lots s) t []"

definition pair_step :: "books \<Rightarrow> nfill \<Rightarrow> books" where
  "pair_step s f =
     (let t = n_ticker f;
          (rows, ls, r) = close_lots f (lots_of s t) (n_quantity f);
          fresh = \<lparr>l_direction = n_direction f, l_quantity = r, l_price = n_price f, l_day = n_day f,
                   l_fee = n_fee f, l_index = open_index s\<rparr>
      in if r > Fin eps
         then s\<lparr>open_lots := dict_set t (ls @ [fresh]) (open_lots s), closed := closed s @ rows,
                open_index := open_index s + 1\<rparr>
         else s\<lparr>open_lots := dict_set t ls (open_lots s), closed := closed s @ rows\<rparr>)"

definition no_books :: books where
  "no_books = \<lparr>open_lots = [], closed = [], open_index = 0\<rparr>"

definition with_ticker :: "(string, lot list) dict \<Rightarrow> (string \<times> lot) list" where
  "with_ticker d = sort_key (\<lambda>p. l_index (snd p)) (concat (map (\<lambda>(t, ls). map (Pair t) ls) d))"

definition pair_rows :: "nfill list \<Rightarrow> row list" where
  "pair_rows fs = (let s = foldl pair_step no_books fs in closed s @ map open_row (with_ticker (open_lots s)))"

definition pair_fills ::
  "(string \<Rightarrow> pyfloat option) \<Rightarrow> (string \<Rightarrow> datetime option) \<Rightarrow> tz_rules option
   \<Rightarrow> raw_fill list \<Rightarrow> py_exn + trade_row list" where
  "pair_fills fparse fromiso zone fills =
     ebind (normalise fparse fromiso zone fills) (\<lambda>fs.
       Inr (map (\<lambda>(i, r). row.extend r \<lparr>seq = i\<rparr>) (enumerate 0 (pair_rows fs))))"

end
