(* ===== verification/Report.thy ===== *)
theory Report
  imports Trade_Pairing
begin

text \<open>
  The report of a finished run: \<open>src/services/reporting.py\<close> and the row builders of
  \<open>src/workers/run_job.py\<close>. A \<open>Decimal\<close> is its exact value, so \<open>Decimal(str(x))\<close> of a
  finite float is the value the float has here; quantising to six places rounds half to
  even, as the default decimal context does.
\<close>

section \<open>Numeric coercion\<close>

definition money_limit :: real where "money_limit = 10 ^ 14"

definition ratio_limit :: real where "ratio_limit = 10 ^ 10"

text \<open>\<open>_decimal\<close>: what \<open>float\<close> refuses with a \<open>TypeError\<close> or \<open>ValueError\<close> is no number; its
  \<open>OverflowError\<close> is not caught.\<close>

definition to_decimal :: "(string \<Rightarrow> pyfloat option) \<Rightarrow> pyval \<Rightarrow> real \<Rightarrow> py_exn + real option" where
  "to_decimal fparse v limit =
     (case v of VNone \<Rightarrow> Inr None
      | _ \<Rightarrow> (case py_float fparse v of
                Inl OverflowError \<Rightarrow> Inl OverflowError
              | Inl _ \<Rightarrow> Inr None
              | Inr (Fin r) \<Rightarrow> Inr (if \<bar>r\<bar> \<ge> limit then None else Some r)
              | Inr _ \<Rightarrow> Inr None))"

text \<open>The coercions of a value that is already a float.\<close>

definition decimal_float :: "pyfloat \<Rightarrow> real \<Rightarrow> real option" where
  "decimal_float x limit = (case x of Fin r \<Rightarrow> if \<bar>r\<bar> \<ge> limit then None else Some r | _ \<Rightarrow> None)"

definition money :: "pyfloat \<Rightarrow> real option" where "money x = decimal_float x money_limit"

definition ratio :: "pyfloat \<Rightarrow> real option" where "ratio x = decimal_float x ratio_limit"

definition money_opt :: "pyfloat option \<Rightarrow> real option" where
  "money_opt x = (case x of None \<Rightarrow> None | Some y \<Rightarrow> money y)"

definition required :: "real option \<Rightarrow> py_exn + real" where
  "required x = (case x of None \<Rightarrow> Inl ValueError | Some r \<Rightarrow> Inr r)"

definition money_required :: "pyfloat \<Rightarrow> py_exn + real" where "money_required x = required (money x)"

definition ratio_required :: "pyfloat \<Rightarrow> py_exn + real" where "ratio_required x = required (ratio x)"

definition round_half_even :: "real \<Rightarrow> int" where
  "round_half_even x =
     (let f = \<lfloor>x\<rfloor>; r = x - real_of_int f in
      if r < 1 / 2 then f else if r > 1 / 2 then f + 1 else if even f then f else f + 1)"

definition quantize6 :: "real \<Rightarrow> real" where
  "quantize6 x = real_of_int (round_half_even (x * 10 ^ 6)) / 10 ^ 6"

section \<open>The equity curve\<close>

record equity_point =
  ep_date :: int
  ep_equity :: pyfloat
  ep_benchmark :: "pyfloat option"

record equity_row =
  er_seq :: nat
  er_date :: int
  er_equity :: real
  er_benchmark :: "real option"

definition by_day :: "equity_point list \<Rightarrow> (int, equity_point) dict" where
  "by_day curve = foldl (\<lambda>d p. dict_set (ep_date p) p d) [] curve"

definition equity_row_of :: "(int, equity_point) dict \<Rightarrow> nat \<times> int \<Rightarrow> py_exn + equity_row" where
  "equity_row_of d = (\<lambda>(i, day).
     (case dict_get d day of
        None \<Rightarrow> Inl KeyError
      | Some p \<Rightarrow> ebind (money_required (ep_equity p)) (\<lambda>e.
          Inr \<lparr>er_seq = i, er_date = day, er_equity = quantize6 e, er_benchmark = money_opt (ep_benchmark p)\<rparr>)))"

definition equity_rows :: "equity_point list \<Rightarrow> py_exn + equity_row list" where
  "equity_rows curve =
     (let d = by_day curve in emap (equity_row_of d) (enumerate 0 (sort (map fst d))))"

section \<open>Daily statistics\<close>

record daily_stats =
  ds_total_return :: "real option"
  ds_cagr :: "real option"
  ds_sharpe :: "real option"
  ds_sortino :: "real option"
  ds_max_drawdown :: "real option"
  ds_volatility :: "real option"

definition periods_per_year :: real where "periods_per_year = 252"

definition risk_free_rate :: real where "risk_free_rate = 2 / 100"

definition fmean :: "real list \<Rightarrow> real" where "fmean xs = sum_list xs / real (length xs)"

text \<open>\<open>statistics.stdev\<close>, the sample deviation, of at least two values.\<close>

definition stdev :: "real list \<Rightarrow> real" where
  "stdev xs = sqrt ((\<Sum>x\<leftarrow>xs. (x - fmean xs) ^ 2) / real (length xs - 1))"

fun step_returns :: "real list \<Rightarrow> real list" where
  "step_returns (p # c # xs) = (if p \<noteq> 0 then [c / p - 1] else []) @ step_returns (c # xs)"
| "step_returns _ = []"

definition drawdown_step :: "real \<times> real \<Rightarrow> real \<Rightarrow> real \<times> real" where
  "drawdown_step = (\<lambda>(peak, dd) v.
     let p = max peak v in (p, min dd (if p \<noteq> 0 then v / p - 1 else 0)))"

definition max_drawdown :: "real list \<Rightarrow> real" where
  "max_drawdown xs = snd (foldl drawdown_step (hd xs, 0) xs)"

definition cagr :: "real list \<Rightarrow> real option" where
  "cagr xs = (if length xs \<ge> 2 \<and> hd xs > 0 \<and> last xs \<ge> 0
     then Some ((last xs / hd xs) powr (periods_per_year / real (length xs - 1)) - 1) else None)"

definition excess_returns :: "real list \<Rightarrow> real list" where
  "excess_returns rs = map (\<lambda>x. x - risk_free_rate / periods_per_year) rs"

definition sharpe_of :: "real list \<Rightarrow> real option" where
  "sharpe_of rs = (let ex = excess_returns rs; dev = stdev ex in
     if dev \<noteq> 0 then Some (fmean ex / dev * sqrt periods_per_year) else None)"

definition sortino_of :: "real list \<Rightarrow> real option" where
  "sortino_of rs = (let ex = excess_returns rs;
        downside = map (\<lambda>x. x * x) (filter (\<lambda>x. x < 0) ex);
        dev = (if downside \<noteq> [] then sqrt (fmean downside) else 0) in
     if dev \<noteq> 0 then Some (fmean ex / dev * sqrt periods_per_year) else None)"

definition stat_value :: "real option \<Rightarrow> real option" where
  "stat_value v = (case v of None \<Rightarrow> None | Some r \<Rightarrow> if \<bar>r\<bar> < 10 ^ 10 then Some r else None)"

definition daily_metrics :: "pyfloat list \<Rightarrow> pyfloat \<Rightarrow> py_exn + daily_stats" where
  "daily_metrics equity capital =
     (if equity = [] \<or> \<not> list_all isfinite equity then Inl ValueError
      else if \<not> isfinite capital \<or> capital \<le> 0 then Inl ValueError
      else let xs = map realval equity; rs = step_returns xs; enough = length rs \<ge> 2 in
        Inr \<lparr>ds_total_return = stat_value (Some (last xs / realval capital - 1)),
             ds_cagr = stat_value (cagr xs),
             ds_sharpe = stat_value (if enough then sharpe_of rs else None),
             ds_sortino = stat_value (if enough then sortino_of rs else None),
             ds_max_drawdown = stat_value (Some (max_drawdown xs)),
             ds_volatility = stat_value (if enough then Some (stdev rs * sqrt periods_per_year) else None)\<rparr>)"

section \<open>Open positions\<close>

record open_position =
  op_seq :: nat
  op_symbol :: string
  op_side :: string
  op_quantity :: pyfloat
  op_entry :: pyfloat
  op_mark :: "pyfloat option"
  op_unrealized :: "pyfloat option"
  op_value :: "pyfloat option"
  op_fees :: pyfloat

definition usable_mark :: "pyfloat option \<Rightarrow> pyfloat option" where
  "usable_mark m = (case m of None \<Rightarrow> None | Some x \<Rightarrow> if \<not> isfinite x \<or> x \<le> 0 then None else Some x)"

definition side_sign :: "string \<Rightarrow> pyfloat" where
  "side_sign s = (if s = ''short'' then Fin (- 1) else Fin 1)"

definition open_position_of :: "(string, pyfloat) dict \<Rightarrow> trade_row \<Rightarrow> open_position" where
  "open_position_of prices w =
     (let mark = usable_mark (dict_get prices (symbol w)); s = side_sign (side w) in
      \<lparr>op_seq = seq w, op_symbol = symbol w, op_side = side w, op_quantity = row_quantity w, op_entry = entry_price w,
       op_mark = mark,
       op_unrealized = map_option (\<lambda>m. s * (m - entry_price w) * row_quantity w) mark,
       op_value = map_option (\<lambda>m. s * m * row_quantity w) mark,
       op_fees = row_fees w\<rparr>)"

definition open_positions :: "trade_row list \<Rightarrow> (string, pyfloat) dict \<Rightarrow> open_position list" where
  "open_positions trades prices = map (open_position_of prices) (filter (\<lambda>w. exit_date w = None) trades)"

section \<open>Round trips\<close>

record round_trip_stats =
  rt_win_rate :: "pyfloat option"
  rt_profit_factor :: "pyfloat option"
  rt_total_trades :: nat

definition gross_profit :: "trade_row list \<Rightarrow> pyfloat" where
  "gross_profit ts = foldl (+) 0 (map pnl (filter (\<lambda>w. pnl w > 0) ts))"

definition gross_loss :: "trade_row list \<Rightarrow> pyfloat" where
  "gross_loss ts = - foldl (+) 0 (map pnl (filter (\<lambda>w. pnl w < 0) ts))"

definition round_trip_metrics :: "trade_row list \<Rightarrow> py_exn + round_trip_stats" where
  "round_trip_metrics trades =
     (let closed_rows = filter (\<lambda>w. exit_date w \<noteq> None) trades in
      if closed_rows = [] then Inr \<lparr>rt_win_rate = None, rt_profit_factor = None, rt_total_trades = 0\<rparr>
      else ebind (if gross_loss closed_rows > 0
                  then ebind (py_div (gross_profit closed_rows) (gross_loss closed_rows)) (\<lambda>q. Inr (Some q))
                  else Inr None) (\<lambda>pf.
        Inr \<lparr>rt_win_rate = Some (Fin (real (length (filter (\<lambda>w. pnl w > 0) closed_rows)) / real (length closed_rows))),
             rt_profit_factor = pf, rt_total_trades = length closed_rows\<rparr>))"

section \<open>The stored report\<close>

record stored_trade =
  st_seq :: nat
  st_symbol :: string
  st_side :: string
  st_entry_date :: int
  st_exit_date :: "int option"
  st_entry_price :: real
  st_exit_price :: "real option"
  st_quantity :: real
  st_pnl :: real
  st_return_pct :: real
  st_fees :: real

definition stored_trade_of :: "trade_row \<Rightarrow> py_exn + stored_trade" where
  "stored_trade_of w =
     ebind (money_required (entry_price w)) (\<lambda>en.
     ebind (money_required (row_quantity w)) (\<lambda>q.
     ebind (money_required (pnl w)) (\<lambda>p.
     ebind (ratio_required (return_pct w)) (\<lambda>r.
     ebind (money_required (row_fees w)) (\<lambda>f.
       Inr \<lparr>st_seq = seq w, st_symbol = symbol w, st_side = side w, st_entry_date = entry_date w,
            st_exit_date = exit_date w, st_entry_price = en, st_exit_price = money_opt (exit_price w),
            st_quantity = q, st_pnl = p, st_return_pct = r, st_fees = f\<rparr>)))))"

record metrics_row =
  mr_total_return :: "real option"
  mr_cagr :: "real option"
  mr_sharpe :: "real option"
  mr_sortino :: "real option"
  mr_max_drawdown :: "real option"
  mr_volatility :: "real option"
  mr_win_rate :: "real option"
  mr_profit_factor :: "real option"
  mr_total_trades :: nat
  mr_open_positions :: "open_position list"
  mr_open_lots :: nat
  mr_fill_count :: nat
  mr_equity_samples :: nat
  mr_equity_points :: nat

definition ratio_opt :: "real option \<Rightarrow> real option" where
  "ratio_opt v = (case v of None \<Rightarrow> None | Some r \<Rightarrow> ratio (Fin r))"

definition metrics_row_of ::
  "pyfloat \<Rightarrow> equity_point list \<Rightarrow> nat \<Rightarrow> (string, pyfloat) dict \<Rightarrow> trade_row list \<Rightarrow> nat \<Rightarrow> py_exn + metrics_row" where
  "metrics_row_of capital curve fill_count final_prices trades stored_points =
     ebind (round_trip_metrics trades) (\<lambda>rt.
     ebind (equity_rows curve) (\<lambda>daily.
     ebind (daily_metrics (map (\<lambda>r. Fin (er_equity r)) daily) capital) (\<lambda>d.
       Inr \<lparr>mr_total_return = ratio_opt (ds_total_return d), mr_cagr = ratio_opt (ds_cagr d),
            mr_sharpe = ratio_opt (ds_sharpe d), mr_sortino = ratio_opt (ds_sortino d),
            mr_max_drawdown = ratio_opt (ds_max_drawdown d), mr_volatility = ratio_opt (ds_volatility d),
            mr_win_rate = (case rt_win_rate rt of None \<Rightarrow> None | Some x \<Rightarrow> ratio x),
            mr_profit_factor = (case rt_profit_factor rt of None \<Rightarrow> None | Some x \<Rightarrow> ratio x),
            mr_total_trades = rt_total_trades rt,
            mr_open_positions = open_positions trades final_prices,
            mr_open_lots = length trades - rt_total_trades rt,
            mr_fill_count = fill_count, mr_equity_samples = length curve, mr_equity_points = stored_points\<rparr>)))"

record stored_report =
  sp_metrics :: metrics_row
  sp_equity :: "equity_row list"
  sp_trades :: "stored_trade list"
  sp_final_equity :: real

text \<open>The computation of \<open>_persist_success\<close> before its transaction, and of
  \<open>build_report\<close>: the same rows and the same check of the final equity.\<close>

definition final_check :: "pyfloat option \<Rightarrow> real \<Rightarrow> py_exn + unit" where
  "final_check reported final =
     (case reported of None \<Rightarrow> Inr ()
      | Some x \<Rightarrow> ebind (money_required x) (\<lambda>r. guard_e ValueError (\<not> \<bar>r - final\<bar> > 1 / 10 ^ 4)))"

definition persist_rows ::
  "(string \<Rightarrow> pyfloat option) \<Rightarrow> (string \<Rightarrow> datetime option) \<Rightarrow> tz_rules option \<Rightarrow> pyfloat \<Rightarrow> equity_point list \<Rightarrow>
   raw_fill list \<Rightarrow> (string, pyfloat) dict \<Rightarrow> pyfloat option \<Rightarrow> py_exn + stored_report" where
  "persist_rows fparse fromiso zone capital curve fills final_prices reported =
     ebind (pair_fills fparse fromiso zone fills) (\<lambda>trades.
     ebind (emap stored_trade_of trades) (\<lambda>trade_rows.
     ebind (equity_rows curve) (\<lambda>rows.
     ebind (metrics_row_of capital curve (length fills) final_prices trades (length rows)) (\<lambda>m.
     if rows = [] then Inl ValueError
     else ebind (final_check reported (er_equity (last rows))) (\<lambda>_.
       Inr \<lparr>sp_metrics = m, sp_equity = rows, sp_trades = trade_rows, sp_final_equity = er_equity (last rows)\<rparr>)))))"

definition build_report ::
  "(string \<Rightarrow> pyfloat option) \<Rightarrow> (string \<Rightarrow> datetime option) \<Rightarrow> tz_rules option \<Rightarrow> pyfloat \<Rightarrow> equity_point list \<Rightarrow>
   raw_fill list \<Rightarrow> (string, pyfloat) dict \<Rightarrow> pyfloat option \<Rightarrow> py_exn + stored_report" where
  "build_report fparse fromiso zone capital curve fills final_prices reported =
     ebind (pair_fills fparse fromiso zone fills) (\<lambda>trades.
     ebind (equity_rows curve) (\<lambda>rows.
     if rows = [] then Inl ValueError
     else ebind (final_check reported (er_equity (last rows))) (\<lambda>_.
     ebind (metrics_row_of capital curve (length fills) final_prices trades (length rows)) (\<lambda>m.
     ebind (emap stored_trade_of trades) (\<lambda>trade_rows.
       Inr \<lparr>sp_metrics = m, sp_equity = rows, sp_trades = trade_rows, sp_final_equity = er_equity (last rows)\<rparr>)))))"

end
