(* ===== verification/Cost_Model.thy ===== *)
theory Cost_Model
  imports Prelude
begin

text \<open>
  The transaction-cost model of \<open>engine/core/cost_model.py\<close>: fixed, spread and
  square-root-impact components in basis points, and the adverse price they give. The
  interface the executor relies on is the locale \<open>execution_price\<close>: a positive price
  never improves on the side that trades.
\<close>

section \<open>Parameters\<close>

record cost_params =
  fixed_bps :: pyfloat
  spread_bps_default :: pyfloat
  alpha_impact :: pyfloat
  min_impact_bps :: pyfloat
  max_impact_bps :: pyfloat
  enable_impact :: bool
  enable_spread :: bool
  enable_fixed :: bool

definition default_params :: cost_params where
  "default_params =
     \<lparr>fixed_bps = Fin (1/2), spread_bps_default = Fin 5, alpha_impact = Fin 1,
      min_impact_bps = Fin 0, max_impact_bps = Fin 500,
      enable_impact = True, enable_spread = True, enable_fixed = True\<rparr>"

record cost_model =
  cm_params :: cost_params
  spread_overrides :: "(string, pyfloat) dict"

definition for_large_cap :: cost_model where
  "for_large_cap =
     \<lparr>cm_params = default_params\<lparr>fixed_bps := Fin (1/2), spread_bps_default := Fin 4,
                                alpha_impact := Fin 1\<rparr>,
      spread_overrides = []\<rparr>"

definition for_small_cap :: cost_model where
  "for_small_cap =
     \<lparr>cm_params = default_params\<lparr>fixed_bps := Fin 1, spread_bps_default := Fin 40,
                                alpha_impact := Fin (3/2)\<rparr>,
      spread_overrides = []\<rparr>"

definition cost_disabled :: cost_model where
  "cost_disabled =
     \<lparr>cm_params = default_params\<lparr>enable_fixed := False, enable_spread := False,
                                enable_impact := False\<rparr>,
      spread_overrides = []\<rparr>"

section \<open>Components\<close>

fun py_sqrt :: "pyfloat \<Rightarrow> py_exn + pyfloat" where
  "py_sqrt (Fin a) = (if a < 0 then Inl ValueError else Inr (Fin (sqrt a)))"
| "py_sqrt PInf = Inr PInf"
| "py_sqrt NInf = Inl ValueError"
| "py_sqrt NaN = Inr NaN"

definition spread_component_bps :: "cost_model \<Rightarrow> string option \<Rightarrow> pyfloat" where
  "spread_component_bps m ticker =
     (if \<not> enable_spread (cm_params m) then 0
      else case Option.bind ticker (dict_get (spread_overrides m)) of
        Some s \<Rightarrow> Fin (1/2) * s
      | None \<Rightarrow> Fin (1/2) * spread_bps_default (cm_params m))"

definition impact_component_bps ::
  "cost_model \<Rightarrow> pyfloat \<Rightarrow> pyfloat \<Rightarrow> pyfloat \<Rightarrow> py_exn + pyfloat" where
  "impact_component_bps m trade_notional adv_notional sigma_daily =
     (if \<not> enable_impact (cm_params m) then Inr 0
      else if trade_notional \<le> 0 \<or> adv_notional \<le> 0 \<or> sigma_daily \<le> 0 then Inr 0
      else ebind (py_div trade_notional adv_notional) (\<lambda>ratio.
           if ratio \<le> 0 then Inr 0
           else ebind (py_sqrt ratio) (\<lambda>root.
             let raw = alpha_impact (cm_params m) * sigma_daily * root * Fin 10000
             in Inr (py_max (min_impact_bps (cm_params m))
                            (py_min raw (max_impact_bps (cm_params m)))))))"

definition fixed_component_bps :: "cost_model \<Rightarrow> pyfloat" where
  "fixed_component_bps m = (if \<not> enable_fixed (cm_params m) then 0 else fixed_bps (cm_params m))"

definition cost_bps ::
  "cost_model \<Rightarrow> pyfloat \<Rightarrow> pyfloat \<Rightarrow> pyfloat \<Rightarrow> string option \<Rightarrow> py_exn + pyfloat" where
  "cost_bps m trade_notional adv_notional sigma_daily ticker =
     ebind (impact_component_bps m trade_notional adv_notional sigma_daily) (\<lambda>impact.
       Inr (fixed_component_bps m + spread_component_bps m ticker + impact))"

definition cost_fraction ::
  "cost_model \<Rightarrow> pyfloat \<Rightarrow> pyfloat \<Rightarrow> pyfloat \<Rightarrow> string option \<Rightarrow> py_exn + pyfloat" where
  "cost_fraction m trade_notional adv_notional sigma_daily ticker =
     ebind (cost_bps m trade_notional adv_notional sigma_daily ticker)
       (\<lambda>b. Inr (b * Fin (1/10000)))"

definition apply_to_price ::
  "cost_model \<Rightarrow> pyfloat \<Rightarrow> string \<Rightarrow> pyfloat \<Rightarrow> pyfloat \<Rightarrow> pyfloat \<Rightarrow> string option
   \<Rightarrow> py_exn + pyfloat" where
  "apply_to_price m mid_price side trade_notional adv_notional sigma_daily ticker =
     (if mid_price \<le> 0 then Inr mid_price
      else ebind (cost_fraction m trade_notional adv_notional sigma_daily ticker) (\<lambda>frac.
        if upper side = ''BUY'' then Inr (mid_price * (1 + frac))
        else if upper side = ''SELL'' then Inr (mid_price * (1 - frac))
        else Inr mid_price))"

section \<open>The interface: costs are adverse\<close>

text \<open>\<open>ok s\<close> is the state's invariant, \<open>px s price side ticker notional\<close> the price after
  costs.\<close>

locale execution_price =
  fixes ok :: "'s \<Rightarrow> bool"
    and px :: "'s \<Rightarrow> pyfloat \<Rightarrow> string \<Rightarrow> string \<Rightarrow> pyfloat \<Rightarrow> py_exn + pyfloat"
  assumes px_buy: "ok s \<Longrightarrow> 0 < p \<Longrightarrow> \<exists>q. px s (Fin p) ''BUY'' t (Fin n) = Inr (Fin q) \<and> p \<le> q"
    and px_sell: "ok s \<Longrightarrow> 0 < p \<Longrightarrow> \<exists>q. px s (Fin p) ''SELL'' t (Fin n) = Inr (Fin q) \<and> q \<le> p"
begin

lemma px_finite:
  "ok s \<Longrightarrow> 0 < p \<Longrightarrow> side = ''BUY'' \<or> side = ''SELL'' \<Longrightarrow>
    \<exists>q. px s (Fin p) side t (Fin n) = Inr (Fin q)"
  using px_buy px_sell by blast

lemma px_spread:
  assumes "ok s" "0 < p" "px s (Fin p) ''BUY'' t (Fin n) = Inr (Fin b)"
    and "px s (Fin p) ''SELL'' t (Fin n') = Inr (Fin a)"
  shows "a \<le> p \<and> p \<le> b"
  using px_buy [OF assms(1,2), of t n] px_sell [OF assms(1,2), of t n'] assms(3,4) by auto

end

section \<open>Well-formed models\<close>

text \<open>Finite parameters, none negative: what the documented calibrations have.\<close>

fun nonneg :: "pyfloat \<Rightarrow> bool" where
  "nonneg (Fin a) = (0 \<le> a)"
| "nonneg _ = False"

lemma nonnegE: "nonneg x \<Longrightarrow> (\<And>a. x = Fin a \<Longrightarrow> 0 \<le> a \<Longrightarrow> P) \<Longrightarrow> P"
  by (cases x) auto

definition cost_wf :: "cost_model \<Rightarrow> bool" where
  "cost_wf m \<longleftrightarrow>
     nonneg (fixed_bps (cm_params m)) \<and> nonneg (spread_bps_default (cm_params m)) \<and>
     nonneg (alpha_impact (cm_params m)) \<and> nonneg (min_impact_bps (cm_params m)) \<and>
     nonneg (max_impact_bps (cm_params m)) \<and>
     list_all (\<lambda>p. nonneg (snd p)) (spread_overrides m)"

lemma cost_wf_presets [simp]: "cost_wf for_large_cap" "cost_wf for_small_cap" "cost_wf cost_disabled"
  by (simp_all add: cost_wf_def for_large_cap_def for_small_cap_def cost_disabled_def
      default_params_def)

lemma fixed_nonneg: "cost_wf m \<Longrightarrow> \<exists>f\<ge>0. fixed_component_bps m = Fin f"
  by (auto simp: cost_wf_def fixed_component_bps_def zero_Fin elim!: nonnegE)

lemma spread_nonneg: "cost_wf m \<Longrightarrow> \<exists>s\<ge>0. spread_component_bps m t = Fin s"
proof -
  assume wf: "cost_wf m"
  then obtain d where d: "spread_bps_default (cm_params m) = Fin d" "0 \<le> d"
    by (auto simp: cost_wf_def elim!: nonnegE)
  have "\<And>k v. map_of (spread_overrides m) k = Some v \<Longrightarrow> \<exists>a\<ge>0. v = Fin a"
  proof -
    fix k v
    assume "map_of (spread_overrides m) k = Some v"
    then have "(k, v) \<in> set (spread_overrides m)" by (rule map_of_SomeD)
    with wf have "nonneg v" by (auto simp: cost_wf_def list_all_iff)
    then show "\<exists>a\<ge>0. v = Fin a" by (auto elim: nonnegE)
  qed
  then have ov: "\<exists>a\<ge>0. Fin (1/2) * v = Fin a" if "Option.bind t (map_of (spread_overrides m)) = Some v" for v
    using that by (cases t) (fastforce intro: exI [where x = "_ / 2"])+
  from d have "\<exists>a\<ge>0. Fin (1/2) * spread_bps_default (cm_params m) = Fin a"
    by (intro exI [of _ "d / 2"]) simp
  with ov show ?thesis
    by (auto simp: spread_component_bps_def zero_Fin split: option.splits)
qed

lemma impact_bounds:
  assumes "cost_wf m"
  shows "\<exists>i. impact_component_bps m (Fin n) (Fin a) (Fin s) = Inr (Fin i) \<and> 0 \<le> i \<and>
    i \<le> max (realval (min_impact_bps (cm_params m))) (realval (max_impact_bps (cm_params m)))"
proof -
  from assms obtain al lo hi where
    p: "alpha_impact (cm_params m) = Fin al" "min_impact_bps (cm_params m) = Fin lo"
       "max_impact_bps (cm_params m) = Fin hi" "0 \<le> al" "0 \<le> lo" "0 \<le> hi"
    by (auto simp: cost_wf_def elim!: nonnegE)
  show ?thesis
  proof (cases "\<not> enable_impact (cm_params m) \<or> n \<le> 0 \<or> a \<le> 0 \<or> s \<le> 0")
    case True
    with p show ?thesis by (auto simp: impact_component_bps_def zero_Fin)
  next
    case False
    then have "\<not> n / a < 0" "\<not> n / a \<le> 0" by (simp_all add: divide_less_0_iff divide_le_0_iff)
    with False p show ?thesis
      by (auto simp: impact_component_bps_def zero_Fin not_le Let_def max_def min_def
          divide_less_0_iff)
  qed
qed

lemma cost_fraction_nonneg:
  assumes "cost_wf m"
  shows "\<exists>f\<ge>0. cost_fraction m (Fin n) (Fin a) (Fin s) t = Inr (Fin f)"
proof -
  obtain f where f: "fixed_component_bps m = Fin f" "0 \<le> f" using fixed_nonneg [OF assms] by auto
  obtain sp where sp: "spread_component_bps m t = Fin sp" "0 \<le> sp"
    using spread_nonneg [OF assms] by blast
  obtain i where "impact_component_bps m (Fin n) (Fin a) (Fin s) = Inr (Fin i)" "0 \<le> i"
    using impact_bounds [OF assms] by blast
  with f sp have "cost_fraction m (Fin n) (Fin a) (Fin s) t = Inr (Fin ((f + sp + i) / 10000))"
    by (simp add: cost_fraction_def cost_bps_def)
  with f sp \<open>0 \<le> i\<close> show ?thesis by (intro exI [of _ "(f + sp + i) / 10000"]) simp
qed

lemma upper_sides [simp]: "upper ''BUY'' = ''BUY''" "upper ''SELL'' = ''SELL''" "upper ''HOLD'' = ''HOLD''"
  by (simp_all add: upper_def upper_char_def)

lemma apply_to_price_sides:
  assumes "0 < p" "cost_fraction m n a s t = Inr (Fin f)"
  shows "apply_to_price m (Fin p) ''BUY'' n a s t = Inr (Fin (p * (1 + f)))"
    and "apply_to_price m (Fin p) ''SELL'' n a s t = Inr (Fin (p * (1 - f)))"
  using assms by (simp_all add: apply_to_price_def zero_Fin one_Fin)

text \<open>The model on its own, with every ticker given one average daily volume and one
  volatility.\<close>

interpretation cost: execution_price "\<lambda>(m, adv, sigma). cost_wf m"
  "\<lambda>(m, adv, sigma) p side t n. apply_to_price m p side n (Fin adv) (Fin sigma) (Some t)"
proof (unfold_locales; clarsimp)
  fix m adv sigma p t n
  assume "cost_wf m" "0 < (p :: real)"
  then obtain f where f: "0 \<le> f" "cost_fraction m (Fin n) (Fin adv) (Fin sigma) (Some t) = Inr (Fin f)"
    using cost_fraction_nonneg by blast
  from f \<open>0 < p\<close> show "\<exists>q. apply_to_price m (Fin p) ''BUY'' (Fin n) (Fin adv) (Fin sigma) (Some t)
      = Inr (Fin q) \<and> p \<le> q"
    by (simp add: apply_to_price_sides)
  from f \<open>0 < p\<close> show "\<exists>q. apply_to_price m (Fin p) ''SELL'' (Fin n) (Fin adv) (Fin sigma) (Some t)
      = Inr (Fin q) \<and> q \<le> p"
    by (simp add: apply_to_price_sides mult_left_le)
qed

end
