(* ===== verification/Sentiment_Gate.thy ===== *)
theory Sentiment_Gate
  imports Prelude
begin

text \<open>
  The point-in-time news gate of \<open>engine/core/sentiment_gate.py\<close>. Moments are
  microseconds of naive UTC; an article score is a finite number (the news table holds
  no other). The prefix sums and the two binary searches are shown equal to the mean
  over the window (\<open>score_at_mean\<close>), and the interface the executor relies on is the
  locale \<open>entry_gate\<close>.
\<close>

section \<open>Constants and time\<close>

definition sentiment_window :: int where "sentiment_window = 7 * day_us"

definition vendor_timezone_embargo :: int where "vendor_timezone_embargo = 5 * hour_us"

definition threshold_min :: real where "threshold_min = -1"

definition threshold_max :: real where "threshold_max = 0"

definition available_at :: "int \<Rightarrow> int" where
  "available_at published = published + vendor_timezone_embargo"

definition to_naive_utc :: "datetime \<Rightarrow> int" where
  "to_naive_utc m = (case utc_offset m of None \<Rightarrow> wall m | Some off \<Rightarrow> wall m - off)"

section \<open>Binary search\<close>

text \<open>\<open>bisect.bisect_left\<close> of the standard library.\<close>

function bisect_from :: "'a::linorder list \<Rightarrow> 'a \<Rightarrow> nat \<Rightarrow> nat \<Rightarrow> nat" where
  "bisect_from xs x lo hi =
     (if lo < hi then
        let mid = (lo + hi) div 2
        in if xs ! mid < x then bisect_from xs x (mid + 1) hi else bisect_from xs x lo mid
      else lo)"
  by pat_completeness auto
termination
  by (relation "measure (\<lambda>(xs, x, lo, hi). hi - lo)") auto

declare bisect_from.simps [simp del]

definition bisect_left :: "'a::linorder list \<Rightarrow> 'a \<Rightarrow> nat" where
  "bisect_left xs x = bisect_from xs x 0 (length xs)"

text \<open>On a sorted list the search splits it: everything before the result is smaller,
  nothing from it on is.\<close>

lemma bisect_from_split:
  assumes "sorted xs" "lo \<le> hi" "hi \<le> length xs"
    and "\<forall>i<lo. xs ! i < x" "\<forall>i. hi \<le> i \<and> i < length xs \<longrightarrow> \<not> xs ! i < x"
  shows "bisect_from xs x lo hi \<le> length xs \<and>
    (\<forall>i<bisect_from xs x lo hi. xs ! i < x) \<and>
    (\<forall>i. bisect_from xs x lo hi \<le> i \<and> i < length xs \<longrightarrow> \<not> xs ! i < x)"
  using assms
proof (induction xs x lo hi rule: bisect_from.induct)
  case (1 xs x lo hi)
  define mid where "mid = (lo + hi) div 2"
  show ?case
  proof (cases "lo < hi")
    case False
    then have "bisect_from xs x lo hi = lo" by (subst bisect_from.simps) simp
    with "1.prems" False show ?thesis by simp
  next
    case True
    then have mid: "lo \<le> mid" "mid < hi" by (auto simp: mid_def)
    show ?thesis
    proof (cases "xs ! mid < x")
      case less: True
      have eq: "bisect_from xs x lo hi = bisect_from xs x (mid + 1) hi"
        using True less by (subst bisect_from.simps) (simp add: mid_def Let_def)
      have "\<forall>i<mid + 1. xs ! i < x"
      proof (intro allI impI)
        fix i assume "i < mid + 1"
        then have "xs ! i \<le> xs ! mid" using "1.prems"(1,3) mid by (auto intro: sorted_nth_mono)
        with less show "xs ! i < x" by simp
      qed
      then show ?thesis
        unfolding eq using mid "1.prems" less
        by (intro "1.IH"(1) [OF True mid_def]) auto
    next
      case ge: False
      have eq: "bisect_from xs x lo hi = bisect_from xs x lo mid"
        using True ge by (subst bisect_from.simps) (simp add: mid_def Let_def)
      have "\<forall>i. mid \<le> i \<and> i < length xs \<longrightarrow> \<not> xs ! i < x"
      proof (intro allI impI)
        fix i assume "mid \<le> i \<and> i < length xs"
        then have "xs ! mid \<le> xs ! i" using "1.prems"(1) by (auto intro: sorted_nth_mono)
        with ge show "\<not> xs ! i < x" by simp
      qed
      then show ?thesis
        unfolding eq using mid "1.prems" ge
        by (intro "1.IH"(2) [OF True mid_def]) auto
    qed
  qed
qed

lemma bisect_left_split:
  assumes "sorted xs"
  shows "bisect_left xs x \<le> length xs"
    and "i < bisect_left xs x \<Longrightarrow> xs ! i < x"
    and "bisect_left xs x \<le> i \<Longrightarrow> i < length xs \<Longrightarrow> x \<le> xs ! i"
proof -
  have "bisect_from xs x 0 (length xs) \<le> length xs \<and>
    (\<forall>i<bisect_from xs x 0 (length xs). xs ! i < x) \<and>
    (\<forall>i. bisect_from xs x 0 (length xs) \<le> i \<and> i < length xs \<longrightarrow> \<not> xs ! i < x)"
    by (rule bisect_from_split) (use assms in auto)
  then show "bisect_left xs x \<le> length xs"
    and "i < bisect_left xs x \<Longrightarrow> xs ! i < x"
    and "bisect_left xs x \<le> i \<Longrightarrow> i < length xs \<Longrightarrow> x \<le> xs ! i"
    by (simp_all add: bisect_left_def not_less)
qed

lemma bisect_left_take_drop:
  assumes "sorted (map f xs)"
  shows "take (bisect_left (map f xs) x) xs = filter (\<lambda>y. f y < x) xs"
    and "drop (bisect_left (map f xs) x) xs = filter (\<lambda>y. x \<le> f y) xs"
proof -
  let ?k = "bisect_left (map f xs) x"
  have lt: "\<forall>y\<in>set (take ?k xs). f y < x"
    using bisect_left_split(1,2) [OF assms, where x = x]
    by (auto simp: in_set_conv_nth)
  have ge: "\<forall>y\<in>set (drop ?k xs). x \<le> f y"
    using bisect_left_split(3) [OF assms, where x = x] by (auto simp: in_set_conv_nth)
  have "filter (\<lambda>y. f y < x) (take ?k xs @ drop ?k xs) = take ?k xs"
    using lt ge by (auto simp del: append_take_drop_id simp: filter_empty_conv filter_id_conv)
  then show "take ?k xs = filter (\<lambda>y. f y < x) xs" by simp
  have "filter (\<lambda>y. x \<le> f y) (take ?k xs @ drop ?k xs) = drop ?k xs"
    using lt ge by (auto simp del: append_take_drop_id simp: filter_empty_conv filter_id_conv)
  then show "drop ?k xs = filter (\<lambda>y. x \<le> f y) xs" by simp
qed

section \<open>The gate\<close>

record sentiment_gate =
  threshold :: pyfloat
  articles :: "(string, (int \<times> real) list) dict"
  blocked_entry_count :: nat
  gate_times :: "(string, int list) dict"
  gate_prefix :: "(string, real list) dict"

text \<open>\<open>running\<close>: the prefix sums, one more than there are scores.\<close>

definition running_sums :: "real list \<Rightarrow> real list" where
  "running_sums scores = foldl (\<lambda>acc s. acc @ [last acc + s]) [0] scores"

definition index_ticker :: "sentiment_gate \<Rightarrow> string \<times> (int \<times> real) list \<Rightarrow> sentiment_gate" where
  "index_ticker g tr =
     (let ordered = sort (map (\<lambda>(published, score). (available_at published, score)) (snd tr))
      in g\<lparr>gate_times := dict_set (upper (fst tr)) (map fst ordered) (gate_times g),
           gate_prefix := dict_set (upper (fst tr)) (running_sums (map snd ordered)) (gate_prefix g)\<rparr>)"

text \<open>\<open>SentimentGate(threshold, articles)\<close> with its \<open>__post_init__\<close>.\<close>

definition make_gate ::
  "pyfloat \<Rightarrow> (string, (int \<times> real) list) dict \<Rightarrow> py_exn + sentiment_gate" where
  "make_gate th arts =
     ebind (guard_e ValueError (Fin threshold_min \<le> th \<and> th \<le> Fin threshold_max)) (\<lambda>_.
       Inr (foldl index_ticker
              \<lparr>threshold = th, articles = arts, blocked_entry_count = 0,
               gate_times = [], gate_prefix = []\<rparr> arts))"

definition score_at :: "sentiment_gate \<Rightarrow> string \<Rightarrow> datetime \<Rightarrow> real" where
  "score_at g ticker moment =
     (case dict_get (gate_times g) (upper ticker) of
        None \<Rightarrow> 0
      | Some ts \<Rightarrow>
          if ts = [] then 0
          else let now = to_naive_utc moment;
                   end_ix = bisect_left ts now;
                   start_ix = bisect_left ts (now - sentiment_window);
                   count = int end_ix - int start_ix
               in if count \<le> 0 then 0
                  else let prefix = the (dict_get (gate_prefix g) (upper ticker))
                       in (prefix ! end_ix - prefix ! start_ix) / real_of_int count)"

definition blocks_long_entry :: "sentiment_gate \<Rightarrow> string \<Rightarrow> datetime \<Rightarrow> bool" where
  "blocks_long_entry g ticker moment \<longleftrightarrow> Fin (score_at g ticker moment) < threshold g"

definition record_block :: "sentiment_gate \<Rightarrow> sentiment_gate" where
  "record_block g = g\<lparr>blocked_entry_count := blocked_entry_count g + 1\<rparr>"

text \<open>\<open>coverage\<close>: per ticker, in ticker order, the article count and when the first one
  became available (aware UTC; \<open>isoformat\<close> only renders it).\<close>

definition coverage :: "sentiment_gate \<Rightarrow> (string \<times> nat \<times> int option) list" where
  "coverage g =
     map (\<lambda>(t, ts). (t, length ts, if ts = [] then None else Some (hd ts)))
       (sort_key fst (gate_times g))"

section \<open>The prefix sums\<close>

lemma running_sums_snoc:
  "running_sums (xs @ [s]) = running_sums xs @ [last (running_sums xs) + s]"
  by (simp add: running_sums_def)

lemma running_sums_props:
  "length (running_sums xs) = Suc (length xs)"
  "i \<le> length xs \<Longrightarrow> running_sums xs ! i = sum_list (take i xs)"
  "last (running_sums xs) = sum_list xs"
proof -
  have "length (running_sums xs) = Suc (length xs) \<and> last (running_sums xs) = sum_list xs \<and>
    (\<forall>i\<le>length xs. running_sums xs ! i = sum_list (take i xs))"
  proof (induction xs rule: rev_induct)
    case Nil
    then show ?case by (simp add: running_sums_def)
  next
    case (snoc s xs)
    then show ?case by (auto simp: running_sums_snoc nth_append le_Suc_eq)
  qed
  then show "length (running_sums xs) = Suc (length xs)"
    and "i \<le> length xs \<Longrightarrow> running_sums xs ! i = sum_list (take i xs)"
    and "last (running_sums xs) = sum_list xs" by auto
qed

section \<open>What the index holds\<close>

definition ordered_articles :: "(string, (int \<times> real) list) dict \<Rightarrow> string \<Rightarrow> (int \<times> real) list option" where
  "ordered_articles arts u =
     map_option (\<lambda>rows. sort (map (\<lambda>(published, score). (available_at published, score)) rows))
       (map_of (rev (map (\<lambda>(t, rows). (upper t, rows)) arts)) u)"

lemma index_fold:
  "map_of (gate_times (foldl index_ticker g arts)) u =
     (case ordered_articles arts u of None \<Rightarrow> map_of (gate_times g) u | Some o' \<Rightarrow> Some (map fst o')) \<and>
   map_of (gate_prefix (foldl index_ticker g arts)) u =
     (case ordered_articles arts u of None \<Rightarrow> map_of (gate_prefix g) u
      | Some o' \<Rightarrow> Some (running_sums (map snd o')))"
proof (induction arts rule: rev_induct)
  case Nil
  then show ?case by (simp add: ordered_articles_def)
next
  case (snoc p arts)
  then show ?case
    by (cases p) (auto simp: ordered_articles_def index_ticker_def Let_def split: option.splits)
qed

lemma foldl_index_frame:
  "threshold (foldl index_ticker g arts) = threshold g \<and>
   blocked_entry_count (foldl index_ticker g arts) = blocked_entry_count g \<and>
   articles (foldl index_ticker g arts) = articles g"
  by (induction arts arbitrary: g) (simp_all add: index_ticker_def Let_def)

lemma make_gate_Inr:
  "make_gate th arts = Inr g \<Longrightarrow>
     threshold g = th \<and> Fin threshold_min \<le> th \<and> th \<le> Fin threshold_max \<and>
     map_of (gate_times g) u = map_option (map fst) (ordered_articles arts u) \<and>
     map_of (gate_prefix g) u = map_option (\<lambda>o'. running_sums (map snd o')) (ordered_articles arts u)"
  by (auto simp: make_gate_def ebind_Inr_iff index_fold foldl_index_frame split: option.splits)

lemma ordered_articles_sorted: "ordered_articles arts u = Some o' \<Longrightarrow> sorted (map fst o')"
proof -
  assume "ordered_articles arts u = Some o'"
  then have "sorted o'" by (auto simp: ordered_articles_def)
  then show ?thesis
    by (induction o') (auto simp: less_eq_prod_def dest: bspec)
qed

section \<open>The score is the mean over the window\<close>

definition mean :: "real list \<Rightarrow> real" where
  "mean xs = (if xs = [] then 0 else sum_list xs / real (length xs))"

text \<open>The scores that count at \<open>now\<close>: published, with the embargo added, in the seven
  days strictly before it.\<close>

definition window_scores :: "(int \<times> real) list \<Rightarrow> int \<Rightarrow> real list" where
  "window_scores o' now =
     map snd (filter (\<lambda>p. now - sentiment_window \<le> fst p \<and> fst p < now) o')"

lemma window_slice:
  assumes "sorted (map fst o')" "a \<le> (b :: int)"
  shows "bisect_left (map fst o') a \<le> bisect_left (map fst o') b"
    and "drop (bisect_left (map fst o') a) (take (bisect_left (map fst o') b) o')
      = filter (\<lambda>p. a \<le> fst p \<and> fst p < b) o'"
proof -
  let ?i = "bisect_left (map fst o') a" and ?j = "bisect_left (map fst o') b"
  have "length (filter (\<lambda>p. fst p < a) o') \<le> length (filter (\<lambda>p. fst p < b) o')"
    using assms(2) by (induction o') auto
  moreover have "length (take ?i o') = ?i" "length (take ?j o') = ?j"
    using bisect_left_split(1) [OF assms(1), of a] bisect_left_split(1) [OF assms(1), of b] by auto
  ultimately show le: "?i \<le> ?j"
    using bisect_left_take_drop(1) [OF assms(1)] by metis
  have "drop ?i (take ?j o') = take (?j - ?i) (drop ?i o')" by (simp add: drop_take)
  have srt: "sorted (map fst (take ?j o'))" using assms(1) by (simp add: take_map [symmetric] sorted_wrt_take)
  have "filter (\<lambda>p. a \<le> fst p) (take ?i o' @ drop ?i (take ?j o')) = drop ?i (take ?j o')"
  proof -
    have "\<forall>p\<in>set (take ?i o'). \<not> a \<le> fst p"
      unfolding bisect_left_take_drop(1) [OF assms(1)] by auto
    moreover have "\<forall>p\<in>set (drop ?i o'). a \<le> fst p"
      unfolding bisect_left_take_drop(2) [OF assms(1)] by auto
    then have "\<forall>p\<in>set (drop ?i (take ?j o')). a \<le> fst p"
      by (metis drop_take in_set_takeD)
    ultimately show ?thesis by (simp add: filter_empty_conv filter_id_conv)
  qed
  moreover have "take ?i o' @ drop ?i (take ?j o') = take ?j o'"
    using le by (metis append_take_drop_id min.absorb1 take_take)
  ultimately have "drop ?i (take ?j o') = filter (\<lambda>p. a \<le> fst p) (take ?j o')" by simp
  also have "\<dots> = filter (\<lambda>p. a \<le> fst p \<and> fst p < b) o'"
    by (simp add: bisect_left_take_drop(1) [OF assms(1)] conj_commute)
  finally show "drop ?i (take ?j o') = filter (\<lambda>p. a \<le> fst p \<and> fst p < b) o'" .
qed

lemma score_at_mean:
  assumes "make_gate th arts = Inr g"
  shows "score_at g t m =
    (case ordered_articles arts (upper t) of
       None \<Rightarrow> 0 | Some o' \<Rightarrow> mean (window_scores o' (to_naive_utc m)))"
proof (cases "ordered_articles arts (upper t)")
  case None
  with make_gate_Inr [OF assms, of "upper t"] show ?thesis by (simp add: score_at_def)
next
  case (Some o')
  let ?now = "to_naive_utc m" and ?ts = "map fst o'"
  let ?i = "bisect_left ?ts (?now - sentiment_window)" and ?j = "bisect_left ?ts ?now"
  note srt = ordered_articles_sorted [OF Some]
  have tab: "map_of (gate_times g) (upper t) = Some ?ts"
    "map_of (gate_prefix g) (upper t) = Some (running_sums (map snd o'))"
    using make_gate_Inr [OF assms, of "upper t"] Some by auto
  have w: "?now - sentiment_window \<le> ?now" by (simp add: sentiment_window_def)
  have ij: "?i \<le> ?j" and slice: "drop ?i (take ?j o') = filter (\<lambda>p. ?now - sentiment_window \<le> fst p \<and> fst p < ?now) o'"
    by (rule window_slice [OF srt w])+
  have j: "?j \<le> length o'" using bisect_left_split(1) [OF srt, of ?now] by simp
  have ws: "window_scores o' ?now = drop ?i (take ?j (map snd o'))"
    by (simp add: window_scores_def slice [symmetric] drop_map take_map)
  then have len: "length (window_scores o' ?now) = ?j - ?i" using j by simp
  have "running_sums (map snd o') ! ?j - running_sums (map snd o') ! ?i = sum_list (window_scores o' ?now)"
    using ij j by (simp add: running_sums_props(2) sum_list_diff_take ws)
  then show ?thesis
    using Some tab len ij by (cases "o' = []") (auto simp: score_at_def Let_def mean_def window_scores_def
        of_nat_diff split: if_splits)
qed

section \<open>The interface the executor relies on\<close>

locale entry_gate =
  fixes blocks :: "'g \<Rightarrow> string \<Rightarrow> datetime \<Rightarrow> bool"
    and rec :: "'g \<Rightarrow> 'g"
  assumes rec_blocks: "blocks (rec g) t m = blocks g t m"
begin

lemma recs_blocks: "blocks ((rec ^^ n) g) t m = blocks g t m"
  by (induction n) (simp_all add: rec_blocks)

end

lemma score_at_record_block [simp]: "score_at (record_block g) t m = score_at g t m"
  by (simp add: score_at_def record_block_def Let_def split: option.split)

interpretation gate: entry_gate blocks_long_entry record_block
  by unfold_locales (simp add: blocks_long_entry_def, simp add: record_block_def)

end
