(* ===== verification/Executor.thy ===== *)
theory Executor
  imports Cost_Model Sentiment_Gate
begin

text \<open>
  The simulated broker of \<open>engine/core/executor.py\<close>: one portfolio of cash and signed
  positions, the sizing model, the settlement of direct trades and of order-manager
  slices. A handler returns the new state beside its result, so a state change made
  before an exception is not lost. Log messages are not modelled; arguments the code
  accepts and ignores (\<open>cash\<close>, \<open>positions\<close>) are left out.
\<close>

section \<open>State\<close>

record fill =
  f_timestamp :: datetime
  f_portfolio :: string
  f_ticker :: string
  f_signal :: string
  f_confidence :: pyfloat
  f_shares :: pyfloat
  f_price :: pyfloat
  f_fees :: pyfloat
  f_cash_after :: pyfloat
  f_position_size :: pyfloat

record executor =
  tickers :: "string list"
  leverage :: pyfloat
  slippage :: pyfloat
  ex_cost_model :: "cost_model option"
  commission_per_share :: pyfloat
  adv_lookup :: "(string, pyfloat) dict"
  sigma_lookup :: "(string, pyfloat) dict"
  ex_gate :: "sentiment_gate option"
  current_time :: "datetime option"
  cash :: pyfloat
  positions :: "(string, pyfloat) dict"
  latest_prices :: "(string, pyfloat) dict"
  trade_log :: "fill list"

definition init_dict :: "string list \<Rightarrow> (string, pyfloat) dict" where
  "init_dict ts = foldl (\<lambda>d t. dict_set t (Fin 0) d) [] ts"

definition make_executor ::
  "pyfloat \<Rightarrow> string list \<Rightarrow> pyfloat \<Rightarrow> pyfloat \<Rightarrow> cost_model option \<Rightarrow> (string, pyfloat) dict
   \<Rightarrow> (string, pyfloat) dict \<Rightarrow> pyfloat \<Rightarrow> sentiment_gate option \<Rightarrow> py_exn + executor" where
  "make_executor initial_capital ts lev slip cm adv sig fee g =
     ebind (guard_e ValueError (isfinite fee \<and> \<not> fee < 0)) (\<lambda>_.
       Inr \<lparr>tickers = ts, leverage = lev, slippage = slip, ex_cost_model = cm,
            commission_per_share = fee, adv_lookup = adv, sigma_lookup = sig,
            ex_gate = g, current_time = None, cash = initial_capital,
            positions = init_dict ts, latest_prices = init_dict ts, trade_log = []\<rparr>)"

definition position_of :: "executor \<Rightarrow> string \<Rightarrow> pyfloat" where
  "position_of e t = dict_or (positions e) t (Fin 0)"

definition price_of :: "executor \<Rightarrow> string \<Rightarrow> pyfloat" where
  "price_of e t = dict_or (latest_prices e) t (Fin 0)"

section \<open>Prices and valuation\<close>

definition apply_slippage ::
  "executor \<Rightarrow> pyfloat \<Rightarrow> string \<Rightarrow> string option \<Rightarrow> pyfloat \<Rightarrow> py_exn + pyfloat" where
  "apply_slippage e price signal_type ticker trade_notional =
     (case (ex_cost_model e, ticker) of
        (Some m, Some t) \<Rightarrow>
          apply_to_price m price signal_type \<bar>trade_notional\<bar>
            (dict_or (adv_lookup e) t (Fin 0)) (dict_or (sigma_lookup e) t (Fin 0)) (Some t)
      | _ \<Rightarrow>
          if signal_type = ''BUY'' then Inr (price * (1 + slippage e))
          else if signal_type = ''SELL'' then Inr (price * (1 - slippage e))
          else Inr price)"

definition update_price :: "executor \<Rightarrow> string \<Rightarrow> pyfloat \<Rightarrow> executor" where
  "update_price e t p =
     (if dict_get (latest_prices e) t \<noteq> None
      then e\<lparr>latest_prices := dict_set t p (latest_prices e)\<rparr> else e)"

definition held_value :: "executor \<Rightarrow> string \<Rightarrow> py_exn + pyfloat" where
  "held_value e t =
     (case dict_get (positions e) t of
        None \<Rightarrow> Inl KeyError
      | Some q \<Rightarrow> Inr (q * price_of e t))"

definition fsum :: "pyfloat list \<Rightarrow> pyfloat" where
  "fsum xs = foldl (+) (Fin 0) xs"

definition get_port_notional :: "executor \<Rightarrow> py_exn + pyfloat" where
  "get_port_notional e =
     ebind (emap (held_value e) (tickers e)) (\<lambda>vs. Inr (cash e + fsum vs))"

definition get_position_value :: "executor \<Rightarrow> string \<Rightarrow> pyfloat" where
  "get_position_value e t = position_of e t * price_of e t"

record data_feeds =
  cash_equity :: pyfloat
  feed_positions :: "(string \<times> pyfloat) list"
  port_notional_feed :: pyfloat

definition get_data_feeds :: "executor \<Rightarrow> py_exn + data_feeds" where
  "get_data_feeds e =
     ebind (get_port_notional e) (\<lambda>pn.
       Inr \<lparr>cash_equity = cash e, feed_positions = positions e, port_notional_feed = pn\<rparr>)"

definition calculate_buying_power :: "executor \<Rightarrow> pyfloat \<Rightarrow> py_exn + pyfloat" where
  "calculate_buying_power e portfolio_equity =
     ebind (emap (\<lambda>t. ebind (held_value e t) (\<lambda>v. Inr \<bar>v\<bar>)) (tickers e)) (\<lambda>vs.
       Inr (py_max (Fin 0) (portfolio_equity * leverage e - fsum vs)))"

section \<open>Sizing\<close>

record sizing =
  quantity :: int
  desired_notional :: pyfloat
  exec_price :: pyfloat

definition no_trade :: sizing where
  "no_trade = \<lparr>quantity = 0, desired_notional = Fin 0, exec_price = Fin 0\<rparr>"

record trade_inputs =
  in_notional :: pyfloat
  in_price :: pyfloat
  in_confidence :: pyfloat
  in_weight :: pyfloat
  in_target :: "pyfloat option"

text \<open>The \<open>try\<close> block that coerces the arguments: conversions in the code's order, the
  confidence clamped to \<open>[0, 1]\<close>, and the finiteness checks of an explicit target.\<close>

definition coerce_inputs ::
  "(string \<Rightarrow> pyfloat option) \<Rightarrow> pyval \<Rightarrow> pyval \<Rightarrow> pyval \<Rightarrow> pyval \<Rightarrow> pyval \<Rightarrow> py_exn + trade_inputs" where
  "coerce_inputs fparse port_notional arrival_price confidence ticker_weight target_weight =
     ebind (py_float fparse port_notional) (\<lambda>pn.
     ebind (py_float fparse arrival_price) (\<lambda>ap.
     ebind (py_float fparse confidence) (\<lambda>c0.
     ebind (guard_e ValueError (target_weight = VNone \<or> isfinite c0)) (\<lambda>_.
     ebind (py_float fparse ticker_weight) (\<lambda>tw.
       let c = py_max (Fin 0) (py_min (Fin 1) c0);
           inp = \<lparr>in_notional = pn, in_price = ap, in_confidence = c, in_weight = tw, in_target = None\<rparr>
       in if target_weight = VNone then Inr inp
          else ebind (py_float fparse target_weight) (\<lambda>w.
               ebind (guard_e ValueError (isfinite w \<and> isfinite pn \<and> isfinite ap \<and> isfinite c)) (\<lambda>_.
                 Inr (inp\<lparr>in_target := Some w\<rparr>))))))))"

definition apply_sentiment_gate ::
  "executor \<Rightarrow> string \<Rightarrow> pyfloat \<Rightarrow> pyfloat \<Rightarrow> executor \<times> pyfloat" where
  "apply_sentiment_gate e ticker target_notional current_notional =
     (case (ex_gate e, current_time e) of
        (Some g, Some now) \<Rightarrow>
          let ceiling = py_max current_notional (Fin 0)
          in if target_notional \<le> ceiling then (e, target_notional)
             else if \<not> blocks_long_entry g ticker now then (e, target_notional)
             else (e\<lparr>ex_gate := Some (record_block g)\<rparr>, ceiling)
      | _ \<Rightarrow> (e, target_notional))"

definition commission_quantity_limit ::
  "executor \<Rightarrow> pyfloat \<Rightarrow> string \<Rightarrow> pyfloat \<Rightarrow> pyfloat \<Rightarrow> py_exn + pyfloat" where
  "commission_quantity_limit e xp side portfolio_equity current_quantity =
     (let fee = commission_per_share e in
      ebind (calculate_buying_power e portfolio_equity) (\<lambda>bp.
        let closing_quantity = py_max (Fin 0) (if side = ''BUY'' then - current_quantity else current_quantity);
            closing_margin_cost = leverage e * fee - xp
        in ebind (if closing_margin_cost > 0 \<and> closing_quantity * closing_margin_cost > bp
                  then py_div bp closing_margin_cost
                  else py_div (bp + Fin 2 * closing_quantity * xp) (xp + leverage e * fee)) (\<lambda>limit.
           ebind (if side = ''BUY''
                  then ebind (py_div (py_max (Fin 0) (cash e)) (xp + fee)) (\<lambda>r. Inr (py_min limit r))
                  else if fee > xp
                  then ebind (py_div (py_max (Fin 0) (cash e)) (fee - xp)) (\<lambda>r. Inr (py_min limit r))
                  else Inr limit) (\<lambda>limit'.
             Inr (py_max (Fin 0) limit')))))"

text \<open>The explicit-target branch: whole shares toward the target, within the fee limit.\<close>

definition size_to_target ::
  "executor \<Rightarrow> string \<Rightarrow> pyfloat \<Rightarrow> pyfloat \<Rightarrow> pyfloat \<Rightarrow> pyfloat \<Rightarrow> pyfloat \<Rightarrow> pyfloat \<Rightarrow> py_exn + sizing" where
  "size_to_target e side target current_quantity c pn desired xp =
     ebind (py_div target xp) (\<lambda>shares.
     ebind (commission_quantity_limit e xp side pn current_quantity) (\<lambda>limit.
     ebind (py_floor (py_min (\<bar>shares - current_quantity\<bar> * c) limit)) (\<lambda>q.
       Inr \<lparr>quantity = max 0 q, desired_notional = desired, exec_price = xp\<rparr>)))"

text \<open>The legacy branch: notional limited by buying power and, for a buy, by cash.\<close>

definition size_by_notional ::
  "executor \<Rightarrow> string \<Rightarrow> pyfloat \<Rightarrow> pyfloat \<Rightarrow> pyfloat \<Rightarrow> pyfloat \<Rightarrow> py_exn + sizing" where
  "size_by_notional e side bp pn desired xp =
     (let stop = \<lparr>quantity = 0, desired_notional = desired, exec_price = xp\<rparr>;
          tradable = (if desired > 0 then py_min (py_min \<bar>desired\<bar> bp) (cash e)
                      else py_min \<bar>desired\<bar> bp)
      in if tradable < 1 then Inr stop
         else ebind (py_div tradable xp) (\<lambda>r.
              ebind (py_floor r) (\<lambda>q.
              ebind (if \<not> feq (commission_per_share e) 0
                     then ebind (commission_quantity_limit e xp side pn (Fin 0)) (\<lambda>l.
                          ebind (py_floor l) (\<lambda>k. Inr (min q k)))
                     else Inr q) (\<lambda>q'.
                if q' \<le> 0 then Inr stop
                else Inr \<lparr>quantity = q', desired_notional = desired, exec_price = xp\<rparr>))))"

definition size_toward ::
  "executor \<Rightarrow> string \<Rightarrow> pyfloat \<Rightarrow> trade_inputs \<Rightarrow> py_exn + sizing" where
  "size_toward e ticker target i =
     (let cur = position_of e ticker; ap = in_price i; c = in_confidence i; pn = in_notional i;
          side = (if target > cur * ap then ''BUY'' else ''SELL'');
          approx = (case in_target i of
                      None \<Rightarrow> \<bar>pn * in_weight i * c\<bar>
                    | Some _ \<Rightarrow> \<bar>target - cur * ap\<bar> * c)
      in ebind (apply_slippage e ap side (Some ticker) approx) (\<lambda>xp.
         if \<not> isfinite xp \<or> xp \<le> 0
         then Inr \<lparr>quantity = 0, desired_notional = Fin 0, exec_price = xp\<rparr>
         else ebind (calculate_buying_power e pn) (\<lambda>bp.
           let desired = (target - cur * xp) * c;
               stop = \<lparr>quantity = 0, desired_notional = desired, exec_price = xp\<rparr>
           in if (desired > 0) \<noteq> (side = ''BUY'') then Inr stop
              else if \<bar>desired\<bar> < 1 \<and> (case in_target i of None \<Rightarrow> True | Some w \<Rightarrow> \<not> feq w 0)
              then Inr stop
              else case in_target i of
                Some _ \<Rightarrow> size_to_target e side target cur c pn desired xp
              | None \<Rightarrow> size_by_notional e side bp pn desired xp)))"

text \<open>A zero weight means an equal share of the universe.\<close>

definition with_fallback :: "executor \<Rightarrow> trade_inputs \<Rightarrow> trade_inputs" where
  "with_fallback e i =
     (if in_target i = None \<and> feq (in_weight i) 0
      then i\<lparr>in_weight := Fin (1 / real (length (tickers e)))\<rparr> else i)"

text \<open>The signed notional aimed at: a legacy SELL negates it.\<close>

definition signed_target :: "string \<Rightarrow> trade_inputs \<Rightarrow> pyfloat" where
  "signed_target s i =
     (case in_target i of
        None \<Rightarrow> if s = ''SELL'' then in_notional i * in_weight i * Fin (-1) else in_notional i * in_weight i
      | Some w \<Rightarrow> in_notional i * w)"

definition default_trade_size ::
  "(string \<Rightarrow> pyfloat option) \<Rightarrow> executor \<Rightarrow> string \<Rightarrow> string \<Rightarrow> pyval \<Rightarrow> pyval \<Rightarrow> pyval \<Rightarrow> pyval
   \<Rightarrow> pyval \<Rightarrow> executor \<times> (py_exn + sizing)" where
  "default_trade_size fparse e signal_type ticker arrival_price confidence port_notional
       ticker_weight target_weight =
     (case coerce_inputs fparse port_notional arrival_price confidence ticker_weight target_weight of
        Inl x \<Rightarrow> (e, if x = ValueError \<or> x = TypeError then Inr no_trade else Inl x)
      | Inr i \<Rightarrow>
          let s = upper signal_type
          in if s \<notin> {''BUY'', ''SELL'', ''HOLD''} then (e, Inr no_trade)
             else if s = ''HOLD'' \<or> feq (in_confidence i) 0 then (e, Inr no_trade)
             else if in_target i = None \<and> feq (in_weight i) 0 \<and> tickers e = [] then (e, Inr no_trade)
             else
               let i' = with_fallback e i;
                   (e', target) = apply_sentiment_gate e ticker (signed_target s i')
                                    (position_of e ticker * in_price i')
               in (e', size_toward e' ticker target i'))"

section \<open>Settlement\<close>

record trade_result =
  r_quantity :: pyfloat
  r_cash :: pyfloat
  r_position :: pyfloat
  r_fees :: pyfloat
  r_price :: pyfloat

text \<open>Cash and position after a fill of \<open>q\<close> shares at \<open>xp\<close>; both entry points settle
  the same way.\<close>

definition settle :: "executor \<Rightarrow> string \<Rightarrow> bool \<Rightarrow> pyfloat \<Rightarrow> pyfloat \<Rightarrow> executor" where
  "settle e ticker buy q xp =
     (let trade_value = q * xp; fees = q * commission_per_share e; cur = position_of e ticker
      in if buy
         then e\<lparr>cash := cash e - trade_value - fees, positions := dict_set ticker (cur + q) (positions e)\<rparr>
         else e\<lparr>cash := cash e + trade_value - fees, positions := dict_set ticker (cur - q) (positions e)\<rparr>)"

definition execute_trade ::
  "(string \<Rightarrow> pyfloat option) \<Rightarrow> executor \<Rightarrow> string \<Rightarrow> string \<Rightarrow> string \<Rightarrow> pyval \<Rightarrow> pyval \<Rightarrow> pyval
   \<Rightarrow> pyval \<Rightarrow> datetime \<Rightarrow> pyval \<Rightarrow> executor \<times> (py_exn + trade_result option)" where
  "execute_trade fparse e portfolio ticker signal_type confidence arrival_price port_notional
       ticker_weight timestamp target_weight =
     (let (e1, r) = default_trade_size fparse e signal_type ticker arrival_price confidence
                      port_notional ticker_weight target_weight
      in case r of
           Inl x \<Rightarrow> (e1, Inl x)
         | Inr sz \<Rightarrow>
             if quantity sz \<le> 0 then (e1, Inr None)
             else
               let q = Fin (real_of_int (quantity sz)); xp = exec_price sz;
                   buy = (desired_notional sz > 0);
                   e2 = settle e1 ticker buy q xp;
                   fees = q * commission_per_share e1
               in case py_float fparse confidence of
                    Inl x \<Rightarrow> (e2, Inl x)
                  | Inr c \<Rightarrow>
                      (e2\<lparr>trade_log := trade_log e2 @
                          [\<lparr>f_timestamp = timestamp, f_portfolio = portfolio, f_ticker = ticker,
                            f_signal = (if buy then ''BUY'' else ''SELL''),
                            f_confidence = py_max (Fin 0) (py_min (Fin 1) c),
                            f_shares = q, f_price = xp, f_fees = fees,
                            f_cash_after = cash e2, f_position_size = position_of e2 ticker\<rparr>]\<rparr>,
                       Inr (Some \<lparr>r_quantity = q, r_cash = cash e2,
                                  r_position = position_of e2 ticker, r_fees = fees, r_price = xp\<rparr>)))"

record child_order =
  ch_ticker :: string
  ch_signal :: string
  ch_quantity :: pyfloat
  ch_confidence :: pyfloat
  ch_portfolio :: string

datatype child_error = InvalidQuantity | InvalidSignal | NoPrice | InvalidPrice | Unaffordable

datatype child_outcome = ChildFilled pyfloat pyfloat pyfloat | ChildError child_error

text \<open>The fill price and affordability checks of \<open>execute_child_order\<close>, then its
  settlement.\<close>

definition price_child :: "executor \<Rightarrow> child_order \<Rightarrow> py_exn + (child_error + pyfloat)" where
  "price_child e ch =
     (let ticker = ch_ticker ch; side = ch_signal ch; q = ch_quantity ch; price = price_of e ticker in
      if \<not> isfinite q \<or> q \<le> 0 then Inr (Inl InvalidQuantity)
      else if side \<noteq> ''BUY'' \<and> side \<noteq> ''SELL'' then Inr (Inl InvalidSignal)
      else if price \<le> 0 then Inr (Inl NoPrice)
      else ebind (apply_slippage e price side (Some ticker) (q * price)) (\<lambda>xp.
        if \<not> isfinite xp \<or> xp \<le> 0 then Inr (Inl InvalidPrice)
        else if feq (commission_per_share e) 0 then Inr (Inr xp)
        else ebind (get_port_notional e) (\<lambda>pn.
             ebind (commission_quantity_limit e xp side pn (position_of e ticker)) (\<lambda>limit.
               if q > limit then Inr (Inl Unaffordable) else Inr (Inr xp)))))"

definition execute_child_order ::
  "executor \<Rightarrow> child_order \<Rightarrow> datetime \<Rightarrow> executor \<times> (py_exn + child_outcome)" where
  "execute_child_order e ch timestamp =
     (case price_child e ch of
        Inl x \<Rightarrow> (e, Inl x)
      | Inr (Inl err) \<Rightarrow> (e, Inr (ChildError err))
      | Inr (Inr xp) \<Rightarrow>
          let q = ch_quantity ch; fees = q * commission_per_share e;
              e2 = settle e (ch_ticker ch) (ch_signal ch = ''BUY'') q xp
          in (e2\<lparr>trade_log := trade_log e2 @
                 [\<lparr>f_timestamp = timestamp, f_portfolio = ch_portfolio ch, f_ticker = ch_ticker ch,
                   f_signal = ch_signal ch, f_confidence = ch_confidence ch, f_shares = q,
                   f_price = xp, f_fees = fees, f_cash_after = cash e2,
                   f_position_size = position_of e2 (ch_ticker ch)\<rparr>]\<rparr>,
              Inr (ChildFilled q xp fees)))"

end
