(* ===== verification/Executor_Sizing.thy ===== *)
theory Executor_Sizing
  imports Executor
begin

text \<open>
  The executor's invariant and what sizing guarantees under it: no exception, prices
  that are adverse, and a quantity within the target, the cash and the buying power.
\<close>

section \<open>The invariant\<close>

definition all_finite :: "(string, pyfloat) dict \<Rightarrow> bool" where
  "all_finite d \<longleftrightarrow> list_all (\<lambda>p. isfinite (snd p)) d"

definition exec_wf :: "executor \<Rightarrow> bool" where
  "exec_wf e \<longleftrightarrow>
     isfinite (cash e) \<and> nonneg (leverage e) \<and> nonneg (slippage e) \<and>
     nonneg (commission_per_share e) \<and>
     (case ex_cost_model e of None \<Rightarrow> True | Some m \<Rightarrow> cost_wf m) \<and>
     all_finite (adv_lookup e) \<and> all_finite (sigma_lookup e) \<and>
     all_finite (positions e) \<and> all_finite (latest_prices e) \<and>
     list_all (\<lambda>t. dict_get (positions e) t \<noteq> None) (tickers e)"

lemma all_finite_get: "all_finite d \<Longrightarrow> map_of d k = Some v \<Longrightarrow> isfinite v"
  by (force simp: all_finite_def list_all_iff dest: map_of_SomeD)

lemma all_finite_or: "all_finite d \<Longrightarrow> isfinite (dict_or d k (Fin a))"
  by (auto simp: dict_or_def dest: all_finite_get split: option.splits)

lemma all_finite_set: "all_finite d \<Longrightarrow> isfinite v \<Longrightarrow> all_finite (dict_set k v d)"
  by (induction k v d rule: dict_set.induct) (auto simp: all_finite_def)

definition pos_real :: "executor \<Rightarrow> string \<Rightarrow> real" where
  "pos_real e t = realval (position_of e t)"

definition price_real :: "executor \<Rightarrow> string \<Rightarrow> real" where
  "price_real e t = realval (price_of e t)"

abbreviation fee_real :: "executor \<Rightarrow> real" where
  "fee_real e \<equiv> realval (commission_per_share e)"

abbreviation cash_real :: "executor \<Rightarrow> real" where
  "cash_real e \<equiv> realval (cash e)"

lemma wf_reals:
  assumes "exec_wf e"
  shows "cash e = Fin (cash_real e)" "commission_per_share e = Fin (fee_real e)" "0 \<le> fee_real e"
    "leverage e = Fin (realval (leverage e))" "0 \<le> realval (leverage e)"
    "slippage e = Fin (realval (slippage e))" "0 \<le> realval (slippage e)"
    "position_of e t = Fin (pos_real e t)" "price_of e t = Fin (price_real e t)"
proof -
  have "isfinite (position_of e t)" "isfinite (price_of e t)"
    using assms by (auto simp: exec_wf_def position_of_def price_of_def intro: all_finite_or)
  then show "position_of e t = Fin (pos_real e t)" "price_of e t = Fin (price_real e t)"
    by (simp_all add: pos_real_def price_real_def)
qed (use assms in \<open>auto simp: exec_wf_def elim!: nonnegE\<close>)

section \<open>Valuation never raises\<close>

definition equity :: "executor \<Rightarrow> real" where
  "equity e = cash_real e + (\<Sum>t\<leftarrow>tickers e. pos_real e t * price_real e t)"

definition gross_exposure :: "executor \<Rightarrow> real" where
  "gross_exposure e = (\<Sum>t\<leftarrow>tickers e. \<bar>pos_real e t * price_real e t\<bar>)"

lemma fsum_Fin: "fsum (map Fin xs) = Fin (sum_list xs)"
proof -
  have "foldl (+) (Fin a) (map Fin xs) = Fin (a + sum_list xs)" for a
    by (induction xs arbitrary: a) (simp_all add: add.assoc)
  then show ?thesis by (simp add: fsum_def)
qed

lemma held_value_wf:
  assumes "exec_wf e" "t \<in> set (tickers e)"
  shows "held_value e t = Inr (Fin (pos_real e t * price_real e t))"
proof -
  from assms obtain q where q: "map_of (positions e) t = Some q"
    by (auto simp: exec_wf_def list_all_iff)
  then have "position_of e t = q" by (simp add: position_of_def dict_or_def)
  with wf_reals(8,9) [OF assms(1), of t] q show ?thesis by (simp add: held_value_def)
qed

lemma get_port_notional_wf:
  assumes "exec_wf e" shows "get_port_notional e = Inr (Fin (equity e))"
proof -
  have "emap (held_value e) (tickers e)
      = Inr (map (\<lambda>t. Fin (pos_real e t * price_real e t)) (tickers e))"
    by (rule emap_Inr) (rule held_value_wf [OF assms])
  moreover have "fsum (map (\<lambda>t. Fin (pos_real e t * price_real e t)) (tickers e))
      = Fin (\<Sum>t\<leftarrow>tickers e. pos_real e t * price_real e t)"
    using fsum_Fin [of "map (\<lambda>t. pos_real e t * price_real e t) (tickers e)"] by (simp add: comp_def)
  ultimately show ?thesis
    using wf_reals(1) [OF assms] by (cases "cash e") (auto simp: get_port_notional_def equity_def)
qed

definition buying_power :: "executor \<Rightarrow> real \<Rightarrow> real" where
  "buying_power e pn = max 0 (pn * realval (leverage e) - gross_exposure e)"

lemma buying_power_nonneg [simp]: "0 \<le> buying_power e pn"
  by (simp add: buying_power_def)

lemma calculate_buying_power_wf:
  assumes "exec_wf e"
  shows "calculate_buying_power e (Fin pn) = Inr (Fin (buying_power e pn))"
proof -
  have "emap (\<lambda>t. ebind (held_value e t) (\<lambda>v. Inr \<bar>v\<bar>)) (tickers e)
      = Inr (map (\<lambda>t. Fin \<bar>pos_real e t * price_real e t\<bar>) (tickers e))"
    by (rule emap_Inr) (simp add: held_value_wf [OF assms])
  moreover have "fsum (map (\<lambda>t. Fin \<bar>pos_real e t * price_real e t\<bar>) (tickers e))
      = Fin (gross_exposure e)"
    using fsum_Fin [of "map (\<lambda>t. \<bar>pos_real e t * price_real e t\<bar>) (tickers e)"]
    by (simp add: comp_def gross_exposure_def)
  moreover obtain l where "leverage e = Fin l" using wf_reals(4) [OF assms] by blast
  ultimately show ?thesis by (simp add: calculate_buying_power_def buying_power_def)
qed

section \<open>Execution prices are adverse\<close>

lemma apply_slippage_adverse:
  assumes "exec_wf e" "0 < p"
  shows "\<exists>q. apply_slippage e (Fin p) ''BUY'' (Some t) (Fin n) = Inr (Fin q) \<and> p \<le> q"
    and "\<exists>q. apply_slippage e (Fin p) ''SELL'' (Some t) (Fin n) = Inr (Fin q) \<and> q \<le> p"
proof -
  have fin: "isfinite (dict_or (adv_lookup e) t (Fin 0))" "isfinite (dict_or (sigma_lookup e) t (Fin 0))"
    using assms(1) by (auto simp: exec_wf_def intro: all_finite_or)
  then obtain a s where as: "dict_or (adv_lookup e) t (Fin 0) = Fin a"
    "dict_or (sigma_lookup e) t (Fin 0) = Fin s" by (auto simp: isfinite_iff)
  obtain sl where sl: "slippage e = Fin sl" "0 \<le> sl" using wf_reals(6,7) [OF assms(1)] by metis
  show "\<exists>q. apply_slippage e (Fin p) ''BUY'' (Some t) (Fin n) = Inr (Fin q) \<and> p \<le> q"
    using cost.px_buy [of "(the (ex_cost_model e), a, s)" p t "\<bar>n\<bar>"] assms as sl
    by (cases "ex_cost_model e") (auto simp: apply_slippage_def exec_wf_def one_Fin)
  show "\<exists>q. apply_slippage e (Fin p) ''SELL'' (Some t) (Fin n) = Inr (Fin q) \<and> q \<le> p"
    using cost.px_sell [of "(the (ex_cost_model e), a, s)" p t "\<bar>n\<bar>"] assms as sl
    by (cases "ex_cost_model e") (auto simp: apply_slippage_def exec_wf_def one_Fin mult_left_le)
qed

interpretation broker: execution_price exec_wf "\<lambda>e p side t n. apply_slippage e p side (Some t) n"
  by unfold_locales (use apply_slippage_adverse in auto)

lemma apply_slippage_nonpos:
  assumes "exec_wf e" "p \<le> 0" "side = ''BUY'' \<or> side = ''SELL''"
  shows "\<exists>q. apply_slippage e (Fin p) side (Some t) (Fin n) = Inr (Fin q)"
proof (cases "ex_cost_model e")
  case None
  obtain sl where "slippage e = Fin sl" using wf_reals(6) [OF assms(1)] by metis
  with None assms(3) show ?thesis by (auto simp: apply_slippage_def one_Fin)
next
  case (Some m)
  with assms(2) show ?thesis by (auto simp: apply_slippage_def apply_to_price_def zero_Fin)
qed

lemma apply_slippage_finite:
  assumes "exec_wf e" "side = ''BUY'' \<or> side = ''SELL''"
  shows "\<exists>q. apply_slippage e (Fin p) side (Some t) (Fin n) = Inr (Fin q)"
  using broker.px_finite [OF assms(1) _ assms(2), of p t n] apply_slippage_nonpos [OF assms(1) _ assms(2), of p t n]
  by (cases "0 < p") auto

section \<open>The fee limit\<close>

lemma commission_limit_wf:
  assumes wf: "exec_wf e" and xp: "0 < xp"
  shows "\<exists>l\<ge>0. commission_quantity_limit e (Fin xp) side (Fin pn) (Fin cur) = Inr (Fin l) \<and>
    (side = ''BUY'' \<longrightarrow> l * (xp + fee_real e) \<le> max 0 (cash_real e)) \<and>
    (side \<noteq> ''BUY'' \<longrightarrow> fee_real e > xp \<longrightarrow> l * (fee_real e - xp) \<le> max 0 (cash_real e))"
proof -
  obtain f where f: "commission_per_share e = Fin f" "0 \<le> f" using wf_reals(2,3) [OF wf] by metis
  obtain l0 where l0: "leverage e = Fin l0" "0 \<le> l0" using wf_reals(4,5) [OF wf] by metis
  obtain ca where c: "cash e = Fin ca" using wf_reals(1) [OF wf] by metis
  define bp where "bp = buying_power e pn"
  define cl where "cl = max 0 (if side = ''BUY'' then - cur else cur)"
  define lim where "lim = (if l0 * f - xp > 0 \<and> cl * (l0 * f - xp) > bp then bp / (l0 * f - xp)
    else (bp + 2 * cl * xp) / (xp + l0 * f))"
  define lim' where "lim' = (if side = ''BUY'' then min lim (max 0 ca / (xp + f))
    else if f > xp then min lim (max 0 ca / (f - xp)) else lim)"
  have den: "xp + l0 * f \<noteq> 0" "xp + f \<noteq> 0" using xp f(2) l0(2)
    by (smt (verit) mult_nonneg_nonneg)+
  have "commission_quantity_limit e (Fin xp) side (Fin pn) (Fin cur) = Inr (Fin (max 0 lim'))"
    using den by (auto simp: commission_quantity_limit_def f(1) l0(1) c
        calculate_buying_power_wf [OF wf] bp_def [symmetric] Let_def zero_Fin
        cl_def lim'_def lim_def)
  moreover have "max 0 lim' * (xp + f) \<le> max 0 ca" if "side = ''BUY''"
  proof -
    have "max 0 lim' \<le> max 0 ca / (xp + f)"
      using that xp f(2) by (auto simp: lim'_def)
    then show ?thesis using xp f(2) by (simp add: pos_le_divide_eq)
  qed
  moreover have "max 0 lim' * (f - xp) \<le> max 0 ca" if "side \<noteq> ''BUY''" "f > xp"
  proof -
    have "max 0 lim' \<le> max 0 ca / (f - xp)"
      using that by (auto simp: lim'_def)
    then show ?thesis using that by (simp add: pos_le_divide_eq)
  qed
  ultimately show ?thesis by (intro exI [of _ "max 0 lim'"]) (auto simp: f c)
qed

section \<open>What a sizing guarantees\<close>

text \<open>\<open>sized e cur tgt sz\<close>: a positive quantity has a positive price and a side, moves a
  position of \<open>cur\<close> shares toward a notional of \<open>tgt\<close> without passing it, and can be
  paid for, fees included, out of the cash at hand.\<close>

definition sized :: "executor \<Rightarrow> real \<Rightarrow> real \<Rightarrow> sizing \<Rightarrow> bool" where
  "sized e cur tgt sz \<longleftrightarrow>
     0 \<le> quantity sz \<and>
     (0 < quantity sz \<longrightarrow>
        (\<exists>xp d. exec_price sz = Fin xp \<and> desired_notional sz = Fin d \<and> 0 < xp \<and> d \<noteq> 0 \<and>
           (d > 0 \<longleftrightarrow> tgt > cur * xp) \<and>
           real_of_int (quantity sz) * xp \<le> \<bar>tgt - cur * xp\<bar> \<and>
           (d > 0 \<longrightarrow> real_of_int (quantity sz) * (xp + fee_real e) \<le> max 0 (cash_real e)) \<and>
           (d < 0 \<longrightarrow> fee_real e > xp \<longrightarrow>
              real_of_int (quantity sz) * (fee_real e - xp) \<le> max 0 (cash_real e))))"

lemma sized_stop [simp]: "quantity sz = 0 \<Longrightarrow> sized e cur tgt sz"
  by (simp add: sized_def)

lemma floor_min_le: "real_of_int \<lfloor>min a b\<rfloor> \<le> a" "real_of_int \<lfloor>min a b\<rfloor> \<le> b"
  by (meson le_floor_iff min.cobounded1 min.cobounded2 of_int_floor_le order_trans)+

lemma size_to_target_sized:
  assumes wf: "exec_wf e" and xp: "0 < xp" and c: "0 < c" "c \<le> 1"
    and side: "(side = ''BUY'') = ((tgt - cur * xp) * c > 0)"
  shows "\<exists>sz. size_to_target e side (Fin tgt) (Fin cur) (Fin c) (Fin pn) (Fin ((tgt - cur * xp) * c))
      (Fin xp) = Inr sz \<and> sized e cur tgt sz"
proof -
  obtain l where l: "commission_quantity_limit e (Fin xp) side (Fin pn) (Fin cur) = Inr (Fin l)" "0 \<le> l"
    "side = ''BUY'' \<longrightarrow> l * (xp + fee_real e) \<le> max 0 (cash_real e)"
    "side \<noteq> ''BUY'' \<longrightarrow> fee_real e > xp \<longrightarrow> l * (fee_real e - xp) \<le> max 0 (cash_real e)"
    using commission_limit_wf [OF wf xp] by blast
  define q where "q = \<lfloor>min (\<bar>tgt / xp - cur\<bar> * c) l\<rfloor>"
  have eq: "size_to_target e side (Fin tgt) (Fin cur) (Fin c) (Fin pn) (Fin ((tgt - cur * xp) * c)) (Fin xp)
      = Inr \<lparr>quantity = max 0 q, desired_notional = Fin ((tgt - cur * xp) * c), exec_price = Fin xp\<rparr>"
    using xp by (simp add: size_to_target_def l(1) q_def)
  have q: "real_of_int q \<le> \<bar>tgt / xp - cur\<bar> * c" "real_of_int q \<le> l"
    unfolding q_def by (rule floor_min_le)+
  have fee: "0 \<le> fee_real e" using wf_reals(3) [OF wf] .
  have "sized e cur tgt \<lparr>quantity = max 0 q, desired_notional = Fin ((tgt - cur * xp) * c), exec_price = Fin xp\<rparr>"
  proof (cases "0 < q")
    case False
    then show ?thesis by simp
  next
    case True
    then have "0 < \<bar>tgt / xp - cur\<bar> * c" using q(1) by linarith
    then have ne: "tgt - cur * xp \<noteq> 0" using xp by (auto simp: field_simps)
    have "real_of_int q \<le> \<bar>tgt / xp - cur\<bar>"
      using q(1) c mult_left_le [of c "\<bar>tgt / xp - cur\<bar>"] by linarith
    then have "real_of_int q * xp \<le> \<bar>tgt / xp - cur\<bar> * xp" using xp by simp
    also have "\<dots> = \<bar>(tgt / xp - cur) * xp\<bar>" using xp by (simp add: abs_mult)
    also have "\<dots> = \<bar>tgt - cur * xp\<bar>" using xp by (simp add: left_diff_distrib)
    finally have qx: "real_of_int q * xp \<le> \<bar>tgt - cur * xp\<bar>" .
    have b: "real_of_int q * (xp + fee_real e) \<le> max 0 (cash_real e)" if "side = ''BUY''"
      using l(3) that mult_right_mono [OF q(2), of "xp + fee_real e"] xp fee by linarith
    have s: "real_of_int q * (fee_real e - xp) \<le> max 0 (cash_real e)" if "side \<noteq> ''BUY''" "fee_real e > xp"
      using l(4) that mult_right_mono [OF q(2), of "fee_real e - xp"] by linarith
    from ne c True qx b s side xp show ?thesis
      by (simp add: sized_def zero_less_mult_iff mult_less_0_iff max_def)
  qed
  with eq show ?thesis by blast
qed

lemma size_by_notional_sized:
  assumes wf: "exec_wf e" and xp: "0 < xp" and c: "0 < c" "c \<le> 1"
    and side: "(side = ''BUY'') = ((tgt - cur * xp) * c > 0)"
  shows "\<exists>sz. size_by_notional e side (Fin (buying_power e pn)) (Fin pn) (Fin ((tgt - cur * xp) * c))
      (Fin xp) = Inr sz \<and> sized e cur tgt sz \<and>
      real_of_int (quantity sz) * xp \<le> buying_power e pn"
proof -
  define d where "d = (tgt - cur * xp) * c"
  define tr where "tr = (if d > 0 then min (min \<bar>d\<bar> (buying_power e pn)) (cash_real e)
    else min \<bar>d\<bar> (buying_power e pn))"
  obtain ca where ca: "cash e = Fin ca" using wf_reals(1) [OF wf] by metis
  obtain f where f: "commission_per_share e = Fin f" "0 \<le> f" using wf_reals(2,3) [OF wf] by metis
  obtain l where l: "commission_quantity_limit e (Fin xp) side (Fin pn) (Fin 0) = Inr (Fin l)" "0 \<le> l"
    "side = ''BUY'' \<longrightarrow> l * (xp + f) \<le> max 0 ca"
    "side \<noteq> ''BUY'' \<longrightarrow> f > xp \<longrightarrow> l * (f - xp) \<le> max 0 ca"
    using commission_limit_wf [OF wf xp, of side pn 0] by (auto simp: f ca)
  define q where "q = (if f \<noteq> 0 then min \<lfloor>tr / xp\<rfloor> \<lfloor>l\<rfloor> else \<lfloor>tr / xp\<rfloor>)"
  define sz where "sz = (if tr < 1 \<or> q \<le> 0 then \<lparr>quantity = 0, desired_notional = Fin d, exec_price = Fin xp\<rparr>
    else \<lparr>quantity = q, desired_notional = Fin d, exec_price = Fin xp\<rparr>)"
  have eq: "size_by_notional e side (Fin (buying_power e pn)) (Fin pn) (Fin d) (Fin xp) = Inr sz"
    using xp by (auto simp: size_by_notional_def sz_def q_def l(1) f ca tr_def Let_def zero_Fin one_Fin)
  show ?thesis
  proof (cases "tr < 1 \<or> q \<le> 0")
    case True
    with eq show ?thesis by (simp add: sz_def d_def)
  next
    case False
    then have sz: "quantity sz = q" "exec_price sz = Fin xp" "desired_notional sz = Fin d" "0 < q" "1 \<le> tr"
      by (simp_all add: sz_def)
    have "q \<le> \<lfloor>tr / xp\<rfloor>" by (simp add: q_def)
    then have "real_of_int q \<le> tr / xp" by (simp add: le_floor_iff)
    then have qt: "real_of_int q * xp \<le> tr" using xp by (simp add: pos_le_divide_eq)
    have ql: "real_of_int q \<le> l" if "f \<noteq> 0"
    proof -
      have "q \<le> \<lfloor>l\<rfloor>" using that by (simp add: q_def)
      then show ?thesis by (simp add: le_floor_iff)
    qed
    have "tr \<le> \<bar>d\<bar>" "tr \<le> buying_power e pn" "d > 0 \<Longrightarrow> tr \<le> ca" by (auto simp: tr_def ca)
    note tr = this
    have "\<bar>d\<bar> \<le> \<bar>tgt - cur * xp\<bar>" using c by (simp add: d_def abs_mult mult_left_le)
    then have A: "real_of_int q * xp \<le> \<bar>tgt - cur * xp\<bar>" using qt tr(1) by linarith
    have d: "d \<noteq> 0" using sz(5) tr(1) by auto
    have B: "real_of_int q * (xp + f) \<le> max 0 ca" if "d > 0"
    proof (cases "f = 0")
      case True
      with qt tr(3) [OF that] show ?thesis by simp
    next
      case False
      have "real_of_int q * (xp + f) \<le> l * (xp + f)"
        using ql [OF False] xp f(2) by (intro mult_right_mono) auto
      with l(3) side that d_def show ?thesis by auto
    qed
    have C: "real_of_int q * (f - xp) \<le> max 0 ca" if "d < 0" "f > xp"
    proof -
      have "real_of_int q * (f - xp) \<le> l * (f - xp)"
        using ql xp that(2) by (intro mult_right_mono) auto
      moreover have "side \<noteq> ''BUY''" using side that(1) by (simp add: d_def)
      ultimately show ?thesis using l(4) that(2) by linarith
    qed
    have D: "(d > 0) = (tgt > cur * xp)" using c by (simp add: d_def zero_less_mult_iff)
    have "sized e cur tgt sz"
      using A B C D d sz xp by (simp add: sized_def f ca)
    moreover have "real_of_int (quantity sz) * xp \<le> buying_power e pn" using qt tr(2) sz(1) by simp
    ultimately show ?thesis using eq by (auto simp: d_def)
  qed
qed

text \<open>The inputs a sizing runs on: finite numbers, the confidence in \<open>[0, 1]\<close>.\<close>

definition inputs_ok :: "trade_inputs \<Rightarrow> bool" where
  "inputs_ok i \<longleftrightarrow> isfinite (in_notional i) \<and> isfinite (in_price i) \<and> isfinite (in_weight i) \<and>
     (\<exists>c. in_confidence i = Fin c \<and> 0 < c \<and> c \<le> 1) \<and>
     (case in_target i of None \<Rightarrow> True | Some w \<Rightarrow> isfinite w)"

lemma size_toward_sized:
  assumes wf: "exec_wf e" and ok: "inputs_ok i"
  shows "\<exists>sz. size_toward e t (Fin tgt) i = Inr sz \<and> sized e (pos_real e t) tgt sz \<and>
    (0 < quantity sz \<longrightarrow> (\<exists>d. desired_notional sz = Fin d \<and>
       (d > 0 \<longleftrightarrow> tgt > pos_real e t * realval (in_price i))))"
proof -
  obtain pn where pn: "in_notional i = Fin pn" using ok by (auto simp: inputs_ok_def isfinite_iff)
  obtain ap where ap: "in_price i = Fin ap" using ok by (auto simp: inputs_ok_def isfinite_iff)
  obtain w where w: "in_weight i = Fin w" using ok by (auto simp: inputs_ok_def isfinite_iff)
  obtain c where c: "in_confidence i = Fin c" "0 < c" "c \<le> 1" using ok by (auto simp: inputs_ok_def)
  define cur where "cur = pos_real e t"
  have cur: "position_of e t = Fin cur" using wf_reals(8) [OF wf] by (simp add: cur_def)
  define side where "side = (if tgt > cur * ap then ''BUY'' else ''SELL'')"
  define n where "n = (case in_target i of None \<Rightarrow> \<bar>pn * w * c\<bar> | Some _ \<Rightarrow> \<bar>tgt - cur * ap\<bar> * c)"
  obtain xp where xp: "apply_slippage e (Fin ap) side (Some t) (Fin n) = Inr (Fin xp)"
    using apply_slippage_finite [OF wf, of side ap t n] by (metis side_def)
  define d where "d = (tgt - cur * xp) * c"
  have unf: "size_toward e t (Fin tgt) i =
    (if xp \<le> 0 then Inr \<lparr>quantity = 0, desired_notional = Fin 0, exec_price = Fin xp\<rparr>
     else if (d > 0) \<noteq> (side = ''BUY'') then Inr \<lparr>quantity = 0, desired_notional = Fin d, exec_price = Fin xp\<rparr>
     else if \<bar>d\<bar> < 1 \<and> (case in_target i of None \<Rightarrow> True | Some w \<Rightarrow> \<not> feq w 0)
     then Inr \<lparr>quantity = 0, desired_notional = Fin d, exec_price = Fin xp\<rparr>
     else case in_target i of
        Some _ \<Rightarrow> size_to_target e side (Fin tgt) (Fin cur) (Fin c) (Fin pn) (Fin d) (Fin xp)
      | None \<Rightarrow> size_by_notional e side (Fin (buying_power e pn)) (Fin pn) (Fin d) (Fin xp))"
  proof -
    note facts = pn ap w c(1) cur xp calculate_buying_power_wf [OF wf] zero_Fin one_Fin d_def
    show ?thesis
      using xp by (cases "in_target i"; cases "cur * ap < tgt")
        (simp_all add: size_toward_def facts Let_def side_def n_def)
  qed
  show ?thesis
  proof (cases "xp \<le> 0 \<or> (d > 0) \<noteq> (side = ''BUY'') \<or>
      (\<bar>d\<bar> < 1 \<and> (case in_target i of None \<Rightarrow> True | Some w \<Rightarrow> \<not> feq w 0))")
    case True
    then show ?thesis unfolding unf by (auto simp: not_le)
  next
    case False
    then have x: "0 < xp" and s: "(side = ''BUY'') = ((tgt - cur * xp) * c > 0)" by (auto simp: d_def)
    have "\<exists>sz. size_toward e t (Fin tgt) i = Inr sz \<and> sized e cur tgt sz"
      using False size_to_target_sized [OF wf x c(2,3) s, of pn]
        size_by_notional_sized [OF wf x c(2,3) s, of pn]
      unfolding unf by (auto simp: d_def split: option.split)
    then obtain sz where sz: "size_toward e t (Fin tgt) i = Inr sz" "sized e cur tgt sz" by blast
    moreover have "desired_notional sz = Fin d" if "0 < quantity sz"
      using sz(1) False unfolding unf
      by (auto simp: size_to_target_def size_by_notional_def ebind_Inr_iff Let_def split: option.splits if_splits)
    ultimately show ?thesis using False by (auto simp: cur_def side_def ap split: if_splits)
  qed
qed

end
