(* ===== verification/Executor_Trades.thy ===== *)
theory Executor_Trades
  imports Executor_Sizing
begin

text \<open>
  The executor's handlers under the invariant: they never raise, keep the invariant,
  settle a fill for exactly what it costs, never overdraw the cash, never pass the
  target, and never lengthen a position the news gate blocks.
\<close>

section \<open>Coercion\<close>

text \<open>Arguments that are finite floats already, as the callers pass them.\<close>

definition float_arg :: "pyval \<Rightarrow> bool" where
  "float_arg v \<longleftrightarrow> (\<exists>r. v = VFloat (Fin r))"

fun arg_real :: "pyval \<Rightarrow> real" where
  "arg_real (VFloat x) = realval x"
| "arg_real _ = 0"

lemma coerce_inputs_ok:
  assumes "coerce_inputs fparse pn ap c tw tgt = Inr i" "\<not> feq (in_confidence i) 0"
    "isfinite (in_notional i)" "isfinite (in_price i)" "isfinite (in_weight i)"
  shows "inputs_ok i"
proof -
  from assms(1) obtain c0 where c0: "in_confidence i = py_max (Fin 0) (py_min (Fin 1) c0)"
    by (auto simp: coerce_inputs_def ebind_Inr_iff Let_def split: if_splits)
  have "\<exists>c. in_confidence i = Fin c \<and> 0 \<le> c \<and> c \<le> 1"
    unfolding c0 by (cases c0) (auto simp: py_max_def py_min_def)
  moreover have "case in_target i of None \<Rightarrow> True | Some w \<Rightarrow> isfinite w"
    using assms(1) by (auto simp: coerce_inputs_def ebind_Inr_iff Let_def split: if_splits)
  ultimately show ?thesis using assms by (auto simp: inputs_ok_def zero_Fin)
qed

lemma coerce_inputs_floats:
  assumes "coerce_inputs fparse pn ap c tw tgt = Inr i" "float_arg pn" "float_arg ap" "float_arg tw"
  shows "isfinite (in_notional i)" "isfinite (in_price i)" "isfinite (in_weight i)"
  using assms by (auto simp: coerce_inputs_def ebind_Inr_iff Let_def float_arg_def split: if_splits)

lemma coerce_inputs_total:
  assumes "float_arg pn" "float_arg ap" "float_arg tw" "float_arg c" "tgt = VNone \<or> float_arg tgt"
  shows "\<exists>i. coerce_inputs fparse pn ap c tw tgt = Inr i"
  using assms by (auto simp: coerce_inputs_def float_arg_def Let_def)

section \<open>The gate only caps\<close>

lemma gate_refl [intro!, simp]: "\<exists>g. e = (e :: executor)\<lparr>ex_gate := g\<rparr>"
  by (rule exI [of _ "ex_gate e"]) simp

lemma apply_sentiment_gate_frame:
  assumes "apply_sentiment_gate e t target cur = (e', target')"
  shows "\<exists>g. e' = e\<lparr>ex_gate := g\<rparr>" "target' = target \<or> target' = py_max cur (Fin 0)"
proof -
  show "\<exists>g. e' = e\<lparr>ex_gate := g\<rparr>"
    using assms by (auto simp: apply_sentiment_gate_def Let_def split: option.splits if_splits)
  show "target' = target \<or> target' = py_max cur (Fin 0)"
    using assms by (auto simp: apply_sentiment_gate_def Let_def split: option.splits if_splits)
qed

lemma exec_wf_gate [simp]: "exec_wf (e\<lparr>ex_gate := g\<rparr>) = exec_wf e"
  by (simp add: exec_wf_def)

lemma pos_real_gate [simp]: "pos_real (e\<lparr>ex_gate := g\<rparr>) t = pos_real e t"
  by (simp add: pos_real_def position_of_def)

lemma sized_gate [simp]: "sized (e\<lparr>ex_gate := g\<rparr>) cur tgt sz = sized e cur tgt sz"
  by (simp add: sized_def)

lemma sized_cong: "exec_wf e \<Longrightarrow> sized e cur tgt sz \<Longrightarrow> quantity sz > 0 \<Longrightarrow>
   \<exists>xp d. exec_price sz = Fin xp \<and> desired_notional sz = Fin d \<and> 0 < xp"
  by (auto simp: sized_def)

text \<open>The signed target the sizing works toward before the gate, and after it.\<close>

definition gate_closed :: "executor \<Rightarrow> string \<Rightarrow> bool" where
  "gate_closed e t \<longleftrightarrow> (case (ex_gate e, current_time e) of
     (Some g, Some now) \<Rightarrow> blocks_long_entry g t now | _ \<Rightarrow> False)"

lemma gate_caps:
  assumes "apply_sentiment_gate e t (Fin target) (Fin cur) = (e', target')"
  shows "\<exists>T. target' = Fin T \<and> T \<le> target \<and> (gate_closed e t \<longrightarrow> T \<le> max cur 0)"
  using assms by (auto simp: apply_sentiment_gate_def gate_closed_def Let_def split: option.splits if_splits)

section \<open>Sizing a trade\<close>

lemma default_trade_size_sized:
  assumes wf: "exec_wf e" and args: "float_arg ap" "float_arg pn" "float_arg tw"
    and res: "default_trade_size fparse e sig t ap c pn tw tgt = (e', r)"
    and conf: "float_arg c" "tgt = VNone \<or> float_arg tgt"
  shows "\<exists>g. e' = e\<lparr>ex_gate := g\<rparr>"
    and "\<exists>sz T. r = Inr sz \<and> sized e (pos_real e t) T sz \<and>
      (gate_closed e t \<longrightarrow> T \<le> max (pos_real e t * arg_real ap) 0) \<and>
      (0 < quantity sz \<longrightarrow> (\<exists>d. desired_notional sz = Fin d \<and> (d > 0 \<longleftrightarrow> T > pos_real e t * arg_real ap))) \<and>
      (0 < quantity sz \<longrightarrow> (\<forall>w. ex_gate e = None \<or> w = 0 \<longrightarrow> tgt = VFloat (Fin w) \<longrightarrow> T = arg_real pn * w))"
proof -
  obtain i where i: "coerce_inputs fparse pn ap c tw tgt = Inr i"
    using coerce_inputs_total [OF args(2,1,3) conf] by blast
  obtain a where ap: "ap = VFloat (Fin a)" using args(1) by (auto simp: float_arg_def)
  have ia: "in_price i = Fin a"
    using i ap by (auto simp: coerce_inputs_def ebind_Inr_iff Let_def split: if_splits)
  have nt: "sized e (pos_real e t) 0 no_trade" by (simp add: no_trade_def)
  have z: "0 \<le> max (pos_real e t * a) 0" by simp
  define I where "I = with_fallback e i"
  let ?g = "apply_sentiment_gate e t (signed_target (upper sig) I) (position_of e t * in_price I)"
  have unf: "(e', r) = (if upper sig \<notin> {''BUY'', ''SELL'', ''HOLD''} \<or> upper sig = ''HOLD'' \<or>
        feq (in_confidence i) 0 \<or> in_target i = None \<and> feq (in_weight i) 0 \<and> tickers e = []
      then (e, Inr no_trade) else (fst ?g, size_toward (fst ?g) t (snd ?g) I))"
    unfolding res [symmetric] default_trade_size_def i by (auto simp add: Let_def split_beta I_def)
  consider (skip) "(e', r) = (e, Inr no_trade)"
    | (go) "(e', r) = (fst ?g, size_toward (fst ?g) t (snd ?g) I)" "\<not> feq (in_confidence i) 0"
    using unf by (metis (no_types, lifting))
  then have "(\<exists>g. e' = e\<lparr>ex_gate := g\<rparr>) \<and> (\<exists>sz T. r = Inr sz \<and> sized e (pos_real e t) T sz \<and>
      (gate_closed e t \<longrightarrow> T \<le> max (pos_real e t * a) 0) \<and>
      (0 < quantity sz \<longrightarrow> (\<exists>d. desired_notional sz = Fin d \<and> (d > 0 \<longleftrightarrow> T > pos_real e t * a))) \<and>
      (0 < quantity sz \<longrightarrow> (\<forall>w. ex_gate e = None \<or> w = 0 \<longrightarrow> tgt = VFloat (Fin w) \<longrightarrow> T = arg_real pn * w)))"
  proof cases
    case skip
    then have "e' = e\<lparr>ex_gate := ex_gate e\<rparr>" "r = Inr no_trade" by simp_all
    with nt z show ?thesis by (intro conjI exI [of _ no_trade] exI [of _ 0]) (auto simp: no_trade_def)
  next
    case go
    have oki: "inputs_ok i"
      by (rule coerce_inputs_ok [OF i go(2) coerce_inputs_floats [OF i args(2,1,3)]])
    then have ok: "inputs_ok I" by (auto simp: inputs_ok_def I_def with_fallback_def)
    then obtain p w where pw: "in_notional I = Fin p" "in_weight I = Fin w"
      "in_target I = None \<or> (\<exists>u. in_target I = Some (Fin u))"
      by (auto simp: inputs_ok_def isfinite_iff split: option.splits)
    then have "isfinite (signed_target (upper sig) I)" by (auto simp: signed_target_def)
    then obtain T1 where T1: "signed_target (upper sig) I = Fin T1" by (auto simp: isfinite_iff)
    have ipr: "in_price I = Fin a" using ia by (simp add: I_def with_fallback_def)
    have pos: "position_of e t * in_price I = Fin (pos_real e t * a)"
      using wf_reals(8) [OF wf, of t] by (subst ipr, cases "position_of e t") auto
    obtain e1 T where g: "?g = (e1, Fin T)" "gate_closed e t \<longrightarrow> T \<le> max (pos_real e t * a) 0"
      using gate_caps [of e t T1 "pos_real e t * a"] unfolding T1 pos by (metis prod.exhaust)
    obtain gg where gg: "e1 = e\<lparr>ex_gate := gg\<rparr>" using apply_sentiment_gate_frame(1) [OF g(1)] by blast
    have wf1: "exec_wf e1" using wf gg by simp
    obtain sz where sz: "size_toward e1 t (Fin T) I = Inr sz" "sized e1 (pos_real e1 t) T sz"
      "0 < quantity sz \<longrightarrow> (\<exists>d. desired_notional sz = Fin d \<and> (d > 0 \<longleftrightarrow> T > pos_real e1 t * realval (in_price I)))"
      using size_toward_sized [OF wf1 ok] by blast
    have tw: "T = arg_real pn * w" if "ex_gate e = None \<or> w = 0" "tgt = VFloat (Fin w)" for w
    proof -
      have "in_target I = Some (Fin w)" "in_notional I = Fin (arg_real pn)"
        using i that(2) args(2)
        by (auto simp: I_def with_fallback_def coerce_inputs_def ebind_Inr_iff Let_def float_arg_def split: if_splits)
      with g(1) that(1) pos show ?thesis
        by (auto simp: apply_sentiment_gate_def signed_target_def Let_def zero_Fin py_max_def split: option.splits if_splits)
    qed
    from go(1) g(1) have "e' = e1" "r = size_toward e1 t (Fin T) I" by auto
    with sz g(2) gg tw ipr show ?thesis by auto
  qed
  with ap show "\<exists>g. e' = e\<lparr>ex_gate := g\<rparr>"
    and "\<exists>sz T. r = Inr sz \<and> sized e (pos_real e t) T sz \<and>
      (gate_closed e t \<longrightarrow> T \<le> max (pos_real e t * arg_real ap) 0) \<and>
      (0 < quantity sz \<longrightarrow> (\<exists>d. desired_notional sz = Fin d \<and> (d > 0 \<longleftrightarrow> T > pos_real e t * arg_real ap))) \<and>
      (0 < quantity sz \<longrightarrow> (\<forall>w. ex_gate e = None \<or> w = 0 \<longrightarrow> tgt = VFloat (Fin w) \<longrightarrow> T = arg_real pn * w))"
    by auto
qed

section \<open>Settlement\<close>

lemma settle_real:
  assumes "exec_wf e"
  shows "exec_wf (settle e t buy (Fin q) (Fin xp))"
    and "cash_real (settle e t buy (Fin q) (Fin xp)) =
      cash_real e - (if buy then q * xp else - (q * xp)) - q * fee_real e"
    and "pos_real (settle e t buy (Fin q) (Fin xp)) u =
      (if u = t then pos_real e t + (if buy then q else - q) else pos_real e u)"
    and "tickers (settle e t buy (Fin q) (Fin xp)) = tickers e"
    and "latest_prices (settle e t buy (Fin q) (Fin xp)) = latest_prices e"
    and "commission_per_share (settle e t buy (Fin q) (Fin xp)) = commission_per_share e"
    and "trade_log (settle e t buy (Fin q) (Fin xp)) = trade_log e"
proof -
  obtain ca where ca: "cash e = Fin ca" using wf_reals(1) [OF assms] by metis
  obtain f where f: "commission_per_share e = Fin f" using wf_reals(2) [OF assms] by metis
  obtain po where po: "position_of e t = Fin po" "pos_real e t = po" using wf_reals(8) [OF assms, of t] by metis
  show "exec_wf (settle e t buy (Fin q) (Fin xp))"
    using assms by (auto simp: settle_def Let_def exec_wf_def ca f po all_finite_set list_all_iff)
  show "cash_real (settle e t buy (Fin q) (Fin xp)) =
      cash_real e - (if buy then q * xp else - (q * xp)) - q * fee_real e"
    by (simp add: settle_def Let_def ca f)
  show "pos_real (settle e t buy (Fin q) (Fin xp)) u =
      (if u = t then pos_real e t + (if buy then q else - q) else pos_real e u)"
    using po by (simp add: settle_def Let_def pos_real_def position_of_def)
qed (simp_all add: settle_def Let_def)

lemma settle_affordable:
  assumes "exec_wf e" "0 \<le> cash_real e" "0 < q" "0 < xp"
    and "buy \<longrightarrow> q * (xp + fee_real e) \<le> max 0 (cash_real e)"
    and "\<not> buy \<longrightarrow> fee_real e > xp \<longrightarrow> q * (fee_real e - xp) \<le> max 0 (cash_real e)"
  shows "0 \<le> cash_real (settle e t buy (Fin q) (Fin xp))"
proof (cases buy)
  case True
  with assms show ?thesis by (simp add: settle_real(2) distrib_left)
next
  case False
  show ?thesis
  proof (cases "fee_real e > xp")
    case True
    with False assms show ?thesis by (simp add: settle_real(2) right_diff_distrib)
  next
    case le: False
    then have "q * fee_real e \<le> q * xp" using assms(3) by simp
    moreover have "cash_real (settle e t buy (Fin q) (Fin xp)) = cash_real e + q * xp - q * fee_real e"
      using False by (simp add: settle_real(2) [OF assms(1)])
    ultimately show ?thesis using assms(2) by linarith
  qed
qed

section \<open>One direct trade\<close>

text \<open>\<open>filled e e' t q xp buy\<close>: the state after a fill of \<open>q\<close> shares of \<open>t\<close> at \<open>xp\<close>.\<close>

definition filled :: "executor \<Rightarrow> executor \<Rightarrow> string \<Rightarrow> real \<Rightarrow> real \<Rightarrow> bool \<Rightarrow> bool" where
  "filled e e' t q xp buy \<longleftrightarrow>
     cash_real e' = cash_real e - (if buy then q * xp else - (q * xp)) - q * fee_real e \<and>
     (\<forall>u. pos_real e' u = (if u = t then pos_real e t + (if buy then q else - q) else pos_real e u)) \<and>
     tickers e' = tickers e \<and> latest_prices e' = latest_prices e \<and>
     commission_per_share e' = commission_per_share e"

definition unchanged :: "executor \<Rightarrow> executor \<Rightarrow> bool" where
  "unchanged e e' \<longleftrightarrow> (\<exists>g. e' = e\<lparr>ex_gate := g\<rparr>)"

lemma pos_real_log [simp]: "pos_real (e\<lparr>trade_log := l\<rparr>) t = pos_real e t"
  by (simp add: pos_real_def position_of_def)

lemma exec_wf_log [simp]: "exec_wf (e\<lparr>trade_log := l\<rparr>) = exec_wf e"
  by (simp add: exec_wf_def)

lemma execute_trade_cases:
  assumes wf: "exec_wf e" and args: "float_arg ap" "float_arg pn" "float_arg tw" "float_arg c"
      "tgt = VNone \<or> float_arg tgt"
    and res: "execute_trade fparse e port t sig c ap pn tw ts tgt = (e', r)"
  obtains (none) "r = Inr None" "unchanged e e'" "trade_log e' = trade_log e"
  | (fill) q xp buy T fl where
      "filled e e' t (real_of_int q) xp buy" "0 < q" "0 < xp" "exec_wf e'"
      "buy \<longleftrightarrow> T > pos_real e t * xp" "buy \<longleftrightarrow> T > pos_real e t * arg_real ap"
      "\<And>w. ex_gate e = None \<or> w = 0 \<Longrightarrow> tgt = VFloat (Fin w) \<Longrightarrow> T = arg_real pn * w"
      "real_of_int q * xp \<le> \<bar>T - pos_real e t * xp\<bar>"
      "0 \<le> cash_real e \<Longrightarrow> 0 \<le> cash_real e'"
      "gate_closed e t \<Longrightarrow> T \<le> max (pos_real e t * arg_real ap) 0"
      "trade_log e' = trade_log e @ [fl]" "f_ticker fl = t" "f_shares fl = Fin (real_of_int q)"
      "f_price fl = Fin xp" "f_signal fl = (if buy then ''BUY'' else ''SELL'')"
      "f_fees fl = Fin (real_of_int q * fee_real e)"
      "r = Inr (Some \<lparr>r_quantity = Fin (real_of_int q), r_cash = cash e', r_position = position_of e' t,
                      r_fees = Fin (real_of_int q * fee_real e), r_price = Fin xp\<rparr>)"
proof -
  obtain e1 rs where d: "default_trade_size fparse e sig t ap c pn tw tgt = (e1, rs)"
    by (cases "default_trade_size fparse e sig t ap c pn tw tgt")
  obtain g where e1: "e1 = e\<lparr>ex_gate := g\<rparr>"
    using default_trade_size_sized(1) [OF wf args(1-3) d args(4,5)] by blast
  obtain sz T where sz: "rs = Inr sz" "sized e (pos_real e t) T sz"
    "gate_closed e t \<longrightarrow> T \<le> max (pos_real e t * arg_real ap) 0"
    "0 < quantity sz \<longrightarrow> (\<exists>d. desired_notional sz = Fin d \<and> (d > 0 \<longleftrightarrow> T > pos_real e t * arg_real ap))"
    "0 < quantity sz \<longrightarrow> (\<forall>w. ex_gate e = None \<or> w = 0 \<longrightarrow> tgt = VFloat (Fin w) \<longrightarrow> T = arg_real pn * w)"
    using default_trade_size_sized(2) [OF wf args(1-3) d args(4,5)] by (elim exE conjE) (rule that)
  obtain cc where c: "c = VFloat (Fin cc)" using args(4) by (auto simp: float_arg_def)
  show thesis
  proof (cases "quantity sz \<le> 0")
    case True
    with res d sz(1) have "r = Inr None" "e' = e1" by (simp_all add: execute_trade_def)
    with e1 show thesis by (intro none) (auto simp: unchanged_def)
  next
    case False
    let ?q = "real_of_int (quantity sz)"
    from False sz(2) obtain xp dn where s: "exec_price sz = Fin xp" "desired_notional sz = Fin dn"
      "0 < xp" "dn \<noteq> 0" "dn > 0 \<longleftrightarrow> T > pos_real e t * xp" "?q * xp \<le> \<bar>T - pos_real e t * xp\<bar>"
      "dn > 0 \<longrightarrow> ?q * (xp + fee_real e) \<le> max 0 (cash_real e)"
      "dn < 0 \<longrightarrow> fee_real e > xp \<longrightarrow> ?q * (fee_real e - xp) \<le> max 0 (cash_real e)"
      by (auto simp: sized_def)
    define e2 where "e2 = settle e1 t (dn > 0) (Fin ?q) (Fin xp)"
    define fl where "fl = \<lparr>f_timestamp = ts, f_portfolio = port, f_ticker = t,
        f_signal = (if dn > 0 then ''BUY'' else ''SELL''),
        f_confidence = py_max (Fin 0) (py_min (Fin 1) (Fin cc)),
        f_shares = Fin ?q, f_price = Fin xp, f_fees = Fin ?q * commission_per_share e1,
        f_cash_after = cash e2, f_position_size = position_of e2 t\<rparr>"
    have wf1: "exec_wf e1" using wf e1 by simp
    have fe: "Fin ?q * commission_per_share e1 = Fin (?q * fee_real e)"
      using wf_reals(2) [OF wf] e1 by (cases "commission_per_share e") auto
    have e': "e' = e2\<lparr>trade_log := trade_log e2 @ [fl]\<rparr>"
      and r: "r = Inr (Some \<lparr>r_quantity = Fin ?q, r_cash = cash e2, r_position = position_of e2 t,
          r_fees = Fin ?q * commission_per_share e1, r_price = Fin xp\<rparr>)"
      using res d sz(1) False s(1,2) c
      by (simp_all add: execute_trade_def Let_def e2_def fl_def zero_Fin)
    have po: "position_of e' t = position_of e2 t" by (simp add: e' position_of_def)
    have F: "filled e e' t ?q xp (dn > 0)"
      using settle_real [OF wf1, of t "dn > 0" ?q xp] by (simp add: filled_def e' e2_def e1)
    have A: "0 \<le> cash_real e'" if "0 \<le> cash_real e"
    proof -
      have "0 \<le> cash_real e2"
        unfolding e2_def by (rule settle_affordable [OF wf1]) (use that s(3,4,7,8) False e1 in auto)
      then show ?thesis by (simp add: e')
    qed
    have L: "trade_log e' = trade_log e @ [fl]"
      using settle_real(7) [OF wf1] by (simp add: e' e2_def e1)
    have W: "exec_wf e'" using settle_real(1) [OF wf1] by (simp add: e' e2_def)
    have B: "dn > 0 \<longleftrightarrow> T > pos_real e t * arg_real ap" using sz(4) s(2) False by auto
    have TW: "T = arg_real pn * w" if "ex_gate e = None \<or> w = 0" "tgt = VFloat (Fin w)" for w
      using sz(5) False that by auto
    have R: "r = Inr (Some \<lparr>r_quantity = Fin ?q, r_cash = cash e', r_position = position_of e' t,
          r_fees = Fin (?q * fee_real e), r_price = Fin xp\<rparr>)"
      unfolding r fe po by (simp add: e')
    have flf: "f_ticker fl = t" "f_shares fl = Fin ?q" "f_price fl = Fin xp"
      "f_signal fl = (if dn > 0 then ''BUY'' else ''SELL'')" "f_fees fl = Fin (?q * fee_real e)"
      using fe by (simp_all add: fl_def)
    have q0: "0 < quantity sz" using False by simp
    show thesis
      by (rule fill [OF F q0 s(3) W s(5) B TW s(6) A _ L flf R]) (use sz(3) in simp_all)
  qed
qed

section \<open>One slice of a parent order\<close>

lemma price_child_cases:
  assumes wf: "exec_wf e" and q: "ch_quantity ch = Fin q"
    and r: "price_child e ch = r"
  shows "(\<exists>err. r = Inr (Inl err)) \<or>
    (\<exists>xp. r = Inr (Inr (Fin xp)) \<and> 0 < q \<and> 0 < xp \<and> (ch_signal ch = ''BUY'' \<or> ch_signal ch = ''SELL'') \<and>
      (fee_real e \<noteq> 0 \<longrightarrow> ch_signal ch = ''BUY'' \<longrightarrow> q * (xp + fee_real e) \<le> max 0 (cash_real e)) \<and>
      (ch_signal ch = ''SELL'' \<longrightarrow> fee_real e > xp \<longrightarrow> q * (fee_real e - xp) \<le> max 0 (cash_real e)))"
proof (cases "q \<le> 0 \<or> (ch_signal ch \<noteq> ''BUY'' \<and> ch_signal ch \<noteq> ''SELL'') \<or> price_of e (ch_ticker ch) \<le> 0")
  case True
  with q r show ?thesis by (auto simp: price_child_def Let_def zero_Fin)
next
  case False
  obtain p where p: "price_of e (ch_ticker ch) = Fin p" "0 < p"
    using False wf_reals(9) [OF wf, of "ch_ticker ch"] by (cases "price_of e (ch_ticker ch)") (auto simp: zero_Fin)
  have sd: "ch_signal ch = ''BUY'' \<or> ch_signal ch = ''SELL''" using False by auto
  obtain xp where xp: "apply_slippage e (Fin p) (ch_signal ch) (Some (ch_ticker ch)) (Fin (q * p)) = Inr (Fin xp)"
    using apply_slippage_finite [OF wf sd] by blast
  obtain f where f: "commission_per_share e = Fin f" "0 \<le> f" using wf_reals(2,3) [OF wf] by metis
  obtain cu where cu: "position_of e (ch_ticker ch) = Fin cu" using wf_reals(8) [OF wf] by metis
  show ?thesis
  proof (cases "xp \<le> 0 \<or> f = 0")
    case True
    with False q r p xp f sd show ?thesis
      by (auto simp: price_child_def Let_def zero_Fin split: if_splits)
  next
    case x: False
    then have x0: "0 < xp" by simp
    obtain l where l: "commission_quantity_limit e (Fin xp) (ch_signal ch) (Fin (equity e)) (Fin cu) = Inr (Fin l)"
      "ch_signal ch = ''BUY'' \<longrightarrow> l * (xp + f) \<le> max 0 (cash_real e)"
      "ch_signal ch \<noteq> ''BUY'' \<longrightarrow> f > xp \<longrightarrow> l * (f - xp) \<le> max 0 (cash_real e)"
      using commission_limit_wf [OF wf x0, of "ch_signal ch" "equity e" cu] by (auto simp: f)
    have b: "q * (xp + f) \<le> l * (xp + f)" if "q \<le> l" using that x0 f(2) by (intro mult_right_mono) auto
    have s: "q * (f - xp) \<le> l * (f - xp)" if "q \<le> l" "f > xp" using that by (intro mult_right_mono) auto
    have rr: "r = (if q > l then Inr (Inl Unaffordable) else Inr (Inr (Fin xp)))"
      unfolding r [symmetric] using False q p xp f(1) x sd l(1) cu
      by (auto simp: price_child_def Let_def zero_Fin get_port_notional_wf [OF wf])
    show ?thesis
    proof (cases "q > l")
      case True
      then show ?thesis by (simp add: rr)
    next
      case le: False
      then have ql: "q \<le> l" by simp
      have "q * (xp + f) \<le> max 0 (cash_real e)" if "ch_signal ch = ''BUY''"
        using b [OF ql] l(2) that by linarith
      moreover have "q * (f - xp) \<le> max 0 (cash_real e)" if "ch_signal ch = ''SELL''" "f > xp"
      proof -
        have "l * (f - xp) \<le> max 0 (cash_real e)" using l(3) that by simp
        with s [OF ql that(2)] show ?thesis by (rule order_trans)
      qed
      moreover have "0 < q" using False by simp
      ultimately show ?thesis using x0 sd le by (simp add: rr f(1))
    qed
  qed
qed

lemma execute_child_order_wf:
  assumes wf: "exec_wf e" and q: "isfinite (ch_quantity ch)"
    and res: "execute_child_order e ch ts = (e', r)"
  shows "exec_wf e'" and "\<exists>out. r = Inr out"
proof -
  obtain qr where qr: "ch_quantity ch = Fin qr" using q by (auto simp: isfinite_iff)
  consider (err) x where "price_child e ch = Inr (Inl x)"
    | (fill) xp where "price_child e ch = Inr (Inr (Fin xp))"
    using price_child_cases [OF wf qr refl] by blast
  then have "exec_wf e' \<and> (\<exists>out. r = Inr out)"
  proof cases
    case err
    with res wf show ?thesis by (auto simp: execute_child_order_def)
  next
    case fill
    with res settle_real(1) [OF wf] qr show ?thesis
      by (auto simp: execute_child_order_def Let_def)
  qed
  then show "exec_wf e'" "\<exists>out. r = Inr out" by auto
qed

end
