(* ===== verification/Executor_Claims.thy ===== *)
theory Executor_Claims
  imports Executor_Trades "HOL-Library.Multiset"
begin

text \<open>
  The properties of the cost model, the news gate and the executor, each with a witness
  at a concrete broker.
\<close>

section \<open>The broker as a machine\<close>

datatype exec_op =
    OpTick datetime
  | OpPrice string pyfloat
  | OpTrade string string string pyval pyval pyval pyval datetime pyval
  | OpChild child_order datetime

fun exec_step :: "(string \<Rightarrow> pyfloat option) \<Rightarrow> executor \<Rightarrow> exec_op \<Rightarrow> executor" where
  "exec_step fparse e (OpTick now) = e\<lparr>current_time := Some now\<rparr>"
| "exec_step fparse e (OpPrice t p) = update_price e t p"
| "exec_step fparse e (OpTrade port t sig c ap pn tw ts tgt) =
     fst (execute_trade fparse e port t sig c ap pn tw ts tgt)"
| "exec_step fparse e (OpChild ch ts) = fst (execute_child_order e ch ts)"

fun op_ok :: "exec_op \<Rightarrow> bool" where
  "op_ok (OpTick _) = True"
| "op_ok (OpPrice _ p) = isfinite p"
| "op_ok (OpTrade _ _ _ c ap pn tw _ tgt) =
     (float_arg ap \<and> float_arg pn \<and> float_arg tw \<and> float_arg c \<and> (tgt = VNone \<or> float_arg tgt))"
| "op_ok (OpChild ch _) = isfinite (ch_quantity ch)"

lemma float_arg_iff [simp]: "float_arg (VFloat x) = isfinite x" "\<not> float_arg VNone"
  by (auto simp: float_arg_def isfinite_iff)

text \<open>What one log entry says happened.\<close>

definition fill_delta :: "fill \<Rightarrow> real" where
  "fill_delta fl = (if f_signal fl = ''BUY'' then realval (f_shares fl) else - realval (f_shares fl))"

definition fill_cash :: "fill \<Rightarrow> real" where
  "fill_cash fl = - fill_delta fl * realval (f_price fl) - realval (f_fees fl)"

definition log_position :: "fill list \<Rightarrow> string \<Rightarrow> real" where
  "log_position fls t = (\<Sum>fl\<leftarrow>filter (\<lambda>fl. f_ticker fl = t) fls. fill_delta fl)"

definition ledger :: "real \<Rightarrow> executor \<Rightarrow> bool" where
  "ledger c0 e \<longleftrightarrow>
     exec_wf e \<and> cash_real e = c0 + (\<Sum>fl\<leftarrow>trade_log e. fill_cash fl) \<and>
     (\<forall>t. pos_real e t = log_position (trade_log e) t)"

lemma ledger_fill:
  assumes "ledger c0 e" "filled e e' t q xp buy" "exec_wf e'" "trade_log e' = trade_log e @ [fl]"
    "f_ticker fl = t" "f_shares fl = Fin q" "f_price fl = Fin xp"
    "f_signal fl = (if buy then ''BUY'' else ''SELL'')" "f_fees fl = Fin (q * fee_real e)"
  shows "ledger c0 e'"
  using assms by (auto simp: ledger_def filled_def fill_cash_def fill_delta_def log_position_def)

lemma ledger_child:
  assumes l: "ledger c0 e" and q: "isfinite (ch_quantity ch)"
    and res: "execute_child_order e ch ts = (e', r)"
  shows "ledger c0 e'"
proof -
  have wf: "exec_wf e" using l by (simp add: ledger_def)
  obtain qr where qr: "ch_quantity ch = Fin qr" using q by (auto simp: isfinite_iff)
  obtain f where f: "commission_per_share e = Fin f" using wf_reals(2) [OF wf] by metis
  consider (err) x where "price_child e ch = Inr (Inl x)"
    | (fill) xp where "price_child e ch = Inr (Inr (Fin xp))" "ch_signal ch = ''BUY'' \<or> ch_signal ch = ''SELL''"
    using price_child_cases [OF wf qr refl] by blast
  then show ?thesis
  proof cases
    case err
    with res l show ?thesis by (simp add: execute_child_order_def)
  next
    case fill
    with res settle_real [OF wf, of "ch_ticker ch" "ch_signal ch = ''BUY''" qr xp] l qr f
    show ?thesis
      by (auto simp: execute_child_order_def Let_def ledger_def fill_cash_def fill_delta_def log_position_def)
  qed
qed

lemma ledger_step: "ledger c0 e \<Longrightarrow> op_ok x \<Longrightarrow> ledger c0 (exec_step fparse e x)"
proof (cases x)
  case (OpTick now)
  then show "ledger c0 e \<Longrightarrow> op_ok x \<Longrightarrow> ledger c0 (exec_step fparse e x)"
    by (simp add: ledger_def exec_wf_def pos_real_def position_of_def)
next
  case (OpPrice t p)
  then show "ledger c0 e \<Longrightarrow> op_ok x \<Longrightarrow> ledger c0 (exec_step fparse e x)"
    by (auto simp: ledger_def exec_wf_def pos_real_def position_of_def update_price_def all_finite_set)
next
  case (OpTrade port t sig c ap pn tw ts tgt)
  assume l: "ledger c0 e" and ok: "op_ok x"
  obtain e' r where res: "execute_trade fparse e port t sig c ap pn tw ts tgt = (e', r)"
    by (cases "execute_trade fparse e port t sig c ap pn tw ts tgt")
  from ok OpTrade have a: "float_arg ap" "float_arg pn" "float_arg tw" "float_arg c" "tgt = VNone \<or> float_arg tgt"
    by auto
  have wf: "exec_wf e" using l by (simp add: ledger_def)
  have "ledger c0 e'"
  proof (cases rule: execute_trade_cases [OF wf a res])
    case 1
    with l show ?thesis by (auto simp: unchanged_def ledger_def)
  next
    case (2 q xp buy T fl)
    show ?thesis by (rule ledger_fill [OF l]) (fact 2)+
  qed
  with OpTrade res show "ledger c0 (exec_step fparse e x)" by simp
next
  case (OpChild ch ts)
  assume "ledger c0 e" "op_ok x"
  with OpChild show "ledger c0 (exec_step fparse e x)"
    by (cases "execute_child_order e ch ts") (auto dest: ledger_child)
qed

interpretation broker_run: machine "exec_step fparse" "ledger c0" op_ok
  by unfold_locales (rule ledger_step)

text \<open>A concrete broker: ten thousand in cash, half a cent of slippage per dollar, half a
  cent of commission per share.\<close>

definition demo_broker :: executor where
  "demo_broker =
     \<lparr>tickers = [''AAPL''], leverage = Fin 2, slippage = Fin (1/200), ex_cost_model = None,
      commission_per_share = Fin (1/200), adv_lookup = [], sigma_lookup = [], ex_gate = None,
      current_time = None, cash = Fin 10000, positions = [(''AAPL'', Fin 0)],
      latest_prices = [(''AAPL'', Fin 100)], trade_log = []\<rparr>"

lemma demo_broker_wf [simp]: "exec_wf demo_broker"
  by (simp add: exec_wf_def demo_broker_def all_finite_def)

section \<open>Cost model\<close>

text \<open>the cost model is adverse, bounded and symmetric: with finite nonnegative
  parameters a buy pays and a sell gives up the same nonnegative amount per share, at most
  the fixed cost, half the spread and the impact cap together.\<close>

theorem cost_adverse_bounded:
  assumes "cost_wf m" and "0 < p"
  shows "\<exists>b s c. apply_to_price m (Fin p) ''BUY'' (Fin n) (Fin a) (Fin v) t = Inr (Fin b) \<and>
    apply_to_price m (Fin p) ''SELL'' (Fin n) (Fin a) (Fin v) t = Inr (Fin s) \<and>
    b = p + c \<and> s = p - c \<and> 0 \<le> c \<and>
    c \<le> p * (realval (fixed_component_bps m) + realval (spread_component_bps m t) +
        max (realval (min_impact_bps (cm_params m))) (realval (max_impact_bps (cm_params m)))) / 10000"
proof -
  obtain f where f: "fixed_component_bps m = Fin f" "0 \<le> f" using fixed_nonneg [OF assms(1)] by auto
  obtain sp where sp: "spread_component_bps m t = Fin sp" "0 \<le> sp" using spread_nonneg [OF assms(1)] by blast
  obtain i where i: "impact_component_bps m (Fin n) (Fin a) (Fin v) = Inr (Fin i)" "0 \<le> i"
    "i \<le> max (realval (min_impact_bps (cm_params m))) (realval (max_impact_bps (cm_params m)))"
    using impact_bounds [OF assms(1)] by blast
  have "cost_fraction m (Fin n) (Fin a) (Fin v) t = Inr (Fin ((f + sp + i) / 10000))"
    using f sp i by (simp add: cost_fraction_def cost_bps_def)
  note px = apply_to_price_sides [OF assms(2) this]
  have "p * (f + sp + i) \<le> p * (f + sp + max (realval (min_impact_bps (cm_params m)))
      (realval (max_impact_bps (cm_params m))))"
    using i(3) assms(2) by (intro mult_left_mono) auto
  then show ?thesis using px f sp i assms(2)
    by (intro exI [of _ "p * (1 + (f + sp + i) / 10000)"] exI [of _ "p * (1 - (f + sp + i) / 10000)"]
        exI [of _ "p * ((f + sp + i) / 10000)"]) (simp add: algebra_simps)
qed

theorem cost_adverse_bounded_witness:
  "\<exists>b s c. apply_to_price for_large_cap (Fin 100) ''BUY'' (Fin 10000) (Fin 1000000) (Fin (1/50)) None = Inr (Fin b) \<and>
    apply_to_price for_large_cap (Fin 100) ''SELL'' (Fin 10000) (Fin 1000000) (Fin (1/50)) None = Inr (Fin s) \<and>
    b = 100 + c \<and> s = 100 - c \<and> 0 \<le> c \<and> c \<le> 100 * (5/2 + 500) / 10000"
  using cost_adverse_bounded [of for_large_cap 100 10000 1000000 "1/50" None]
  by (simp add: fixed_component_bps_def spread_component_bps_def for_large_cap_def default_params_def
      cost_wf_def)

section \<open>News gate\<close>

text \<open>The rows a ticker is scored from: of entries whose keys agree in upper case, the last.\<close>

definition rows_for :: "(string, (int \<times> real) list) dict \<Rightarrow> string \<Rightarrow> (int \<times> real) list" where
  "rows_for arts t =
     (case map_of (rev (map (\<lambda>(k, rows). (upper k, rows)) arts)) (upper t) of None \<Rightarrow> [] | Some rows \<Rightarrow> rows)"

lemma upper_aapl: "upper ''aapl'' = ''AAPL''" "upper ''AAPL'' = ''AAPL''"
  by code_simp+

lemma mean_mset: "mset xs = mset ys \<Longrightarrow> mean xs = mean ys"
proof -
  assume eq: "mset xs = mset ys"
  then have "sum_list xs = sum_list ys" by (metis sum_mset_sum_list)
  with eq show ?thesis by (auto simp: mean_def dest: mset_eq_length)
qed

lemma score_from_rows:
  assumes "make_gate th arts = Inr g"
  shows "score_at g t m = mean (map snd (filter (\<lambda>(p, s).
    to_naive_utc m - sentiment_window \<le> available_at p \<and> available_at p < to_naive_utc m) (rows_for arts t)))"
proof (cases "map_of (rev (map (\<lambda>(k, rows). (upper k, rows)) arts)) (upper t)")
  case None
  then show ?thesis
    by (simp add: score_at_mean [OF assms] ordered_articles_def rows_for_def mean_def)
next
  case (Some rows)
  let ?P = "\<lambda>p. to_naive_utc m - sentiment_window \<le> fst p \<and> fst p < to_naive_utc m"
  let ?f = "\<lambda>(published, score). (available_at published, score)"
  have "mset (map snd (filter ?P (sort (map ?f rows)))) = mset (map snd (filter ?P (map ?f rows)))"
    by (simp only: mset_filter mset_map mset_sort)
  also have "map snd (filter ?P (map ?f rows)) = map snd (filter (\<lambda>(p, s).
      to_naive_utc m - sentiment_window \<le> available_at p \<and> available_at p < to_naive_utc m) rows)"
    by (induction rows) auto
  finally show ?thesis
    using Some by (simp add: score_at_mean [OF assms] ordered_articles_def rows_for_def window_scores_def
        mean_mset)
qed

text \<open>the prefix sums and the two binary searches compute the mean score of the
  articles that became available in the seven days strictly before the bar, zero when
  there are none.\<close>

theorem score_is_window_mean:
  assumes "make_gate th arts = Inr g"
  shows "score_at g t m = mean (map snd (filter (\<lambda>(p, s).
    to_naive_utc m - sentiment_window \<le> available_at p \<and> available_at p < to_naive_utc m) (rows_for arts t)))"
  by (rule score_from_rows [OF assms])

theorem score_is_window_mean_witness:
  "\<exists>g. make_gate (Fin (-1/2)) [(''aapl'', [(0, -1), (hour_us, 1/2)])] = Inr g \<and>
     score_at g ''AAPL'' \<lparr>wall = 7 * hour_us, utc_offset = None\<rparr> = -1/4"
proof -
  obtain g where g: "make_gate (Fin (-1/2)) [(''aapl'', [(0, -1), (hour_us, 1/2)])] = Inr g"
    by (simp add: make_gate_def threshold_min_def threshold_max_def)
  from score_is_window_mean [OF g, of "''AAPL''" "\<lparr>wall = 7 * hour_us, utc_offset = None\<rparr>"]
  have "score_at g ''AAPL'' \<lparr>wall = 7 * hour_us, utc_offset = None\<rparr> = -1/4"
    by (simp add: rows_for_def upper_aapl to_naive_utc_def sentiment_window_def
        available_at_def vendor_timezone_embargo_def mean_def)
  with g show ?thesis by blast
qed

text \<open>no look-ahead. Articles that are not available before the bar, whatever they
  say, do not change the score at that bar.\<close>

theorem gate_no_lookahead:
  assumes "make_gate th arts = Inr g"
    and "make_gate th (map (\<lambda>(k, rows). (k, rows @ late k)) arts) = Inr g'"
    and "\<forall>k. \<forall>p\<in>set (late k). to_naive_utc m \<le> available_at (fst p)"
  shows "score_at g' t m = score_at g t m"
proof -
  let ?P = "\<lambda>(p, s). to_naive_utc m - sentiment_window \<le> available_at p \<and> available_at p < to_naive_utc m"
  have none: "filter ?P (late k) = []" for k
    using assms(3) by (fastforce simp: filter_empty_conv)
  have "filter ?P (rows_for (map (\<lambda>(k, rows). (k, rows @ late k)) arts) t) = filter ?P (rows_for arts t)"
  proof (induction arts rule: rev_induct)
    case Nil
    then show ?case by (simp add: rows_for_def)
  next
    case (snoc kr arts)
    then show ?case by (cases kr) (auto simp: rows_for_def none split: option.splits)
  qed
  then show ?thesis by (simp only: score_from_rows [OF assms(1)] score_from_rows [OF assms(2)])
qed

theorem gate_no_lookahead_witness:
  "\<exists>g g'. make_gate (Fin 0) [(''T'', [(0, -1)])] = Inr g \<and>
     make_gate (Fin 0) [(''T'', [(0, -1), (hour_us, 1)])] = Inr g' \<and>
     score_at g' ''T'' \<lparr>wall = 6 * hour_us, utc_offset = None\<rparr> =
     score_at g ''T'' \<lparr>wall = 6 * hour_us, utc_offset = None\<rparr>"
proof -
  obtain g where g: "make_gate (Fin 0) [(''T'', [(0, -1)])] = Inr g"
    by (simp add: make_gate_def threshold_min_def threshold_max_def)
  obtain g' where g': "make_gate (Fin 0) [(''T'', [(0, -1), (hour_us, 1)])] = Inr g'"
    by (simp add: make_gate_def threshold_min_def threshold_max_def)
  have "score_at g' ''T'' \<lparr>wall = 6 * hour_us, utc_offset = None\<rparr> =
     score_at g ''T'' \<lparr>wall = 6 * hour_us, utc_offset = None\<rparr>"
    using gate_no_lookahead [OF g, of "\<lambda>_. [(hour_us, 1)]" g' "\<lparr>wall = 6 * hour_us, utc_offset = None\<rparr>" "''T''"]
      g' by (simp add: to_naive_utc_def available_at_def vendor_timezone_embargo_def)
  with g g' show ?thesis by blast
qed

section \<open>Executor\<close>

text \<open>C33: under the invariant a direct trade whose arguments are finite floats (\<open>op_ok\<close>) never raises
  and keeps the invariant; when it fills, the quantity is a positive whole number at a positive price, the named position
  and the cash move by exactly the fill and its fees, nothing else moves (so equity marked
  at the fill price falls by the fees only), and the log gains one entry.\<close>

theorem trade_self_financing:
  assumes "exec_wf e" and "op_ok (OpTrade port t sig c ap pn tw ts tgt)"
  shows "case execute_trade fparse e port t sig c ap pn tw ts tgt of
      (e', Inl x) \<Rightarrow> False
    | (e', Inr None) \<Rightarrow> exec_wf e' \<and> unchanged e e'
    | (e', Inr (Some res)) \<Rightarrow>
        exec_wf e' \<and>
        (\<exists>q xp. r_quantity res = Fin (real_of_int q) \<and> r_price res = Fin xp \<and> 0 < q \<and> 0 < xp \<and>
           cash_real e' + pos_real e' t * xp = cash_real e + pos_real e t * xp - real_of_int q * fee_real e \<and>
           \<bar>pos_real e' t - pos_real e t\<bar> = real_of_int q) \<and>
        r_cash res = cash e' \<and> r_position res = position_of e' t \<and>
        (u \<noteq> t \<longrightarrow> pos_real e' u = pos_real e u) \<and>
        length (trade_log e') = length (trade_log e) + 1"
proof -
  obtain e' r where res: "execute_trade fparse e port t sig c ap pn tw ts tgt = (e', r)"
    by (cases "execute_trade fparse e port t sig c ap pn tw ts tgt")
  from assms(2) have a: "float_arg ap" "float_arg pn" "float_arg tw" "float_arg c" "tgt = VNone \<or> float_arg tgt"
    by auto
  show ?thesis
  proof (cases rule: execute_trade_cases [OF assms(1) a res])
    case 1
    with assms(1) res show ?thesis by (auto simp: unchanged_def)
  next
    case (2 q xp buy T fl)
    have "pos_real e' u = pos_real e u" if "u \<noteq> t" using 2(1) that by (simp add: filled_def)
    moreover have "cash_real e' + pos_real e' t * xp = cash_real e + pos_real e t * xp - real_of_int q * fee_real e"
      using 2(1) by (cases buy) (simp_all add: filled_def distrib_left distrib_right left_diff_distrib)
    moreover have "\<bar>pos_real e' t - pos_real e t\<bar> = real_of_int q" using 2(1,2) by (simp add: filled_def)
    ultimately show ?thesis using 2 res by simp
  qed
qed

theorem trade_self_financing_witness:
  "case execute_trade (\<lambda>_. None) demo_broker ''p'' ''AAPL'' ''BUY'' (VFloat (Fin 1)) (VFloat (Fin 100))
      (VFloat (Fin 10000)) (VFloat (Fin 0)) \<lparr>wall = 0, utc_offset = None\<rparr> (VFloat (Fin (1/2))) of
      (e', Inl x) \<Rightarrow> False
    | (e', Inr None) \<Rightarrow> exec_wf e' \<and> unchanged demo_broker e'
    | (e', Inr (Some res)) \<Rightarrow>
        exec_wf e' \<and>
        (\<exists>q xp. r_quantity res = Fin (real_of_int q) \<and> r_price res = Fin xp \<and> 0 < q \<and> 0 < xp \<and>
           cash_real e' + pos_real e' ''AAPL'' * xp =
             cash_real demo_broker + pos_real demo_broker ''AAPL'' * xp - real_of_int q * fee_real demo_broker \<and>
           \<bar>pos_real e' ''AAPL'' - pos_real demo_broker ''AAPL''\<bar> = real_of_int q) \<and>
        r_cash res = cash e' \<and> r_position res = position_of e' ''AAPL'' \<and>
        (''MSFT'' \<noteq> ''AAPL'' \<longrightarrow> pos_real e' ''MSFT'' = pos_real demo_broker ''MSFT'') \<and>
        length (trade_log e') = length (trade_log demo_broker) + 1"
  by (rule trade_self_financing) simp_all

text \<open>Nothing checks a price, a weight or a value for NaN. Without a target weight a sale of
  a holding under a NaN value reaches the floor of a NaN quantity, which raises: the
  finite arguments asked for above are what the handler relies on.\<close>

lemma nan_value_raises:
  "snd (execute_trade (\<lambda>_. None) (demo_broker\<lparr>positions := [(''AAPL'', Fin 10)]\<rparr>) ''p'' ''AAPL'' ''SELL''
      (VFloat (Fin 1)) (VFloat (Fin 100)) (VFloat NaN) (VFloat (Fin 1)) \<lparr>wall = 0, utc_offset = None\<rparr> VNone)
   = Inl ValueError"
proof -
  let ?e = "demo_broker\<lparr>positions := [(''AAPL'', Fin 10)]\<rparr>"
  let ?i = "\<lparr>in_notional = NaN, in_price = Fin 100, in_confidence = Fin 1, in_weight = Fin 1, in_target = None\<rparr>"
  have nan [simp]: "NaN - x = NaN" for x by (simp add: minus_pyfloat_def)
  have bp: "calculate_buying_power ?e NaN = Inr (Fin 0)"
    by (simp add: calculate_buying_power_def demo_broker_def held_value_def price_of_def fsum_def py_max_def
        dict_or_def)
  have "size_by_notional ?e ''SELL'' (Fin 0) NaN NaN (Fin x) = Inl ValueError" if "0 < x" for x
    using that by (simp add: size_by_notional_def py_min_def zero_Fin one_Fin)
  then have sized: "size_by_notional ?e ''SELL'' (Fin 0) NaN NaN (Fin (199 / 2)) = Inl ValueError" by simp
  have slip: "apply_slippage ?e (Fin 100) ''SELL'' (Some ''AAPL'') NaN = Inr (Fin (199 / 2))"
    by (simp add: apply_slippage_def demo_broker_def one_Fin)
  have [simp]: "\<not> x < NaN" "NaN * x = NaN" for x by (cases x; simp)+
  have toward: "size_toward ?e ''AAPL'' NaN ?i = Inl ValueError"
    by (simp add: size_toward_def Let_def slip bp sized zero_Fin)
  have "coerce_inputs (\<lambda>_. None) (VFloat NaN) (VFloat (Fin 100)) (VFloat (Fin 1)) (VFloat (Fin 1)) VNone = Inr ?i"
    by (simp add: coerce_inputs_def guard_e_def py_max_def py_min_def)
  moreover have "upper ''SELL'' = ''SELL''" by code_simp
  ultimately have "default_trade_size (\<lambda>_. None) ?e ''SELL'' ''AAPL'' (VFloat (Fin 100)) (VFloat (Fin 1)) (VFloat NaN)
      (VFloat (Fin 1)) VNone = (?e, Inl ValueError)"
    using toward by (simp add: default_trade_size_def with_fallback_def signed_target_def apply_sentiment_gate_def demo_broker_def zero_Fin)
  then show ?thesis by (simp add: execute_trade_def)
qed

text \<open>a direct trade never overdraws the account: cash that was not negative is not
  negative after the fill and its fees, for a buy and for a short sale.\<close>

theorem trade_never_overdraws:
  assumes "exec_wf e" and "op_ok (OpTrade port t sig c ap pn tw ts tgt)" and "0 \<le> cash_real e"
  shows "0 \<le> cash_real (fst (execute_trade fparse e port t sig c ap pn tw ts tgt))"
proof -
  obtain e' r where res: "execute_trade fparse e port t sig c ap pn tw ts tgt = (e', r)"
    by (cases "execute_trade fparse e port t sig c ap pn tw ts tgt")
  from assms(2) have a: "float_arg ap" "float_arg pn" "float_arg tw" "float_arg c" "tgt = VNone \<or> float_arg tgt"
    by auto
  show ?thesis
    by (cases rule: execute_trade_cases [OF assms(1) a res]) (use assms(3) res in \<open>auto simp: unchanged_def\<close>)
qed

theorem trade_never_overdraws_witness:
  "0 \<le> cash_real (fst (execute_trade (\<lambda>_. None) demo_broker ''p'' ''AAPL'' ''BUY'' (VFloat (Fin 1))
      (VFloat (Fin 100)) (VFloat (Fin 10000)) (VFloat (Fin 0)) \<lparr>wall = 0, utc_offset = None\<rparr>
      (VFloat (Fin 1))))"
  by (rule trade_never_overdraws) (simp_all, simp add: demo_broker_def)

text \<open>C34: without a news gate, a trade toward an explicit target weight approaches the
  target and never passes it: at the fill price the position stays on its side of the
  target notional, and is no farther from it. A zero target therefore never flips a long
  into a short or a short into a long.\<close>

theorem target_never_overshoots:
  assumes "exec_wf e" and "op_ok (OpTrade port t sig c ap (VFloat (Fin pn)) tw ts (VFloat (Fin w)))"
    and "ex_gate e = None"
  shows "case execute_trade fparse e port t sig c ap (VFloat (Fin pn)) tw ts (VFloat (Fin w)) of
      (e', Inr (Some res)) \<Rightarrow>
        \<exists>xp. r_price res = Fin xp \<and> 0 < xp \<and>
          (pos_real e t * xp \<le> pn * w \<longrightarrow> pos_real e t \<le> pos_real e' t \<and> pos_real e' t * xp \<le> pn * w) \<and>
          (pos_real e t * xp \<ge> pn * w \<longrightarrow> pos_real e' t \<le> pos_real e t \<and> pn * w \<le> pos_real e' t * xp)
    | _ \<Rightarrow> True"
proof -
  obtain e' r where res: "execute_trade fparse e port t sig c ap (VFloat (Fin pn)) tw ts (VFloat (Fin w)) = (e', r)"
    by (cases "execute_trade fparse e port t sig c ap (VFloat (Fin pn)) tw ts (VFloat (Fin w))")
  from assms(2) have a: "float_arg ap" "float_arg (VFloat (Fin pn))" "float_arg tw" "float_arg c"
    "VFloat (Fin w) = VNone \<or> float_arg (VFloat (Fin w))" by auto
  show ?thesis
  proof (cases rule: execute_trade_cases [OF assms(1) a res])
    case 1
    with res show ?thesis by simp
  next
    case (2 q xp buy T fl)
    have T: "T = pn * w" using 2(7) [of w] assms(3) by simp
    have q0: "0 < real_of_int q * xp" using 2(2,3) by simp
    have p: "pos_real e' t = pos_real e t + (if buy then real_of_int q else - real_of_int q)"
      using 2(1) by (simp add: filled_def)
    show ?thesis
    proof (cases buy)
      case True
      with 2(5,8) T q0 p 2(2) have "pos_real e' t * xp \<le> pn * w" "pos_real e t * xp < pn * w"
        "pos_real e t \<le> pos_real e' t"
        by (auto simp: distrib_right)
      with res 2(3,17) show ?thesis by simp
    next
      case False
      with 2(5,8) T q0 p 2(2) have "pn * w \<le> pos_real e' t * xp" "pos_real e' t \<le> pos_real e t"
        "pn * w < pos_real e t * xp"
        by (auto simp: left_diff_distrib)
      with res 2(3,17) show ?thesis by simp
    qed
  qed
qed

theorem target_never_overshoots_witness:
  "case execute_trade (\<lambda>_. None) demo_broker ''p'' ''AAPL'' ''BUY'' (VFloat (Fin 1)) (VFloat (Fin 100))
      (VFloat (Fin 10000)) (VFloat (Fin 0)) \<lparr>wall = 0, utc_offset = None\<rparr> (VFloat (Fin (1/2))) of
      (e', Inr (Some res)) \<Rightarrow>
        \<exists>xp. r_price res = Fin xp \<and> 0 < xp \<and>
          (pos_real demo_broker ''AAPL'' * xp \<le> 10000 * (1/2) \<longrightarrow>
             pos_real demo_broker ''AAPL'' \<le> pos_real e' ''AAPL'' \<and> pos_real e' ''AAPL'' * xp \<le> 10000 * (1/2)) \<and>
          (pos_real demo_broker ''AAPL'' * xp \<ge> 10000 * (1/2) \<longrightarrow>
             pos_real e' ''AAPL'' \<le> pos_real demo_broker ''AAPL'' \<and> 10000 * (1/2) \<le> pos_real e' ''AAPL'' * xp)
    | _ \<Rightarrow> True"
  by (rule target_never_overshoots) (simp_all, simp add: demo_broker_def)

text \<open>while the news gate is shut for a ticker, no trade ends longer than it started:
  a long may be held or trimmed and a short covered, at most to flat.\<close>

theorem gated_never_longer:
  assumes "exec_wf e" and "op_ok (OpTrade port t sig c (VFloat (Fin a)) pn tw ts tgt)"
    and "gate_closed e t" and "0 < a"
  shows "pos_real (fst (execute_trade fparse e port t sig c (VFloat (Fin a)) pn tw ts tgt)) t
    \<le> max (pos_real e t) 0"
proof -
  obtain e' r where res: "execute_trade fparse e port t sig c (VFloat (Fin a)) pn tw ts tgt = (e', r)"
    by (cases "execute_trade fparse e port t sig c (VFloat (Fin a)) pn tw ts tgt")
  from assms(2) have ar: "float_arg (VFloat (Fin a))" "float_arg pn" "float_arg tw" "float_arg c"
    "tgt = VNone \<or> float_arg tgt" by auto
  show ?thesis
  proof (cases rule: execute_trade_cases [OF assms(1) ar res])
    case 1
    with res show ?thesis by (auto simp: unchanged_def)
  next
    case (2 q xp buy T fl)
    have p: "pos_real e' t = pos_real e t + (if buy then real_of_int q else - real_of_int q)"
      using 2(1) by (simp add: filled_def)
    show ?thesis
    proof (cases buy)
      case False
      with p 2(2) res show ?thesis by simp
    next
      case True
      have T: "T \<le> max (pos_real e t * a) 0" using 2(10) assms(3) by simp
      from True 2(6) have "T > pos_real e t * a" by simp
      with T have "T \<le> 0" by (simp add: max_def split: if_splits)
      from True 2(5,8) have "real_of_int q * xp \<le> T - pos_real e t * xp" by simp
      with \<open>T \<le> 0\<close> p True have "pos_real e' t * xp \<le> 0" by (simp add: distrib_right)
      with 2(3) res show ?thesis by (simp add: mult_le_0_iff)
    qed
  qed
qed

definition demo_gated :: executor where
  "demo_gated = demo_broker\<lparr>
     ex_gate := Some \<lparr>threshold = Fin (-1/10), articles = [(''AAPL'', [(0, -1)])], blocked_entry_count = 0,
                      gate_times = [(''AAPL'', [5 * hour_us])], gate_prefix = [(''AAPL'', [0, -1])]\<rparr>,
     current_time := Some \<lparr>wall = 6 * hour_us, utc_offset = None\<rparr>\<rparr>"

lemma demo_gated_closed: "gate_closed demo_gated ''AAPL''"
  by (simp add: gate_closed_def demo_gated_def blocks_long_entry_def score_at_def upper_def upper_char_def
      to_naive_utc_def bisect_left_def bisect_from.simps sentiment_window_def Let_def)

theorem gated_never_longer_witness:
  "pos_real (fst (execute_trade (\<lambda>_. None) demo_gated ''p'' ''AAPL'' ''BUY'' (VFloat (Fin 1))
      (VFloat (Fin 100)) (VFloat (Fin 10000)) (VFloat (Fin 0)) \<lparr>wall = 0, utc_offset = None\<rparr>
      (VFloat (Fin 1)))) ''AAPL'' \<le> max (pos_real demo_gated ''AAPL'') 0"
proof (rule gated_never_longer)
  have "exec_wf (demo_broker\<lparr>current_time := s\<rparr>)" for s
    using demo_broker_wf by (simp add: exec_wf_def)
  then show "exec_wf demo_gated" by (simp add: demo_gated_def exec_wf_def)
qed (simp_all add: demo_gated_closed)

lemma make_executor_ledger:
  assumes "make_executor (Fin c0) ts lev slip cm adv sig fee g = Inr e0" and "exec_wf e0"
  shows "ledger c0 e0 \<and> trade_log e0 = []"
proof -
  have z: "dict_or (foldl (\<lambda>d u. dict_set u (Fin 0) d) d us) t (Fin 0) = Fin 0"
    if "dict_or d t (Fin 0) = Fin 0" for d us t
    using that by (induction us arbitrary: d) auto
  have "pos_real e0 u = 0" for u
    using assms(1) z [of "[]" u ts]
    by (auto simp: make_executor_def ebind_Inr_iff pos_real_def position_of_def init_dict_def dict_or_def)
  with assms show ?thesis
    by (auto simp: ledger_def make_executor_def ebind_Inr_iff log_position_def)
qed

text \<open>C14: the trade log is the whole story. After any sequence of bars, price updates,
  direct trades and order-manager slices whose prices, weights, values and quantities are
  finite floats (\<open>op_ok\<close>), cash is the starting capital plus what the log's
  fills paid and cost, every position is the signed sum of the log's shares, and the
  executor's invariant holds.\<close>

theorem broker_ledger:
  assumes "make_executor (Fin c0) ts lev slip cm adv sig fee g = Inr e0" and "exec_wf e0"
    and "list_all op_ok ops"
  shows "let e = foldl (exec_step fparse) e0 ops in
    exec_wf e \<and> cash_real e = c0 + (\<Sum>fl\<leftarrow>trade_log e. fill_cash fl) \<and>
    pos_real e t = log_position (trade_log e) t"
proof -
  have "ledger c0 e0" using make_executor_ledger [OF assms(1,2)] by simp
  from broker_run.run_inv [OF this assms(3)] show ?thesis by (simp add: ledger_def Let_def)
qed

theorem broker_ledger_witness:
  "\<exists>e0. make_executor (Fin 1000) [''T''] (Fin 2) (Fin 0) None [] [] (Fin 0) None = Inr e0 \<and>
    (let e = foldl (exec_step (\<lambda>_. None)) e0
       [OpPrice ''T'' (Fin 10),
        OpTrade ''p'' ''T'' ''BUY'' (VFloat (Fin 1)) (VFloat (Fin 10)) (VFloat (Fin 1000)) (VFloat (Fin 1))
          \<lparr>wall = 0, utc_offset = None\<rparr> VNone]
     in exec_wf e \<and> cash_real e = 1000 + (\<Sum>fl\<leftarrow>trade_log e. fill_cash fl) \<and>
        pos_real e ''T'' = log_position (trade_log e) ''T'')"
proof -
  obtain e0 where e0: "make_executor (Fin 1000) [''T''] (Fin 2) (Fin 0) None [] [] (Fin 0) None = Inr e0"
    by (simp add: make_executor_def zero_Fin)
  then have "exec_wf e0"
    by (auto simp: make_executor_def zero_Fin exec_wf_def all_finite_def init_dict_def)
  from broker_ledger [OF e0 this, of "[OpPrice ''T'' (Fin 10),
        OpTrade ''p'' ''T'' ''BUY'' (VFloat (Fin 1)) (VFloat (Fin 10)) (VFloat (Fin 1000)) (VFloat (Fin 1))
          \<lparr>wall = 0, utc_offset = None\<rparr> VNone]" "\<lambda>_. None" "''T''"]
  have "let e = foldl (exec_step (\<lambda>_. None)) e0
       [OpPrice ''T'' (Fin 10),
        OpTrade ''p'' ''T'' ''BUY'' (VFloat (Fin 1)) (VFloat (Fin 10)) (VFloat (Fin 1000)) (VFloat (Fin 1))
          \<lparr>wall = 0, utc_offset = None\<rparr> VNone]
     in exec_wf e \<and> cash_real e = 1000 + (\<Sum>fl\<leftarrow>trade_log e. fill_cash fl) \<and>
        pos_real e ''T'' = log_position (trade_log e) ''T''"
    by (simp only: list.pred_inject op_ok.simps float_arg_iff isfinite.simps simp_thms)
  with e0 show ?thesis by blast
qed

end
