(* ===== verification/Trade_Pairing_Books.thy ===== *)
theory Trade_Pairing_Books
  imports Trade_Pairing
begin

text \<open>
  The books of the FIFO pairing: what one fill does to the open lots of its ticker, and
  the accounting identities every fill keeps. A lot's net, cost and fees are its signed
  quantity, its signed quantity at its entry price, and the entry fees still to be reported.
\<close>

section \<open>Well-formed lots and fills\<close>

definition lot_ok :: "lot \<Rightarrow> bool" where
  "lot_ok l \<longleftrightarrow> isfinite (l_quantity l) \<and> isfinite (l_price l) \<and> isfinite (l_fee l) \<and>
     (l_direction l = 1 \<or> l_direction l = -1) \<and> eps < realval (l_quantity l)"

definition nfill_ok :: "nfill \<Rightarrow> bool" where
  "nfill_ok f \<longleftrightarrow> isfinite (n_quantity f) \<and> isfinite (n_price f) \<and> isfinite (n_fee f) \<and>
     (n_direction f = 1 \<or> n_direction f = -1) \<and> eps < realval (n_quantity f)"

definition whole :: "pyfloat \<Rightarrow> bool" where
  "whole x \<longleftrightarrow> realval x \<in> \<int>"

definition lot_net :: "lot \<Rightarrow> real" where
  "lot_net l = real_of_int (l_direction l) * realval (l_quantity l)"

definition lot_cost :: "lot \<Rightarrow> real" where
  "lot_cost l = lot_net l * realval (l_price l)"

definition lot_fee :: "lot \<Rightarrow> real" where
  "lot_fee l = realval (l_quantity l) * realval (l_fee l)"

definition fill_net :: "nfill \<Rightarrow> real" where
  "fill_net f = real_of_int (n_direction f) * realval (n_quantity f)"

lemma eps_pos [simp]: "0 < eps" "0 \<le> eps" "\<not> eps < 0" "eps < 1"
  by (simp_all add: eps_def)

lemma lot_ok_reals:
  assumes "lot_ok l"
  obtains q p c where "l_quantity l = Fin q" "l_price l = Fin p" "l_fee l = Fin c" "eps < q" "0 < q"
  using assms eps_pos(1) by (auto simp: lot_ok_def isfinite_iff intro: that dest: less_trans)

lemma nfill_ok_reals:
  assumes "nfill_ok f"
  obtains q p c where "n_quantity f = Fin q" "n_price f = Fin p" "n_fee f = Fin c" "eps < q"
  using assms by (auto simp: nfill_ok_def isfinite_iff)

section \<open>The matching loop\<close>

lemma close_stop: "l_direction l = n_direction f \<or> \<not> r > Fin eps \<Longrightarrow> close_lots f (l # ls) r = ([], l # ls, r)"
  by (auto simp: close_lots.simps(2))

lemma close_done [simp]: "r \<le> eps \<Longrightarrow> close_lots f ls (Fin r) = ([], ls, Fin r)"
  by (cases ls) (auto simp: close_stop)

lemma close_match:
  assumes "l_quantity l = Fin q" "l_direction l \<noteq> n_direction f" "eps < r" "0 < q"
  shows "close_lots f (l # ls) (Fin r) =
    (if q \<le> r then (let rest = close_lots f ls (Fin (r - q)) in (round_trip l f (Fin q) # fst rest, snd rest))
     else if q - r \<le> eps then ([round_trip l f (Fin r)], ls, Fin 0)
     else ([round_trip l f (Fin r)], l\<lparr>l_quantity := Fin (q - r)\<rparr> # ls, Fin 0))"
  using assms by (simp add: close_lots.simps(2) Let_def)

definition opens :: "real \<Rightarrow> real" where
  "opens r = (if eps < r then r else 0)"

lemma nfill_dir: "nfill_ok f \<Longrightarrow> n_direction f = 1 \<or> n_direction f = -1"
  by (simp add: nfill_ok_def)

lemma opens_err: "nfill_ok f \<Longrightarrow> 0 \<le> r \<Longrightarrow> \<bar>real_of_int (n_direction f) * r - real_of_int (n_direction f) * opens r\<bar> \<le> eps"
  using nfill_dir [of f] by (auto simp: opens_def)

text \<open>What one fill does to a one-sided book: the remainder is nonnegative, what stays is
  the book's newest lots, and the signed quantity is conserved up to the tolerance.\<close>

lemma close_lots_net:
  assumes "list_all lot_ok ls" "\<forall>l\<in>set ls. l_direction l = d" "nfill_ok f" "0 \<le> r"
    and "close_lots f ls (Fin r) = (rows, ls', r')"
  shows "\<exists>x. r' = Fin x \<and> 0 \<le> x \<and> x \<le> r \<and> list_all lot_ok ls' \<and> (\<forall>l\<in>set ls'. l_direction l = d) \<and>
    (eps < x \<longrightarrow> ls' = [] \<or> d = n_direction f) \<and>
    \<bar>(\<Sum>l\<leftarrow>ls. lot_net l) + real_of_int (n_direction f) * r - (\<Sum>l\<leftarrow>ls'. lot_net l) - real_of_int (n_direction f) * opens x\<bar> \<le> eps \<and>
    (\<exists>k. map l_index ls' = drop k (map l_index ls))"
  using assms
proof (induction ls arbitrary: r rows)
  case Nil
  have "rows = []" "ls' = []" "r' = Fin r" using Nil.prems(5) by (simp_all add: close_lots.simps(1))
  with Nil opens_err [OF assms(3)] show ?case by (intro exI [of _ r]) simp
next
  case (Cons l ls)
  from Cons.prems(1) have "lot_ok l" by simp
  then obtain q p c where l: "l_quantity l = Fin q" "l_price l = Fin p" "l_fee l = Fin c" "eps < q" "0 < q"
    by (rule lot_ok_reals)
  show ?case
  proof (cases "eps < r \<and> l_direction l \<noteq> n_direction f")
    case False
    then have "close_lots f (l # ls) (Fin r) = ([], l # ls, Fin r)" by (auto simp: close_stop)
    then have "rows = []" "ls' = l # ls" "r' = Fin r" using Cons.prems(5) by simp_all
    moreover have "eps < r \<longrightarrow> d = n_direction f" using False Cons.prems(2) by simp
    ultimately show ?thesis using Cons.prems(1,2,4) opens_err [OF assms(3) Cons.prems(4)]
      by (intro exI [of _ r]) (simp add: exI [of _ 0])
  next
    case True
    then have opp: "l_direction l = - n_direction f"
      using Cons.prems(1,3) by (auto simp: lot_ok_def nfill_ok_def)
    have net: "lot_net l = - real_of_int (n_direction f) * q" by (simp add: lot_net_def opp l(1))
    note match = close_match [OF l(1), of f r ls]
    consider (pop) "q \<le> r" | (dust) "r < q" "q - r \<le> eps" | (part) "r < q" "eps < q - r" by linarith
    then show ?thesis
    proof cases
      case pop
      obtain rows2 where rest: "close_lots f ls (Fin (r - q)) = (rows2, ls', r')"
        using Cons.prems(5) match True l pop
        by (cases "close_lots f ls (Fin (r - q))") (auto simp: Let_def)
      have "list_all lot_ok ls" "\<forall>l\<in>set ls. l_direction l = d" "0 \<le> r - q"
        using Cons.prems(1,2) pop by auto
      from Cons.IH [OF this(1,2) Cons.prems(3) this(3) rest] obtain x k where
        "r' = Fin x" "0 \<le> x" "x \<le> r - q" "list_all lot_ok ls'" "\<forall>l\<in>set ls'. l_direction l = d"
        "eps < x \<longrightarrow> ls' = [] \<or> d = n_direction f"
        "\<bar>(\<Sum>l\<leftarrow>ls. lot_net l) + real_of_int (n_direction f) * (r - q) - (\<Sum>l\<leftarrow>ls'. lot_net l) - real_of_int (n_direction f) * opens x\<bar> \<le> eps"
        "map l_index ls' = drop k (map l_index ls)" by blast
      with l(5) net show ?thesis
        by (intro exI [of _ x]) (auto simp: right_diff_distrib intro!: exI [of _ "Suc k"])
    next
      case dust
      with match True l Cons.prems(5) have r: "ls' = ls" "r' = Fin 0" by simp_all
      have "\<bar>real_of_int (n_direction f) * r - real_of_int (n_direction f) * q\<bar> \<le> eps" using dust nfill_dir [OF assms(3)] by auto
      with r Cons.prems(1,2,4) net show ?thesis
        by (intro exI [of _ 0]) (simp add: opens_def exI [of _ "Suc 0"])
    next
      case part
      with match True l Cons.prems(5) have r: "ls' = l\<lparr>l_quantity := Fin (q - r)\<rparr> # ls" "r' = Fin 0"
        by simp_all
      have "lot_net (l\<lparr>l_quantity := Fin (q - r)\<rparr>) = - real_of_int (n_direction f) * (q - r)"
        by (simp add: lot_net_def opp)
      moreover have "lot_ok (l\<lparr>l_quantity := Fin (q - r)\<rparr>)" using Cons.prems(1) part by (simp add: lot_ok_def)
      ultimately show ?thesis using r Cons.prems(1,2,4) net
        by (intro exI [of _ 0]) (simp add: opens_def exI [of _ 0] right_diff_distrib)
    qed
  qed
qed

text \<open>Whole-number books lose nothing, and the realised profit and the fees account for
  every share matched.\<close>

lemma whole_gap: "q \<in> \<int> \<Longrightarrow> r \<in> \<int> \<Longrightarrow> r < q \<Longrightarrow> eps < q - (r::real)"
  by (auto simp: Ints_def simp flip: of_int_diff intro: less_le_trans [OF eps_pos(4)])

lemma close_lots_exact:
  fixes r :: real
  assumes "list_all lot_ok ls" "\<forall>l\<in>set ls. l_direction l = d" "nfill_ok f"
    and "list_all (\<lambda>l. whole (l_quantity l)) ls" "r \<in> \<int>" "0 \<le> r"
    and "close_lots f ls (Fin r) = (rows, ls', r')"
  shows "\<exists>x. r' = Fin x \<and> x \<in> \<int> \<and> 0 \<le> x \<and> list_all (\<lambda>l. whole (l_quantity l)) ls' \<and>
    (\<Sum>l\<leftarrow>ls'. lot_net l) = (\<Sum>l\<leftarrow>ls. lot_net l) + n_direction f * (r - x) \<and>
    (\<Sum>w\<leftarrow>rows. realval (pnl w)) = (\<Sum>l\<leftarrow>ls'. lot_cost l) - (\<Sum>l\<leftarrow>ls. lot_cost l)
       - n_direction f * (r - x) * realval (n_price f) \<and>
    (\<Sum>w\<leftarrow>rows. realval (row_fees w)) = (\<Sum>l\<leftarrow>ls. lot_fee l) - (\<Sum>l\<leftarrow>ls'. lot_fee l)
       + (r - x) * realval (n_fee f)"
  using assms
proof (induction ls arbitrary: r rows)
  case Nil
  then show ?case by (auto simp: close_lots.simps(1))
next
  case (Cons l ls)
  from Cons.prems(1) have "lot_ok l" by simp
  then obtain q p c where l: "l_quantity l = Fin q" "l_price l = Fin p" "l_fee l = Fin c" "eps < q" "0 < q"
    by (rule lot_ok_reals)
  obtain fp fc where f: "n_price f = Fin fp" "n_fee f = Fin fc"
    using Cons.prems(3) by (auto simp: nfill_ok_def isfinite_iff)
  have q: "q \<in> \<int>" using Cons.prems(4) l(1) by (simp add: whole_def)
  show ?case
  proof (cases "eps < r \<and> l_direction l \<noteq> n_direction f")
    case False
    then have "close_lots f (l # ls) (Fin r) = ([], l # ls, Fin r)" by (auto simp: close_stop)
    with Cons.prems(4-7) show ?thesis by (auto intro!: exI [of _ r])
  next
    case True
    then have opp: "l_direction l = - n_direction f"
      using Cons.prems(1,3) by (auto simp: lot_ok_def nfill_ok_def)
    have lot: "lot_net l = - real_of_int (n_direction f) * q"
      "lot_cost l = - real_of_int (n_direction f) * q * p" "lot_fee l = q * c"
      by (simp_all add: lot_net_def lot_cost_def lot_fee_def opp l)
    note match = close_match [OF l(1), of f r ls]
    show ?thesis
    proof (cases "q \<le> r")
      case True
      obtain rows2 where rest: "close_lots f ls (Fin (r - q)) = (rows2, ls', r')"
        and rows: "rows = round_trip l f (Fin q) # rows2"
        using Cons.prems(7) match True l \<open>eps < r \<and> l_direction l \<noteq> n_direction f\<close>
        by (cases "close_lots f ls (Fin (r - q))") (auto simp: Let_def)
      have "list_all lot_ok ls" "\<forall>l\<in>set ls. l_direction l = d" "list_all (\<lambda>l. whole (l_quantity l)) ls"
        "r - q \<in> \<int>" "0 \<le> r - q"
        using Cons.prems(1,2,4,5) True q by auto
      from Cons.IH [OF this(1,2) Cons.prems(3) this(3-5) rest] obtain x where
        x: "r' = Fin x" "x \<in> \<int>" "0 \<le> x" "list_all (\<lambda>l. whole (l_quantity l)) ls'"
        and sums: "(\<Sum>l\<leftarrow>ls'. lot_net l) = (\<Sum>l\<leftarrow>ls. lot_net l) + n_direction f * (r - q - x)"
        "(\<Sum>w\<leftarrow>rows2. realval (pnl w)) = (\<Sum>l\<leftarrow>ls'. lot_cost l) - (\<Sum>l\<leftarrow>ls. lot_cost l)
          - n_direction f * (r - q - x) * realval (n_price f)"
        "(\<Sum>w\<leftarrow>rows2. realval (row_fees w)) = (\<Sum>l\<leftarrow>ls. lot_fee l) - (\<Sum>l\<leftarrow>ls'. lot_fee l)
          + (r - q - x) * realval (n_fee f)" by blast
      have row: "realval (pnl (round_trip l f (Fin q))) = (fp - p) * q * - real_of_int (n_direction f)"
        "realval (row_fees (round_trip l f (Fin q))) = q * (c + fc)"
        by (simp_all add: round_trip_def Let_def dir_float_def opp l f)
      from x sums row show ?thesis
        by (intro exI [of _ x]) (simp add: rows lot f algebra_simps)
    next
      case False
      with whole_gap [OF q Cons.prems(5)] match l \<open>eps < r \<and> l_direction l \<noteq> n_direction f\<close> Cons.prems(7)
      have r: "rows = [round_trip l f (Fin r)]" "ls' = l\<lparr>l_quantity := Fin (q - r)\<rparr> # ls" "r' = Fin 0"
        by simp_all
      have row: "realval (pnl (round_trip l f (Fin r))) = (fp - p) * r * - real_of_int (n_direction f)"
        "realval (row_fees (round_trip l f (Fin r))) = r * (c + fc)"
        by (simp_all add: round_trip_def Let_def dir_float_def opp l f)
      have lot': "lot_net (l\<lparr>l_quantity := Fin (q - r)\<rparr>) = - real_of_int (n_direction f) * (q - r)"
        "lot_cost (l\<lparr>l_quantity := Fin (q - r)\<rparr>) = - real_of_int (n_direction f) * (q - r) * p"
        "lot_fee (l\<lparr>l_quantity := Fin (q - r)\<rparr>) = (q - r) * c"
        by (simp_all add: lot_net_def lot_cost_def lot_fee_def opp l)
      have "list_all (\<lambda>l. whole (l_quantity l)) ls'" using r Cons.prems(4,5) q by (simp add: whole_def)
      moreover have "(\<Sum>l\<leftarrow>ls'. lot_net l) = (\<Sum>l\<leftarrow>l # ls. lot_net l) + n_direction f * (r - 0)"
        by (simp add: r(2) lot(1) lot'(1) right_diff_distrib)
      moreover have "(\<Sum>w\<leftarrow>rows. realval (pnl w)) = (\<Sum>l\<leftarrow>ls'. lot_cost l) - (\<Sum>l\<leftarrow>l # ls. lot_cost l)
          - n_direction f * (r - 0) * realval (n_price f)"
        by (simp add: r(1,2) lot(2) lot'(2) row(1) f(1) left_diff_distrib right_diff_distrib)
      moreover have "(\<Sum>w\<leftarrow>rows. realval (row_fees w)) = (\<Sum>l\<leftarrow>l # ls. lot_fee l) - (\<Sum>l\<leftarrow>ls'. lot_fee l)
          + (r - 0) * realval (n_fee f)"
        by (simp add: r(1,2) lot(3) lot'(3) row(2) f(2) left_diff_distrib distrib_left)
      ultimately show ?thesis using r(3) by (intro exI [of _ 0]) simp
    qed
  qed
qed

lemma close_lots_symbol: "w \<in> set (fst (close_lots f ls r)) \<Longrightarrow> symbol w = n_ticker f \<and> exit_date w = Some (n_day f)"
proof (induction f ls r rule: close_lots.induct)
  case (2 f l ls r)
  show ?case
  proof (cases "r > Fin eps \<and> l_direction l \<noteq> n_direction f")
    case True
    with 2(2) 2(1) [OF True refl refl] show ?thesis
      unfolding close_lots.simps(2) [of f l ls r] by (auto simp: Let_def round_trip_def)
  next
    case False
    with 2(2) show ?thesis by (simp add: close_lots.simps(2) [of f l ls r])
  qed
qed (simp add: close_lots.simps(1))

text \<open>First in, first out: the matched lots, then those that stay, are in the book's order.\<close>

lemma close_lots_fifo:
  assumes "sorted (map l_day ls)" and "close_lots f ls r = (rows, ls', r')"
  shows "sorted (map entry_date rows @ map l_day ls') \<and>
    entry_date ` set rows \<union> l_day ` set ls' \<subseteq> l_day ` set ls"
  using assms
proof (induction f ls r arbitrary: rows rule: close_lots.induct)
  case (1 f r)
  then show ?case by (simp add: close_lots.simps(1))
next
  case (2 f l ls r)
  show ?case
  proof (cases "r > Fin eps \<and> l_direction l \<noteq> n_direction f")
    case False
    then have "close_lots f (l # ls) r = ([], l # ls, r)" by (simp only: close_lots.simps(2) if_False)
    with 2(2,3) show ?thesis by auto
  next
    case True
    define left where "left = l_quantity l - py_min r (l_quantity l)"
    let ?ls = "if left \<le> Fin eps then ls else l\<lparr>l_quantity := left\<rparr> # ls"
    define R where "R = close_lots f ?ls (r - py_min r (l_quantity l))"
    have "close_lots f (l # ls) r = (round_trip l f (py_min r (l_quantity l)) # fst R, snd R)"
      using True by (simp only: close_lots.simps(2) simp_thms if_True Let_def R_def left_def)
    with 2(3) have rows: "rows = round_trip l f (py_min r (l_quantity l)) # fst R" and "snd R = (ls', r')"
      by simp_all
    then have rest: "close_lots f ?ls (r - py_min r (l_quantity l)) = (fst R, ls', r')"
      unfolding R_def by (metis prod.collapse)
    have "sorted (map l_day ?ls)" using 2(2) by simp
    from 2(1) [OF True refl refl, folded left_def, OF this rest] rows 2(2) show ?thesis
      by (force simp: round_trip_def Let_def split: if_splits)
  qed
qed

end
