(* ===== verification/Trade_Pairing_Claims.thy ===== *)
theory Trade_Pairing_Claims
  imports Trade_Pairing_Books "HOL-Library.Multiset"
begin

text \<open>
  The whole run of the pairing: the invariant of the books over any list of fills, the
  rows of one ticker, and the properties of \<open>pair_fills\<close>.
\<close>

section \<open>Invariant of the books\<close>

definition book_inv :: "books \<Rightarrow> bool" where
  "book_inv s \<longleftrightarrow> distinct (map fst (open_lots s)) \<and>
     (\<forall>t. list_all lot_ok (lots_of s t) \<and> (\<exists>d. \<forall>l\<in>set (lots_of s t). l_direction l = d) \<and>
          sorted (map l_index (lots_of s t)) \<and> (\<forall>l\<in>set (lots_of s t). l_index l < open_index s))"

definition fresh_lots :: "books \<Rightarrow> nfill \<Rightarrow> pyfloat \<Rightarrow> lot list" where
  "fresh_lots s f r = (if r > Fin eps
     then [\<lparr>l_direction = n_direction f, l_quantity = r, l_price = n_price f, l_day = n_day f,
            l_fee = n_fee f, l_index = open_index s\<rparr>] else [])"

lemma pair_step_effect:
  assumes "close_lots f (lots_of s (n_ticker f)) (n_quantity f) = (rows, ls, r)"
  shows "lots_of (pair_step s f) t = (if t = n_ticker f then ls @ fresh_lots s f r else lots_of s t)"
    and "closed (pair_step s f) = closed s @ rows"
    and "distinct (map fst (open_lots s)) \<Longrightarrow> distinct (map fst (open_lots (pair_step s f)))"
    and "open_index (pair_step s f) = open_index s + length (fresh_lots s f r)"
  using assms by (auto simp: pair_step_def Let_def lots_of_def fresh_lots_def)

lemma fresh_lots_ok:
  assumes "nfill_ok f"
  shows "list_all lot_ok (fresh_lots s f (Fin x))"
    and "\<And>l. l \<in> set (fresh_lots s f (Fin x)) \<Longrightarrow> l_direction l = n_direction f \<and> l_index l = open_index s \<and> l_day l = n_day f"
    and "(\<Sum>l\<leftarrow>fresh_lots s f (Fin x). lot_net l) = n_direction f * opens x"
  using assms by (auto simp: fresh_lots_def lot_ok_def nfill_ok_def opens_def lot_net_def)

lemma fresh_lots_whole:
  fixes x :: real
  assumes "x \<in> \<int>" "0 \<le> x"
  shows "list_all (\<lambda>l. whole (l_quantity l)) (fresh_lots s f (Fin x))"
    and "(\<Sum>l\<leftarrow>fresh_lots s f (Fin x). lot_cost l) = n_direction f * x * realval (n_price f)"
    and "(\<Sum>l\<leftarrow>fresh_lots s f (Fin x). lot_fee l) = x * realval (n_fee f)"
    and "opens x = x"
proof -
  have "x = 0 \<or> eps < x" using whole_gap [OF assms(1), of 0] assms(2) by force
  then show "list_all (\<lambda>l. whole (l_quantity l)) (fresh_lots s f (Fin x))"
    "(\<Sum>l\<leftarrow>fresh_lots s f (Fin x). lot_cost l) = n_direction f * x * realval (n_price f)"
    "(\<Sum>l\<leftarrow>fresh_lots s f (Fin x). lot_fee l) = x * realval (n_fee f)" "opens x = x"
    using assms(1) by (auto simp: fresh_lots_def whole_def lot_cost_def lot_net_def lot_fee_def opens_def)
qed

lemma book_step:
  assumes inv: "book_inv s" and f: "nfill_ok f"
  shows "book_inv (pair_step s f)"
    and "\<bar>((\<Sum>l\<leftarrow>lots_of (pair_step s f) t. lot_net l) - (\<Sum>l\<leftarrow>lots_of s t. lot_net l))
      - (if n_ticker f = t then fill_net f else 0)\<bar> \<le> (if n_ticker f = t then eps else 0)"
proof -
  let ?t = "n_ticker f"
  obtain q where q: "n_quantity f = Fin q" "eps < q" using f by (auto elim: nfill_ok_reals)
  then have q0: "0 \<le> q" using eps_pos(1) by linarith
  obtain rows ls r where cl: "close_lots f (lots_of s ?t) (Fin q) = (rows, ls, r)"
    by (cases "close_lots f (lots_of s ?t) (Fin q)")
  note eff = pair_step_effect [OF cl [folded q(1)]]
  have "\<exists>d. \<forall>l\<in>set (lots_of s ?t). l_direction l = d" using inv by (simp add: book_inv_def)
  then obtain d where "\<forall>l\<in>set (lots_of s ?t). l_direction l = d" by (elim exE)
  moreover have "list_all lot_ok (lots_of s ?t)" using inv by (simp add: book_inv_def)
  ultimately have d: "list_all lot_ok (lots_of s ?t)" "\<forall>l\<in>set (lots_of s ?t). l_direction l = d" by simp_all
  from close_lots_net [OF d f q0 cl] obtain x k where x: "r = Fin x" "0 \<le> x" "list_all lot_ok ls"
    "\<forall>l\<in>set ls. l_direction l = d" "eps < x \<longrightarrow> ls = [] \<or> d = n_direction f"
    "\<bar>(\<Sum>l\<leftarrow>lots_of s ?t. lot_net l) + real_of_int (n_direction f) * q - (\<Sum>l\<leftarrow>ls. lot_net l)
       - real_of_int (n_direction f) * opens x\<bar> \<le> eps"
    "map l_index ls = drop k (map l_index (lots_of s ?t))" by blast
  show "\<bar>((\<Sum>l\<leftarrow>lots_of (pair_step s f) t. lot_net l) - (\<Sum>l\<leftarrow>lots_of s t. lot_net l))
      - (if n_ticker f = t then fill_net f else 0)\<bar> \<le> (if n_ticker f = t then eps else 0)"
    using x(6) by (auto simp: eff(1) x(1) fresh_lots_ok(3) [OF f] fill_net_def q(1))
  have fresh: "list_all lot_ok (fresh_lots s f r)" using fresh_lots_ok(1) [OF f] x(1) by simp
  have side: "\<exists>d. \<forall>l\<in>set (ls @ fresh_lots s f r). l_direction l = d"
  proof (cases "ls = [] \<or> fresh_lots s f r = []")
    case True
    then show ?thesis using x(1,4) fresh_lots_ok(2) [OF f] by auto
  next
    case False
    then have "d = n_direction f" using x(1,5) by (auto simp: fresh_lots_def split: if_splits)
    with x(1,4) show ?thesis using fresh_lots_ok(2) [OF f] by (intro exI [of _ d]) auto
  qed
  have "sorted (map l_index (lots_of s ?t))" "\<forall>l\<in>set (lots_of s ?t). l_index l < open_index s"
    using inv by (auto simp: book_inv_def)
  moreover have "l_index ` set ls \<subseteq> l_index ` set (lots_of s ?t)"
    using x(7) by (metis list.set_map set_drop_subset)
  ultimately have idx: "sorted (map l_index ls)" "\<forall>l\<in>set ls. l_index l < open_index s"
    using x(7) by (auto simp: sorted_wrt_drop)
  then have idx2: "sorted (map l_index (ls @ fresh_lots s f r))"
    "\<forall>l\<in>set (ls @ fresh_lots s f r). l_index l < open_index s + length (fresh_lots s f r)"
    by (auto simp: fresh_lots_def sorted_append)
  show "book_inv (pair_step s f)"
    using inv x(3) fresh side idx2 by (auto simp: book_inv_def eff intro: trans_less_add1)
qed

interpretation pairing: machine pair_step book_inv nfill_ok
  by unfold_locales (rule book_step(1))

lemma book_inv_empty [simp]: "book_inv no_books" "lots_of no_books t = []"
  by (simp_all add: book_inv_def no_books_def lots_of_def dict_or_def)

abbreviation pair_all :: "nfill list \<Rightarrow> books" where
  "pair_all fs \<equiv> foldl pair_step no_books fs"

lemma pair_all_inv: "list_all nfill_ok fs \<Longrightarrow> book_inv (pair_all fs)"
  by (rule pairing.run_inv) simp_all

text \<open>Each fill loses or gains at most the tolerance.\<close>

lemma pair_all_drift:
  "list_all nfill_ok fs \<Longrightarrow>
   \<bar>(\<Sum>l\<leftarrow>lots_of (pair_all fs) t. lot_net l) - (\<Sum>f\<leftarrow>filter (\<lambda>f. n_ticker f = t) fs. fill_net f)\<bar>
   \<le> eps * length (filter (\<lambda>f. n_ticker f = t) fs)"
proof (induction fs rule: rev_induct)
  case Nil
  then show ?case by simp
next
  case (snoc f fs)
  then have "book_inv (pair_all fs)" "nfill_ok f" by (simp_all add: pair_all_inv)
  from book_step(2) [OF this, of t] snoc show ?case
    by (cases "n_ticker f = t") (auto simp: abs_le_iff algebra_simps)
qed

text \<open>Whole-number fills: the books balance to the share, and to the cent.\<close>

lemma pair_step_exact:
  assumes inv: "book_inv s" and f: "nfill_ok f" and w: "whole (n_quantity f)"
    and ws: "\<forall>t. list_all (\<lambda>l. whole (l_quantity l)) (lots_of s t)"
  defines "same t \<equiv> n_ticker f = t"
  shows "list_all (\<lambda>l. whole (l_quantity l)) (lots_of (pair_step s f) t)"
    and "(\<Sum>l\<leftarrow>lots_of (pair_step s f) t. lot_net l) =
      (\<Sum>l\<leftarrow>lots_of s t. lot_net l) + (if same t then fill_net f else 0)"
    and "(\<Sum>v\<leftarrow>filter (\<lambda>v. symbol v = t) (closed (pair_step s f)). realval (pnl v)) =
      (\<Sum>v\<leftarrow>filter (\<lambda>v. symbol v = t) (closed s). realval (pnl v))
      + (\<Sum>l\<leftarrow>lots_of (pair_step s f) t. lot_cost l) - (\<Sum>l\<leftarrow>lots_of s t. lot_cost l)
      - (if same t then fill_net f * realval (n_price f) else 0)"
    and "(\<Sum>v\<leftarrow>filter (\<lambda>v. symbol v = t) (closed (pair_step s f)). realval (row_fees v))
        + (\<Sum>l\<leftarrow>lots_of (pair_step s f) t. lot_fee l) =
      (\<Sum>v\<leftarrow>filter (\<lambda>v. symbol v = t) (closed s). realval (row_fees v)) + (\<Sum>l\<leftarrow>lots_of s t. lot_fee l)
      + (if same t then realval (n_quantity f) * realval (n_fee f) else 0)"
proof -
  let ?t = "n_ticker f"
  obtain q where q: "n_quantity f = Fin q" "eps < q" using f by (auto elim: nfill_ok_reals)
  then have q0: "0 \<le> q" using eps_pos(1) by linarith
  have qi: "q \<in> \<int>" using w q(1) by (simp add: whole_def)
  obtain rows ls r where cl: "close_lots f (lots_of s ?t) (Fin q) = (rows, ls, r)"
    by (cases "close_lots f (lots_of s ?t) (Fin q)")
  note eff = pair_step_effect [OF cl [folded q(1)]]
  have "\<exists>d. \<forall>l\<in>set (lots_of s ?t). l_direction l = d" using inv by (simp add: book_inv_def)
  then obtain d where d: "\<forall>l\<in>set (lots_of s ?t). l_direction l = d" by (elim exE)
  have ok: "list_all lot_ok (lots_of s ?t)" using inv by (simp add: book_inv_def)
  from close_lots_exact [OF ok d f _ qi q0 cl] ws obtain x where x: "r = Fin x" "x \<in> \<int>" "0 \<le> x"
    "list_all (\<lambda>l. whole (l_quantity l)) ls"
    "(\<Sum>l\<leftarrow>ls. lot_net l) = (\<Sum>l\<leftarrow>lots_of s ?t. lot_net l) + n_direction f * (q - x)"
    "(\<Sum>w\<leftarrow>rows. realval (pnl w)) = (\<Sum>l\<leftarrow>ls. lot_cost l) - (\<Sum>l\<leftarrow>lots_of s ?t. lot_cost l)
       - n_direction f * (q - x) * realval (n_price f)"
    "(\<Sum>w\<leftarrow>rows. realval (row_fees w)) = (\<Sum>l\<leftarrow>lots_of s ?t. lot_fee l) - (\<Sum>l\<leftarrow>ls. lot_fee l)
       + (q - x) * realval (n_fee f)" by blast
  note fw = fresh_lots_whole [OF x(2,3)]
  have sym: "filter (\<lambda>v. symbol v = t) rows = (if same t then rows else [])"
    using close_lots_symbol [of _ f "lots_of s ?t" "Fin q"] by (auto simp: cl same_def filter_empty_conv filter_id_conv)
  show "list_all (\<lambda>l. whole (l_quantity l)) (lots_of (pair_step s f) t)"
    using ws x(4) fw(1) by (simp add: eff(1) x(1))
  show "(\<Sum>l\<leftarrow>lots_of (pair_step s f) t. lot_net l) =
      (\<Sum>l\<leftarrow>lots_of s t. lot_net l) + (if same t then fill_net f else 0)"
    using x(5) fw(4) by (auto simp: eff(1) x(1) fresh_lots_ok(3) [OF f] same_def fill_net_def q(1) right_diff_distrib)
  show "(\<Sum>v\<leftarrow>filter (\<lambda>v. symbol v = t) (closed (pair_step s f)). realval (pnl v)) =
      (\<Sum>v\<leftarrow>filter (\<lambda>v. symbol v = t) (closed s). realval (pnl v))
      + (\<Sum>l\<leftarrow>lots_of (pair_step s f) t. lot_cost l) - (\<Sum>l\<leftarrow>lots_of s t. lot_cost l)
      - (if same t then fill_net f * realval (n_price f) else 0)"
    using x(6) by (auto simp: eff(1,2) sym same_def x(1) fw(2) fill_net_def q(1) left_diff_distrib right_diff_distrib)
  show "(\<Sum>v\<leftarrow>filter (\<lambda>v. symbol v = t) (closed (pair_step s f)). realval (row_fees v))
        + (\<Sum>l\<leftarrow>lots_of (pair_step s f) t. lot_fee l) =
      (\<Sum>v\<leftarrow>filter (\<lambda>v. symbol v = t) (closed s). realval (row_fees v)) + (\<Sum>l\<leftarrow>lots_of s t. lot_fee l)
      + (if same t then realval (n_quantity f) * realval (n_fee f) else 0)"
    using x(7) by (auto simp: eff(1,2) sym same_def x(1) fw(3) q(1) left_diff_distrib)
qed

lemma pair_all_exact:
  assumes "list_all nfill_ok fs" "list_all (\<lambda>f. whole (n_quantity f)) fs"
  shows "(\<forall>t. list_all (\<lambda>l. whole (l_quantity l)) (lots_of (pair_all fs) t)) \<and>
    (\<Sum>l\<leftarrow>lots_of (pair_all fs) t. lot_net l) = (\<Sum>f\<leftarrow>filter (\<lambda>f. n_ticker f = t) fs. fill_net f) \<and>
    (\<Sum>v\<leftarrow>filter (\<lambda>v. symbol v = t) (closed (pair_all fs)). realval (pnl v)) =
      (\<Sum>l\<leftarrow>lots_of (pair_all fs) t. lot_cost l)
      - (\<Sum>f\<leftarrow>filter (\<lambda>f. n_ticker f = t) fs. fill_net f * realval (n_price f)) \<and>
    (\<Sum>v\<leftarrow>filter (\<lambda>v. symbol v = t) (closed (pair_all fs)). realval (row_fees v))
      + (\<Sum>l\<leftarrow>lots_of (pair_all fs) t. lot_fee l) =
      (\<Sum>f\<leftarrow>filter (\<lambda>f. n_ticker f = t) fs. realval (n_quantity f) * realval (n_fee f))"
  using assms
proof (induction fs rule: rev_induct)
  case Nil
  then show ?case by (simp add: no_books_def lots_of_def dict_or_def)
next
  case (snoc f fs)
  then have IH: "\<forall>t. list_all (\<lambda>l. whole (l_quantity l)) (lots_of (pair_all fs) t)"
    "(\<Sum>l\<leftarrow>lots_of (pair_all fs) t. lot_net l) = (\<Sum>f\<leftarrow>filter (\<lambda>f. n_ticker f = t) fs. fill_net f)"
    "(\<Sum>v\<leftarrow>filter (\<lambda>v. symbol v = t) (closed (pair_all fs)). realval (pnl v)) =
      (\<Sum>l\<leftarrow>lots_of (pair_all fs) t. lot_cost l)
      - (\<Sum>f\<leftarrow>filter (\<lambda>f. n_ticker f = t) fs. fill_net f * realval (n_price f))"
    "(\<Sum>v\<leftarrow>filter (\<lambda>v. symbol v = t) (closed (pair_all fs)). realval (row_fees v))
      + (\<Sum>l\<leftarrow>lots_of (pair_all fs) t. lot_fee l) =
      (\<Sum>f\<leftarrow>filter (\<lambda>f. n_ticker f = t) fs. realval (n_quantity f) * realval (n_fee f))"
    by simp_all
  from snoc.prems have "book_inv (pair_all fs)" "nfill_ok f" "whole (n_quantity f)" by (simp_all add: pair_all_inv)
  note st = pair_step_exact [OF this IH(1)]
  show ?case using st(1) st(2-4) [of t] IH(2-4) by (cases "n_ticker f = t") simp_all
qed

section \<open>Rows\<close>

text \<open>A closed row reports what its two legs realised.\<close>

definition realised :: "('a) row_scheme \<Rightarrow> bool" where
  "realised w \<longleftrightarrow> (\<exists>ep xp q. entry_price w = Fin ep \<and> exit_price w = Some (Fin xp) \<and> row_quantity w = Fin q \<and>
     eps < q \<and> exit_date w \<noteq> None \<and> (side w = ''long'' \<or> side w = ''short'') \<and>
     pnl w = Fin ((if side w = ''long'' then xp - ep else ep - xp) * q) \<and>
     return_pct w = Fin (if ep = 0 then 0 else (if side w = ''long'' then xp - ep else ep - xp) / ep) \<and>
     isfinite (row_fees w))"

lemma round_trip_realised:
  assumes "lot_ok l" "nfill_ok f" "eps < m"
  shows "realised (round_trip l f (Fin m))"
proof -
  obtain q p c where l: "l_quantity l = Fin q" "l_price l = Fin p" "l_fee l = Fin c"
    using assms(1) by (rule lot_ok_reals)
  obtain fq fp fc where f: "n_price f = Fin fp" "n_fee f = Fin fc"
    using assms(2) by (rule nfill_ok_reals)
  have "m \<noteq> 0" using assms(3) eps_pos(1) by linarith
  have "l_direction l = 1 \<or> l_direction l = -1" using assms(1) by (simp add: lot_ok_def)
  then show ?thesis using l f assms(3) \<open>m \<noteq> 0\<close>
    by (auto simp: realised_def round_trip_def Let_def dir_float_def side_of_def truediv_def zero_Fin minus_divide_left)
qed

lemma close_lots_realised:
  fixes r :: real
  assumes "list_all lot_ok ls" "nfill_ok f"
  shows "list_all realised (fst (close_lots f ls (Fin r)))"
  using assms
proof (induction ls arbitrary: r)
  case Nil
  then show ?case by (simp add: close_lots.simps(1))
next
  case (Cons l ls)
  from Cons.prems(1) have "lot_ok l" by simp
  then obtain q where l: "l_quantity l = Fin q" "eps < q" "0 < q"
    by (rule lot_ok_reals)
  show ?case
  proof (cases "eps < r \<and> l_direction l \<noteq> n_direction f")
    case False
    then show ?thesis by (auto simp: close_stop)
  next
    case True
    with Cons close_match [OF l(1), of f r ls] l show ?thesis
      by (simp add: Let_def round_trip_realised)
  qed
qed

lemma pair_all_realised: "list_all nfill_ok fs \<Longrightarrow> list_all realised (closed (pair_all fs))"
proof (induction fs rule: rev_induct)
  case Nil
  then show ?case by (simp add: no_books_def)
next
  case (snoc f fs)
  then have inv: "book_inv (pair_all fs)" and f: "nfill_ok f" by (simp_all add: pair_all_inv)
  obtain q where q: "n_quantity f = Fin q" using f by (auto elim: nfill_ok_reals)
  obtain rows ls r where cl: "close_lots f (lots_of (pair_all fs) (n_ticker f)) (Fin q) = (rows, ls, r)"
    by (cases "close_lots f (lots_of (pair_all fs) (n_ticker f)) (Fin q)")
  have "list_all lot_ok (lots_of (pair_all fs) (n_ticker f))" using inv by (simp add: book_inv_def)
  from close_lots_realised [OF this f, of q] snoc pair_step_effect(2) [OF cl [folded q]] cl
  show ?case by simp
qed

text \<open>Entry dates of a ticker, closed rows first: never decreasing when the fills come in
  calendar order.\<close>

definition entries :: "books \<Rightarrow> string \<Rightarrow> int list" where
  "entries s t = map entry_date (filter (\<lambda>w. symbol w = t) (closed s)) @ map l_day (lots_of s t)"

lemma sorted_append3:
  assumes "sorted A" "sorted B" "sorted (C :: int list)" "\<forall>x\<in>set A. \<forall>y\<in>set B. x \<le> y"
    "\<forall>x\<in>set A \<union> set B. \<forall>y\<in>set C. x \<le> y"
  shows "sorted (A @ B @ C)"
  using assms by (auto simp: sorted_append)

lemma pair_all_fifo:
  "sorted (map n_day fs) \<Longrightarrow>
   (\<forall>t. sorted (entries (pair_all fs) t) \<and> set (entries (pair_all fs) t) \<subseteq> n_day ` set fs) \<and>
   (\<forall>w\<in>set (closed (pair_all fs)). \<exists>x. exit_date w = Some x \<and> entry_date w \<le> x)"
proof (induction fs rule: rev_induct)
  case Nil
  then show ?case by (simp add: entries_def no_books_def lots_of_def dict_or_def)
next
  case (snoc f fs)
  let ?s = "pair_all fs" and ?t = "n_ticker f"
  have "sorted (map n_day fs)" and le: "\<forall>x\<in>n_day ` set fs. x \<le> n_day f"
    using snoc.prems by (auto simp: sorted_append)
  with snoc.IH have srt: "\<And>t. sorted (entries ?s t)" and sub: "\<And>t. set (entries ?s t) \<subseteq> n_day ` set fs"
    and cls: "\<forall>w\<in>set (closed ?s). \<exists>x. exit_date w = Some x \<and> entry_date w \<le> x" by simp_all
  obtain rows ls r where cl: "close_lots f (lots_of ?s ?t) (n_quantity f) = (rows, ls, r)"
    by (cases "close_lots f (lots_of ?s ?t) (n_quantity f)")
  note eff = pair_step_effect [OF cl]
  have sym: "symbol w = ?t" "exit_date w = Some (n_day f)" if "w \<in> set rows" for w
    using close_lots_symbol [of w f "lots_of ?s ?t" "n_quantity f"] that cl by simp_all
  have fl: "filter (\<lambda>w. symbol w = t) rows = (if t = ?t then rows else [])" for t
    using sym by (auto simp: filter_empty_conv filter_id_conv)
  have fresh: "set (map l_day (fresh_lots ?s f r)) \<subseteq> {n_day f}" "sorted (map l_day (fresh_lots ?s f r))"
    by (auto simp: fresh_lots_def)
  have "sorted (map l_day (lots_of ?s ?t))" using srt [of ?t] by (simp add: entries_def sorted_append)
  from close_lots_fifo [OF this cl]
  have fifo: "sorted (map entry_date rows @ map l_day ls)"
    "entry_date ` set rows \<union> l_day ` set ls \<subseteq> l_day ` set (lots_of ?s ?t)" by simp_all
  have days: "l_day ` set (lots_of ?s ?t) \<subseteq> n_day ` set fs" using sub [of ?t] by (simp add: entries_def)
  have new: "entries (pair_step ?s f) ?t = map entry_date (filter (\<lambda>w. symbol w = ?t) (closed ?s))
      @ (map entry_date rows @ map l_day ls) @ map l_day (fresh_lots ?s f r)"
    by (simp add: entries_def eff fl)
  let ?A = "map entry_date (filter (\<lambda>w. symbol w = ?t) (closed ?s))"
    and ?B = "map entry_date rows @ map l_day ls" and ?C = "map l_day (fresh_lots ?s f r)"
  have A: "sorted ?A" "\<forall>x\<in>set ?A. \<forall>y\<in>l_day ` set (lots_of ?s ?t). x \<le> y" "set ?A \<subseteq> n_day ` set fs"
    using srt [of ?t] sub [of ?t] by (simp_all add: entries_def sorted_append)
  have B: "set ?B \<subseteq> l_day ` set (lots_of ?s ?t)" using fifo(2) by simp
  have AB: "\<forall>x\<in>set ?A. \<forall>y\<in>set ?B. x \<le> y" using A(2) B by blast
  have ABC: "\<forall>x\<in>set ?A \<union> set ?B. \<forall>y\<in>set ?C. x \<le> y"
    using A(3) B days le fresh(1) by blast
  have "sorted (?A @ ?B @ ?C)"
    by (rule sorted_append3 [OF A(1) fifo(1) fresh(2) AB ABC])
  then have "sorted (entries (pair_step ?s f) ?t)" unfolding new .
  moreover have "entries (pair_step ?s f) t = entries ?s t" if "t \<noteq> ?t" for t
    using that by (simp add: entries_def eff fl)
  moreover have "set (entries (pair_step ?s f) ?t) \<subseteq> n_day ` set (fs @ [f])"
  proof -
    have "set ?B \<subseteq> n_day ` set fs" using B days by (rule order_trans)
    moreover have "n_day ` set (fs @ [f]) = insert (n_day f) (n_day ` set fs)" by simp
    ultimately show ?thesis unfolding new set_append using A(3) fresh(1) by (simp only:) blast
  qed
  moreover have "\<forall>w\<in>set rows. \<exists>x. exit_date w = Some x \<and> entry_date w \<le> x"
    using sym(2) fifo(2) days le by (simp add: image_subset_iff) fastforce
  ultimately have "sorted (entries (pair_step ?s f) t) \<and> set (entries (pair_step ?s f) t) \<subseteq> n_day ` set (fs @ [f])"
    and "\<forall>w\<in>set (closed (pair_step ?s f)). \<exists>x. exit_date w = Some x \<and> entry_date w \<le> x" for t
    using srt [of t] sub [of t] cls by (cases "t = ?t"; auto simp: eff(2))+
  then show ?case by simp
qed

section \<open>The rows of one ticker\<close>

lemma concat_ticker:
  "distinct (map fst d) \<Longrightarrow>
   filter (\<lambda>p. fst p = t) (concat (map (\<lambda>(u, ls). map (Pair u) ls) d)) = map (Pair t) (dict_or d t [])"
proof (induction d)
  case Nil
  then show ?case by (simp add: dict_or_def)
next
  case (Cons uls d)
  obtain u ls where uls: "uls = (u, ls)" by force
  have "dict_or d u [] = []" using Cons.prems uls by (force simp: dict_or_def dest: map_of_SomeD split: option.splits)
  moreover have "filter (\<lambda>p. fst p = t) (map (Pair u) ls) = (if u = t then map (Pair t) ls else [])"
    by (induction ls) auto
  ultimately show ?case using Cons uls by (auto simp: dict_or_def)
qed

lemma with_ticker_filter:
  assumes "book_inv s"
  shows "filter (\<lambda>p. fst p = t) (with_ticker (open_lots s)) = map (Pair t) (lots_of s t)"
proof -
  have "sorted (map (\<lambda>p. l_index (snd p)) (map (Pair t) (lots_of s t)))"
    using assms by (simp add: book_inv_def comp_def)
  then show ?thesis using assms
    by (simp add: with_ticker_def filter_sort concat_ticker book_inv_def lots_of_def sort_key_id_if_sorted)
qed

lemma ticker_rows:
  assumes "book_inv (pair_all fs)"
  shows "filter (\<lambda>w. symbol w = t) (pair_rows fs) =
    filter (\<lambda>w. symbol w = t) (closed (pair_all fs)) @ map (\<lambda>l. open_row (t, l)) (lots_of (pair_all fs) t)"
proof -
  have "filter (\<lambda>w. symbol w = t) (map open_row ps) = map open_row (filter (\<lambda>p. fst p = t) ps)" for ps
    by (induction ps) (auto simp: open_row_def split: prod.splits)
  then show ?thesis
    by (simp add: pair_rows_def Let_def with_ticker_filter [OF assms])
qed

definition number_rows :: "nat \<Rightarrow> row list \<Rightarrow> trade_row list" where
  "number_rows n rs = map (\<lambda>(i, r). row.extend r \<lparr>seq = i\<rparr>) (enumerate n rs)"

lemma extend_sel [simp]:
  "symbol (row.extend r m) = symbol r" "side (row.extend r m) = side r"
  "entry_date (row.extend r m) = entry_date r" "exit_date (row.extend r m) = exit_date r"
  "entry_price (row.extend r m) = entry_price r" "exit_price (row.extend r m) = exit_price r"
  "row_quantity (row.extend r m) = row_quantity r" "pnl (row.extend r m) = pnl r"
  "return_pct (row.extend r m) = return_pct r" "row_fees (row.extend r m) = row_fees r"
  "realised (row.extend r m) = realised r"
  by (simp_all add: row.extend_def realised_def)

lemma number_rows_map:
  assumes "\<And>r m. g (row.extend r m) = h r" "\<And>r m. P (row.extend r m) = Q r"
  shows "map g (filter P (number_rows n rs)) = map h (filter Q rs)"
  by (induction rs arbitrary: n) (simp_all add: number_rows_def assms)

lemma number_rows_seq: "map seq (number_rows n rs) = [n..<n + length rs]"
  by (induction rs arbitrary: n) (simp_all add: number_rows_def row.extend_def upt_rec)

lemma pair_fills_number:
  "normalise fparse fromiso zone fills = Inr fs \<Longrightarrow>
   pair_fills fparse fromiso zone fills = Inr (number_rows 0 (pair_rows fs))"
  by (simp add: pair_fills_def number_rows_def)

definition signed_quantity :: "('a) row_scheme \<Rightarrow> real" where
  "signed_quantity w = (if side w = ''long'' then 1 else -1) * realval (row_quantity w)"

lemma extend_signed [simp]: "signed_quantity (row.extend r m) = signed_quantity r"
  by (simp add: signed_quantity_def)

lemma open_row_reals:
  assumes "lot_ok l"
  shows "signed_quantity (open_row (t, l)) = lot_net l"
    "lot_net l * realval (entry_price (open_row (t, l))) = lot_cost l"
    "realval (row_fees (open_row (t, l))) = lot_fee l"
  using assms
  by (auto simp: lot_ok_def isfinite_iff signed_quantity_def open_row_def side_of_def lot_net_def
      lot_cost_def lot_fee_def)

lemma open_rows_sum:
  assumes "list_all lot_ok ls"
  shows "(\<Sum>w\<leftarrow>map (\<lambda>l. open_row (t, l)) ls. signed_quantity w) = (\<Sum>l\<leftarrow>ls. lot_net l)"
    "(\<Sum>w\<leftarrow>map (\<lambda>l. open_row (t, l)) ls. signed_quantity w * realval (entry_price w)) = (\<Sum>l\<leftarrow>ls. lot_cost l)"
    "(\<Sum>w\<leftarrow>map (\<lambda>l. open_row (t, l)) ls. realval (row_fees w)) = (\<Sum>l\<leftarrow>ls. lot_fee l)"
    "(\<Sum>w\<leftarrow>map (\<lambda>l. open_row (t, l)) ls. realval (pnl w)) = 0"
proof -
  have "pnl (open_row (t, l)) = Fin 0" for l by (simp add: open_row_def)
  then show "(\<Sum>w\<leftarrow>map (\<lambda>l. open_row (t, l)) ls. realval (pnl w)) = 0" by (induction ls) simp_all
  show "(\<Sum>w\<leftarrow>map (\<lambda>l. open_row (t, l)) ls. signed_quantity w) = (\<Sum>l\<leftarrow>ls. lot_net l)"
    using assms by (induction ls) (simp_all add: open_row_reals)
  show "(\<Sum>w\<leftarrow>map (\<lambda>l. open_row (t, l)) ls. signed_quantity w * realval (entry_price w)) = (\<Sum>l\<leftarrow>ls. lot_cost l)"
    using assms by (induction ls) (simp_all add: open_row_reals)
  show "(\<Sum>w\<leftarrow>map (\<lambda>l. open_row (t, l)) ls. realval (row_fees w)) = (\<Sum>l\<leftarrow>ls. lot_fee l)"
    using assms by (induction ls) (simp_all add: open_row_reals)
qed

lemma open_rows_filter:
  assumes "list_all realised (closed (pair_all fs))" "book_inv (pair_all fs)"
  shows "filter (\<lambda>w. symbol w = t \<and> exit_date w = None) (pair_rows fs) = map (\<lambda>l. open_row (t, l)) (lots_of (pair_all fs) t)"
proof -
  have "filter (\<lambda>w. symbol w = t \<and> exit_date w = None) (pair_rows fs) =
    filter (\<lambda>w. exit_date w = None) (filter (\<lambda>w. symbol w = t) (pair_rows fs))"
    by (simp add: conj_commute)
  also have "\<dots> = map (\<lambda>l. open_row (t, l)) (lots_of (pair_all fs) t)"
    using assms(1) by (auto simp: ticker_rows [OF assms(2)] filter_empty_conv list_all_iff realised_def
        filter_id_conv open_row_def)
  finally show ?thesis .
qed

lemma paired_sums:
  assumes "list_all nfill_ok fs"
  defines "rows \<equiv> number_rows 0 (pair_rows fs)"
  shows "(\<Sum>w\<leftarrow>filter (\<lambda>w. symbol w = t \<and> exit_date w = None) rows. signed_quantity w)
      = (\<Sum>l\<leftarrow>lots_of (pair_all fs) t. lot_net l)"
    and "(\<Sum>w\<leftarrow>filter (\<lambda>w. symbol w = t \<and> exit_date w = None) rows. signed_quantity w * realval (entry_price w))
      = (\<Sum>l\<leftarrow>lots_of (pair_all fs) t. lot_cost l)"
    and "(\<Sum>w\<leftarrow>filter (\<lambda>w. symbol w = t) rows. realval (pnl w)) =
      (\<Sum>w\<leftarrow>filter (\<lambda>w. symbol w = t) (closed (pair_all fs)). realval (pnl w))"
    and "(\<Sum>w\<leftarrow>filter (\<lambda>w. symbol w = t) rows. realval (row_fees w)) =
      (\<Sum>w\<leftarrow>filter (\<lambda>w. symbol w = t) (closed (pair_all fs)). realval (row_fees w))
      + (\<Sum>l\<leftarrow>lots_of (pair_all fs) t. lot_fee l)"
proof -
  note inv = pair_all_inv [OF assms(1)]
  have ok: "list_all lot_ok (lots_of (pair_all fs) t)" using inv by (simp add: book_inv_def)
  show "(\<Sum>w\<leftarrow>filter (\<lambda>w. symbol w = t \<and> exit_date w = None) rows. signed_quantity w)
      = (\<Sum>l\<leftarrow>lots_of (pair_all fs) t. lot_net l)"
    unfolding rows_def
    by (subst number_rows_map [where h = signed_quantity and Q = "\<lambda>w. symbol w = t \<and> exit_date w = None"])
      (simp_all only: extend_signed extend_sel open_rows_filter [OF pair_all_realised [OF assms(1)] inv]
        open_rows_sum(1) [OF ok])
  show "(\<Sum>w\<leftarrow>filter (\<lambda>w. symbol w = t \<and> exit_date w = None) rows. signed_quantity w * realval (entry_price w))
      = (\<Sum>l\<leftarrow>lots_of (pair_all fs) t. lot_cost l)"
    unfolding rows_def
    by (subst number_rows_map [where h = "\<lambda>w. signed_quantity w * realval (entry_price w)"
          and Q = "\<lambda>w. symbol w = t \<and> exit_date w = None"])
      (simp_all only: extend_signed extend_sel open_rows_filter [OF pair_all_realised [OF assms(1)] inv]
        open_rows_sum(2) [OF ok])
  show "(\<Sum>w\<leftarrow>filter (\<lambda>w. symbol w = t) rows. realval (pnl w)) =
      (\<Sum>w\<leftarrow>filter (\<lambda>w. symbol w = t) (closed (pair_all fs)). realval (pnl w))"
    unfolding rows_def
    by (subst number_rows_map [where h = "\<lambda>w. realval (pnl w)" and Q = "\<lambda>w. symbol w = t"])
      (simp_all add: ticker_rows [OF inv] open_rows_sum(4) [OF ok] del: map_map)
  show "(\<Sum>w\<leftarrow>filter (\<lambda>w. symbol w = t) rows. realval (row_fees w)) =
      (\<Sum>w\<leftarrow>filter (\<lambda>w. symbol w = t) (closed (pair_all fs)). realval (row_fees w))
      + (\<Sum>l\<leftarrow>lots_of (pair_all fs) t. lot_fee l)"
    unfolding rows_def
    by (subst number_rows_map [where h = "\<lambda>w. realval (row_fees w)" and Q = "\<lambda>w. symbol w = t"])
      (simp_all add: ticker_rows [OF inv] open_rows_sum(3) [OF ok] del: map_map)
qed

section \<open>Properties\<close>

text \<open>C32: shares are conserved. For any list of acceptable fills the signed quantity of a
  ticker's open rows is the signed quantity of its fills, up to the tolerance per fill, and
  exactly when the fills are whole shares.\<close>

theorem pairing_conserves_shares:
  assumes "normalise fparse fromiso zone fills = Inr fs" and "list_all nfill_ok fs"
  shows "\<exists>rows. pair_fills fparse fromiso zone fills = Inr rows \<and>
    (let open = (\<Sum>w\<leftarrow>filter (\<lambda>w. symbol w = t \<and> exit_date w = None) rows. signed_quantity w);
         filled = (\<Sum>f\<leftarrow>filter (\<lambda>f. n_ticker f = t) fs. fill_net f)
     in \<bar>open - filled\<bar> \<le> eps * length (filter (\<lambda>f. n_ticker f = t) fs) \<and>
        (list_all (\<lambda>f. whole (n_quantity f)) fs \<longrightarrow> open = filled))"
  using pair_all_drift [OF assms(2), of t] pair_all_exact [OF assms(2), of t] paired_sums(1) [OF assms(2), of t]
  by (simp add: pair_fills_number [OF assms(1)] Let_def)

definition demo_fills :: "raw_fill list" where
  "demo_fills =
     [[(''timestamp'', VDate 2), (''ticker'', VStr ''T''), (''signal_type'', VStr ''SELL''), (''shares'', VFloat (Fin 5)),
       (''fill_price'', VFloat (Fin 12)), (''fees'', VFloat (Fin 10))],
      [(''timestamp'', VDate 1), (''ticker'', VStr ''T''), (''signal_type'', VStr ''BUY''), (''shares'', VFloat (Fin 3)),
       (''fill_price'', VFloat (Fin 10))]]"

definition demo_nfills :: "nfill list" where
  "demo_nfills =
     [\<lparr>n_direction = 1, n_ticker = ''T'', n_quantity = Fin 3, n_price = Fin 10, n_day = 1, n_fee = Fin 0,
       n_key = (day_us, 1)\<rparr>,
      \<lparr>n_direction = -1, n_ticker = ''T'', n_quantity = Fin 5, n_price = Fin 12, n_day = 2, n_fee = Fin 2,
       n_key = (2 * day_us, 0)\<rparr>]"

lemma upper_sides_pair [simp]: "upper ''BUY'' = ''BUY''" "upper ''SELL'' = ''SELL''"
  by code_simp+

lemma demo_normalise: "normalise (\<lambda>_. None) (\<lambda>_. None) None demo_fills = Inr demo_nfills"
  by (simp add: normalise_def demo_fills_def demo_nfills_def normalise_one_def number_def raw_get_def
      dict_or_def ticker_of_def direction_of_def timestamp_of_def comparable_def day_of_def eps_def)

lemma demo_nfills_ok: "list_all nfill_ok demo_nfills" "list_all (\<lambda>f. whole (n_quantity f)) demo_nfills"
  "sorted (map n_day demo_nfills)"
  by (simp_all add: demo_nfills_def nfill_ok_def eps_def whole_def)

theorem pairing_conserves_shares_witness:
  "\<exists>rows. pair_fills (\<lambda>_. None) (\<lambda>_. None) None demo_fills = Inr rows \<and>
    (let open = (\<Sum>w\<leftarrow>filter (\<lambda>w. symbol w = ''T'' \<and> exit_date w = None) rows. signed_quantity w);
         filled = (\<Sum>f\<leftarrow>filter (\<lambda>f. n_ticker f = ''T'') demo_nfills. fill_net f)
     in \<bar>open - filled\<bar> \<le> eps * length (filter (\<lambda>f. n_ticker f = ''T'') demo_nfills) \<and>
        (list_all (\<lambda>f. whole (n_quantity f)) demo_nfills \<longrightarrow> open = filled))"
  by (rule pairing_conserves_shares [OF demo_normalise demo_nfills_ok(1)])

text \<open>money is conserved. For whole-share fills, the realised profit of a ticker's rows
  is what its fills brought in plus the open shares at their entry prices, and the fees of
  its rows are the fees of its fills.\<close>

theorem pairing_balances_cash:
  assumes "normalise fparse fromiso zone fills = Inr fs" and "list_all nfill_ok fs"
    and "list_all (\<lambda>f. whole (n_quantity f)) fs"
  shows "\<exists>rows. pair_fills fparse fromiso zone fills = Inr rows \<and>
    (\<Sum>w\<leftarrow>filter (\<lambda>w. symbol w = t) rows. realval (pnl w)) =
      (\<Sum>w\<leftarrow>filter (\<lambda>w. symbol w = t \<and> exit_date w = None) rows. signed_quantity w * realval (entry_price w))
      - (\<Sum>f\<leftarrow>filter (\<lambda>f. n_ticker f = t) fs. fill_net f * realval (n_price f)) \<and>
    (\<Sum>w\<leftarrow>filter (\<lambda>w. symbol w = t) rows. realval (row_fees w)) =
      (\<Sum>f\<leftarrow>filter (\<lambda>f. n_ticker f = t) fs. realval (n_quantity f) * realval (n_fee f))"
  using pair_all_exact [OF assms(2,3), of t] paired_sums [OF assms(2), of t]
  by (simp add: pair_fills_number [OF assms(1)])

theorem pairing_balances_cash_witness:
  "\<exists>rows. pair_fills (\<lambda>_. None) (\<lambda>_. None) None demo_fills = Inr rows \<and>
    (\<Sum>w\<leftarrow>filter (\<lambda>w. symbol w = ''T'') rows. realval (pnl w)) =
      (\<Sum>w\<leftarrow>filter (\<lambda>w. symbol w = ''T'' \<and> exit_date w = None) rows. signed_quantity w * realval (entry_price w))
      - (\<Sum>f\<leftarrow>filter (\<lambda>f. n_ticker f = ''T'') demo_nfills. fill_net f * realval (n_price f)) \<and>
    (\<Sum>w\<leftarrow>filter (\<lambda>w. symbol w = ''T'') rows. realval (row_fees w)) =
      (\<Sum>f\<leftarrow>filter (\<lambda>f. n_ticker f = ''T'') demo_nfills. realval (n_quantity f) * realval (n_fee f))"
  by (rule pairing_balances_cash [OF demo_normalise demo_nfills_ok(1,2)])

text \<open>the rows are well formed. They are numbered from zero without gaps, the closed
  rows come first, a closed row's profit and return are those of its two legs, an open row
  has realised nothing, and no ticker is left open on both sides.\<close>

theorem pairing_rows_shape:
  assumes "normalise fparse fromiso zone fills = Inr fs" and "list_all nfill_ok fs"
  shows "\<exists>rows n. pair_fills fparse fromiso zone fills = Inr rows \<and>
    map seq rows = [0..<length rows] \<and> list_all realised (take n rows) \<and>
    list_all (\<lambda>w. exit_date w = None \<and> exit_price w = None \<and> pnl w = Fin 0 \<and> return_pct w = Fin 0) (drop n rows) \<and>
    (\<exists>s. \<forall>w\<in>set (drop n rows). symbol w = t \<longrightarrow> side w = s)"
proof -
  note inv = pair_all_inv [OF assms(2)]
  let ?c = "closed (pair_all fs)" and ?o = "map open_row (with_ticker (open_lots (pair_all fs)))"
  have split: "number_rows 0 (pair_rows fs) = number_rows 0 ?c @ number_rows (length ?c) ?o"
    by (simp add: pair_rows_def Let_def number_rows_def enumerate_append_eq)
  have len: "length (number_rows n rs) = length rs" for n rs by (simp add: number_rows_def)
  have mem: "\<exists>r m. r \<in> set rs \<and> w = row.extend r m" if "w \<in> set (number_rows n rs)" for w n rs
    using that by (auto simp: number_rows_def enumerate_eq_zip dest: set_zip_rightD)
  have real: "list_all realised (number_rows 0 ?c)"
    using pair_all_realised [OF assms(2)] mem [of _ 0 ?c] by (fastforce simp: list_all_iff)
  have "list_all (\<lambda>w. exit_date w = None \<and> exit_price w = None \<and> pnl w = Fin 0 \<and> return_pct w = Fin 0)
      (number_rows (length ?c) ?o)"
    using mem [of _ "length ?c" ?o] by (fastforce simp: list_all_iff open_row_def)
  moreover have "\<exists>d. \<forall>l\<in>set (lots_of (pair_all fs) t). l_direction l = d" using inv by (simp add: book_inv_def)
  then obtain d where d: "\<forall>l\<in>set (lots_of (pair_all fs) t). l_direction l = d" by (elim exE)
  have "side w = side_of d" if w: "w \<in> set (number_rows (length ?c) ?o)" "symbol w = t" for w
  proof -
    obtain p m where p: "p \<in> set (with_ticker (open_lots (pair_all fs)))" "w = row.extend (open_row p) m"
      using mem [OF w(1)] by auto
    then have "fst p = t" using w(2) by (simp add: open_row_def split: prod.splits)
    with p(1) have "p \<in> set (filter (\<lambda>p. fst p = t) (with_ticker (open_lots (pair_all fs))))" by simp
    then have "snd p \<in> set (lots_of (pair_all fs) t)" by (auto simp: with_ticker_filter [OF inv])
    with d p show ?thesis by (cases p) (simp add: open_row_def)
  qed
  ultimately have open_ok: "list_all (\<lambda>w. exit_date w = None \<and> exit_price w = None \<and> pnl w = Fin 0 \<and> return_pct w = Fin 0)
      (number_rows (length ?c) ?o)" "\<exists>s. \<forall>w\<in>set (number_rows (length ?c) ?o). symbol w = t \<longrightarrow> side w = s"
    by blast+
  have "map seq (number_rows 0 (pair_rows fs)) = [0..<length (number_rows 0 (pair_rows fs))]"
    by (simp add: number_rows_seq len)
  moreover have "take (length ?c) (number_rows 0 (pair_rows fs)) = number_rows 0 ?c"
    "drop (length ?c) (number_rows 0 (pair_rows fs)) = number_rows (length ?c) ?o"
    by (simp_all add: split len)
  ultimately show ?thesis using real open_ok pair_fills_number [OF assms(1)]
    by (intro exI [of _ "number_rows 0 (pair_rows fs)"] exI [of _ "length ?c"]) simp
qed

theorem pairing_rows_shape_witness:
  "\<exists>rows n. pair_fills (\<lambda>_. None) (\<lambda>_. None) None demo_fills = Inr rows \<and>
    map seq rows = [0..<length rows] \<and> list_all realised (take n rows) \<and>
    list_all (\<lambda>w. exit_date w = None \<and> exit_price w = None \<and> pnl w = Fin 0 \<and> return_pct w = Fin 0) (drop n rows) \<and>
    (\<exists>s. \<forall>w\<in>set (drop n rows). symbol w = ''T'' \<longrightarrow> side w = s)"
  by (rule pairing_rows_shape [OF demo_normalise demo_nfills_ok(1)])

text \<open>first in, first out. When the fills' calendar days follow their order, the rows of
  a ticker, closed ones in closing order and then the open ones, have entry dates that never
  decrease, and no row exits before it was entered.\<close>

theorem pairing_fifo:
  assumes "normalise fparse fromiso zone fills = Inr fs" and "list_all nfill_ok fs" and "sorted (map n_day fs)"
  shows "\<exists>rows. pair_fills fparse fromiso zone fills = Inr rows \<and>
    sorted (map entry_date (filter (\<lambda>w. symbol w = t) rows)) \<and>
    (\<forall>w\<in>set rows. \<forall>x. exit_date w = Some x \<longrightarrow> entry_date w \<le> x)"
proof -
  note inv = pair_all_inv [OF assms(2)]
  from pair_all_fifo [OF assms(3)] have srt: "sorted (entries (pair_all fs) t)"
    and cls: "\<forall>w\<in>set (closed (pair_all fs)). \<exists>x. exit_date w = Some x \<and> entry_date w \<le> x" by auto
  have "map entry_date (filter (\<lambda>w. symbol w = t) (number_rows 0 (pair_rows fs))) = entries (pair_all fs) t"
    by (subst number_rows_map [where h = entry_date and Q = "\<lambda>w. symbol w = t"])
      (simp_all add: ticker_rows [OF inv] entries_def open_row_def)
  moreover have "\<forall>r\<in>set (pair_rows fs). \<forall>x. exit_date r = Some x \<longrightarrow> entry_date r \<le> x"
    using cls by (fastforce simp: pair_rows_def Let_def open_row_def split: prod.splits)
  then have "\<forall>w\<in>set (number_rows 0 (pair_rows fs)). \<forall>x. exit_date w = Some x \<longrightarrow> entry_date w \<le> x"
    by (auto simp: number_rows_def enumerate_eq_zip dest: set_zip_rightD)
  ultimately show ?thesis using srt by (simp add: pair_fills_number [OF assms(1)])
qed

theorem pairing_fifo_witness:
  "\<exists>rows. pair_fills (\<lambda>_. None) (\<lambda>_. None) None demo_fills = Inr rows \<and>
    sorted (map entry_date (filter (\<lambda>w. symbol w = ''T'') rows)) \<and>
    (\<forall>w\<in>set rows. \<forall>x. exit_date w = Some x \<longrightarrow> entry_date w \<le> x)"
  by (rule pairing_fifo [OF demo_normalise demo_nfills_ok(1,3)])

section \<open>Normalisation\<close>

lemma emap_Inr_iff: "emap f xs = Inr ys \<longleftrightarrow> list_all2 (\<lambda>x y. f x = Inr y) xs ys"
  by (induction xs arbitrary: ys) (auto simp: ebind_Inr_iff list_all2_Cons1)

text \<open>normalisation drops nothing but fills of no size. It succeeds exactly when every
  fill reads, its output is in (time, position) order, and it holds one entry per fill whose
  share count is not at most the tolerance.\<close>

theorem normalise_sound:
  "case normalise fparse fromiso zone fills of
     Inl x \<Rightarrow> \<exists>i < length fills. normalise_one fparse fromiso zone i (fills ! i) = Inl x
   | Inr fs \<Rightarrow> sorted (map n_key fs) \<and>
       (\<exists>ns. list_all2 (\<lambda>(i, raw) n. normalise_one fparse fromiso zone i raw = Inr n) (enumerate 0 fills) ns \<and>
          mset fs = mset (map the (filter (\<lambda>n. n \<noteq> None) ns)) \<and>
          length fs = length (filter (\<lambda>raw. \<not> (\<exists>q. number fparse raw ''shares'' = Inr q \<and> q \<le> Fin eps)) fills))"
proof (cases "emap (\<lambda>(i, raw). normalise_one fparse fromiso zone i raw) (enumerate 0 fills)")
  case (Inl x)
  have "emap f xs = Inl x \<Longrightarrow> \<exists>y\<in>set xs. f y = Inl x" for f :: "nat \<times> raw_fill \<Rightarrow> py_exn + nfill option" and xs
    by (induction xs) (auto simp: ebind_Inl_iff)
  from this [OF Inl] Inl show ?thesis
    by (auto simp: normalise_def in_set_enumerate_eq)
next
  case (Inr ns)
  let ?skip = "\<lambda>raw. \<exists>q. number fparse raw ''shares'' = Inr q \<and> q \<le> Fin eps"
  have one: "(n \<noteq> None) = (\<not> ?skip raw)"
    if "normalise_one fparse fromiso zone i raw = Inr n" for i raw n
    using that by (auto simp: normalise_one_def ebind_Inr_iff Let_def split: if_splits)
  have count: "length (filter (\<lambda>n. n \<noteq> None) ns) = length (filter (\<lambda>raw. \<not> ?skip raw) fills)"
    if "list_all2 (\<lambda>(i, raw) n. normalise_one fparse fromiso zone i raw = Inr n) (enumerate k fills) ns" for k
    using that
  proof (induction fills arbitrary: k ns)
    case Nil
    then show ?case by simp
  next
    case (Cons raw fills)
    then obtain n ns' where ns: "ns = n # ns'" and n: "normalise_one fparse fromiso zone k raw = Inr n"
      and rest: "list_all2 (\<lambda>(i, raw) n. normalise_one fparse fromiso zone i raw = Inr n) (enumerate (Suc k) fills) ns'"
      by (auto simp: list_all2_Cons1)
    show ?case using Cons.IH [OF rest] unfolding ns filter.simps one [OF n] by simp
  qed
  have l2: "list_all2 (\<lambda>(i, raw) n. normalise_one fparse fromiso zone i raw = Inr n) (enumerate 0 fills) ns"
    using Inr by (simp add: emap_Inr_iff case_prod_beta')
  have "normalise fparse fromiso zone fills = Inr (sort_key n_key (map the (filter (\<lambda>n. n \<noteq> None) ns)))"
    by (simp add: normalise_def Inr)
  moreover have "length (sort_key n_key (map the (filter (\<lambda>n. n \<noteq> None) ns))) =
      length (filter (\<lambda>raw. \<not> ?skip raw) fills)"
    by (simp only: length_sort length_map count [OF l2])
  ultimately show ?thesis using l2 by (simp only: sum.case) (intro conjI exI [of _ ns], simp_all)
qed

section \<open>What the checks let through\<close>

text \<open>A NaN share count is neither skipped as empty nor refused: it reaches the loop, where
  no comparison holds, and the fill leaves no row and no error.\<close>

lemma nan_shares_vanish:
  "pair_fills (\<lambda>_. None) (\<lambda>_. None) None
     [[(''timestamp'', VDate 1), (''ticker'', VStr ''T''), (''signal_type'', VStr ''BUY''),
       (''shares'', VFloat NaN), (''fill_price'', VFloat (Fin 10))]] = Inr []"
  by (simp add: pair_fills_def normalise_def normalise_one_def number_def raw_get_def dict_or_def ticker_of_def
      direction_of_def timestamp_of_def comparable_def day_of_def pair_rows_def no_books_def pair_step_def
      lots_of_def with_ticker_def close_lots.simps(1))

text \<open>An integer beyond the floats raises OverflowError, not the documented ValueError.\<close>

lemma huge_shares_overflow:
  "pair_fills fparse fromiso zone [[(''shares'', VInt (2 ^ 1024))]] = Inl OverflowError"
  by (simp add: pair_fills_def normalise_def normalise_one_def number_def raw_get_def dict_or_def float_of_int_def)

end
