(* ===== verification/Executor_Pairing.thy ===== *)
theory Executor_Pairing
  imports Executor_Claims Trade_Pairing_Claims
begin

text \<open>
  The executor's trade log as the pairing reads it: after any run of the broker the log
  pairs without an error, and what it leaves open is what the broker holds.
\<close>

definition raw_of_fill :: "fill \<Rightarrow> raw_fill" where
  "raw_of_fill fl =
     [(''timestamp'', VDatetime (f_timestamp fl)), (''portfolio_id'', VStr (f_portfolio fl)),
      (''ticker'', VStr (f_ticker fl)), (''signal_type'', VStr (f_signal fl)),
      (''confidence'', VFloat (f_confidence fl)), (''shares'', VFloat (f_shares fl)),
      (''fill_price'', VFloat (f_price fl)), (''fees'', VFloat (f_fees fl)),
      (''cash_after'', VFloat (f_cash_after fl)), (''position_size'', VFloat (f_position_size fl))]"

definition pairable :: "fill \<Rightarrow> bool" where
  "pairable fl \<longleftrightarrow> f_ticker fl \<noteq> [] \<and> isfinite (f_shares fl) \<and> whole (f_shares fl) \<and> 0 < realval (f_shares fl) \<and>
     isfinite (f_price fl) \<and> isfinite (f_fees fl) \<and> (f_signal fl = ''BUY'' \<or> f_signal fl = ''SELL'')"

fun pair_op_ok :: "exec_op \<Rightarrow> bool" where
  "pair_op_ok (OpTrade port t sig c ap pn tw ts tgt) = (op_ok (OpTrade port t sig c ap pn tw ts tgt) \<and> t \<noteq> [])"
| "pair_op_ok (OpChild ch ts) = (op_ok (OpChild ch ts) \<and> whole (ch_quantity ch) \<and> ch_ticker ch \<noteq> [])"
| "pair_op_ok x = op_ok x"

lemma pair_op_ok_op [simp]: "pair_op_ok x \<Longrightarrow> op_ok x"
  by (cases x) auto

lemma pairable_step:
  assumes l: "ledger c0 e" and log: "list_all pairable (trade_log e)" and ok: "pair_op_ok x"
  shows "list_all pairable (trade_log (exec_step fparse e x))"
proof (cases x)
  case (OpTrade port t sig c ap pn tw ts tgt)
  obtain e' r where res: "execute_trade fparse e port t sig c ap pn tw ts tgt = (e', r)"
    by (cases "execute_trade fparse e port t sig c ap pn tw ts tgt")
  from ok OpTrade have a: "float_arg ap" "float_arg pn" "float_arg tw" "float_arg c" "tgt = VNone \<or> float_arg tgt"
    and t: "t \<noteq> []" by auto
  have wf: "exec_wf e" using l by (simp add: ledger_def)
  have "list_all pairable (trade_log e')"
  proof (cases rule: execute_trade_cases [OF wf a res])
    case 1
    with log show ?thesis by (auto simp: unchanged_def)
  next
    case (2 q xp buy T fl)
    have "pairable fl" using 2 t by (auto simp: pairable_def whole_def)
    moreover have "trade_log e' = trade_log e @ [fl]" by (fact 2)
    ultimately show ?thesis using log by simp
  qed
  with OpTrade res show ?thesis by simp
next
  case (OpChild ch ts)
  have wf: "exec_wf e" using l by (simp add: ledger_def)
  from ok OpChild have "isfinite (ch_quantity ch)" by simp
  then obtain qr where qr: "ch_quantity ch = Fin qr" by (auto simp: isfinite_iff)
  obtain f where f: "commission_per_share e = Fin f" using wf_reals(2) [OF wf] by metis
  consider (err) y where "price_child e ch = Inr (Inl y)"
    | (fill) xp where "price_child e ch = Inr (Inr (Fin xp))" "ch_signal ch = ''BUY'' \<or> ch_signal ch = ''SELL''" "0 < qr"
    using price_child_cases [OF wf qr refl] by blast
  then show ?thesis
  proof cases
    case err
    with log OpChild show ?thesis by (simp add: execute_child_order_def)
  next
    case fill
    with log OpChild ok qr f settle_real [OF wf, of "ch_ticker ch" "ch_signal ch = ''BUY''" qr xp] show ?thesis
      by (auto simp: execute_child_order_def Let_def pairable_def)
  qed
qed (use log in \<open>simp_all add: update_price_def\<close>)

interpretation paired_run: machine "exec_step fparse" "\<lambda>e. ledger c0 e \<and> list_all pairable (trade_log e)" pair_op_ok
  by unfold_locales (use ledger_step pairable_step pair_op_ok_op in blast)

section \<open>The log through the pairing\<close>

definition nfill_of :: "nat \<Rightarrow> fill \<Rightarrow> nfill" where
  "nfill_of i fl =
     \<lparr>n_direction = (if f_signal fl = ''BUY'' then 1 else -1), n_ticker = f_ticker fl, n_quantity = f_shares fl,
      n_price = f_price fl, n_day = day_of (f_timestamp fl),
      n_fee = Fin (realval (f_fees fl) / realval (f_shares fl)),
      n_key = (comparable (f_timestamp fl), i)\<rparr>"

lemma whole_above_eps: "whole x \<Longrightarrow> 0 < realval x \<Longrightarrow> eps < realval x"
  using whole_gap [of "realval x" 0] by (simp add: whole_def)

lemma normalise_log_entry:
  assumes "pairable fl"
  shows "normalise_one fparse fromiso None i (raw_of_fill fl) = Inr (Some (nfill_of i fl))"
    and "nfill_ok (nfill_of i fl)" "whole (n_quantity (nfill_of i fl))"
    and "fill_net (nfill_of i fl) = fill_delta fl" "n_ticker (nfill_of i fl) = f_ticker fl"
    and "fill_net (nfill_of i fl) * realval (n_price (nfill_of i fl)) = - fill_cash fl - realval (f_fees fl)"
    and "realval (n_quantity (nfill_of i fl)) * realval (n_fee (nfill_of i fl)) = realval (f_fees fl)"
proof -
  obtain q p c where fl: "f_shares fl = Fin q" "f_price fl = Fin p" "f_fees fl = Fin c" "0 < q" "eps < q"
    "f_ticker fl \<noteq> []" "f_signal fl = ''BUY'' \<or> f_signal fl = ''SELL''"
    using assms whole_above_eps [of "f_shares fl"] by (auto simp: pairable_def isfinite_iff)
  show "normalise_one fparse fromiso None i (raw_of_fill fl) = Inr (Some (nfill_of i fl))"
    using fl by (auto simp: normalise_one_def number_def raw_get_def dict_or_def raw_of_fill_def ticker_of_def
        direction_of_def timestamp_of_def nfill_of_def)
  show "nfill_ok (nfill_of i fl)" "whole (n_quantity (nfill_of i fl))"
    using fl assms by (auto simp: nfill_ok_def nfill_of_def pairable_def)
  show "fill_net (nfill_of i fl) = fill_delta fl" "n_ticker (nfill_of i fl) = f_ticker fl"
    "fill_net (nfill_of i fl) * realval (n_price (nfill_of i fl)) = - fill_cash fl - realval (f_fees fl)"
    "realval (n_quantity (nfill_of i fl)) * realval (n_fee (nfill_of i fl)) = realval (f_fees fl)"
    using fl by (auto simp: fill_net_def nfill_of_def fill_delta_def fill_cash_def)
qed

definition log_fills :: "fill list \<Rightarrow> nfill list" where
  "log_fills fls = sort_key n_key (map (\<lambda>(i, fl). nfill_of i fl) (enumerate 0 fls))"

lemma normalise_log:
  assumes "list_all pairable fls"
  shows "normalise fparse fromiso None (map raw_of_fill fls) = Inr (log_fills fls)"
proof -
  have "emap (\<lambda>(i, raw). normalise_one fparse fromiso None i raw) (enumerate n (map raw_of_fill fls)) =
    Inr (map (\<lambda>(i, fl). Some (nfill_of i fl)) (enumerate n fls))" for n
    using assms by (induction fls arbitrary: n) (simp_all add: normalise_log_entry)
  moreover have "map the (filter (\<lambda>n. n \<noteq> None) (map (\<lambda>(i, fl). Some (nfill_of i fl)) ps)) =
    map (\<lambda>(i, fl). nfill_of i fl) ps" for ps
    by (induction ps) auto
  ultimately show ?thesis by (simp add: normalise_def log_fills_def)
qed

lemma sum_list_mset_eq:
  "mset xs = mset ys \<Longrightarrow> (\<Sum>x\<leftarrow>xs. g x) = (\<Sum>x\<leftarrow>ys. (g x :: real))"
  by (metis mset_map sum_mset_sum_list)

lemma log_fills_sum:
  assumes "list_all pairable fls" "\<And>i fl. pairable fl \<Longrightarrow> g (nfill_of i fl) = h fl"
  shows "(\<Sum>f\<leftarrow>filter (\<lambda>f. n_ticker f = t) (log_fills fls). g f) = (\<Sum>fl\<leftarrow>filter (\<lambda>fl. f_ticker fl = t) fls. (h fl :: real))"
proof -
  have "(\<Sum>f\<leftarrow>filter (\<lambda>f. n_ticker f = t) (log_fills fls). g f) =
    (\<Sum>f\<leftarrow>filter (\<lambda>f. n_ticker f = t) (map (\<lambda>(i, fl). nfill_of i fl) (enumerate 0 fls)). g f)"
    unfolding log_fills_def by (rule sum_list_mset_eq) (simp only: mset_filter mset_sort)
  also have "\<dots> = (\<Sum>fl\<leftarrow>filter (\<lambda>fl. f_ticker fl = t) fls. h fl)"
  proof -
    have "(\<Sum>f\<leftarrow>filter (\<lambda>f. n_ticker f = t) (map (\<lambda>(i, fl). nfill_of i fl) (enumerate n fls)). g f) =
      (\<Sum>fl\<leftarrow>filter (\<lambda>fl. f_ticker fl = t) fls. h fl)" for n
      using assms(1) by (induction fls arbitrary: n) (simp_all add: assms(2) normalise_log_entry(5))
    then show ?thesis .
  qed
  finally show ?thesis .
qed

lemma log_fills_ok:
  assumes "list_all pairable fls"
  shows "list_all nfill_ok (log_fills fls)" "list_all (\<lambda>f. whole (n_quantity f)) (log_fills fls)"
  using assms
  by (auto simp: log_fills_def list_all_iff enumerate_eq_zip dest!: set_zip_rightD intro: normalise_log_entry)

lemma log_pairs:
  assumes l: "ledger c0 e" and p: "list_all pairable (trade_log e)"
  defines "rows \<equiv> number_rows 0 (pair_rows (log_fills (trade_log e)))"
  shows "pair_fills fparse fromiso None (map raw_of_fill (trade_log e)) = Inr rows"
    and "(\<Sum>w\<leftarrow>filter (\<lambda>w. symbol w = t \<and> exit_date w = None) rows. signed_quantity w) = pos_real e t"
    and "(\<Sum>fl\<leftarrow>filter (\<lambda>fl. f_ticker fl = t) (trade_log e). fill_cash fl) =
        (\<Sum>w\<leftarrow>filter (\<lambda>w. symbol w = t) rows. realval (pnl w))
        - (\<Sum>w\<leftarrow>filter (\<lambda>w. symbol w = t \<and> exit_date w = None) rows. signed_quantity w * realval (entry_price w))
        - (\<Sum>w\<leftarrow>filter (\<lambda>w. symbol w = t) rows. realval (row_fees w))"
proof -
  note ok = log_fills_ok [OF p] and sums = log_fills_sum [OF p, where t = t]
  have net: "(\<Sum>f\<leftarrow>filter (\<lambda>f. n_ticker f = t) (log_fills (trade_log e)). fill_net f) = pos_real e t"
    using l sums [of fill_net fill_delta] by (simp add: normalise_log_entry ledger_def log_position_def)
  have cost: "(\<Sum>f\<leftarrow>filter (\<lambda>f. n_ticker f = t) (log_fills (trade_log e)). fill_net f * realval (n_price f)) =
    (\<Sum>fl\<leftarrow>filter (\<lambda>fl. f_ticker fl = t) (trade_log e). - fill_cash fl - realval (f_fees fl))"
    by (rule sums) (rule normalise_log_entry)
  have fees: "(\<Sum>f\<leftarrow>filter (\<lambda>f. n_ticker f = t) (log_fills (trade_log e)). realval (n_quantity f) * realval (n_fee f)) =
    (\<Sum>fl\<leftarrow>filter (\<lambda>fl. f_ticker fl = t) (trade_log e). realval (f_fees fl))"
    by (rule sums) (rule normalise_log_entry)
  have split: "(\<Sum>fl\<leftarrow>fls. - fill_cash fl - realval (f_fees fl)) =
      - (\<Sum>fl\<leftarrow>fls. fill_cash fl) - (\<Sum>fl\<leftarrow>fls. realval (f_fees fl))" for fls
    by (induction fls) simp_all
  show "pair_fills fparse fromiso None (map raw_of_fill (trade_log e)) = Inr rows"
    by (simp add: rows_def pair_fills_number [OF normalise_log [OF p]])
  show "(\<Sum>w\<leftarrow>filter (\<lambda>w. symbol w = t \<and> exit_date w = None) rows. signed_quantity w) = pos_real e t"
    using net pair_all_exact [OF ok, of t] paired_sums [OF ok(1), of t] by (simp add: rows_def)
  show "(\<Sum>fl\<leftarrow>filter (\<lambda>fl. f_ticker fl = t) (trade_log e). fill_cash fl) =
        (\<Sum>w\<leftarrow>filter (\<lambda>w. symbol w = t) rows. realval (pnl w))
        - (\<Sum>w\<leftarrow>filter (\<lambda>w. symbol w = t \<and> exit_date w = None) rows. signed_quantity w * realval (entry_price w))
        - (\<Sum>w\<leftarrow>filter (\<lambda>w. symbol w = t) rows. realval (row_fees w))"
    using cost fees split pair_all_exact [OF ok, of t] paired_sums [OF ok(1), of t] by (simp add: rows_def)
qed

lemma broker_log:
  assumes "make_executor (Fin c0) ts lev slip cm adv sig fee g = Inr e0" "exec_wf e0" "list_all pair_op_ok ops"
  shows "ledger c0 (foldl (exec_step fparse) e0 ops)" "list_all pairable (trade_log (foldl (exec_step fparse) e0 ops))"
proof -
  have "ledger c0 (foldl (exec_step fparse) e0 ops) \<and> list_all pairable (trade_log (foldl (exec_step fparse) e0 ops))"
    using make_executor_ledger [OF assms(1,2)] by (intro paired_run.run_inv [OF _ assms(3)]) simp
  then show "ledger c0 (foldl (exec_step fparse) e0 ops)"
    "list_all pairable (trade_log (foldl (exec_step fparse) e0 ops))" by simp_all
qed

text \<open>C4: the trade table agrees with the account. After any run of the broker whose slices
  are whole shares, its log pairs without an error; what the rows of a ticker leave open is
  exactly the position the broker holds; and the cash the ticker's fills moved is the rows'
  realised profit less the entry cost of what is open and less the rows' fees.\<close>

theorem trade_table_agrees:
  assumes "make_executor (Fin c0) ts lev slip cm adv sig fee g = Inr e0" and "exec_wf e0"
    and "list_all pair_op_ok ops"
  shows "let e = foldl (exec_step fparse) e0 ops in
    \<exists>rows. pair_fills fparse fromiso None (map raw_of_fill (trade_log e)) = Inr rows \<and>
      (\<Sum>w\<leftarrow>filter (\<lambda>w. symbol w = t \<and> exit_date w = None) rows. signed_quantity w) = pos_real e t \<and>
      (\<Sum>fl\<leftarrow>filter (\<lambda>fl. f_ticker fl = t) (trade_log e). fill_cash fl) =
        (\<Sum>w\<leftarrow>filter (\<lambda>w. symbol w = t) rows. realval (pnl w))
        - (\<Sum>w\<leftarrow>filter (\<lambda>w. symbol w = t \<and> exit_date w = None) rows. signed_quantity w * realval (entry_price w))
        - (\<Sum>w\<leftarrow>filter (\<lambda>w. symbol w = t) rows. realval (row_fees w))"
  using log_pairs [OF broker_log [OF assms]] by (simp add: Let_def)

theorem trade_table_agrees_witness:
  "\<exists>e0. make_executor (Fin 1000) [''T''] (Fin 2) (Fin 0) None [] [] (Fin 0) None = Inr e0 \<and>
    (let e = foldl (exec_step (\<lambda>_. None)) e0 [OpPrice ''T'' (Fin 10),
        OpChild \<lparr>ch_ticker = ''T'', ch_signal = ''BUY'', ch_quantity = Fin 7, ch_confidence = Fin 1,
          ch_portfolio = ''p''\<rparr> \<lparr>wall = 0, utc_offset = None\<rparr>] in
    \<exists>rows. pair_fills (\<lambda>_. None) (\<lambda>_. None) None (map raw_of_fill (trade_log e)) = Inr rows \<and>
      (\<Sum>w\<leftarrow>filter (\<lambda>w. symbol w = ''T'' \<and> exit_date w = None) rows. signed_quantity w) = pos_real e ''T'' \<and>
      (\<Sum>fl\<leftarrow>filter (\<lambda>fl. f_ticker fl = ''T'') (trade_log e). fill_cash fl) =
        (\<Sum>w\<leftarrow>filter (\<lambda>w. symbol w = ''T'') rows. realval (pnl w))
        - (\<Sum>w\<leftarrow>filter (\<lambda>w. symbol w = ''T'' \<and> exit_date w = None) rows. signed_quantity w * realval (entry_price w))
        - (\<Sum>w\<leftarrow>filter (\<lambda>w. symbol w = ''T'') rows. realval (row_fees w)))"
proof -
  obtain e0 where e0: "make_executor (Fin 1000) [''T''] (Fin 2) (Fin 0) None [] [] (Fin 0) None = Inr e0"
    by (simp add: make_executor_def zero_Fin)
  then have "exec_wf e0"
    by (auto simp: make_executor_def zero_Fin exec_wf_def all_finite_def init_dict_def)
  moreover have "list_all pair_op_ok [OpPrice ''T'' (Fin 10),
        OpChild \<lparr>ch_ticker = ''T'', ch_signal = ''BUY'', ch_quantity = Fin 7, ch_confidence = Fin 1,
          ch_portfolio = ''p''\<rparr> \<lparr>wall = 0, utc_offset = None\<rparr>]"
    by (simp add: whole_def)
  ultimately show ?thesis using e0 by (intro exI [of _ e0] conjI) (rule e0, rule trade_table_agrees [OF e0])
qed

end
