(* ===== verification/Report_Claims.thy ===== *)
theory Report_Claims
  imports Report Executor_Pairing
begin

text \<open>
  What a report promises: one equity row per day holding the day's last sample, a drawdown
  that is the worst peak-to-trough loss, rates within their ranges, and figures that add up
  to the change of the account.
\<close>

section \<open>Coercion\<close>

lemma to_decimal_float: "to_decimal fparse (VFloat x) limit = Inr (decimal_float x limit)"
  by (cases x) (simp_all add: to_decimal_def decimal_float_def)

lemma money_required_Inr: "money_required x = Inr r \<longleftrightarrow> x = Fin r \<and> \<bar>r\<bar> < money_limit"
  by (cases x) (auto simp: money_required_def required_def money_def decimal_float_def)

lemma money_required_Inl: "money_required x = Inl e \<longleftrightarrow> e = ValueError \<and> money x = None"
  by (auto simp: money_required_def required_def split: option.splits)

lemma round_half_even_near: "\<bar>real_of_int (round_half_even x) - x\<bar> \<le> 1 / 2"
  unfolding round_half_even_def Let_def by (simp add: abs_le_iff)

text \<open>Within half a millionth.\<close>

definition close6 :: "real \<Rightarrow> real \<Rightarrow> bool" where
  "close6 a b \<longleftrightarrow> 2 * 10 ^ 6 * \<bar>a - b\<bar> \<le> 1"

lemma quantize6_near [simp]: "close6 (quantize6 x) x"
proof -
  define a where "a = \<bar>quantize6 x - x\<bar>"
  have "10 ^ 6 * (quantize6 x - x) = real_of_int (round_half_even (x * 10 ^ 6)) - x * 10 ^ 6"
    by (simp add: quantize6_def field_simps)
  moreover have "10 ^ 6 * a = \<bar>10 ^ 6 * (quantize6 x - x)\<bar>"
    unfolding a_def by (subst abs_mult) simp
  ultimately have "10 ^ 6 * a \<le> 1 / 2" using round_half_even_near [of "x * 10 ^ 6"] by (simp only:)
  then show ?thesis unfolding close6_def a_def [symmetric] by simp
qed

lemma quantize6_fixed: "quantize6 (real_of_int k / 10 ^ 6) = real_of_int k / 10 ^ 6"
  by (simp add: quantize6_def round_half_even_def)

section \<open>The equity curve\<close>

lemma by_day_get: "dict_get (by_day curve) d = (let ps = filter (\<lambda>p. ep_date p = d) curve in
    if ps = [] then None else Some (last ps))"
  by (induction curve rule: rev_induct) (simp_all add: by_day_def Let_def)

lemma by_day_keys: "distinct (map fst (by_day curve))" "fst ` set (by_day curve) = ep_date ` set curve"
  by (induction curve rule: rev_induct) (simp_all add: by_day_def)

lemma emap_all2: "emap f xs = Inr ys \<Longrightarrow> list_all2 (\<lambda>x y. f x = Inr y) xs ys"
  by (simp add: emap_Inr_iff)

lemma emap_Inl: "emap f xs = Inl e \<Longrightarrow> \<exists>x\<in>set xs. f x = Inl e"
  by (induction xs) (auto simp: ebind_Inl_iff)

lemma list_all2_map_eq:
  "list_all2 P xs ys \<Longrightarrow> (\<And>x y. P x y \<Longrightarrow> g y = f x) \<Longrightarrow> map g ys = map f xs"
  by (induction rule: list_all2_induct) auto

text \<open>The last sample of a day.\<close>

definition day_close :: "equity_point list \<Rightarrow> int \<Rightarrow> equity_point" where
  "day_close curve d = last (filter (\<lambda>p. ep_date p = d) curve)"

definition row_ok :: "equity_point list \<Rightarrow> equity_row \<Rightarrow> bool" where
  "row_ok curve r \<longleftrightarrow> (let p = day_close curve (er_date r) in
     (\<exists>e. ep_equity p = Fin e \<and> \<bar>e\<bar> < money_limit \<and> er_equity r = quantize6 e \<and> close6 (er_equity r) e) \<and>
     er_benchmark r = money_opt (ep_benchmark p))"

lemma equity_row_ok:
  assumes "equity_row_of (by_day curve) (i, d) = Inr r"
  shows "er_seq r = i" "er_date r = d" "row_ok curve r"
  using assms
  by (auto simp: equity_row_of_def by_day_get Let_def ebind_Inr_iff money_required_Inr row_ok_def day_close_def
      split: if_splits)

lemma equity_rows_shape:
  assumes "equity_rows curve = Inr rows"
  shows "map er_date rows = sort (map fst (by_day curve))" "map er_seq rows = [0..<length rows]"
    "list_all (row_ok curve) rows"
proof -
  let ?days = "sort (map fst (by_day curve))"
  have all: "list_all2 (\<lambda>x r. equity_row_of (by_day curve) x = Inr r) (enumerate 0 ?days) rows"
    using assms by (intro emap_all2) (simp add: equity_rows_def Let_def)
  have "map er_date rows = map snd (enumerate 0 ?days)"
    by (rule list_all2_map_eq [OF all]) (use equity_row_ok in fastforce)
  then show d: "map er_date rows = ?days" by simp
  have "map er_seq rows = map fst (enumerate 0 ?days)"
    by (rule list_all2_map_eq [OF all]) (use equity_row_ok in fastforce)
  moreover have "length rows = length ?days" using d by (metis length_map)
  ultimately show "map er_seq rows = [0..<length rows]" by simp
  show "list_all (row_ok curve) rows"
    using all by (induction rule: list_all2_induct) (auto dest: equity_row_ok(3))
qed

text \<open>the stored curve is the daily curve. Building it fails only when the last sample of
  some day is no storable number; otherwise it has one row per day sampled, in strictly
  increasing date order and numbered from zero, each holding that day's last sample to within
  half a millionth, so for samples in date order the last row is the run's last sample.\<close>

theorem equity_rows_daily:
  "case equity_rows curve of
     Inl e \<Rightarrow> e = ValueError \<and> (\<exists>p\<in>set curve. money (ep_equity (day_close curve (ep_date p))) = None)
   | Inr rows \<Rightarrow> sorted (map er_date rows) \<and> distinct (map er_date rows) \<and>
       set (map er_date rows) = ep_date ` set curve \<and> map er_seq rows = [0..<length rows] \<and>
       list_all (row_ok curve) rows \<and>
       (curve \<noteq> [] \<and> sorted (map ep_date curve) \<longrightarrow>
          day_close curve (er_date (last rows)) = last curve)"
proof (cases "equity_rows curve")
  case (Inl e)
  then obtain x where "equity_row_of (by_day curve) x = Inl e" "snd x \<in> set (sort (map fst (by_day curve)))"
    by (auto simp: equity_rows_def Let_def enumerate_eq_zip dest!: emap_Inl dest: set_zip_rightD)
  moreover from this have "snd x \<in> ep_date ` set curve" using by_day_keys(2) by auto
  ultimately show ?thesis
    using Inl by (cases x) (auto simp: equity_row_of_def by_day_get Let_def ebind_Inl_iff money_required_Inl
        day_close_def filter_empty_conv split: if_splits)
next
  case (Inr rows)
  note sh = equity_rows_shape [OF Inr]
  have srt: "sorted (map er_date rows)" using sh(1) by simp
  have dst: "distinct (map er_date rows)" using by_day_keys(1) sh(1) by simp
  have keys: "set (map er_date rows) = ep_date ` set curve" using by_day_keys(2) unfolding sh(1) by simp
  have "day_close curve (er_date (last rows)) = last curve" if ne: "curve \<noteq> []" and s: "sorted (map ep_date curve)"
  proof -
    have rne: "rows \<noteq> []" using keys ne by auto
    obtain xs p where c: "curve = xs @ [p]" using ne by (cases curve rule: rev_cases) auto
    have "er_date (last rows) \<in> ep_date ` set curve" using rne by (simp flip: keys)
    then have "er_date (last rows) \<le> ep_date p" using s c by (auto simp: sorted_append)
    moreover have "ep_date p \<in> set (map er_date rows)" using keys c by simp
    then have "ep_date p \<le> er_date (last rows)"
      using srt rne by (cases rows rule: rev_cases) (auto simp: sorted_append)
    ultimately show ?thesis using c by (simp add: day_close_def)
  qed
  with srt dst keys sh show ?thesis by (simp add: Inr)
qed

definition demo_curve :: "equity_point list" where
  "demo_curve = [\<lparr>ep_date = 1, ep_equity = Fin 100, ep_benchmark = None\<rparr>, \<lparr>ep_date = 1, ep_equity = Fin 120, ep_benchmark = None\<rparr>,
     \<lparr>ep_date = 2, ep_equity = Fin 90, ep_benchmark = None\<rparr>]"


lemma demo_rows: "equity_rows demo_curve = Inr [\<lparr>er_seq = 0, er_date = 1, er_equity = quantize6 120, er_benchmark = None\<rparr>,
    \<lparr>er_seq = 1, er_date = 2, er_equity = quantize6 90, er_benchmark = None\<rparr>]"
proof -
  have "by_day demo_curve = [(1, \<lparr>ep_date = 1, ep_equity = Fin 120, ep_benchmark = None\<rparr>), (2, \<lparr>ep_date = 2, ep_equity = Fin 90, ep_benchmark = None\<rparr>)]"
    by (simp add: demo_curve_def by_day_def)
  moreover have "money_required (Fin 120) = Inr 120" "money_required (Fin 90) = Inr 90"
    by (simp_all add: money_required_Inr money_limit_def)
  ultimately show ?thesis
    by (simp add: equity_rows_def equity_row_of_def money_opt_def)
qed

theorem equity_rows_daily_witness:
  "\<exists>rows. equity_rows demo_curve = Inr rows \<and> map er_date rows = [1, 2] \<and>
     day_close demo_curve (er_date (last rows)) = last demo_curve"
proof -
  have "demo_curve \<noteq> [] \<and> sorted (map ep_date demo_curve)" by (simp add: demo_curve_def)
  with equity_rows_daily [of demo_curve] show ?thesis unfolding demo_rows sum.case by simp
qed

section \<open>Drawdown\<close>

lemma drawdown_peak: "fst (foldl drawdown_step (p, d) xs) = fold max xs p"
  by (induction xs arbitrary: p d) (simp_all add: drawdown_step_def Let_def max.commute)

text \<open>What the loop keeps after the prefix \<open>xs\<close>: the peak is the prefix's maximum and the
  drawdown is the worst fall from an earlier value.\<close>

definition worst_fall :: "real list \<Rightarrow> real \<Rightarrow> bool" where
  "worst_fall xs d \<longleftrightarrow> d \<le> 0 \<and>
     (\<forall>j < length xs. \<forall>i \<le> j. 0 < xs ! i \<longrightarrow> d \<le> xs ! j / xs ! i - 1) \<and>
     (d = 0 \<or> (\<exists>j < length xs. \<exists>i \<le> j. 0 < xs ! i \<and> d = xs ! j / xs ! i - 1))"

definition dd_inv :: "real list \<Rightarrow> real \<times> real \<Rightarrow> bool" where
  "dd_inv xs = (\<lambda>(p, d). (\<exists>i < length xs. p = xs ! i) \<and> (\<forall>i < length xs. xs ! i \<le> p) \<and> worst_fall xs d)"

lemma dd_snoc:
  assumes "dd_inv xs (p, d)" "0 < p" "0 \<le> v"
  shows "dd_inv (xs @ [v]) (drawdown_step (p, d) v)" "0 < fst (drawdown_step (p, d) v)"
proof -
  let ?q = "max p v" and ?ys = "xs @ [v]"
  let ?e = "min d (v / ?q - 1)"
  have q: "0 < ?q" using assms(2) by simp
  have st: "drawdown_step (p, d) v = (?q, ?e)" using q by (simp add: drawdown_step_def Let_def)
  then show "0 < fst (drawdown_step (p, d) v)" using q by simp
  obtain m where m: "m < length xs" "p = xs ! m" using assms(1) by (auto simp: dd_inv_def)
  obtain k where k: "k < length ?ys" "?q = ?ys ! k"
    using m by (cases "p \<le> v") (auto simp: nth_append intro: that [of "length xs"] that [of m])
  have top: "\<forall>i < length ?ys. ?ys ! i \<le> ?q"
    using assms(1) by (auto simp: dd_inv_def nth_append less_Suc_eq intro: le_max_iff_disj [THEN iffD2])
  have old: "?ys ! j = xs ! j" if "j < length xs" for j using that by (simp add: nth_append)
  have w: "worst_fall xs d" using assms(1) by (simp add: dd_inv_def)
  have le: "?e \<le> 0" using w by (simp add: worst_fall_def min_le_iff_disj)
  have bound: "?e \<le> ?ys ! j / ?ys ! i - 1" if j: "j < length ?ys" "i \<le> j" "0 < ?ys ! i" for i j
  proof (cases "j < length xs")
    case True
    with j w old have "d \<le> ?ys ! j / ?ys ! i - 1" by (simp add: worst_fall_def)
    then show ?thesis by simp
  next
    case False
    with j have "?ys ! j = v" by (simp add: nth_append)
    moreover have "v / ?q \<le> v / ?ys ! i" using top j assms(3) by (intro divide_left_mono) (use q in auto)
    ultimately show ?thesis by simp
  qed
  have reach: "?e = 0 \<or> (\<exists>j < length ?ys. \<exists>i \<le> j. 0 < ?ys ! i \<and> ?e = ?ys ! j / ?ys ! i - 1)"
  proof (cases "d \<le> v / ?q - 1")
    case True
    then have e: "?e = d" by (rule min_absorb1)
    have "d = 0 \<or> (\<exists>j < length xs. \<exists>i \<le> j. 0 < xs ! i \<and> d = xs ! j / xs ! i - 1)"
      using w by (simp add: worst_fall_def)
    then show ?thesis
    proof (elim disjE exE conjE)
      fix j i assume "j < length xs" "i \<le> j" "0 < xs ! i" "d = xs ! j / xs ! i - 1"
      then have "j < length ?ys \<and> i \<le> j \<and> 0 < ?ys ! i \<and> ?e = ?ys ! j / ?ys ! i - 1"
        using old [of i] old [of j] e by simp
      then show ?thesis by blast
    qed (use e in simp)
  next
    case False
    then have "?e = ?ys ! length xs / ?ys ! k - 1" using k by simp
    moreover have "k \<le> length xs" "0 < ?ys ! k" using k q by simp_all
    ultimately show ?thesis by (intro disjI2 exI [of _ "length xs"]) auto
  qed
  show "dd_inv ?ys (drawdown_step (p, d) v)"
    unfolding st dd_inv_def worst_fall_def using k top le bound reach by auto
qed

lemma dd_run:
  assumes "xs \<noteq> []" "0 < hd xs" "list_all (\<lambda>x. 0 \<le> x) xs"
  shows "dd_inv xs (foldl drawdown_step (hd xs, 0) xs) \<and> 0 < fst (foldl drawdown_step (hd xs, 0) xs)"
  using assms
proof (induction xs rule: rev_induct)
  case Nil
  then show ?case by simp
next
  case (snoc v xs)
  show ?case
  proof (cases "xs = []")
    case True
    with snoc.prems show ?thesis
      by (simp add: drawdown_step_def Let_def dd_inv_def worst_fall_def)
  next
    case False
    with snoc have "dd_inv xs (foldl drawdown_step (hd xs, 0) xs)" "0 < fst (foldl drawdown_step (hd xs, 0) xs)"
      by simp_all
    with snoc.prems False dd_snoc [of xs "fst (foldl drawdown_step (hd xs, 0) xs)" "snd (foldl drawdown_step (hd xs, 0) xs)" v]
    show ?thesis by simp
  qed
qed

text \<open>the reported drawdown is the worst fall. For an equity curve that starts positive
  and never goes negative it lies between minus one and zero, no later value falls further
  below an earlier one, and some pair of values attains it when it is not zero.\<close>

theorem drawdown_is_worst_fall:
  assumes "xs \<noteq> []" "0 < hd xs" "list_all (\<lambda>x. 0 \<le> x) xs"
  shows "- 1 \<le> max_drawdown xs \<and> worst_fall xs (max_drawdown xs)"
proof -
  have w: "worst_fall xs (max_drawdown xs)"
    using dd_run [OF assms] by (simp add: dd_inv_def max_drawdown_def case_prod_beta)
  moreover have "- 1 \<le> max_drawdown xs"
    using w assms(3) by (auto simp: worst_fall_def list_all_length)
  ultimately show ?thesis by simp
qed

theorem drawdown_is_worst_fall_witness:
  "max_drawdown [100, 150, 75, 120] = - 1 / 2 \<and> - 1 \<le> max_drawdown [100, 150, 75, 120] \<and>
   worst_fall [100, 150, 75, 120] (max_drawdown [100, 150, 75, 120])"
proof -
  have "max_drawdown [100, 150, 75, 120] = - 1 / 2" by (simp add: max_drawdown_def drawdown_step_def)
  with drawdown_is_worst_fall [of "[100, 150, 75, 120]"] show ?thesis by simp
qed

section \<open>Rates, and the two ways to a report\<close>

lemma round_trip_ranges:
  assumes "round_trip_metrics trades = Inr s"
  shows "rt_total_trades s = length (filter (\<lambda>w. exit_date w \<noteq> None) trades)"
    and "case rt_win_rate s of None \<Rightarrow> rt_total_trades s = 0 | Some x \<Rightarrow> \<exists>r. x = Fin r \<and> 0 \<le> r \<and> r \<le> 1"
proof -
  let ?c = "filter (\<lambda>w. exit_date w \<noteq> None) trades"
  show "rt_total_trades s = length ?c"
    using assms by (auto simp: round_trip_metrics_def Let_def ebind_Inr_iff split: if_splits)
  have "length (filter (\<lambda>w. pnl w > 0) ?c) \<le> length ?c" by (rule length_filter_le)
  then have "?c \<noteq> [] \<Longrightarrow> real (length (filter (\<lambda>w. pnl w > 0) ?c)) / real (length ?c) \<le> 1"
    by (subst divide_le_eq_1_pos) simp_all
  moreover have "rt_win_rate s = (if ?c = [] then None
      else Some (Fin (real (length (filter (\<lambda>w. pnl w > 0) ?c)) / real (length ?c))))"
    using assms by (auto simp: round_trip_metrics_def Let_def ebind_Inr_iff split: if_splits)
  ultimately show "case rt_win_rate s of None \<Rightarrow> rt_total_trades s = 0 | Some x \<Rightarrow> \<exists>r. x = Fin r \<and> 0 \<le> r \<and> r \<le> 1"
    using \<open>rt_total_trades s = length ?c\<close> by (cases "?c = []") simp_all
qed

text \<open>The persisted report and the transient job's report do the same work in another order:
  they succeed on the same results, with the same rows.\<close>

lemma reports_agree:
  "persist_rows fparse fromiso zone c curve fills prices reported = Inr r \<longleftrightarrow>
   build_report fparse fromiso zone c curve fills prices reported = Inr r"
  by (auto simp: persist_rows_def build_report_def ebind_Inr_iff)

text \<open>A run whose reported final equity is its last sample passes the final check.\<close>

lemma final_check_ok:
  assumes "\<bar>r\<bar> < money_limit"
  shows "final_check (Some (Fin r)) (quantize6 r) = Inr ()"
proof -
  have "money_required (Fin r) = Inr r" using assms by (simp add: money_required_Inr)
  moreover have "2 * (10 ^ 6 * \<bar>quantize6 r - r\<bar>) \<le> 1" using quantize6_near [of r] by (simp add: close6_def)
  then have "\<bar>r - quantize6 r\<bar> \<le> 1 / 10 ^ 4" by (simp add: abs_minus_commute)
  ultimately show ?thesis by (simp add: final_check_def)
qed

end
