(* ===== verification/Report_Account.thy ===== *)
theory Report_Account
  imports Report_Claims
begin

text \<open>
  The report against the account: realised profit, unrealised profit and fees of the report
  add up to what the broker's equity gained.
\<close>

section \<open>The rows of a log\<close>

lemma close_lots_ticker: "\<forall>r\<in>set (fst (close_lots f ls q)). symbol r = n_ticker f"
proof (induction f ls q rule: close_lots.induct)
  case (2 f l ls r)
  then show ?case by (subst close_lots.simps(2)) (auto simp: Let_def round_trip_def)
qed simp

lemma pair_step_symbols:
  "set (closed (pair_step s f)) = set (closed s) \<union> set (fst (close_lots f (lots_of s (n_ticker f)) (n_quantity f)))"
  "fst ` set (open_lots (pair_step s f)) = insert (n_ticker f) (fst ` set (open_lots s))"
  by (auto simp: pair_step_def Let_def case_prod_beta)

lemma pair_all_symbols:
  "(\<forall>r\<in>set (closed (pair_all fs)). symbol r \<in> n_ticker ` set fs) \<and>
   fst ` set (open_lots (pair_all fs)) \<subseteq> n_ticker ` set fs"
proof (induction fs rule: rev_induct)
  case Nil
  then show ?case by (simp add: no_books_def)
next
  case (snoc f fs)
  then show ?case
    using close_lots_ticker [of f "lots_of (pair_all fs) (n_ticker f)" "n_quantity f"]
    by (auto simp: pair_step_symbols)
qed

lemma pair_rows_symbol: "r \<in> set (pair_rows fs) \<Longrightarrow> symbol r \<in> n_ticker ` set fs"
  using pair_all_symbols [of fs]
  by (auto simp: pair_rows_def Let_def with_ticker_def open_row_def image_subset_iff)

lemma log_fills_tickers: "n_ticker ` set (log_fills fls) = f_ticker ` set fls"
proof -
  have "n_ticker ` set (map (\<lambda>(i, fl). nfill_of i fl) (enumerate k fls)) = f_ticker ` set fls" for k
    by (induction fls arbitrary: k) (auto simp: nfill_of_def)
  then show ?thesis by (simp add: log_fills_def)
qed

lemma number_rows_mem: "w \<in> set (number_rows n rs) \<Longrightarrow> \<exists>r m. r \<in> set rs \<and> w = row.extend r m"
  by (auto simp: number_rows_def enumerate_eq_zip dest: set_zip_rightD)

lemma open_row_lot:
  assumes "list_all nfill_ok fs" "w \<in> set (number_rows 0 (pair_rows fs))" "exit_date w = None"
  shows "\<exists>t l m. lot_ok l \<and> w = row.extend (open_row (t, l)) m"
proof -
  from number_rows_mem [OF assms(2)] obtain r m where r: "r \<in> set (pair_rows fs)" "w = row.extend r m" by blast
  then have ex: "exit_date r = None" using assms(3) by (simp add: row.defs)
  have "r \<notin> set (closed (pair_all fs))"
    using pair_all_realised [OF assms(1)] ex by (auto simp: list_all_iff realised_def)
  with r obtain p where "p \<in> set (with_ticker (open_lots (pair_all fs)))" "r = open_row p"
    by (auto simp: pair_rows_def Let_def)
  moreover have "lot_ok (snd p)" if "p \<in> set (with_ticker (open_lots (pair_all fs)))" for p
  proof -
    obtain t ls where "(t, ls) \<in> set (open_lots (pair_all fs))" "snd p \<in> set ls"
      using \<open>p \<in> set (with_ticker (open_lots (pair_all fs)))\<close> by (auto simp: with_ticker_def)
    moreover have "distinct (map fst (open_lots (pair_all fs)))"
      using pair_all_inv [OF assms(1)] by (simp add: book_inv_def)
    ultimately have "lots_of (pair_all fs) t = ls" by (simp add: lots_of_def dict_or_def)
    with \<open>snd p \<in> set ls\<close> pair_all_inv [OF assms(1)] show ?thesis
      by (force simp: book_inv_def list_all_iff)
  qed
  ultimately have "lot_ok (snd p)" "w = row.extend (open_row (fst p, snd p)) m" using r(2) by simp_all
  then show ?thesis by blast
qed

section \<open>Unrealised profit\<close>

definition unrealized :: "open_position \<Rightarrow> real" where
  "unrealized p = (case op_unrealized p of None \<Rightarrow> 0 | Some x \<Rightarrow> realval x)"

lemma open_position_real:
  assumes "exec_wf e" "lot_ok l" "w = row.extend (open_row (t, l)) m"
    and "op_mark (open_position_of (latest_prices e) w) \<noteq> None"
  shows "unrealized (open_position_of (latest_prices e) w) =
    signed_quantity w * price_real e t - signed_quantity w * realval (entry_price w)"
proof -
  obtain q p d where l: "l_quantity l = Fin q" "l_price l = Fin p" "l_direction l = d" "d = 1 \<or> d = - 1"
    using assms(2) by (auto simp: lot_ok_def isfinite_iff)
  obtain x where x: "dict_get (latest_prices e) t = Some x" "isfinite x"
    using assms(3,4) by (auto simp: open_position_of_def Let_def usable_mark_def open_row_def row.defs split: option.splits if_splits)
  then have "price_of e t = x" by (simp add: price_of_def dict_or_def)
  with x(2) have mx: "x = Fin (price_real e t)" by (auto simp: price_real_def)
  show ?thesis
    using assms(4) l(4) unfolding assms(3)
    by (auto simp: open_position_of_def Let_def usable_mark_def open_row_def row.defs side_sign_def side_of_def
        unrealized_def signed_quantity_def x(1) mx l(1-3) algebra_simps split: if_splits)
qed

lemma sum_list_diff: "(\<Sum>x\<leftarrow>xs. f x - g x) = (\<Sum>x\<leftarrow>xs. f x) - (\<Sum>x\<leftarrow>xs. (g x :: real))"
  by (induction xs) simp_all

lemma filter_filter_conj: "filter P (filter Q xs) = filter (\<lambda>x. P x \<and> Q x) xs"
  by (simp add: conj_commute)

text \<open>C16: the report explains the account. After any run of the broker whose slices are whole
  shares and whose fills are all in its universe, the log pairs without an error, and when
  every open position has a usable mark at the broker's last prices the equity is the
  starting capital plus the realised profit of the trade rows, plus the unrealised profit
  of the open positions, less the rows' fees.\<close>

theorem report_explains_equity:
  assumes "make_executor (Fin c0) ts lev slip cm adv sig fee g = Inr e0" and "exec_wf e0"
    and "list_all pair_op_ok ops"
    and "e = foldl (exec_step fparse) e0 ops"
    and "distinct (tickers e)" and "list_all (\<lambda>fl. f_ticker fl \<in> set (tickers e)) (trade_log e)"
  shows "\<exists>rows. pair_fills fparse fromiso None (map raw_of_fill (trade_log e)) = Inr rows \<and>
    (list_all (\<lambda>p. op_mark p \<noteq> None) (open_positions rows (latest_prices e)) \<longrightarrow>
      equity e = c0 + (\<Sum>w\<leftarrow>rows. realval (pnl w)) + (\<Sum>p\<leftarrow>open_positions rows (latest_prices e). unrealized p)
        - (\<Sum>w\<leftarrow>rows. realval (row_fees w)))"
proof -
  have l: "ledger c0 e" and p: "list_all pairable (trade_log e)"
    using broker_log [OF assms(1-3)] by (simp_all add: assms(4))
  have wf: "exec_wf e" using l by (simp add: ledger_def)
  define rows where "rows = number_rows 0 (pair_rows (log_fills (trade_log e)))"
  note pairs = log_pairs [OF l p, folded rows_def]
  let ?ts = "tickers e" and ?open = "filter (\<lambda>w. exit_date w = None) rows"
  have syms: "list_all (\<lambda>w. symbol w \<in> set ?ts) rows"
    using assms(6) pair_rows_symbol [of _ "log_fills (trade_log e)"]
    by (fastforce simp: rows_def list_all_iff log_fills_tickers row.defs dest: number_rows_mem)
  note by_ticker = sum_list_group [OF assms(5), where k = symbol]
  have fills: "(\<Sum>fl\<leftarrow>trade_log e. fill_cash fl) = (\<Sum>t\<leftarrow>?ts. \<Sum>fl\<leftarrow>filter (\<lambda>fl. f_ticker fl = t) (trade_log e). fill_cash fl)"
    by (rule sum_list_group [OF assms(5,6)])
  have eq: "equity e = c0 + (\<Sum>w\<leftarrow>rows. realval (pnl w)) + (\<Sum>p\<leftarrow>open_positions rows (latest_prices e). unrealized p)
        - (\<Sum>w\<leftarrow>rows. realval (row_fees w))"
    if marks: "list_all (\<lambda>p. op_mark p \<noteq> None) (open_positions rows (latest_prices e))"
  proof -
    have un: "unrealized (open_position_of (latest_prices e) w) =
        signed_quantity w * price_real e (symbol w) - signed_quantity w * realval (entry_price w)" if "w \<in> set ?open" for w
    proof -
      obtain t lt m where lt: "lot_ok lt" "w = row.extend (open_row (t, lt)) m"
        using open_row_lot [OF log_fills_ok(1) [OF p], of w] \<open>w \<in> set ?open\<close> by (auto simp: rows_def)
      have "symbol w = t" using lt(2) by (simp add: open_row_def row.defs)
      moreover have "op_mark (open_position_of (latest_prices e) w) \<noteq> None"
        using marks that by (auto simp: open_positions_def list_all_iff)
      ultimately show ?thesis using open_position_real [OF wf lt] by simp
    qed
    have "map unrealized (open_positions rows (latest_prices e)) =
        map (\<lambda>w. signed_quantity w * price_real e (symbol w) - signed_quantity w * realval (entry_price w)) ?open"
      unfolding open_positions_def list.map_comp comp_def by (rule map_cong [OF refl un])
    then have "(\<Sum>p\<leftarrow>open_positions rows (latest_prices e). unrealized p) =
        (\<Sum>w\<leftarrow>?open. signed_quantity w * price_real e (symbol w) - signed_quantity w * realval (entry_price w))"
      by (rule arg_cong)
    also have "\<dots> = (\<Sum>t\<leftarrow>?ts. \<Sum>w\<leftarrow>filter (\<lambda>w. symbol w = t) ?open.
        signed_quantity w * price_real e (symbol w) - signed_quantity w * realval (entry_price w))"
      by (rule by_ticker) (use syms in \<open>auto simp: list_all_iff\<close>)
    also have "\<dots> = (\<Sum>t\<leftarrow>?ts. pos_real e t * price_real e t
        - (\<Sum>w\<leftarrow>filter (\<lambda>w. symbol w = t \<and> exit_date w = None) rows. signed_quantity w * realval (entry_price w)))"
    proof (intro arg_cong [where f = sum_list] map_cong refl)
      fix t
      have "(\<Sum>w\<leftarrow>xs. signed_quantity w * price_real e (symbol w)) = (\<Sum>w\<leftarrow>xs. signed_quantity w) * price_real e t"
        if "\<forall>w\<in>set xs. symbol w = t" for xs :: "trade_row list"
        using that by (induction xs) (simp_all add: algebra_simps)
      then show "(\<Sum>w\<leftarrow>filter (\<lambda>w. symbol w = t) ?open.
          signed_quantity w * price_real e (symbol w) - signed_quantity w * realval (entry_price w)) =
        pos_real e t * price_real e t
        - (\<Sum>w\<leftarrow>filter (\<lambda>w. symbol w = t \<and> exit_date w = None) rows. signed_quantity w * realval (entry_price w))"
        unfolding sum_list_diff filter_filter_conj by (simp flip: pairs(2))
    qed
    finally have "(\<Sum>p\<leftarrow>open_positions rows (latest_prices e). unrealized p) = (\<Sum>t\<leftarrow>?ts. pos_real e t * price_real e t)
        - (\<Sum>t\<leftarrow>?ts. \<Sum>w\<leftarrow>filter (\<lambda>w. symbol w = t \<and> exit_date w = None) rows. signed_quantity w * realval (entry_price w))"
      by (simp add: sum_list_diff)
    moreover have "(\<Sum>fl\<leftarrow>trade_log e. fill_cash fl) = (\<Sum>w\<leftarrow>rows. realval (pnl w))
        - (\<Sum>t\<leftarrow>?ts. \<Sum>w\<leftarrow>filter (\<lambda>w. symbol w = t \<and> exit_date w = None) rows. signed_quantity w * realval (entry_price w))
        - (\<Sum>w\<leftarrow>rows. realval (row_fees w))"
      unfolding fills pairs(3) sum_list_diff
      using by_ticker [OF syms, of "\<lambda>w. realval (pnl w)"] by_ticker [OF syms, of "\<lambda>w. realval (row_fees w)"] by simp
    ultimately show ?thesis using l by (simp add: equity_def ledger_def)
  qed
  with pairs(1) show ?thesis by blast
qed

text \<open>A quoted universe gives every open position a mark.\<close>

lemma quoted_marks:
  assumes "ledger c0 e" "list_all pairable (trade_log e)" "list_all (\<lambda>fl. f_ticker fl \<in> set (tickers e)) (trade_log e)"
    and "list_all (\<lambda>t. usable_mark (dict_get (latest_prices e) t) \<noteq> None) (tickers e)"
    and "pair_fills fparse fromiso None (map raw_of_fill (trade_log e)) = Inr rows"
  shows "list_all (\<lambda>p. op_mark p \<noteq> None) (open_positions rows (latest_prices e))"
proof -
  have "rows = number_rows 0 (pair_rows (log_fills (trade_log e)))"
    using log_pairs(1) [OF assms(1,2)] assms(5) by simp
  then have "symbol w \<in> set (tickers e)" if "w \<in> set rows" for w
    using that assms(3) pair_rows_symbol [of _ "log_fills (trade_log e)"]
    by (fastforce simp: list_all_iff log_fills_tickers row.defs dest: number_rows_mem)
  with assms(4) show ?thesis
    by (auto simp: open_positions_def open_position_of_def Let_def list_all_iff)
qed

definition account_start :: executor where
  "account_start =
     \<lparr>tickers = [''T''], leverage = Fin 2, slippage = Fin 0, ex_cost_model = None, commission_per_share = Fin 0,
      adv_lookup = [], sigma_lookup = [], ex_gate = None, current_time = None, cash = Fin 1000,
      positions = [(''T'', Fin 0)], latest_prices = [(''T'', Fin 0)], trade_log = []\<rparr>"

definition account_ops :: "exec_op list" where
  "account_ops = [OpPrice ''T'' (Fin 10),
     OpChild \<lparr>ch_ticker = ''T'', ch_signal = ''BUY'', ch_quantity = Fin 7, ch_confidence = Fin 1, ch_portfolio = ''p''\<rparr>
       \<lparr>wall = 0, utc_offset = None\<rparr>, OpPrice ''T'' (Fin 12)]"

lemma account_demo:
  "make_executor (Fin 1000) [''T''] (Fin 2) (Fin 0) None [] [] (Fin 0) None = Inr account_start"
  "exec_wf account_start" "list_all pair_op_ok account_ops"
  by (simp_all add: make_executor_def account_start_def zero_Fin init_dict_def exec_wf_def all_finite_def
      account_ops_def whole_def)

lemma account_end:
  "let e = foldl (exec_step (\<lambda>_. None)) account_start account_ops in
     tickers e = [''T''] \<and> latest_prices e = [(''T'', Fin 12)] \<and> length (trade_log e) = 1 \<and>
     list_all (\<lambda>fl. f_ticker fl = ''T'') (trade_log e)"
  by (simp add: account_start_def account_ops_def update_price_def execute_child_order_def price_child_def
      price_of_def dict_or_def apply_slippage_def zero_Fin one_Fin settle_def Let_def)

theorem report_explains_equity_witness:
  "let e = foldl (exec_step (\<lambda>_. None)) account_start account_ops in
     length (trade_log e) = 1 \<and>
     (\<exists>rows. pair_fills (\<lambda>_. None) (\<lambda>_. None) None (map raw_of_fill (trade_log e)) = Inr rows \<and>
       equity e = 1000 + (\<Sum>w\<leftarrow>rows. realval (pnl w)) + (\<Sum>p\<leftarrow>open_positions rows (latest_prices e). unrealized p)
        - (\<Sum>w\<leftarrow>rows. realval (row_fees w)))"
proof -
  define e where "e = foldl (exec_step (\<lambda>_. None)) account_start account_ops"
  have log: "ledger 1000 e" "list_all pairable (trade_log e)"
    using broker_log [OF account_demo] by (simp_all add: e_def)
  have fin: "tickers e = [''T'']" "latest_prices e = [(''T'', Fin 12)]" "length (trade_log e) = 1"
    "list_all (\<lambda>fl. f_ticker fl \<in> set (tickers e)) (trade_log e)"
    using account_end by (simp_all add: Let_def e_def)
  have "distinct (tickers e)" by (simp add: fin)
  from report_explains_equity [OF account_demo e_def this fin(4), where fromiso = "\<lambda>_. None"]
  obtain rows where rows: "pair_fills (\<lambda>_. None) (\<lambda>_. None) None (map raw_of_fill (trade_log e)) = Inr rows"
    "list_all (\<lambda>p. op_mark p \<noteq> None) (open_positions rows (latest_prices e)) \<longrightarrow>
      equity e = 1000 + (\<Sum>w\<leftarrow>rows. realval (pnl w)) + (\<Sum>p\<leftarrow>open_positions rows (latest_prices e). unrealized p)
        - (\<Sum>w\<leftarrow>rows. realval (row_fees w))" by blast
  have "list_all (\<lambda>t. usable_mark (dict_get (latest_prices e) t) \<noteq> None) (tickers e)"
    by (simp add: fin usable_mark_def zero_Fin)
  from quoted_marks [OF log fin(4) this rows(1)] rows fin(3) show ?thesis
    unfolding Let_def e_def [symmetric] by blast
qed

end
