(* ===== verification/Indicators.thy ===== *)
theory Indicators
  imports Prelude
begin

text \<open>
  The streaming indicators of \<open>engine/indicators\<close>, one record and one \<open>Update\<close> per class, the
  payload builder of \<open>BasePortfolio\<close> that feeds them, and the dashboard's batch
  formulas of \<open>src/services/technical_indicators.py\<close>. A constructor's checks are its
  \<open>make_\<close> function. \<open>Current\<close> is \<open>None\<close> until the indicator is ready. The displacement of a
  moving average is nonnegative, the batch periods are positive, and the fast period is not
  above the slow one, as in every call of the code.
\<close>

section \<open>Buffers\<close>

text \<open>\<open>deque(maxlen=n)\<close>: appending to a full deque drops its oldest element.\<close>

definition dq_append :: "nat \<Rightarrow> 'a list \<Rightarrow> 'a \<Rightarrow> 'a list" where
  "dq_append n q x = drop (length q + 1 - n) (q @ [x])"

definition psum :: "pyfloat list \<Rightarrow> pyfloat" where "psum xs = foldl (+) 0 xs"

definition pmean :: "pyfloat list \<Rightarrow> pyfloat" where
  "pmean xs = truediv (psum xs) (Fin (real (length xs)))"

abbreviation fnat :: "nat \<Rightarrow> pyfloat" where "fnat n \<equiv> Fin (real n)"

definition positive_period :: "int \<Rightarrow> 'a \<Rightarrow> py_exn + 'a" where
  "positive_period p s = (if p \<le> 0 then Inl ValueError else Inr s)"

section \<open>Moving averages\<close>

record sma =
  sma_period :: nat
  sma_window :: "pyfloat list"
  sma_sum :: pyfloat
  sma_current :: "pyfloat option"

text \<open>\<open>if not self.period\<close> lets a negative period through, which \<open>deque\<close> then refuses with
  a \<open>ValueError\<close> of its own.\<close>

definition make_sma :: "int \<Rightarrow> py_exn + sma" where
  "make_sma p = positive_period p \<lparr>sma_period = nat p, sma_window = [], sma_sum = 0, sma_current = None\<rparr>"

definition sma_update :: "sma \<Rightarrow> pyfloat \<Rightarrow> sma" where
  "sma_update s x =
     (let s0 = (if length (sma_window s) = sma_period s then sma_sum s - hd (sma_window s) else sma_sum s);
          w = dq_append (sma_period s) (sma_window s) x; total = s0 + x in
      s\<lparr>sma_window := w, sma_sum := total,
        sma_current := (if length w = sma_period s then Some (truediv total (fnat (sma_period s))) else sma_current s)\<rparr>)"

record ema =
  ema_period :: nat
  ema_value :: "pyfloat option"
  ema_count :: nat
  ema_sum :: pyfloat

definition make_ema :: "int \<Rightarrow> py_exn + ema" where
  "make_ema p = positive_period p \<lparr>ema_period = nat p, ema_value = None, ema_count = 0, ema_sum = 0\<rparr>"

definition ema_multiplier :: "nat \<Rightarrow> pyfloat" where
  "ema_multiplier p = Fin (2 / (real p + 1))"

definition ema_update :: "ema \<Rightarrow> pyfloat \<Rightarrow> ema" where
  "ema_update s x =
     (let s = s\<lparr>ema_count := ema_count s + 1\<rparr> in
      case ema_value s of
        None \<Rightarrow> let s = s\<lparr>ema_sum := ema_sum s + x\<rparr> in
          if ema_count s = ema_period s then s\<lparr>ema_value := Some (truediv (ema_sum s) (fnat (ema_period s)))\<rparr> else s
      | Some v \<Rightarrow> s\<lparr>ema_value := Some (x * ema_multiplier (ema_period s) + v * (1 - ema_multiplier (ema_period s)))\<rparr>)"

record dma =
  dma_period :: nat
  dma_displacement :: nat
  dma_buffer :: "pyfloat list"
  dma_current :: "pyfloat option"

definition make_dma :: "int \<Rightarrow> nat \<Rightarrow> py_exn + dma" where
  "make_dma p d = positive_period p \<lparr>dma_period = nat p, dma_displacement = d, dma_buffer = [], dma_current = None\<rparr>"

definition dma_update :: "dma \<Rightarrow> pyfloat \<Rightarrow> dma" where
  "dma_update s x =
     (let n = dma_period s + dma_displacement s; b = dq_append n (dma_buffer s) x in
      s\<lparr>dma_buffer := b,
        dma_current := (if length b = n
          then let stop = length b - dma_displacement s; start = stop - dma_period s in
               Some (truediv (psum (take (stop - start) (drop start b))) (fnat (dma_period s)))
          else dma_current s)\<rparr>)"

section \<open>Rate of change, average true range, volume-weighted price\<close>

record roc =
  roc_period :: nat
  roc_buffer :: "pyfloat list"
  roc_current :: "pyfloat option"

definition make_roc :: "int \<Rightarrow> py_exn + roc" where
  "make_roc p = positive_period p \<lparr>roc_period = nat p, roc_buffer = [], roc_current = None\<rparr>"

definition roc_update :: "roc \<Rightarrow> pyfloat \<Rightarrow> roc" where
  "roc_update s x =
     (let b = dq_append (roc_period s + 1) (roc_buffer s) x in
      s\<lparr>roc_buffer := b,
        roc_current := (if length b = roc_period s + 1
          then let old = hd b; new = last b in
               Some (if feq old 0 then Fin 0 else truediv (new - old) old * Fin 100)
          else roc_current s)\<rparr>)"

record atr =
  atr_period :: nat
  atr_buffer :: "pyfloat list"
  atr_prev :: "pyfloat option"
  atr_sum :: pyfloat
  atr_current :: "pyfloat option"

definition make_atr :: "int \<Rightarrow> py_exn + atr" where
  "make_atr p = positive_period p \<lparr>atr_period = nat p, atr_buffer = [], atr_prev = None, atr_sum = 0, atr_current = None\<rparr>"

definition true_range :: "pyfloat \<Rightarrow> pyfloat \<Rightarrow> pyfloat \<Rightarrow> pyfloat" where
  "true_range prev high low = py_max (py_max (high - low) \<bar>high - prev\<bar>) \<bar>low - prev\<bar>"

text \<open>A bar is its close, high and low; a missing high or low is the close.\<close>

definition atr_update :: "atr \<Rightarrow> pyfloat \<Rightarrow> pyfloat option \<Rightarrow> pyfloat option \<Rightarrow> atr" where
  "atr_update s close high low =
     (let h = (case high of None \<Rightarrow> close | Some v \<Rightarrow> v); l = (case low of None \<Rightarrow> close | Some v \<Rightarrow> v) in
      case atr_prev s of
        None \<Rightarrow> s\<lparr>atr_prev := Some close\<rparr>
      | Some prev \<Rightarrow>
          let tr = true_range prev h l;
              s0 = (if length (atr_buffer s) = atr_period s then atr_sum s - hd (atr_buffer s) else atr_sum s);
              b = dq_append (atr_period s) (atr_buffer s) tr; total = s0 + tr in
          s\<lparr>atr_buffer := b, atr_sum := total, atr_prev := Some close,
            atr_current := (if length b = atr_period s then Some (truediv total (fnat (atr_period s))) else atr_current s)\<rparr>)"

record vwap =
  vwap_period :: nat
  vwap_pv :: "pyfloat list"
  vwap_vol :: "pyfloat list"
  vwap_sum_pv :: pyfloat
  vwap_sum_vol :: pyfloat
  vwap_current :: "pyfloat option"

definition make_vwap :: "int \<Rightarrow> py_exn + vwap" where
  "make_vwap p = positive_period p
     \<lparr>vwap_period = nat p, vwap_pv = [], vwap_vol = [], vwap_sum_pv = 0, vwap_sum_vol = 0, vwap_current = None\<rparr>"

definition vwap_update :: "vwap \<Rightarrow> pyfloat \<Rightarrow> pyfloat option \<Rightarrow> vwap" where
  "vwap_update s price volume =
     (let vol = (case volume of None \<Rightarrow> Fin 1 | Some v \<Rightarrow> v); pv = price * vol;
          full = (length (vwap_pv s) = vwap_period s);
          pv0 = (if full then vwap_sum_pv s - hd (vwap_pv s) else vwap_sum_pv s);
          vol0 = (if full then vwap_sum_vol s - hd (vwap_vol s) else vwap_sum_vol s);
          bp = dq_append (vwap_period s) (vwap_pv s) pv; bv = dq_append (vwap_period s) (vwap_vol s) vol;
          spv = pv0 + pv; sv = vol0 + vol in
      s\<lparr>vwap_pv := bp, vwap_vol := bv, vwap_sum_pv := spv, vwap_sum_vol := sv,
        vwap_current := (if length bp = vwap_period s then Some (if sv > 0 then truediv spv sv else price)
                         else vwap_current s)\<rparr>)"

section \<open>Wilder's indices\<close>

definition wilder :: "nat \<Rightarrow> pyfloat \<Rightarrow> pyfloat \<Rightarrow> pyfloat" where
  "wilder p avg x = truediv (avg * fnat (p - 1) + x) (fnat p)"

definition strength_index :: "pyfloat \<Rightarrow> pyfloat \<Rightarrow> pyfloat" where
  "strength_index gain loss =
     (if feq loss 0 then Fin 100 else Fin 100 - truediv (Fin 100) (Fin 1 + truediv gain loss))"

record rsi =
  rsi_period :: nat
  rsi_prev :: "pyfloat option"
  rsi_gains :: "pyfloat list"
  rsi_losses :: "pyfloat list"
  rsi_avg :: "(pyfloat \<times> pyfloat) option"
  rsi_current :: "pyfloat option"

text \<open>Only a zero period is refused; a negative one leaves an indicator that is never ready.\<close>

definition make_rsi :: "int \<Rightarrow> py_exn + rsi" where
  "make_rsi p = (if p = 0 then Inl ValueError
     else Inr \<lparr>rsi_period = nat p, rsi_prev = None, rsi_gains = [], rsi_losses = [], rsi_avg = None, rsi_current = None\<rparr>)"

definition rsi_update :: "rsi \<Rightarrow> pyfloat \<Rightarrow> rsi" where
  "rsi_update s x =
     (case rsi_prev s of
        None \<Rightarrow> s\<lparr>rsi_prev := Some x\<rparr>
      | Some prev \<Rightarrow>
          let change = x - prev;
              gain = (if change > 0 then change else 0); loss = (if change > 0 then 0 else \<bar>change\<bar>);
              gains = rsi_gains s @ [gain]; losses = rsi_losses s @ [loss] in
          if length gains = rsi_period s
          then let (g, l) = (case rsi_avg s of
                     None \<Rightarrow> (pmean gains, pmean losses)
                   | Some (ag, al) \<Rightarrow> (wilder (rsi_period s) ag (last gains), wilder (rsi_period s) al (last losses))) in
               s\<lparr>rsi_prev := Some x, rsi_gains := tl gains, rsi_losses := tl losses, rsi_avg := Some (g, l),
                 rsi_current := Some (strength_index g l)\<rparr>
          else s\<lparr>rsi_prev := Some x, rsi_gains := gains, rsi_losses := losses\<rparr>)"

record rmi =
  rmi_period :: nat
  rmi_momentum :: nat
  rmi_prices :: "pyfloat list"
  rmi_seed_gains :: "pyfloat list"
  rmi_seed_losses :: "pyfloat list"
  rmi_avg :: "(pyfloat \<times> pyfloat) option"
  rmi_current :: "pyfloat option"

definition make_rmi :: "int \<Rightarrow> int \<Rightarrow> py_exn + rmi" where
  "make_rmi p m = (if p \<le> 0 then Inl ValueError else if m \<le> 0 then Inl ValueError
     else Inr \<lparr>rmi_period = nat p, rmi_momentum = nat m, rmi_prices = [], rmi_seed_gains = [], rmi_seed_losses = [],
               rmi_avg = None, rmi_current = None\<rparr>)"

definition rmi_update :: "rmi \<Rightarrow> pyfloat \<Rightarrow> rmi" where
  "rmi_update s x =
     (let ps = dq_append (rmi_momentum s + 1) (rmi_prices s) x; s1 = s\<lparr>rmi_prices := ps\<rparr> in
      if length ps < rmi_momentum s + 1 then s1
      else let momentum = last ps - hd ps; gain = py_max momentum (Fin 0); loss = py_max (- momentum) (Fin 0);
               s2 = (case rmi_avg s of
                  None \<Rightarrow>
                    let gs = dq_append (rmi_period s) (rmi_seed_gains s) gain;
                        ls = dq_append (rmi_period s) (rmi_seed_losses s) loss in
                    s1\<lparr>rmi_seed_gains := gs, rmi_seed_losses := ls,
                       rmi_avg := (if length gs = rmi_period s then Some (pmean gs, pmean ls) else None)\<rparr>
                | Some (g, l) \<Rightarrow> s1\<lparr>rmi_avg := Some (wilder (rmi_period s) g gain, wilder (rmi_period s) l loss)\<rparr>) in
           (case rmi_avg s2 of None \<Rightarrow> s2 | Some (g, l) \<Rightarrow> s2\<lparr>rmi_current := Some (strength_index g l)\<rparr>))"

section \<open>Dashboard formulas\<close>

definition require_length :: "'a list \<Rightarrow> nat \<Rightarrow> py_exn + unit" where
  "require_length xs n = guard_e ValueError (n \<le> length xs)"

definition last_n :: "nat \<Rightarrow> 'a list \<Rightarrow> 'a list" where
  "last_n n xs = drop (length xs - n) xs"

definition simple_moving_average :: "pyfloat list \<Rightarrow> nat \<Rightarrow> py_exn + pyfloat" where
  "simple_moving_average closes p =
     ebind (require_length closes p) (\<lambda>_. py_div (psum (last_n p closes)) (fnat p))"

definition ema_series :: "pyfloat list \<Rightarrow> nat \<Rightarrow> pyfloat list" where
  "ema_series values p =
     (let k = Fin (2 / (real p + 1)); seed = truediv (psum (take p values)) (fnat p) in
      rev (foldl (\<lambda>acc v. (v * k + hd acc * (Fin 1 - k)) # acc) [seed] (drop p values)))"

definition price_changes :: "pyfloat list \<Rightarrow> pyfloat list" where
  "price_changes closes = map (\<lambda>(a, b). b - a) (zip closes (tl closes))"

definition relative_strength_index :: "pyfloat list \<Rightarrow> nat \<Rightarrow> py_exn + pyfloat" where
  "relative_strength_index closes p =
     ebind (require_length closes (p + 1)) (\<lambda>_.
       let changes = price_changes closes;
           g0 = truediv (psum (map (\<lambda>c. py_max c (Fin 0)) (take p changes))) (fnat p);
           l0 = truediv (psum (map (\<lambda>c. py_max (- c) (Fin 0)) (take p changes))) (fnat p);
           (g, l) = foldl (\<lambda>(g, l) c. (wilder p g (py_max c (Fin 0)), wilder p l (py_max (- c) (Fin 0))))
                      (g0, l0) (drop p changes)
       in Inr (if feq l 0 then (if g > 0 then Fin 100 else Fin 50)
               else py_min (py_max (Fin 100 - truediv (Fin 100) (Fin 1 + truediv g l)) (Fin 0)) (Fin 100)))"

definition macd_histogram :: "pyfloat list \<Rightarrow> nat \<Rightarrow> nat \<Rightarrow> nat \<Rightarrow> py_exn + pyfloat" where
  "macd_histogram closes fast slow signal =
     ebind (require_length closes (slow + signal - 1)) (\<lambda>_.
       let fs = ema_series closes fast; ss = ema_series closes slow;
           line = map (\<lambda>(a, b). a - b) (zip (drop (slow - fast) fs) ss);
           sig = ema_series line signal
       in Inr (last line - last sig))"

definition sma_regime :: "pyfloat list \<Rightarrow> py_exn + string" where
  "sma_regime closes =
     ebind (simple_moving_average closes 50) (\<lambda>fast.
     ebind (simple_moving_average closes 200) (\<lambda>slow.
       Inr (if fast > slow then ''above'' else ''below'')))"

definition momentum_ratio :: "pyfloat list \<Rightarrow> nat \<Rightarrow> py_exn + pyfloat" where
  "momentum_ratio closes p =
     ebind (require_length closes (p + 1)) (\<lambda>_.
       let base = closes ! (length closes - p - 1) in
       if feq base 0 then Inl ValueError
       else ebind (py_div (last closes) base) (\<lambda>q. Inr (q - Fin 1)))"

text \<open>Articles are a publication instant and a score.\<close>

definition week_us :: int where "week_us = 7 * day_us"

definition score_mean :: "pyfloat list \<Rightarrow> pyfloat" where
  "score_mean xs = (if xs = [] then Fin 0 else pmean xs)"

definition sentiment_window_scores :: "(int \<times> pyfloat) list \<Rightarrow> int \<Rightarrow> pyfloat \<times> pyfloat" where
  "sentiment_window_scores articles window_end =
     (let cur_start = window_end - week_us; prior_start = cur_start - week_us;
          cur = map snd (filter (\<lambda>(t, _). cur_start < t \<and> t \<le> window_end) articles);
          prior = map snd (filter (\<lambda>(t, _). prior_start < t \<and> t \<le> cur_start) articles);
          cm = score_mean cur; pm = score_mean prior
      in (py_min (py_max cm (Fin (- 1))) (Fin 1), cm - pm))"

section \<open>Feeding an indicator from a bar\<close>

text \<open>A bar is the columns of its row; NaN is a missing value. An indicator names the columns
  it reads.\<close>

record bar =
  bar_time :: int
  bar_ticker :: string
  bar_values :: "(string, pyfloat) dict"

datatype indicator = ISma sma | IEma ema | IDma dma | IRoc roc | IAtr atr | IVwap vwap | IRsi rsi | IRmi rmi

record indicator_slot =
  ind_ticker :: string
  ind_state :: indicator
  ind_price_col :: "string option"
  ind_close_col :: "string option"
  ind_vol_col :: "string option"
  ind_high_col :: "string option"
  ind_low_col :: "string option"

definition nonempty :: "string option \<Rightarrow> string option" where
  "nonempty c = (case c of None \<Rightarrow> None | Some s \<Rightarrow> if s = [] then None else Some s)"

definition price_column :: "indicator_slot \<Rightarrow> string" where
  "price_column i = (case nonempty (ind_price_col i) of Some c \<Rightarrow> c
     | None \<Rightarrow> (case nonempty (ind_close_col i) of Some c \<Rightarrow> c | None \<Rightarrow> ''close_price''))"

definition column_value :: "(string, pyfloat) dict \<Rightarrow> string option \<Rightarrow> pyfloat option" where
  "column_value row c = (case nonempty c of None \<Rightarrow> None
     | Some k \<Rightarrow> (case dict_get row k of None \<Rightarrow> None | Some v \<Rightarrow> if v = NaN then None else Some v))"

definition add_column :: "(string, pyfloat) dict \<Rightarrow> string option \<Rightarrow> (string, pyfloat) dict \<Rightarrow> (string, pyfloat) dict" where
  "add_column row c d = (case column_value row c of None \<Rightarrow> d | Some v \<Rightarrow> dict_set (the c) v d)"

definition update_payload :: "indicator_slot \<Rightarrow> (string, pyfloat) dict \<Rightarrow> (pyfloat \<times> (string, pyfloat) dict) option" where
  "update_payload i row =
     (case dict_get row (price_column i) of
        None \<Rightarrow> None
      | Some price \<Rightarrow>
          if price = NaN then None
          else let d0 = (case column_value row (ind_vol_col i) of None \<Rightarrow> []
                     | Some v \<Rightarrow> dict_set ''volume'' v (dict_set (the (ind_vol_col i)) v []));
                   d1 = add_column row (ind_high_col i) d0;
                   d2 = add_column row (ind_low_col i) d1;
                   d3 = add_column row (ind_close_col i) d2 in
               Some (price, d3))"

fun update_state :: "string option \<Rightarrow> string option \<Rightarrow> indicator \<Rightarrow> pyfloat \<Rightarrow> (string, pyfloat) dict \<Rightarrow> indicator" where
  "update_state hc lc (ISma s) x kw = ISma (sma_update s x)"
| "update_state hc lc (IEma s) x kw = IEma (ema_update s x)"
| "update_state hc lc (IDma s) x kw = IDma (dma_update s x)"
| "update_state hc lc (IRoc s) x kw = IRoc (roc_update s x)"
| "update_state hc lc (IAtr s) x kw = IAtr (atr_update s x (dict_get kw (the hc)) (dict_get kw (the lc)))"
| "update_state hc lc (IVwap s) x kw = IVwap (vwap_update s x (dict_get kw ''volume''))"
| "update_state hc lc (IRsi s) x kw = IRsi (rsi_update s x)"
| "update_state hc lc (IRmi s) x kw = IRmi (rmi_update s x)"

definition update_from_row :: "indicator_slot \<Rightarrow> (string, pyfloat) dict \<Rightarrow> indicator_slot" where
  "update_from_row i row =
     (case update_payload i row of None \<Rightarrow> i
      | Some (x, kw) \<Rightarrow> i\<lparr>ind_state := update_state (ind_high_col i) (ind_low_col i) (ind_state i) x kw\<rparr>)"

end
