(* ===== verification/Indicators_Claims.thy ===== *)
theory Indicators_Claims
  imports Indicators
begin

text \<open>
  The streaming indicators compute their textbook formulas on the last bars, agree with the
  dashboard's batch formulas, and the strength indices stay between 0 and 100.
\<close>

section \<open>Finite arithmetic\<close>

lemma psum_Fin [simp]: "psum (map Fin xs) = Fin (sum_list xs)"
proof -
  have "foldl (+) (Fin a) (map Fin xs) = Fin (a + sum_list xs)" for a
    by (induction xs arbitrary: a) (simp_all add: add.assoc)
  then show ?thesis by (simp add: psum_def zero_Fin)
qed

lemma truediv_Fin [simp]: "b \<noteq> 0 \<Longrightarrow> truediv (Fin a) (Fin b) = Fin (a / b)"
  by (simp add: truediv_def)

lemma pmean_Fin [simp]: "xs \<noteq> [] \<Longrightarrow> pmean (map Fin xs) = Fin (sum_list xs / real (length xs))"
  by (simp add: pmean_def)

lemma finite_list: "list_all isfinite xs \<Longrightarrow> \<exists>rs. xs = map Fin rs"
proof (induction xs)
  case (Cons x xs)
  then obtain r rs where "x = Fin r" "xs = map Fin rs" by (auto simp: isfinite_iff)
  then have "x # xs = map Fin (r # rs)" by simp
  then show ?case by (rule exI)
qed simp

section \<open>Rolling windows\<close>

lemma last_n_snoc: "last_n n (xs @ [x]) = dq_append n (last_n n xs) x"
  by (cases "n \<le> length xs") (auto simp: last_n_def dq_append_def Suc_diff_le)

lemma length_last_n [simp]: "length (last_n n xs) = min n (length xs)"
  by (simp add: last_n_def)

lemma last_n_map: "last_n n (map f xs) = map f (last_n n xs)"
  by (simp add: last_n_def drop_map)

lemma last_n_all: "length xs \<le> n \<Longrightarrow> last_n n xs = xs"
  by (simp add: last_n_def)

lemma sum_list_dq:
  fixes q :: "real list"
  assumes "0 < n" "length q \<le> n"
  shows "sum_list (dq_append n q x) = (if length q = n then sum_list q - hd q else sum_list q) + x"
  using assms by (cases q) (auto simp: dq_append_def)

text \<open>A component that keeps an encoding of its last \<open>n\<close> inputs and answers a function of them
  once it has them all.\<close>

locale rolling =
  fixes init :: 's and step :: "'s \<Rightarrow> 'a \<Rightarrow> 's" and enc :: "'a \<Rightarrow> 'w" and window :: "'s \<Rightarrow> 'w list" and n :: nat
    and inv :: "'s \<Rightarrow> bool" and answer :: "'s \<Rightarrow> 'b option" and spec :: "'w list \<Rightarrow> 'b" and ok :: "'a \<Rightarrow> bool"
  assumes init: "inv init" "window init = []" "answer init = None" and pos: "0 < n"
    and step_inv: "inv s \<Longrightarrow> ok x \<Longrightarrow> inv (step s x)"
    and step_window: "inv s \<Longrightarrow> ok x \<Longrightarrow> window (step s x) = dq_append n (window s) (enc x)"
    and step_answer: "inv s \<Longrightarrow> ok x \<Longrightarrow>
      answer (step s x) = (if length (window (step s x)) = n then Some (spec (window (step s x))) else answer s)"
begin

lemma run:
  assumes "list_all ok xs"
  shows "inv (foldl step init xs) \<and> window (foldl step init xs) = last_n n (map enc xs) \<and>
    answer (foldl step init xs) = (if n \<le> length xs then Some (spec (last_n n (map enc xs))) else None)"
  using assms
proof (induction xs rule: rev_induct)
  case Nil
  then show ?case using init pos by (simp add: last_n_def)
next
  case (snoc x xs)
  then have ih: "inv (foldl step init xs)" "window (foldl step init xs) = last_n n (map enc xs)"
    "answer (foldl step init xs) = (if n \<le> length xs then Some (spec (last_n n (map enc xs))) else None)" and x: "ok x"
    by simp_all
  have w: "window (step (foldl step init xs) x) = last_n n (map enc (xs @ [x]))"
    using step_window [OF ih(1) x] by (simp add: ih(2) last_n_snoc)
  have "answer (step (foldl step init xs) x) = (if length (last_n n (map enc (xs @ [x]))) = n
      then Some (spec (last_n n (map enc (xs @ [x])))) else answer (foldl step init xs))"
    using step_answer [OF ih(1) x] by (simp only: w)
  moreover have "length (last_n n (map enc (xs @ [x]))) = n \<longleftrightarrow> n \<le> length (xs @ [x])" by auto
  ultimately show ?case using ih step_inv [OF ih(1) x] w by simp
qed

lemmas answer_run = run [THEN conjunct2, THEN conjunct2]

end

text \<open>The moving average: a running sum over a full window.\<close>

definition sma_inv :: "nat \<Rightarrow> sma \<Rightarrow> bool" where
  "sma_inv p s \<longleftrightarrow> sma_period s = p \<and> length (sma_window s) \<le> p \<and> list_all isfinite (sma_window s) \<and>
     sma_sum s = psum (sma_window s)"

definition sma_start :: "nat \<Rightarrow> sma" where
  "sma_start p = \<lparr>sma_period = p, sma_window = [], sma_sum = 0, sma_current = None\<rparr>"

lemma dq_append_Fin: "dq_append n (map Fin rs) (Fin r) = map Fin (dq_append n rs r)"
proof -
  have "map Fin rs @ [Fin r] = map Fin (rs @ [r])" by simp
  then show ?thesis unfolding dq_append_def by (simp only: drop_map length_map)
qed

lemma psum_dq:
  assumes "0 < n" "length q \<le> n" "list_all isfinite q" "isfinite x"
  shows "length q = n \<Longrightarrow> psum q - hd q + x = psum (dq_append n q x)"
    and "length q \<noteq> n \<Longrightarrow> psum q + x = psum (dq_append n q x)"
proof -
  obtain rs r where rs: "q = map Fin rs" "x = Fin r"
    using finite_list [OF assms(3)] assms(4) by (auto simp: isfinite_iff)
  have h: "rs \<noteq> [] \<Longrightarrow> hd (map Fin rs) = Fin (hd rs)" by (simp add: hd_map)
  show "length q = n \<Longrightarrow> psum q - hd q + x = psum (dq_append n q x)"
    "length q \<noteq> n \<Longrightarrow> psum q + x = psum (dq_append n q x)"
    using sum_list_dq [OF assms(1), of rs r] assms(1,2) h unfolding rs dq_append_Fin by auto
qed

lemma dq_append_ok: "list_all P q \<Longrightarrow> P x \<Longrightarrow> list_all P (dq_append n q x)"
  by (auto simp: dq_append_def list_all_iff dest: in_set_dropD)

lemma dq_append_length: "length q \<le> n \<Longrightarrow> length (dq_append n q x) \<le> n"
  by (simp add: dq_append_def)

interpretation sma_rolling: rolling "sma_start (Suc p)" sma_update "\<lambda>x. x" sma_window "Suc p" "sma_inv (Suc p)" sma_current
  "\<lambda>w. truediv (psum w) (fnat (Suc p))" isfinite for p
proof unfold_locales
  fix s x
  assume s: "sma_inv (Suc p) s" and x: "isfinite x"
  note sum = psum_dq [of "Suc p" "sma_window s" x]
  show "sma_inv (Suc p) (sma_update s x)"
    using s x sum by (simp add: sma_inv_def sma_update_def Let_def dq_append_ok dq_append_length)
  show "sma_window (sma_update s x) = dq_append (Suc p) (sma_window s) x"
    using s by (simp add: sma_inv_def sma_update_def Let_def)
  show "sma_current (sma_update s x) = (if length (sma_window (sma_update s x)) = Suc p
      then Some (truediv (psum (sma_window (sma_update s x))) (fnat (Suc p))) else sma_current s)"
    using s x sum by (simp add: sma_inv_def sma_update_def Let_def)
qed (simp_all add: sma_inv_def sma_start_def psum_def)

text \<open>The rate of change: first against last of a window of one more than the period.\<close>

definition roc_start :: "nat \<Rightarrow> roc" where
  "roc_start p = \<lparr>roc_period = p, roc_buffer = [], roc_current = None\<rparr>"

definition roc_spec :: "pyfloat list \<Rightarrow> pyfloat" where
  "roc_spec w = (if feq (hd w) 0 then Fin 0 else truediv (last w - hd w) (hd w) * Fin 100)"

interpretation roc_rolling: rolling "roc_start p" roc_update "\<lambda>x. x" roc_buffer "p + 1" "\<lambda>s. roc_period s = p"
  roc_current roc_spec "\<lambda>_. True" for p
  by unfold_locales (simp_all add: roc_start_def roc_update_def roc_spec_def Let_def)

text \<open>The displaced average: the mean of the oldest \<open>p\<close> of the last \<open>p + d\<close> bars.\<close>

definition dma_start :: "nat \<Rightarrow> nat \<Rightarrow> dma" where
  "dma_start p d = \<lparr>dma_period = p, dma_displacement = d, dma_buffer = [], dma_current = None\<rparr>"

interpretation dma_rolling: rolling "dma_start (Suc p) d" dma_update "\<lambda>x. x" dma_buffer "Suc p + d"
  "\<lambda>s. dma_period s = Suc p \<and> dma_displacement s = d" dma_current
  "\<lambda>w. truediv (psum (take (Suc p) w)) (fnat (Suc p))" "\<lambda>_. True" for p d
  by unfold_locales (simp_all add: dma_start_def dma_update_def Let_def)

text \<open>The volume-weighted price, while volumes are positive.\<close>

definition vwap_start :: "nat \<Rightarrow> vwap" where
  "vwap_start p = \<lparr>vwap_period = p, vwap_pv = [], vwap_vol = [], vwap_sum_pv = 0, vwap_sum_vol = 0, vwap_current = None\<rparr>"

definition vwap_step :: "vwap \<Rightarrow> pyfloat \<times> pyfloat \<Rightarrow> vwap" where
  "vwap_step s = (\<lambda>(x, v). vwap_update s x (Some v))"

definition vwap_inv :: "nat \<Rightarrow> vwap \<Rightarrow> bool" where
  "vwap_inv p s \<longleftrightarrow> vwap_period s = p \<and> length (vwap_pv s) \<le> p \<and> length (vwap_vol s) = length (vwap_pv s) \<and>
     list_all isfinite (vwap_pv s) \<and> list_all (\<lambda>v. isfinite v \<and> v > 0) (vwap_vol s) \<and>
     vwap_sum_pv s = psum (vwap_pv s) \<and> vwap_sum_vol s = psum (vwap_vol s)"

lemma psum_pos:
  assumes "list_all (\<lambda>v. isfinite v \<and> v > 0) vs" "vs \<noteq> []"
  shows "psum vs > 0"
proof -
  have "list_all isfinite vs" using assms(1) by (simp add: list_all_iff)
  then obtain rs where rs: "vs = map Fin rs" using finite_list by blast
  then have "\<forall>r\<in>set rs. 0 < r" "rs \<noteq> []" using assms by (auto simp: list_all_iff zero_Fin)
  then have "0 < sum_list rs" by (induction rs) (auto simp: add_pos_nonneg sum_list_nonneg less_imp_le)
  then show ?thesis by (simp add: rs zero_Fin)
qed

lemma dq_append_nonempty: "0 < n \<Longrightarrow> dq_append n q x \<noteq> []"
  by (simp add: dq_append_def)

lemma zip_dq: "length a = length b \<Longrightarrow> zip (dq_append n a x) (dq_append n b y) = dq_append n (zip a b) (x, y)"
  by (simp add: dq_append_def flip: drop_zip)

lemma vwap_step_inv:
  assumes "vwap_inv (Suc p) s" "isfinite x" "isfinite v" "v > 0"
  defines "t \<equiv> vwap_step s (x, v)"
  shows "vwap_inv (Suc p) t" "vwap_pv t = dq_append (Suc p) (vwap_pv s) (x * v)"
    "vwap_vol t = dq_append (Suc p) (vwap_vol s) v"
    "vwap_current t = (if length (vwap_pv t) = Suc p then Some (truediv (psum (vwap_pv t)) (psum (vwap_vol t)))
       else vwap_current s)"
proof -
  have fin: "list_all isfinite (vwap_vol s)" using assms(1) by (simp add: vwap_inv_def list_all_iff)
  have pv: "isfinite (x * v)" using assms(2,3) by simp
  note sp = psum_dq [of "Suc p" "vwap_pv s" "x * v", OF _ _ _ pv] and sv = psum_dq [of "Suc p" "vwap_vol s" v, OF _ _ fin assms(3)]
  show pvt: "vwap_pv t = dq_append (Suc p) (vwap_pv s) (x * v)" "vwap_vol t = dq_append (Suc p) (vwap_vol s) v"
    using assms(1) by (simp_all add: t_def vwap_step_def vwap_update_def Let_def vwap_inv_def)
  have sums: "vwap_sum_pv t = psum (vwap_pv t)" "vwap_sum_vol t = psum (vwap_vol t)"
    using assms(1) sp sv unfolding pvt by (simp_all add: t_def vwap_step_def vwap_update_def Let_def vwap_inv_def)
  have vols: "list_all (\<lambda>v. isfinite v \<and> v > 0) (vwap_vol t)"
    unfolding pvt by (rule dq_append_ok) (use assms in \<open>simp_all add: vwap_inv_def\<close>)
  show "vwap_inv (Suc p) t"
    using assms(1) pv sums vols unfolding vwap_inv_def
    by (simp add: pvt dq_append_ok dq_append_length, simp add: t_def vwap_step_def vwap_update_def Let_def dq_append_def)
  have "psum (vwap_vol t) > 0" using vols by (rule psum_pos) (simp add: pvt dq_append_nonempty)
  then show "vwap_current t = (if length (vwap_pv t) = Suc p then Some (truediv (psum (vwap_pv t)) (psum (vwap_vol t)))
       else vwap_current s)"
    using assms(1) sums pvt by (simp add: t_def vwap_step_def vwap_update_def Let_def vwap_inv_def)
qed

interpretation vwap_rolling: rolling "vwap_start (Suc p)" vwap_step "\<lambda>(x, v). (x * v, v)" "\<lambda>s. zip (vwap_pv s) (vwap_vol s)"
  "Suc p" "vwap_inv (Suc p)" vwap_current "\<lambda>w. truediv (psum (map fst w)) (psum (map snd w))"
  "\<lambda>(x, v). isfinite x \<and> isfinite v \<and> v > 0" for p
proof unfold_locales
  fix s x
  assume s: "vwap_inv (Suc p) s" and "case x of (x, v) \<Rightarrow> isfinite x \<and> isfinite v \<and> v > 0"
  then obtain a v where x: "x = (a, v)" "isfinite a" "isfinite v" "v > 0" by (cases x) auto
  note st = vwap_step_inv [OF s x(2-4)]
  have len: "length (vwap_vol s) = length (vwap_pv s)" using s by (simp add: vwap_inv_def)
  show "vwap_inv (Suc p) (vwap_step s x)" using st(1) x(1) by simp
  show "zip (vwap_pv (vwap_step s x)) (vwap_vol (vwap_step s x)) =
      dq_append (Suc p) (zip (vwap_pv s) (vwap_vol s)) (case x of (x, v) \<Rightarrow> (x * v, v))"
    using st(2,3) x(1) len by (simp add: zip_dq)
  have "length (vwap_vol (vwap_step s x)) = length (vwap_pv (vwap_step s x))"
    using st(1) x(1) by (simp add: vwap_inv_def)
  then show "vwap_current (vwap_step s x) =
      (if length (zip (vwap_pv (vwap_step s x)) (vwap_vol (vwap_step s x))) = Suc p
       then Some (truediv (psum (map fst (zip (vwap_pv (vwap_step s x)) (vwap_vol (vwap_step s x)))))
              (psum (map snd (zip (vwap_pv (vwap_step s x)) (vwap_vol (vwap_step s x)))))) else vwap_current s)"
    using st(4) x(1) by simp
qed (simp_all add: vwap_inv_def vwap_start_def psum_def)

section \<open>The exponential average\<close>

definition ema_start :: "nat \<Rightarrow> ema" where
  "ema_start p = \<lparr>ema_period = p, ema_value = None, ema_count = 0, ema_sum = 0\<rparr>"

lemma psum_snoc: "psum (xs @ [x]) = psum xs + x"
  by (simp add: psum_def)

lemma ema_series_snoc:
  assumes "p \<le> length xs"
  shows "ema_series (xs @ [x]) p = ema_series xs p @
    [x * Fin (2 / (real p + 1)) + last (ema_series xs p) * (Fin 1 - Fin (2 / (real p + 1)))]"
  using assms by (simp add: ema_series_def Let_def last_rev)

lemma ema_series_short: "length xs = p \<Longrightarrow> ema_series xs p = [truediv (psum xs) (fnat p)]"
  by (simp add: ema_series_def)

lemma ema_run:
  assumes "0 < p"
  shows "foldl ema_update (ema_start p) xs =
    \<lparr>ema_period = p, ema_value = (if p \<le> length xs then Some (last (ema_series xs p)) else None),
     ema_count = length xs, ema_sum = psum (take p xs)\<rparr>"
proof (induction xs rule: rev_induct)
  case Nil
  then show ?case using assms by (simp add: ema_start_def psum_def)
next
  case (snoc x xs)
  consider "p \<le> length xs" | "length xs + 1 = p" | "length xs + 1 < p" by linarith
  then show ?case
  proof cases
    case 1
    with snoc show ?thesis by (simp add: ema_update_def ema_multiplier_def ema_series_snoc one_Fin)
  next
    case 2
    with snoc show ?thesis by (simp add: ema_update_def ema_series_short psum_snoc)
  next
    case 3
    with snoc show ?thesis by (simp add: ema_update_def psum_snoc)
  qed
qed

section \<open>Strength indices\<close>

definition nonneg_real :: "pyfloat \<Rightarrow> bool" where
  "nonneg_real x \<longleftrightarrow> (\<exists>r. x = Fin r \<and> 0 \<le> r)"

definition percentage :: "pyfloat \<Rightarrow> bool" where
  "percentage x \<longleftrightarrow> (\<exists>r. x = Fin r \<and> 0 \<le> r \<and> r \<le> 100)"

lemma strength_index_range:
  assumes "nonneg_real g" "nonneg_real l"
  shows "percentage (strength_index g l)"
proof -
  obtain a b where ab: "g = Fin a" "l = Fin b" "0 \<le> a" "0 \<le> b" using assms by (auto simp: nonneg_real_def)
  show ?thesis
  proof (cases "b = 0")
    case True
    then show ?thesis by (simp add: ab strength_index_def percentage_def zero_Fin)
  next
    case False
    with ab have q: "0 \<le> a / b" by simp
    then have "0 \<le> 100 / (1 + a / b)" "100 / (1 + a / b) \<le> 100" "1 + a / b \<noteq> 0" by (simp_all add: divide_le_eq)
    with False show ?thesis by (simp add: ab strength_index_def percentage_def zero_Fin)
  qed
qed

lemma wilder_nonneg:
  assumes "0 < p" "nonneg_real a" "nonneg_real x"
  shows "nonneg_real (wilder p a x)"
  using assms by (auto simp: nonneg_real_def wilder_def)

lemma pmean_nonneg:
  assumes "list_all nonneg_real xs" "xs \<noteq> []"
  shows "nonneg_real (pmean xs)"
proof -
  have "list_all isfinite xs" using assms(1) by (auto simp: list_all_iff nonneg_real_def)
  then obtain rs where rs: "xs = map Fin rs" using finite_list by blast
  then have "\<forall>r\<in>set rs. 0 \<le> r" "rs \<noteq> []" using assms by (auto simp: list_all_iff nonneg_real_def)
  then show ?thesis by (simp add: rs nonneg_real_def sum_list_nonneg)
qed

lemma up_down:
  assumes "isfinite c"
  shows "(if c > 0 then c else 0) = py_max c (Fin 0)" "(if c > 0 then 0 else \<bar>c\<bar>) = py_max (- c) (Fin 0)"
    "nonneg_real (py_max c (Fin 0))" "nonneg_real (py_max (- c) (Fin 0))"
  using assms by (auto simp: isfinite_iff zero_Fin nonneg_real_def)

definition rsi_start :: "nat \<Rightarrow> rsi" where
  "rsi_start p = \<lparr>rsi_period = p, rsi_prev = None, rsi_gains = [], rsi_losses = [], rsi_avg = None, rsi_current = None\<rparr>"

abbreviation up :: "pyfloat \<Rightarrow> pyfloat" where "up c \<equiv> py_max c (Fin 0)"

abbreviation down :: "pyfloat \<Rightarrow> pyfloat" where "down c \<equiv> py_max (- c) (Fin 0)"

text \<open>The two averages after the given price changes.\<close>

definition wilder_averages :: "nat \<Rightarrow> pyfloat list \<Rightarrow> pyfloat \<times> pyfloat" where
  "wilder_averages p cs =
     foldl (\<lambda>(g, l) c. (wilder p g (up c), wilder p l (down c)))
       (truediv (psum (map up (take p cs))) (fnat p), truediv (psum (map down (take p cs))) (fnat p)) (drop p cs)"

lemma price_changes_snoc: "xs \<noteq> [] \<Longrightarrow> price_changes (xs @ [x]) = price_changes xs @ [x - last xs]"
proof (induction xs)
  case (Cons a xs)
  then show ?case by (cases xs) (simp_all add: price_changes_def)
qed simp

lemma length_price_changes [simp]: "length (price_changes xs) = length xs - 1"
  by (simp add: price_changes_def)

lemma price_changes_finite: "list_all isfinite xs \<Longrightarrow> list_all isfinite (price_changes xs)"
proof (induction xs)
  case (Cons a xs)
  then show ?case by (cases xs) (simp_all add: price_changes_def)
qed (simp add: price_changes_def)

lemma wilder_averages_snoc:
  "p \<le> length cs \<Longrightarrow> wilder_averages p (cs @ [c]) =
     (case wilder_averages p cs of (g, l) \<Rightarrow> (wilder p g (up c), wilder p l (down c)))"
  by (simp add: wilder_averages_def case_prod_beta)

lemma wilder_averages_nonneg:
  assumes "0 < p" "list_all isfinite cs" "p \<le> length cs"
  shows "nonneg_real (fst (wilder_averages p cs)) \<and> nonneg_real (snd (wilder_averages p cs))"
  using assms(2,3)
proof (induction cs rule: rev_induct)
  case Nil
  then show ?case using assms(1) by simp
next
  case (snoc c cs)
  show ?case
  proof (cases "p \<le> length cs")
    case True
    with snoc have "nonneg_real (fst (wilder_averages p cs)) \<and> nonneg_real (snd (wilder_averages p cs))" "isfinite c"
      by simp_all
    with True assms(1) show ?thesis
      by (simp add: wilder_averages_snoc case_prod_beta wilder_nonneg up_down)
  next
    case False
    with snoc.prems have len: "length (cs @ [c]) = p" by simp
    have "list_all nonneg_real (map up (cs @ [c]))" "list_all nonneg_real (map down (cs @ [c]))"
      using snoc.prems(1) by (auto simp: list_all_iff up_down)
    then have "nonneg_real (pmean (map up (cs @ [c])))" "nonneg_real (pmean (map down (cs @ [c])))"
      by (auto intro!: pmean_nonneg)
    with len show ?thesis by (simp add: wilder_averages_def pmean_def)
  qed
qed

text \<open>Both averages vanish only on a flat series: all closes equal, or for a period of one the last two.\<close>

definition flat_series :: "nat \<Rightarrow> pyfloat list \<Rightarrow> bool" where
  "flat_series p closes \<longleftrightarrow> (\<forall>x\<in>set (if p = 1 then last_n 2 closes else closes). x = last closes)"

lemma minus_zero_iff: "isfinite x \<Longrightarrow> isfinite y \<Longrightarrow> x - y = Fin 0 \<longleftrightarrow> x = y"
  by (auto simp: isfinite_iff)

lemma wilder_zero_iff:
  "0 < p \<Longrightarrow> nonneg_real g \<Longrightarrow> nonneg_real x \<Longrightarrow> wilder p g x = Fin 0 \<longleftrightarrow> x = Fin 0 \<and> (p = 1 \<or> g = Fin 0)"
  by (auto simp: nonneg_real_def wilder_def add_nonneg_eq_0_iff)

lemma pmean_zero_iff:
  assumes "list_all nonneg_real xs" "xs \<noteq> []"
  shows "pmean xs = Fin 0 \<longleftrightarrow> (\<forall>x\<in>set xs. x = Fin 0)"
proof -
  have "list_all isfinite xs" using assms(1) by (auto simp: list_all_iff nonneg_real_def)
  then obtain rs where rs: "xs = map Fin rs" using finite_list by blast
  then have "\<forall>r\<in>set rs. 0 \<le> r" "rs \<noteq> []" using assms by (auto simp: list_all_iff nonneg_real_def)
  then show ?thesis by (simp add: rs sum_list_nonneg_eq_0_iff)
qed

lemma up_down_zero_iff: "isfinite c \<Longrightarrow> up c = Fin 0 \<and> down c = Fin 0 \<longleftrightarrow> c = Fin 0"
  by (auto simp: isfinite_iff)

lemma wilder_averages_zero_iff:
  assumes "0 < p" "list_all isfinite cs" "p \<le> length cs"
  shows "wilder_averages p cs = (Fin 0, Fin 0) \<longleftrightarrow> (if p = 1 then last cs = Fin 0 else \<forall>c\<in>set cs. c = Fin 0)"
  using assms(2,3)
proof (induction cs rule: rev_induct)
  case Nil
  then show ?case using assms(1) by simp
next
  case (snoc c cs)
  then have c: "isfinite c" by simp
  show ?case
  proof (cases "p \<le> length cs")
    case True
    obtain g l where gl: "wilder_averages p cs = (g, l)" by (cases "wilder_averages p cs")
    have "nonneg_real g" "nonneg_real l"
      using wilder_averages_nonneg [OF assms(1) _ True] snoc.prems(1) gl by simp_all
    then have "wilder_averages p (cs @ [c]) = (Fin 0, Fin 0) \<longleftrightarrow> c = Fin 0 \<and> (p = 1 \<or> g = Fin 0 \<and> l = Fin 0)"
      using up_down_zero_iff [OF c] up_down(3,4) [OF c] assms(1)
      by (auto simp: wilder_averages_snoc [OF True] gl wilder_zero_iff)
    then show ?thesis using snoc.IH snoc.prems(1) True by (auto simp: gl)
  next
    case False
    with snoc.prems have len: "length (cs @ [c]) = p" by simp
    have nn: "list_all nonneg_real (map up (cs @ [c]))" "list_all nonneg_real (map down (cs @ [c]))"
      using snoc.prems(1) by (auto simp: list_all_iff up_down)
    have "wilder_averages p (cs @ [c]) = (pmean (map up (cs @ [c])), pmean (map down (cs @ [c])))"
      using len by (simp add: wilder_averages_def pmean_def)
    then have "wilder_averages p (cs @ [c]) = (Fin 0, Fin 0) \<longleftrightarrow>
        (\<forall>d\<in>set (cs @ [c]). up d = Fin 0 \<and> down d = Fin 0)"
      using pmean_zero_iff [OF nn(1)] pmean_zero_iff [OF nn(2)] by (auto simp del: map_append)
    also have "\<dots> \<longleftrightarrow> (\<forall>d\<in>set (cs @ [c]). d = Fin 0)"
      using snoc.prems(1) by (auto simp: list_all_iff up_down_zero_iff)
    finally show ?thesis using len by auto
  qed
qed

lemma flat_changes:
  assumes "list_all isfinite xs" "1 < length xs"
  shows "(if p = 1 then last (price_changes xs) = Fin 0 else \<forall>c\<in>set (price_changes xs). c = Fin 0) \<longleftrightarrow> flat_series p xs"
proof -
  have all: "list_all isfinite ys \<Longrightarrow> (\<forall>c\<in>set (price_changes ys). c = Fin 0) \<longleftrightarrow> (\<forall>y\<in>set ys. y = last ys)" for ys
  proof (induction ys rule: rev_induct)
    case (snoc y ys)
    then show ?case
    proof (cases "ys = []")
      case False
      then have "isfinite (last ys)" using snoc.prems by (simp add: list_all_iff)
      then have "(\<forall>c\<in>set (price_changes (ys @ [y])). c = Fin 0) \<longleftrightarrow> y = last ys \<and> (\<forall>z\<in>set ys. z = last ys)"
        using snoc False by (auto simp: price_changes_snoc minus_zero_iff)
      also have "\<dots> \<longleftrightarrow> (\<forall>z\<in>set ys. z = y)" using last_in_set [OF False] by metis
      finally show ?thesis by simp
    qed (simp add: price_changes_def)
  qed (simp add: price_changes_def)
  obtain zs y x where xs: "xs = zs @ [y, x]"
    using assms(2) by (metis append_butlast_last_id append.assoc append_Cons append_Nil length_0_conv length_butlast
        less_numeral_extra(3) not_one_less_zero zero_less_diff)
  have "price_changes ((zs @ [y]) @ [x]) = price_changes (zs @ [y]) @ [x - y]" by (subst price_changes_snoc) simp_all
  then have "last (price_changes xs) = x - y" by (simp add: xs)
  moreover have "x - y = Fin 0 \<longleftrightarrow> y = x" using assms(1) by (auto simp: xs minus_zero_iff)
  moreover have "last_n 2 xs = [y, x]" by (simp add: xs last_n_def)
  ultimately show ?thesis using all [OF assms(1)] by (auto simp: flat_series_def xs)
qed

text \<open>What the streaming index holds after the closes \<open>xs\<close>.\<close>

definition rsi_holds :: "nat \<Rightarrow> pyfloat list \<Rightarrow> rsi \<Rightarrow> bool" where
  "rsi_holds p xs s \<longleftrightarrow> rsi_period s = p \<and> rsi_prev s = (if xs = [] then None else Some (last xs)) \<and>
     length (rsi_losses s) = length (rsi_gains s) \<and>
     (if length xs \<le> p
      then rsi_gains s = map up (price_changes xs) \<and> rsi_losses s = map down (price_changes xs) \<and>
           rsi_avg s = None \<and> rsi_current s = None
      else length (rsi_gains s) = p - 1 \<and> rsi_avg s = Some (wilder_averages p (price_changes xs)) \<and>
           rsi_current s = Some (case wilder_averages p (price_changes xs) of (g, l) \<Rightarrow> strength_index g l))"

lemma rsi_step:
  assumes p: "0 < p" and h: "rsi_holds p xs s" and x: "isfinite x" "list_all isfinite xs"
  shows "rsi_holds p (xs @ [x]) (rsi_update s x)"
proof (cases "xs = []")
  case True
  with h p show ?thesis by (auto simp: rsi_holds_def rsi_update_def price_changes_def)
next
  case False
  let ?c = "x - last xs" and ?cs = "price_changes xs"
  have fin: "isfinite ?c" using x False by (simp add: list_all_iff)
  note ud = up_down(1,2) [OF fin]
  have pc: "price_changes (xs @ [x]) = ?cs @ [?c]" by (rule price_changes_snoc [OF False])
  have prev: "rsi_prev s = Some (last xs)" using h False by (simp add: rsi_holds_def)
  have pos: "0 < length xs" using False by simp
  consider (seed) "length xs < p" | (first) "length xs = p" | (on) "p < length xs" by linarith
  then show ?thesis
  proof cases
    case seed
    with h prev pos show ?thesis
      by (simp add: rsi_holds_def rsi_update_def Let_def ud pc)
  next
    case first
    then have "length ?cs + 1 = p" using pos by simp
    with first h prev pos show ?thesis
      by (simp add: rsi_holds_def rsi_update_def Let_def ud pc wilder_averages_def pmean_def)
  next
    case on
    then have "p \<le> length ?cs" using pos by simp
    with on h prev pos p show ?thesis
      by (simp add: rsi_holds_def rsi_update_def Let_def ud pc wilder_averages_snoc case_prod_beta)
  qed
qed

lemma rsi_run: "0 < p \<Longrightarrow> list_all isfinite xs \<Longrightarrow> rsi_holds p xs (foldl rsi_update (rsi_start p) xs)"
proof (induction xs rule: rev_induct)
  case Nil
  then show ?case by (simp add: rsi_holds_def rsi_start_def price_changes_def)
next
  case (snoc x xs)
  then show ?case using rsi_step by simp
qed

definition rmi_start :: "nat \<Rightarrow> nat \<Rightarrow> rmi" where
  "rmi_start p m = \<lparr>rmi_period = p, rmi_momentum = m, rmi_prices = [], rmi_seed_gains = [], rmi_seed_losses = [],
     rmi_avg = None, rmi_current = None\<rparr>"

definition rmi_inv :: "nat \<Rightarrow> nat \<Rightarrow> rmi \<Rightarrow> bool" where
  "rmi_inv p m s \<longleftrightarrow> rmi_period s = p \<and> rmi_momentum s = m \<and> list_all isfinite (rmi_prices s) \<and>
     list_all nonneg_real (rmi_seed_gains s) \<and> list_all nonneg_real (rmi_seed_losses s) \<and>
     length (rmi_seed_losses s) = length (rmi_seed_gains s) \<and>
     (case rmi_avg s of None \<Rightarrow> rmi_current s = None
      | Some (g, l) \<Rightarrow> nonneg_real g \<and> nonneg_real l \<and> rmi_current s = Some (strength_index g l))"

lemma rmi_step:
  assumes "0 < p" "rmi_inv p m s" "isfinite x"
  shows "rmi_inv p m (rmi_update s x)"
proof -
  let ?ps = "dq_append (m + 1) (rmi_prices s) x"
  have ps: "list_all isfinite ?ps" using assms(2,3) by (simp add: rmi_inv_def dq_append_ok)
  have ne: "?ps \<noteq> []" by (simp add: dq_append_nonempty)
  let ?d = "last ?ps - hd ?ps"
  have "isfinite (last ?ps)" "isfinite (hd ?ps)"
    using ps ne by (metis list_all_iff last_in_set hd_in_set)+
  then have ud: "nonneg_real (up ?d)" "nonneg_real (down ?d)" by (simp_all add: up_down)
  show ?thesis
  proof (cases "length ?ps < m + 1")
    case True
    with assms(2) ps show ?thesis
      by (simp add: rmi_inv_def rmi_update_def Let_def split: option.splits prod.splits)
  next
    case False
    show ?thesis
    proof (cases "rmi_avg s")
      case None
      let ?gs = "dq_append p (rmi_seed_gains s) (up ?d)" and ?ls = "dq_append p (rmi_seed_losses s) (down ?d)"
      have gl: "list_all nonneg_real ?gs" "list_all nonneg_real ?ls" "length ?ls = length ?gs" "?gs \<noteq> []" "?ls \<noteq> []"
        using assms(1,2) ud by (simp_all add: rmi_inv_def dq_append_ok dq_append_nonempty, simp add: dq_append_def)
      with pmean_nonneg [OF gl(1,4)] pmean_nonneg [OF gl(2,5)] None False assms(2) ps show ?thesis
        by (simp add: rmi_inv_def rmi_update_def Let_def)
    next
      case (Some gl)
      with False assms ps ud show ?thesis
        by (cases gl) (simp add: rmi_inv_def rmi_update_def Let_def wilder_nonneg)
    qed
  qed
qed

interpretation rmi_machine: machine rmi_update "\<lambda>s. 0 < p \<and> rmi_inv p m s" isfinite for p m
  by unfold_locales (simp add: rmi_step)

section \<open>Properties\<close>

text \<open>C31: the streaming indicators agree with the dashboard. Fed any finite closes one by one,
  the moving average, the exponential average, the rate of change and the strength index
  that a strategy reads are the dashboard's batch figures over the same closes, and are not
  ready exactly when the dashboard asks for more closes. Two conventions differ, as coded, and
  exactly where they do is part of the statement: the dashboard refuses the momentum of a zero base,
  for which the rate of change is 0, and on a flat series (all closes equal, or the last
  two for a period of one) the strength is 100 for the strategy and 50 on the dashboard.\<close>

theorem streams_match_dashboard:
  assumes "0 < p" "list_all isfinite closes"
    and "make_sma (int p) = Inr a" "make_ema (int p) = Inr b" "make_roc (int p) = Inr c" "make_rsi (int p) = Inr d"
  shows "sma_current (foldl sma_update a closes) =
      (case simple_moving_average closes p of Inl _ \<Rightarrow> None | Inr m \<Rightarrow> Some m) \<and>
    ema_value (foldl ema_update b closes) = (if p \<le> length closes then Some (last (ema_series closes p)) else None) \<and>
    (case momentum_ratio closes p of
       Inr m \<Rightarrow> roc_current (foldl roc_update c closes) = Some (m * Fin 100)
     | Inl _ \<Rightarrow> if length closes \<le> p then roc_current (foldl roc_update c closes) = None
         else closes ! (length closes - p - 1) = Fin 0 \<and> roc_current (foldl roc_update c closes) = Some (Fin 0)) \<and>
    (case relative_strength_index closes p of
       Inl _ \<Rightarrow> length closes \<le> p \<and> rsi_current (foldl rsi_update d closes) = None
     | Inr w \<Rightarrow> rsi_current (foldl rsi_update d closes) = Some (if flat_series p closes then Fin 100 else w) \<and>
         (w = Fin 50 \<or> \<not> flat_series p closes))"
proof -
  have st: "a = sma_start p" "b = ema_start p" "c = roc_start p" "d = rsi_start p"
    using assms(1,3-6) by (simp_all add: make_sma_def make_ema_def make_roc_def make_rsi_def positive_period_def
        sma_start_def ema_start_def roc_start_def rsi_start_def)
  obtain q where q: "p = Suc q" using assms(1) by (cases p) auto
  have sma: "sma_current (foldl sma_update a closes) =
      (case simple_moving_average closes p of Inl _ \<Rightarrow> None | Inr m \<Rightarrow> Some m)"
  proof -
    have "py_div x (fnat p) = Inr (truediv x (fnat p))" for x
      using q by (intro py_div_truediv) (simp add: zero_Fin)
    then have "simple_moving_average closes p = (if p \<le> length closes
        then Inr (truediv (psum (last_n p closes)) (fnat p)) else Inl ValueError)"
      by (simp add: simple_moving_average_def require_length_def)
    then show ?thesis using sma_rolling.answer_run [OF assms(2), of q] by (simp add: st(1) q)
  qed
  have ema: "ema_value (foldl ema_update b closes) = (if p \<le> length closes then Some (last (ema_series closes p)) else None)"
    by (simp add: st(2) ema_run [OF assms(1)])
  obtain cs where cs: "closes = map Fin cs" using finite_list [OF assms(2)] by blast
  have roc: "case momentum_ratio closes p of
       Inr m \<Rightarrow> roc_current (foldl roc_update c closes) = Some (m * Fin 100)
     | Inl _ \<Rightarrow> if length closes \<le> p then roc_current (foldl roc_update c closes) = None
         else closes ! (length closes - p - 1) = Fin 0 \<and> roc_current (foldl roc_update c closes) = Some (Fin 0)"
  proof (cases "length closes \<le> p")
    case True
    then show ?thesis using roc_rolling.answer_run [of closes p]
      by (simp add: st(3) list_all_iff momentum_ratio_def require_length_def)
  next
    case False
    then have len: "p < length cs" by (simp add: cs)
    then have w: "last_n (Suc p) closes = map Fin (drop (length cs - Suc p) cs)" by (simp add: last_n_def cs drop_map)
    have ne: "drop (length cs - Suc p) cs \<noteq> []" using len by simp
    have hd: "hd (last_n (Suc p) closes) = Fin (cs ! (length cs - Suc p))" "last (last_n (Suc p) closes) = Fin (last cs)"
      using ne len by (simp_all add: w hd_map last_map hd_drop_conv_nth last_drop)
    have "cs \<noteq> []" using len by auto
    then have "last closes = Fin (last cs)" "closes ! (length closes - p - 1) = Fin (cs ! (length cs - p - 1))"
      using len by (auto simp: cs last_map)
    with hd len show ?thesis using roc_rolling.answer_run [of closes p]
      by (simp add: st(3) list_all_iff roc_spec_def momentum_ratio_def require_length_def zero_Fin cs
          diff_divide_distrib)
  qed
  have "case relative_strength_index closes p of
       Inl _ \<Rightarrow> length closes \<le> p \<and> rsi_current (foldl rsi_update d closes) = None
     | Inr w \<Rightarrow> rsi_current (foldl rsi_update d closes) = Some (if flat_series p closes then Fin 100 else w) \<and>
         (w = Fin 50 \<or> \<not> flat_series p closes)"
  proof (cases "length closes \<le> p")
    case True
    then show ?thesis using rsi_run [OF assms(1,2)]
      by (simp add: st(4) relative_strength_index_def require_length_def rsi_holds_def)
  next
    case False
    obtain g l where gl: "wilder_averages p (price_changes closes) = (g, l)"
      by (cases "wilder_averages p (price_changes closes)")
    note fin = price_changes_finite [OF assms(2)]
    have nn: "nonneg_real g" "nonneg_real l"
      using wilder_averages_nonneg [OF assms(1) fin] False gl by simp_all
    have "1 < length closes" using False assms(1) by simp
    then have flat: "flat_series p closes \<longleftrightarrow> g = Fin 0 \<and> l = Fin 0"
      using wilder_averages_zero_iff [OF assms(1) fin] flat_changes [OF assms(2), of p] False gl by simp
    have cur: "rsi_current (foldl rsi_update d closes) = Some (strength_index g l)"
      using rsi_run [OF assms(1,2)] False gl by (simp add: st(4) rsi_holds_def)
    have "percentage (strength_index g l)" by (rule strength_index_range [OF nn])
    then obtain r where r: "strength_index g l = Fin r" "0 \<le> r" "r \<le> 100" by (auto simp: percentage_def)
    have batch: "relative_strength_index closes p = Inr (if feq l 0 then (if g > 0 then Fin 100 else Fin 50)
        else py_min (py_max (Fin 100 - truediv (Fin 100) (Fin 1 + truediv g l)) (Fin 0)) (Fin 100))"
      using False gl by (simp add: relative_strength_index_def require_length_def wilder_averages_def Let_def)
    show ?thesis
    proof (cases "feq l 0")
      case True
      then have "l = Fin 0" using nn(2) by (auto simp: nonneg_real_def zero_Fin)
      moreover have "g > 0 \<longleftrightarrow> g \<noteq> Fin 0" using nn(1) by (auto simp: nonneg_real_def zero_Fin)
      moreover have "strength_index g l = Fin 100" using True by (simp add: strength_index_def)
      ultimately show ?thesis using True by (simp add: batch cur flat)
    next
      case False
      then have "l \<noteq> Fin 0" by (auto simp: zero_Fin)
      moreover have "Fin 100 - truediv (Fin 100) (Fin 1 + truediv g l) = Fin r"
        using r(1) False by (simp add: strength_index_def)
      ultimately show ?thesis using r False by (simp add: batch cur flat)
    qed
  qed
  with sma ema roc show ?thesis by blast
qed

theorem streams_match_dashboard_witness:
  "\<exists>a d w. make_sma 2 = Inr a \<and> make_rsi 2 = Inr d \<and>
     sma_current (foldl sma_update a (map Fin [1, 2, 4])) = Some (Fin 3) \<and>
     relative_strength_index (map Fin [1, 2, 4]) 2 = Inr w \<and>
     rsi_current (foldl rsi_update d (map Fin [1, 2, 4])) = Some w"
proof -
  obtain a b c d where st: "make_sma 2 = Inr a" "make_ema 2 = Inr b" "make_roc 2 = Inr c" "make_rsi 2 = Inr d"
    by (simp add: make_sma_def make_ema_def make_roc_def make_rsi_def positive_period_def)
  have m: "simple_moving_average (map Fin [1, 2, 4]) 2 = Inr (Fin 3)"
    by (simp add: simple_moving_average_def require_length_def last_n_def psum_def zero_Fin)
  obtain w where r: "relative_strength_index (map Fin [1, 2, 4]) 2 = Inr w"
    by (simp add: relative_strength_index_def require_length_def case_prod_beta Let_def)
  have fin: "list_all isfinite (map Fin [1, 2, 4])" by simp
  have "\<not> flat_series 2 (map Fin [1, 2, 4])" by (simp add: flat_series_def)
  with streams_match_dashboard [of 2, OF _ fin, of a b c d] st m r show ?thesis by auto
qed

text \<open>strength indices are percentages. After any finite prices the strength index and the
  momentum index of a strategy are not ready or a number between 0 and 100.\<close>

theorem indices_are_percentages:
  assumes "list_all isfinite prices" "make_rsi q = Inr a" "make_rmi p m = Inr b" "0 < q"
  shows "pred_option percentage (rsi_current (foldl rsi_update a prices)) \<and>
    pred_option percentage (rmi_current (foldl rmi_update b prices))"
proof -
  have a: "a = rsi_start (nat q)" using assms(2,4) by (simp add: make_rsi_def rsi_start_def)
  have "nonneg_real (fst (wilder_averages (nat q) (price_changes prices))) \<and>
      nonneg_real (snd (wilder_averages (nat q) (price_changes prices)))" if "nat q < length prices"
    using that assms(4) by (intro wilder_averages_nonneg price_changes_finite assms(1)) simp_all
  moreover have "rsi_holds (nat q) prices (foldl rsi_update a prices)"
    using rsi_run [OF _ assms(1), of "nat q"] assms(4) by (simp add: a)
  ultimately have "pred_option percentage (rsi_current (foldl rsi_update a prices))"
    by (cases "length prices \<le> nat q") (simp_all add: rsi_holds_def case_prod_beta strength_index_range)
  moreover have b: "rmi_inv (nat p) (nat m) b" "0 < nat p"
    using assms(3) by (auto simp: make_rmi_def rmi_inv_def split: if_splits)
  then have "rmi_inv (nat p) (nat m) (foldl rmi_update b prices)"
    using rmi_machine.run_inv [of "nat p" "nat m" b prices] assms(1) by blast
  then have "pred_option percentage (rmi_current (foldl rmi_update b prices))"
    by (auto simp: rmi_inv_def strength_index_range split: option.splits)
  ultimately show ?thesis ..
qed

theorem indices_are_percentages_witness:
  "\<exists>a b. make_rsi 2 = Inr a \<and> make_rmi 2 1 = Inr b \<and>
     pred_option percentage (rsi_current (foldl rsi_update a (map Fin [3, 1, 2]))) \<and>
     pred_option percentage (rmi_current (foldl rmi_update b (map Fin [3, 1, 2])))"
proof -
  obtain a b where st: "make_rsi 2 = Inr a" "make_rmi 2 1 = Inr b" by (simp add: make_rsi_def make_rmi_def)
  have "list_all isfinite (map Fin [3, 1, 2])" by simp
  from indices_are_percentages [OF this st] st show ?thesis by auto
qed

end
