(* ===== verification/Order_Interface.thy ===== *)
theory Order_Interface
  imports Executor_Trades Indicators
begin

text \<open>
  What a strategy can do at a bar: \<open>engine/strategies/order_interface.py\<close> with the market view of
  \<open>engine/strategies/market_data_api.py\<close> and the portfolio view of
  \<open>portfolio_interface.py\<close>. The order manager is not part of the repository: the orders
  handed to it are collected, and no manager (the only case this application uses) is
  \<open>None\<close>. Its exceptions are logged and dropped by the code.
\<close>

section \<open>Market and portfolio views\<close>

record market_view =
  mv_bars :: "bar list"
  mv_time :: int

text \<open>\<open>Market[ticker]\<close>: the last row of the ticker up to the current time; \<open>None\<close> when there is
  none or its close is not a number.\<close>

definition asset_rows :: "market_view \<Rightarrow> string \<Rightarrow> bar list" where
  "asset_rows mv t = filter (\<lambda>b. bar_ticker b = t \<and> bar_time b \<le> mv_time mv) (mv_bars mv)"

definition asset_close :: "market_view \<Rightarrow> string \<Rightarrow> pyfloat option" where
  "asset_close mv t =
     (let rows = asset_rows mv t in
      if rows = [] then None else dict_get (bar_values (last rows)) ''close_price'')"

text \<open>\<open>AssetData.History\<close> over a lookback of \<open>back\<close>.\<close>

definition asset_history :: "market_view \<Rightarrow> string \<Rightarrow> int \<Rightarrow> bar list" where
  "asset_history mv t back =
     filter (\<lambda>b. bar_ticker b = t \<and> mv_time mv - back \<le> bar_time b \<and> bar_time b \<le> mv_time mv) (mv_bars mv)"

record portfolio_view =
  pv_cash :: pyfloat
  pv_total :: pyfloat
  pv_positions :: "(string, pyfloat) dict"

definition get_asset_value :: "portfolio_view \<Rightarrow> string \<Rightarrow> pyfloat \<Rightarrow> pyfloat" where
  "get_asset_value pv t price = dict_or (pv_positions pv) t (Fin 0) * price"

definition get_asset_weight :: "portfolio_view \<Rightarrow> string \<Rightarrow> pyfloat \<Rightarrow> py_exn + pyfloat" where
  "get_asset_weight pv t price =
     (if feq (pv_total pv) 0 then Inr (Fin 0) else py_div (get_asset_value pv t price) (pv_total pv))"

section \<open>Orders\<close>

record strategy_context =
  cx_now :: datetime
  cx_market :: market_view
  cx_portfolio :: portfolio_view
  cx_id :: string
  cx_tickers :: "string list"
  cx_weights :: pyval

record oms_order =
  oo_ticker :: string
  oo_side :: string
  oo_confidence :: pyval
  oo_price :: pyfloat
  oo_quantity :: int

type_synonym desk = "executor \<times> oms_order list option"

text \<open>\<open>_allocation_weight\<close>: the configured weight of a ticker, an equal share when no weights are
  configured.\<close>

definition configured_weight :: "string list \<Rightarrow> pyval \<Rightarrow> string \<Rightarrow> py_exn + pyval" where
  "configured_weight ts weights t =
     (case weights of
        VDict d \<Rightarrow> Inr (dict_or d t (VFloat (Fin 0)))
      | VList ws \<Rightarrow>
          if length ws = length ts
          then (case dict_get (zip ts ws) t of None \<Rightarrow> Inl ValueError | Some w \<Rightarrow> Inr w)
          else Inl ValueError
      | _ \<Rightarrow> Inl ValueError)"

definition allocation_weight :: "(string \<Rightarrow> pyfloat option) \<Rightarrow> strategy_context \<Rightarrow> string \<Rightarrow> py_exn + pyfloat" where
  "allocation_weight fparse cx t =
     (let ts = first_occurrences (cx_tickers cx) in
      if t \<notin> set ts then Inr (Fin 0)
      else if cx_weights cx = VNone then Inr (Fin (1 / real (length ts)))
      else ebind (configured_weight ts (cx_weights cx) t) (\<lambda>v.
           ebind (py_float fparse v) (\<lambda>w.
             if \<not> isfinite w \<or> w < 0 then Inl ValueError else Inr w)))"

definition place ::
  "(string \<Rightarrow> pyfloat option) \<Rightarrow> strategy_context \<Rightarrow> desk \<Rightarrow> string \<Rightarrow> string \<Rightarrow> pyval \<Rightarrow> pyval \<Rightarrow> pyval \<Rightarrow> desk \<times> (py_exn + unit)" where
  "place fparse cx desk t side confidence ticker_weight target_weight =
     (case asset_close (cx_market cx) t of
        None \<Rightarrow> (desk, Inr ())
      | Some price \<Rightarrow>
          if price \<le> 0 then (desk, Inr ())
          else (case desk of
            (e, None) \<Rightarrow>
              let (e', r) = execute_trade fparse e (cx_id cx) t side confidence (VFloat price)
                              (VFloat (pv_total (cx_portfolio cx))) ticker_weight (cx_now cx) target_weight
              in ((e', None), (case r of Inl x \<Rightarrow> Inl x | Inr _ \<Rightarrow> Inr ()))
          | (e, Some orders) \<Rightarrow>
              let (e', r) = default_trade_size fparse e side t (VFloat price) confidence
                              (VFloat (pv_total (cx_portfolio cx))) ticker_weight target_weight
              in (case r of
                    Inl x \<Rightarrow> ((e', Some orders), Inl x)
                  | Inr sz \<Rightarrow>
                      if quantity sz > 0
                      then ((e', Some (orders @ [\<lparr>oo_ticker = t,
                               oo_side = (if desired_notional sz < 0 then ''SELL'' else ''BUY''),
                               oo_confidence = confidence, oo_price = price, oo_quantity = quantity sz\<rparr>])), Inr ())
                      else ((e', Some orders), Inr ()))))"

definition ctx_target_weight ::
  "(string \<Rightarrow> pyfloat option) \<Rightarrow> strategy_context \<Rightarrow> desk \<Rightarrow> string \<Rightarrow> pyval \<Rightarrow> pyval \<Rightarrow> desk \<times> (py_exn + unit)" where
  "ctx_target_weight fparse cx desk t weight confidence =
     (case py_float fparse weight of
        Inl x \<Rightarrow> (desk, Inl x)
      | Inr w \<Rightarrow> if \<not> isfinite w then (desk, Inl ValueError)
                 else place fparse cx desk t ''BUY'' confidence (VFloat (Fin 0)) (VFloat w))"

definition ctx_buy ::
  "(string \<Rightarrow> pyfloat option) \<Rightarrow> strategy_context \<Rightarrow> desk \<Rightarrow> string \<Rightarrow> pyval \<Rightarrow> desk \<times> (py_exn + unit)" where
  "ctx_buy fparse cx desk t confidence =
     (case allocation_weight fparse cx t of
        Inl x \<Rightarrow> (desk, Inl x)
      | Inr w \<Rightarrow> ctx_target_weight fparse cx desk t (VFloat w) confidence)"

definition ctx_sell ::
  "(string \<Rightarrow> pyfloat option) \<Rightarrow> strategy_context \<Rightarrow> desk \<Rightarrow> string \<Rightarrow> pyval \<Rightarrow> desk \<times> (py_exn + unit)" where
  "ctx_sell fparse cx desk t confidence =
     (if position_of (fst desk) t > 0
      then place fparse cx desk t ''SELL'' confidence (VFloat (Fin 0)) (VFloat (Fin 0))
      else (desk, Inr ()))"

definition ctx_close ::
  "(string \<Rightarrow> pyfloat option) \<Rightarrow> strategy_context \<Rightarrow> desk \<Rightarrow> string \<Rightarrow> pyval \<Rightarrow> desk \<times> (py_exn + unit)" where
  "ctx_close fparse cx desk t confidence = ctx_target_weight fparse cx desk t (VFloat (Fin 0)) confidence"

definition ctx_execute ::
  "(string \<Rightarrow> pyfloat option) \<Rightarrow> strategy_context \<Rightarrow> desk \<Rightarrow> string \<Rightarrow> string \<Rightarrow> pyval \<Rightarrow> pyval \<Rightarrow> desk \<times> (py_exn + unit)" where
  "ctx_execute fparse cx desk t side confidence ticker_weight =
     place fparse cx desk t side confidence ticker_weight VNone"

section \<open>A strategy's calls at one bar\<close>

datatype strategy_call =
    CallBuy string pyval
  | CallSell string pyval
  | CallClose string pyval
  | CallTarget string pyval pyval
  | CallExecute string string pyval pyval

fun run_call :: "(string \<Rightarrow> pyfloat option) \<Rightarrow> strategy_context \<Rightarrow> desk \<Rightarrow> strategy_call \<Rightarrow> desk \<times> (py_exn + unit)" where
  "run_call fparse cx d (CallBuy t c) = ctx_buy fparse cx d t c"
| "run_call fparse cx d (CallSell t c) = ctx_sell fparse cx d t c"
| "run_call fparse cx d (CallClose t c) = ctx_close fparse cx d t c"
| "run_call fparse cx d (CallTarget t w c) = ctx_target_weight fparse cx d t w c"
| "run_call fparse cx d (CallExecute t s c w) = ctx_execute fparse cx d t s c w"

fun run_calls :: "(string \<Rightarrow> pyfloat option) \<Rightarrow> strategy_context \<Rightarrow> desk \<Rightarrow> strategy_call list \<Rightarrow> desk \<times> (py_exn + unit)" where
  "run_calls fparse cx d [] = (d, Inr ())"
| "run_calls fparse cx d (c # cs) =
     (case run_call fparse cx d c of (d', Inl x) \<Rightarrow> (d', Inl x) | (d', Inr _) \<Rightarrow> run_calls fparse cx d' cs)"

end
