(* ===== verification/Order_Interface_Claims.thy ===== *)
theory Order_Interface_Claims
  imports Order_Interface Executor_Claims
begin

text \<open>
  What the order interface promises a strategy: selling and closing only ever bring a position
  nearer to flat, whatever the prices and the confidence, and buying aims at the configured
  weight.
\<close>

section \<open>Reductions\<close>

definition between_flat :: "real \<Rightarrow> real \<Rightarrow> bool" where
  "between_flat p q \<longleftrightarrow> (0 \<le> p \<longrightarrow> 0 \<le> q \<and> q \<le> p) \<and> (p \<le> 0 \<longrightarrow> p \<le> q \<and> q \<le> 0)"

lemma between_flat_refl [simp]: "between_flat p p"
  by (simp add: between_flat_def)

lemma between_flat_trans: "between_flat p q \<Longrightarrow> between_flat q r \<Longrightarrow> between_flat p r"
  unfolding between_flat_def by linarith

lemma pos_real_unchanged: "unchanged e e' \<Longrightarrow> pos_real e' t = pos_real e t"
  by (auto simp: unchanged_def)

lemma exec_wf_unchanged: "unchanged e e' \<Longrightarrow> exec_wf e \<Longrightarrow> exec_wf e'"
  by (auto simp: unchanged_def)

lemma coerce_nonfinite:
  assumes "\<not> (isfinite pn \<and> isfinite ap \<and> isfinite c)"
  shows "coerce_inputs fparse (VFloat pn) (VFloat ap) (VFloat c) (VFloat (Fin 0)) (VFloat (Fin w)) = Inl ValueError
    \<or> (\<exists>i. coerce_inputs fparse (VFloat pn) (VFloat ap) (VFloat c) (VFloat (Fin 0)) (VFloat (Fin w)) = Inr i \<and>
        isfinite pn \<and> isfinite ap \<and> isfinite c)"
  using assms by (cases "isfinite c") (auto simp: coerce_inputs_def Let_def)

text \<open>A trade toward flat.\<close>

lemma flatten_trade:
  assumes wf: "exec_wf e"
    and res: "execute_trade fparse e port t sig (VFloat c) (VFloat ap) (VFloat pn) (VFloat (Fin 0)) ts (VFloat (Fin 0)) = (e', r)"
  shows "exec_wf e' \<and> (\<exists>x. r = Inr x) \<and> (\<forall>u. between_flat (pos_real e u) (pos_real e' u))"
proof (cases "isfinite pn \<and> isfinite ap \<and> isfinite c")
  case False
  with coerce_nonfinite [OF False, of fparse 0] res have "e' = e" "r = Inr None"
    by (auto simp: execute_trade_def default_trade_size_def no_trade_def)
  with wf show ?thesis by simp
next
  case True
  then have a: "float_arg (VFloat ap)" "float_arg (VFloat pn)" "float_arg (VFloat (Fin 0))" "float_arg (VFloat c)"
    "VFloat (Fin 0) = VNone \<or> float_arg (VFloat (Fin 0))" by auto
  show ?thesis
  proof (cases rule: execute_trade_cases [OF wf a res])
    case 1
    with wf show ?thesis by (auto simp: pos_real_unchanged intro: exec_wf_unchanged)
  next
    case (2 q xp buy T fl)
    have T: "T = 0" using 2(7) [of 0] by simp
    have q: "real_of_int q \<le> \<bar>pos_real e t\<bar>" "0 < real_of_int q"
      using 2(2,3,8) T by (auto simp: abs_mult)
    have b: "buy \<longleftrightarrow> pos_real e t < 0" using 2(3,5) T by (simp add: mult_less_0_iff)
    have "between_flat (pos_real e u) (pos_real e' u)" for u
      using 2(1) q b by (cases buy; cases "u = t") (auto simp: filled_def between_flat_def)
    with 2(4,17) show ?thesis by blast
  qed
qed

lemma flatten_place:
  assumes wf: "exec_wf e"
    and res: "place fparse cx (e, None) t sig (VFloat c) (VFloat (Fin 0)) (VFloat (Fin 0)) = ((e', om), r)"
  shows "exec_wf e' \<and> om = None \<and> r = Inr () \<and> (\<forall>u. between_flat (pos_real e u) (pos_real e' u))"
proof (cases "asset_close (cx_market cx) t")
  case None
  with res wf show ?thesis by (simp add: place_def)
next
  case (Some price)
  show ?thesis
  proof (cases "price \<le> 0")
    case True
    with Some res wf show ?thesis by (simp add: place_def)
  next
    case False
    obtain e1 r1 where x: "execute_trade fparse e (cx_id cx) t sig (VFloat c) (VFloat price)
        (VFloat (pv_total (cx_portfolio cx))) (VFloat (Fin 0)) (cx_now cx) (VFloat (Fin 0)) = (e1, r1)"
      by fastforce
    from flatten_trade [OF wf x] Some False res x show ?thesis
      by (auto simp: place_def)
  qed
qed

text \<open>The two calls that reduce.\<close>

fun reducing :: "strategy_call \<Rightarrow> bool" where
  "reducing (CallSell t c) = (case c of VFloat _ \<Rightarrow> True | _ \<Rightarrow> False)"
| "reducing (CallClose t c) = (case c of VFloat _ \<Rightarrow> True | _ \<Rightarrow> False)"
| "reducing _ = False"

lemma reducing_call:
  assumes "exec_wf e" "reducing c" "run_call fparse cx (e, None) c = ((e', om), r)"
  shows "exec_wf e' \<and> om = None \<and> r = Inr () \<and> (\<forall>u. between_flat (pos_real e u) (pos_real e' u))"
  using assms
  by (cases c) (auto simp: ctx_sell_def ctx_close_def ctx_target_weight_def
      split: pyval.splits if_splits dest: flatten_place)

lemma reducing_calls:
  assumes "exec_wf e" "list_all reducing cs" "run_calls fparse cx (e, None) cs = ((e', om), r)"
  shows "exec_wf e' \<and> om = None \<and> r = Inr () \<and> (\<forall>u. between_flat (pos_real e u) (pos_real e' u))"
  using assms
proof (induction cs arbitrary: e)
  case Nil
  then show ?case by simp
next
  case (Cons c cs)
  obtain e1 om1 r1 where c: "run_call fparse cx (e, None) c = ((e1, om1), r1)"
    by (metis surj_pair)
  from reducing_call [OF Cons.prems(1) _ c] Cons.prems(2)
  have 1: "exec_wf e1" "om1 = None" "r1 = Inr ()" "\<forall>u. between_flat (pos_real e u) (pos_real e1 u)" by auto
  from Cons.IH [of e1] Cons.prems(2,3) 1 c
  have "exec_wf e' \<and> om = None \<and> r = Inr () \<and> (\<forall>u. between_flat (pos_real e1 u) (pos_real e' u))" by simp
  with 1(4) show ?case by (blast intro: between_flat_trans)
qed

text \<open>C15: selling and closing are reductions: from a well-formed executor that settles directly, any sequence of
  sell and close calls, at any prices (missing, NaN and infinite ones included), any portfolio value and any float
  confidence, raises nothing and leaves every position between flat and where it was. A sell with no long position
  changes nothing at all.\<close>

theorem reducing_never_crosses:
  assumes "exec_wf e" "list_all reducing cs"
  shows "case run_calls fparse cx (e, None) cs of
      ((e', om), r) \<Rightarrow> r = Inr () \<and> om = None \<and>
        (\<forall>t. between_flat (pos_real e t) (pos_real e' t)) \<and>
        (\<forall>t c. cs = [CallSell t c] \<and> pos_real e t \<le> 0 \<longrightarrow> e' = e)"
proof -
  obtain e' om r where res: "run_calls fparse cx (e, None) cs = ((e', om), r)" by (metis surj_pair)
  have "e' = e" if "cs = [CallSell t c]" "pos_real e t \<le> 0" for t c
    using res that wf_reals(8) [OF assms(1), of t] by (simp add: ctx_sell_def zero_Fin)
  with reducing_calls [OF assms res] res show ?thesis by auto
qed

definition demo_context :: strategy_context where
  "demo_context =
     \<lparr>cx_now = \<lparr>wall = 0, utc_offset = None\<rparr>,
      cx_market = \<lparr>mv_bars = [\<lparr>bar_time = 0, bar_ticker = ''AAPL'', bar_values = [(''close_price'', Fin 100)]\<rparr>], mv_time = 0\<rparr>,
      cx_portfolio = \<lparr>pv_cash = Fin 10000, pv_total = Fin 11000, pv_positions = [(''AAPL'', Fin 10)]\<rparr>,
      cx_id = ''p'', cx_tickers = [''AAPL''], cx_weights = VNone\<rparr>"

definition demo_long :: executor where
  "demo_long = demo_broker\<lparr>positions := [(''AAPL'', Fin 10)]\<rparr>"

theorem reducing_never_crosses_witness:
  "case run_calls (\<lambda>_. None) demo_context (demo_long, None)
      [CallSell ''AAPL'' (VFloat (Fin (1/2))), CallClose ''AAPL'' (VFloat NaN)] of
      ((e', om), r) \<Rightarrow> r = Inr () \<and> om = None \<and>
        (\<forall>t. between_flat (pos_real demo_long t) (pos_real e' t)) \<and>
        (\<forall>t c. [CallSell ''AAPL'' (VFloat (Fin (1/2))), CallClose ''AAPL'' (VFloat NaN)] = [CallSell t c]
           \<and> pos_real demo_long t \<le> 0 \<longrightarrow> e' = demo_long)"
  by (rule reducing_never_crosses) (simp_all add: demo_long_def demo_broker_def exec_wf_def all_finite_def)

end
