(* ===== verification/Runner.thy ===== *)
theory Runner
  imports Order_Interface
begin

text \<open>
  The event loop of \<open>engine/core/runner.py\<close> and the strategy base's
  \<open>generate_signals_and_trade\<close>. Bars carry their instant in microseconds; \<open>re_clock\<close> is
  pandas' conversion to the exchange's wall clock. A strategy is a \<open>script\<close>: what its
  \<open>OnData\<close> does, call by call, given what it can see; \<open>re_cancel\<close> is the answer of the
  cancellation callback at a step. The order manager is outside the repository:
  \<open>re_pump\<close> lists the child orders it executes at a bar, from the orders placed so far, the
  time and the executor. The bars are in time order; \<open>sort_values\<close> leaves the order of
  rows with equal timestamps open, and the model keeps the order they came in.
\<close>

section \<open>Strategies\<close>

datatype loop_exn = RunCancelled | NoMarketData | Raised py_exn

text \<open>A strategy sees the result of each call (an exception it may catch) and the executor.\<close>

datatype 'u script = Return 'u | Raise loop_exn 'u
  | Call strategy_call "executor \<times> (py_exn + unit) \<Rightarrow> 'u script"

primrec run_script ::
  "(string \<Rightarrow> pyfloat option) \<Rightarrow> strategy_context \<Rightarrow> 'u script \<Rightarrow> desk \<Rightarrow> desk \<times> 'u \<times> (loop_exn + unit)" where
  "run_script fparse cx (Return u) = (\<lambda>d. (d, u, Inr ()))"
| "run_script fparse cx (Raise x u) = (\<lambda>d. (d, u, Inl x))"
| "run_script fparse cx (Call c k) =
     (\<lambda>d. case run_call fparse cx d c of (d', r) \<Rightarrow> run_script fparse cx (k (fst d', r)) d')"

record 'u run_env =
  re_start :: int
  re_poll :: int
  re_lookback :: int
  re_strict :: bool
  re_tickers :: "string list"
  re_weights :: pyval
  re_id :: string
  re_fparse :: "string \<Rightarrow> pyfloat option"
  re_clock :: "int \<Rightarrow> datetime"
  re_cancel :: "nat \<Rightarrow> bool"
  re_pump :: "oms_order list \<Rightarrow> datetime \<Rightarrow> executor \<Rightarrow> child_order list"
  re_on_data :: "'u \<Rightarrow> indicator_slot list \<Rightarrow> strategy_context \<Rightarrow> executor \<Rightarrow> 'u script"

section \<open>State of a run\<close>

record perf_record =
  pr_time :: int
  pr_tickers :: "(string \<times> pyfloat) list"
  pr_value :: pyfloat

record 'u run_state =
  rs_executor :: executor
  rs_orders :: "oms_order list option"
  rs_strategy :: 'u
  rs_indicators :: "indicator_slot list"
  rs_processed :: "int option"
  rs_last_poll :: "int option"
  rs_records :: "perf_record list"
  rs_final_prices :: "(string, pyfloat) dict"
  rs_pct :: int
  rs_progress :: "int list"

section \<open>Feeding the indicators\<close>

text \<open>\<open>groupby(ticker).last()\<close> takes the last value of each column that is not missing.\<close>

definition keep_present :: "(string, pyfloat) dict \<Rightarrow> string \<times> pyfloat \<Rightarrow> (string, pyfloat) dict" where
  "keep_present d p = (if snd p = NaN \<and> dict_get d (fst p) \<noteq> None then d else dict_set (fst p) (snd p) d)"

definition last_values :: "bar list \<Rightarrow> (string, pyfloat) dict" where
  "last_values bars = foldl (\<lambda>d b. foldl keep_present d (bar_values b)) [] bars"

definition latest_rows :: "bar list \<Rightarrow> bar list" where
  "latest_rows bars =
     (let rows = sort_key bar_time bars in
      map (\<lambda>t. let g = filter (\<lambda>b. bar_ticker b = t) rows in
             \<lparr>bar_time = bar_time (last g), bar_ticker = t, bar_values = last_values g\<rparr>)
        (sort (remdups (map bar_ticker bars))))"

definition new_bars :: "int option \<Rightarrow> bar list \<Rightarrow> bar list" where
  "new_bars processed bars =
     (case processed of None \<Rightarrow> latest_rows bars | Some p \<Rightarrow> filter (\<lambda>b. bar_time b > p) bars)"

definition feed_bar :: "indicator_slot list \<Rightarrow> bar \<Rightarrow> indicator_slot list" where
  "feed_bar inds b = map (\<lambda>i. if ind_ticker i = bar_ticker b then update_from_row i (bar_values b) else i) inds"

definition feed_indicators :: "indicator_slot list \<Rightarrow> bar list \<Rightarrow> indicator_slot list" where
  "feed_indicators inds bars = foldl feed_bar inds (sort_key bar_time bars)"

section \<open>One poll of the strategy\<close>

definition poll_context :: "'u run_env \<Rightarrow> bar list \<Rightarrow> int \<Rightarrow> data_feeds \<Rightarrow> strategy_context" where
  "poll_context env bars ts feeds =
     \<lparr>cx_now = re_clock env ts, cx_market = \<lparr>mv_bars = bars, mv_time = ts\<rparr>,
      cx_portfolio = \<lparr>pv_cash = cash_equity feeds, pv_total = port_notional_feed feeds, pv_positions = feed_positions feeds\<rparr>,
      cx_id = re_id env, cx_tickers = re_tickers env, cx_weights = re_weights env\<rparr>"

definition generate_signals_and_trade ::
  "'u run_env \<Rightarrow> bar list \<Rightarrow> int \<Rightarrow> data_feeds \<Rightarrow> 'u run_state \<Rightarrow> 'u run_state \<times> (loop_exn + unit)" where
  "generate_signals_and_trade env bars ts feeds st =
     (let inds = feed_indicators (rs_indicators st) (new_bars (rs_processed st) bars);
          cx = poll_context env bars ts feeds;
          (d, u, r) = run_script (re_fparse env) cx (re_on_data env (rs_strategy st) inds cx (rs_executor st))
                        (rs_executor st, rs_orders st)
      in (st\<lparr>rs_executor := fst d, rs_orders := snd d, rs_strategy := u, rs_indicators := inds,
             rs_processed := Some ts\<rparr>, r))"

text \<open>The guarded call in the loop: a cancellation always escapes, another exception only in
  strict mode.\<close>

definition strategy_step :: "'u run_env \<Rightarrow> bar list \<Rightarrow> int \<Rightarrow> 'u run_state \<Rightarrow> loop_exn + 'u run_state" where
  "strategy_step env bars ts st =
     (if bars = [] then Inr st
      else case get_data_feeds (rs_executor st) of
        Inl x \<Rightarrow> if re_strict env then Inl (Raised x) else Inr st
      | Inr feeds \<Rightarrow>
          (case generate_signals_and_trade env bars ts feeds st of
             (st', Inr _) \<Rightarrow> Inr st'
           | (st', Inl x) \<Rightarrow> if x = RunCancelled \<or> re_strict env then Inl x else Inr st'))"

section \<open>Performance records\<close>

definition usable_prices :: "(string, pyfloat) dict \<Rightarrow> (string, pyfloat) dict" where
  "usable_prices d = filter (\<lambda>p. isfinite (snd p) \<and> snd p > 0) d"

definition record_performance :: "'u run_env \<Rightarrow> int \<Rightarrow> 'u run_state \<Rightarrow> loop_exn + 'u run_state" where
  "record_performance env ts st =
     (case get_port_notional (rs_executor st) of
        Inl x \<Rightarrow> Inl (Raised x)
      | Inr v \<Rightarrow> Inr (st\<lparr>rs_records := rs_records st @
           [\<lparr>pr_time = ts, pr_tickers = map (\<lambda>t. (t, get_position_value (rs_executor st) t)) (re_tickers env), pr_value = v\<rparr>],
           rs_final_prices := usable_prices (latest_prices (rs_executor st))\<rparr>))"

section \<open>The event loop\<close>

definition close_of :: "bar \<Rightarrow> pyfloat" where
  "close_of b = dict_or (bar_values b) ''close_price'' NaN"

definition price_updates :: "bar list \<Rightarrow> (string, pyfloat) dict" where
  "price_updates chunk = foldl (\<lambda>d b. dict_set (bar_ticker b) (close_of b) d) [] chunk"

definition apply_prices :: "executor \<Rightarrow> bar list \<Rightarrow> executor" where
  "apply_prices e chunk =
     foldl (\<lambda>e p. if snd p = NaN then e else update_price e (fst p) (snd p)) e (price_updates chunk)"

fun run_children :: "executor \<Rightarrow> child_order list \<Rightarrow> datetime \<Rightarrow> executor" where
  "run_children e [] now = e"
| "run_children e (c # cs) now =
     (case execute_child_order e c now of (e', Inl _) \<Rightarrow> e' | (e', Inr _) \<Rightarrow> run_children e' cs now)"

definition pump_orders :: "'u run_env \<Rightarrow> int \<Rightarrow> oms_order list option \<Rightarrow> executor \<Rightarrow> executor" where
  "pump_orders env ts orders e =
     (case orders of None \<Rightarrow> e
      | Some os \<Rightarrow> run_children e (re_pump env os (re_clock env ts) e) (re_clock env ts))"

definition poll_due :: "'u run_env \<Rightarrow> int \<Rightarrow> int option \<Rightarrow> bool" where
  "poll_due env ts prev = (case prev of None \<Rightarrow> True | Some p \<Rightarrow> \<not> ts - p < re_poll env)"

text \<open>The rows the strategy sees: positions \<open>searchsorted(window start)\<close> to the last row of the
  current group.\<close>

definition history_slice :: "'u run_env \<Rightarrow> bar list \<Rightarrow> int \<Rightarrow> bar list" where
  "history_slice env rows ts =
     (let first = length (takeWhile (\<lambda>b. bar_time b < ts - re_lookback env) rows);
          final = Max (set (filter (\<lambda>i. bar_time (rows ! i) = ts) [0..<length rows]))
      in drop first (take (final + 1) rows))"

definition report_pct :: "nat \<Rightarrow> nat \<Rightarrow> 'u run_state \<Rightarrow> 'u run_state" where
  "report_pct steps k st =
     (let pct = int k * 100 div int steps in
      if pct \<noteq> rs_pct st then st\<lparr>rs_pct := pct, rs_progress := rs_progress st @ [pct]\<rparr> else st)"

definition bar_step :: "'u run_env \<Rightarrow> bar list \<Rightarrow> nat \<Rightarrow> nat \<Rightarrow> int \<Rightarrow> 'u run_state \<Rightarrow> loop_exn + 'u run_state" where
  "bar_step env rows steps k ts st =
     (if re_cancel env k then Inl RunCancelled
      else let st1 = report_pct steps k st;
               chunk = filter (\<lambda>b. bar_time b = ts) rows;
               e1 = apply_prices ((rs_executor st1)\<lparr>current_time := Some (re_clock env ts)\<rparr>) chunk;
               st2 = st1\<lparr>rs_executor := pump_orders env ts (rs_orders st1) e1\<rparr>
           in if \<not> poll_due env ts (rs_last_poll st2) then Inr st2
              else ebind (strategy_step env (history_slice env rows ts) ts (st2\<lparr>rs_last_poll := Some ts\<rparr>))
                     (record_performance env ts))"

fun bar_loop :: "'u run_env \<Rightarrow> bar list \<Rightarrow> nat \<Rightarrow> nat \<Rightarrow> int list \<Rightarrow> 'u run_state \<Rightarrow> loop_exn + 'u run_state" where
  "bar_loop env rows steps k [] st = Inr st"
| "bar_loop env rows steps k (ts # tss) st =
     ebind (bar_step env rows steps k ts st) (bar_loop env rows steps (k + 1) tss)"

text \<open>The percentages the loop reports, also when it ends in an exception: a bar reports before its work.\<close>

fun loop_progress :: "'u run_env \<Rightarrow> bar list \<Rightarrow> nat \<Rightarrow> nat \<Rightarrow> int list \<Rightarrow> 'u run_state \<Rightarrow> int list" where
  "loop_progress env rows steps k [] st = []"
| "loop_progress env rows steps k (ts # tss) st =
     (if re_cancel env k then []
      else (let pct = int k * 100 div int steps in if pct \<noteq> rs_pct st then [pct] else []) @
        (case bar_step env rows steps k ts st of Inl _ \<Rightarrow> [] | Inr st' \<Rightarrow> loop_progress env rows steps (k + 1) tss st'))"

definition loop_timestamps :: "'u run_env \<Rightarrow> bar list \<Rightarrow> int list" where
  "loop_timestamps env rows = filter (\<lambda>t. t \<ge> re_start env) (first_occurrences (map bar_time rows))"

text \<open>The closing record: the curve ends on the last bar even between two polls.\<close>

definition close_curve :: "'u run_env \<Rightarrow> int \<Rightarrow> 'u run_state \<Rightarrow> loop_exn + 'u run_state" where
  "close_curve env final st =
     (if rs_records st \<noteq> [] \<and> pr_time (last (rs_records st)) \<noteq> final
      then record_performance env final st else Inr st)"

definition event_loop_progress :: "'u run_env \<Rightarrow> bar list \<Rightarrow> 'u run_state \<Rightarrow> int list" where
  "event_loop_progress env rows st =
     (if rows = [] then []
      else let tss = loop_timestamps env rows in loop_progress env rows (length tss) 1 tss
       (st\<lparr>rs_records := [], rs_final_prices := [], rs_last_poll := None, rs_pct := -1\<rparr>))"

definition run_event_loop :: "'u run_env \<Rightarrow> bar list \<Rightarrow> 'u run_state \<Rightarrow> loop_exn + 'u run_state" where
  "run_event_loop env rows st =
     (if rows = [] then Inr st
      else let tss = loop_timestamps env rows;
               st0 = st\<lparr>rs_records := [], rs_final_prices := [], rs_last_poll := None, rs_pct := -1\<rparr>
           in if tss = [] then Inr st0
              else ebind (bar_loop env rows (length tss) 1 tss st0) (close_curve env (last tss)))"

section \<open>A whole run\<close>

record perf_row =
  pf_record :: perf_record
  pf_pnl :: pyfloat

definition calculate_results :: "pyfloat \<Rightarrow> perf_record list \<Rightarrow> perf_row list option" where
  "calculate_results capital records =
     (if records = [] then None
      else Some (map (\<lambda>r. \<lparr>pf_record = r,
              pf_pnl = (if capital > 0 then truediv (pr_value r - capital) capital else Fin 0)\<rparr>)
            (sort_key pr_time records)))"

definition prepare_data :: "bool \<Rightarrow> (loop_exn + bar list) \<Rightarrow> loop_exn + bar list option" where
  "prepare_data strict fetched =
     ebind fetched (\<lambda>bars.
       if bars = [] then (if strict then Inl NoMarketData else Inr None)
       else Inr (Some (sort_key bar_time bars)))"

text \<open>\<open>run\<close>: cancelled before the load, the loop, the results; outside strict mode an exception
  that is not a cancellation ends in no result.\<close>

definition run_backtest ::
  "'u run_env \<Rightarrow> bool \<Rightarrow> (loop_exn + bar list) \<Rightarrow> pyfloat \<Rightarrow> (py_exn + executor) \<Rightarrow> (executor \<Rightarrow> 'u run_state)
   \<Rightarrow> loop_exn + (perf_row list \<times> 'u run_state) option" where
  "run_backtest env cancelled fetched capital made initial =
     (if cancelled then Inl RunCancelled
      else let outcome =
             ebind (prepare_data (re_strict env) fetched) (\<lambda>data.
               case data of None \<Rightarrow> Inr None
               | Some rows \<Rightarrow>
                   (case made of Inl x \<Rightarrow> Inl (Raised x)
                    | Inr e \<Rightarrow>
                        ebind (run_event_loop env rows (initial e)) (\<lambda>st.
                          Inr (case calculate_results capital (rs_records st) of
                                 None \<Rightarrow> None
                               | Some perf \<Rightarrow> Some (perf, st)))))
           in case outcome of
                Inl x \<Rightarrow> if x = RunCancelled \<or> re_strict env then Inl x else Inr None
              | Inr res \<Rightarrow> Inr res)"

text \<open>What \<open>run\<close> reports on the way, each percentage with the stage it names.\<close>

definition run_progress ::
  "'u run_env \<Rightarrow> bool \<Rightarrow> (loop_exn + bar list) \<Rightarrow> (py_exn + executor) \<Rightarrow> (executor \<Rightarrow> 'u run_state) \<Rightarrow> (int \<times> string) list" where
  "run_progress env cancelled fetched made initial =
     (if cancelled then []
      else (0, ''loading data'') #
        (case (prepare_data (re_strict env) fetched, made) of
           (Inr (Some rows), Inr e) \<Rightarrow>
             map (\<lambda>p. (p, ''simulating'')) (event_loop_progress env rows (initial e)) @
             (case run_event_loop env rows (initial e) of
                Inr st \<Rightarrow> if rs_records st = [] then [] else [(100, ''writing report'')]
              | Inl _ \<Rightarrow> [])
         | _ \<Rightarrow> []))"

end
