(* ===== verification/Runner_Frame.thy ===== *)
theory Runner_Frame
  imports Runner Executor_Claims "HOL-Library.Sublist"
begin

text \<open>
  Lemmas on the event loop: the positional slice is the lookback window, a step depends on the bars
  up to its own instant only, progress reports do not steer the run, and fills and samples are
  only ever appended.
\<close>

section \<open>Ordered bars\<close>

lemma sorted_takeWhile_less:
  assumes "sorted (map f xs)"
  shows "takeWhile (\<lambda>x. f x < (w :: int)) xs = filter (\<lambda>x. f x < w) xs"
  using assms
proof (induction xs)
  case (Cons a xs)
  have "filter (\<lambda>x. f x < w) xs = []" if "\<not> f a < w"
    using Cons.prems that by (force simp: filter_empty_conv)
  with Cons show ?case by simp
qed simp

lemma sorted_dropWhile_less:
  assumes "sorted (map f xs)"
  shows "dropWhile (\<lambda>x. f x < (w :: int)) xs = filter (\<lambda>x. w \<le> f x) xs"
  using assms
proof (induction xs)
  case (Cons a xs)
  have "filter (\<lambda>x. w \<le> f x) xs = xs" if "\<not> f a < w"
    using Cons.prems that by (force simp: filter_id_conv)
  with Cons show ?case by (auto simp: not_less)
qed simp

lemma sorted_takeWhile_le:
  assumes "sorted (map f xs)"
  shows "takeWhile (\<lambda>x. f x \<le> (w :: int)) xs = filter (\<lambda>x. f x \<le> w) xs"
  using sorted_takeWhile_less [OF assms, of "w + 1"] by (simp add: zless_add1_eq order_le_less)

lemma sorted_wrt_remdups: "sorted_wrt P xs \<Longrightarrow> sorted_wrt P (remdups xs)"
  by (induction xs) auto

lemma sorted_first_occurrences:
  "sorted xs \<Longrightarrow> sorted_wrt (<) (first_occurrences (xs :: int list))"
proof -
  assume "sorted xs"
  then have "sorted_wrt (\<lambda>a b. b \<le> a) (remdups (rev xs))"
    by (intro sorted_wrt_remdups) (simp add: sorted_wrt_rev)
  then have "sorted (first_occurrences xs)"
    by (simp add: first_occurrences_def sorted_wrt_rev)
  moreover have "distinct (first_occurrences xs)" by (simp add: first_occurrences_def)
  ultimately show ?thesis by (simp add: strict_sorted_iff)
qed

lemma filter_first_occurrences:
  "filter P (first_occurrences xs) = first_occurrences (filter P xs)"
  by (simp add: first_occurrences_def rev_filter remdups_filter)

definition bars_upto :: "int \<Rightarrow> bar list \<Rightarrow> bar list" where
  "bars_upto t rows = filter (\<lambda>b. bar_time b \<le> t) rows"

lemma sorted_filter_map: "sorted (map f xs) \<Longrightarrow> sorted (map f (filter P xs))"
  by (induction xs) auto

text \<open>The positional slice of the code is the window of the lookback.\<close>

lemma history_slice_window:
  assumes "sorted (map bar_time rows)" "ts \<in> bar_time ` set rows" "0 \<le> re_lookback env"
  shows "history_slice env rows ts = filter (\<lambda>b. ts - re_lookback env \<le> bar_time b \<and> bar_time b \<le> ts) rows"
proof -
  let ?w = "ts - re_lookback env"
  let ?x = "takeWhile (\<lambda>b. bar_time b \<le> ts) rows"
  let ?is = "set (filter (\<lambda>i. bar_time (rows ! i) = ts) [0..<length rows])"
  have x: "?x = bars_upto ts rows" using sorted_takeWhile_le [OF assms(1)] by (simp add: bars_upto_def)
  obtain i where i: "i < length rows" "bar_time (rows ! i) = ts"
    using assms(2) by (auto simp: in_set_conv_nth)
  have less: "j < length ?x" if "j < length rows" "bar_time (rows ! j) = ts" for j
  proof (rule ccontr)
    assume "\<not> j < length ?x"
    then have n: "length ?x < length rows" "length ?x \<le> j" using that by auto
    then have "\<not> bar_time (rows ! length ?x) \<le> ts" by (metis nth_length_takeWhile)
    moreover have "bar_time (rows ! length ?x) \<le> bar_time (rows ! j)"
      using sorted_nth_mono [OF assms(1), of "length ?x" j] n that by simp
    ultimately show False using that by simp
  qed
  let ?l = "length ?x - 1"
  have l: "?l < length rows" "i \<le> ?l" using less [OF i] i(1) length_takeWhile_le [of _ rows]
    by (auto simp: less_eq_Suc_le)
  have "bar_time (rows ! ?l) \<le> ts"
    using less [OF i] by (metis (lifting) One_nat_def diff_less gr_implies_not0 length_greater_0_conv
        list.size(3) lessI nth_mem set_takeWhileD takeWhile_nth zero_less_one)
  moreover have "ts \<le> bar_time (rows ! ?l)"
    using sorted_nth_mono [OF assms(1), of i ?l] l i by simp
  ultimately have e: "bar_time (rows ! ?l) = ts" by simp
  have "Max ?is = ?l"
  proof (rule Max_eqI)
    show "finite ?is" by simp
    show "j \<le> ?l" if "j \<in> ?is" for j using that less [of j] by simp
    show "?l \<in> ?is" using e l(1) by simp
  qed
  then have "Max ?is + 1 = length ?x" using less [OF i] by linarith
  then have "take (Max ?is + 1) rows = ?x"
    using takeWhile_eq_take [of "\<lambda>b. bar_time b \<le> ts" rows] by simp
  then have "history_slice env rows ts = drop (length (takeWhile (\<lambda>b. bar_time b < ?w) rows)) ?x"
    unfolding history_slice_def Let_def by (rule arg_cong)
  also have "takeWhile (\<lambda>b. bar_time b < ?w) rows = takeWhile (\<lambda>b. bar_time b < ?w) ?x"
    unfolding x using assms(1,3)
    by (subst (1 2) sorted_takeWhile_less) (auto simp: bars_upto_def sorted_filter_map intro!: filter_cong)
  also have "drop (length (takeWhile (\<lambda>b. bar_time b < ?w) ?x)) ?x = dropWhile (\<lambda>b. bar_time b < ?w) ?x"
    by (simp add: dropWhile_eq_drop)
  also have "\<dots> = filter (\<lambda>b. ?w \<le> bar_time b) (bars_upto ts rows)"
    unfolding x using assms(1) by (intro sorted_dropWhile_less) (simp add: bars_upto_def sorted_filter_map)
  finally show ?thesis by (simp add: bars_upto_def conj_commute)
qed

lemma history_slice_upto:
  assumes "sorted (map bar_time rows)" "ts \<in> bar_time ` set rows" "0 \<le> re_lookback env" "ts \<le> t"
  shows "history_slice env rows ts = history_slice env (bars_upto t rows) ts"
proof -
  have "ts \<in> bar_time ` set (bars_upto t rows)" using assms by (auto simp: bars_upto_def)
  then show ?thesis using assms
    by (subst (1 2) history_slice_window)
       (auto simp: bars_upto_def sorted_filter_map intro!: filter_cong)
qed

lemma chunk_upto: "ts \<le> t \<Longrightarrow> filter (\<lambda>b. bar_time b = ts) rows = filter (\<lambda>b. bar_time b = ts) (bars_upto t rows)"
  by (auto simp: bars_upto_def intro!: filter_cong)

lemma loop_timestamps_upto:
  "filter (\<lambda>ts. ts \<le> t) (loop_timestamps env rows) = loop_timestamps env (bars_upto t rows)"
  by (simp add: loop_timestamps_def filter_first_occurrences bars_upto_def filter_map o_def conj_commute)

lemma sorted_loop_timestamps:
  "sorted (map bar_time rows) \<Longrightarrow> sorted_wrt (<) (loop_timestamps env rows)"
  by (simp add: loop_timestamps_def sorted_first_occurrences sorted_wrt_filter)

lemma loop_timestamps_set: "ts \<in> set (loop_timestamps env rows) \<Longrightarrow> ts \<in> bar_time ` set rows"
  by (auto simp: loop_timestamps_def)

section \<open>Progress reports do not steer the run\<close>

definition trading :: "'u run_state \<Rightarrow> 'u run_state" where
  "trading st = st\<lparr>rs_pct := 0, rs_progress := []\<rparr>"

abbreviation trading_result :: "loop_exn + 'u run_state \<Rightarrow> loop_exn + 'u run_state" where
  "trading_result \<equiv> map_sum id trading"

lemma trading_fields [simp]:
  "rs_executor (trading st) = rs_executor st" "rs_orders (trading st) = rs_orders st"
  "rs_strategy (trading st) = rs_strategy st" "rs_indicators (trading st) = rs_indicators st"
  "rs_processed (trading st) = rs_processed st" "rs_last_poll (trading st) = rs_last_poll st"
  "rs_records (trading st) = rs_records st" "rs_final_prices (trading st) = rs_final_prices st"
  by (simp_all add: trading_def)

lemma trading_idem [simp]: "trading (trading st) = trading st"
  by (simp add: trading_def)

lemma trading_updates:
  "trading (st\<lparr>rs_executor := e\<rparr>) = (trading st)\<lparr>rs_executor := e\<rparr>"
  "trading (st\<lparr>rs_last_poll := p\<rparr>) = (trading st)\<lparr>rs_last_poll := p\<rparr>"
  by (cases st; simp add: trading_def)+

lemma report_pct_fields [simp]:
  "rs_executor (report_pct n k st) = rs_executor st" "rs_orders (report_pct n k st) = rs_orders st"
  "rs_strategy (report_pct n k st) = rs_strategy st" "rs_indicators (report_pct n k st) = rs_indicators st"
  "rs_processed (report_pct n k st) = rs_processed st" "rs_last_poll (report_pct n k st) = rs_last_poll st"
  "rs_records (report_pct n k st) = rs_records st" "rs_final_prices (report_pct n k st) = rs_final_prices st"
  "trading (report_pct n k st) = trading st"
  by (simp_all add: report_pct_def trading_def Let_def)

lemma generate_trading:
  "generate_signals_and_trade env bars ts feeds (trading st) =
     (case generate_signals_and_trade env bars ts feeds st of (st', r) \<Rightarrow> (trading st', r))"
  by (cases st) (simp add: generate_signals_and_trade_def Let_def trading_def split: prod.split)

lemma strategy_step_trading:
  "strategy_step env bars ts (trading st) = trading_result (strategy_step env bars ts st)"
  by (simp add: strategy_step_def generate_trading split: sum.split prod.split)

lemma record_performance_trading:
  "record_performance env ts (trading st) = trading_result (record_performance env ts st)"
  by (cases st) (simp add: record_performance_def trading_def split: sum.split)

lemma trading_result_ebind:
  assumes "trading_result x = trading_result y"
    and "\<And>a b. trading a = trading b \<Longrightarrow> trading_result (f a) = trading_result (g b)"
  shows "trading_result (ebind x f) = trading_result (ebind y g)"
  using assms by (cases x; cases y) auto

text \<open>The bars up to the step decide it; the number of steps only shows in the percentage.\<close>

definition bar_work :: "'u run_env \<Rightarrow> bar list \<Rightarrow> int \<Rightarrow> 'u run_state \<Rightarrow> loop_exn + 'u run_state" where
  "bar_work env rows ts st1 =
     (let e1 = apply_prices ((rs_executor st1)\<lparr>current_time := Some (re_clock env ts)\<rparr>)
                 (filter (\<lambda>b. bar_time b = ts) rows);
          st2 = st1\<lparr>rs_executor := pump_orders env ts (rs_orders st1) e1\<rparr>
      in if \<not> poll_due env ts (rs_last_poll st2) then Inr st2
         else ebind (strategy_step env (history_slice env rows ts) ts (st2\<lparr>rs_last_poll := Some ts\<rparr>))
                (record_performance env ts))"

lemma bar_step_work:
  "bar_step env rows n k ts st = (if re_cancel env k then Inl RunCancelled else bar_work env rows ts (report_pct n k st))"
  by (simp add: bar_step_def bar_work_def Let_def)

lemma bar_work_trading:
  "bar_work env rows ts (trading st) = trading_result (bar_work env rows ts st)"
  unfolding bar_work_def Let_def trading_fields
  by (simp add: trading_updates [symmetric] strategy_step_trading del: trading_fields)
     (cases "strategy_step env (history_slice env rows ts) ts
        (st\<lparr>rs_executor := pump_orders env ts (rs_orders st)
             (apply_prices ((rs_executor st)\<lparr>current_time := Some (re_clock env ts)\<rparr>) (filter (\<lambda>b. bar_time b = ts) rows)),
            rs_last_poll := Some ts\<rparr>)"; simp add: record_performance_trading)

lemma bar_step_cong:
  assumes "trading st = trading st'" "sorted (map bar_time rows)" "sorted (map bar_time rows')"
    "0 \<le> re_lookback env" "bars_upto t rows = bars_upto t rows'" "ts \<le> t" "ts \<in> bar_time ` set rows"
  shows "trading_result (bar_step env rows n k ts st) = trading_result (bar_step env rows' n' k ts st')"
proof -
  have "ts \<in> bar_time ` set rows'"
  proof -
    from assms(6,7) have "ts \<in> bar_time ` set (bars_upto t rows)" by (auto simp: bars_upto_def)
    then show ?thesis unfolding assms(5) by (auto simp: bars_upto_def)
  qed
  then have "history_slice env rows ts = history_slice env rows' ts"
    using history_slice_upto [OF assms(2,7,4,6)] history_slice_upto [OF assms(3) _ assms(4,6)] assms(5) by simp
  moreover have "filter (\<lambda>b. bar_time b = ts) rows = filter (\<lambda>b. bar_time b = ts) rows'"
    using chunk_upto [OF assms(6), of rows] chunk_upto [OF assms(6), of rows'] unfolding assms(5) by (rule trans [OF _ sym])
  ultimately have "bar_work env rows ts = bar_work env rows' ts"
    by (simp add: bar_work_def fun_eq_iff Let_def)
  then show ?thesis
    using bar_work_trading [of env rows' ts "report_pct n k st"] bar_work_trading [of env rows' ts "report_pct n' k st'"] assms(1)
    by (simp add: bar_step_work)
qed

lemma bar_loop_cong:
  assumes "sorted (map bar_time rows)" "sorted (map bar_time rows')"
    "0 \<le> re_lookback env" "bars_upto t rows = bars_upto t rows'"
  shows "list_all (\<lambda>ts. ts \<le> t \<and> ts \<in> bar_time ` set rows) tss \<Longrightarrow> trading st = trading st' \<Longrightarrow>
    trading_result (bar_loop env rows n k tss st) = trading_result (bar_loop env rows' n' k tss st')"
proof (induction tss arbitrary: k st st')
  case Nil
  then show ?case by simp
next
  case (Cons ts tss)
  show ?case unfolding bar_loop.simps
  proof (rule trading_result_ebind [OF bar_step_cong [OF Cons.prems(2) assms]])
    show "ts \<le> t" "ts \<in> bar_time ` set rows" using Cons.prems(1) by auto
    show "trading_result (bar_loop env rows n (k + 1) tss a) = trading_result (bar_loop env rows' n' (k + 1) tss b)"
      if "trading a = trading b" for a b
      by (rule Cons.IH [OF _ that]) (use Cons.prems(1) in simp)
  qed
qed

lemma bar_loop_append:
  "bar_loop env rows n k (xs @ ys) st =
   ebind (bar_loop env rows n k xs st) (bar_loop env rows n (k + length xs) ys)"
proof (induction xs arbitrary: k st)
  case (Cons x xs)
  then show ?case by (cases "bar_step env rows n k x st") simp_all
qed simp

section \<open>Nothing recorded is rewritten\<close>

definition held :: "executor \<Rightarrow> string set" where
  "held e = fst ` set (positions e)"

definition log_grows :: "executor \<Rightarrow> executor \<Rightarrow> bool" where
  "log_grows e e' \<longleftrightarrow> prefix (trade_log e) (trade_log e') \<and> tickers e' = tickers e \<and> held e \<subseteq> held e'"

lemma log_grows_refl [simp]: "log_grows e e"
  by (simp add: log_grows_def)

lemma log_grows_trans [trans]: "log_grows e e' \<Longrightarrow> log_grows e' e'' \<Longrightarrow> log_grows e e''"
  unfolding log_grows_def by (auto intro: prefix_order.trans)

lemma log_grows_sizing: "log_grows e (fst (default_trade_size fparse e s t ap c pn tw tgt))"
  by (auto simp: log_grows_def held_def default_trade_size_def apply_sentiment_gate_def Let_def
      split: sum.split option.split prod.split)

lemma log_grows_settle: "log_grows e ((settle e t b q x)\<lparr>trade_log := trade_log e @ l\<rparr>)"
  by (auto simp: log_grows_def held_def settle_def Let_def)

lemma log_settle [simp]: "trade_log (settle e t b q x) = trade_log e"
  by (simp add: settle_def Let_def)

lemma settle_grows: "log_grows e (settle e t b q x)"
  using log_grows_settle [where l = "[]"] by (simp add: log_grows_def held_def)

lemma log_grows_trade: "log_grows e (fst (execute_trade fparse e port t sig c ap pn tw ts tgt))"
proof -
  obtain e1 r where d: "default_trade_size fparse e sig t ap c pn tw tgt = (e1, r)"
    by fastforce
  have 1: "log_grows e e1" using log_grows_sizing [of e fparse sig t ap c pn tw tgt] d by simp
  have "log_grows e1 (fst (execute_trade fparse e port t sig c ap pn tw ts tgt))"
    using d by (simp add: execute_trade_def Let_def log_grows_settle settle_grows split: sum.split)
  with 1 show ?thesis by (rule log_grows_trans)
qed

lemma log_grows_child: "log_grows e (fst (execute_child_order e c ts))"
  by (simp add: execute_child_order_def Let_def log_grows_settle split: sum.split)

lemma log_grows_place: "log_grows (fst d) (fst (fst (place fparse cx d t side c tw tgt)))"
proof (cases d)
  case (Pair e om)
  show ?thesis
  proof (cases "asset_close (cx_market cx) t")
    case None
    then show ?thesis by (simp add: place_def)
  next
    case (Some price)
    let ?x = "execute_trade fparse e (cx_id cx) t side c (VFloat price) (VFloat (pv_total (cx_portfolio cx))) tw (cx_now cx) tgt"
    let ?y = "default_trade_size fparse e side t (VFloat price) c (VFloat (pv_total (cx_portfolio cx))) tw tgt"
    have "fst (fst (place fparse cx d t side c tw tgt)) \<in> {e, fst ?x, fst ?y}"
      using Pair Some
      by (cases ?x; cases ?y; cases om) (auto simp: place_def split: sum.split)
    then show ?thesis
      using Pair log_grows_trade [of e fparse "cx_id cx" t side c "VFloat price" _ tw "cx_now cx" tgt]
        log_grows_sizing [of e fparse side t "VFloat price" c _ tw tgt]
      by auto
  qed
qed

lemma log_grows_call: "log_grows (fst d) (fst (fst (run_call fparse cx d c)))"
proof -
  have T: "log_grows (fst d) (fst (fst (ctx_target_weight fparse cx d t w cf)))" for t w cf
    using log_grows_place [of d fparse cx] by (simp add: ctx_target_weight_def split: sum.split)
  show ?thesis
    using log_grows_place [of d fparse cx] T
    by (cases c) (simp_all add: ctx_buy_def ctx_sell_def ctx_close_def ctx_execute_def split: sum.split)
qed

lemma log_grows_script: "log_grows (fst d) (fst (fst (run_script fparse cx s d)))"
proof (induction s arbitrary: d)
  case (Call c k)
  obtain d' r where c: "run_call fparse cx d c = (d', r)" by (cases "run_call fparse cx d c")
  have "log_grows (fst d) (fst d')" using log_grows_call [of d fparse cx c] c by simp
  moreover have "log_grows (fst d') (fst (fst (run_script fparse cx (k (fst d', r)) d')))"
    by (rule Call.IH) simp
  ultimately show ?case using c by (auto intro: log_grows_trans)
qed simp_all

lemma log_grows_children: "log_grows e (run_children e cs now)"
proof (induction e cs now rule: run_children.induct)
  case (2 e c cs now)
  obtain e' r where c: "execute_child_order e c now = (e', r)" by fastforce
  with log_grows_child [of e c now] have "log_grows e e'" by simp
  with 2 c show ?case by (cases r) (auto intro: log_grows_trans)
qed simp

lemma log_grows_apply_prices: "log_grows e (apply_prices e chunk)"
proof -
  have "log_grows e (foldl (\<lambda>e p. if snd p = NaN then e else update_price e (fst p) (snd p)) e ps)" for ps
    by (induction ps rule: rev_induct) (auto simp: update_price_def log_grows_def held_def)
  then show ?thesis by (simp add: apply_prices_def)
qed

lemma log_grows_pump: "log_grows e (pump_orders env ts orders e)"
  by (cases orders) (simp_all add: pump_orders_def log_grows_children)

definition grows :: "'u run_state \<Rightarrow> 'u run_state \<Rightarrow> bool" where
  "grows st st' \<longleftrightarrow> prefix (rs_records st) (rs_records st') \<and> log_grows (rs_executor st) (rs_executor st')"

lemma grows_refl [simp]: "grows st st"
  by (simp add: grows_def)

lemma grows_trans: "grows st st' \<Longrightarrow> grows st' st'' \<Longrightarrow> grows st st''"
  unfolding grows_def by (auto intro: log_grows_trans prefix_order.trans)

lemma generate_frame:
  assumes "generate_signals_and_trade env bars ts feeds st = (st', r)"
  shows "rs_records st' = rs_records st" "rs_last_poll st' = rs_last_poll st" "rs_processed st' = Some ts"
    "rs_indicators st' = feed_indicators (rs_indicators st) (new_bars (rs_processed st) bars)"
    "rs_pct st' = rs_pct st" "rs_progress st' = rs_progress st" "log_grows (rs_executor st) (rs_executor st')"
proof -
  let ?inds = "feed_indicators (rs_indicators st) (new_bars (rs_processed st) bars)"
  obtain d u q where s: "run_script (re_fparse env) (poll_context env bars ts feeds)
      (re_on_data env (rs_strategy st) ?inds (poll_context env bars ts feeds) (rs_executor st))
      (rs_executor st, rs_orders st) = (d, u, q)" by (metis surj_pair)
  with assms have st': "st' = st\<lparr>rs_executor := fst d, rs_orders := snd d, rs_strategy := u, rs_indicators := ?inds,
      rs_processed := Some ts\<rparr>"
    by (simp add: generate_signals_and_trade_def Let_def)
  then show "rs_records st' = rs_records st" "rs_last_poll st' = rs_last_poll st" "rs_processed st' = Some ts"
    "rs_indicators st' = ?inds" "rs_pct st' = rs_pct st" "rs_progress st' = rs_progress st" by simp_all
  show "log_grows (rs_executor st) (rs_executor st')"
    using log_grows_script [of "(rs_executor st, rs_orders st)" "re_fparse env" "poll_context env bars ts feeds"
        "re_on_data env (rs_strategy st) ?inds (poll_context env bars ts feeds) (rs_executor st)"]
    unfolding s st' by simp
qed

lemma strategy_step_grows: "strategy_step env bars ts st = Inr st' \<Longrightarrow> grows st st'"
proof -
  assume s: "strategy_step env bars ts st = Inr st'"
  show ?thesis
  proof (cases "st' = st")
    case False
    with s obtain feeds r where "generate_signals_and_trade env bars ts feeds st = (st', r)"
      by (auto simp: strategy_step_def split: if_splits sum.splits prod.splits)
    from generate_frame(1,7) [OF this] show ?thesis by (simp add: grows_def)
  qed simp
qed

lemma record_performance_frame:
  assumes "record_performance env ts st = Inr st'"
  shows "rs_executor st' = rs_executor st"
    "\<exists>v. get_port_notional (rs_executor st) = Inr v \<and> rs_records st' = rs_records st @
       [\<lparr>pr_time = ts, pr_tickers = map (\<lambda>t. (t, get_position_value (rs_executor st) t)) (re_tickers env), pr_value = v\<rparr>]"
    "rs_final_prices st' = usable_prices (latest_prices (rs_executor st))"
    "rs_last_poll st' = rs_last_poll st" "rs_processed st' = rs_processed st"
    "rs_indicators st' = rs_indicators st" "rs_pct st' = rs_pct st" "rs_progress st' = rs_progress st"
  using assms by (auto simp: record_performance_def split: sum.splits)

lemma record_performance_grows: "record_performance env ts st = Inr st' \<Longrightarrow> grows st st'"
  using record_performance_frame(1,2) [of env ts st st'] by (auto simp: grows_def)

lemma bar_work_cases:
  assumes "bar_work env rows ts st = Inr st'"
  obtains (wait) e where "st' = st\<lparr>rs_executor := e\<rparr>" "log_grows (rs_executor st) e" "\<not> poll_due env ts (rs_last_poll st)"
  | (poll) e st1 where "log_grows (rs_executor st) e"
      "strategy_step env (history_slice env rows ts) ts (st\<lparr>rs_executor := e, rs_last_poll := Some ts\<rparr>) = Inr st1"
      "record_performance env ts st1 = Inr st'" "poll_due env ts (rs_last_poll st)"
proof -
  let ?e1 = "apply_prices ((rs_executor st)\<lparr>current_time := Some (re_clock env ts)\<rparr>) (filter (\<lambda>b. bar_time b = ts) rows)"
  let ?e = "pump_orders env ts (rs_orders st) ?e1"
  have "log_grows (rs_executor st) ((rs_executor st)\<lparr>current_time := Some (re_clock env ts)\<rparr>)"
    by (simp add: log_grows_def held_def)
  then have g: "log_grows (rs_executor st) ?e"
    by (rule log_grows_trans [OF _ log_grows_trans [OF log_grows_apply_prices log_grows_pump]])
  show thesis
  proof (cases "poll_due env ts (rs_last_poll st)")
    case True
    with assms obtain st1 where
      "strategy_step env (history_slice env rows ts) ts (st\<lparr>rs_executor := ?e, rs_last_poll := Some ts\<rparr>) = Inr st1"
      "record_performance env ts st1 = Inr st'"
      by (auto simp: bar_work_def Let_def ebind_Inr_iff)
    then show thesis using poll [OF g] True by blast
  next
    case False
    with assms have "st' = st\<lparr>rs_executor := ?e\<rparr>" by (simp add: bar_work_def Let_def)
    then show thesis by (rule wait [OF _ g False])
  qed
qed

lemma bar_work_grows: "bar_work env rows ts st = Inr st' \<Longrightarrow> grows st st'"
proof (erule bar_work_cases)
  fix e assume "st' = st\<lparr>rs_executor := e\<rparr>" "log_grows (rs_executor st) e"
  then show "grows st st'" by (simp add: grows_def)
next
  fix e st1
  assume g: "log_grows (rs_executor st) e"
    and s: "strategy_step env (history_slice env rows ts) ts (st\<lparr>rs_executor := e, rs_last_poll := Some ts\<rparr>) = Inr st1"
    and r: "record_performance env ts st1 = Inr st'"
  from g have "grows st (st\<lparr>rs_executor := e, rs_last_poll := Some ts\<rparr>)" by (simp add: grows_def)
  then show "grows st st'"
    by (rule grows_trans [OF _ grows_trans [OF strategy_step_grows [OF s] record_performance_grows [OF r]]])
qed

lemma bar_step_grows: "bar_step env rows n k ts st = Inr st' \<Longrightarrow> grows st st'"
  using bar_work_grows [of env rows ts "report_pct n k st" st']
  by (simp add: bar_step_work grows_def split: if_splits)

lemma bar_loop_grows: "bar_loop env rows n k tss st = Inr st' \<Longrightarrow> grows st st'"
proof (induction tss arbitrary: k st)
  case (Cons ts tss)
  then obtain st1 where "bar_step env rows n k ts st = Inr st1" "bar_loop env rows n (k + 1) tss st1 = Inr st'"
    by (auto simp: ebind_Inr_iff)
  with Cons.IH show ?case by (blast intro: grows_trans bar_step_grows)
qed simp

lemma close_curve_grows: "close_curve env final st = Inr st' \<Longrightarrow> grows st st'"
  by (auto simp: close_curve_def record_performance_grows split: if_splits)

end
