(* ===== verification/Runner_Claims.thy ===== *)
theory Runner_Claims
  imports Runner_Frame
begin

text \<open>
  What the event loop promises: nothing after an instant can influence what happens up to it,
  the curve ends on the last bar with the marks and value of the final executor, and every bar
  reaches every indicator of its ticker exactly once.
\<close>

section \<open>The start of a run\<close>

definition fresh :: "'u run_state \<Rightarrow> 'u run_state" where
  "fresh st = st\<lparr>rs_records := [], rs_final_prices := [], rs_last_poll := None, rs_pct := -1\<rparr>"

section \<open>A concrete run\<close>

definition demo_bar :: "int \<Rightarrow> real \<Rightarrow> bar" where
  "demo_bar t c = \<lparr>bar_time = t, bar_ticker = ''AAPL'', bar_values = [(''close_price'', Fin c)]\<rparr>"

definition demo_bars :: "bar list" where
  "demo_bars = [demo_bar 0 100, demo_bar 10 110, demo_bar 20 120, demo_bar 25 125]"

text \<open>A strategy that counts its polls and sells at each of them.\<close>

definition demo_on_data :: "nat \<Rightarrow> indicator_slot list \<Rightarrow> strategy_context \<Rightarrow> executor \<Rightarrow> nat script" where
  "demo_on_data u inds cx e = Call (CallSell ''AAPL'' (VFloat (Fin 1))) (\<lambda>_. Return (u + 1))"

definition demo_loop :: "nat run_env" where
  "demo_loop = \<lparr>re_start = 10, re_poll = 10, re_lookback = 20, re_strict = True, re_tickers = [''AAPL''],
     re_weights = VNone, re_id = ''p'', re_fparse = (\<lambda>_. None), re_clock = (\<lambda>t. \<lparr>wall = t, utc_offset = None\<rparr>),
     re_cancel = (\<lambda>_. False), re_pump = (\<lambda>_ _ _. []), re_on_data = demo_on_data\<rparr>"

definition demo_loop_start :: "nat run_state" where
  "demo_loop_start = \<lparr>rs_executor = demo_broker, rs_orders = None, rs_strategy = 0,
     
     rs_indicators = [\<lparr>ind_ticker = ''AAPL'', ind_state = ISma \<lparr>sma_period = 2, sma_window = [], sma_sum = 0, sma_current = None\<rparr>,
       ind_price_col = None, ind_close_col = None, ind_vol_col = None, ind_high_col = None, ind_low_col = None\<rparr>], rs_processed = None, rs_last_poll = None, rs_records = [], rs_final_prices = [],
     rs_pct = -1, rs_progress = []\<rparr>"

lemma demo_timestamps: "loop_timestamps demo_loop demo_bars = [10, 20, 25]"
  by (simp add: loop_timestamps_def first_occurrences_def demo_bars_def demo_loop_def demo_bar_def)

lemmas demo_defs = demo_loop_def demo_bars_def demo_bar_def demo_loop_start_def demo_broker_def

lemmas demo_loop_defs = fresh_def bar_step_work bar_work_def report_pct_def Let_def apply_prices_def price_updates_def
    close_of_def dict_or_def update_price_def pump_orders_def poll_due_def strategy_step_def history_slice_def upt_rec
    get_data_feeds_def get_port_notional_def held_value_def price_of_def fsum_def generate_signals_and_trade_def
    demo_on_data_def poll_context_def ctx_sell_def position_of_def record_performance_def usable_prices_def

lemma demo_loop_run:
  "\<exists>fin. run_event_loop demo_loop demo_bars demo_loop_start = Inr fin \<and> map pr_time (rs_records fin) = [10, 20, 25]"
  unfolding run_event_loop_def Let_def demo_timestamps
  by (simp add: demo_defs demo_loop_defs zero_Fin close_curve_def)


lemma demo_bars_ordered [simp]: "sorted (map bar_time demo_bars)" "0 \<le> re_lookback demo_loop"
    "rs_records demo_loop_start = []" "rs_progress demo_loop_start = []" "rs_processed demo_loop_start = None"
  by (simp_all add: demo_defs)

section \<open>No look-ahead\<close>

text \<open>The run as it stands after its last bar at or before an instant.\<close>

definition run_until :: "'u run_env \<Rightarrow> bar list \<Rightarrow> int \<Rightarrow> 'u run_state \<Rightarrow> loop_exn + 'u run_state" where
  "run_until env rows t st =
     (let tss = loop_timestamps env rows in
      trading_result (bar_loop env rows (length tss) 1 (filter (\<lambda>ts. ts \<le> t) tss) (fresh st)))"

lemma run_until_upto:
  assumes "sorted (map bar_time rows)" "sorted (map bar_time rows')" "0 \<le> re_lookback env"
    "bars_upto t rows = bars_upto t rows'"
  shows "run_until env rows t st = run_until env rows' t st"
proof -
  have e: "filter (\<lambda>ts. ts \<le> t) (loop_timestamps env rows) = filter (\<lambda>ts. ts \<le> t) (loop_timestamps env rows')"
    unfolding loop_timestamps_upto assms(4) ..
  show ?thesis unfolding run_until_def Let_def e
    by (rule bar_loop_cong [OF assms]) (auto simp: e [symmetric] list_all_iff dest: loop_timestamps_set)
qed

lemma sorted_split:
  assumes "sorted_wrt (<) (xs :: int list)"
  shows "filter (\<lambda>x. x \<le> t) xs @ filter (\<lambda>x. t < x) xs = xs"
  using assms
proof (induction xs)
  case (Cons a xs)
  have "filter (\<lambda>x. x \<le> t) xs = []" "filter (\<lambda>x. t < x) xs = xs" if "t < a"
    using Cons.prems that by (force simp: filter_empty_conv filter_id_conv)+
  with Cons show ?case by (cases "a \<le> t") auto
qed simp

lemma run_passes_through:
  assumes "sorted (map bar_time rows)" "run_event_loop env rows st = Inr fin"
  shows "\<exists>s. run_until env rows t st = Inr (trading s) \<and> (rows \<noteq> [] \<longrightarrow> grows s fin) \<and>
    (rows = [] \<longrightarrow> s = fresh st \<and> fin = st)"
proof (cases "rows = []")
  case True
  with assms(2) show ?thesis
    by (auto simp: run_event_loop_def run_until_def loop_timestamps_def first_occurrences_def)
next
  case False
  let ?tss = "loop_timestamps env rows"
  show ?thesis
  proof (cases "?tss = []")
    case True
    with False assms(2) show ?thesis
      by (auto simp: run_event_loop_def run_until_def fresh_def)
  next
    case tss: False
    from False tss assms(2) obtain st1 where st1:
      "bar_loop env rows (length ?tss) 1 ?tss (fresh st) = Inr st1" "close_curve env (last ?tss) st1 = Inr fin"
      by (auto simp: run_event_loop_def Let_def ebind_Inr_iff fresh_def)
    have split: "?tss = filter (\<lambda>x. x \<le> t) ?tss @ filter (\<lambda>x. t < x) ?tss"
      by (rule sorted_split [OF sorted_loop_timestamps [OF assms(1)], symmetric])
    from st1(1) obtain s k where s: "bar_loop env rows (length ?tss) 1 (filter (\<lambda>x. x \<le> t) ?tss) (fresh st) = Inr s"
      "bar_loop env rows (length ?tss) k (filter (\<lambda>x. t < x) ?tss) s = Inr st1"
      by (subst (asm) (2) split) (auto simp: bar_loop_append ebind_Inr_iff)
    from bar_loop_grows [OF s(2)] close_curve_grows [OF st1(2)] have "grows s fin" by (rule grows_trans)
    with s(1) False show ?thesis by (auto simp: run_until_def Let_def)
  qed
qed

text \<open>C1: nothing after an instant can influence what happens up to it: two histories with the same bars up to
  \<open>t\<close>, whatever follows, take the run through the same state at \<open>t\<close> (executor, fills, strategy, indicators,
  samples), and each finished run only adds samples and fills to that state; neither rewrites any.\<close>

theorem run_no_lookahead:
  assumes "sorted (map bar_time rows)" "sorted (map bar_time rows')" "0 \<le> re_lookback env"
    and "bars_upto t rows = bars_upto t rows'"
    and "run_event_loop env rows st = Inr fin" "run_event_loop env rows' st = Inr fin'"
    and "rs_records st = []"
  shows "\<exists>s. run_until env rows t st = Inr s \<and> run_until env rows' t st = Inr s \<and> grows s fin \<and> grows s fin'"
proof -
  have g: "grows (trading s) f"
    if "(r \<noteq> [] \<longrightarrow> grows s f) \<and> (r = [] \<longrightarrow> s = fresh st \<and> f = st)" for s f and r :: "bar list"
    using that assms(7) by (cases "r = []") (auto simp: grows_def fresh_def)
  obtain s where s: "run_until env rows t st = Inr (trading s)" "grows (trading s) fin"
    using run_passes_through [OF assms(1,5), of t] g by blast
  obtain s' where s': "run_until env rows' t st = Inr (trading s')" "grows (trading s') fin'"
    using run_passes_through [OF assms(2,6), of t] g by blast
  from run_until_upto [OF assms(1-4), of st] s(1) s'(1) have "trading s = trading s'" by simp
  with s s' show ?thesis by auto
qed

text \<open>The same run on a history that ends ten microseconds earlier.\<close>

definition demo_bars_short :: "bar list" where
  "demo_bars_short = [demo_bar 0 100, demo_bar 10 110, demo_bar 21 7]"

lemma demo_short_run: "\<exists>fin. run_event_loop demo_loop demo_bars_short demo_loop_start = Inr fin"
proof -
  have "loop_timestamps demo_loop demo_bars_short = [10, 21]"
    by (simp add: loop_timestamps_def first_occurrences_def demo_bars_short_def demo_loop_def demo_bar_def)
  then show ?thesis
    unfolding run_event_loop_def Let_def
    by (simp add: demo_bars_short_def demo_defs demo_loop_defs zero_Fin close_curve_def)
qed

theorem run_no_lookahead_witness:
  "\<exists>fin fin' s. run_event_loop demo_loop demo_bars demo_loop_start = Inr fin \<and>
    run_event_loop demo_loop demo_bars_short demo_loop_start = Inr fin' \<and>
    run_until demo_loop demo_bars 10 demo_loop_start = Inr s \<and>
    run_until demo_loop demo_bars_short 10 demo_loop_start = Inr s \<and> grows s fin \<and> grows s fin'"
proof -
  obtain fin fin' where r: "run_event_loop demo_loop demo_bars demo_loop_start = Inr fin"
    "run_event_loop demo_loop demo_bars_short demo_loop_start = Inr fin'"
    using demo_loop_run demo_short_run by blast
  have "sorted (map bar_time demo_bars_short)" "bars_upto 10 demo_bars = bars_upto 10 demo_bars_short"
    by (simp_all add: demo_bars_short_def demo_bars_def demo_bar_def bars_upto_def)
  then show ?thesis using run_no_lookahead [OF demo_bars_ordered(1) _ demo_bars_ordered(2) _ r demo_bars_ordered(3), of 10] r
    by blast
qed

section \<open>Following the loop bar by bar\<close>

text \<open>An assertion about the state after a bar, carried along the loop; \<open>k\<close> is the next step.\<close>

lemma bar_loop_rule:
  assumes "bar_loop env rows n k tss st = Inr fin" "sorted_wrt (<) (t0 # tss)" "J k t0 st"
    and "\<And>k t t' st st'. J k t st \<Longrightarrow> t < t' \<Longrightarrow> t' \<in> set tss \<Longrightarrow> bar_step env rows n k t' st = Inr st' \<Longrightarrow> J (k + 1) t' st'"
  shows "J (k + length tss) (last (t0 # tss)) fin"
  using assms
proof (induction tss arbitrary: k st t0)
  case (Cons ts tss)
  from Cons.prems(1) obtain st1 where st1: "bar_step env rows n k ts st = Inr st1" "bar_loop env rows n (k + 1) tss st1 = Inr fin"
    by (auto simp: ebind_Inr_iff)
  have "J (k + 1) ts st1" using Cons.prems(2) by (intro Cons.prems(4) [OF Cons.prems(3) _ _ st1(1)]) auto
  with Cons.IH [OF st1(2), of ts] Cons.prems(2,4) show ?case by simp
qed simp

lemma run_event_loopE:
  assumes "run_event_loop env rows st = Inr fin" "loop_timestamps env rows = t0 # tss"
  obtains st1 st2 where "bar_step env rows (Suc (length tss)) 1 t0 (fresh st) = Inr st1"
    "bar_loop env rows (Suc (length tss)) 2 tss st1 = Inr st2" "close_curve env (last (t0 # tss)) st2 = Inr fin"
proof -
  have "rows \<noteq> []" using assms(2) by (auto simp: loop_timestamps_def first_occurrences_def)
  with assms obtain st1 st2 where "bar_step env rows (Suc (length tss)) 1 t0 (fresh st) = Inr st1"
    "bar_loop env rows (Suc (length tss)) 2 tss st1 = Inr st2" "close_curve env (last (t0 # tss)) st2 = Inr fin"
    by (auto simp: run_event_loop_def Let_def ebind_Inr_iff fresh_def numeral_2_eq_2)
  then show thesis by (rule that)
qed

lemma strategy_step_frame:
  assumes "strategy_step env bars ts st = Inr st'"
  shows "rs_records st' = rs_records st" "rs_last_poll st' = rs_last_poll st"
    "rs_pct st' = rs_pct st" "rs_progress st' = rs_progress st"
proof -
  have "st' = st \<or> (\<exists>feeds r. generate_signals_and_trade env bars ts feeds st = (st', r))"
    using assms by (auto simp: strategy_step_def split: if_splits sum.splits prod.splits)
  then show "rs_records st' = rs_records st" "rs_last_poll st' = rs_last_poll st"
    "rs_pct st' = rs_pct st" "rs_progress st' = rs_progress st"
    by (auto dest: generate_frame)
qed

section \<open>The curve\<close>

definition sample_of :: "'u run_env \<Rightarrow> 'u run_state \<Rightarrow> perf_record \<Rightarrow> bool" where
  "sample_of env st r \<longleftrightarrow>
     get_port_notional (rs_executor st) = Inr (pr_value r) \<and>
     pr_tickers r = map (\<lambda>t. (t, get_position_value (rs_executor st) t)) (re_tickers env) \<and>
     rs_final_prices st = usable_prices (latest_prices (rs_executor st))"

definition curve_after :: "'u run_env \<Rightarrow> int \<Rightarrow> 'u run_state \<Rightarrow> bool" where
  "curve_after env t st \<longleftrightarrow>
     rs_records st \<noteq> [] \<and> sorted_wrt (<) (map pr_time (rs_records st)) \<and>
     pr_time (last (rs_records st)) \<le> t \<and>
     rs_last_poll st = Some (pr_time (last (rs_records st))) \<and>
     (pr_time (last (rs_records st)) = t \<longrightarrow> sample_of env st (last (rs_records st)))"

lemma sorted_le_last: "sorted xs \<Longrightarrow> x \<in> set xs \<Longrightarrow> x \<le> (last xs :: int)"
  by (induction xs) auto

lemma sorted_snoc_less:
  assumes "sorted_wrt (<) (map f xs)" "xs \<noteq> []" "f (last xs) < (f x :: int)"
  shows "sorted_wrt (<) (map f (xs @ [x]))"
proof -
  have "f y \<le> f (last xs)" if "y \<in> set xs" for y
    using sorted_le_last [of "map f xs" "f y"] assms(1,2) that by (simp add: strict_sorted_iff last_map)
  with assms show ?thesis by (fastforce simp: sorted_wrt_append)
qed

lemma recorded_sample:
  assumes "record_performance env ts st = Inr st'"
  shows "\<exists>r. rs_records st' = rs_records st @ [r] \<and> pr_time r = ts \<and> sample_of env st' r"
  using record_performance_frame [OF assms] by (auto simp: sample_of_def)

lemma curve_step:
  assumes "bar_step env rows n k ts st = Inr st'"
    and "(rs_records st = [] \<and> rs_last_poll st = None) \<or> (\<exists>t<ts. curve_after env t st)"
  shows "curve_after env ts st'"
proof -
  let ?st = "report_pct n k st"
  from assms(1) have w: "bar_work env rows ts ?st = Inr st'" by (simp add: bar_step_work split: if_splits)
  from w show ?thesis
  proof (cases rule: bar_work_cases)
    case (wait e)
    then have "rs_last_poll st \<noteq> None" by (cases "rs_last_poll st") (simp_all add: poll_due_def)
    with assms(2) wait(1) show ?thesis by (auto simp: curve_after_def sample_of_def)
  next
    case (poll e st1)
    from strategy_step_frame [OF poll(2)] have st1: "rs_records st1 = rs_records st" "rs_last_poll st1 = Some ts"
      by simp_all
    from recorded_sample [OF poll(3)] obtain r where r: "rs_records st' = rs_records st1 @ [r]" "pr_time r = ts"
      "sample_of env st' r" by blast
    have "rs_last_poll st' = Some ts" using record_performance_frame(4) [OF poll(3)] st1 by simp
    moreover have "sorted_wrt (<) (map pr_time (rs_records st @ [r]))"
      using assms(2)
    proof (elim disjE exE conjE)
      fix t assume "t < ts" "curve_after env t st"
      then show ?thesis using r(2) by (intro sorted_snoc_less) (auto simp: curve_after_def)
    qed simp
    ultimately show ?thesis using r st1 by (simp add: curve_after_def)
  qed
qed

definition progress_after :: "nat \<Rightarrow> nat \<Rightarrow> 'u run_state \<Rightarrow> bool" where
  "progress_after n k st \<longleftrightarrow>
     rs_pct st = int (k - 1) * 100 div int n \<and> rs_progress st \<noteq> [] \<and>
     sorted_wrt (<) (rs_progress st) \<and> last (rs_progress st) = rs_pct st"

lemma bar_work_progress:
  assumes "bar_work env rows ts st = Inr st'"
  shows "rs_pct st' = rs_pct st" "rs_progress st' = rs_progress st"
  using assms
  by (cases rule: bar_work_cases; simp add: strategy_step_frame record_performance_frame)+

lemma progress_step:
  assumes "bar_step env rows n k ts st = Inr st'" "0 < n" "0 < k"
    and "(rs_progress st = [] \<and> rs_pct st = -1) \<or> progress_after n k st"
  shows "progress_after n (k + 1) st'"
proof -
  let ?p = "int k * 100 div int n"
  from assms(1) have "bar_work env rows ts (report_pct n k st) = Inr st'" by (simp add: bar_step_work split: if_splits)
  from bar_work_progress [OF this] have st': "rs_pct st' = rs_pct (report_pct n k st)"
    "rs_progress st' = rs_progress (report_pct n k st)" .
  have "0 \<le> ?p" using assms(2) by (simp add: pos_imp_zdiv_nonneg_iff)
  have "rs_pct st \<le> ?p \<and> (rs_progress st = [] \<longrightarrow> rs_pct st < ?p)"
    using assms(4)
  proof
    assume "progress_after n k st"
    moreover have "int (k - 1) * 100 div int n \<le> ?p" by (rule zdiv_mono1) (use assms in auto)
    ultimately show ?thesis by (simp add: progress_after_def)
  qed (use \<open>0 \<le> ?p\<close> in auto)
  moreover have "sorted_wrt (<) (rs_progress st @ [?p])" if "rs_pct st < ?p"
    using assms(4) that sorted_snoc_less [of id "rs_progress st" ?p] by (auto simp: progress_after_def)
  ultimately show ?thesis
    using assms(4) by (auto simp: progress_after_def st' report_pct_def Let_def)
qed

text \<open>What a loop that ends well has reported is what it kept in its state.\<close>

lemma loop_progress_kept:
  "bar_loop env rows n k tss st = Inr st' \<Longrightarrow> rs_progress st' = rs_progress st @ loop_progress env rows n k tss st"
proof (induction env rows n k tss st rule: bar_loop.induct)
  case (2 env rows n k ts tss st)
  then obtain st1 where st1: "bar_step env rows n k ts st = Inr st1" "bar_loop env rows n (k + 1) tss st1 = Inr st'"
    by (auto simp: ebind_Inr_iff)
  have work: "\<not> re_cancel env k" "bar_work env rows ts (report_pct n k st) = Inr st1"
    using st1(1) by (auto simp: bar_step_work split: if_splits)
  have "rs_progress st1 = rs_progress st @ (let pct = int k * 100 div int n in if pct \<noteq> rs_pct st then [pct] else [])"
    using bar_work_progress(2) [OF work(2)] by (simp add: report_pct_def Let_def)
  then show ?case using 2(1) [OF st1] work(1) st1(1) by simp
qed simp

text \<open>A loop that fails has reported rising percentages from the current one up to at most 100 as well.\<close>

lemma loop_progress_rises:
  assumes "0 < n" "k + length tss \<le> n + 1" "rs_pct st \<le> int k * 100 div int n"
  shows "sorted_wrt (<) (loop_progress env rows n k tss st)
    \<and> (\<forall>p\<in>set (loop_progress env rows n k tss st). rs_pct st < p \<and> int k * 100 div int n \<le> p \<and> p \<le> 100)"
  using assms(2,3)
proof (induction tss arbitrary: k st)
  case (Cons ts tss)
  let ?p = "int k * 100 div int n"
  have "int k * 100 \<le> 100 * int n" using Cons.prems(1) by simp
  then have "?p \<le> 100 * int n div int n" using assms(1) by (intro zdiv_mono1) simp_all
  then have top: "?p \<le> 100" using assms(1) by simp
  have mono: "?p \<le> int (k + 1) * 100 div int n" using assms(1) by (intro zdiv_mono1) simp_all
  show ?case
  proof (cases "re_cancel env k")
    case False
    show ?thesis
    proof (cases "bar_step env rows n k ts st")
      case (Inl x)
      then show ?thesis using False top Cons.prems(2) by (auto simp: Let_def)
    next
      case (Inr st1)
      then have "bar_work env rows ts (report_pct n k st) = Inr st1" by (simp add: bar_step_work split: if_splits)
      then have pct: "rs_pct st1 = ?p" using bar_work_progress(1) by (fastforce simp: report_pct_def Let_def)
      have "sorted_wrt (<) (loop_progress env rows n (k + 1) tss st1)
          \<and> (\<forall>p\<in>set (loop_progress env rows n (k + 1) tss st1). rs_pct st1 < p \<and> int (k + 1) * 100 div int n \<le> p \<and> p \<le> 100)"
        by (rule Cons.IH) (use Cons.prems(1) pct mono in simp_all)
      then show ?thesis using False Inr top Cons.prems(2) pct by (fastforce simp: Let_def)
    qed
  qed simp
qed simp

lemma loop_timestamps_last:
  assumes "sorted (map bar_time rows)" "loop_timestamps env rows \<noteq> []"
  shows "last (loop_timestamps env rows) = bar_time (last rows)"
proof -
  let ?tss = "loop_timestamps env rows"
  have ne: "rows \<noteq> []" using assms(2) by (auto simp: loop_timestamps_def first_occurrences_def)
  have le: "bar_time b \<le> bar_time (last rows)" if "b \<in> set rows" for b
    using sorted_le_last [OF assms(1), of "bar_time b"] that ne by (simp add: last_map)
  have "last ?tss \<in> set ?tss" using assms(2) by simp
  then have 1: "last ?tss \<in> bar_time ` set rows" "re_start env \<le> last ?tss" by (auto simp: loop_timestamps_def)
  with le have "last ?tss \<le> bar_time (last rows)" by auto
  moreover have "bar_time (last rows) \<le> last ?tss"
  proof -
    have "bar_time (last rows) \<in> set ?tss" using 1 le ne by (force simp: loop_timestamps_def)
    moreover have "sorted ?tss" using sorted_loop_timestamps [OF assms(1), of env] by (simp add: strict_sorted_iff)
    ultimately show ?thesis by (metis sorted_le_last)
  qed
  ultimately show ?thesis by simp
qed

text \<open>C12: the equity curve is closed: a finished run over bars in time order that had any bar to trade has samples,
  in strictly increasing time, the last one on the last bar of the data; that sample's portfolio value and per-ticker
  values are the final executor's, and the final prices are its usable marks. The progress percentages reported rise
  strictly and end at 100.\<close>

theorem curve_closed:
  assumes "sorted (map bar_time rows)" "run_event_loop env rows st = Inr fin"
    and "loop_timestamps env rows \<noteq> []" "rs_progress st = []"
  shows "rs_records fin \<noteq> [] \<and> sorted_wrt (<) (map pr_time (rs_records fin)) \<and>
    pr_time (last (rs_records fin)) = bar_time (last rows) \<and> sample_of env fin (last (rs_records fin)) \<and>
    sorted_wrt (<) (rs_progress fin) \<and> rs_progress fin \<noteq> [] \<and> last (rs_progress fin) = 100"
proof -
  let ?tss = "loop_timestamps env rows"
  obtain t0 tss where tss: "?tss = t0 # tss" using assms(3) by (cases ?tss) auto
  let ?n = "Suc (length tss)" and ?final = "last (t0 # tss)"
  from run_event_loopE [OF assms(2) tss] obtain st1 st2 where
    s: "bar_step env rows ?n 1 t0 (fresh st) = Inr st1" "bar_loop env rows ?n 2 tss st1 = Inr st2"
    "close_curve env ?final st2 = Inr fin" .
  have srt: "sorted_wrt (<) (t0 # tss)" using sorted_loop_timestamps [OF assms(1), of env] tss by simp
  have "curve_after env t0 st1" by (rule curve_step [OF s(1)]) (simp add: fresh_def)
  then have c: "curve_after env ?final st2"
    by (rule bar_loop_rule [where J = "\<lambda>k. curve_after env", OF s(2) srt]) (blast intro: curve_step)
  have "progress_after ?n (1 + 1) st1" by (rule progress_step [OF s(1)]) (simp_all add: fresh_def assms(4))
  then have "0 < (2 :: nat) \<and> progress_after ?n 2 st1" by (simp add: numeral_2_eq_2)
  then have "0 < 2 + length tss \<and> progress_after ?n (2 + length tss) st2"
    by (rule bar_loop_rule [where J = "\<lambda>k _ st. 0 < k \<and> progress_after ?n k st", OF s(2) srt]) (auto intro: progress_step [simplified])
  then have p: "sorted_wrt (<) (rs_progress st2)" "rs_progress st2 \<noteq> []" "last (rs_progress st2) = 100"
    using nonzero_mult_div_cancel_right [of "1 + int (length tss)" 100]
    by (auto simp: progress_after_def algebra_simps)
  have final: "?final = bar_time (last rows)" using loop_timestamps_last [OF assms(1,3)] tss by simp
  show ?thesis
  proof (cases "pr_time (last (rs_records st2)) = ?final")
    case True
    with s(3) have "fin = st2" by (simp add: close_curve_def)
    with c p True final show ?thesis by (simp add: curve_after_def)
  next
    case False
    with s(3) c have r: "record_performance env ?final st2 = Inr fin" by (simp add: close_curve_def curve_after_def)
    from recorded_sample [OF r] obtain x where x: "rs_records fin = rs_records st2 @ [x]" "pr_time x = ?final"
      "sample_of env fin x" by blast
    have "sorted_wrt (<) (map pr_time (rs_records st2 @ [x]))"
      using c False x(2) by (intro sorted_snoc_less) (auto simp: curve_after_def)
    with x p final record_performance_frame(8) [OF r] show ?thesis by simp
  qed
qed

theorem curve_closed_witness:
  "\<exists>fin. run_event_loop demo_loop demo_bars demo_loop_start = Inr fin \<and>
    pr_time (last (rs_records fin)) = 25 \<and> sample_of demo_loop fin (last (rs_records fin)) \<and> last (rs_progress fin) = 100"
proof -
  obtain fin where r: "run_event_loop demo_loop demo_bars demo_loop_start = Inr fin"
    using demo_loop_run by blast
  have "bar_time (last demo_bars) = 25" by (simp add: demo_bars_def demo_bar_def)
  then show ?thesis using curve_closed [OF demo_bars_ordered(1) r _ demo_bars_ordered(4)] r demo_timestamps by auto
qed

section \<open>Every bar reaches every indicator once\<close>

lemma ind_ticker_update [simp]: "ind_ticker (update_from_row i row) = ind_ticker i"
  by (simp add: update_from_row_def split: option.split)

definition ticker_rows :: "string \<Rightarrow> bar list \<Rightarrow> (string, pyfloat) dict list" where
  "ticker_rows t bars = map bar_values (filter (\<lambda>b. bar_ticker b = t) bars)"

definition fed :: "indicator_slot list \<Rightarrow> bar list \<Rightarrow> indicator_slot list" where
  "fed inds bars = map (\<lambda>i. foldl update_from_row i (ticker_rows (ind_ticker i) bars)) inds"

lemma ind_ticker_fold [simp]: "ind_ticker (foldl update_from_row i rows) = ind_ticker i"
  by (induction rows arbitrary: i) simp_all

lemma fed_append: "fed (fed inds xs) ys = fed inds (xs @ ys)"
  by (simp add: fed_def ticker_rows_def)

lemma fed_Cons: "fed (feed_bar inds b) bars = fed inds (b # bars)"
  by (simp add: fed_def feed_bar_def ticker_rows_def)

lemma feed_bars: "foldl feed_bar inds bars = fed inds bars"
  by (induction bars arbitrary: inds) (simp_all add: fed_Cons, simp add: fed_def ticker_rows_def)

lemma feed_indicators_fed: "feed_indicators inds bars = fed inds (sort_key bar_time bars)"
  by (simp add: feed_indicators_def feed_bars)

definition fed_after :: "'u run_env \<Rightarrow> bar list \<Rightarrow> indicator_slot list \<Rightarrow> int \<Rightarrow> int \<Rightarrow> 'u run_state \<Rightarrow> bool" where
  "fed_after env rows inds p0 t st \<longleftrightarrow>
     (\<exists>p. rs_last_poll st = Some p \<and> rs_processed st = Some p \<and> p0 \<le> p \<and> p \<le> t \<and>
        rs_records st \<noteq> [] \<and> pr_time (last (rs_records st)) = p \<and>
        (successively (\<lambda>r r'. pr_time r' - pr_time r \<le> re_lookback env) (rs_records st) \<longrightarrow>
         rs_indicators st = fed inds (sort_key bar_time (latest_rows (history_slice env rows p0)) @
           filter (\<lambda>b. p0 < bar_time b \<and> bar_time b \<le> p) rows)))"

lemma sorted_filter_append:
  assumes "sorted (map f rows)" "p \<le> (q :: int)"
  shows "filter (\<lambda>b. p0 < f b \<and> f b \<le> p) rows @ filter (\<lambda>b. p0 < f b \<and> p < f b \<and> f b \<le> q) rows =
    filter (\<lambda>b. p0 < f b \<and> f b \<le> q) rows"
  using assms(1)
proof (induction rows)
  case (Cons b rows)
  have "filter (\<lambda>b. p0 < f b \<and> f b \<le> p) rows = []" if "p < f b"
    using Cons.prems that by (force simp: filter_empty_conv)
  with Cons assms(2) show ?case by auto
qed simp

text \<open>A poll that goes through updates the indicators: an executor whose valuation fails
  could not be recorded afterwards.\<close>

lemma poll_feeds:
  assumes "strategy_step env bars ts st = Inr st1" "record_performance env ts st1 = Inr st'" "bars \<noteq> []"
  shows "rs_processed st' = Some ts" "rs_last_poll st' = rs_last_poll st"
    "rs_indicators st' = feed_indicators (rs_indicators st) (new_bars (rs_processed st) bars)"
    "\<exists>r. rs_records st' = rs_records st @ [r] \<and> pr_time r = ts"
proof -
  have ok: "get_data_feeds (rs_executor st) \<noteq> Inl x" for x
  proof
    assume f: "get_data_feeds (rs_executor st) = Inl x"
    with assms(1,3) have "st1 = st" by (simp add: strategy_step_def split: if_splits)
    with record_performance_frame(2) [OF assms(2)] f show False by (auto simp: get_data_feeds_def)
  qed
  then obtain feeds where "get_data_feeds (rs_executor st) = Inr feeds"
    by (cases "get_data_feeds (rs_executor st)") auto
  with assms(1,3) obtain r where g: "generate_signals_and_trade env bars ts feeds st = (st1, r)"
    by (auto simp: strategy_step_def split: if_splits sum.splits prod.splits)
  from generate_frame [OF g] record_performance_frame [OF assms(2)] recorded_sample [OF assms(2)]
  show "rs_processed st' = Some ts" "rs_last_poll st' = rs_last_poll st"
    "rs_indicators st' = feed_indicators (rs_indicators st) (new_bars (rs_processed st) bars)"
    "\<exists>r. rs_records st' = rs_records st @ [r] \<and> pr_time r = ts" by auto
qed

lemma slice_nonempty:
  assumes "sorted (map bar_time rows)" "ts \<in> bar_time ` set rows" "0 \<le> re_lookback env"
  shows "history_slice env rows ts \<noteq> []"
  using assms by (force simp: history_slice_window filter_empty_conv)

lemma fed_step:
  assumes "sorted (map bar_time rows)" "0 \<le> re_lookback env" "ts \<in> bar_time ` set rows" "t < ts"
    and J: "fed_after env rows inds p0 t st" and step: "bar_step env rows n k ts st = Inr st'"
  shows "fed_after env rows inds p0 ts st'"
proof -
  obtain p where p: "rs_last_poll st = Some p" "rs_processed st = Some p" "p0 \<le> p" "p \<le> t"
    "rs_records st \<noteq> []" "pr_time (last (rs_records st)) = p"
    and fd: "successively (\<lambda>r r'. pr_time r' - pr_time r \<le> re_lookback env) (rs_records st) \<Longrightarrow>
      rs_indicators st = fed inds (sort_key bar_time (latest_rows (history_slice env rows p0)) @
           filter (\<lambda>b. p0 < bar_time b \<and> bar_time b \<le> p) rows)"
    using J unfolding fed_after_def by blast
  from step have w: "bar_work env rows ts (report_pct n k st) = Inr st'" by (simp add: bar_step_work split: if_splits)
  from w show ?thesis
  proof (cases rule: bar_work_cases)
    case (wait e)
    with p fd assms(4) show ?thesis by (auto simp: fed_after_def)
  next
    case (poll e st1)
    let ?slice = "history_slice env rows ts"
    from poll_feeds [OF poll(2,3) slice_nonempty [OF assms(1,3,2)]] obtain r where
      f: "rs_processed st' = Some ts" "rs_last_poll st' = Some ts"
      "rs_indicators st' = feed_indicators (rs_indicators st) (new_bars (Some p) ?slice)"
      "rs_records st' = rs_records st @ [r]" "pr_time r = ts" using p(2) by auto
    have "rs_indicators st' = fed inds (sort_key bar_time (latest_rows (history_slice env rows p0)) @
           filter (\<lambda>b. p0 < bar_time b \<and> bar_time b \<le> ts) rows)"
      if g: "successively (\<lambda>r r'. pr_time r' - pr_time r \<le> re_lookback env) (rs_records st @ [r])"
    proof -
      have gap: "ts - p \<le> re_lookback env"
        and old: "successively (\<lambda>r r'. pr_time r' - pr_time r \<le> re_lookback env) (rs_records st)"
        using g p(5,6) f(5) by (auto simp: successively_append_iff)
      have new: "new_bars (Some p) ?slice = filter (\<lambda>b. p0 < bar_time b \<and> p < bar_time b \<and> bar_time b \<le> ts) rows"
        using gap p(3) by (auto simp: new_bars_def history_slice_window [OF assms(1,3,2)] intro!: filter_cong)
      have "sort_key bar_time (filter (\<lambda>b. p0 < bar_time b \<and> p < bar_time b \<and> bar_time b \<le> ts) rows) =
          filter (\<lambda>b. p0 < bar_time b \<and> p < bar_time b \<and> bar_time b \<le> ts) rows"
        by (rule sort_key_id_if_sorted) (rule sorted_filter_map [OF assms(1)])
      then show ?thesis
        using f(3) fd [OF old] new sorted_filter_append [OF assms(1), of p ts p0] p(4) assms(4)
        by (simp add: feed_indicators_fed fed_append)
    qed
    with f p assms(4) show ?thesis by (simp add: fed_after_def)
  qed
qed

text \<open>C13: every bar reaches every indicator of its ticker exactly once: when consecutive samples are never farther
  apart than the lookback, a finished run leaves each indicator as if it had been updated with its ticker's latest
  row at the first poll and then with its ticker's bars after the first poll up to the last one, in time order, none
  skipped or repeated. The bars between two polls are delivered at the later poll.\<close>

theorem bars_fed_once:
  assumes "sorted (map bar_time rows)" "0 \<le> re_lookback env" "run_event_loop env rows st = Inr fin"
    and "loop_timestamps env rows = t0 # tss" "rs_processed st = None"
    and "successively (\<lambda>r r'. pr_time r' - pr_time r \<le> re_lookback env) (rs_records fin)"
  shows "\<exists>p. rs_last_poll fin = Some p \<and>
    rs_indicators fin = map (\<lambda>i. foldl update_from_row i (ticker_rows (ind_ticker i)
      (sort_key bar_time (latest_rows (history_slice env rows t0)) @
       filter (\<lambda>b. t0 < bar_time b \<and> bar_time b \<le> p) rows))) (rs_indicators st)"
proof -
  let ?n = "Suc (length tss)" and ?final = "last (t0 # tss)" and ?inds = "rs_indicators st"
  from run_event_loopE [OF assms(3,4)] obtain st1 st2 where
    s: "bar_step env rows ?n 1 t0 (fresh st) = Inr st1" "bar_loop env rows ?n 2 tss st1 = Inr st2"
    "close_curve env ?final st2 = Inr fin" .
  have srt: "sorted_wrt (<) (t0 # tss)" using sorted_loop_timestamps [OF assms(1), of env] assms(4) by simp
  have mem: "t \<in> bar_time ` set rows" if "t \<in> set (t0 # tss)" for t
    using loop_timestamps_set [of t env rows] that assms(4) by simp
  from s(1) have w: "bar_work env rows t0 (report_pct ?n 1 (fresh st)) = Inr st1" by (simp add: bar_step_work split: if_splits)
  from w have "fed_after env rows ?inds t0 t0 st1"
  proof (cases rule: bar_work_cases)
    case (wait e)
    then show ?thesis by (simp add: poll_due_def fresh_def)
  next
    case (poll e st')
    from poll_feeds [OF poll(2,3) slice_nonempty [OF assms(1) mem assms(2)]] assms(5)
    show ?thesis by (auto simp: fed_after_def fresh_def new_bars_def feed_indicators_fed)
  qed
  then have f: "fed_after env rows ?inds t0 ?final st2"
    by (rule bar_loop_rule [where J = "\<lambda>k. fed_after env rows ?inds t0", OF s(2) srt])
       (rule fed_step [OF assms(1,2) mem], simp_all)
  then obtain p where p: "rs_last_poll st2 = Some p"
    "successively (\<lambda>r r'. pr_time r' - pr_time r \<le> re_lookback env) (rs_records st2) \<Longrightarrow>
      rs_indicators st2 = fed ?inds (sort_key bar_time (latest_rows (history_slice env rows t0)) @
           filter (\<lambda>b. t0 < bar_time b \<and> bar_time b \<le> p) rows)"
    by (auto simp: fed_after_def)
  have same: "rs_last_poll fin = rs_last_poll st2" "rs_indicators fin = rs_indicators st2"
    using s(3) by (auto simp: close_curve_def record_performance_frame split: if_splits)
  obtain more where "rs_records fin = rs_records st2 @ more"
    using close_curve_grows [OF s(3)] by (auto simp: grows_def prefix_def)
  with assms(6) p same show ?thesis by (auto simp: successively_append_iff fed_def)
qed

theorem bars_fed_once_witness:
  "\<exists>fin p. run_event_loop demo_loop demo_bars demo_loop_start = Inr fin \<and> rs_last_poll fin = Some p \<and>
    rs_indicators fin = map (\<lambda>i. foldl update_from_row i (ticker_rows (ind_ticker i)
      (sort_key bar_time (latest_rows (history_slice demo_loop demo_bars 10)) @
       filter (\<lambda>b. 10 < bar_time b \<and> bar_time b \<le> p) demo_bars))) (rs_indicators demo_loop_start)"
proof -
  obtain fin where r: "run_event_loop demo_loop demo_bars demo_loop_start = Inr fin"
    "map pr_time (rs_records fin) = [10, 20, 25]"
    using demo_loop_run by (elim exE conjE) (rule that)
  have "successively (\<lambda>x y. y - x \<le> re_lookback demo_loop) (map pr_time (rs_records fin))"
    unfolding r(2) by (simp add: demo_loop_def)
  then have "successively (\<lambda>r r'. pr_time r' - pr_time r \<le> re_lookback demo_loop) (rs_records fin)"
    by (simp only: successively_map)
  from bars_fed_once [OF demo_bars_ordered(1,2) r(1) demo_timestamps demo_bars_ordered(5) this] r(1)
  show ?thesis by blast
qed

section \<open>A run finishes\<close>

definition solid :: "executor \<Rightarrow> bool" where
  "solid e \<longleftrightarrow> set (tickers e) \<subseteq> held e"

lemma solid_grows: "solid e \<Longrightarrow> log_grows e e' \<Longrightarrow> solid e'"
  by (auto simp: solid_def log_grows_def)

lemma solid_notional:
  assumes "solid e"
  shows "\<exists>v. get_port_notional e = Inr v"
proof -
  have "\<exists>v. held_value e t = Inr v" if "t \<in> set (tickers e)" for t
  proof -
    have "t \<in> fst ` set (positions e)" using assms that by (auto simp: solid_def held_def)
    then have "dict_get (positions e) t \<noteq> None" by (simp add: map_of_eq_None_iff)
    then show ?thesis by (auto simp: held_value_def)
  qed
  then obtain g where "\<And>t. t \<in> set (tickers e) \<Longrightarrow> held_value e t = Inr (g t)" by metis
  from emap_Inr [of "tickers e" "held_value e" g, OF this] show ?thesis by (simp add: get_port_notional_def)
qed

lemma solid_records: "solid (rs_executor st) \<Longrightarrow> \<exists>st'. record_performance env ts st = Inr st'"
  using solid_notional [of "rs_executor st"] by (auto simp: record_performance_def)

lemma solid_closes: "solid (rs_executor st) \<Longrightarrow> \<exists>st'. close_curve env final st = Inr st'"
  using solid_records [of st env final] by (auto simp: close_curve_def)

definition never_cancels :: "'u run_env \<Rightarrow> bool" where
  "never_cancels env \<longleftrightarrow> (\<forall>k. \<not> re_cancel env k) \<and>
     (\<forall>u inds cx e d. snd (snd (run_script (re_fparse env) cx (re_on_data env u inds cx e) d)) \<noteq> Inl RunCancelled)"

lemma lenient_step:
  assumes "never_cancels env" "\<not> re_strict env"
  shows "\<exists>st'. strategy_step env bars ts st = Inr st'"
proof -
  have "snd (generate_signals_and_trade env bars ts feeds st) \<noteq> Inl RunCancelled" for feeds
    using assms(1)
    by (simp add: generate_signals_and_trade_def Let_def never_cancels_def split: prod.split)
       (metis snd_conv)
  then show ?thesis
    using assms(2) by (auto simp: strategy_step_def split: sum.split prod.split) (metis snd_conv)
qed

lemma lenient_bar:
  assumes "never_cancels env" "\<not> re_strict env" "solid (rs_executor st)"
  shows "\<exists>st'. bar_step env rows n k ts st = Inr st' \<and> solid (rs_executor st')"
proof -
  let ?st = "report_pct n k st"
  have "\<exists>st'. bar_work env rows ts ?st = Inr st'"
  proof (cases "poll_due env ts (rs_last_poll ?st)")
    case True
    let ?e = "pump_orders env ts (rs_orders ?st) (apply_prices ((rs_executor ?st)\<lparr>current_time := Some (re_clock env ts)\<rparr>)
        (filter (\<lambda>b. bar_time b = ts) rows))"
    let ?st2 = "?st\<lparr>rs_executor := ?e, rs_last_poll := Some ts\<rparr>"
    obtain st1 where s: "strategy_step env (history_slice env rows ts) ts ?st2 = Inr st1"
      using lenient_step [OF assms(1,2)] by blast
    have "log_grows (rs_executor st) ((rs_executor st)\<lparr>current_time := Some (re_clock env ts)\<rparr>)"
      by (simp add: log_grows_def held_def)
    then have "log_grows (rs_executor st) (rs_executor ?st2)"
      by (simp, rule log_grows_trans [OF _ log_grows_trans [OF log_grows_apply_prices log_grows_pump]])
    then have "log_grows (rs_executor st) (rs_executor st1)"
      using strategy_step_grows [OF s] by (auto simp: grows_def intro: log_grows_trans)
    with assms(3) obtain st' where "record_performance env ts st1 = Inr st'"
      using solid_records solid_grows by blast
    with s True show ?thesis by (simp add: bar_work_def Let_def)
  qed (simp add: bar_work_def Let_def)
  then obtain st' where "bar_step env rows n k ts st = Inr st'"
    using assms(1) by (auto simp: bar_step_work never_cancels_def)
  with bar_step_grows [OF this] assms(3) show ?thesis by (auto simp: grows_def intro: solid_grows)
qed

lemma lenient_loop:
  assumes "never_cancels env" "\<not> re_strict env"
  shows "solid (rs_executor st) \<Longrightarrow> \<exists>st'. bar_loop env rows n k tss st = Inr st' \<and> solid (rs_executor st')"
proof (induction tss arbitrary: k st)
  case (Cons ts tss)
  obtain st1 where "bar_step env rows n k ts st = Inr st1" "solid (rs_executor st1)"
    using lenient_bar [OF assms Cons.prems] by blast
  with Cons.IH show ?case by simp
qed simp

text \<open>C37: outside strict mode a run that nobody cancels always finishes, with one step per bar timestamp: whatever
  bars it is given, whatever the strategy trades, whatever the strategy or the executor raises at any bar, the loop
  returns a final state, and when there is a bar to trade that state has at least one sample.\<close>

theorem run_always_finishes:
  assumes "never_cancels env" "\<not> re_strict env" "solid (rs_executor st)"
  shows "\<exists>fin. run_event_loop env rows st = Inr fin \<and> solid (rs_executor fin) \<and>
    (loop_timestamps env rows = [] \<or> rs_records fin \<noteq> [])"
proof (cases "loop_timestamps env rows")
  case Nil
  with assms(3) show ?thesis by (simp add: run_event_loop_def)
next
  case (Cons t0 tss)
  let ?n = "Suc (length tss)" and ?final = "last (t0 # tss)"
  have ne: "rows \<noteq> []" using Cons by (auto simp: loop_timestamps_def first_occurrences_def)
  have s: "solid (rs_executor (fresh st))" using assms(3) by (simp add: fresh_def)
  obtain st1 where st1: "bar_step env rows ?n 1 t0 (fresh st) = Inr st1" "solid (rs_executor st1)"
    using lenient_bar [OF assms(1,2) s] by blast
  obtain st2 where st2: "bar_loop env rows ?n 2 tss st1 = Inr st2" "solid (rs_executor st2)"
    using lenient_loop [OF assms(1,2) st1(2)] by blast
  obtain fin where fin: "close_curve env ?final st2 = Inr fin"
    using solid_closes [OF st2(2)] by blast
  have "curve_after env t0 st1" by (rule curve_step [OF st1(1)]) (simp add: fresh_def)
  then have "rs_records st1 \<noteq> []" by (simp add: curve_after_def)
  then have "rs_records fin \<noteq> []"
    using bar_loop_grows [OF st2(1)] close_curve_grows [OF fin] by (auto simp: grows_def)
  moreover have "solid (rs_executor fin)"
    using close_curve_grows [OF fin] st2(2) by (auto simp: grows_def intro: solid_grows)
  moreover have "run_event_loop env rows st = Inr fin"
    using ne Cons st1(1) st2(1) fin by (simp add: run_event_loop_def Let_def fresh_def numeral_2_eq_2)
  ultimately show ?thesis by blast
qed

text \<open>A strategy that fails at every bar.\<close>

definition demo_failing :: "nat run_env" where
  "demo_failing = demo_loop\<lparr>re_strict := False, re_on_data := (\<lambda>u _ _ _. Raise (Raised KeyError) (u + 1))\<rparr>"

theorem run_always_finishes_witness:
  "\<exists>fin. run_event_loop demo_failing demo_bars demo_loop_start = Inr fin \<and> solid (rs_executor fin) \<and>
    (loop_timestamps demo_failing demo_bars = [] \<or> rs_records fin \<noteq> [])"
  by (rule run_always_finishes)
     (simp_all add: never_cancels_def demo_failing_def demo_loop_def demo_loop_start_def demo_broker_def solid_def held_def)

end
