(* ===== verification/Strategy_Store.thy ===== *)
theory Strategy_Store
  imports Prelude "HOL-Library.Sublist"
begin

text \<open>
  The store of uploaded strategies, \<open>src/integrations/strategy_store.py\<close>, and the package
  writer of \<open>src/services/strategy_validation/packaging.py\<close>. The disk backend works on a tree of
  absolute paths; \<open>rsv\<close> is \<open>Path.resolve\<close>, which leaves a path without links alone. The
  bucket backend works through a client that is not part of the repository: a record of
  its requests, each of which may fail. Text is ASCII, so its UTF-8 form is itself; \<open>Content-Type\<close> and
  the messages of errors are not modelled.
\<close>

datatype store_exn = StoreValueError | StoreKeyError | StoreError | StoreOsError | StoreOther

section \<open>Keys and names\<close>

definition strip_char :: "char \<Rightarrow> string \<Rightarrow> string" where
  "strip_char c s = rev (dropWhile (\<lambda>x. x = c) (rev (dropWhile (\<lambda>x. x = c) s)))"

definition rstrip_char :: "char \<Rightarrow> string \<Rightarrow> string" where
  "rstrip_char c s = rev (dropWhile (\<lambda>x. x = c) (rev s))"

abbreviation sep :: char where "sep \<equiv> CHR ''/''"

text \<open>The superscript digits one, two and three are part of the list of devices.\<close>

definition windows_devices :: "string list" where
  "windows_devices =
     [''CON'', ''PRN'', ''AUX'', ''NUL'', ''CONIN$'', ''CONOUT$''] @
     concat (map (\<lambda>p. map (\<lambda>d. p @ [d]) (''123456789'' @ [CHR 0xB9, CHR 0xB2, CHR 0xB3])) [''COM'', ''LPT''])"

definition forbidden_chars :: string where
  "forbidden_chars = ''/<>:|?*'' @ [CHR 0x5C, CHR 0x22]"

definition object_name :: "string \<Rightarrow> store_exn + string" where
  "object_name name =
     (let device = upper (rstrip_char (CHR '' '') (hd (split_on (CHR ''.'') name))) in
      if name = [] \<or> name \<noteq> strip name \<or> last name = CHR ''.'' \<or>
         list_ex (\<lambda>c. c \<in> set forbidden_chars \<or> (of_char c :: nat) < 32) name \<or>
         device \<in> set windows_devices
      then Inl StoreValueError else Inr name)"

definition key_segments :: "string \<Rightarrow> store_exn + string list" where
  "key_segments key =
     (let parts = filter (\<lambda>p. p \<noteq> []) (split_on sep (strip_char sep key)) in
      if parts = [] then Inl StoreValueError else emap object_name parts)"

definition strategy_key :: "string \<Rightarrow> string" where
  "strategy_key i = ''strategies'' @ sep # strip_char sep i @ [sep]"

section \<open>The disk\<close>

text \<open>A path is its components from the root of the file system. A link records whether it leads to
  a regular file.\<close>

type_synonym path = "string list"

datatype node = Dir | File string | Link bool

type_synonym disk = "(path, node) dict"

definition is_file :: "node \<Rightarrow> bool" where
  "is_file n = (case n of File _ \<Rightarrow> True | Link b \<Rightarrow> b | Dir \<Rightarrow> False)"

definition is_link :: "node option \<Rightarrow> bool" where
  "is_link n = (case n of Some (Link _) \<Rightarrow> True | _ \<Rightarrow> False)"

definition is_plain_file :: "node option \<Rightarrow> bool" where
  "is_plain_file n = (case n of Some (File _) \<Rightarrow> True | _ \<Rightarrow> False)"

definition materialize_target ::
  "(disk \<Rightarrow> path \<Rightarrow> path) \<Rightarrow> disk \<Rightarrow> path \<Rightarrow> string \<Rightarrow> store_exn + path" where
  "materialize_target rsv fs destination relative =
     ebind (emap object_name (split_on sep relative)) (\<lambda>segments.
       let target = destination @ segments in
       if \<not> strict_prefix (rsv fs destination) (rsv fs target) then Inl StoreValueError
       else if list_ex (\<lambda>n. is_link (dict_get fs (destination @ take (Suc n) segments))) [0..<length segments]
       then Inl StoreValueError else Inr target)"

text \<open>\<open>mkdir(parents=True, exist_ok=True)\<close>: the prefixes of the path, outermost first.\<close>

fun mkdir_each :: "disk \<Rightarrow> path list \<Rightarrow> disk \<times> (store_exn + unit)" where
  "mkdir_each fs [] = (fs, Inr ())"
| "mkdir_each fs (p # ps) =
     (case dict_get fs p of
        None \<Rightarrow> mkdir_each (dict_set p Dir fs) ps
      | Some (File _) \<Rightarrow> (fs, Inl StoreOsError)
      | Some _ \<Rightarrow> mkdir_each fs ps)"

definition mkdir_parents :: "disk \<Rightarrow> path \<Rightarrow> disk \<times> (store_exn + unit)" where
  "mkdir_parents fs p = mkdir_each fs (map (\<lambda>n. take n p) [0..<Suc (length p)])"

text \<open>Replacing a file's content; a directory in its place is an error.\<close>

definition write_file :: "disk \<Rightarrow> path \<Rightarrow> string \<Rightarrow> disk \<times> (store_exn + unit)" where
  "write_file fs p content =
     (if dict_get fs p = Some Dir then (fs, Inl StoreOsError) else (dict_set p (File content) fs, Inr ()))"

text \<open>The stream goes to a temporary file that replaces the target at the end, so a failure leaves
  nothing; both writers create the parents first.\<close>

definition write_with_parents :: "disk \<Rightarrow> path \<Rightarrow> string \<Rightarrow> disk \<times> (store_exn + unit)" where
  "write_with_parents fs p content =
     (case mkdir_parents fs (butlast p) of
        (fs1, Inl x) \<Rightarrow> (fs1, Inl x)
      | (fs1, Inr _) \<Rightarrow> write_file fs1 p content)"

section \<open>The interface\<close>

record 's store_ops =
  st_put :: "'s \<Rightarrow> string \<Rightarrow> string \<Rightarrow> string \<Rightarrow> 's \<times> (store_exn + unit)"
  st_get :: "'s \<Rightarrow> string \<Rightarrow> string \<Rightarrow> 's \<times> (store_exn + string)"
  st_exists :: "'s \<Rightarrow> string \<Rightarrow> 's \<times> (store_exn + bool)"
  st_delete :: "'s \<Rightarrow> string \<Rightarrow> 's \<times> (store_exn + unit)"

section \<open>The disk backend\<close>

definition key_dir :: "(disk \<Rightarrow> path \<Rightarrow> path) \<Rightarrow> path \<Rightarrow> disk \<Rightarrow> string \<Rightarrow> store_exn + path" where
  "key_dir rsv home fs key =
     ebind (key_segments key) (\<lambda>parts.
       let directory = rsv fs (home @ parts) in
       if directory \<noteq> home \<and> \<not> strict_prefix home directory then Inl StoreValueError else Inr directory)"

definition object_path :: "(disk \<Rightarrow> path \<Rightarrow> path) \<Rightarrow> path \<Rightarrow> disk \<Rightarrow> string \<Rightarrow> string \<Rightarrow> store_exn + path" where
  "object_path rsv home fs key filename =
     ebind (key_dir rsv home fs key) (\<lambda>d.
     ebind (object_name filename) (\<lambda>name. materialize_target rsv fs d name))"

definition local_put ::
  "(disk \<Rightarrow> path \<Rightarrow> path) \<Rightarrow> path \<Rightarrow> disk \<Rightarrow> string \<Rightarrow> string \<Rightarrow> string \<Rightarrow> disk \<times> (store_exn + unit)" where
  "local_put rsv home fs key filename content =
     (case object_path rsv home fs key filename of
        Inl x \<Rightarrow> (fs, Inl x)
      | Inr p \<Rightarrow> write_with_parents fs p content)"

definition local_get ::
  "(disk \<Rightarrow> path \<Rightarrow> path) \<Rightarrow> path \<Rightarrow> disk \<Rightarrow> string \<Rightarrow> string \<Rightarrow> disk \<times> (store_exn + string)" where
  "local_get rsv home fs key filename =
     (fs, ebind (object_path rsv home fs key filename) (\<lambda>p.
        case dict_get fs p of
          Some (File c) \<Rightarrow> Inr c
        | None \<Rightarrow> Inl StoreKeyError
        | Some _ \<Rightarrow> Inl StoreOsError))"

definition children :: "disk \<Rightarrow> path \<Rightarrow> path list" where
  "children fs d = filter (\<lambda>p. p \<noteq> [] \<and> butlast p = d) (map fst fs)"

definition local_exists :: "(disk \<Rightarrow> path \<Rightarrow> path) \<Rightarrow> path \<Rightarrow> disk \<Rightarrow> string \<Rightarrow> disk \<times> (store_exn + bool)" where
  "local_exists rsv home fs key =
     (fs, ebind (key_dir rsv home fs key) (\<lambda>d. Inr (dict_get fs d = Some Dir \<and> children fs d \<noteq> [])))"

text \<open>\<open>rmtree\<close>: an absent directory is a no-op, a path through a file or to something else an error.\<close>

definition local_delete :: "(disk \<Rightarrow> path \<Rightarrow> path) \<Rightarrow> path \<Rightarrow> disk \<Rightarrow> string \<Rightarrow> disk \<times> (store_exn + unit)" where
  "local_delete rsv home fs key =
     (case key_dir rsv home fs key of
        Inl x \<Rightarrow> (fs, Inl x)
      | Inr d \<Rightarrow>
          (case dict_get fs d of
             Some Dir \<Rightarrow> (filter (\<lambda>e. \<not> prefix d (fst e)) fs, Inr ())
           | Some _ \<Rightarrow> (fs, Inl StoreError)
           | None \<Rightarrow> if list_ex (\<lambda>n. is_plain_file (dict_get fs (take n d))) [0..<length d]
                     then (fs, Inl StoreError) else (fs, Inr ())))"

definition local_ops :: "(disk \<Rightarrow> path \<Rightarrow> path) \<Rightarrow> path \<Rightarrow> disk store_ops" where
  "local_ops rsv home =
     \<lparr>st_put = local_put rsv home, st_get = local_get rsv home, st_exists = local_exists rsv home,
      st_delete = local_delete rsv home\<rparr>"

definition as_store_error :: "store_exn \<Rightarrow> store_exn" where
  "as_store_error x = (if x = StoreValueError then StoreError else x)"

fun copy_files ::
  "(disk \<Rightarrow> path \<Rightarrow> path) \<Rightarrow> path \<Rightarrow> path \<Rightarrow> disk \<Rightarrow> (path \<times> node) list \<Rightarrow> disk \<times> (store_exn + unit)" where
  "copy_files rsv source dest fs [] = (fs, Inr ())"
| "copy_files rsv source dest fs ((p, n) # items) =
     (let relative = join_with sep (drop (length source) p) in
      case ebind (materialize_target rsv fs source relative) (\<lambda>_. materialize_target rsv fs dest relative) of
        Inl x \<Rightarrow> (fs, Inl (as_store_error x))
      | Inr target \<Rightarrow>
          (case write_with_parents fs target (case n of File c \<Rightarrow> c | _ \<Rightarrow> []) of
             (fs1, Inl x) \<Rightarrow> (fs1, Inl x)
           | (fs1, Inr _) \<Rightarrow> copy_files rsv source dest fs1 items))"

definition local_materialize ::
  "(disk \<Rightarrow> path \<Rightarrow> path) \<Rightarrow> path \<Rightarrow> disk \<Rightarrow> string \<Rightarrow> path \<Rightarrow> disk \<times> (store_exn + path)" where
  "local_materialize rsv home fs key dest =
     (case key_dir rsv home fs key of
        Inl x \<Rightarrow> (fs, Inl x)
      | Inr source \<Rightarrow>
          if dict_get fs source \<noteq> Some Dir then (fs, Inl StoreKeyError)
          else (case mkdir_parents fs dest of
            (fs1, Inl x) \<Rightarrow> (fs1, Inl x)
          | (fs1, Inr _) \<Rightarrow>
              let found = sort_key fst (filter (\<lambda>e. strict_prefix source (fst e) \<and> is_file (snd e)) fs1) in
              (case copy_files rsv source dest fs1 found of
                 (fs2, Inl x) \<Rightarrow> (fs2, Inl x)
               | (fs2, Inr _) \<Rightarrow> if found = [] then (fs2, Inl StoreKeyError) else (fs2, Inr dest))))"

section \<open>The bucket backend\<close>

datatype s3_exn = ClientError string | BotoCoreError | OsOrUnicodeError | OtherError store_exn

text \<open>A listing arrives page by page; each page may fail. \<open>delete_objects\<close> reports the keys it
  could not delete.\<close>

record 's s3_client =
  s3_put :: "'s \<Rightarrow> string \<Rightarrow> string \<Rightarrow> 's \<times> (s3_exn + unit)"
  s3_get :: "'s \<Rightarrow> string \<Rightarrow> 's \<times> (s3_exn + string)"
  s3_pages :: "'s \<Rightarrow> string \<Rightarrow> 's \<times> (s3_exn + string list) list"
  s3_delete :: "'s \<Rightarrow> string list \<Rightarrow> 's \<times> (s3_exn + string list)"

definition make_prefix :: "string \<Rightarrow> string" where
  "make_prefix p = (let cleaned = strip_char sep (strip p) in if cleaned = [] then [] else cleaned @ [sep])"

definition translate_exn :: "s3_exn \<Rightarrow> bool \<Rightarrow> store_exn" where
  "translate_exn x missing_object =
     (case x of
        ClientError code \<Rightarrow> if missing_object \<and> code = ''NoSuchKey'' then StoreKeyError else StoreError
      | BotoCoreError \<Rightarrow> StoreError
      | OsOrUnicodeError \<Rightarrow> StoreError
      | OtherError e \<Rightarrow> e)"

definition prefix_for :: "string \<Rightarrow> string \<Rightarrow> store_exn + string" where
  "prefix_for base key = ebind (key_segments key) (\<lambda>ps. Inr (base @ join_with sep ps @ [sep]))"

definition object_key :: "string \<Rightarrow> string \<Rightarrow> string \<Rightarrow> store_exn + string" where
  "object_key base key filename =
     ebind (prefix_for base key) (\<lambda>p. ebind (object_name filename) (\<lambda>n. Inr (p @ n)))"

text \<open>The listing is a generator: what it yields before it ends or raises.\<close>

fun yield_page :: "string \<Rightarrow> bool \<Rightarrow> string list \<Rightarrow> string list \<times> store_exn option" where
  "yield_page pre markers [] = ([], None)"
| "yield_page pre markers (k # ks) =
     (if \<not> prefix pre k then ([], Some StoreError)
      else let (ys, x) = yield_page pre markers ks in
           if \<not> markers \<and> k \<noteq> [] \<and> last k = sep then (ys, x) else (k # ys, x))"

fun yield_pages :: "string \<Rightarrow> bool \<Rightarrow> (s3_exn + string list) list \<Rightarrow> string list \<times> store_exn option" where
  "yield_pages pre markers [] = ([], None)"
| "yield_pages pre markers (Inl x # ps) = ([], Some (translate_exn x False))"
| "yield_pages pre markers (Inr ks # ps) =
     (case yield_page pre markers ks of
        (ys, Some x) \<Rightarrow> (ys, Some x)
      | (ys, None) \<Rightarrow> (let (zs, x) = yield_pages pre markers ps in (ys @ zs, x)))"

definition list_keys ::
  "'s s3_client \<Rightarrow> 's \<Rightarrow> string \<Rightarrow> bool \<Rightarrow> 's \<times> (string list \<times> store_exn option)" where
  "list_keys client s pre markers =
     (case s3_pages client s pre of (s1, pages) \<Rightarrow> (s1, yield_pages pre markers pages))"

definition s3_store_put ::
  "'s s3_client \<Rightarrow> string \<Rightarrow> 's \<Rightarrow> string \<Rightarrow> string \<Rightarrow> string \<Rightarrow> 's \<times> (store_exn + unit)" where
  "s3_store_put client base s key filename content =
     (case object_key base key filename of
        Inl x \<Rightarrow> (s, Inl x)
      | Inr k \<Rightarrow> (case s3_put client s k content of
            (s1, Inl x) \<Rightarrow> (s1, Inl (translate_exn x False))
          | (s1, Inr _) \<Rightarrow> (s1, Inr ())))"

definition s3_store_get ::
  "'s s3_client \<Rightarrow> string \<Rightarrow> 's \<Rightarrow> string \<Rightarrow> string \<Rightarrow> 's \<times> (store_exn + string)" where
  "s3_store_get client base s key filename =
     (case object_key base key filename of
        Inl x \<Rightarrow> (s, Inl x)
      | Inr k \<Rightarrow> (case s3_get client s k of
            (s1, Inl x) \<Rightarrow> (s1, Inl (translate_exn x True))
          | (s1, Inr c) \<Rightarrow> (s1, Inr c)))"

definition s3_store_exists :: "'s s3_client \<Rightarrow> string \<Rightarrow> 's \<Rightarrow> string \<Rightarrow> 's \<times> (store_exn + bool)" where
  "s3_store_exists client base s key =
     (case prefix_for base key of
        Inl x \<Rightarrow> (s, Inl x)
      | Inr pre \<Rightarrow> (case list_keys client s pre False of
            (s1, (k # ks, _)) \<Rightarrow> (s1, Inr True)
          | (s1, ([], Some x)) \<Rightarrow> (s1, Inl x)
          | (s1, ([], None)) \<Rightarrow> (s1, Inr False)))"

definition delete_batch :: nat where "delete_batch = 1000"

function delete_chunks :: "'s s3_client \<Rightarrow> nat \<Rightarrow> 's \<Rightarrow> string list \<Rightarrow> string list \<Rightarrow> 's \<times> (store_exn + string list)" where
  "delete_chunks client n s ks failures =
     (if ks = [] \<or> n = 0 then (s, Inr failures)
      else (case s3_delete client s (take n ks) of
              (s1, Inl x) \<Rightarrow> (s1, Inl (translate_exn x False))
            | (s1, Inr errs) \<Rightarrow> delete_chunks client n s1 (drop n ks) (failures @ errs)))"
  by pat_completeness auto

termination
  by (relation "measure (\<lambda>(_, _, _, ks, _). length ks)") (auto simp: neq_Nil_conv)

declare delete_chunks.simps [simp del]

definition s3_store_delete :: "'s s3_client \<Rightarrow> string \<Rightarrow> 's \<Rightarrow> string \<Rightarrow> 's \<times> (store_exn + unit)" where
  "s3_store_delete client base s key =
     (case prefix_for base key of
        Inl x \<Rightarrow> (s, Inl x)
      | Inr pre \<Rightarrow> (case list_keys client s pre True of
            (s1, (_, Some x)) \<Rightarrow> (s1, Inl x)
          | (s1, (ks, None)) \<Rightarrow>
              (case delete_chunks client delete_batch s1 ks [] of
                 (s2, Inl x) \<Rightarrow> (s2, Inl x)
               | (s2, Inr failures) \<Rightarrow> (s2, if failures \<noteq> [] then Inl StoreError else Inr ()))))"

definition parent_paths :: "string \<Rightarrow> string list" where
  "parent_paths relative =
     (let segments = split_on sep relative in map (\<lambda>n. join_with sep (take n segments)) [1..<length segments])"

text \<open>Targets are checked, collisions of case included, before anything is written.\<close>

fun plan_targets ::
  "(disk \<Rightarrow> path \<Rightarrow> path) \<Rightarrow> disk \<Rightarrow> path \<Rightarrow> string \<Rightarrow> string list \<Rightarrow> string list \<Rightarrow> string list
   \<Rightarrow> store_exn + (string \<times> path) list" where
  "plan_targets rsv fs dest pre [] paths directories = Inr []"
| "plan_targets rsv fs dest pre (k # ks) paths directories =
     (let relative = drop (length pre) k in
      case materialize_target rsv fs dest relative of
        Inl x \<Rightarrow> Inl (as_store_error x)
      | Inr target \<Rightarrow>
          let folded = lower relative; parents = map lower (parent_paths relative) in
          if folded \<in> set paths \<or> folded \<in> set directories \<or> list_ex (\<lambda>p. p \<in> set paths) parents
          then Inl StoreError
          else ebind (plan_targets rsv fs dest pre ks (folded # paths) (parents @ directories))
                 (\<lambda>ts. Inr ((k, target) # ts)))"

fun fetch_targets ::
  "'s s3_client \<Rightarrow> 's \<Rightarrow> disk \<Rightarrow> (string \<times> path) list \<Rightarrow> 's \<times> disk \<times> (store_exn + unit)" where
  "fetch_targets client s fs [] = (s, fs, Inr ())"
| "fetch_targets client s fs ((k, target) # ts) =
     (case s3_get client s k of
        (s1, Inl x) \<Rightarrow> (s1, fs, Inl (translate_exn x True))
      | (s1, Inr body) \<Rightarrow>
          (case write_with_parents fs target body of
             (fs1, Inl x) \<Rightarrow> (s1, fs1, Inl (translate_exn OsOrUnicodeError True))
           | (fs1, Inr _) \<Rightarrow> fetch_targets client s1 fs1 ts))"

definition s3_materialize ::
  "'s s3_client \<Rightarrow> (disk \<Rightarrow> path \<Rightarrow> path) \<Rightarrow> string \<Rightarrow> 's \<Rightarrow> disk \<Rightarrow> string \<Rightarrow> path \<Rightarrow> 's \<times> disk \<times> (store_exn + path)" where
  "s3_materialize client rsv base s fs key dest =
     (case prefix_for base key of
        Inl x \<Rightarrow> (s, fs, Inl x)
      | Inr pre \<Rightarrow>
          (case mkdir_parents fs dest of
             (fs1, Inl _) \<Rightarrow> (s, fs1, Inl (translate_exn OsOrUnicodeError False))
           | (fs1, Inr _) \<Rightarrow>
               (case list_keys client s pre False of (s1, (ks, listing)) \<Rightarrow>
                  (case plan_targets rsv fs1 dest pre ks [] [] of
                     Inl x \<Rightarrow> (s1, fs1, Inl x)
                   | Inr targets \<Rightarrow>
                       (case listing of
                          Some x \<Rightarrow> (s1, fs1, Inl x)
                        | None \<Rightarrow>
                            if targets = [] then (s1, fs1, Inl StoreKeyError)
                            else (case fetch_targets client s1 fs1 targets of
                                    (s2, fs2, Inl x) \<Rightarrow> (s2, fs2, Inl x)
                                  | (s2, fs2, Inr _) \<Rightarrow> (s2, fs2, Inr dest)))))))"

definition s3_ops :: "'s s3_client \<Rightarrow> string \<Rightarrow> 's store_ops" where
  "s3_ops client base =
     \<lparr>st_put = s3_store_put client base, st_get = s3_store_get client base,
      st_exists = s3_store_exists client base, st_delete = s3_store_delete client base\<rparr>"

section \<open>Packaging an upload\<close>

definition source_filename :: string where "source_filename = ''strategy.py''"

definition config_filename :: string where "config_filename = ''config.json''"

definition default_tickers :: "string list" where "default_tickers = [''AAPL'', ''MSFT'']"

definition default_interval_seconds :: int where "default_interval_seconds = 60"

definition default_lookback_days :: int where "default_lookback_days = 30"

definition lookback_param_spec :: pyval where
  "lookback_param_spec = VDict
     [(''key'', VStr ''LOOKBACK_DAYS''), (''label'', VStr ''Lookback (days)''), (''type'', VStr ''integer''),
      (''default'', VInt default_lookback_days), (''min'', VInt 5), (''max'', VInt 365)]"

text \<open>The weight is an equal share rounded to six places.\<close>

definition build_config :: "string \<Rightarrow> pyval" where
  "build_config key =
     (let weight = VFloat (Fin (1 / real (length default_tickers))) in
      VDict [(''PORTFOLIO_ID'', VStr key), (''TICKERS'', VList (map VStr default_tickers)),
        (''WEIGHTS'', VDict (map (\<lambda>t. (t, weight)) default_tickers)),
        (''INTERVAL'', VInt default_interval_seconds), (''LOOKBACK_DAYS'', VInt default_lookback_days),
        (''DATA_FEEDS'', VList [VStr ''MARKET_DATA''])])"

definition parameter_specs :: "pyval list" where
  "parameter_specs = [lookback_param_spec]"

text \<open>\<open>dumps\<close> is \<open>json.dumps\<close> with the code's options; it raises on a value JSON cannot hold.\<close>

definition discard_partial :: "'s store_ops \<Rightarrow> 's \<Rightarrow> string \<Rightarrow> store_exn \<Rightarrow> 's \<times> (store_exn + string)" where
  "discard_partial ops s storage x = (fst (st_delete ops s storage), Inl x)"

definition same_package :: "'s store_ops \<Rightarrow> 's \<Rightarrow> string \<Rightarrow> string \<Rightarrow> string \<Rightarrow> 's \<times> (store_exn + bool)" where
  "same_package ops s storage source config_source =
     (case st_get ops s storage source_filename of
        (s1, Inl x) \<Rightarrow> (s1, if x = StoreKeyError then Inr False else Inl x)
      | (s1, Inr a) \<Rightarrow>
          if a \<noteq> source then (s1, Inr False)
          else (case st_get ops s1 storage config_filename of
                  (s2, Inl x) \<Rightarrow> (s2, if x = StoreKeyError then Inr False else Inl x)
                | (s2, Inr b) \<Rightarrow> (s2, Inr (b = config_source))))"

definition store_strategy_source ::
  "'s store_ops \<Rightarrow> (pyval \<Rightarrow> store_exn + string) \<Rightarrow> 's \<Rightarrow> string \<Rightarrow> string \<Rightarrow> pyval \<Rightarrow> 's \<times> (store_exn + string)" where
  "store_strategy_source ops dumps s key source config =
     (case dumps config of
        Inl x \<Rightarrow> (s, Inl x)
      | Inr text \<Rightarrow>
          let config_source = text @ [CHR 0x0A]; storage = strategy_key key in
          (case st_exists ops s storage of
             (s1, Inl x) \<Rightarrow> (s1, Inl x)
           | (s1, Inr True) \<Rightarrow>
               (case same_package ops s1 storage source config_source of
                  (s2, Inl x) \<Rightarrow> (s2, Inl x)
                | (s2, Inr same) \<Rightarrow> (s2, if same then Inr storage else Inl StoreError))
           | (s1, Inr False) \<Rightarrow>
               (case st_put ops s1 storage source_filename source of
                  (s2, Inl x) \<Rightarrow> discard_partial ops s2 storage x
                | (s2, Inr _) \<Rightarrow>
                    (case st_put ops s2 storage config_filename config_source of
                       (s3, Inl x) \<Rightarrow> discard_partial ops s3 storage x
                     | (s3, Inr _) \<Rightarrow> (s3, Inr storage)))))"

definition discard_stored_source :: "'s store_ops \<Rightarrow> 's \<Rightarrow> string \<Rightarrow> 's" where
  "discard_stored_source ops s key = fst (st_delete ops s (strategy_key key))"

end
