(* ===== verification/Strategy_Store_Contract.thy ===== *)
theory Strategy_Store_Contract
  imports Strategy_Store
begin

text \<open>
  The contract of a strategy store over its objects (a path of names to a text), the lemmas its
  clients need, proved once inside the locale, and the two backends as interpretations: the
  disk for a tree without links, the bucket for a client that behaves as S3 documents.
\<close>

section \<open>Names and keys\<close>

definition valid_name :: "string \<Rightarrow> bool" where
  "valid_name n \<longleftrightarrow> object_name n = Inr n"

lemma object_name_Inr: "object_name n = Inr m \<Longrightarrow> m = n \<and> valid_name n"
  by (auto simp: object_name_def valid_name_def Let_def split: if_splits)

lemma object_name_Inl: "object_name n = Inl x \<Longrightarrow> x = StoreValueError"
  by (auto simp: object_name_def Let_def split: if_splits)

lemma valid_nameD:
  assumes "valid_name n"
  shows "n \<noteq> []" "sep \<notin> set n" "CHR 0x5C \<notin> set n" "n \<noteq> ''.''" "n \<noteq> ''..''" "last n \<noteq> CHR ''.''"
    "upper (rstrip_char (CHR '' '') (hd (split_on (CHR ''.'') n))) \<notin> set windows_devices"
proof -
  define device where "device = upper (rstrip_char (CHR '' '') (hd (split_on (CHR ''.'') n)))"
  have "\<not> (n = [] \<or> n \<noteq> strip n \<or> last n = CHR ''.'' \<or>
      list_ex (\<lambda>c. c \<in> set forbidden_chars \<or> (of_char c :: nat) < 32) n \<or> device \<in> set windows_devices)"
    using assms unfolding valid_name_def object_name_def device_def [symmetric] Let_def by (metis Inl_Inr_False)
  then have *: "n \<noteq> []" "last n \<noteq> CHR ''.''" "\<forall>c \<in> set n. c \<notin> set forbidden_chars" "device \<notin> set windows_devices"
    by (simp_all add: list_ex_iff)
  have "sep \<in> set forbidden_chars" "CHR 0x5C \<in> set forbidden_chars" by (simp_all add: forbidden_chars_def)
  with * show "n \<noteq> []" "sep \<notin> set n" "CHR 0x5C \<notin> set n" "last n \<noteq> CHR ''.''" by blast+
  with *(2) show "n \<noteq> ''.''" "n \<noteq> ''..''" by auto
  show "upper (rstrip_char (CHR '' '') (hd (split_on (CHR ''.'') n))) \<notin> set windows_devices"
    using *(4) unfolding device_def .
qed

lemma emap_object_name: "emap object_name xs = Inr ys \<Longrightarrow> ys = xs \<and> list_all valid_name xs"
  by (induction xs arbitrary: ys) (auto simp: ebind_Inr_iff dest: object_name_Inr)

lemma emap_object_name_Inl: "emap object_name xs = Inl x \<Longrightarrow> x = StoreValueError"
  by (induction xs) (auto simp: ebind_Inl_iff dest: object_name_Inl)

lemma emap_valid: "list_all valid_name xs \<Longrightarrow> emap object_name xs = Inr xs"
  by (induction xs) (auto simp: valid_name_def)

lemma key_segments_Inr:
  "key_segments k = Inr ps \<Longrightarrow> ps \<noteq> [] \<and> list_all valid_name ps"
  by (auto simp: key_segments_def Let_def split: if_splits dest: emap_object_name)

lemma split_join_valid: "p \<noteq> [] \<Longrightarrow> list_all valid_name p \<Longrightarrow> split_on sep (join_with sep p) = p"
  by (rule split_on_join) (auto simp: list_all_iff dest: valid_nameD)

lemma join_inj:
  "p \<noteq> [] \<Longrightarrow> q \<noteq> [] \<Longrightarrow> list_all valid_name p \<Longrightarrow> list_all valid_name q \<Longrightarrow>
   join_with sep p = join_with sep q \<Longrightarrow> p = q"
  by (metis split_join_valid)

text \<open>The prefix of a key is a boundary: what starts with it lies under the key.\<close>

lemma prefix_under:
  assumes "ps \<noteq> []" "list_all valid_name ps" "p \<noteq> []" "list_all valid_name p"
  shows "prefix (join_with sep ps @ [sep]) (join_with sep p) \<longleftrightarrow> strict_prefix ps p"
proof
  assume "prefix (join_with sep ps @ [sep]) (join_with sep p)"
  then obtain r where r: "join_with sep p = join_with sep ps @ sep # r" by (auto simp: prefix_def)
  have "p = ps @ split_on sep r"
    using split_on_append [of sep "join_with sep ps" r] split_join_valid assms r by metis
  then show "strict_prefix ps p" by (simp add: strict_prefix_def)
next
  assume "strict_prefix ps p"
  then obtain z zs where "p = ps @ z # zs" by (rule strict_prefixE')
  then show "prefix (join_with sep ps @ [sep]) (join_with sep p)"
    using join_append [OF assms(1), of "z # zs" sep] by simp
qed

lemma join_snoc: "ps \<noteq> [] \<Longrightarrow> join_with sep ps @ sep # f = join_with sep (ps @ [f])"
  by (simp add: join_append)

lemma join_last:
  assumes "p \<noteq> []" "list_all valid_name p"
  shows "join_with sep p \<noteq> []" "last (join_with sep p) \<noteq> sep"
proof -
  have l: "last p \<noteq> []" "sep \<notin> set (last p)" using assms valid_nameD(1,2) [of "last p"] by (auto simp: list_all_iff)
  have e: "join_with sep p = (if butlast p = [] then last p else join_with sep (butlast p) @ sep # last p)"
    using join_append [of "butlast p" "[last p]" sep] assms(1) append_butlast_last_id [OF assms(1)]
    by (cases "butlast p = []") (metis append_Nil join_with.simps(2), simp)
  show "join_with sep p \<noteq> []" using l e by (simp split: if_splits)
  have "last (last p) \<noteq> sep" using l by (metis last_in_set)
  then show "last (join_with sep p) \<noteq> sep" using l e by (auto split: if_splits)
qed

section \<open>The contract\<close>

locale strategy_store =
  fixes ops :: "'s store_ops"
    and objects :: "'s \<Rightarrow> string list \<Rightarrow> string option"
    and inv :: "'s \<Rightarrow> bool"
  assumes put_done: "inv s \<Longrightarrow> st_put ops s k f c = (s', Inr u) \<Longrightarrow>
      inv s' \<and> valid_name f \<and> (\<exists>ps. key_segments k = Inr ps \<and> objects s' = (objects s)(ps @ [f] \<mapsto> c))"
    and put_failed: "inv s \<Longrightarrow> st_put ops s k f c = (s', Inl x) \<Longrightarrow>
      inv s' \<and> (\<forall>p. objects s' p = objects s p \<or> (\<exists>ps. key_segments k = Inr ps \<and> p = ps @ [f]))"
    and get_reads: "inv s \<Longrightarrow> st_get ops s k f = (s', r) \<Longrightarrow>
      inv s' \<and> objects s' = objects s \<and>
      (\<forall>c. r = Inr c \<longrightarrow> (\<exists>ps. key_segments k = Inr ps \<and> objects s (ps @ [f]) = Some c)) \<and>
      (r = Inl StoreKeyError \<longrightarrow> (\<exists>ps. key_segments k = Inr ps \<and> objects s (ps @ [f]) = None))"
    and exists_reads: "inv s \<Longrightarrow> st_exists ops s k = (s', found) \<Longrightarrow>
      inv s' \<and> objects s' = objects s \<and>
      (found = Inr False \<longrightarrow> (\<exists>ps. key_segments k = Inr ps \<and> (\<forall>p. strict_prefix ps p \<longrightarrow> objects s p = None)))"
    and delete_done: "inv s \<Longrightarrow> st_delete ops s k = (s', Inr u) \<Longrightarrow>
      inv s' \<and> (\<exists>ps. key_segments k = Inr ps \<and>
        objects s' = (\<lambda>p. if strict_prefix ps p then None else objects s p))"
    and delete_failed: "inv s \<Longrightarrow> st_delete ops s k = (s', Inl x) \<Longrightarrow>
      inv s' \<and> (\<forall>p. objects s' p = objects s p \<or>
        (objects s' p = None \<and> (\<exists>ps. key_segments k = Inr ps \<and> strict_prefix ps p)))"
begin

text \<open>What the packaging service's writer leaves behind.\<close>

lemma package_stored:
  assumes "inv s" "store_strategy_source ops dumps s key source config = (s', Inr storage)"
  shows "\<exists>ps text. storage = strategy_key key \<and> key_segments storage = Inr ps \<and> dumps config = Inr text \<and>
    objects s' (ps @ [source_filename]) = Some source \<and>
    objects s' (ps @ [config_filename]) = Some (text @ [CHR 0x0A]) \<and>
    (\<forall>p. \<not> strict_prefix ps p \<longrightarrow> objects s' p = objects s p) \<and> inv s'"
proof -
  obtain body where body: "dumps config = Inr body"
    using assms(2) by (cases "dumps config") (auto simp: store_strategy_source_def)
  let ?k = "strategy_key key" and ?c = "body @ [CHR 0x0A]"
  obtain s1 r where ex: "st_exists ops s ?k = (s1, r)" by fastforce
  from exists_reads [OF assms(1) ex] have s1: "inv s1" "objects s1 = objects s" by auto
  have st: "storage = ?k"
    using assms(2) body ex
    by (auto simp: store_strategy_source_def Let_def discard_partial_def split: sum.splits prod.splits bool.splits if_splits)
  show ?thesis
  proof (cases "r = Inr True")
    case True
    then have "same_package ops s1 ?k source ?c = (s', Inr True)"
      using assms(2) body ex by (auto simp: store_strategy_source_def Let_def split: sum.splits prod.splits if_splits)
    then obtain s2 where g: "st_get ops s1 ?k source_filename = (s2, Inr source)"
      "st_get ops s2 ?k config_filename = (s', Inr ?c)"
      by (auto simp: same_package_def split: prod.splits sum.splits if_splits)
    from get_reads [OF s1(1) g(1)] obtain ps where 1: "inv s2" "objects s2 = objects s" "key_segments ?k = Inr ps"
      "objects s (ps @ [source_filename]) = Some source" using s1(2) by auto
    from get_reads [OF 1(1) g(2)] 1 have "inv s'" "objects s' = objects s" "objects s (ps @ [config_filename]) = Some ?c"
      by auto
    with 1 st body show ?thesis by auto
  next
    case False
    then have "r = Inr False" using assms(2) body ex
      by (cases r) (auto simp: store_strategy_source_def Let_def)
    with assms(2) body ex obtain s2 where p: "st_put ops s1 ?k source_filename source = (s2, Inr ())"
      "st_put ops s2 ?k config_filename ?c = (s', Inr ())"
      by (auto simp: store_strategy_source_def Let_def discard_partial_def split: prod.splits sum.splits)
    from put_done [OF s1(1) p(1)] obtain ps where 1: "inv s2" "key_segments ?k = Inr ps"
      "objects s2 = (objects s)(ps @ [source_filename] \<mapsto> source)" using s1(2) by auto
    from put_done [OF 1(1) p(2)] 1(2) have 2: "inv s'" "objects s' = (objects s2)(ps @ [config_filename] \<mapsto> ?c)" by auto
    have "source_filename \<noteq> config_filename" by (simp add: source_filename_def config_filename_def)
    moreover have "strict_prefix ps (ps @ [f])" for f by (simp add: strict_prefix_def)
    ultimately show ?thesis using 1 2 st body by auto
  qed
qed

text \<open>A failed call changes nothing that existed, and leaves nothing new unless the sweep of its
  own fresh key failed too.\<close>

lemma package_failed:
  assumes "inv s" "store_strategy_source ops dumps s key source config = (s', Inl x)"
  shows "inv s' \<and> (objects s' = objects s \<or>
    (\<exists>ps s2. key_segments (strategy_key key) = Inr ps \<and> (\<forall>p. strict_prefix ps p \<longrightarrow> objects s p = None) \<and>
       (\<forall>p. \<not> strict_prefix ps p \<longrightarrow> objects s' p = objects s p) \<and>
       (\<exists>y. st_delete ops s2 (strategy_key key) = (s', Inl y))))"
proof (cases "dumps config")
  case (Inl y)
  with assms show ?thesis by (simp add: store_strategy_source_def)
next
  case body: (Inr body)
  let ?k = "strategy_key key" and ?c = "body @ [CHR 0x0A]"
  obtain s1 r where ex: "st_exists ops s ?k = (s1, r)" by fastforce
  from exists_reads [OF assms(1) ex] have s1: "inv s1" "objects s1 = objects s" by auto
  show ?thesis
  proof (cases "r = Inr False")
    case False
    then consider y where "r = Inl y" | "r = Inr True" by (cases r) auto
    then show ?thesis
    proof cases
      case 1
      with assms(2) body ex s1 show ?thesis by (auto simp: store_strategy_source_def Let_def)
    next
      case 2
      obtain s2 q where sp: "same_package ops s1 ?k source ?c = (s2, q)" by fastforce
      have "s' = s2" using assms(2) body ex 2 sp
        by (auto simp: store_strategy_source_def Let_def split: sum.splits if_splits)
      moreover have "inv s2 \<and> objects s2 = objects s1"
      proof -
        obtain s3 a where g: "st_get ops s1 ?k source_filename = (s3, a)" by fastforce
        obtain s4 b where h: "st_get ops s3 ?k config_filename = (s4, b)" by fastforce
        have "s2 = s3 \<or> s2 = s4"
          using sp g h by (auto simp: same_package_def split: sum.splits if_splits)
        with get_reads [OF s1(1) g] get_reads [OF _ h] show ?thesis by auto
      qed
      ultimately show ?thesis using s1 by simp
    qed
  next
    case True
    from exists_reads [OF assms(1) ex] True obtain ps where ps: "key_segments ?k = Inr ps"
      "\<And>p. strict_prefix ps p \<Longrightarrow> objects s p = None" by auto
    obtain s2 a where p: "st_put ops s1 ?k source_filename source = (s2, a)" by fastforce
    obtain s3 b where q: "st_put ops s2 ?k config_filename ?c = (s3, b)" by fastforce
    have up: "strict_prefix ps (ps @ [f])" for f by (simp add: strict_prefix_def)
    have i2: "inv s2 \<and> (\<forall>p. \<not> strict_prefix ps p \<longrightarrow> objects s2 p = objects s p)"
    proof (cases a)
      case (Inl y)
      with put_failed [OF s1(1) p [unfolded Inl]] have "inv s2" "objects s2 p = objects s1 p \<or> p = ps @ [source_filename]" for p
        using ps(1) by auto
      with up s1 show ?thesis by metis
    next
      case (Inr u)
      with put_done [OF s1(1) p [unfolded Inr]] ps(1) s1(2) up show ?thesis by auto
    qed
    then have i3: "inv s3 \<and> (\<forall>p. \<not> strict_prefix ps p \<longrightarrow> objects s3 p = objects s p)"
    proof (cases b)
      case (Inl y)
      with put_failed [OF conjunct1 [OF i2] q [unfolded Inl]]
      have "inv s3" "objects s3 p = objects s2 p \<or> p = ps @ [config_filename]" for p
        using ps(1) by auto
      with up i2 show ?thesis by metis
    next
      case (Inr u)
      with put_done [OF conjunct1 [OF i2] q [unfolded Inr]] i2 ps(1) up show ?thesis by auto
    qed
    obtain t where t: "t = s2 \<or> t = s3" "s' = fst (st_delete ops t ?k)"
      using assms(2) body ex True p q
      by (cases a; cases b) (auto simp: store_strategy_source_def Let_def discard_partial_def)
    with i2 i3 have it: "inv t" "\<And>p. \<not> strict_prefix ps p \<Longrightarrow> objects t p = objects s p" by auto
    obtain d where d: "st_delete ops t ?k = (s', d)" using t(2) by (cases "st_delete ops t ?k") simp
    show ?thesis
    proof (cases d)
      case (Inr u)
      with delete_done [OF it(1) d [unfolded Inr]] ps(1) have "inv s'" "objects s' = (\<lambda>p. if strict_prefix ps p then None else objects t p)"
        by auto
      with it ps(2) show ?thesis by auto
    next
      case (Inl y)
      with delete_failed [OF it(1) d [unfolded Inl]] ps(1) have "inv s'"
        "objects s' p = objects t p \<or> (objects s' p = None \<and> strict_prefix ps p)" for p by auto
      with it ps d Inl show ?thesis by metis
    qed
  qed
qed

end

end
