(* ===== verification/Strategy_Store_Local.thy ===== *)
theory Strategy_Store_Local
  imports Strategy_Store_Contract
begin

text \<open>
  The disk backend meets the store's contract on a directory tree without links.
\<close>

definition no_links :: "disk \<Rightarrow> bool" where
  "no_links fs \<longleftrightarrow> (\<forall>p. \<not> is_link (dict_get fs p))"

text \<open>\<open>Path.resolve\<close> leaves a path alone where there are no links.\<close>

definition plain_resolve :: "(disk \<Rightarrow> path \<Rightarrow> path) \<Rightarrow> bool" where
  "plain_resolve rsv \<longleftrightarrow> (\<forall>fs p. no_links fs \<longrightarrow> rsv fs p = p)"

text \<open>Every entry but the outermost lies in a directory.\<close>

definition tree :: "disk \<Rightarrow> bool" where
  "tree fs \<longleftrightarrow> no_links fs \<and> (\<forall>p. p \<noteq> [] \<longrightarrow> dict_get fs p \<noteq> None \<longrightarrow> dict_get fs (butlast p) = Some Dir)"

definition local_inv :: "(disk \<Rightarrow> path \<Rightarrow> path) \<Rightarrow> disk \<Rightarrow> bool" where
  "local_inv rsv fs \<longleftrightarrow> plain_resolve rsv \<and> tree fs"

definition local_objects :: "path \<Rightarrow> disk \<Rightarrow> string list \<Rightarrow> string option" where
  "local_objects home fs p = (case dict_get fs (home @ p) of Some (File c) \<Rightarrow> Some c | _ \<Rightarrow> None)"

lemma node_cases:
  assumes "no_links fs"
  shows "dict_get fs p = None \<or> dict_get fs p = Some Dir \<or> (\<exists>c. dict_get fs p = Some (File c))"
proof (cases "dict_get fs p")
  case (Some n)
  have "\<not> is_link (dict_get fs p)" using assms by (simp add: no_links_def)
  with Some show ?thesis by (cases n) (simp_all add: is_link_def)
qed simp

lemma tree_set:
  assumes "tree fs" "p = [] \<or> dict_get fs (butlast p) = Some Dir" "\<not> is_link (Some n)"
    "n = Dir \<or> dict_get fs p \<noteq> Some Dir"
  shows "tree (dict_set p n fs)"
proof -
  have "dict_get fs (butlast q) = Some Dir \<and> (butlast q = p \<longrightarrow> n = Dir)"
    if "q \<noteq> []" "q \<noteq> p" "dict_get fs q \<noteq> None" for q
    using that assms(1,4) by (auto simp: tree_def)
  moreover have "p \<noteq> [] \<Longrightarrow> butlast p \<noteq> p" by (metis append_butlast_last_id append_self_conv not_Cons_self2)
  ultimately show ?thesis using assms by (auto simp: tree_def no_links_def)
qed

section \<open>Making directories\<close>

lemma mkdir_each_frame:
  "mkdir_each fs ps = (fs', r) \<Longrightarrow>
   (\<forall>q. dict_get fs q \<noteq> None \<longrightarrow> dict_get fs' q = dict_get fs q) \<and>
   (\<forall>q. dict_get fs q = None \<longrightarrow> dict_get fs' q = None \<or> dict_get fs' q = Some Dir) \<and>
   (r = Inr () \<longrightarrow> no_links fs \<longrightarrow> (\<forall>q \<in> set ps. dict_get fs' q = Some Dir))"
proof (induction fs ps rule: mkdir_each.induct)
  case (2 fs p ps)
  show ?case
  proof (cases "dict_get fs p")
    case None
    with 2 have "mkdir_each (dict_set p Dir fs) ps = (fs', r)" by simp
    note ih = 2(1) [OF None this]
    have nl: "no_links fs \<Longrightarrow> no_links (dict_set p Dir fs)" by (simp add: no_links_def is_link_def)
    from ih have a: "dict_get (dict_set p Dir fs) q \<noteq> None \<Longrightarrow> dict_get fs' q = dict_get (dict_set p Dir fs) q"
      and b: "dict_get (dict_set p Dir fs) q = None \<Longrightarrow> dict_get fs' q = None \<or> dict_get fs' q = Some Dir" for q
      by blast+
    have "dict_get fs' q = dict_get fs q" if "dict_get fs q \<noteq> None" for q
      using a [of q] that None by (cases "q = p") auto
    moreover have "dict_get fs' q = None \<or> dict_get fs' q = Some Dir" if "dict_get fs q = None" for q
      using a [of q] b [of q] that by (cases "q = p") auto
    moreover have "r = Inr () \<longrightarrow> no_links fs \<longrightarrow> (\<forall>q \<in> set (p # ps). dict_get fs' q = Some Dir)"
      using ih nl a [of p] by auto
    ultimately show ?thesis by blast
  next
    case (Some n)
    show ?thesis
    proof (cases n)
      case Dir
      from 2(4) Some Dir have m: "mkdir_each fs ps = (fs', r)" by simp
      from 2(2) [OF Some _ m] Dir Some show ?thesis by simp
    next
      case (File c)
      with 2(4) Some show ?thesis by auto
    next
      case (Link b)
      with Some have nl: "\<not> no_links fs" by (auto simp: no_links_def is_link_def intro!: exI [of _ p])
      from 2(4) Some Link have m: "mkdir_each fs ps = (fs', r)" by simp
      from 2(3) [OF Some _ m] Link nl show ?thesis by simp
    qed
  qed
qed auto

lemma mkdir_tree:
  assumes "mkdir_each fs (map (\<lambda>n. take n p) [i..<j]) = (fs', r)" "tree fs" "j \<le> Suc (length p)"
    "i = 0 \<or> dict_get fs (take (i - 1) p) = Some Dir"
  shows "tree fs'"
  using assms
proof (induction "j - i" arbitrary: i fs)
  case 0
  then show ?case by simp
next
  case (Suc d)
  let ?q = "take i p"
  have ij: "i < j" using Suc.hyps(2) by simp
  then have c: "map (\<lambda>n. take n p) [i..<j] = ?q # map (\<lambda>n. take n p) [Suc i..<j]" by (simp add: upt_rec)
  have b: "?q = [] \<or> butlast ?q = take (i - 1) p"
    using ij Suc.prems(3) by (cases i) (auto simp: butlast_take)
  have IH: "tree fs'" if "mkdir_each g (map (\<lambda>n. take n p) [Suc i..<j]) = (fs', r)" "tree g" "dict_get g ?q = Some Dir" for g
    using Suc.hyps(1) [of "Suc i" g] Suc.hyps(2) that Suc.prems(3) by simp
  from node_cases [of fs ?q] Suc.prems(2) consider "dict_get fs ?q = None" | "dict_get fs ?q = Some Dir"
    | c where "dict_get fs ?q = Some (File c)" by (auto simp: tree_def)
  then show ?case
  proof cases
    case 1
    have "tree (dict_set ?q Dir fs)"
      using b Suc.prems(4) by (intro tree_set [OF Suc.prems(2)]) (auto simp: is_link_def)
    with 1 Suc.prems(1) c show ?thesis by (intro IH [of "dict_set ?q Dir fs"]) auto
  next
    case 2
    with Suc.prems(1,2) c show ?thesis by (intro IH [of fs]) auto
  next
    case 3
    with Suc.prems(1,2) c show ?thesis by auto
  qed
qed

lemma mkdir_parents_ok:
  assumes "mkdir_parents fs p = (fs', r)" "tree fs"
  shows "tree fs'" "\<And>q. dict_get fs q \<noteq> None \<Longrightarrow> dict_get fs' q = dict_get fs q"
    "\<And>q. dict_get fs q = None \<Longrightarrow> dict_get fs' q = None \<or> dict_get fs' q = Some Dir"
    "r = Inr () \<Longrightarrow> dict_get fs' p = Some Dir"
proof -
  note m = assms(1) [unfolded mkdir_parents_def]
  show "tree fs'" by (rule mkdir_tree [OF m assms(2)]) simp_all
  from mkdir_each_frame [OF m] assms(2)
  show "\<And>q. dict_get fs q \<noteq> None \<Longrightarrow> dict_get fs' q = dict_get fs q"
    "\<And>q. dict_get fs q = None \<Longrightarrow> dict_get fs' q = None \<or> dict_get fs' q = Some Dir"
    by blast+
  have "p \<in> set (map (\<lambda>n. take n p) [0..<Suc (length p)])" by force
  with mkdir_each_frame [OF m] assms(2) show "r = Inr () \<Longrightarrow> dict_get fs' p = Some Dir"
    by (auto simp: tree_def)
qed

lemma write_with_parents_ok:
  assumes "write_with_parents fs p c = (fs', r)" "tree fs" "p \<noteq> []"
  shows "tree fs'" "r = Inr () \<Longrightarrow> dict_get fs' p = Some (File c)"
    "\<And>q b. q \<noteq> p \<Longrightarrow> dict_get fs' q = Some (File b) \<longleftrightarrow> dict_get fs q = Some (File b)"
    "\<And>b x. r = Inl x \<Longrightarrow> dict_get fs' p = Some (File b) \<longleftrightarrow> dict_get fs p = Some (File b)"
proof -
  obtain fs1 r1 where m: "mkdir_parents fs (butlast p) = (fs1, r1)" by fastforce
  note ok = mkdir_parents_ok [OF m assms(2)]
  have files: "dict_get fs1 q = Some (File b) \<longleftrightarrow> dict_get fs q = Some (File b)" for q b
    using ok(2,3) [of q] by (cases "dict_get fs q") auto
  consider x where "r1 = Inl x" "fs' = fs1" "r = Inl x"
    | "r1 = Inr ()" "dict_get fs1 p = Some Dir" "fs' = fs1" "r = Inl StoreOsError"
    | "r1 = Inr ()" "dict_get fs1 p \<noteq> Some Dir" "fs' = dict_set p (File c) fs1" "r = Inr ()"
    using assms(1) m by (cases r1) (auto simp: write_with_parents_def write_file_def split: if_splits)
  note cs = this
  show "tree fs'"
  proof (cases rule: cs)
    case 3
    then show ?thesis using ok(1,4) by (auto intro!: tree_set simp: is_link_def)
  qed (use ok in auto)
  show "r = Inr () \<Longrightarrow> dict_get fs' p = Some (File c)" by (cases rule: cs) auto
  show "\<And>q b. q \<noteq> p \<Longrightarrow> dict_get fs' q = Some (File b) \<longleftrightarrow> dict_get fs q = Some (File b)"
    by (cases rule: cs) (auto simp: files)
  show "dict_get fs' p = Some (File b) \<longleftrightarrow> dict_get fs p = Some (File b)" if "r = Inl x" for b x
    using that files [of p b] by (cases rule: cs) auto
qed

section \<open>Paths\<close>

lemma key_dir_plain:
  assumes "local_inv rsv fs"
  shows "key_dir rsv home fs key = ebind (key_segments key) (\<lambda>ps. Inr (home @ ps))"
proof (cases "key_segments key")
  case (Inr ps)
  with key_segments_Inr have "ps \<noteq> []" by blast
  with Inr assms show ?thesis by (auto simp: key_dir_def local_inv_def plain_resolve_def tree_def strict_prefix_def)
qed (simp add: key_dir_def)

lemma materialize_target_plain:
  assumes "local_inv rsv fs" "materialize_target rsv fs d relative = Inr t"
  shows "t = d @ split_on sep relative" "list_all valid_name (split_on sep relative)"
  using assms emap_object_name [of "split_on sep relative"]
  by (auto simp: materialize_target_def ebind_Inr_iff Let_def split: if_splits)

lemma materialize_target_name:
  assumes "local_inv rsv fs" "valid_name f"
  shows "materialize_target rsv fs d f = Inr (d @ [f])"
proof -
  have "split_on sep f = [f]" using valid_nameD(2) [OF assms(2)] by (rule split_on_plain)
  moreover have "rsv fs p = p" for p using assms(1) by (auto simp: local_inv_def plain_resolve_def tree_def)
  moreover have "\<not> is_link (dict_get fs p)" for p using assms(1) by (auto simp: local_inv_def tree_def no_links_def)
  ultimately show ?thesis using assms(2)
    by (simp add: materialize_target_def valid_name_def strict_prefix_def)
qed

lemma object_path_plain:
  assumes "local_inv rsv fs"
  shows "object_path rsv home fs key f =
    ebind (key_segments key) (\<lambda>ps. ebind (object_name f) (\<lambda>n. Inr (home @ ps @ [n])))"
proof (cases "key_segments key")
  case (Inr ps)
  show ?thesis
  proof (cases "object_name f")
    case (Inr n)
    with object_name_Inr have "n = f" "valid_name f" by blast+
    with Inr \<open>key_segments key = Inr ps\<close> assms show ?thesis
      by (simp add: object_path_def key_dir_plain materialize_target_name)
  qed (simp add: object_path_def key_dir_plain assms Inr)
qed (simp add: object_path_def key_dir_plain assms)

lemma file_content_eq:
  assumes "\<And>b. x = Some (File b) \<longleftrightarrow> y = Some (File b)"
  shows "(case x of Some (File c) \<Rightarrow> Some c | _ \<Rightarrow> None) = (case y of Some (File c) \<Rightarrow> Some c | _ \<Rightarrow> None)"
proof (cases "\<exists>b. x = Some (File b)")
  case True
  then obtain b where b: "x = Some (File b)" by blast
  with assms [of b] have "y = Some (File b)" by blast
  with b show ?thesis by simp
next
  case False
  then have "\<nexists>b. y = Some (File b)" using assms by blast
  moreover have "(case z of Some (File c) \<Rightarrow> Some c | _ \<Rightarrow> None) = None" if "\<nexists>b. z = Some (File b)" for z
  proof (cases z)
    case (Some n)
    with that show ?thesis by (cases n) simp_all
  qed simp
  ultimately show ?thesis using False by simp
qed

lemma local_objects_write:
  assumes "\<And>q b. q \<noteq> home @ p \<Longrightarrow> dict_get fs' q = Some (File b) \<longleftrightarrow> dict_get fs q = Some (File b)" "q \<noteq> p"
  shows "local_objects home fs' q = local_objects home fs q"
  unfolding local_objects_def by (rule file_content_eq, rule assms(1)) (use assms(2) in simp)

lemma local_objects_entry: "local_objects home fs p \<noteq> None \<Longrightarrow> dict_get fs (home @ p) \<noteq> None"
  by (cases "dict_get fs (home @ p)") (simp_all add: local_objects_def)

lemma tree_ancestor:
  assumes "tree fs" "strict_prefix d p" "dict_get fs p \<noteq> None"
  shows "dict_get fs d = Some Dir \<and> children fs d \<noteq> []"
  using assms(2,3)
proof (induction p rule: rev_induct)
  case (snoc x p)
  have "\<forall>p. p \<noteq> [] \<longrightarrow> dict_get fs p \<noteq> None \<longrightarrow> dict_get fs (butlast p) = Some Dir"
    using assms(1) unfolding tree_def by (rule conjunct2)
  from this [rule_format, of "p @ [x]"] snoc.prems(2) have "dict_get fs p = Some Dir" by simp
  show ?case
  proof (cases "d = p")
    case True
    have "p @ [x] \<in> set (map fst fs)" using snoc.prems(2) unfolding map_of_eq_None_iff by auto
    then have "p @ [x] \<in> set (children fs d)" using True by (simp add: children_def)
    with \<open>dict_get fs p = Some Dir\<close> True show ?thesis by auto
  next
    case False
    with snoc.prems(1) have "strict_prefix d p" by (auto simp: strict_prefix_def prefix_snoc)
    with snoc.IH \<open>dict_get fs p = Some Dir\<close> show ?thesis by simp
  qed
qed simp

lemma dict_get_filter: "dict_get (filter (\<lambda>e. Q (fst e)) d) k = (if Q k then dict_get d k else None)"
  by (induction d) auto

lemma tree_delete:
  assumes "tree fs"
  shows "tree (filter (\<lambda>e. \<not> prefix d (fst e)) fs)"
proof -
  let ?g = "dict_get (filter (\<lambda>e. \<not> prefix d (fst e)) fs)"
  have g: "?g p = (if \<not> prefix d p then dict_get fs p else None)" for p
    by (rule dict_get_filter [where Q = "\<lambda>p. \<not> prefix d p"])
  have "?g (butlast p) = Some Dir" if "p \<noteq> []" "?g p \<noteq> None" for p
  proof -
    from that g have p: "\<not> prefix d p" "dict_get fs p \<noteq> None" by (auto split: if_splits)
    then have "\<not> prefix d (butlast p)" using that(1) by (metis append_butlast_last_id prefix_prefix)
    with p that(1) assms show ?thesis by (simp add: g tree_def)
  qed
  moreover have "\<not> is_link (?g p)" for p
    using assms g [of p] by (simp add: tree_def no_links_def is_link_def)
  ultimately show ?thesis by (simp add: tree_def no_links_def)
qed

section \<open>The contract\<close>

lemma local_put_done:
  assumes inv: "local_inv rsv fs" and put: "local_put rsv home fs k f c = (fs', r)"
  shows "local_inv rsv fs' \<and>
    (r = Inr () \<longrightarrow> valid_name f \<and> (\<exists>ps. key_segments k = Inr ps \<and> local_objects home fs' = (local_objects home fs)(ps @ [f] \<mapsto> c))) \<and>
    (\<forall>x. r = Inl x \<longrightarrow> local_objects home fs' = local_objects home fs)"
proof (cases "object_path rsv home fs k f")
  case (Inl x)
  with put inv show ?thesis by (auto simp: local_put_def)
next
  case (Inr p)
  with object_path_plain [OF inv] obtain ps where p: "key_segments k = Inr ps" "p = home @ ps @ [f]" "valid_name f"
    by (auto simp: ebind_Inr_iff dest!: object_name_Inr)
  have w: "write_with_parents fs (home @ ps @ [f]) c = (fs', r)" using put Inr p(2) by (simp add: local_put_def)
  have t: "tree fs" "home @ ps @ [f] \<noteq> []" using inv by (simp_all add: local_inv_def)
  note ok = write_with_parents_ok [OF w t]
  have other: "local_objects home fs' q = local_objects home fs q" if "q \<noteq> ps @ [f]" for q
    by (rule local_objects_write [OF ok(3) that])
  have "local_objects home fs' = (local_objects home fs)(ps @ [f] \<mapsto> c)" if "r = Inr ()"
    using other ok(2) [OF that] by (auto simp: fun_eq_iff) (simp add: local_objects_def)
  moreover have "local_objects home fs' = local_objects home fs" if "r = Inl x" for x
  proof
    fix q
    show "local_objects home fs' q = local_objects home fs q"
    proof (cases "q = ps @ [f]")
      case True
      show ?thesis unfolding local_objects_def True by (rule file_content_eq) (use ok(4) [OF that] in simp)
    qed (rule other)
  qed
  ultimately show ?thesis using ok(1) inv p(1,3) by (auto simp: local_inv_def)
qed

lemma local_get_reads:
  assumes inv: "local_inv rsv fs" and get: "local_get rsv home fs k f = (fs', r)"
  shows "fs' = fs \<and>
    (\<forall>c. r = Inr c \<longrightarrow> (\<exists>ps. key_segments k = Inr ps \<and> local_objects home fs (ps @ [f]) = Some c)) \<and>
    (r = Inl StoreKeyError \<longrightarrow> (\<exists>ps. key_segments k = Inr ps \<and> local_objects home fs (ps @ [f]) = None))"
proof (cases "key_segments k")
  case (Inl x)
  then have "x = StoreValueError"
    by (auto simp: key_segments_def Let_def split: if_splits dest: emap_object_name_Inl)
  with Inl get show ?thesis by (auto simp: local_get_def object_path_plain [OF inv])
next
  case (Inr ps)
  show ?thesis
  proof (cases "object_name f")
    case (Inl x)
    with object_name_Inl Inr get show ?thesis by (auto simp: local_get_def object_path_plain [OF inv])
  next
    case (Inr n)
    then have "n = f" using object_name_Inr by blast
    with get Inr \<open>key_segments k = Inr ps\<close> have
      "fs' = fs" "r = (case dict_get fs (home @ ps @ [f]) of Some (File c) \<Rightarrow> Inr c | None \<Rightarrow> Inl StoreKeyError | Some _ \<Rightarrow> Inl StoreOsError)"
      by (auto simp: local_get_def object_path_plain [OF inv])
    with \<open>key_segments k = Inr ps\<close> node_cases [of fs "home @ ps @ [f]"] inv show ?thesis
      by (auto simp: local_objects_def local_inv_def tree_def)
  qed
qed

lemma local_exists_reads:
  assumes inv: "local_inv rsv fs" and ex: "local_exists rsv home fs k = (fs', r)"
  shows "fs' = fs \<and> (r = Inr False \<longrightarrow>
    (\<exists>ps. key_segments k = Inr ps \<and> (\<forall>p. strict_prefix ps p \<longrightarrow> local_objects home fs p = None)))"
proof -
  have "local_objects home fs p = None"
    if "key_segments k = Inr ps" "r = Inr False" "strict_prefix ps p" for ps p
  proof (rule ccontr)
    assume "local_objects home fs p \<noteq> None"
    then have "dict_get fs (home @ p) \<noteq> None" by (rule local_objects_entry)
    moreover have "strict_prefix (home @ ps) (home @ p)" using that(3) by (simp add: strict_prefix_def)
    ultimately have "dict_get fs (home @ ps) = Some Dir \<and> children fs (home @ ps) \<noteq> []"
      using tree_ancestor [OF conjunct2 [OF inv [unfolded local_inv_def]]] by simp
    with ex that(1,2) show False by (simp add: local_exists_def key_dir_plain [OF inv])
  qed
  moreover have "r = Inr False \<Longrightarrow> \<exists>ps. key_segments k = Inr ps"
    using ex by (cases "key_segments k") (auto simp: local_exists_def key_dir_plain [OF inv])
  ultimately show ?thesis using ex by (auto simp: local_exists_def)
qed

lemma no_objects_below:
  assumes "tree fs" "dict_get fs (home @ ps) \<noteq> Some Dir" "strict_prefix ps p"
  shows "local_objects home fs p = None"
proof (rule ccontr)
  assume "local_objects home fs p \<noteq> None"
  then have "dict_get fs (home @ p) \<noteq> None" by (rule local_objects_entry)
  moreover have "strict_prefix (home @ ps) (home @ p)" using assms(3) by (simp add: strict_prefix_def)
  ultimately show False using tree_ancestor [OF assms(1)] assms(2) by blast
qed

lemma local_delete_done:
  assumes inv: "local_inv rsv fs" and del: "local_delete rsv home fs k = (fs', r)"
  shows "local_inv rsv fs' \<and> (\<forall>x. r = Inl x \<longrightarrow> fs' = fs) \<and>
    (r = Inr () \<longrightarrow> (\<exists>ps. key_segments k = Inr ps \<and>
       local_objects home fs' = (\<lambda>p. if strict_prefix ps p then None else local_objects home fs p)))"
proof (cases "key_segments k")
  case (Inl x)
  with del inv show ?thesis by (auto simp: local_delete_def key_dir_plain [OF inv])
next
  case (Inr ps)
  let ?d = "home @ ps"
  have t: "tree fs" using inv by (simp add: local_inv_def)
  show ?thesis
  proof (cases "dict_get fs ?d = Some Dir")
    case True
    with del Inr have f: "fs' = filter (\<lambda>e. \<not> prefix ?d (fst e)) fs" "r = Inr ()"
      by (simp_all add: local_delete_def key_dir_plain [OF inv])
    have "local_objects home fs' p = (if strict_prefix ps p then None else local_objects home fs p)" for p
    proof -
      have g: "dict_get fs' (home @ p) = (if \<not> prefix ps p then dict_get fs (home @ p) else None)"
        unfolding f(1) dict_get_filter [where Q = "\<lambda>p. \<not> prefix ?d p"] by simp
      show ?thesis using g True by (auto simp: local_objects_def strict_prefix_def)
    qed
    with f Inr inv tree_delete [OF t] show ?thesis by (auto simp: local_inv_def)
  next
    case False
    with del Inr have f: "fs' = fs"
      by (auto simp: local_delete_def key_dir_plain [OF inv] split: option.splits node.splits if_splits)
    have "local_objects home fs p = None" if "strict_prefix ps p" for p
      by (rule no_objects_below [OF t False that])
    then have "local_objects home fs = (\<lambda>p. if strict_prefix ps p then None else local_objects home fs p)"
      by (auto simp: fun_eq_iff)
    with f Inr inv show ?thesis by auto
  qed
qed

interpretation local_store: strategy_store "local_ops rsv home" "local_objects home" "local_inv rsv"
proof unfold_locales
  fix s k f c s' u
  assume "local_inv rsv s" "st_put (local_ops rsv home) s k f c = (s', Inr u)"
  then show "local_inv rsv s' \<and> valid_name f \<and>
      (\<exists>ps. key_segments k = Inr ps \<and> local_objects home s' = (local_objects home s)(ps @ [f] \<mapsto> c))"
    using local_put_done [of rsv s home k f c s' "Inr u"] by (simp add: local_ops_def)
next
  fix s k f c s' x
  assume "local_inv rsv s" "st_put (local_ops rsv home) s k f c = (s', Inl x)"
  then show "local_inv rsv s' \<and> (\<forall>p. local_objects home s' p = local_objects home s p \<or>
      (\<exists>ps. key_segments k = Inr ps \<and> p = ps @ [f]))"
    using local_put_done [of rsv s home k f c s' "Inl x"] by (simp add: local_ops_def)
next
  fix s k f s' and r :: "store_exn + string"
  assume "local_inv rsv s" "st_get (local_ops rsv home) s k f = (s', r)"
  then show "local_inv rsv s' \<and> local_objects home s' = local_objects home s \<and>
      (\<forall>c. r = Inr c \<longrightarrow> (\<exists>ps. key_segments k = Inr ps \<and> local_objects home s (ps @ [f]) = Some c)) \<and>
      (r = Inl StoreKeyError \<longrightarrow> (\<exists>ps. key_segments k = Inr ps \<and> local_objects home s (ps @ [f]) = None))"
    using local_get_reads [of rsv s home k f s' r] by (simp add: local_ops_def)
next
  fix s k s' found
  assume "local_inv rsv s" "st_exists (local_ops rsv home) s k = (s', found)"
  then show "local_inv rsv s' \<and> local_objects home s' = local_objects home s \<and>
      (found = Inr False \<longrightarrow> (\<exists>ps. key_segments k = Inr ps \<and> (\<forall>p. strict_prefix ps p \<longrightarrow> local_objects home s p = None)))"
    using local_exists_reads [of rsv s home k s' found] by (simp add: local_ops_def)
next
  fix s k s' u
  assume "local_inv rsv s" "st_delete (local_ops rsv home) s k = (s', Inr u)"
  then show "local_inv rsv s' \<and> (\<exists>ps. key_segments k = Inr ps \<and>
      local_objects home s' = (\<lambda>p. if strict_prefix ps p then None else local_objects home s p))"
    using local_delete_done [of rsv s home k s' "Inr u"] by (simp add: local_ops_def)
next
  fix s k s' x
  assume "local_inv rsv s" "st_delete (local_ops rsv home) s k = (s', Inl x)"
  then show "local_inv rsv s' \<and> (\<forall>p. local_objects home s' p = local_objects home s p \<or>
      (local_objects home s' p = None \<and> (\<exists>ps. key_segments k = Inr ps \<and> strict_prefix ps p)))"
    using local_delete_done [of rsv s home k s' "Inl x"] by (simp add: local_ops_def)
qed

end
