(* ===== verification/Strategy_Store_Bucket.thy ===== *)
theory Strategy_Store_Bucket
  imports Strategy_Store_Contract
begin

text \<open>
  The bucket backend meets the store's contract when its client behaves as S3 documents it:
  \<open>stored\<close> is the bucket's content by object key.
\<close>

definition s3_put_documented :: "'s s3_client \<Rightarrow> ('s \<Rightarrow> string \<Rightarrow> string option) \<Rightarrow> bool" where
  "s3_put_documented client stored \<longleftrightarrow>
     (\<forall>s k b s' r. s3_put client s k b = (s', r) \<longrightarrow>
        (r = Inr () \<longrightarrow> stored s' = (stored s)(k \<mapsto> b)) \<and> (\<forall>k'. k' \<noteq> k \<longrightarrow> stored s' k' = stored s k'))"

definition s3_get_documented :: "'s s3_client \<Rightarrow> ('s \<Rightarrow> string \<Rightarrow> string option) \<Rightarrow> bool" where
  "s3_get_documented client stored \<longleftrightarrow>
     (\<forall>s k s' r. s3_get client s k = (s', r) \<longrightarrow>
        stored s' = stored s \<and> (\<forall>b. r = Inr b \<longrightarrow> stored s k = Some b) \<and>
        (r = Inl (ClientError ''NoSuchKey'') \<longrightarrow> stored s k = None) \<and> r \<noteq> Inl (OtherError StoreKeyError))"

text \<open>A listing that fails on no page has every key under the prefix.\<close>

definition s3_list_documented :: "'s s3_client \<Rightarrow> ('s \<Rightarrow> string \<Rightarrow> string option) \<Rightarrow> bool" where
  "s3_list_documented client stored \<longleftrightarrow>
     (\<forall>s pre s' pages. s3_pages client s pre = (s', pages) \<longrightarrow>
        stored s' = stored s \<and>
        (\<forall>k. list_all (\<lambda>p. \<not> isl p) pages \<longrightarrow> prefix pre k \<longrightarrow> stored s k \<noteq> None \<longrightarrow>
           (\<exists>ks. Inr ks \<in> set pages \<and> k \<in> set ks)))"

definition s3_delete_documented :: "'s s3_client \<Rightarrow> ('s \<Rightarrow> string \<Rightarrow> string option) \<Rightarrow> bool" where
  "s3_delete_documented client stored \<longleftrightarrow>
     (\<forall>s ks s' r. s3_delete client s ks = (s', r) \<longrightarrow>
        (\<forall>k. stored s' k = stored s k \<or> (k \<in> set ks \<and> stored s' k = None)) \<and>
        (\<forall>errs. r = Inr errs \<longrightarrow> (\<forall>k \<in> set ks. k \<notin> set errs \<longrightarrow> stored s' k = None)))"

definition s3_documented :: "'s s3_client \<Rightarrow> ('s \<Rightarrow> string \<Rightarrow> string option) \<Rightarrow> bool" where
  "s3_documented client stored \<longleftrightarrow> s3_put_documented client stored \<and> s3_get_documented client stored \<and>
     s3_list_documented client stored \<and> s3_delete_documented client stored"

definition s3_objects :: "('s \<Rightarrow> string \<Rightarrow> string option) \<Rightarrow> string \<Rightarrow> 's \<Rightarrow> string list \<Rightarrow> string option" where
  "s3_objects stored base s p =
     (if p \<noteq> [] \<and> list_all valid_name p then stored s (base @ join_with sep p) else None)"

section \<open>Keys\<close>

lemma object_key_Inr:
  assumes "object_key base key f = Inr k"
  shows "\<exists>ps. key_segments key = Inr ps \<and> ps \<noteq> [] \<and> list_all valid_name ps \<and> valid_name f \<and> k = base @ join_with sep (ps @ [f])"
proof -
  from assms obtain ps where ps: "key_segments key = Inr ps" "valid_name f" "k = (base @ join_with sep ps @ [sep]) @ f"
    by (auto simp: object_key_def prefix_for_def ebind_Inr_iff dest!: object_name_Inr)
  with key_segments_Inr [OF ps(1)] show ?thesis by (auto simp: join_append)
qed

lemma object_key_Inl: "object_key base key f = Inl x \<Longrightarrow> x = StoreValueError"
  by (auto simp: object_key_def prefix_for_def ebind_Inl_iff ebind_Inr_iff key_segments_def Let_def
      split: if_splits dest: object_name_Inl emap_object_name_Inl)

lemma base_join_inj:
  "p \<noteq> [] \<Longrightarrow> list_all valid_name p \<Longrightarrow> q \<noteq> [] \<Longrightarrow> list_all valid_name q \<Longrightarrow>
   (base @ join_with sep p = base @ join_with sep q) = (p = q)"
  using join_inj [of p q] by auto

lemma base_prefix_under:
  "ps \<noteq> [] \<Longrightarrow> list_all valid_name ps \<Longrightarrow> p \<noteq> [] \<Longrightarrow> list_all valid_name p \<Longrightarrow>
   prefix (base @ join_with sep ps @ [sep]) (base @ join_with sep p) \<longleftrightarrow> strict_prefix ps p"
  using prefix_under [of ps p] by simp

section \<open>Listings\<close>

lemma yield_page_sound: "yield_page pre markers ks = (ys, x) \<Longrightarrow> set ys \<subseteq> set ks \<and> list_all (prefix pre) ys"
  by (induction pre markers ks arbitrary: ys x rule: yield_page.induct) (fastforce split: if_splits prod.splits)+

lemma yield_page_complete:
  "yield_page pre markers ks = (ys, None) \<Longrightarrow> k \<in> set ks \<Longrightarrow> markers \<or> k = [] \<or> last k \<noteq> sep \<Longrightarrow> k \<in> set ys"
  by (induction pre markers ks arbitrary: ys rule: yield_page.induct) (fastforce split: if_splits prod.splits)+

lemma yield_pages_sound: "yield_pages pre markers pages = (ys, x) \<Longrightarrow> list_all (prefix pre) ys"
  by (induction pre markers pages arbitrary: ys x rule: yield_pages.induct)
     (fastforce split: prod.splits option.splits dest: yield_page_sound)+

lemma yield_pages_complete:
  "yield_pages pre markers pages = (ys, None) \<Longrightarrow> list_all (\<lambda>p. \<not> isl p) pages \<and>
     (\<forall>ks k. Inr ks \<in> set pages \<longrightarrow> k \<in> set ks \<longrightarrow> markers \<or> k = [] \<or> last k \<noteq> sep \<longrightarrow> k \<in> set ys)"
proof (induction pre markers pages arbitrary: ys rule: yield_pages.induct)
  case (3 pre markers ks ps)
  then obtain us zs where u: "yield_page pre markers ks = (us, None)" "yield_pages pre markers ps = (zs, None)" "ys = us @ zs"
    by (auto split: prod.splits option.splits)
  from 3(1) [OF u(1) [symmetric] refl u(2)] yield_page_complete [OF u(1)] u(3) show ?case by auto
qed auto

lemma list_keys_complete:
  assumes "s3_list_documented client stored" "list_keys client s pre markers = (s', (ys, None))"
    "prefix pre k" "stored s k \<noteq> None" "markers \<or> k = [] \<or> last k \<noteq> sep"
  shows "k \<in> set ys"
proof -
  obtain pages where p: "s3_pages client s pre = (s', pages)" "yield_pages pre markers pages = (ys, None)"
    using assms(2) by (auto simp: list_keys_def split: prod.splits)
  note y = yield_pages_complete [OF p(2)]
  have "\<exists>ks. Inr ks \<in> set pages \<and> k \<in> set ks"
    using assms(1) [unfolded s3_list_documented_def, rule_format, OF p(1)] y assms(3,4) by blast
  then show ?thesis using y assms(5) by blast
qed

lemma list_keys_frame:
  assumes "s3_list_documented client stored" "list_keys client s pre markers = (s', (ys, x))"
  shows "stored s' = stored s" "list_all (prefix pre) ys"
proof -
  obtain pages where p: "s3_pages client s pre = (s', pages)" "yield_pages pre markers pages = (ys, x)"
    using assms(2) by (auto simp: list_keys_def split: prod.splits)
  from assms(1) [unfolded s3_list_documented_def, rule_format, OF p(1)] show "stored s' = stored s" by blast
  show "list_all (prefix pre) ys" by (rule yield_pages_sound [OF p(2)])
qed

section \<open>The sweep\<close>

lemma delete_chunks_sweeps:
  assumes doc: "s3_delete_documented client stored"
  shows "delete_chunks client n s ks fs = (s', r) \<Longrightarrow> 0 < n \<Longrightarrow>
    (\<forall>k. stored s' k = stored s k \<or> (k \<in> set ks \<and> stored s' k = None)) \<and>
    (\<forall>errs. r = Inr errs \<longrightarrow> set fs \<subseteq> set errs \<and> (\<forall>k \<in> set ks. k \<notin> set errs \<longrightarrow> stored s' k = None))"
proof (induction "length ks" arbitrary: s ks fs rule: less_induct)
  case less
  show ?case
  proof (cases "ks = []")
    case True
    with less.prems(1) delete_chunks.simps [of client n s "[]" fs] have "s' = s" "r = Inr fs" by simp_all
    with True show ?thesis by simp
  next
    case False
    obtain s1 q where d: "s3_delete client s (take n ks) = (s1, q)" by fastforce
    note dd = doc [unfolded s3_delete_documented_def, rule_format, OF d]
    have tk: "set (take n ks) \<subseteq> set ks" by (rule set_take_subset)
    show ?thesis
    proof (cases q)
      case (Inl x)
      with less.prems False d delete_chunks.simps [of client n s ks fs] have "s' = s1" "\<exists>y. r = Inl y" by auto
      with dd tk show ?thesis by auto
    next
      case (Inr errs)
      with less.prems False d have rest: "delete_chunks client n s1 (drop n ks) (fs @ errs) = (s', r)"
        using delete_chunks.simps [of client n s ks fs] by simp
      have len: "length (drop n ks) < length ks" using False less.prems(2) by simp
      note ih = less.hyps [OF len rest less.prems(2)]
      have dr: "set (drop n ks) \<subseteq> set ks" by (rule set_drop_subset)
      have un: "set ks = set (take n ks) \<union> set (drop n ks)" by (metis append_take_drop_id set_append)
      have A: "stored s' k = stored s k \<or> (k \<in> set ks \<and> stored s' k = None)" for k
        using ih dd tk dr by (metis subsetD)
      have B: "stored s' k = None" if "r = Inr es" "k \<in> set ks" "k \<notin> set es" for es k
      proof (cases "k \<in> set (drop n ks)")
        case True
        with ih that show ?thesis by blast
      next
        case False
        with that un have "k \<in> set (take n ks)" by blast
        moreover have "k \<notin> set errs" using ih that by auto
        ultimately have "stored s1 k = None" using dd Inr by blast
        then show ?thesis using ih by metis
      qed
      from A B ih show ?thesis by auto
    qed
  qed
qed

section \<open>The contract\<close>

lemma s3_put_done:
  assumes doc: "s3_documented client stored" and put: "s3_store_put client base s k f c = (s', r)"
  shows "(r = Inr () \<longrightarrow> valid_name f \<and>
      (\<exists>ps. key_segments k = Inr ps \<and> s3_objects stored base s' = (s3_objects stored base s)(ps @ [f] \<mapsto> c))) \<and>
    (\<forall>p. s3_objects stored base s' p = s3_objects stored base s p \<or> (\<exists>ps. key_segments k = Inr ps \<and> p = ps @ [f]))"
proof (cases "object_key base k f")
  case (Inl x)
  with put show ?thesis by (auto simp: s3_store_put_def)
next
  case (Inr ok)
  from object_key_Inr [OF this] obtain ps where ps: "key_segments k = Inr ps" "ps \<noteq> []" "list_all valid_name ps"
    "valid_name f" "ok = base @ join_with sep (ps @ [f])" by auto
  obtain s1 q where q: "s3_put client s ok c = (s1, q)" by fastforce
  with put Inr have s1: "s' = s1" "r = Inr () \<longleftrightarrow> q = Inr ()" by (auto simp: s3_store_put_def split: sum.splits)
  from doc q have d: "q = Inr () \<Longrightarrow> stored s1 = (stored s)(ok \<mapsto> c)" "\<And>k'. k' \<noteq> ok \<Longrightarrow> stored s1 k' = stored s k'"
    by (auto simp: s3_documented_def s3_put_documented_def)
  have other: "s3_objects stored base s' p = s3_objects stored base s p" if "p \<noteq> ps @ [f]" for p
    using that d(2) [of "base @ join_with sep p"] ps s1(1) base_join_inj [of p "ps @ [f]" base]
    by (auto simp: s3_objects_def)
  have here: "s3_objects stored base s' (ps @ [f]) = Some c" if "r = Inr ()"
    using that d(1) s1 ps by (simp add: s3_objects_def)
  from other here ps(1,4) show ?thesis by (auto simp: fun_eq_iff)
qed

lemma s3_get_reads:
  assumes doc: "s3_documented client stored" and get: "s3_store_get client base s k f = (s', r)"
  shows "s3_objects stored base s' = s3_objects stored base s \<and>
      (\<forall>c. r = Inr c \<longrightarrow> (\<exists>ps. key_segments k = Inr ps \<and> s3_objects stored base s (ps @ [f]) = Some c)) \<and>
      (r = Inl StoreKeyError \<longrightarrow> (\<exists>ps. key_segments k = Inr ps \<and> s3_objects stored base s (ps @ [f]) = None))"
proof (cases "object_key base k f")
  case (Inl x)
  with get object_key_Inl [OF Inl] show ?thesis by (auto simp: s3_store_get_def)
next
  case (Inr ok)
  from object_key_Inr [OF this] obtain ps where ps: "key_segments k = Inr ps" "ps \<noteq> []" "list_all valid_name ps"
    "valid_name f" "ok = base @ join_with sep (ps @ [f])" by auto
  obtain s1 q where q: "s3_get client s ok = (s1, q)" by fastforce
  from doc q have d: "stored s1 = stored s" "\<And>b. q = Inr b \<Longrightarrow> stored s ok = Some b"
    "q = Inl (ClientError ''NoSuchKey'') \<Longrightarrow> stored s ok = None" "q \<noteq> Inl (OtherError StoreKeyError)"
    by (auto simp: s3_documented_def s3_get_documented_def)
  have here: "s3_objects stored base s (ps @ [f]) = stored s ok" using ps by (simp add: s3_objects_def)
  have s1: "s' = s1" using get Inr q by (auto simp: s3_store_get_def split: sum.splits)
  have "q = Inr c" if "r = Inr c" for c using that get Inr q by (auto simp: s3_store_get_def split: sum.splits)
  moreover have "q = Inl (ClientError ''NoSuchKey'')" if "r = Inl StoreKeyError"
    using that get Inr q d(4)
    by (auto simp: s3_store_get_def translate_exn_def split: sum.splits s3_exn.splits if_splits)
  ultimately show ?thesis using d s1 ps(1) here by (auto simp: s3_objects_def fun_eq_iff)
qed

lemma s3_exists_reads:
  assumes doc: "s3_documented client stored" and ex: "s3_store_exists client base s k = (s', found)"
  shows "s3_objects stored base s' = s3_objects stored base s \<and>
      (found = Inr False \<longrightarrow> (\<exists>ps. key_segments k = Inr ps \<and> (\<forall>p. strict_prefix ps p \<longrightarrow> s3_objects stored base s p = None)))"
proof (cases "key_segments k")
  case (Inl x)
  with ex show ?thesis by (auto simp: s3_store_exists_def prefix_for_def)
next
  case (Inr ps)
  let ?pre = "base @ join_with sep ps @ [sep]"
  note v = key_segments_Inr [OF Inr]
  obtain s1 ys x where l: "list_keys client s ?pre False = (s1, (ys, x))" by (metis surj_pair)
  have ld: "s3_list_documented client stored" using doc by (simp add: s3_documented_def)
  have s1: "s' = s1" "found = Inr False \<Longrightarrow> ys = [] \<and> x = None"
    using ex Inr l by (auto simp: s3_store_exists_def prefix_for_def split: list.splits option.splits)
  have "s3_objects stored base s p = None" if "found = Inr False" "strict_prefix ps p" for p
  proof (rule ccontr)
    assume "s3_objects stored base s p \<noteq> None"
    then have p: "p \<noteq> []" "list_all valid_name p" "stored s (base @ join_with sep p) \<noteq> None"
      by (auto simp: s3_objects_def split: if_splits)
    have "last (base @ join_with sep p) \<noteq> sep" using join_last [OF p(1,2)] by simp
    moreover have "prefix ?pre (base @ join_with sep p)" using base_prefix_under v p that(2) by blast
    ultimately have "base @ join_with sep p \<in> set ys"
      using list_keys_complete [OF ld _ _ p(3)] l s1(2) [OF that(1)] by blast
    with s1(2) [OF that(1)] show False by simp
  qed
  then show ?thesis using list_keys_frame(1) [OF ld l] s1(1) Inr by (auto simp: s3_objects_def fun_eq_iff)
qed

lemma s3_delete_sweeps:
  assumes doc: "s3_documented client stored" and del: "s3_store_delete client base s k = (s', r)"
  shows "(\<forall>p. s3_objects stored base s' p = s3_objects stored base s p \<or>
        (s3_objects stored base s' p = None \<and> (\<exists>ps. key_segments k = Inr ps \<and> strict_prefix ps p))) \<and>
      (r = Inr () \<longrightarrow> (\<exists>ps. key_segments k = Inr ps \<and>
        s3_objects stored base s' = (\<lambda>p. if strict_prefix ps p then None else s3_objects stored base s p)))"
proof (cases "key_segments k")
  case (Inl x)
  with del show ?thesis by (auto simp: s3_store_delete_def prefix_for_def)
next
  case (Inr ps)
  let ?pre = "base @ join_with sep ps @ [sep]"
  note v = key_segments_Inr [OF Inr]
  obtain s1 ys x where l: "list_keys client s ?pre True = (s1, (ys, x))" by (metis surj_pair)
  have ld: "s3_list_documented client stored" and dd: "s3_delete_documented client stored"
    using doc by (simp_all add: s3_documented_def)
  note fr = list_keys_frame [OF ld l]
  obtain s2 q where c: "delete_chunks client delete_batch s1 ys [] = (s2, q)" by fastforce
  have pos: "0 < delete_batch" by (simp add: delete_batch_def)
  note sw = delete_chunks_sweeps [OF dd c pos]
  show ?thesis
  proof (cases x)
    case (Some e)
    with del Inr l have "s' = s1" "r = Inl e" by (auto simp: s3_store_delete_def prefix_for_def)
    with fr(1) show ?thesis by (auto simp: s3_objects_def)
  next
    case None
    have s': "s' = s2" "r = Inr () \<Longrightarrow> q = Inr []"
      using del Inr l None c by (auto simp: s3_store_delete_def prefix_for_def split: sum.splits if_splits)
    have A: "s3_objects stored base s' p = s3_objects stored base s p \<or> (s3_objects stored base s' p = None \<and> strict_prefix ps p)" for p
    proof (cases "p \<noteq> [] \<and> list_all valid_name p")
      case True
      let ?k = "base @ join_with sep p"
      from sw fr(1) have "stored s2 ?k = stored s ?k \<or> (?k \<in> set ys \<and> stored s2 ?k = None)" by metis
      moreover have "strict_prefix ps p" if "?k \<in> set ys"
        using fr(2) that base_prefix_under [of ps p base] v True by (auto simp: list_all_iff)
      ultimately show ?thesis using True s'(1) by (auto simp: s3_objects_def)
    qed (auto simp: s3_objects_def)
    have B: "s3_objects stored base s' p = None" if "r = Inr ()" "strict_prefix ps p" for p
    proof (rule ccontr)
      assume n: "s3_objects stored base s' p \<noteq> None"
      then have p: "p \<noteq> []" "list_all valid_name p" "stored s2 (base @ join_with sep p) \<noteq> None"
        using s'(1) by (auto simp: s3_objects_def split: if_splits)
      then have st: "stored s (base @ join_with sep p) \<noteq> None" using sw fr(1) by metis
      have "prefix ?pre (base @ join_with sep p)" using base_prefix_under v p that(2) by blast
      then have "base @ join_with sep p \<in> set ys"
        using list_keys_complete [OF ld l [unfolded None] _ st] by blast
      with sw s'(2) [OF that(1)] p(3) show False by auto
    qed
    have C: "s3_objects stored base s' = (\<lambda>p. if strict_prefix ps p then None else s3_objects stored base s p)" if "r = Inr ()"
      using A B [OF that] by (auto simp: fun_eq_iff)
    from A C Inr show ?thesis by auto
  qed
qed

interpretation s3_store: strategy_store "s3_ops client base" "s3_objects stored base" "\<lambda>_. s3_documented client stored"
proof unfold_locales
  fix s k f c s' u
  assume "s3_documented client stored" "st_put (s3_ops client base) s k f c = (s', Inr u)"
  then show "s3_documented client stored \<and> valid_name f \<and>
      (\<exists>ps. key_segments k = Inr ps \<and> s3_objects stored base s' = (s3_objects stored base s)(ps @ [f] \<mapsto> c))"
    using s3_put_done [of client stored base s k f c s' "Inr u"] by (simp add: s3_ops_def)
next
  fix s k f c s' x
  assume "s3_documented client stored" "st_put (s3_ops client base) s k f c = (s', Inl x)"
  then show "s3_documented client stored \<and> (\<forall>p. s3_objects stored base s' p = s3_objects stored base s p \<or>
      (\<exists>ps. key_segments k = Inr ps \<and> p = ps @ [f]))"
    using s3_put_done [of client stored base s k f c s' "Inl x"] by (simp add: s3_ops_def)
next
  fix s k f s' and r :: "store_exn + string"
  assume "s3_documented client stored" "st_get (s3_ops client base) s k f = (s', r)"
  then show "s3_documented client stored \<and> s3_objects stored base s' = s3_objects stored base s \<and>
      (\<forall>c. r = Inr c \<longrightarrow> (\<exists>ps. key_segments k = Inr ps \<and> s3_objects stored base s (ps @ [f]) = Some c)) \<and>
      (r = Inl StoreKeyError \<longrightarrow> (\<exists>ps. key_segments k = Inr ps \<and> s3_objects stored base s (ps @ [f]) = None))"
    using s3_get_reads [of client stored base s k f s' r] by (simp add: s3_ops_def)
next
  fix s k s' found
  assume "s3_documented client stored" "st_exists (s3_ops client base) s k = (s', found)"
  then show "s3_documented client stored \<and> s3_objects stored base s' = s3_objects stored base s \<and>
      (found = Inr False \<longrightarrow> (\<exists>ps. key_segments k = Inr ps \<and> (\<forall>p. strict_prefix ps p \<longrightarrow> s3_objects stored base s p = None)))"
    using s3_exists_reads [of client stored base s k s' found] by (simp add: s3_ops_def)
next
  fix s k s' u
  assume "s3_documented client stored" "st_delete (s3_ops client base) s k = (s', Inr u)"
  then show "s3_documented client stored \<and> (\<exists>ps. key_segments k = Inr ps \<and>
      s3_objects stored base s' = (\<lambda>p. if strict_prefix ps p then None else s3_objects stored base s p))"
    using s3_delete_sweeps [of client stored base s k s' "Inr u"] by (simp add: s3_ops_def)
next
  fix s k s' x
  assume "s3_documented client stored" "st_delete (s3_ops client base) s k = (s', Inl x)"
  then show "s3_documented client stored \<and> (\<forall>p. s3_objects stored base s' p = s3_objects stored base s p \<or>
      (s3_objects stored base s' p = None \<and> (\<exists>ps. key_segments k = Inr ps \<and> strict_prefix ps p)))"
    using s3_delete_sweeps [of client stored base s k s' "Inl x"] by (simp add: s3_ops_def)
qed

end
