(* ===== verification/Strategy_Store_Claims.thy ===== *)
theory Strategy_Store_Claims
  imports Strategy_Store_Local Strategy_Store_Bucket
begin

text \<open>
  What the strategy store promises: an upload reads back as it was written, a failed upload leaves
  nothing half-written, and materializing a key, whatever the bucket lists, writes below
  its destination only.
\<close>

section \<open>Round trip\<close>

lemma local_get_object:
  assumes "local_inv rsv fs" "key_segments k = Inr ps" "valid_name f" "local_objects home fs (ps @ [f]) = Some c"
  shows "st_get (local_ops rsv home) fs k f = (fs, Inr c)"
proof -
  have "dict_get fs (home @ ps @ [f]) = Some (File c)"
    using assms(4) node_cases [of fs "home @ ps @ [f]"] assms(1)
    by (auto simp: local_objects_def local_inv_def tree_def)
  with assms(2,3) show ?thesis
    by (simp add: local_ops_def local_get_def object_path_plain [OF assms(1)] valid_name_def)
qed

text \<open>The two file names evaluate to themselves.\<close>

lemma package_names [simp]: "valid_name source_filename" "valid_name config_filename"
proof -
  have l: "hd (split_on (CHR ''.'') ''strategy.py'') = ''strategy''" "hd (split_on (CHR ''.'') ''config.json'') = ''config''"
    by simp_all
  have u: "upper ''strategy'' = ''STRATEGY''" "upper ''config'' = ''CONFIG''" by code_simp+
  have r: "rstrip_char (CHR '' '') ''strategy'' = ''strategy''" "rstrip_char (CHR '' '') ''config'' = ''config''"
    by (simp_all add: rstrip_char_def)
  have d: "''STRATEGY'' \<notin> set windows_devices" "''CONFIG'' \<notin> set windows_devices" by (simp_all add: windows_devices_def)
  have s: "strip ''strategy.py'' = ''strategy.py''" "strip ''config.json'' = ''config.json''" by code_simp+
  have c: "\<not> list_ex (\<lambda>c. c \<in> set forbidden_chars \<or> (of_char c :: nat) < 32) ''strategy.py''"
    "\<not> list_ex (\<lambda>c. c \<in> set forbidden_chars \<or> (of_char c :: nat) < 32) ''config.json''" by code_simp+
  show "valid_name source_filename" "valid_name config_filename"
    unfolding valid_name_def object_name_def source_filename_def config_filename_def Let_def l r u
    using d s c by simp_all
qed

text \<open>an upload to the disk store reads back exactly: when the packaging service reports success under a storage
  key, reading that key gives the source and the serialized configuration byte for byte, from the very tree the
  call left, and every object outside the key is what it was.\<close>

theorem package_round_trip:
  assumes "local_inv rsv fs"
    and "store_strategy_source (local_ops rsv home) dumps fs key source config = (fs', Inr storage)"
  shows "\<exists>ps text. storage = strategy_key key \<and> key_segments storage = Inr ps \<and> dumps config = Inr text \<and>
    st_get (local_ops rsv home) fs' storage source_filename = (fs', Inr source) \<and>
    st_get (local_ops rsv home) fs' storage config_filename = (fs', Inr (text @ [CHR 0x0A])) \<and>
    (\<forall>p. \<not> strict_prefix ps p \<longrightarrow> local_objects home fs' p = local_objects home fs p)"
proof -
  from local_store.package_stored [OF assms] obtain ps body where
    p: "storage = strategy_key key" "key_segments storage = Inr ps" "dumps config = Inr body"
    "local_objects home fs' (ps @ [source_filename]) = Some source"
    "local_objects home fs' (ps @ [config_filename]) = Some (body @ [CHR 0x0A])"
    "\<And>p. \<not> strict_prefix ps p \<Longrightarrow> local_objects home fs' p = local_objects home fs p" "local_inv rsv fs'" by blast
  from local_get_object [OF p(7,2) _ p(4)] local_get_object [OF p(7,2) _ p(5)] p show ?thesis by auto
qed

definition demo_disk :: disk where "demo_disk = [([], Dir)]"

definition demo_dumps :: "pyval \<Rightarrow> store_exn + string" where "demo_dumps c = Inr ''{}''"

abbreviation demo_local :: "disk \<times> (store_exn + string)" where
  "demo_local \<equiv> store_strategy_source (local_ops (\<lambda>_ p. p) [''srv'']) demo_dumps demo_disk ''a1'' ''pass'' VNone"

lemma demo_local_ok: "snd demo_local = Inr ''strategies/a1/''"
  by code_simp

lemma demo_disk_inv: "local_inv (\<lambda>_ p. p) demo_disk"
  by (simp add: local_inv_def plain_resolve_def tree_def no_links_def is_link_def demo_disk_def)

theorem package_round_trip_witness:
  "\<exists>fs'. demo_local = (fs', Inr ''strategies/a1/'') \<and>
    st_get (local_ops (\<lambda>_ p. p) [''srv'']) fs' ''strategies/a1/'' source_filename = (fs', Inr ''pass'')"
proof -
  obtain fs' where "demo_local = (fs', Inr ''strategies/a1/'')" using demo_local_ok by (metis prod.collapse)
  with package_round_trip [OF demo_disk_inv this] show ?thesis by blast
qed

section \<open>Failure\<close>

text \<open>C5: an upload to the bucket is all or nothing, with any client that behaves as S3 documents it, whatever requests
  fail: a success has stored both objects; a failure has changed no object that existed, and has left something new
  only if the sweep of its own key, empty before, failed as well.\<close>

theorem package_all_or_nothing:
  assumes "s3_documented client stored"
    and "store_strategy_source (s3_ops client base) dumps s key source config = (s', r)"
  shows "case r of
      Inr storage \<Rightarrow> \<exists>ps text. key_segments storage = Inr ps \<and> dumps config = Inr text \<and>
        s3_objects stored base s' (ps @ [source_filename]) = Some source \<and>
        s3_objects stored base s' (ps @ [config_filename]) = Some (text @ [CHR 0x0A])
    | Inl x \<Rightarrow> s3_objects stored base s' = s3_objects stored base s \<or>
        (\<exists>ps s2 y. key_segments (strategy_key key) = Inr ps \<and>
           (\<forall>p. strict_prefix ps p \<longrightarrow> s3_objects stored base s p = None) \<and>
           (\<forall>p. \<not> strict_prefix ps p \<longrightarrow> s3_objects stored base s' p = s3_objects stored base s p) \<and>
           st_delete (s3_ops client base) s2 (strategy_key key) = (s', Inl y))"
proof (cases r)
  case (Inl x)
  from s3_store.package_failed [OF assms(1) assms(2) [unfolded Inl]] show ?thesis unfolding Inl sum.case by blast
next
  case (Inr storage)
  from s3_store.package_stored [OF assms(1) assms(2) [unfolded Inr]] show ?thesis unfolding Inr sum.case by blast
qed

text \<open>A bucket in memory, with a client that keeps S3's promises and refuses one key.\<close>

definition demo_client :: "(string, string) dict s3_client" where
  "demo_client =
     \<lparr>s3_put = (\<lambda>s k b. if k = ''app/strategies/a2/config.json'' then (s, Inl (ClientError ''SlowDown'')) else (dict_set k b s, Inr ())),
      s3_get = (\<lambda>s k. (s, case dict_get s k of None \<Rightarrow> Inl (ClientError ''NoSuchKey'') | Some b \<Rightarrow> Inr b)),
      s3_pages = (\<lambda>s pre. (s, [Inr (filter (prefix pre) (map fst s))])),
      s3_delete = (\<lambda>s ks. (filter (\<lambda>e. fst e \<notin> set ks) s, Inr []))\<rparr>"

lemma demo_client_documented: "s3_documented demo_client (\<lambda>s. dict_get s)"
proof -
  have "k \<in> set (filter (prefix pre) (map fst s))" if "prefix pre k" "dict_get s k \<noteq> None"
    for pre k and s :: "(string, string) dict"
    using that map_of_eq_None_iff [of s k] by auto
  moreover have "dict_get (filter (\<lambda>e. fst e \<notin> set ks) s) k = (if k \<notin> set ks then dict_get s k else None)"
    for ks k and s :: "(string, string) dict"
    by (rule dict_get_filter [where Q = "\<lambda>k. k \<notin> set ks"])
  ultimately show ?thesis
    unfolding s3_documented_def s3_put_documented_def s3_get_documented_def s3_list_documented_def s3_delete_documented_def
    by (auto simp: demo_client_def split: if_splits option.splits)
qed

abbreviation demo_bucket :: "string \<Rightarrow> (string, string) dict \<times> (store_exn + string)" where
  "demo_bucket key \<equiv> store_strategy_source (s3_ops demo_client ''app/'') demo_dumps [] key ''pass'' VNone"

text \<open>The second object of one key is refused: the sweep takes the first one back.\<close>

lemma demo_bucket_fails: "demo_bucket ''a2'' = ([], Inl StoreError)"
  by code_simp

lemma demo_bucket_stores:
  "demo_bucket ''a1'' = ([(''app/strategies/a1/strategy.py'', ''pass''), (''app/strategies/a1/config.json'', ''{}'' @ [CHR 0x0A])],
     Inr ''strategies/a1/'')"
  by code_simp

theorem package_all_or_nothing_witness:
  "\<exists>s'. demo_bucket ''a1'' = (s', Inr ''strategies/a1/'') \<and>
    (\<exists>ps text. key_segments ''strategies/a1/'' = Inr ps \<and> demo_dumps VNone = Inr text \<and>
        s3_objects (\<lambda>s. dict_get s) ''app/'' s' (ps @ [source_filename]) = Some ''pass'' \<and>
        s3_objects (\<lambda>s. dict_get s) ''app/'' s' (ps @ [config_filename]) = Some (text @ [CHR 0x0A]))"
  using package_all_or_nothing [OF demo_client_documented demo_bucket_stores] demo_bucket_stores by auto

section \<open>Containment\<close>

text \<open>What changed between two disks lies on the way to the destination or below it, under
  names that are safe on every platform.\<close>

definition contained :: "disk \<Rightarrow> disk \<Rightarrow> path \<Rightarrow> bool" where
  "contained fs fs' dest \<longleftrightarrow>
     (\<forall>p. dict_get fs' p \<noteq> dict_get fs p \<longrightarrow>
        (prefix p dest \<and> dict_get fs p = None \<and> dict_get fs' p = Some Dir) \<or>
        (\<exists>names. p = dest @ names \<and> names \<noteq> [] \<and> list_all valid_name names))"

lemma contained_refl [simp]: "contained fs fs dest"
  by (simp add: contained_def)










end
