(* ===== verification/Intraday.thy ===== *)
theory Intraday
  imports Prelude
begin

text \<open>
  The intraday loader, \<open>engine/data/intraday.py\<close>. Instants are New York wall clock in
  microseconds, days their day number. The stored table is a list of rows, and the two SQL texts are
  the definitions \<open>spacing_query\<close> and \<open>bucket_query\<close>; \<open>db_up\<close> says which queries
  complete. The FMP client is a parameter: \<open>fmp_history\<close> is what a request returns. The
  \<open>while\<close> loops are partial functions: a loop that does not end is \<open>None\<close>.
\<close>

section \<open>Data\<close>

datatype intraday_exn = MarketDataUnavailable string | ResolutionUnavailable | FmpUnavailable
  | NoMarketDataFor "string list" | UnsupportedInterval | EmptyWindow

abbreviation minute_us :: int where "minute_us \<equiv> 60000000"

definition session_open :: int where "session_open = 570 * minute_us"

definition session_close :: int where "session_close = 960 * minute_us"

definition fmp_interval_labels :: "(int, string) dict" where
  "fmp_interval_labels = [(1, ''1min''), (5, ''5min''), (15, ''15min''), (30, ''30min''), (60, ''1hour'')]"

definition fmp_chunk_days :: "(int, int) dict" where
  "fmp_chunk_days = [(1, 3), (5, 7), (15, 30), (30, 21), (60, 60)]"

definition db_ticker_chunk :: nat where "db_ticker_chunk = 10"

definition db_slab_days :: int where "db_slab_days = 30"

definition spacing_sample_days :: int where "spacing_sample_days = 5"

definition spacing_sample_every_days :: int where "spacing_sample_every_days = 60"

definition late_start_tolerance_days :: int where "late_start_tolerance_days = 4"

text \<open>A row of the table or a bar; a null column is \<open>None\<close>.\<close>

record price_row =
  pr_ticker :: string
  pr_at :: int
  pr_open :: "real option"
  pr_high :: "real option"
  pr_low :: "real option"
  pr_close :: "real option"
  pr_volume :: "real option"

definition in_session :: "int \<Rightarrow> bool" where
  "in_session t \<longleftrightarrow> session_open \<le> t mod day_us \<and> t mod day_us < session_close"

definition label_bar_close :: "int \<Rightarrow> int \<Rightarrow> int" where
  "label_bar_close start minutes =
     (let stop = start + minutes * minute_us; close = start div day_us * day_us + session_close in
      if stop \<le> close then stop else close)"

definition row_key :: "price_row \<Rightarrow> int \<times> string" where
  "row_key r = (pr_at r, pr_ticker r)"

definition dedup_sort :: "price_row list \<Rightarrow> price_row list" where
  "dedup_sort rows = sort_key row_key (keep_last row_key rows)"

definition finalize :: "price_row list \<Rightarrow> int \<Rightarrow> price_row list" where
  "finalize rows minutes =
     dedup_sort (filter (\<lambda>r. pr_close r \<noteq> None)
       (map (\<lambda>r. r\<lparr>pr_at := label_bar_close (pr_at r) minutes\<rparr>) (filter (\<lambda>r. in_session (pr_at r)) rows)))"

section \<open>Windows\<close>

text \<open>Consecutive inclusive windows: each starts the day after the one before ended.\<close>

partial_function (option) day_windows :: "int \<Rightarrow> int \<Rightarrow> int \<Rightarrow> (int \<times> int) list option" where
  "day_windows width start stop =
     (if start \<le> stop
      then let chunk_end = min stop (start + width) in
           Option.bind (day_windows width (chunk_end + 1) stop) (\<lambda>ws. Some ((start, chunk_end) # ws))
      else Some [])"

definition fmp_chunks :: "int \<Rightarrow> int \<Rightarrow> int \<Rightarrow> (intraday_exn + (int \<times> int) list) option" where
  "fmp_chunks start stop minutes =
     (case dict_get fmp_chunk_days minutes of
        None \<Rightarrow> Some (Inl UnsupportedInterval)
      | Some days \<Rightarrow> Option.bind (day_windows (days - 1) start stop) (\<lambda>ws. Some (Inr ws)))"

definition db_slabs :: "int \<Rightarrow> int \<Rightarrow> (int \<times> int) list option" where
  "db_slabs start stop = day_windows (db_slab_days - 1) start stop"

partial_function (option) probe_loop :: "int \<Rightarrow> int \<Rightarrow> (int \<times> int) list option" where
  "probe_loop cursor stop =
     (if cursor \<le> stop
      then Option.bind (probe_loop (cursor + spacing_sample_every_days) stop)
             (\<lambda>ws. Some ((cursor, min stop (cursor + (spacing_sample_days - 1))) # ws))
      else Some [])"

declare day_windows.simps [code] probe_loop.simps [code]

definition spacing_probe_windows :: "int \<Rightarrow> int \<Rightarrow> (intraday_exn + (int \<times> int) list) option" where
  "spacing_probe_windows start stop =
     Option.bind (probe_loop start stop) (\<lambda>ws.
       let last_start = max start (stop - (spacing_sample_days - 1)) in
       if ws = [] then Some (Inl EmptyWindow)
       else if last_start \<le> snd (last ws) then Some (Inr (butlast ws @ [(fst (last ws), stop)]))
       else Some (Inr (ws @ [(last_start, stop)])))"

function chunks_of :: "nat \<Rightarrow> 'a list \<Rightarrow> 'a list list" where
  "chunks_of n xs = (if xs = [] \<or> n = 0 then [] else take n xs # chunks_of n (drop n xs))"
  by pat_completeness auto

termination
  by (relation "measure (\<lambda>(_, xs). length xs)") auto

declare chunks_of.simps [simp del]

lemma chunks_of_subset: "c \<in> set (chunks_of n xs) \<Longrightarrow> set c \<subseteq> set xs"
proof (induction n xs rule: chunks_of.induct)
  case (1 n xs)
  from 1(2) consider "xs \<noteq> []" "0 < n" "c = take n xs" | "xs \<noteq> []" "0 < n" "c \<in> set (chunks_of n (drop n xs))"
    by (subst (asm) chunks_of.simps) (auto split: if_splits)
  then show ?case
  proof cases
    case 2
    then have "set c \<subseteq> set (drop n xs)" by (intro 1(1)) auto
    then show ?thesis using set_drop_subset [of n xs] by blast
  qed (auto dest: in_set_takeD)
qed

section \<open>The database\<close>

record database =
  db_rows :: "price_row list"
  db_up :: "string \<Rightarrow> string list \<Rightarrow> int \<Rightarrow> int \<Rightarrow> bool"

definition run_query ::
  "database \<Rightarrow> string \<Rightarrow> string list \<Rightarrow> int \<Rightarrow> int \<Rightarrow> (price_row list \<Rightarrow> 'a) \<Rightarrow> intraday_exn + 'a" where
  "run_query db label tickers t_from t_to f =
     (if db_up db label tickers t_from t_to then Inr (f (db_rows db)) else Inl (MarketDataUnavailable label))"

text \<open>Midnight on the first day, and on the day after the last.\<close>

definition session_bounds :: "int \<Rightarrow> int \<Rightarrow> int \<times> int" where
  "session_bounds start stop = (start * day_us, (stop + 1) * day_us)"

definition session_rows :: "string list \<Rightarrow> int \<Rightarrow> int \<Rightarrow> price_row list \<Rightarrow> price_row list" where
  "session_rows tickers t_from t_to rows =
     filter (\<lambda>r. pr_ticker r \<in> set tickers \<and> t_from \<le> pr_at r \<and> pr_at r < t_to \<and> in_session (pr_at r)) rows"

text \<open>\<open>_SPACING_SQL\<close>: the gaps between consecutive rows of a ticker and day, the most frequent
  first, the shortest among equals.\<close>

definition ticker_day :: "price_row \<Rightarrow> string \<times> int" where
  "ticker_day r = (pr_ticker r, pr_at r div day_us)"

definition row_gaps :: "price_row list \<Rightarrow> int list" where
  "row_gaps rows =
     concat (map (\<lambda>k. let ts = sort (map pr_at (filter (\<lambda>r. ticker_day r = k) rows)) in
                      map (\<lambda>(a, b). b - a) (zip ts (tl ts)))
       (first_occurrences (map ticker_day rows)))"

definition commonest :: "int list \<Rightarrow> int option" where
  "commonest gaps =
     (case sort_key (\<lambda>g. (- int (count_list gaps g), g)) (remdups gaps) of [] \<Rightarrow> None | g # _ \<Rightarrow> Some g)"

definition spacing_query :: "string list \<Rightarrow> int \<Rightarrow> int \<Rightarrow> price_row list \<Rightarrow> int option" where
  "spacing_query tickers t_from t_to rows =
     commonest (filter (\<lambda>g. g > 0) (row_gaps (session_rows tickers t_from t_to rows)))"

text \<open>\<open>max(1, round(minutes))\<close>, a tie going to the even number.\<close>

definition whole_minutes :: "int \<Rightarrow> int" where
  "whole_minutes gap =
     (let q = gap div minute_us; r = gap mod minute_us in
      max 1 (if 2 * r < minute_us then q else if 2 * r > minute_us then q + 1 else if even q then q else q + 1))"

definition sample_spacings ::
  "database \<Rightarrow> string list \<Rightarrow> (int \<times> int) list \<Rightarrow> intraday_exn + int list" where
  "sample_spacings db tickers windows =
     ebind (emap (\<lambda>(a, b). let (t_from, t_to) = session_bounds a b in
              run_query db ''intraday spacing'' tickers t_from t_to (spacing_query tickers t_from t_to)) windows)
       (\<lambda>gaps. Inr (map whole_minutes (map the (filter (\<lambda>g. g \<noteq> None) gaps))))"

definition lcm_list :: "int list \<Rightarrow> int" where
  "lcm_list xs = foldr lcm xs 1"

definition stored_bar_minutes ::
  "database \<Rightarrow> string list \<Rightarrow> int \<Rightarrow> int \<Rightarrow> (intraday_exn + int option) option" where
  "stored_bar_minutes db tickers start stop =
     Option.bind (spacing_probe_windows start stop) (\<lambda>r.
       Some (ebind r (\<lambda>windows. ebind (sample_spacings db tickers windows) (\<lambda>spacings.
         Inr (if spacings = [] then None else Some (lcm_list spacings))))))"

definition require_resolution :: "int option \<Rightarrow> int \<Rightarrow> intraday_exn + unit" where
  "require_resolution stored minutes =
     (case stored of None \<Rightarrow> Inr ()
      | Some g \<Rightarrow> if minutes mod g = 0 then Inr () else Inl ResolutionUnavailable)"

text \<open>\<open>_BUCKET_SQL\<close>: one row per ticker, day and bucket since the open. An aggregate skips nulls,
  \<open>ARRAY_AGG\<close> does not.\<close>

definition bucket_index :: "int \<Rightarrow> price_row \<Rightarrow> int" where
  "bucket_index minutes r = (pr_at r mod day_us - session_open) div (minutes * minute_us)"

definition bucket_of :: "int \<Rightarrow> price_row \<Rightarrow> string \<times> int \<times> int" where
  "bucket_of minutes r = (pr_ticker r, pr_at r div day_us, bucket_index minutes r)"

definition agg :: "(real list \<Rightarrow> real) \<Rightarrow> real option list \<Rightarrow> real option" where
  "agg f xs = (let vs = map the (filter (\<lambda>x. x \<noteq> None) xs) in if vs = [] then None else Some (f vs))"

definition bucket_bar :: "int \<Rightarrow> price_row list \<Rightarrow> string \<times> int \<times> int \<Rightarrow> price_row" where
  "bucket_bar minutes rows k =
     (let g = sort_key pr_at (filter (\<lambda>r. bucket_of minutes r = k) rows) in
      \<lparr>pr_ticker = fst k, pr_at = fst (snd k) * day_us + session_open + snd (snd k) * minutes * minute_us,
       pr_open = pr_open (hd g), pr_high = agg (\<lambda>vs. foldr max vs (hd vs)) (map pr_high g),
       pr_low = agg (\<lambda>vs. foldr min vs (hd vs)) (map pr_low g), pr_close = pr_close (last g),
       pr_volume = agg sum_list (map pr_volume g)\<rparr>)"

definition bucket_query :: "int \<Rightarrow> string list \<Rightarrow> int \<Rightarrow> int \<Rightarrow> price_row list \<Rightarrow> price_row list" where
  "bucket_query minutes tickers t_from t_to rows =
     (let rs = session_rows tickers t_from t_to rows in
      map (bucket_bar minutes rs) (first_occurrences (map (bucket_of minutes) rs)))"

definition fetch_db_intraday_bars ::
  "database \<Rightarrow> string list \<Rightarrow> int \<Rightarrow> int \<Rightarrow> int \<Rightarrow> (intraday_exn + price_row list) option" where
  "fetch_db_intraday_bars db tickers start stop minutes =
     Option.bind (stored_bar_minutes db tickers start stop) (\<lambda>r.
       case ebind r (\<lambda>stored. require_resolution stored minutes) of
         Inl x \<Rightarrow> Some (Inl x)
       | Inr _ \<Rightarrow>
           Option.bind (db_slabs start stop) (\<lambda>slabs.
             Some (ebind (emap (\<lambda>((a, b), chunk). let (t_from, t_to) = session_bounds a b in
                            run_query db ''intraday bars'' chunk t_from t_to (bucket_query minutes chunk t_from t_to))
                          (concat (map (\<lambda>w. map (\<lambda>chunk. (w, chunk)) (chunks_of db_ticker_chunk tickers)) slabs)))
                     (\<lambda>parts. Inr (finalize (concat parts) minutes)))))"

section \<open>FMP\<close>

text \<open>A row of the payload; \<open>read_date\<close> is \<open>datetime.fromisoformat(str(v))\<close>.\<close>

type_synonym fmp_row = "(string, pyval) dict"

definition read_number :: "(string \<Rightarrow> pyfloat option) \<Rightarrow> fmp_row \<Rightarrow> string \<Rightarrow> py_exn + pyfloat" where
  "read_number fparse raw field =
     (case dict_get raw field of None \<Rightarrow> Inl KeyError | Some v \<Rightarrow> py_float fparse v)"

definition parse_fmp_row ::
  "(string \<Rightarrow> pyfloat option) \<Rightarrow> (pyval \<Rightarrow> int option) \<Rightarrow> string \<Rightarrow> fmp_row \<Rightarrow> py_exn + price_row" where
  "parse_fmp_row fparse read_date ticker raw =
     (case dict_get raw ''date'' of
        None \<Rightarrow> Inl KeyError
      | Some v \<Rightarrow>
          (case read_date v of None \<Rightarrow> Inl ValueError
           | Some start \<Rightarrow>
               ebind (emap (read_number fparse raw) [''open'', ''high'', ''low'', ''close'']) (\<lambda>prices.
               ebind (read_number fparse raw ''volume'') (\<lambda>volume.
                 if list_ex (\<lambda>p. \<not> isfinite p \<or> p \<le> 0) prices then Inl ValueError
                 else if \<not> isfinite volume \<or> volume < 0 then Inl ValueError
                 else Inr \<lparr>pr_ticker = ticker, pr_at = start, pr_open = Some (realval (prices ! 0)),
                           pr_high = Some (realval (prices ! 1)), pr_low = Some (realval (prices ! 2)),
                           pr_close = Some (realval (prices ! 3)), pr_volume = Some (realval volume)\<rparr>))))"

definition parse_fmp_intraday_rows ::
  "(string \<Rightarrow> pyfloat option) \<Rightarrow> (pyval \<Rightarrow> int option) \<Rightarrow> string \<Rightarrow> fmp_row list \<Rightarrow> int \<Rightarrow> intraday_exn + price_row list" where
  "parse_fmp_intraday_rows fparse read_date ticker payload minutes =
     (case emap (parse_fmp_row fparse read_date ticker) payload of
        Inl _ \<Rightarrow> Inl FmpUnavailable
      | Inr rows \<Rightarrow> Inr (finalize rows minutes))"

record fmp_source =
  fmp_history :: "string \<Rightarrow> string \<Rightarrow> int \<Rightarrow> int \<Rightarrow> intraday_exn + fmp_row list"
  fmp_fparse :: "string \<Rightarrow> pyfloat option"
  fmp_read_date :: "pyval \<Rightarrow> int option"

definition fetch_job :: "fmp_source \<Rightarrow> int \<Rightarrow> string \<Rightarrow> string \<times> int \<times> int \<Rightarrow> intraday_exn + price_row list" where
  "fetch_job src minutes interval job =
     (case job of (ticker, a, b) \<Rightarrow>
        ebind (fmp_history src ticker interval a b) (\<lambda>payload.
          parse_fmp_intraday_rows (fmp_fparse src) (fmp_read_date src) ticker payload minutes))"

definition fetch_fmp_intraday_bars ::
  "fmp_source \<Rightarrow> string list \<Rightarrow> int \<Rightarrow> int \<Rightarrow> int \<Rightarrow> (intraday_exn + price_row list) option" where
  "fetch_fmp_intraday_bars src tickers start stop minutes =
     (case dict_get fmp_interval_labels minutes of
        None \<Rightarrow> Some (Inl UnsupportedInterval)
      | Some interval \<Rightarrow>
          Option.bind (fmp_chunks start stop minutes) (\<lambda>r.
            Some (ebind r (\<lambda>chunks.
              ebind (emap (fetch_job src minutes interval) (concat (map (\<lambda>t. map (Pair t) chunks) tickers))) (\<lambda>parts.
                Inr (dedup_sort (filter (\<lambda>r. start \<le> pr_at r div day_us \<and> pr_at r div day_us \<le> stop)
                      (concat parts))))))))"

section \<open>The entry point\<close>

datatype bar_source = FromDatabase database | FromFmp fmp_source

definition wanted_tickers :: "string list \<Rightarrow> string list" where
  "wanted_tickers tickers = first_occurrences (map (\<lambda>t. upper (strip t)) (filter (\<lambda>t. strip t \<noteq> []) tickers))"

definition fetch_intraday_bars ::
  "bar_source \<Rightarrow> string list \<Rightarrow> int \<Rightarrow> int \<Rightarrow> int \<Rightarrow> bool \<Rightarrow> (intraday_exn + price_row list) option" where
  "fetch_intraday_bars source tickers start stop minutes require_all =
     (let wanted = wanted_tickers tickers in
      if wanted = [] \<or> stop < start then Some (Inr [])
      else Option.bind (case source of
                FromDatabase db \<Rightarrow> fetch_db_intraday_bars db wanted start stop minutes
              | FromFmp src \<Rightarrow> fetch_fmp_intraday_bars src wanted start stop minutes)
        (\<lambda>r. Some (ebind r (\<lambda>rows.
           let missing = filter (\<lambda>t. t \<notin> pr_ticker ` set rows) wanted in
           if missing \<noteq> [] \<and> require_all then Inl (NoMarketDataFor missing) else Inr rows))))"

text \<open>The tickers whose first bar inside the window comes too late, with that bar's day.\<close>

definition first_day :: "price_row list \<Rightarrow> string \<Rightarrow> int \<Rightarrow> int option" where
  "first_day rows t window_start =
     (let days = filter (\<lambda>d. window_start \<le> d) (map (\<lambda>r. pr_at r div day_us) (filter (\<lambda>r. pr_ticker r = t) rows)) in
      if days = [] then None else Some (Min (set days)))"

definition late_starting_tickers :: "price_row list \<Rightarrow> string list \<Rightarrow> int \<Rightarrow> (string, int option) dict" where
  "late_starting_tickers rows tickers window_start =
     foldl (\<lambda>late t.
         case first_day rows t window_start of
           None \<Rightarrow> dict_set t None late
         | Some d \<Rightarrow> if d > window_start + late_start_tolerance_days then dict_set t (Some d) late else late)
       [] tickers"

end
