(* ===== verification/Intraday_Claims.thy ===== *)
theory Intraday_Claims
  imports Intraday
begin

text \<open>
  What the intraday loader promises: its window loops end and cover the window exactly, a bar is
  never labelled before the last row it is built from, and a bar size the sampled rows do
  not divide into is refused.
\<close>

section \<open>The loops end\<close>

definition window_days :: "int \<times> int \<Rightarrow> int list" where
  "window_days w = [fst w..snd w]"

lemma day_windows_return:
  assumes "0 \<le> width"
  shows "\<exists>ws. day_windows width start stop = Some ws \<and> concat (map window_days ws) = [start..stop] \<and>
    list_all (\<lambda>w. start \<le> fst w \<and> fst w \<le> snd w \<and> snd w \<le> stop \<and> snd w - fst w \<le> width) ws"
proof (induction "nat (stop + 1 - start)" arbitrary: start rule: less_induct)
  case less
  show ?case
  proof (cases "start \<le> stop")
    case True
    let ?c = "min stop (start + width)"
    have c: "start \<le> ?c" "?c \<le> stop" "?c - start \<le> width" using True assms by auto
    from less.hyps [of "?c + 1"] c obtain ws where ws: "day_windows width (?c + 1) stop = Some ws"
      "concat (map window_days ws) = [?c + 1..stop]"
      "list_all (\<lambda>w. ?c + 1 \<le> fst w \<and> fst w \<le> snd w \<and> snd w \<le> stop \<and> snd w - fst w \<le> width) ws"
      by fastforce
    have "day_windows width start stop = Some ((start, ?c) # ws)"
      using True ws(1) by (subst day_windows.simps) (simp add: Let_def)
    moreover have "concat (map window_days ((start, ?c) # ws)) = [start..stop]"
      using ws(2) upto_split2 [OF c(1,2)] by (simp add: window_days_def)
    moreover have "list_all (\<lambda>w. start \<le> fst w \<and> fst w \<le> snd w \<and> snd w \<le> stop \<and> snd w - fst w \<le> width) ((start, ?c) # ws)"
      using ws(3) c by (auto simp: list_all_iff)
    ultimately show ?thesis by blast
  next
    case False
    then show ?thesis by (subst day_windows.simps) simp
  qed
qed

lemma day_windows_capped:
  assumes "0 < cap"
  shows "\<exists>ws. day_windows (cap - 1) start stop = Some ws \<and> concat (map window_days ws) = [start..stop] \<and>
    list_all (\<lambda>w. fst w \<le> snd w \<and> int (length (window_days w)) \<le> cap) ws"
proof -
  have "0 \<le> cap - 1" using assms by simp
  from day_windows_return [OF this, of start stop] obtain ws where ws: "day_windows (cap - 1) start stop = Some ws"
    "concat (map window_days ws) = [start..stop]" "list_all (\<lambda>w. fst w \<le> snd w \<and> snd w - fst w \<le> cap - 1) ws"
    by (auto simp: list_all_iff)
  from ws(3) have "list_all (\<lambda>w. fst w \<le> snd w \<and> int (length (window_days w)) \<le> cap) ws"
    unfolding list_all_iff window_days_def by fastforce
  with ws show ?thesis by blast
qed

lemma probe_loop_return:
  "\<exists>ws. probe_loop cursor stop = Some ws \<and> (cursor \<le> stop \<longrightarrow> ws \<noteq> [] \<and> fst (hd ws) = cursor) \<and>
    list_all (\<lambda>w. cursor \<le> fst w \<and> fst w \<le> snd w \<and> snd w \<le> stop \<and> snd w < fst w + spacing_sample_days) ws \<and>
    (\<forall>d. cursor \<le> d \<and> d \<le> stop \<longrightarrow> (\<exists>w \<in> set ws. fst w \<le> d \<and> d < fst w + spacing_sample_every_days))"
proof (induction "nat (stop + 1 - cursor)" arbitrary: cursor rule: less_induct)
  case less
  show ?case
  proof (cases "cursor \<le> stop")
    case True
    have e: "spacing_sample_every_days = 60" "spacing_sample_days = 5"
      by (simp_all add: spacing_sample_every_days_def spacing_sample_days_def)
    from less.hyps [of "cursor + 60"] True obtain ws where ws: "probe_loop (cursor + 60) stop = Some ws"
      "list_all (\<lambda>w. cursor + 60 \<le> fst w \<and> fst w \<le> snd w \<and> snd w \<le> stop \<and> snd w < fst w + 5) ws"
      "\<And>d. cursor + 60 \<le> d \<Longrightarrow> d \<le> stop \<Longrightarrow> \<exists>w \<in> set ws. fst w \<le> d \<and> d < fst w + 60"
      unfolding e by fastforce
    let ?w = "(cursor, min stop (cursor + 4))"
    have "probe_loop cursor stop = Some (?w # ws)"
      using True ws(1) by (subst probe_loop.simps) (simp add: e)
    moreover have "\<exists>w \<in> set (?w # ws). fst w \<le> d \<and> d < fst w + 60" if "cursor \<le> d" "d \<le> stop" for d
      using ws(3) [of d] that by (cases "cursor + 60 \<le> d") auto
    moreover have "list_all (\<lambda>w. cursor \<le> fst w \<and> fst w \<le> snd w \<and> snd w \<le> stop \<and> snd w < fst w + 5) (?w # ws)"
      using ws(2) True by (auto simp: list_all_iff)
    ultimately show ?thesis unfolding e by auto
  next
    case False
    then show ?thesis by (subst probe_loop.simps) simp
  qed
qed

text \<open>What the sample windows promise: the first starts the window, the last ends it, and no day
  is sixty days or more after the start of a sample.\<close>

definition samples_window :: "int \<Rightarrow> int \<Rightarrow> (int \<times> int) list \<Rightarrow> bool" where
  "samples_window start stop ws \<longleftrightarrow> ws \<noteq> [] \<and> fst (hd ws) = start \<and> snd (last ws) = stop \<and>
     list_all (\<lambda>w. start \<le> fst w \<and> fst w \<le> snd w \<and> snd w \<le> stop) ws \<and>
     list_all (\<lambda>d. list_ex (\<lambda>w. fst w \<le> d \<and> d < fst w + spacing_sample_every_days) ws) [start..stop]"

lemma probe_windows_return:
  assumes "start \<le> stop"
  shows "\<exists>ws. spacing_probe_windows start stop = Some (Inr ws) \<and> samples_window start stop ws"
proof -
  from probe_loop_return [of start stop] assms obtain ws where ws: "probe_loop start stop = Some ws" "ws \<noteq> []"
    "fst (hd ws) = start" "list_all (\<lambda>w. start \<le> fst w \<and> fst w \<le> snd w \<and> snd w \<le> stop) ws"
    "\<And>d. start \<le> d \<Longrightarrow> d \<le> stop \<Longrightarrow> \<exists>w \<in> set ws. fst w \<le> d \<and> d < fst w + spacing_sample_every_days"
    by (fastforce simp: list_all_iff)
  let ?s = "max start (stop - (spacing_sample_days - 1))"
  have s: "start \<le> ?s" "?s \<le> stop" using assms by (auto simp: spacing_sample_days_def)
  show ?thesis
  proof (cases "?s \<le> snd (last ws)")
    case True
    let ?ws = "butlast ws @ [(fst (last ws), stop)]"
    have l: "last ws \<in> set ws" using ws(2) by simp
    obtain zs z where z: "ws = zs @ [z]" using ws(2) by (cases ws rule: rev_cases) auto
    have fst: "fst ` set ?ws = fst ` set ws" by (simp add: z)
    have "fst (hd ?ws) = start" using ws(2,3) by (cases ws rule: rev_cases) (auto simp: hd_append split: if_splits)
    moreover have "list_all (\<lambda>w. start \<le> fst w \<and> fst w \<le> snd w \<and> snd w \<le> stop) ?ws"
      using ws(4) by (auto simp: z list_all_iff)
    moreover have "\<exists>w \<in> set ?ws. fst w \<le> d \<and> d < fst w + spacing_sample_every_days" if d: "start \<le> d" "d \<le> stop" for d
    proof -
      obtain w where w: "w \<in> set ws" "fst w \<le> d" "d < fst w + spacing_sample_every_days" using ws(5) [OF d] by blast
      from w(1) have "fst w \<in> fst ` set ?ws" unfolding fst by (rule imageI)
      then obtain w' where "w' \<in> set ?ws" "fst w' = fst w" by (elim imageE) simp
      with w show ?thesis by metis
    qed
    ultimately have "samples_window start stop ?ws"
      by (auto simp: samples_window_def list_all_iff list_ex_iff)
    with True ws(1,2) show ?thesis by (auto simp: spacing_probe_windows_def Let_def)
  next
    case False
    let ?ws = "ws @ [(?s, stop)]"
    have "samples_window start stop ?ws"
      using ws s by (auto simp: samples_window_def list_all_iff list_ex_iff)
    with False ws(1,2) show ?thesis by (auto simp: spacing_probe_windows_def Let_def)
  qed
qed

text \<open>C35: the loader's window loops end and lose no day: for every supported bar size and any dates, the FMP request windows
  and the database slabs come to an end and, laid end to end, are the days from the first to the last, each once
  and in order, no window longer than the source returns; the resolution samples end as well, start and end with
  the window and leave no stretch of sixty days unsampled.\<close>

theorem window_loops_return:
  assumes "dict_get fmp_chunk_days minutes = Some cap" "start \<le> stop"
  shows "(\<exists>ws. fmp_chunks start stop minutes = Some (Inr ws) \<and> concat (map window_days ws) = [start..stop] \<and>
        list_all (\<lambda>w. fst w \<le> snd w \<and> int (length (window_days w)) \<le> cap) ws) \<and>
    (\<exists>ws. db_slabs start stop = Some ws \<and> concat (map window_days ws) = [start..stop] \<and>
        list_all (\<lambda>w. fst w \<le> snd w \<and> int (length (window_days w)) \<le> db_slab_days) ws) \<and>
    (\<exists>ws. spacing_probe_windows start stop = Some (Inr ws) \<and> samples_window start stop ws)"
proof (intro conjI)
  have "0 < cap" using assms(1) by (auto simp: fmp_chunk_days_def split: if_splits)
  from day_windows_capped [OF this, of start stop] assms(1)
  show "\<exists>ws. fmp_chunks start stop minutes = Some (Inr ws) \<and> concat (map window_days ws) = [start..stop] \<and>
        list_all (\<lambda>w. fst w \<le> snd w \<and> int (length (window_days w)) \<le> cap) ws"
    by (auto simp: fmp_chunks_def)
  have "0 < db_slab_days" by (simp add: db_slab_days_def)
  from day_windows_capped [OF this, of start stop]
  show "\<exists>ws. db_slabs start stop = Some ws \<and> concat (map window_days ws) = [start..stop] \<and>
        list_all (\<lambda>w. fst w \<le> snd w \<and> int (length (window_days w)) \<le> db_slab_days) ws"
    by (auto simp: db_slabs_def)
qed (rule probe_windows_return [OF assms(2)])

theorem window_loops_return_witness:
  "(\<exists>ws. fmp_chunks 10 100 30 = Some (Inr ws) \<and> concat (map window_days ws) = [10..100] \<and>
        list_all (\<lambda>w. fst w \<le> snd w \<and> int (length (window_days w)) \<le> 21) ws) \<and>
    (\<exists>ws. db_slabs 10 100 = Some ws \<and> concat (map window_days ws) = [10..100] \<and>
        list_all (\<lambda>w. fst w \<le> snd w \<and> int (length (window_days w)) \<le> db_slab_days) ws) \<and>
    (\<exists>ws. spacing_probe_windows 10 100 = Some (Inr ws) \<and> samples_window 10 100 ws)"
  by (rule window_loops_return) (simp_all add: fmp_chunk_days_def)

section \<open>Bars are labelled when they are known\<close>

lemma dedup_sort_sorted: "sorted_wrt (<) (map row_key (dedup_sort rows))"
proof -
  have "distinct (map row_key (dedup_sort rows))"
    using keep_last_distinct [of row_key rows] by (simp add: dedup_sort_def distinct_map)
  moreover have "sorted (map row_key (dedup_sort rows))" by (simp add: dedup_sort_def)
  ultimately show ?thesis by (simp add: strict_sorted_iff)
qed

lemma dedup_sort_subset: "set (dedup_sort rows) \<subseteq> set rows"
  using keep_last_subset [of row_key rows] by (simp add: dedup_sort_def)

lemma finalize_from:
  assumes "b \<in> set (finalize rows minutes)"
  shows "\<exists>r \<in> set rows. b = r\<lparr>pr_at := label_bar_close (pr_at r) minutes\<rparr> \<and> in_session (pr_at r) \<and> pr_close r \<noteq> None"
  using assms dedup_sort_subset by (fastforce simp: finalize_def)

text \<open>The rows behind a bar: of its ticker and day, at most a bar's length before its label, all
  of them before it.\<close>

definition built_from :: "int \<Rightarrow> price_row list \<Rightarrow> price_row list \<Rightarrow> price_row \<Rightarrow> bool" where
  "built_from minutes rows g b \<longleftrightarrow> g \<noteq> [] \<and> set g \<subseteq> set rows \<and> sorted (map pr_at g) \<and>
     pr_open b = pr_open (hd g) \<and> pr_close b = pr_close (last g) \<and>
     list_all (\<lambda>r. pr_ticker r = pr_ticker b \<and> pr_at r div day_us = pr_at b div day_us \<and>
        in_session (pr_at r) \<and> pr_at r < pr_at b \<and> pr_at b - pr_at r \<le> minutes * minute_us) g"

lemma session_open_bounds: "0 \<le> session_open" "session_open < session_close" "session_close < day_us"
  by (simp_all add: session_open_def session_close_def)

lemma label_after:
  assumes "0 < minutes" "in_session t" "k = t div day_us"
    and "start = k * day_us + session_open + (t mod day_us - session_open) div (minutes * minute_us) * minutes * minute_us"
  shows "t < label_bar_close start minutes" "label_bar_close start minutes - t \<le> minutes * minute_us"
    "label_bar_close start minutes div day_us = k"
proof -
  define m where "m = minutes * minute_us"
  define o' where "o' = t mod day_us - session_open"
  have m: "0 < m" using assms(1) by (simp add: m_def)
  have t: "t = k * day_us + session_open + o'" unfolding o'_def assms(3) by simp
  have o: "0 \<le> o'" "session_open + o' < session_close" using assms(2) by (auto simp: in_session_def o'_def)
  have st: "start = k * day_us + session_open + o' div m * m" by (simp add: assms(4) m_def o'_def)
  have "o' div m * m + o' mod m = o'" "0 \<le> o' mod m" "o' mod m < m" using m by simp_all
  moreover have "0 \<le> o' div m * m" using m o(1) by (simp add: pos_imp_zdiv_nonneg_iff)
  ultimately have b: "o' div m * m \<le> o'" "o' < o' div m * m + m" "0 \<le> o' div m * m" by linarith+
  have dk: "start div day_us = k"
    using b o session_open_bounds by (simp add: st add.assoc div_pos_pos_trivial)
  have l: "label_bar_close start minutes = min (start + m) (k * day_us + session_close)"
    by (auto simp: label_bar_close_def m_def dk Let_def)
  show "t < label_bar_close start minutes" unfolding l unfolding t st using b o by auto
  show "label_bar_close start minutes - t \<le> minutes * minute_us" unfolding m_def [symmetric] l unfolding t st using b by auto
  show "label_bar_close start minutes div day_us = k"
  proof -
    define x where "x = label_bar_close start minutes - k * day_us"
    have "0 \<le> x" "x < day_us" unfolding x_def l unfolding st using b o m session_open_bounds by auto
    moreover have "label_bar_close start minutes = k * day_us + x" by (simp add: x_def)
    ultimately show ?thesis by (simp add: div_pos_pos_trivial)
  qed
qed

lemma bucket_bar_built:
  assumes "0 < minutes" "k \<in> bucket_of minutes ` set rs" "list_all (\<lambda>r. in_session (pr_at r)) rs" "set rs \<subseteq> set rows"
    and "b = (bucket_bar minutes rs k)\<lparr>pr_at := label_bar_close (pr_at (bucket_bar minutes rs k)) minutes\<rparr>"
  shows "(\<exists>g. built_from minutes rows g b) \<and> pr_at b div day_us = fst (snd k) \<and> pr_ticker b = fst k"
proof -
  let ?g = "sort_key pr_at (filter (\<lambda>r. bucket_of minutes r = k) rs)"
  obtain r0 where "r0 \<in> set rs" "k = bucket_of minutes r0" using assms(2) by blast
  then have "r0 \<in> set ?g" by simp
  then have ne: "?g \<noteq> []" by (metis empty_iff empty_set)
  have at: "pr_at (bucket_bar minutes rs k) = fst (snd k) * day_us + session_open + snd (snd k) * minutes * minute_us"
    by (simp add: bucket_bar_def Let_def)
  have r: "pr_ticker r = fst k \<and> pr_at r div day_us = fst (snd k) \<and> in_session (pr_at r) \<and>
      pr_at r < pr_at b \<and> pr_at b - pr_at r \<le> minutes * minute_us \<and> pr_at b div day_us = fst (snd k)"
    if "r \<in> set ?g" for r
  proof -
    from that have k: "bucket_of minutes r = k" and s: "in_session (pr_at r)"
      using assms(3) by (auto simp: list_all_iff)
    have "pr_at (bucket_bar minutes rs k) = pr_at r div day_us * day_us + session_open +
        (pr_at r mod day_us - session_open) div (minutes * minute_us) * minutes * minute_us"
      unfolding at by (simp add: k [symmetric] bucket_of_def bucket_index_def)
    from label_after [OF assms(1) s refl this] k show ?thesis by (auto simp: assms(5) bucket_of_def s)
  qed
  have o: "pr_open b = pr_open (hd ?g)" "pr_close b = pr_close (last ?g)" "pr_ticker b = fst k"
    by (simp_all add: assms(5) bucket_bar_def Let_def)
  have "set ?g \<subseteq> set rows" using assms(4) by auto
  moreover have "list_all (\<lambda>r. pr_ticker r = pr_ticker b \<and> pr_at r div day_us = pr_at b div day_us \<and>
        in_session (pr_at r) \<and> pr_at r < pr_at b \<and> pr_at b - pr_at r \<le> minutes * minute_us) ?g"
    unfolding list_all_iff using r o(3) by metis
  ultimately have "built_from minutes rows ?g b" using ne o by (simp add: built_from_def)
  moreover have "pr_at b div day_us = fst (snd k)" using r [OF hd_in_set [OF ne]] by blast
  ultimately show ?thesis using o(3) by blast
qed

text \<open>C28: a bar is never known before its rows: when the database loader returns bars of a positive length, they are in
  strictly increasing order of label and ticker, each is of a requested ticker and labelled on a day of the window,
  and each is built from rows of the table, of its own ticker and day and inside the session, every one earlier than
  the label by at most the bar's length; its open and close are its first and last row's.\<close>

theorem bars_labelled_when_known:
  assumes "fetch_db_intraday_bars db tickers start stop minutes = Some (Inr bars)" "0 < minutes"
  shows "sorted_wrt (<) (map row_key bars) \<and>
    list_all (\<lambda>b. pr_ticker b \<in> set tickers \<and> start \<le> pr_at b div day_us \<and> pr_at b div day_us \<le> stop \<and>
      (\<exists>g. built_from minutes (db_rows db) g b)) bars"
proof -
  obtain y where y: "stored_bar_minutes db tickers start stop = Some y"
    using assms(1) by (auto simp: fetch_db_intraday_bars_def bind_eq_Some_conv)
  obtain u where u: "ebind y (\<lambda>stored. require_resolution stored minutes) = Inr u"
    using assms(1) y by (cases "ebind y (\<lambda>stored. require_resolution stored minutes)")
      (simp_all add: fetch_db_intraday_bars_def)
  obtain slabs parts where sl: "db_slabs start stop = Some slabs"
    and parts: "emap (\<lambda>((a, b), chunk). let (t_from, t_to) = session_bounds a b in
          run_query db ''intraday bars'' chunk t_from t_to (bucket_query minutes chunk t_from t_to))
        (concat (map (\<lambda>w. map (\<lambda>chunk. (w, chunk)) (chunks_of db_ticker_chunk tickers)) slabs)) = Inr parts"
    and bars: "bars = finalize (concat parts) minutes"
    using assms(1) y u by (auto simp: fetch_db_intraday_bars_def bind_eq_Some_conv ebind_Inr_iff)
  have in_window: "start \<le> fst w \<and> snd w \<le> stop" if "w \<in> set slabs" for w
    using day_windows_return [of "db_slab_days - 1" start stop] sl that
    by (auto simp: db_slabs_def db_slab_days_def list_all_iff)
  have "pr_ticker b \<in> set tickers \<and> start \<le> pr_at b div day_us \<and> pr_at b div day_us \<le> stop \<and>
      (\<exists>g. built_from minutes (db_rows db) g b)" if "b \<in> set bars" for b
  proof -
    from that bars obtain raw part where raw: "raw \<in> set part" "part \<in> set parts"
      "b = raw\<lparr>pr_at := label_bar_close (pr_at raw) minutes\<rparr>" by (auto dest!: finalize_from)
    from emap_from [OF parts raw(2)] obtain w chunk where w: "w \<in> set slabs" "chunk \<in> set (chunks_of db_ticker_chunk tickers)"
      "part = bucket_query minutes chunk (fst w * day_us) ((snd w + 1) * day_us) (db_rows db)"
      by (fastforce simp: session_bounds_def run_query_def split: if_splits)
    let ?rs = "session_rows chunk (fst w * day_us) ((snd w + 1) * day_us) (db_rows db)"
    from raw(1) w(3) obtain k where k: "k \<in> bucket_of minutes ` set ?rs" "raw = bucket_bar minutes ?rs k"
      by (auto simp: bucket_query_def Let_def first_occurrences_def)
    have rs: "list_all (\<lambda>r. in_session (pr_at r)) ?rs" "set ?rs \<subseteq> set (db_rows db)"
      by (auto simp: session_rows_def list_all_iff)
    have bb: "b = (bucket_bar minutes ?rs k)\<lparr>pr_at := label_bar_close (pr_at (bucket_bar minutes ?rs k)) minutes\<rparr>"
      using raw(3) k(2) by simp
    note built = bucket_bar_built [OF assms(2) k(1) rs bb]
    from k(1) obtain r where r: "r \<in> set ?rs" "k = bucket_of minutes r" by blast
    then have tk: "pr_ticker r \<in> set chunk" and t: "fst w * day_us \<le> pr_at r" "pr_at r < (snd w + 1) * day_us"
      by (auto simp: session_rows_def)
    define q m where "q = pr_at r div day_us" and "m = pr_at r mod day_us"
    have "pr_at r = q * day_us + m" "0 \<le> m" "m < day_us" by (simp_all add: q_def m_def)
    moreover from t(2) have "pr_at r < snd w * day_us + day_us" by (simp add: algebra_simps)
    ultimately have "fst w * day_us < (q + 1) * day_us" "q * day_us < (snd w + 1) * day_us"
      using t(1) by (simp_all add: algebra_simps)
    then have "fst w \<le> q" "q \<le> snd w" by simp_all
    then have "fst w \<le> pr_at r div day_us" "pr_at r div day_us \<le> snd w" by (simp_all add: q_def)
    then show ?thesis
      using built r(2) in_window [OF w(1)] chunks_of_subset [OF w(2)] tk
      by (auto simp: bucket_of_def)
  qed
  moreover have "sorted_wrt (<) (map row_key bars)" unfolding bars finalize_def by (rule dedup_sort_sorted)
  ultimately show ?thesis by (simp add: list_all_iff)
qed

text \<open>An hourly table: two rows of one session.\<close>

definition demo_row :: "int \<Rightarrow> price_row" where
  "demo_row t = \<lparr>pr_ticker = ''AAPL'', pr_at = t, pr_open = Some 1, pr_high = Some 1, pr_low = Some 1,
     pr_close = Some 1, pr_volume = Some 1\<rparr>"

definition demo_db :: database where
  "demo_db = \<lparr>db_rows = [demo_row (10 * day_us + session_open), demo_row (10 * day_us + session_open + 60 * minute_us)],
     db_up = (\<lambda>_ _ _ _. True)\<rparr>"

lemma demo_fetch:
  "case fetch_db_intraday_bars demo_db [''AAPL''] 10 11 60 of Some (Inr bars) \<Rightarrow> length bars = 2 | _ \<Rightarrow> False"
  by code_simp

theorem bars_labelled_when_known_witness:
  "\<exists>bars. fetch_db_intraday_bars demo_db [''AAPL''] 10 11 60 = Some (Inr bars) \<and> length bars = 2 \<and>
    sorted_wrt (<) (map row_key bars) \<and>
    list_all (\<lambda>b. pr_ticker b \<in> set [''AAPL''] \<and> 10 \<le> pr_at b div day_us \<and> pr_at b div day_us \<le> 11 \<and>
      (\<exists>g. built_from 60 (db_rows demo_db) g b)) bars"
proof -
  obtain bars where "fetch_db_intraday_bars demo_db [''AAPL''] 10 11 60 = Some (Inr bars)" "length bars = 2"
    using demo_fetch by (auto split: option.splits sum.splits)
  with bars_labelled_when_known [OF this(1)] show ?thesis by simp
qed

section \<open>Resolution\<close>

lemma lcm_list_dvd: "lcm_list gaps dvd m \<longleftrightarrow> (\<forall>g \<in> set gaps. g dvd m)"
  by (induction gaps) (auto simp: lcm_list_def)

lemma run_query_error: "run_query db label ts a b f = Inl x \<Longrightarrow> x = MarketDataUnavailable label"
  by (simp add: run_query_def split: if_splits)

lemma emap_error: "emap f xs = Inl x \<Longrightarrow> \<exists>y \<in> set xs. f y = Inl x"
  by (induction xs) (auto simp: ebind_Inl_iff)

text \<open>a bar size the store cannot build is refused and no other: with the sampled spacings at hand, the database loader
  answers that the resolution is unavailable exactly when some sampled spacing does not divide the bar size;
  otherwise it returns bars or names the query that failed.\<close>

theorem coarse_store_refused:
  assumes "spacing_probe_windows start stop = Some (Inr ws)" "sample_spacings db tickers ws = Inr gaps"
  shows "(fetch_db_intraday_bars db tickers start stop minutes = Some (Inl ResolutionUnavailable)) =
      list_ex (\<lambda>g. \<not> g dvd minutes) gaps \<and>
    (list_ex (\<lambda>g. \<not> g dvd minutes) gaps \<or>
      (\<exists>r. fetch_db_intraday_bars db tickers start stop minutes = Some r \<and>
        (r = Inl (MarketDataUnavailable ''intraday bars'') \<or> \<not> isl r)))"
proof -
  let ?stored = "if gaps = [] then None else Some (lcm_list gaps)"
  have st: "stored_bar_minutes db tickers start stop = Some (Inr ?stored)"
    using assms by (simp add: stored_bar_minutes_def)
  have rq: "require_resolution ?stored minutes = (if list_ex (\<lambda>g. \<not> g dvd minutes) gaps then Inl ResolutionUnavailable else Inr ())"
    using lcm_list_dvd [of gaps minutes]
    by (auto simp: require_resolution_def list_ex_iff dvd_eq_mod_eq_0 [symmetric])
  show ?thesis
  proof (cases "list_ex (\<lambda>g. \<not> g dvd minutes) gaps")
    case True
    with st rq show ?thesis by (simp add: fetch_db_intraday_bars_def)
  next
    case False
    have "0 < db_slab_days" by (simp add: db_slab_days_def)
    from day_windows_capped [OF this, of start stop] obtain slabs where sl: "db_slabs start stop = Some slabs"
      by (auto simp: db_slabs_def)
    let ?f = "\<lambda>((a, b), chunk). let (t_from, t_to) = session_bounds a b in
          run_query db ''intraday bars'' chunk t_from t_to (bucket_query minutes chunk t_from t_to)"
    let ?xs = "concat (map (\<lambda>w. map (\<lambda>chunk. (w, chunk)) (chunks_of db_ticker_chunk tickers)) slabs)"
    have f: "fetch_db_intraday_bars db tickers start stop minutes =
        Some (ebind (emap ?f ?xs) (\<lambda>parts. Inr (finalize (concat parts) minutes)))"
      using st rq False sl by (simp add: fetch_db_intraday_bars_def)
    have e: "x = MarketDataUnavailable ''intraday bars''" if "emap ?f ?xs = Inl x" for x
      using emap_error [OF that] by (auto simp: session_bounds_def dest: run_query_error)
    show ?thesis
    proof (cases "emap ?f ?xs")
      case (Inl x)
      with e [OF Inl] f False show ?thesis by simp
    next
      case (Inr parts)
      with f False show ?thesis by simp
    qed
  qed
qed

theorem coarse_store_refused_witness:
  "fetch_db_intraday_bars demo_db [''AAPL''] 10 11 30 = Some (Inl ResolutionUnavailable)"
proof -
  have w: "spacing_probe_windows 10 11 = Some (Inr [(10, 11)])" by code_simp
  have g: "sample_spacings demo_db [''AAPL''] [(10, 11)] = Inr [60]" by code_simp
  show ?thesis using coarse_store_refused [OF w g, of 30] by simp
qed

end
