(* ===== verification/Scanner.thy ===== *)
theory Scanner
  imports Prelude
begin

text \<open>
  The static reading of an uploaded strategy, \<open>src/services/strategy_validation/scanning.py\<close>.
  A syntax tree is an \<open>ast\<close>: a constructor for each node class the scanner asks for, \<open>Other\<close>
  for the rest. Import aliases, expression contexts and operators carry nothing it reads and
  are left out of the walk; the context of an \<open>Attribute\<close> is its flag. The standard library's \<open>ast.parse\<close>
  is the argument \<open>parse\<close>: a tree, or the line of a syntax error. A \<open>complaint\<close> stands for the
  sentence the code formats from it, one constructor per sentence.
\<close>

section \<open>Syntax trees\<close>

text \<open>Fields in the order \<open>iter_child_nodes\<close> visits them. \<open>Import\<close> has the aliased names,
  \<open>ImportFrom\<close> module and level, \<open>Attribute\<close> whether it is stored to, \<open>Constant\<close> its
  value when that is a string. A \<open>FunctionDef\<close> is flagged when it is an \<open>async def\<close>;
  its fields are arguments, body, decorators, and returns with type parameters. A \<open>ClassDef\<close> has
  bases, keywords, body, decorators and type parameters. \<open>Arguments\<close> has the positional-only and
  ordinary parameters, the starred one, and the rest.\<close>

datatype ast =
    Module "ast list"
  | Import int "string list"
  | ImportFrom int "string option" nat
  | Name int string
  | Attribute int ast string bool
  | Constant int "string option"
  | Call int ast "ast list" "ast list"
  | Tuple int "ast list"
  | Dict int "ast option list" "ast list"
  | Assign int "ast list" ast
  | AnnAssign int ast ast "ast option"
  | Arguments "ast list" "ast list" "ast option" "ast list"
  | FunctionDef int bool string ast "ast list" "ast list" "ast list"
  | ClassDef int string "ast list" "ast list" "ast list" "ast list" "ast list"
  | Other "int option" "ast list"

definition present :: "'a option list \<Rightarrow> 'a list" where
  "present xs = concat (map (\<lambda>x. case x of None \<Rightarrow> [] | Some y \<Rightarrow> [y]) xs)"

fun child_nodes :: "ast \<Rightarrow> ast list" where
  "child_nodes (Module body) = body"
| "child_nodes (Attribute _ v _ _) = [v]"
| "child_nodes (Call _ f args kws) = f # args @ kws"
| "child_nodes (Tuple _ elts) = elts"
| "child_nodes (Dict _ ks vs) = present ks @ vs"
| "child_nodes (Assign _ targets v) = targets @ [v]"
| "child_nodes (AnnAssign _ target ann v) = [target, ann] @ present [v]"
| "child_nodes (Arguments ps ar va others) = ps @ ar @ present [va] @ others"
| "child_nodes (FunctionDef _ _ _ args body decs rest) = args # body @ decs @ rest"
| "child_nodes (ClassDef _ _ bases kws body decs tps) = bases @ kws @ body @ decs @ tps"
| "child_nodes (Other _ cs) = cs"
| "child_nodes _ = []"

text \<open>\<open>getattr(node, "lineno", None)\<close>.\<close>

fun lineno :: "ast \<Rightarrow> int option" where
  "lineno (Module _) = None"
| "lineno (Arguments _ _ _ _) = None"
| "lineno (Other l _) = l"
| "lineno (Import l _) = Some l"
| "lineno (ImportFrom l _ _) = Some l"
| "lineno (Name l _) = Some l"
| "lineno (Attribute l _ _ _) = Some l"
| "lineno (Constant l _) = Some l"
| "lineno (Call l _ _ _) = Some l"
| "lineno (Tuple l _) = Some l"
| "lineno (Dict l _ _) = Some l"
| "lineno (Assign l _ _) = Some l"
| "lineno (AnnAssign l _ _ _) = Some l"
| "lineno (FunctionDef l _ _ _ _ _ _) = Some l"
| "lineno (ClassDef l _ _ _ _ _ _) = Some l"

definition line_or_zero :: "ast \<Rightarrow> int" where
  "line_or_zero n = (case lineno n of None \<Rightarrow> 0 | Some l \<Rightarrow> l)"

abbreviation weight :: "ast \<Rightarrow> nat" where
  "weight n \<equiv> Suc (2 * size n)"

lemma weight_list: "sum_list (map weight (xs :: ast list)) \<le> 2 * size_list size xs"
  by (induction xs) auto

lemma weight_present: "sum_list (map weight (present xs))
    \<le> 2 * size_list (size_option size) (xs :: ast option list)"
  by (induction xs) (auto simp: present_def split: option.splits)

lemma child_nodes_smaller: "sum_list (map weight (child_nodes n)) \<le> 2 * size n"
proof (cases n)
  case (Call l f args kws)
  then show ?thesis using weight_list [of args] weight_list [of kws] by simp
next
  case (Dict l ks vs)
  then show ?thesis using weight_present [of ks] weight_list [of vs] by simp
next
  case (AnnAssign l target ann v)
  then show ?thesis by (cases v) (simp_all add: present_def)
next
  case (Arguments ps ar va others)
  then show ?thesis using weight_list [of ps] weight_list [of ar] weight_list [of others]
    by (cases va) (simp_all add: present_def)
next
  case (FunctionDef l a nm args body decs rest)
  then show ?thesis using weight_list [of body] weight_list [of decs] weight_list [of rest] by simp
next
  case (ClassDef l nm bases kws body decs tps)
  then show ?thesis using weight_list [of bases] weight_list [of kws] weight_list [of body]
      weight_list [of decs] weight_list [of tps] by simp
next
  case (Assign l targets v)
  then show ?thesis using weight_list [of targets] by simp
next
  case (Module body)
  then show ?thesis using weight_list [of body] by simp
next
  case (Tuple l elts)
  then show ?thesis using weight_list [of elts] by simp
next
  case (Other l cs)
  then show ?thesis using weight_list [of cs] by simp
qed simp_all

text \<open>\<open>ast.walk\<close>: breadth first, a queue the children of each node are appended to.\<close>

function walk_queue :: "ast list \<Rightarrow> ast list" where
  "walk_queue [] = []"
| "walk_queue (n # todo) = n # walk_queue (todo @ child_nodes n)"
  by pat_completeness auto
termination
  by (relation "measure (\<lambda>q. sum_list (map weight q))")
    (use child_nodes_smaller in \<open>auto simp: less_Suc_eq_le\<close>)

definition walk :: "ast \<Rightarrow> ast list" where
  "walk tree = walk_queue [tree]"

section \<open>The upload scan\<close>

definition allowed_import_roots :: "string list" where
  "allowed_import_roots = [''engine'', ''pandas'', ''numpy'', ''math'', ''datetime'', ''typing'',
    ''collections'', ''statistics'', ''logging'']"

definition banned_names :: "string list" where
  "banned_names = [''exec'', ''eval'', ''compile'', ''__import__'', ''open'', ''input'', ''breakpoint'']"

definition banned_module_roots :: "string list" where
  "banned_module_roots = [''os'', ''sys'', ''subprocess'', ''shutil'', ''socket'', ''requests'',
    ''urllib'', ''importlib'', ''builtins'', ''ctypes'', ''pickle'', ''pathlib'']"

definition banned_attributes :: "string list" where
  "banned_attributes = [''__globals__'', ''__builtins__'', ''__subclasses__'', ''__code__'',
    ''__loader__'', ''__mro__'', ''__import__'']"

definition base_class_name :: string where
  "base_class_name = ''BasePortfolio''"

datatype complaint =
    Invalid_Syntax string
  | Import_Refused string
  | Relative_Import
  | Banned_Name string
  | Banned_Attribute string
  | Banned_Module string string
  | No_Strategy
  | Several_Strategies "string list"
  | Unknown_Indicator string
  | Misspelled_OnData string string
  | Missing_OnData string
  | Async_OnData
  | Few_Arguments nat nat
  | Super_Init_Skipped string
  | Scaffold_At_Fault complaint

text \<open>\<open>name.split(".")[0]\<close>.\<close>

definition root_package :: "string \<Rightarrow> string" where
  "root_package s = takeWhile (\<lambda>c. c \<noteq> CHR ''.'') s"

fun violation :: "ast \<Rightarrow> complaint option" where
  "violation (Import _ names) =
     (case filter (\<lambda>nm. root_package nm \<notin> set allowed_import_roots) names of
        [] \<Rightarrow> None
      | nm # _ \<Rightarrow> Some (Import_Refused nm))"
| "violation (ImportFrom _ md level) =
     (if level \<noteq> 0 then Some Relative_Import
      else let m = (case md of None \<Rightarrow> [] | Some m \<Rightarrow> m) in
        if root_package m \<notin> set allowed_import_roots then Some (Import_Refused m) else None)"
| "violation (Name _ ident) =
     (if ident \<in> set banned_names then Some (Banned_Name ident) else None)"
| "violation (Attribute _ v attr _) =
     (if attr \<in> set banned_attributes then Some (Banned_Attribute attr)
      else case v of
          Name _ ident \<Rightarrow>
            if ident \<in> set banned_module_roots then Some (Banned_Module ident attr) else None
        | _ \<Rightarrow> None)"
| "violation _ = None"

text \<open>The classes that inherit from the base class, in the file's own terms. The names found
  so far grow until no class adds one.\<close>

fun is_class :: "ast \<Rightarrow> bool" where
  "is_class (ClassDef _ _ _ _ _ _ _) = True"
| "is_class _ = False"

fun class_name_of :: "ast \<Rightarrow> string" where
  "class_name_of (ClassDef _ nm _ _ _ _ _) = nm"
| "class_name_of _ = []"

fun bases_of :: "ast \<Rightarrow> ast list" where
  "bases_of (ClassDef _ _ bases _ _ _ _) = bases"
| "bases_of _ = []"

fun body_of :: "ast \<Rightarrow> ast list" where
  "body_of (ClassDef _ _ _ _ body _ _) = body"
| "body_of _ = []"

fun names_base :: "ast \<Rightarrow> bool" where
  "names_base (Name _ ident) = (ident = base_class_name)"
| "names_base (Attribute _ _ attr _) = (attr = base_class_name)"
| "names_base _ = False"

definition extends_base_portfolio :: "ast \<Rightarrow> bool" where
  "extends_base_portfolio c = list_ex names_base (bases_of c)"

fun is_name_in :: "string list \<Rightarrow> ast \<Rightarrow> bool" where
  "is_name_in known (Name _ ident) = (ident \<in> set known)"
| "is_name_in known _ = False"

definition grown :: "ast list \<Rightarrow> string list \<Rightarrow> string list" where
  "grown classes known =
     map class_name_of (filter (\<lambda>c. class_name_of c \<notin> set known \<and> list_ex (is_name_in known) (bases_of c)) classes)"

function grow_names :: "ast list \<Rightarrow> string list \<Rightarrow> string list" where
  "grow_names classes known =
     (if grown classes known = [] then known else grow_names classes (known @ grown classes known))"
  by pat_completeness auto
termination
proof (relation "measure (\<lambda>(classes, known). card (class_name_of ` set classes - set known))")
  fix classes known
  assume "grown classes known \<noteq> []"
  then obtain c where c: "c \<in> set classes" "class_name_of c \<notin> set known"
    "class_name_of c \<in> set (grown classes known)"
    by (auto simp: grown_def filter_empty_conv)
  have "class_name_of ` set classes - set (known @ grown classes known)
      \<subset> class_name_of ` set classes - set known"
    using c by auto
  then show "((classes, known @ grown classes known), (classes, known))
      \<in> measure (\<lambda>(classes, known). card (class_name_of ` set classes - set known))"
    by (simp add: psubset_card_mono)
qed simp

declare grow_names.simps [simp del]

definition strategy_class_nodes :: "ast \<Rightarrow> ast list" where
  "strategy_class_nodes tree =
     (let classes = filter is_class (walk tree);
          names = grow_names classes (map class_name_of (filter extends_base_portfolio classes))
      in filter (\<lambda>c. class_name_of c \<in> set names) classes)"

definition sole_strategy_class_name :: "ast \<Rightarrow> complaint + string" where
  "sole_strategy_class_name tree =
     (case map class_name_of (strategy_class_nodes tree) of
        [] \<Rightarrow> Inl No_Strategy
      | [nm] \<Rightarrow> Inr nm
      | names \<Rightarrow> Inl (Several_Strategies (sort names)))"

text \<open>A refusal is the line the sentence starts with, if it names one, and the sentence.\<close>

type_synonym parser = "string \<Rightarrow> (int \<times> string) + ast"

definition scan_source :: "parser \<Rightarrow> string \<Rightarrow> (int option \<times> complaint) + string" where
  "scan_source parse source =
     (case parse source of
        Inl (line, msg) \<Rightarrow> Inl (Some line, Invalid_Syntax msg)
      | Inr tree \<Rightarrow>
          (case filter (\<lambda>n. violation n \<noteq> None) (walk tree) of
             n # _ \<Rightarrow> Inl (lineno n, the (violation n))
           | [] \<Rightarrow>
               (case sole_strategy_class_name tree of
                  Inl c \<Rightarrow> Inl (None, c)
                | Inr nm \<Rightarrow> Inr nm)))"

section \<open>Indicators a strategy names\<close>

fun is_str :: "ast \<Rightarrow> bool" where
  "is_str (Constant _ v) = (v \<noteq> None)"
| "is_str _ = False"

fun str_value :: "ast \<Rightarrow> string" where
  "str_value (Constant _ (Some s)) = s"
| "str_value _ = []"

fun name_ids :: "ast list \<Rightarrow> string list" where
  "name_ids [] = []"
| "name_ids (Name _ ident # ts) = ident # name_ids ts"
| "name_ids (_ # ts) = name_ids ts"

text \<open>The heads of \<open>("Indicator", {...})\<close> entries.\<close>

fun tuple_head :: "ast \<Rightarrow> ast list" where
  "tuple_head (Tuple _ (head # _)) = (if is_str head then [head] else [])"
| "tuple_head _ = []"

definition declared_indicators_attribute :: string where
  "declared_indicators_attribute = ''INDICATORS''"

fun declared_in :: "ast \<Rightarrow> ast list" where
  "declared_in (Assign _ targets (Dict _ _ vs)) =
     (if declared_indicators_attribute \<in> set (name_ids targets) then concat (map tuple_head vs) else [])"
| "declared_in (AnnAssign _ target _ (Some (Dict _ _ vs))) =
     (if declared_indicators_attribute \<in> set (name_ids [target]) then concat (map tuple_head vs) else [])"
| "declared_in _ = []"

definition declared_indicator_nodes :: "ast \<Rightarrow> ast list" where
  "declared_indicator_nodes strategy = concat (map declared_in (body_of strategy))"

fun dict_heads :: "ast \<Rightarrow> ast list" where
  "dict_heads (Dict _ _ vs) = concat (map tuple_head vs)"
| "dict_heads _ = []"

fun indicator_name_nodes :: "ast \<Rightarrow> ast list" where
  "indicator_name_nodes (Call _ (Attribute _ _ attr _) args _) =
     (if attr = ''AddIndicator'' then
        (case args of [] \<Rightarrow> [] | first # _ \<Rightarrow> if is_str first then [first] else [])
      else if attr = ''RegisterIndicatorSet'' then concat (map dict_heads args)
      else [])"
| "indicator_name_nodes _ = []"

text \<open>What the environment answers: the parser, the files of \<open>engine/indicators\<close> when the
  package is found (a name, and a text unless reading it fails), the source of the base class, and the
  order in which this process iterates over the set of misspellings.\<close>

record scan_env =
  sc_parse :: parser
  sc_directory :: "(string \<times> string option) list option"
  sc_base_source :: "string option"
  sc_spellings :: "string list"

fun class_defs :: "ast \<Rightarrow> ast list" where
  "class_defs (Module body) = filter is_class body"
| "class_defs _ = []"

definition indicator_files :: "scan_env \<Rightarrow> (string \<times> string) list" where
  "indicator_files env =
     (case sc_directory env of
        None \<Rightarrow> []
      | Some files \<Rightarrow>
          concat (map (\<lambda>(nm, content).
            if nm \<in> {''__init__.py'', ''base.py''} then []
            else case content of None \<Rightarrow> [] | Some t \<Rightarrow> [(nm, t)]) files))"

definition indicator_classes :: "scan_env \<Rightarrow> string \<Rightarrow> string list" where
  "indicator_classes env source =
     (case sc_parse env source of
        Inl _ \<Rightarrow> []
      | Inr tree \<Rightarrow> filter (\<lambda>nm. nm \<noteq> ''Indicator'') (map class_name_of (class_defs tree)))"

definition known_indicators :: "scan_env \<Rightarrow> string list" where
  "known_indicators env =
     concat (map (\<lambda>(nm, source). indicator_classes env source) (indicator_files env))"

definition indicator_sources :: "scan_env \<Rightarrow> (string, string) dict" where
  "indicator_sources env =
     foldl (\<lambda>d (nm, source). foldl (\<lambda>d' cls. dict_set cls source d') d (indicator_classes env source))
       [] (sort_key fst (indicator_files env))"

definition indicator_issues :: "scan_env \<Rightarrow> ast \<Rightarrow> (int \<times> complaint) list" where
  "indicator_issues env strategy =
     (let available = known_indicators env;
          name_nodes = declared_indicator_nodes strategy
            @ concat (map indicator_name_nodes (walk strategy))
      in if available = [] then []
         else map (\<lambda>n. (line_or_zero n, Unknown_Indicator (str_value n)))
           (filter (\<lambda>n. str_value n \<notin> set available) name_nodes))"

text \<open>\<open>_camel_to_snake\<close>: the substitution of \<open>(.)([A-Z][a-z]+)\<close>, then of
  \<open>([a-z0-9])([A-Z])\<close>, left to right without overlap.\<close>

definition is_upper :: "char \<Rightarrow> bool" where
  "is_upper c \<longleftrightarrow> (let n = (of_char c :: nat) in 65 \<le> n \<and> n \<le> 90)"

definition is_lower :: "char \<Rightarrow> bool" where
  "is_lower c \<longleftrightarrow> (let n = (of_char c :: nat) in 97 \<le> n \<and> n \<le> 122)"

definition is_digit :: "char \<Rightarrow> bool" where
  "is_digit c \<longleftrightarrow> (let n = (of_char c :: nat) in 48 \<le> n \<and> n \<le> 57)"

function split_words :: "string \<Rightarrow> string" where
  "split_words (c # u # l # cs) =
     (if of_char c \<noteq> (10 :: nat) \<and> is_upper u \<and> is_lower l
      then c # CHR ''_'' # u # takeWhile is_lower (l # cs) @ split_words (dropWhile is_lower (l # cs))
      else c # split_words (u # l # cs))"
| "split_words [] = []"
| "split_words [c] = [c]"
| "split_words [c, u] = [c, u]"
  by pat_completeness auto
termination
  by (relation "measure length") (auto simp: le_imp_less_Suc length_dropWhile_le le_SucI)

fun split_humps :: "string \<Rightarrow> string" where
  "split_humps (c # u # cs) =
     (if (is_lower c \<or> is_digit c) \<and> is_upper u
      then c # CHR ''_'' # u # split_humps cs
      else c # split_humps (u # cs))"
| "split_humps cs = cs"

definition camel_to_snake :: "string \<Rightarrow> string" where
  "camel_to_snake nm = lower (split_humps (split_words nm))"

text \<open>\<open>declared_indicators\<close>: the listing for the catalogue.\<close>

fun assigned_heads :: "ast \<Rightarrow> string list" where
  "assigned_heads (Assign _ targets (Dict _ _ vs)) =
     (if ''INDICATORS'' \<in> set (name_ids targets) then map str_value (concat (map tuple_head vs)) else [])"
| "assigned_heads _ = []"

definition declared_indicators :: "parser \<Rightarrow> string \<Rightarrow> string list" where
  "declared_indicators parse source =
     (case parse source of
        Inl _ \<Rightarrow> []
      | Inr tree \<Rightarrow> sort (remdups (concat (map assigned_heads (walk tree)))))"

text \<open>\<open>indicator_parameters\<close>: the keys read with \<open>kwargs.get\<close>; \<open>ast.literal_eval\<close> is the
  argument \<open>literal\<close>.\<close>

fun kwargs_get :: "ast \<Rightarrow> (string \<times> ast option) list" where
  "kwargs_get (Call _ (Attribute _ (Name _ ident) attr _) (Constant _ (Some key) # rest) _) =
     (if attr = ''get'' \<and> ident = ''kwargs''
      then [(key, case rest of [] \<Rightarrow> None | d # _ \<Rightarrow> Some d)] else [])"
| "kwargs_get _ = []"

fun first_of_key :: "string list \<Rightarrow> (string \<times> 'a) list \<Rightarrow> (string \<times> 'a) list" where
  "first_of_key seen [] = []"
| "first_of_key seen ((k, v) # kvs) =
     (if k \<in> set seen then first_of_key seen kvs else (k, v) # first_of_key (k # seen) kvs)"

definition indicator_parameters ::
  "(ast \<Rightarrow> pyval option) \<Rightarrow> parser \<Rightarrow> string \<Rightarrow> (string \<times> pyval) list" where
  "indicator_parameters literal parse source =
     (case parse source of
        Inl _ \<Rightarrow> []
      | Inr tree \<Rightarrow>
          map (\<lambda>(k, d). (k, case d of None \<Rightarrow> VNone
              | Some n \<Rightarrow> (case literal n of None \<Rightarrow> VNone | Some v \<Rightarrow> v)))
            (first_of_key [] (concat (map kwargs_get (walk tree)))))"

text \<open>\<open>reserved_attributes\<close>: the names the base class owns.\<close>

fun member_names :: "ast \<Rightarrow> string list" where
  "member_names (FunctionDef _ _ nm _ _ _ _) = [nm]"
| "member_names (Assign _ targets _) = name_ids targets"
| "member_names (AnnAssign _ target _ _) = name_ids [target]"
| "member_names _ = []"

fun self_stores :: "ast \<Rightarrow> string list" where
  "self_stores (Attribute _ (Name _ ident) attr store) = (if store \<and> ident = ''self'' then [attr] else [])"
| "self_stores _ = []"

definition reserved_attributes :: "scan_env \<Rightarrow> string list" where
  "reserved_attributes env =
     (case sc_base_source env of
        None \<Rightarrow> []
      | Some source \<Rightarrow>
          (case sc_parse env source of
             Inl _ \<Rightarrow> []
           | Inr tree \<Rightarrow>
               concat (map (\<lambda>c. concat (map member_names (body_of c)) @ concat (map self_stores (walk c)))
                 (filter (\<lambda>c. class_name_of c = ''BasePortfolio'') (class_defs tree)))))"

section \<open>The compatibility check\<close>

definition ondata_method :: string where
  "ondata_method = ''OnData''"

definition ondata_misspellings :: "string list" where
  "ondata_misspellings = [''on_data'', ''ondata'', ''onData'', ''On_Data'']"

fun is_method :: "string \<Rightarrow> ast \<Rightarrow> bool" where
  "is_method nm (FunctionDef _ _ nm' _ _ _ _) = (nm' = nm)"
| "is_method nm _ = False"

definition method_named :: "ast \<Rightarrow> string \<Rightarrow> ast option" where
  "method_named strategy nm = find (is_method nm) (body_of strategy)"

fun binds :: "string \<Rightarrow> ast \<Rightarrow> bool" where
  "binds nm (Assign _ targets _) = (nm \<in> set (name_ids targets))"
| "binds nm (AnnAssign _ target _ _) = (nm \<in> set (name_ids [target]))"
| "binds nm _ = False"

definition assigns_attribute :: "ast \<Rightarrow> string \<Rightarrow> bool" where
  "assigns_attribute strategy nm = list_ex (binds nm) (body_of strategy)"

fun is_async :: "ast \<Rightarrow> bool" where
  "is_async (FunctionDef _ a _ _ _ _ _) = a"
| "is_async _ = False"

fun function_name :: "ast \<Rightarrow> string" where
  "function_name (FunctionDef _ _ nm _ _ _ _) = nm"
| "function_name _ = []"

fun decorators_of :: "ast \<Rightarrow> ast list" where
  "decorators_of (FunctionDef _ _ _ _ _ decs _) = decs"
| "decorators_of _ = []"

definition has_decorator :: "ast \<Rightarrow> string \<Rightarrow> bool" where
  "has_decorator m nm = (nm \<in> set (name_ids (decorators_of m)))"

fun positional :: "ast \<Rightarrow> nat" where
  "positional (FunctionDef _ _ _ (Arguments ps ar _ _) _ _ _) = length ps + length ar"
| "positional _ = 0"

fun has_vararg :: "ast \<Rightarrow> bool" where
  "has_vararg (FunctionDef _ _ _ (Arguments _ _ va _) _ _ _) = (va \<noteq> None)"
| "has_vararg _ = False"

definition signature_issues :: "ast \<Rightarrow> (int \<times> complaint) list" where
  "signature_issues m =
     (let required = (if has_decorator m ''staticmethod'' then 1 else 2)
      in (if is_async m then [(line_or_zero m, Async_OnData)] else [])
        @ (if positional m < required \<and> \<not> has_vararg m
           then [(line_or_zero m, Few_Arguments (positional m) required)] else []))"

definition contract_issues :: "scan_env \<Rightarrow> ast \<Rightarrow> (int \<times> complaint) list" where
  "contract_issues env strategy =
     (case method_named strategy ondata_method of
        Some m \<Rightarrow> signature_issues m
      | None \<Rightarrow>
          if assigns_attribute strategy ondata_method then []
          else (case find (\<lambda>nm. method_named strategy nm \<noteq> None) (sc_spellings env) of
              Some nm \<Rightarrow>
                (let m = the (method_named strategy nm)
                 in [(line_or_zero m, Misspelled_OnData (class_name_of strategy) (function_name m))])
            | None \<Rightarrow> [(line_or_zero strategy, Missing_OnData (class_name_of strategy))]))"

fun is_super_init :: "ast \<Rightarrow> bool" where
  "is_super_init (Call _ (Attribute _ (Call _ (Name _ ident) _ _) attr _) _ _) =
     (attr = ''__init__'' \<and> ident = ''super'')"
| "is_super_init _ = False"

definition calls_super_init :: "ast \<Rightarrow> bool" where
  "calls_super_init m = list_ex is_super_init (walk m)"

definition contract_warnings :: "ast \<Rightarrow> (int \<times> complaint) list" where
  "contract_warnings strategy =
     (case method_named strategy ''__init__'' of
        None \<Rightarrow> []
      | Some m \<Rightarrow>
          if calls_super_init m then []
          else [(line_or_zero m, Super_Init_Skipped (class_name_of strategy))])"

record compatibility_report =
  compatible :: bool
  report_class :: "string option"
  report_issues :: "(int \<times> complaint) list"
  report_warnings :: "(int \<times> complaint) list"

definition deduplicated :: "(int \<times> complaint) list \<Rightarrow> (int \<times> complaint) list" where
  "deduplicated xs = sort_key fst (first_occurrences xs)"

definition violation_issues :: "ast \<Rightarrow> (int \<times> complaint) list" where
  "violation_issues tree =
     map (\<lambda>n. (line_or_zero n, the (violation n))) (filter (\<lambda>n. violation n \<noteq> None) (walk tree))"

definition check_compatibility :: "scan_env \<Rightarrow> string \<Rightarrow> compatibility_report" where
  "check_compatibility env source =
     (case sc_parse env source of
        Inl (line, msg) \<Rightarrow>
          \<lparr>compatible = False, report_class = None, report_issues = [(line, Invalid_Syntax msg)],
           report_warnings = []\<rparr>
      | Inr tree \<Rightarrow>
          (let (cls, found, warns) =
             (case strategy_class_nodes tree of
                [] \<Rightarrow> (None, [(0, No_Strategy)], [])
              | [strategy] \<Rightarrow>
                  (Some (class_name_of strategy),
                   contract_issues env strategy @ indicator_issues env strategy,
                   contract_warnings strategy)
              | c # d # cs \<Rightarrow>
                  (None, [(line_or_zero d, Several_Strategies (sort (map class_name_of (c # d # cs))))], []));
               issues = deduplicated (violation_issues tree @ found)
           in \<lparr>compatible = (issues = []), report_class = cls, report_issues = issues,
               report_warnings = deduplicated warns\<rparr>))"

end
