(* ===== verification/Authoring.thy ===== *)
theory Authoring
  imports Scanner
begin

text \<open>
  Fragment authoring, \<open>src/services/strategy_validation/authoring.py\<close>: the statements of
  \<open>OnData\<close> and a list of indicators become a file. \<open>repr\<close> of a dictionary is the argument
  \<open>repr\<close>, which writes no line break. A draft the module refuses raises a \<open>scaffold_escape\<close>.
\<close>

abbreviation newline :: char where "newline \<equiv> CHR 0x0A"

definition generated_class_name :: string where
  "generated_class_name = ''MyStrategy''"

definition body_indent :: string where
  "body_indent = replicate 8 (CHR '' '')"

definition empty_body :: string where
  "empty_body = ''pass''"

datatype scaffold_escape = Not_Identifier string | Shared_Attribute string
  | Outside_Class | Class_Replaced | Methods_Changed | Past_Method

text \<open>\<open>_IDENTIFIER.match\<close>: the dollar sign also matches before a final line break.\<close>

definition ident_start :: "char \<Rightarrow> bool" where
  "ident_start c \<longleftrightarrow> is_upper c \<or> is_lower c \<or> c = CHR ''_''"

definition ident_chars :: "string \<Rightarrow> bool" where
  "ident_chars s \<longleftrightarrow> s \<noteq> [] \<and> ident_start (hd s) \<and> list_all (\<lambda>c. ident_start c \<or> is_digit c) s"

definition is_identifier :: "string \<Rightarrow> bool" where
  "is_identifier s \<longleftrightarrow> ident_chars s \<or> (s \<noteq> [] \<and> last s = newline \<and> ident_chars (butlast s))"

record indicator_spec =
  attribute :: string
  indicator_name :: string
  params :: "(string \<times> pyval) list"

record strategy_draft =
  draft_body :: string
  draft_indicators :: "indicator_spec list"
  draft_state :: "(string \<times> pyval) list option"
  docstring :: string

record assembled =
  assembled_source :: string
  body_offset :: nat
  body_lines :: nat

type_synonym dict_repr = "(string \<times> pyval) list \<Rightarrow> string"

fun check_specs :: "string list \<Rightarrow> indicator_spec list \<Rightarrow> scaffold_escape + unit" where
  "check_specs seen [] = Inr ()"
| "check_specs seen (spec # specs) =
     (if \<not> is_identifier (attribute spec) then Inl (Not_Identifier (attribute spec))
      else if \<not> is_identifier (indicator_name spec) then Inl (Not_Identifier (indicator_name spec))
      else if attribute spec \<in> set seen then Inl (Shared_Attribute (attribute spec))
      else check_specs (attribute spec # seen) specs)"

abbreviation quote :: char where "quote \<equiv> CHR 0x22"

definition render_spec :: "dict_repr \<Rightarrow> indicator_spec \<Rightarrow> string" where
  "render_spec repr spec = [newline] @ body_indent @ [quote] @ attribute spec @ [quote] @ '': ('' @ [quote]
     @ indicator_name spec @ [quote] @ '', '' @ repr (params spec) @ ''),''"

definition render_indicators :: "dict_repr \<Rightarrow> indicator_spec list \<Rightarrow> scaffold_escape + string" where
  "render_indicators repr specs =
     (if specs = [] then Inr []
      else ebind (check_specs [] specs) (\<lambda>_.
        Inr (concat (map (render_spec repr) (sort_key attribute specs)) @ [newline] @ ''    '')))"

text \<open>\<open>str.replace\<close>, left to right without overlap.\<close>

function replace_text :: "string \<Rightarrow> string \<Rightarrow> string \<Rightarrow> string" where
  "replace_text old new s =
     (if old = [] \<or> s = [] then s
      else if take (length old) s = old then new @ replace_text old new (drop (length old) s)
      else hd s # replace_text old new (tl s))"
  by pat_completeness auto
termination
  by (relation "measure (\<lambda>(old, new, s). length s)") auto

declare replace_text.simps [simp del]

definition blank :: "string \<Rightarrow> bool" where
  "blank line \<longleftrightarrow> strip line = []"

definition normalise_fragment :: "string \<Rightarrow> string list" where
  "normalise_fragment body =
     (let t = replace_text [CHR 0x09] ''    '' (replace_text [CHR 0x0D] [newline]
                (replace_text [CHR 0x0D, newline] [newline] body));
          lines = rev (dropWhile blank (rev (split_on newline t)))
      in if lines = [] then [empty_body] else lines)"

text \<open>\<open>_PRELUDE\<close>, filled in.\<close>

definition prelude_text :: "string \<Rightarrow> string \<Rightarrow> string \<Rightarrow> string" where
  "prelude_text doc indicators state =
     ''from engine.strategies.order_interface import StrategyContext'' @ [newline]
     @ ''from engine.strategies.portfolio_BASE.strategy import BasePortfolio'' @ [newline, newline, newline]
     @ ''class '' @ generated_class_name @ ''(BasePortfolio):'' @ [newline]
     @ ''    '' @ [quote, quote, quote] @ doc @ [quote, quote, quote] @ [newline, newline]
     @ ''    INDICATORS = {'' @ indicators @ ''}'' @ [newline, newline]
     @ ''    STATE = '' @ state @ [newline, newline]
     @ ''    def OnData(self, context: StrategyContext):'' @ [newline]"

definition count_newlines :: "string \<Rightarrow> nat" where
  "count_newlines s = length (filter (\<lambda>c. c = newline) s)"

definition indent_line :: "string \<Rightarrow> string" where
  "indent_line line = (if blank line then [] else body_indent @ line)"

definition assemble :: "dict_repr \<Rightarrow> strategy_draft \<Rightarrow> scaffold_escape + assembled" where
  "assemble repr draft =
     ebind (render_indicators repr (draft_indicators draft)) (\<lambda>indicators.
       let prelude = prelude_text
             (replace_text [quote, quote, quote] [CHR 0x27, CHR 0x27, CHR 0x27] (docstring draft))
             indicators
             (repr (case draft_state draft of None \<Rightarrow> [] | Some d \<Rightarrow> d));
           lines = normalise_fragment (draft_body draft)
       in Inr \<lparr>assembled_source = prelude @ join_with newline (map indent_line lines) @ [newline],
               body_offset = count_newlines prelude + 1, body_lines = length lines\<rparr>)"

fun is_import :: "ast \<Rightarrow> bool" where
  "is_import (Import _ _) = True"
| "is_import (ImportFrom _ _ _) = True"
| "is_import _ = False"

fun is_function :: "ast \<Rightarrow> bool" where
  "is_function (FunctionDef _ _ _ _ _ _ _) = True"
| "is_function _ = False"

fun function_body :: "ast \<Rightarrow> ast list" where
  "function_body (FunctionDef _ _ _ _ body _ _) = body"
| "function_body _ = []"

fun module_body :: "ast \<Rightarrow> ast list" where
  "module_body (Module body) = body"
| "module_body _ = []"

definition in_span :: "assembled \<Rightarrow> int \<Rightarrow> bool" where
  "in_span a line \<longleftrightarrow> int (body_offset a) \<le> line \<and> line < int (body_offset a + body_lines a)"

definition off_span :: "assembled \<Rightarrow> ast \<Rightarrow> bool" where
  "off_span a n \<longleftrightarrow> (case lineno n of None \<Rightarrow> False | Some l \<Rightarrow> \<not> in_span a l)"

definition assert_shape :: "parser \<Rightarrow> assembled \<Rightarrow> scaffold_escape + unit" where
  "assert_shape parse a =
     (case parse (assembled_source a) of
        Inl _ \<Rightarrow> Inr ()
      | Inr tree \<Rightarrow>
          (case filter (\<lambda>n. \<not> is_import n) (module_body tree) of
             [cls] \<Rightarrow>
               if \<not> is_class cls then Inl Outside_Class
               else if class_name_of cls \<noteq> generated_class_name
                 \<or> \<not> list_ex (is_name_in [base_class_name]) (bases_of cls) then Inl Class_Replaced
               else (case filter is_function (body_of cls) of
                   [m] \<Rightarrow>
                     if function_name m \<noteq> ''OnData'' then Inl Methods_Changed
                     else if list_ex (\<lambda>st. list_ex (off_span a) (walk st)) (function_body m)
                       then Inl Past_Method
                     else Inr ()
                 | _ \<Rightarrow> Inl Methods_Changed)
           | _ \<Rightarrow> Inl Outside_Class))"

definition remap :: "assembled \<Rightarrow> int \<times> complaint \<Rightarrow> int \<times> complaint" where
  "remap a issue =
     (if fst issue = 0 then issue
      else if in_span a (fst issue) then (fst issue - int (body_offset a) + 1, snd issue)
      else (0, Scaffold_At_Fault (snd issue)))"

definition assemble_checked :: "dict_repr \<Rightarrow> parser \<Rightarrow> strategy_draft \<Rightarrow> scaffold_escape + assembled" where
  "assemble_checked repr parse draft =
     ebind (assemble repr draft) (\<lambda>a. ebind (assert_shape parse a) (\<lambda>_. Inr a))"

definition check_draft :: "dict_repr \<Rightarrow> scan_env \<Rightarrow> strategy_draft \<Rightarrow> scaffold_escape + compatibility_report" where
  "check_draft repr env draft =
     ebind (assemble_checked repr (sc_parse env) draft) (\<lambda>a.
       let report = check_compatibility env (assembled_source a)
       in Inr (report\<lparr>report_issues := map (remap a) (report_issues report),
                      report_warnings := map (remap a) (report_warnings report)\<rparr>))"

end
