(* ===== verification/Scanner_Claims.thy ===== *)
theory Scanner_Claims
  imports Scanner
begin

text \<open>
  What the scan promises: an accepted file holds no refused construct at any depth and exactly one
  class that descends from the base class; and the compatibility check never passes a file the
  scan refuses, nor hides from an author what the scan will say.
\<close>

section \<open>Walks and descent\<close>

inductive part_of :: "ast \<Rightarrow> ast \<Rightarrow> bool" where
  whole: "part_of t t"
| child: "part_of t m \<Longrightarrow> n \<in> set (child_nodes m) \<Longrightarrow> part_of t n"

lemma part_of_child: "part_of c n \<Longrightarrow> c \<in> set (child_nodes t) \<Longrightarrow> part_of t n"
  by (induction rule: part_of.induct) (auto intro: part_of.intros)

lemma part_of_cases_down: "part_of t n \<longleftrightarrow> n = t \<or> (\<exists>c\<in>set (child_nodes t). part_of c n)"
proof
  assume "part_of t n"
  then show "n = t \<or> (\<exists>c\<in>set (child_nodes t). part_of c n)"
    by induction (auto intro: part_of.intros)
qed (auto intro: whole part_of_child)

lemma set_walk_queue: "n \<in> set (walk_queue q) \<longleftrightarrow> (\<exists>t\<in>set q. part_of t n)"
proof (induction q rule: walk_queue.induct)
  case (2 t todo)
  then show ?case using part_of_cases_down [of t n] by auto
qed simp

lemma set_walk: "n \<in> set (walk tree) \<longleftrightarrow> part_of tree n"
  by (simp add: walk_def set_walk_queue del: walk_queue.simps)

inductive heir :: "ast list \<Rightarrow> string \<Rightarrow> bool" for classes where
  direct: "c \<in> set classes \<Longrightarrow> extends_base_portfolio c \<Longrightarrow> heir classes (class_name_of c)"
| inherits: "c \<in> set classes \<Longrightarrow> heir classes b \<Longrightarrow> list_ex (is_name_in [b]) (bases_of c)
    \<Longrightarrow> heir classes (class_name_of c)"

lemma is_name_in_iff: "is_name_in known b \<longleftrightarrow> (\<exists>nm\<in>set known. is_name_in [nm] b)"
  by (cases "(known, b)" rule: is_name_in.cases) auto

lemma list_ex_name_in: "list_ex (is_name_in known) bs \<longleftrightarrow> (\<exists>nm\<in>set known. list_ex (is_name_in [nm]) bs)"
  by (auto simp: list_ex_iff is_name_in_iff [of known])

lemma set_grown: "x \<in> set (grown classes known) \<longleftrightarrow> (\<exists>c\<in>set classes. x = class_name_of c
    \<and> x \<notin> set known \<and> (\<exists>nm\<in>set known. list_ex (is_name_in [nm]) (bases_of c)))"
  by (auto simp: grown_def list_ex_name_in [of known])

lemma grown_heirs:
  assumes "\<forall>x\<in>set known. heir classes x" "x \<in> set (grown classes known)"
  shows "heir classes x"
proof -
  obtain c nm where "c \<in> set classes" "x = class_name_of c" "nm \<in> set known"
    "list_ex (is_name_in [nm]) (bases_of c)"
    using assms(2) by (auto simp: set_grown)
  then show ?thesis using assms(1) heir.inherits [of c classes nm] by simp
qed

lemma grow_names_heirs:
  assumes "class_name_of ` {c \<in> set classes. extends_base_portfolio c} \<subseteq> set known"
    "\<forall>x\<in>set known. heir classes x"
  shows "x \<in> set (grow_names classes known) \<longleftrightarrow> heir classes x"
  using assms
proof (induction classes known rule: grow_names.induct)
  case (1 classes known)
  show ?case
  proof (cases "grown classes known = []")
    case True
    have "heir classes x \<Longrightarrow> x \<in> set known"
    proof (induction rule: heir.induct)
      case (direct c)
      then show ?case using "1.prems"(1) by auto
    next
      case (inherits c b)
      then have "class_name_of c \<notin> set known \<Longrightarrow> class_name_of c \<in> set (grown classes known)"
        by (auto simp: set_grown)
      then show ?case using True by auto
    qed
    with True "1.prems"(2) show ?thesis by (auto simp: grow_names.simps [of classes known])
  next
    case False
    have "\<forall>x\<in>set (known @ grown classes known). heir classes x"
      using "1.prems"(2) grown_heirs by auto
    with "1.IH" [OF False] "1.prems"(1)
    show ?thesis using False by (auto simp: grow_names.simps [of classes known])
  qed
qed

lemma strategy_class_nodes_heirs:
  "strategy_class_nodes tree =
     (let classes = filter is_class (walk tree) in filter (\<lambda>c. heir classes (class_name_of c)) classes)"
proof -
  let ?cs = "filter is_class (walk tree)"
  have "x \<in> set (grow_names ?cs (map class_name_of (filter extends_base_portfolio ?cs))) \<longleftrightarrow> heir ?cs x" for x
    by (rule grow_names_heirs) (auto intro: heir.direct)
  then show ?thesis by (simp add: strategy_class_nodes_def Let_def)
qed

section \<open>The scan\<close>

lemma filter_ConsD: "filter P xs = y # ys \<Longrightarrow> y \<in> set xs \<and> P y"
proof -
  assume "filter P xs = y # ys"
  then have "y \<in> set (filter P xs)" by simp
  then show ?thesis by simp
qed

lemma violation_line: "violation n = Some c \<Longrightarrow> \<exists>l. lineno n = Some l"
  by (cases n) auto

lemma scan_source_exact: "scan_source parse source = Inr nm \<longleftrightarrow>
  (\<exists>tree. parse source = Inr tree \<and> (\<forall>n. part_of tree n \<longrightarrow> violation n = None)
     \<and> map class_name_of (strategy_class_nodes tree) = [nm])"
  by (auto simp: scan_source_def sole_strategy_class_name_def filter_empty_conv set_walk
      split: sum.splits list.splits dest!: filter_ConsD)

lemma clean_import: "violation (Import l ms) = None \<longleftrightarrow> root_package ` set ms \<subseteq> set allowed_import_roots"
  by (auto simp: filter_empty_conv split: list.splits dest!: filter_ConsD)

text \<open>C7: An accepted upload imports, at any depth of its syntax tree, nothing but modules below the
  allowed packages and nothing relatively; it nowhere mentions a banned name, a banned attribute, or an
  attribute of a name that spells a banned module; and of the classes it defines anywhere exactly one
  descends, through classes of the file, from the base class: the one the scan reports.\<close>

theorem accepted_source_clean:
  assumes "scan_source parse source = Inr nm"
  shows "\<exists>tree. parse source = Inr tree
    \<and> (\<forall>l ms. part_of tree (Import l ms) \<longrightarrow> root_package ` set ms \<subseteq> set allowed_import_roots)
    \<and> (\<forall>l md level. part_of tree (ImportFrom l md level) \<longrightarrow>
          level = 0 \<and> (\<exists>m. md = Some m \<and> root_package m \<in> set allowed_import_roots))
    \<and> (\<forall>l ident. part_of tree (Name l ident) \<longrightarrow> ident \<notin> set banned_names)
    \<and> (\<forall>l v attr st. part_of tree (Attribute l v attr st) \<longrightarrow>
          attr \<notin> set banned_attributes \<and> (\<forall>l' ident. v = Name l' ident \<longrightarrow> ident \<notin> set banned_module_roots))
    \<and> (\<exists>c. filter (\<lambda>c. heir (filter is_class (walk tree)) (class_name_of c)) (filter is_class (walk tree)) = [c]
          \<and> part_of tree c \<and> class_name_of c = nm)"
proof -
  obtain tree where tree: "parse source = Inr tree" "map class_name_of (strategy_class_nodes tree) = [nm]"
    and clean: "\<And>n. part_of tree n \<Longrightarrow> violation n = None"
    using assms unfolding scan_source_exact by (elim exE conjE) (rule that, auto)
  have froms: "level = 0 \<and> (\<exists>m. md = Some m \<and> root_package m \<in> set allowed_import_roots)"
    if "part_of tree (ImportFrom l md level)" for l md level
    using clean [OF that]
    by (auto simp: Let_def root_package_def allowed_import_roots_def split: if_splits option.splits)
  have plain: "root_package ` set ms \<subseteq> set allowed_import_roots" if "part_of tree (Import l ms)" for l ms
    using clean [OF that] by (simp only: clean_import)
  have names: "ident \<notin> set banned_names" if "part_of tree (Name l ident)" for l ident
    using clean [OF that] by (simp split: if_splits)
  have attrs: "attr \<notin> set banned_attributes \<and> (\<forall>l' ident. v = Name l' ident \<longrightarrow> ident \<notin> set banned_module_roots)"
    if "part_of tree (Attribute l v attr st)" for l v attr st
    using clean [OF that] by (auto split: if_splits)
  obtain c where c: "strategy_class_nodes tree = [c]" "class_name_of c = nm"
    using tree(2) by auto
  then have "c \<in> set (strategy_class_nodes tree)" by simp
  then have "part_of tree c" by (auto simp: strategy_class_nodes_def Let_def set_walk)
  moreover have "filter (\<lambda>c. heir (filter is_class (walk tree)) (class_name_of c)) (filter is_class (walk tree)) = [c]"
    using c(1) by (simp only: strategy_class_nodes_heirs Let_def)
  ultimately have "\<exists>c. filter (\<lambda>c. heir (filter is_class (walk tree)) (class_name_of c))
      (filter is_class (walk tree)) = [c] \<and> part_of tree c \<and> class_name_of c = nm"
    using c(2) by blast
  with tree(1) froms plain names attrs show ?thesis
    by (intro exI [of _ tree]) blast
qed

text \<open>A file with both kinds of import, a helper class and a strategy; its body is the argument.\<close>

definition demo_tree :: "ast list \<Rightarrow> ast" where
  "demo_tree body = Module [ImportFrom 1 (Some ''engine.strategies'') 0, Import 2 [''numpy.linalg''],
     ClassDef 3 ''Helper'' [] [] [] [] [],
     ClassDef 4 ''Actual'' [Attribute 4 (Name 4 ''strategy'') ''BasePortfolio'' False] []
       [FunctionDef 5 False ''OnData'' (Arguments [] [Other (Some 5) [], Other (Some 5) []] None []) body [] []]
       [] []]"

definition demo_parse :: parser where
  "demo_parse source =
     (if source = ''plain'' then Inr (demo_tree [Other (Some 6) []])
      else if source = ''reaching'' then
        Inr (demo_tree [Call 7 (Attribute 7 (Name 7 ''os'') ''system'' False) [] []])
      else Inl (1, ''invalid syntax''))"

lemma demo_scan: "scan_source demo_parse ''plain'' = Inr ''Actual''"
  by code_simp

theorem accepted_source_clean_witness:
  "\<exists>tree. demo_parse ''plain'' = Inr tree \<and> \<not> part_of tree (Name 7 ''eval'')"
proof -
  obtain tree where "demo_parse ''plain'' = Inr tree"
    and names: "\<forall>l ident. part_of tree (Name l ident) \<longrightarrow> ident \<notin> set banned_names"
    using accepted_source_clean [OF demo_scan] by (elim exE conjE) (rule that)
  moreover have "''eval'' \<in> set banned_names" by code_simp
  ultimately show ?thesis by metis
qed

section \<open>The compatibility check\<close>

lemma set_deduplicated [simp]: "set (deduplicated xs) = set xs"
  by (simp add: deduplicated_def)

lemma deduplicated_in_line_order: "sorted (map fst (deduplicated xs)) \<and> distinct (deduplicated xs)"
  by (simp add: deduplicated_def first_occurrences_def)

lemma deduplicated_empty [simp]: "deduplicated xs = [] \<longleftrightarrow> xs = []"
  using set_deduplicated [of xs] by (metis set_empty)

lemma violation_issues_empty: "violation_issues tree = [] \<longleftrightarrow> (\<forall>n. part_of tree n \<longrightarrow> violation n = None)"
  by (auto simp: violation_issues_def filter_empty_conv set_walk)

text \<open>The check and the scan read a file alike. A refusal of the scan is among the problems the check
  lists, on the same line, and the check does not pass the file; a file the scan accepts gets no problem but those of the
  engine's contract and the indicators, with the same class name, and passes when there are none. The
  problems come in line order, each once.\<close>

theorem check_agrees_with_scan:
  "let report = check_compatibility env source in
     sorted (map fst (report_issues report)) \<and> distinct (report_issues report)
     \<and> (case scan_source (sc_parse env) source of
          Inl (line, c) \<Rightarrow> \<not> compatible report
            \<and> (case line of None \<Rightarrow> c \<in> snd ` set (report_issues report)
               | Some l \<Rightarrow> (l, c) \<in> set (report_issues report))
        | Inr nm \<Rightarrow> report_class report = Some nm
            \<and> (\<exists>strategy. strategy_class_nodes (projr (sc_parse env source)) = [strategy]
                \<and> set (report_issues report) = set (contract_issues env strategy @ indicator_issues env strategy)
                \<and> compatible report = (contract_issues env strategy @ indicator_issues env strategy = [])))"
proof (cases "sc_parse env source")
  case (Inl e)
  then show ?thesis by (cases e) (simp add: check_compatibility_def scan_source_def)
next
  case (Inr tree)
  show ?thesis
  proof (cases "filter (\<lambda>n. violation n \<noteq> None) (walk tree)")
    case (Cons n ns)
    then have viol: "n \<in> set (walk tree)" "violation n \<noteq> None" by (auto dest: filter_ConsD)
    then obtain c where c: "violation n = Some c" by blast
    then obtain l where l: "lineno n = Some l" using violation_line by blast
    have "(l, c) \<in> set (violation_issues tree)"
      using viol(1) c l by (force simp: violation_issues_def line_or_zero_def image_iff)
    then show ?thesis
      using Inr Cons c l deduplicated_in_line_order
      by (auto simp: check_compatibility_def scan_source_def Let_def split: list.splits prod.splits)
  next
    case Nil
    then have none: "violation_issues tree = []" by (simp add: violation_issues_def)
    show ?thesis
      using Inr Nil none deduplicated_in_line_order
      by (auto simp: check_compatibility_def scan_source_def sole_strategy_class_name_def Let_def
          simp del: set_append split: list.splits prod.splits)
  qed
qed

text \<open>The last part of \<open>BANNED_MODULE_ROOTS\<close>: a module reached through another module's
  attribute is not a \<open>Name\<close>, so its use is not refused.\<close>

lemma module_behind_attribute_slips:
  "violation (Attribute 3 (Attribute 3 (Attribute 3 (Name 3 ''pandas'') ''io'' False) ''os'' False) ''system'' False) = None"
  by code_simp

text \<open>An annotated declaration is checked by the editor's check but missing from the catalogue's listing.\<close>

lemma annotated_declaration_unlisted:
  assumes "parse source = Inr (Module [ClassDef 1 ''S'' [] []
      [AnnAssign 2 (Name 2 ''INDICATORS'') (Name 2 ''dict'')
        (Some (Dict 2 [Some (Constant 2 (Some ''fast''))] [Tuple 2 [Constant 2 (Some ''VWAP''), Dict 2 [] []]]))] [] []])"
  shows "declared_indicators parse source = []"
  using assms by (simp add: declared_indicators_def walk_def present_def)

text \<open>The engine's class names and the modules it looks for.\<close>

lemma indicator_modules:
  "map camel_to_snake [''AverageTrueRange'', ''DisplacedMovingAverage'', ''ExponentialMovingAverage'', ''RateOfChange'',
      ''RelativeMomentumIndex'', ''RelativeStrengthIndex'', ''SimpleMovingAverage'', ''VWAP'']
   = [''average_true_range'', ''displaced_moving_average'', ''exponential_moving_average'', ''rate_of_change'',
      ''relative_momentum_index'', ''relative_strength_index'', ''simple_moving_average'', ''vwap'']"
  by code_simp

end
