(* ===== verification/Authoring_Claims.thy ===== *)
theory Authoring_Claims
  imports Authoring Scanner_Claims "HOL-Library.Multiset"
begin

text \<open>
  What authoring promises a member: problems are reported on the lines they wrote, the order in which
  indicators are listed does not change the file, and a draft that passes is the generated class.
\<close>

section \<open>Lines\<close>

lemma length_split_on: "length (split_on c s) = Suc (length (filter (\<lambda>x. x = c) s))"
proof (induction s)
  case (Cons x s)
  then show ?case by (cases "split_on c s") auto
qed simp

lemma split_on_free: "l \<in> set (split_on c s) \<Longrightarrow> c \<notin> set l"
proof (induction s arbitrary: l)
  case (Cons x s)
  then show ?case by (cases "split_on c s") (auto split: if_splits)
qed simp

lemma normalise_free: "l \<in> set (normalise_fragment body) \<Longrightarrow> newline \<notin> set l"
  by (auto simp: normalise_fragment_def Let_def empty_body_def dest!: set_dropWhileD dest: split_on_free split: if_splits)

lemma normalise_nonempty [simp]: "normalise_fragment body \<noteq> []"
  by (simp add: normalise_fragment_def Let_def)

lemma indent_line_free: "newline \<notin> set l \<Longrightarrow> newline \<notin> set (indent_line l)"
  by (auto simp: indent_line_def body_indent_def)

lemma split_on_lines:
  assumes "ls \<noteq> []" "list_all (\<lambda>l. c \<notin> set l) ls"
  shows "split_on c (q @ c # join_with c ls @ [c]) = split_on c q @ ls @ [[]]"
  using split_on_append [of c q] split_on_append [of c "join_with c ls" "[]"] split_on_join [OF assms] by simp

lemma prelude_ends: "\<exists>q. prelude_text doc ind st = q @ [newline]"
  by (simp add: prelude_text_def flip: append_assoc)

text \<open>The fragment's lines are the lines of the file from \<open>body_offset\<close> on.\<close>

lemma fragment_lines_in_place:
  assumes "assemble repr draft = Inr a" "i < body_lines a"
  shows "split_on newline (assembled_source a) ! (body_offset a + i - 1) = indent_line (normalise_fragment (draft_body draft) ! i)"
    "body_lines a = length (normalise_fragment (draft_body draft))" "0 < body_offset a"
proof -
  let ?ls = "normalise_fragment (draft_body draft)"
  obtain doc ind st where a: "a = \<lparr>assembled_source = prelude_text doc ind st
        @ join_with newline (map indent_line ?ls) @ [newline],
      body_offset = count_newlines (prelude_text doc ind st) + 1, body_lines = length ?ls\<rparr>"
    using assms(1) by (auto simp: assemble_def ebind_Inr_iff Let_def)
  obtain q where q: "prelude_text doc ind st = q @ [newline]" using prelude_ends by blast
  have "list_all (\<lambda>l. newline \<notin> set l) (map indent_line ?ls)"
    by (auto simp: list_all_iff dest!: normalise_free dest: indent_line_free)
  then have split: "split_on newline (assembled_source a) = split_on newline q @ map indent_line ?ls @ [[]]"
    using split_on_lines [of "map indent_line ?ls" newline q] a q by simp
  have "length (split_on newline q) = body_offset a - 1"
    using a q by (simp add: length_split_on count_newlines_def)
  then show "split_on newline (assembled_source a) ! (body_offset a + i - 1) = indent_line (?ls ! i)"
    using split assms(2) a by (simp add: nth_append)
  show "body_lines a = length ?ls" "0 < body_offset a" using a by simp_all
qed

lemma remap_cases:
  assumes "remap a issue = (l, c)"
  shows "l = 0 \<or> (1 \<le> l \<and> l \<le> int (body_lines a) \<and> issue = (int (body_offset a) + l - 1, c))"
  using assms by (cases issue) (auto simp: remap_def in_span_def split: if_splits)

section \<open>A small draft\<close>

definition demo_repr :: dict_repr where
  "demo_repr d = ''{}''"

definition demo_draft :: strategy_draft where
  "demo_draft = \<lparr>draft_body = ''x = 1'' @ [newline] @ ''eval(x)'',
     draft_indicators = [\<lparr>attribute = ''slow'', indicator_name = ''VWAP'', params = []\<rparr>,
       \<lparr>attribute = ''fast'', indicator_name = ''VWAP'', params = []\<rparr>],
     draft_state = None, docstring = ''Edge.''\<rparr>"

text \<open>The tree of its file; \<open>called\<close> is the name on the fragment's second line.\<close>

definition demo_generated :: "string \<Rightarrow> parser" where
  "demo_generated called source = Inr (Module [ImportFrom 1 (Some ''engine.strategies.order_interface'') 0,
     ClassDef 5 ''MyStrategy'' [Name 5 ''BasePortfolio''] []
       [FunctionDef 15 False ''OnData'' (Arguments [] [Other (Some 15) [], Other (Some 15) []] None [])
          [Assign 16 [Name 16 ''x''] (Constant 16 None), Other (Some 17) [Name 17 called]] [] []] [] []])"

definition demo_env :: "string \<Rightarrow> scan_env" where
  "demo_env called = \<lparr>sc_parse = demo_generated called, sc_directory = None, sc_base_source = None,
     sc_spellings = ondata_misspellings\<rparr>"

text \<open>C27: Every problem and every warning a draft's check reports either concerns the file as a whole or
  names a line of the member's own text: the check of the assembled file made the complaint on a line which holds
  that line of the fragment, indented.\<close>

theorem draft_issues_located:
  assumes "check_draft repr env draft = Inr report"
    "(l, c) \<in> set (report_issues report) \<or> (l, c) \<in> set (report_warnings report)" "l \<noteq> 0"
  shows "\<exists>a line. assemble_checked repr (sc_parse env) draft = Inr a
    \<and> (let raw = check_compatibility env (assembled_source a) in
         (line, c) \<in> set (report_issues raw) \<union> set (report_warnings raw))
    \<and> 1 \<le> l \<and> l \<le> int (length (normalise_fragment (draft_body draft)))
    \<and> split_on newline (assembled_source a) ! nat (line - 1)
        = indent_line (normalise_fragment (draft_body draft) ! nat (l - 1))"
proof -
  obtain a where a: "assemble_checked repr (sc_parse env) draft = Inr a" "assemble repr draft = Inr a"
    and report: "report_issues report = map (remap a) (report_issues (check_compatibility env (assembled_source a)))"
      "report_warnings report = map (remap a) (report_warnings (check_compatibility env (assembled_source a)))"
    using assms(1) by (auto simp: check_draft_def assemble_checked_def ebind_Inr_iff Let_def)
  let ?raw = "check_compatibility env (assembled_source a)"
  have "(l, c) \<in> remap a ` (set (report_issues ?raw) \<union> set (report_warnings ?raw))"
    using assms(2) report by auto
  then obtain issue where issue: "(l, c) = remap a issue"
    "issue \<in> set (report_issues ?raw) \<union> set (report_warnings ?raw)" by (rule imageE)
  have l: "1 \<le> l" "l \<le> int (body_lines a)" "issue = (int (body_offset a) + l - 1, c)"
    using remap_cases [OF issue(1) [symmetric]] assms(3) by auto
  have "nat (l - 1) < body_lines a" using l by simp
  note place = fragment_lines_in_place [OF a(2) this]
  have "nat (int (body_offset a) + l - 1 - 1) = body_offset a + nat (l - 1) - 1"
    using l(1) place(3) by linarith
  then show ?thesis
    using a(1) issue(2) l place by (intro exI [of _ a] exI [of _ "int (body_offset a) + l - 1"]) simp
qed

lemma demo_check: "case check_draft demo_repr (demo_env ''eval'') demo_draft of Inl _ \<Rightarrow> False
  | Inr report \<Rightarrow> (2, Banned_Name ''eval'') \<in> set (report_issues report)"
  by code_simp

theorem draft_issues_located_witness:
  "\<exists>report a line. check_draft demo_repr (demo_env ''eval'') demo_draft = Inr report
    \<and> (2, Banned_Name ''eval'') \<in> set (report_issues report)
    \<and> assemble_checked demo_repr (demo_generated ''eval'') demo_draft = Inr a
    \<and> (line, Banned_Name ''eval'') \<in> set (report_issues (check_compatibility (demo_env ''eval'') (assembled_source a)))
         \<union> set (report_warnings (check_compatibility (demo_env ''eval'') (assembled_source a)))
    \<and> split_on newline (assembled_source a) ! nat (line - 1)
        = indent_line (normalise_fragment (draft_body demo_draft) ! 1)"
proof -
  obtain report where report: "check_draft demo_repr (demo_env ''eval'') demo_draft = Inr report"
    "(2, Banned_Name ''eval'') \<in> set (report_issues report)"
    using demo_check by (auto split: sum.splits)
  have "(2 :: int) \<noteq> 0" "nat (2 - 1) = 1" "sc_parse (demo_env ''eval'') = demo_generated ''eval''"
    by (simp_all add: demo_env_def)
  with draft_issues_located [OF report(1) disjI1 [OF report(2)]] report show ?thesis
    unfolding Let_def by auto
qed

section \<open>The order of the indicators\<close>

lemma check_specs_ok: "check_specs seen specs = Inr () \<longleftrightarrow>
  (\<forall>spec\<in>set specs. is_identifier (attribute spec) \<and> is_identifier (indicator_name spec))
  \<and> attribute ` set specs \<inter> set seen = {} \<and> distinct (map attribute specs)"
proof (induction seen specs rule: check_specs.induct)
  case (2 seen spec specs)
  then show ?case
    by (cases "is_identifier (attribute spec)"; cases "is_identifier (indicator_name spec)";
        cases "attribute spec \<in> set seen") auto
qed simp

lemma render_indicators_order:
  assumes "mset specs = mset specs'" "render_indicators repr specs = Inr t"
  shows "render_indicators repr specs' = Inr t"
proof (cases "specs = []")
  case False
  have ok: "check_specs [] specs = Inr ()"
    using assms(2) False by (simp add: render_indicators_def ebind_Inr_iff)
  have "mset (map attribute specs') = mset (map attribute specs)" "set specs' = set specs"
    using assms(1) by (auto dest: mset_eq_setD)
  then have "check_specs [] specs' = Inr ()"
    using ok mset_eq_imp_distinct_iff [of "map attribute specs'" "map attribute specs"]
    by (simp add: check_specs_ok)
  moreover have "inj_on attribute (set specs)"
    using ok by (simp add: check_specs_ok distinct_map)
  then have "sort_key attribute specs' = sort_key attribute specs"
    using assms(1) by (intro sort_key_inj_key_eq) (simp_all add: mset_eq_setD [OF assms(1), symmetric])
  ultimately show ?thesis using assms ok False by (auto simp: render_indicators_def)
qed (use assms in simp)

text \<open>The file a draft becomes does not depend on the order in which its indicators are listed: a permutation of
  them assembles to the same text, offset and length.\<close>

theorem assembly_ignores_order:
  assumes "assemble repr draft = Inr a" "mset specs = mset (draft_indicators draft)"
  shows "assemble repr (draft\<lparr>draft_indicators := specs\<rparr>) = Inr a"
proof -
  obtain t where t: "render_indicators repr (draft_indicators draft) = Inr t"
    using assms(1) by (auto simp: assemble_def ebind_Inr_iff)
  then have "render_indicators repr specs = Inr t"
    using render_indicators_order assms(2) by metis
  then show ?thesis using assms(1) t by (simp add: assemble_def)
qed

lemma demo_assembles: "case assemble demo_repr demo_draft of Inl _ \<Rightarrow> False | Inr a \<Rightarrow> body_offset a = 16"
  by code_simp

theorem assembly_ignores_order_witness:
  "assemble demo_repr (demo_draft\<lparr>draft_indicators := rev (draft_indicators demo_draft)\<rparr>) = assemble demo_repr demo_draft"
proof -
  obtain a where "assemble demo_repr demo_draft = Inr a"
    using demo_assembles by (auto split: sum.splits)
  then show ?thesis
    using assembly_ignores_order [of demo_repr demo_draft a "rev (draft_indicators demo_draft)"] by simp
qed

section \<open>The generated class\<close>

text \<open>When a draft survives the structural assertions and its file passes the upload scan, the
  strategy the scan found is the generated class, and everything of its method lies on the member's lines.\<close>

theorem draft_scans_as_generated:
  assumes "assemble_checked repr parse draft = Inr a" "scan_source parse (assembled_source a) = Inr nm"
  shows "nm = generated_class_name
    \<and> (\<exists>tree cls m. parse (assembled_source a) = Inr tree \<and> part_of tree cls
        \<and> class_name_of cls = nm \<and> filter is_function (body_of cls) = [m] \<and> function_name m = ''OnData''
        \<and> (\<forall>st\<in>set (function_body m). \<forall>n. part_of st n \<longrightarrow>
              (case lineno n of None \<Rightarrow> True | Some line \<Rightarrow> in_span a line)))"
proof -
  obtain tree where tree: "parse (assembled_source a) = Inr tree"
    and sole: "map class_name_of (strategy_class_nodes tree) = [nm]"
    using assms(2) by (auto simp: scan_source_exact)
  have shape: "assert_shape parse a = Inr ()"
    using assms(1) by (auto simp: assemble_checked_def ebind_Inr_iff)
  then obtain cls m where cls: "filter (\<lambda>n. \<not> is_import n) (module_body tree) = [cls]" "is_class cls"
    "class_name_of cls = generated_class_name" "list_ex (is_name_in [base_class_name]) (bases_of cls)"
    and m: "filter is_function (body_of cls) = [m]" "function_name m = ''OnData''"
      "\<not> list_ex (\<lambda>st. list_ex (off_span a) (walk st)) (function_body m)"
    using tree by (auto simp: assert_shape_def split: list.splits if_splits)
  have "cls \<in> set (child_nodes tree)"
    using filter_ConsD [OF cls(1)] by (cases tree) auto
  then have part: "part_of tree cls" by (auto intro: part_of.intros)
  have "extends_base_portfolio cls"
    using cls(4) unfolding extends_base_portfolio_def list_ex_iff
    by (auto elim!: is_name_in.elims intro!: bexI)
  then have "heir (filter is_class (walk tree)) (class_name_of cls)"
    using part cls(2) by (intro heir.direct) (simp_all add: set_walk)
  then have "cls \<in> set (strategy_class_nodes tree)"
    using part cls(2) by (simp add: strategy_class_nodes_heirs Let_def set_walk)
  then have "class_name_of cls \<in> set [nm]" using sole by (metis image_eqI list.set_map)
  moreover have "case lineno n of None \<Rightarrow> True | Some line \<Rightarrow> in_span a line"
    if "st \<in> set (function_body m)" "part_of st n" for st n
    using m(3) that by (force simp: list_ex_iff set_walk off_span_def split: option.splits)
  ultimately show ?thesis using tree part cls(3) m(1,2) by auto
qed

lemma demo_passes: "case assemble_checked demo_repr (demo_generated ''print'') demo_draft of Inl _ \<Rightarrow> False
  | Inr a \<Rightarrow> scan_source (demo_generated ''print'') (assembled_source a) = Inr ''MyStrategy''"
  by code_simp

theorem draft_scans_as_generated_witness:
  "\<exists>a. assemble_checked demo_repr (demo_generated ''print'') demo_draft = Inr a
     \<and> (\<exists>tree cls. demo_generated ''print'' (assembled_source a) = Inr tree \<and> part_of tree cls
          \<and> class_name_of cls = ''MyStrategy'')"
proof -
  obtain a where a: "assemble_checked demo_repr (demo_generated ''print'') demo_draft = Inr a"
    "scan_source (demo_generated ''print'') (assembled_source a) = Inr ''MyStrategy''"
    using demo_passes by (auto split: sum.splits)
  show ?thesis using a(1) draft_scans_as_generated [OF a] by blast
qed

end
