(* ===== verification/Registry.thy ===== *)
theory Registry
  imports Authoring Strategy_Store Submission
begin

text \<open>
  The strategy registry: the queries of \<open>src/repositories/strategies.py\<close>, the catalogue service
  \<open>src/services/strategies.py\<close>, \<open>strategy_availability.py\<close>, and the validation
  start of \<open>strategy_validation/runs.py\<close>. The state is the table and the strategy
  store. A transaction is committed, rolled back, or committed with its reply lost; the last two
  raise. The store's operations, \<open>json.dumps\<close>, the parser, the hexadecimal suffix of a
  key, and the outcome of queueing a validation are arguments. ASCII names; a request's size
  limits are checked by its schema.
\<close>

section \<open>The table\<close>

record authored =
  au_body :: string
  au_indicators :: "indicator_spec list"
  au_state :: "(string \<times> pyval) list"

record catalogue_row =
  ct_owner :: "string option"
  ct_name :: string
  ct_description :: string
  ct_kind :: string
  ct_class_path :: "string option"
  ct_storage :: "string option"
  ct_status :: string
  ct_enabled :: bool
  ct_staging :: "string option"
  ct_authoring :: "authored option"
  ct_job :: "string option"
  ct_run :: "string option"
  ct_universe :: "string list"
  ct_specs :: "pyval list"

type_synonym rows = "(string, catalogue_row) dict"

record 's registry =
  rt_rows :: rows
  rt_store :: 's

datatype commit = Committed | Reply_Lost | Rolled_Back

definition transact :: "commit \<Rightarrow> 'a \<Rightarrow> 'a \<Rightarrow> 'a \<times> bool" where
  "transact c before after =
     (case c of Committed \<Rightarrow> (after, True) | Reply_Lost \<Rightarrow> (after, False) | Rolled_Back \<Rightarrow> (before, False))"

text \<open>The insert; a key that is taken violates the primary key, which rolls back.\<close>

definition create_strategy :: "string \<Rightarrow> catalogue_row \<Rightarrow> commit \<Rightarrow> rows \<Rightarrow> rows \<times> bool" where
  "create_strategy key row c rows =
     (if dict_get rows key \<noteq> None then (rows, False) else transact c rows (dict_set key row rows))"

definition delete_row :: "string \<Rightarrow> string \<Rightarrow> rows \<Rightarrow> rows \<times> bool" where
  "delete_row key owner rows =
     (case dict_get rows key of
        None \<Rightarrow> (rows, False)
      | Some row \<Rightarrow> if ct_owner row = Some owner then (dict_del key rows, True) else (rows, False))"

definition set_validation_state ::
  "string \<Rightarrow> string \<Rightarrow> bool \<Rightarrow> string option \<Rightarrow> rows \<Rightarrow> rows \<times> bool" where
  "set_validation_state key status enabled run rows =
     (case dict_get rows key of
        None \<Rightarrow> (rows, False)
      | Some row \<Rightarrow>
          (dict_set key (row\<lparr>ct_status := status, ct_enabled := enabled,
             ct_run := (if run = None then ct_run row else run)\<rparr>) rows, True))"

definition strategies_with_staged_source :: "rows \<Rightarrow> (string \<times> string) list" where
  "strategies_with_staged_source rows =
     concat (map (\<lambda>(key, row). case ct_staging row of
         None \<Rightarrow> []
       | Some source \<Rightarrow> if ct_kind row = ''user'' then [(key, source)] else []) rows)"

definition attach_validation_run :: "string \<Rightarrow> string \<Rightarrow> rows \<Rightarrow> rows" where
  "attach_validation_run key run rows =
     (case dict_get rows key of
        None \<Rightarrow> rows
      | Some row \<Rightarrow>
          if ct_kind row = ''user'' \<and> (ct_job row = None \<or> ct_job row = Some run)
          then dict_set key (row\<lparr>ct_job := Some run\<rparr>) rows else rows)"

definition adopt_staged_source :: "string \<Rightarrow> string \<Rightarrow> rows \<Rightarrow> rows" where
  "adopt_staged_source key storage rows =
     (case dict_get rows key of
        None \<Rightarrow> rows
      | Some row \<Rightarrow> dict_set key (row\<lparr>ct_storage := Some storage, ct_staging := None\<rparr>) rows)"

definition list_rows :: "bool \<Rightarrow> rows \<Rightarrow> (string \<times> catalogue_row) list" where
  "list_rows include_disabled rows =
     filter (\<lambda>(key, row). include_disabled \<or> ct_enabled row) (sort_key fst rows)"

text \<open>The verdict the worker writes when a validation run ends.\<close>

definition write_verdict :: "string \<Rightarrow> string \<Rightarrow> bool \<Rightarrow> rows \<Rightarrow> rows" where
  "write_verdict key run passed rows =
     (case dict_get rows key of
        None \<Rightarrow> rows
      | Some row \<Rightarrow>
          if ct_kind row \<noteq> ''user'' then rows
          else dict_set key (row\<lparr>ct_status := (if passed then ''active'' else ''failed_validation''),
                 ct_enabled := passed, ct_job := Some run\<rparr>) rows)"

section \<open>Availability\<close>

definition stored_package :: "'s store_ops \<Rightarrow> 's \<Rightarrow> string \<Rightarrow> 's \<times> (store_exn + bool)" where
  "stored_package ops s storage =
     (case st_get ops s storage source_filename of
        (s1, Inl x) \<Rightarrow> (s1, if x = StoreKeyError then Inr False else Inl x)
      | (s1, Inr _) \<Rightarrow>
          (case st_get ops s1 storage config_filename of
             (s2, Inl x) \<Rightarrow> (s2, if x = StoreKeyError then Inr False else Inl x)
           | (s2, Inr _) \<Rightarrow> (s2, Inr True)))"

definition package_available :: "'s store_ops \<Rightarrow> 's \<Rightarrow> string option \<Rightarrow> 's \<times> (store_exn + bool)" where
  "package_available ops s storage =
     (case storage of
        None \<Rightarrow> (s, Inr False)
      | Some k \<Rightarrow> if k = [] then (s, Inr False) else stored_package ops s k)"

section \<open>The catalogue\<close>

datatype origin = Builtin | Own | Community

definition origin_of :: "catalogue_row \<Rightarrow> string option \<Rightarrow> origin" where
  "origin_of row viewer =
     (if ct_kind row \<noteq> ''user'' then Builtin
      else if viewer \<noteq> None \<and> ct_owner row = viewer then Own else Community)"

definition client_status :: "string \<Rightarrow> string" where
  "client_status status =
     (if status = ''active'' then ''active'' else if status = ''archived'' then ''archived'' else ''draft'')"

text \<open>What the catalogue displays: the class, or the key while there is no import path, and the
  indicators; \<open>builtin\<close> reads a vendored file.\<close>

definition displayed_class :: "string \<Rightarrow> string option \<Rightarrow> string" where
  "displayed_class key class_path =
     (case class_path of None \<Rightarrow> key | Some p \<Rightarrow> if p = [] then key else last (split_on (CHR ''.'') p))"

definition row_indicators :: "(string \<Rightarrow> string list) \<Rightarrow> catalogue_row \<Rightarrow> string list" where
  "row_indicators builtin row =
     (let specs = (case ct_authoring row of None \<Rightarrow> [] | Some a \<Rightarrow> au_indicators a)
      in if specs \<noteq> [] then sort (remdups (map indicator_name specs))
         else case ct_class_path row of None \<Rightarrow> [] | Some p \<Rightarrow> if p = [] then [] else builtin p)"

definition given :: "string option \<Rightarrow> bool" where
  "given x \<longleftrightarrow> (case x of None \<Rightarrow> False | Some s \<Rightarrow> s \<noteq> [])"

definition available_row :: "'s store_ops \<Rightarrow> bool \<Rightarrow> 's \<Rightarrow> catalogue_row \<Rightarrow> 's \<times> (store_exn + bool)" where
  "available_row ops on_s3 s row =
     (if \<not> given (ct_storage row) then (s, Inr (\<not> on_s3 \<and> given (ct_class_path row)))
      else package_available ops s (ct_storage row))"

text \<open>\<open>asyncio.gather\<close> over the rows, taken in order; the checks only read.\<close>

fun available_rows ::
  "'s store_ops \<Rightarrow> bool \<Rightarrow> 's \<Rightarrow> (string \<times> catalogue_row) list \<Rightarrow> 's \<times> (store_exn + (string \<times> catalogue_row) list)" where
  "available_rows ops on_s3 s [] = (s, Inr [])"
| "available_rows ops on_s3 s (kr # krs) =
     (case available_row ops on_s3 s (snd kr) of
        (s1, Inl x) \<Rightarrow> (s1, Inl x)
      | (s1, Inr found) \<Rightarrow>
          (case available_rows ops on_s3 s1 krs of
             (s2, Inl x) \<Rightarrow> (s2, Inl x)
           | (s2, Inr rest) \<Rightarrow> (s2, Inr (if found then kr # rest else rest))))"

definition list_strategies ::
  "'s store_ops \<Rightarrow> bool \<Rightarrow> bool \<Rightarrow> 's registry \<Rightarrow> 's registry \<times> (store_exn + (string \<times> catalogue_row) list)" where
  "list_strategies ops on_s3 include_disabled rt =
     (case available_rows ops on_s3 (rt_store rt) (list_rows include_disabled (rt_rows rt)) of
        (s, r) \<Rightarrow> (rt\<lparr>rt_store := s\<rparr>, r))"

text \<open>\<open>_generate_key\<close>.\<close>

definition is_slug_char :: "char \<Rightarrow> bool" where
  "is_slug_char c \<longleftrightarrow> is_lower c \<or> is_digit c"

function dash_runs :: "string \<Rightarrow> string" where
  "dash_runs [] = []"
| "dash_runs (c # cs) =
     (if is_slug_char c then c # dash_runs cs
      else CHR ''-'' # dash_runs (dropWhile (\<lambda>c. \<not> is_slug_char c) cs))"
  by pat_completeness auto
termination
  by (relation "measure length") (auto simp: le_imp_less_Suc length_dropWhile_le)

definition slug :: "string \<Rightarrow> string" where
  "slug nm =
     (let s = take 40 (strip_char (CHR ''-'') (dash_runs (lower (strip nm))))
      in if s = [] then ''strategy'' else s)"

definition generate_key :: "string \<Rightarrow> string \<Rightarrow> string" where
  "generate_key nm hex = ''user-'' @ slug nm @ ''-'' @ hex"

section \<open>Uploading\<close>

datatype upload_error = Bad_Source "int option \<times> complaint" | Escaped scaffold_escape | Too_Large nat
  | Store_Error store_exn | Database_Error

text \<open>What the environment answers during one upload: whether the table can be read, the suffix, the
  fate of each transaction, whether the verifying read succeeds, how queueing the validation ends,
  and the verdict a fast worker may have written by then.\<close>

record upload_answers =
  ua_readable :: bool
  ua_adopt :: "string \<Rightarrow> commit"
  ua_hex :: string
  ua_create :: commit
  ua_verified :: bool
  ua_start :: "string + string"
  ua_mark :: commit
  ua_verdict :: "bool option"
  ua_attach :: commit

fun migrate_each ::
  "'s store_ops \<Rightarrow> (pyval \<Rightarrow> store_exn + string) \<Rightarrow> (string \<Rightarrow> commit) \<Rightarrow> 's registry
   \<Rightarrow> (string \<times> string) list \<Rightarrow> 's registry \<times> nat" where
  "migrate_each ops dumps adopt rt [] = (rt, 0)"
| "migrate_each ops dumps adopt rt ((key, source) # pending) =
     (case store_strategy_source ops dumps (rt_store rt) key source (build_config key) of
        (s, Inl _) \<Rightarrow> migrate_each ops dumps adopt (rt\<lparr>rt_store := s\<rparr>) pending
      | (s, Inr storage) \<Rightarrow>
          (let (rows, ok) = transact (adopt key) (rt_rows rt) (adopt_staged_source key storage (rt_rows rt));
               (rt', n) = migrate_each ops dumps adopt (rt\<lparr>rt_rows := rows, rt_store := s\<rparr>) pending
           in (rt', if ok then Suc n else n)))"

definition migrate_staged_sources ::
  "'s store_ops \<Rightarrow> (pyval \<Rightarrow> store_exn + string) \<Rightarrow> (string \<Rightarrow> commit) \<Rightarrow> 's registry \<Rightarrow> 's registry \<times> nat" where
  "migrate_staged_sources ops dumps adopt rt =
     migrate_each ops dumps adopt rt (strategies_with_staged_source (rt_rows rt))"

definition mark_validation_unstarted :: "string \<Rightarrow> commit \<Rightarrow> rows \<Rightarrow> rows" where
  "mark_validation_unstarted key c rows =
     fst (transact c rows (fst (set_validation_state key ''failed_validation'' False None rows)))"

definition begin_validation :: "upload_answers \<Rightarrow> string \<Rightarrow> rows \<Rightarrow> rows \<times> (upload_error + string option)" where
  "begin_validation ans key rows =
     (case ua_start ans of
        Inl _ \<Rightarrow> (mark_validation_unstarted key (ua_mark ans) rows, Inr None)
      | Inr run \<Rightarrow>
          let rows1 = (case ua_verdict ans of None \<Rightarrow> rows | Some passed \<Rightarrow> write_verdict key run passed rows);
              (rows2, ok) = transact (ua_attach ans) rows1 (attach_validation_run key run rows1)
          in (rows2, if ok then Inr (Some run) else Inl Database_Error))"

definition discard_unregistered_source ::
  "'s store_ops \<Rightarrow> bool \<Rightarrow> string \<Rightarrow> 's registry \<Rightarrow> 's registry" where
  "discard_unregistered_source ops readable key rt =
     (if readable \<and> dict_get (rt_rows rt) key = None
      then rt\<lparr>rt_store := discard_stored_source ops (rt_store rt) key\<rparr> else rt)"

definition fresh_row :: "string \<Rightarrow> string \<Rightarrow> string \<Rightarrow> authored option \<Rightarrow> string option \<Rightarrow> catalogue_row" where
  "fresh_row nm description storage authoring owner =
     \<lparr>ct_owner = owner, ct_name = nm, ct_description = description, ct_kind = ''user'', ct_class_path = None,
      ct_storage = Some storage, ct_status = ''validating'', ct_enabled = False, ct_staging = None,
      ct_authoring = authoring, ct_job = None, ct_run = None, ct_universe = default_tickers, ct_specs = parameter_specs\<rparr>"

text \<open>The answer is the key and the id of the validation run.\<close>

definition submit_strategy ::
  "'s store_ops \<Rightarrow> (pyval \<Rightarrow> store_exn + string) \<Rightarrow> parser \<Rightarrow> upload_answers \<Rightarrow> string \<Rightarrow> string \<Rightarrow> string
   \<Rightarrow> authored option \<Rightarrow> string option \<Rightarrow> 's registry \<Rightarrow> 's registry \<times> (upload_error + string \<times> string option)" where
  "submit_strategy ops dumps parse ans nm description source authoring owner rt =
     (case scan_source parse source of
        Inl refusal \<Rightarrow> (rt, Inl (Bad_Source refusal))
      | Inr _ \<Rightarrow>
          if \<not> ua_readable ans then (rt, Inl Database_Error)
          else let (rt1, _) = migrate_staged_sources ops dumps (ua_adopt ans) rt;
                   key = generate_key nm (ua_hex ans)
               in (case store_strategy_source ops dumps (rt_store rt1) key source (build_config key) of
                     (s, Inl x) \<Rightarrow> (rt1\<lparr>rt_store := s\<rparr>, Inl (Store_Error x))
                   | (s, Inr storage) \<Rightarrow>
                       let (rows, ok) = create_strategy key (fresh_row nm description storage authoring owner)
                             (ua_create ans) (rt_rows rt1);
                           rt2 = rt1\<lparr>rt_rows := rows, rt_store := s\<rparr>
                       in if \<not> ok then (discard_unregistered_source ops (ua_verified ans) key rt2, Inl Database_Error)
                          else (case begin_validation ans key rows of
                              (rows', Inl x) \<Rightarrow> (rt2\<lparr>rt_rows := rows'\<rparr>, Inl x)
                            | (rows', Inr run) \<Rightarrow> (rt2\<lparr>rt_rows := rows'\<rparr>, Inr (key, run)))))"

definition max_source_bytes :: nat where "max_source_bytes = 256 * 1024"

definition submit_draft ::
  "'s store_ops \<Rightarrow> (pyval \<Rightarrow> store_exn + string) \<Rightarrow> dict_repr \<Rightarrow> parser \<Rightarrow> upload_answers \<Rightarrow> string \<Rightarrow> string
   \<Rightarrow> strategy_draft \<Rightarrow> string option \<Rightarrow> 's registry \<Rightarrow> 's registry \<times> (upload_error + string \<times> string option)" where
  "submit_draft ops dumps repr parse ans nm description draft owner rt =
     (case assemble_checked repr parse draft of
        Inl x \<Rightarrow> (rt, Inl (Escaped x))
      | Inr a \<Rightarrow>
          if length (assembled_source a) > max_source_bytes then (rt, Inl (Too_Large (length (assembled_source a))))
          else submit_strategy ops dumps parse ans nm description (assembled_source a)
            (Some \<lparr>au_body = draft_body draft, au_indicators = draft_indicators draft,
               au_state = (case draft_state draft of None \<Rightarrow> [] | Some d \<Rightarrow> d)\<rparr>) owner rt)"

section \<open>Reading back and deleting\<close>

record strategy_source =
  ss_source :: string
  ss_authored :: "authored option"

definition get_strategy_source ::
  "'s store_ops \<Rightarrow> string \<Rightarrow> string \<Rightarrow> 's registry \<Rightarrow> 's registry \<times> (store_exn + strategy_source option)" where
  "get_strategy_source ops key owner rt =
     (case dict_get (rt_rows rt) key of
        None \<Rightarrow> (rt, Inr None)
      | Some row \<Rightarrow>
          if ct_owner row \<noteq> Some owner \<or> \<not> given (ct_storage row) then (rt, Inr None)
          else (case st_get ops (rt_store rt) (the (ct_storage row)) source_filename of
              (s, Inl x) \<Rightarrow> (rt\<lparr>rt_store := s\<rparr>, if x = StoreKeyError then Inr None else Inl x)
            | (s, Inr text) \<Rightarrow>
                (rt\<lparr>rt_store := s\<rparr>, Inr (Some \<lparr>ss_source = text, ss_authored = ct_authoring row\<rparr>))))"

datatype delete_error = Strategy_In_Use | Delete_Failed

text \<open>\<open>in_use\<close>: runs reference the row, so the foreign key refuses its deletion.\<close>

definition delete_strategy ::
  "'s store_ops \<Rightarrow> bool \<Rightarrow> commit \<Rightarrow> string \<Rightarrow> string \<Rightarrow> 's registry \<Rightarrow> 's registry \<times> (delete_error + bool)" where
  "delete_strategy ops in_use c key owner rt =
     (let (rows, removed) = delete_row key owner (rt_rows rt) in
      if removed \<and> in_use then (rt, Inl Strategy_In_Use)
      else let (rows', ok) = transact c (rt_rows rt) rows in
           if \<not> ok then (rt\<lparr>rt_rows := rows'\<rparr>, Inl Delete_Failed)
           else (rt\<lparr>rt_rows := rows', rt_store := (if removed then discard_stored_source ops (rt_store rt) key
                   else rt_store rt)\<rparr>, Inr removed))"

section \<open>Queueing a validation\<close>

text \<open>Under FMP the window lies within the shared coverage; else it is anchored on the last stored bar.\<close>

definition validation_window_fmp :: "int \<Rightarrow> (int \<times> int) option \<Rightarrow> (int \<times> int) option" where
  "validation_window_fmp days coverage =
     (case coverage of
        None \<Rightarrow> None
      | Some (earliest, latest) \<Rightarrow> Some (max earliest (latest - max days 1), latest))"

definition validation_window_db :: "int \<Rightarrow> int option \<Rightarrow> (int \<times> int) option" where
  "validation_window_db days latest =
     (case latest of None \<Rightarrow> None | Some day \<Rightarrow> Some (day - max days 1, day))"

datatype start_error = No_Window | No_Longer_Exists | Queue_Error py_exn

definition start_validation ::
  "(int \<times> int) option \<Rightarrow> rows \<Rightarrow> string \<Rightarrow> string \<Rightarrow> string list \<Rightarrow> string option \<Rightarrow> pyfloat \<Rightarrow> string \<Rightarrow> int \<Rightarrow> int
   \<Rightarrow> string option \<Rightarrow> bool \<Rightarrow> manager \<Rightarrow> manager \<times> (start_error + string)" where
  "start_validation window rows key nm tickers owner capital run_id created now pool_error db_ok m =
     (case window of
        None \<Rightarrow> (m, Inl No_Window)
      | Some (first_day, last_day) \<Rightarrow>
          (case dict_get rows key of
             None \<Rightarrow> (m, Inl No_Longer_Exists)
           | Some row \<Rightarrow>
               (case register now m \<lparr>sp_id = run_id, sp_owner = owner, sp_name = take 120 (''Validation: '' @ nm),
                       sp_strategy_key = key, sp_strategy_name = ct_name row, sp_kind = ct_kind row,
                       sp_start = first_day, sp_end = last_day, sp_capital = capital, sp_symbol = symbol_for tickers,
                       sp_params = [(mode_key, VStr ''event'')], sp_created = created, sp_purpose = ''validation''\<rparr> of
                  (m1, Inl x) \<Rightarrow> (m1, Inl (Queue_Error x))
                | (m1, Inr _) \<Rightarrow>
                    (case submit now m1 run_id pool_error db_ok of
                       (m2, Inl x) \<Rightarrow> (m2, Inl (Queue_Error x))
                     | (m2, Inr _) \<Rightarrow> (m2, Inr run_id)))))"

end
