(* ===== verification/Registry_Claims.thy ===== *)
theory Registry_Claims
  imports Registry Strategy_Store_Claims Scanner_Claims
begin

text \<open>
  What the registry promises, over any store that keeps the contract: a row that names a package has
  it in the store, whatever transactions and requests fail; an upload reads back for its owner and
  for nobody else; and the catalogue lists exactly what a worker could load.
\<close>

section \<open>Packages and rows\<close>

definition packaged :: "(string list \<Rightarrow> string option) \<Rightarrow> string \<Rightarrow> bool" where
  "packaged objs storage \<longleftrightarrow> (\<exists>ps. key_segments storage = Inr ps \<and>
     objs (ps @ [source_filename]) \<noteq> None \<and> objs (ps @ [config_filename]) \<noteq> None)"

definition plain_key :: "string \<Rightarrow> bool" where
  "plain_key k \<longleftrightarrow> k \<noteq> [] \<and> sep \<notin> set k"

definition backed :: "(string list \<Rightarrow> string option) \<Rightarrow> rows \<Rightarrow> bool" where
  "backed objs rows \<longleftrightarrow> (\<forall>k row. dict_get rows k = Some row \<longrightarrow> plain_key k \<and>
     (\<forall>storage. ct_storage row = Some storage \<longrightarrow> storage = strategy_key k \<and> packaged objs storage))"

text \<open>A user's strategy can be selected when its last verdict was a pass, and only then.\<close>

definition selectable_if_active :: "rows \<Rightarrow> bool" where
  "selectable_if_active rows \<longleftrightarrow> (\<forall>k row. dict_get rows k = Some row \<longrightarrow> ct_kind row = ''user'' \<longrightarrow>
     (ct_enabled row \<longleftrightarrow> ct_status row = ''active''))"

lemma dropWhile_plain: "xs \<noteq> [] \<Longrightarrow> sep \<notin> set xs \<Longrightarrow> dropWhile (\<lambda>x. x = sep) (xs @ rest) = xs @ rest"
  by (cases xs) auto

lemma strip_plain: "plain_key k \<Longrightarrow> strip_char sep k = k"
  using dropWhile_plain [of k "[]"] dropWhile_plain [of "rev k" "[]"] by (simp add: strip_char_def plain_key_def)

lemma plain_segments:
  assumes "plain_key k" "key_segments (strategy_key k) = Inr ps"
  shows "ps = [''strategies'', k]"
proof -
  have k: "k \<noteq> []" "sep \<notin> set k" using assms(1) by (simp_all add: plain_key_def)
  have key: "strategy_key k = ''strategies'' @ sep # k @ [sep]"
    using assms(1) by (simp add: strategy_key_def strip_plain)
  have "dropWhile (\<lambda>x. x = sep) (rev k @ sep # rev ''strategies'') = rev k @ sep # rev ''strategies''"
    by (rule dropWhile_plain) (use k in simp_all)
  then have "strip_char sep (strategy_key k) = ''strategies'' @ sep # k"
    by (simp add: key strip_char_def)
  moreover have "split_on sep (''strategies'' @ sep # k) = [''strategies'', k]"
    using k split_on_append [of sep "''strategies''" k] by (simp add: split_on_plain)
  ultimately have "emap object_name [''strategies'', k] = Inr ps"
    using assms(2) k(1) by (simp add: key_segments_def)
  then show ?thesis using emap_object_name by blast
qed

lemma backed_mono:
  assumes "backed objs rows"
    "\<And>k. dict_get rows k \<noteq> None \<Longrightarrow> plain_key k \<Longrightarrow> packaged objs (strategy_key k) \<Longrightarrow> packaged objs' (strategy_key k)"
  shows "backed objs' rows"
  unfolding backed_def
proof (intro allI impI conjI)
  fix k row storage
  assume row: "dict_get rows k = Some row"
  note here = assms(1) [unfolded backed_def, rule_format, OF row]
  from here show "plain_key k" by blast
  assume st: "ct_storage row = Some storage"
  from here st show "storage = strategy_key k" by blast
  with here st have "packaged objs (strategy_key k)" by blast
  with here row \<open>storage = strategy_key k\<close> show "packaged objs' storage" using assms(2) by blast
qed

lemma strict_prefix_two: "strict_prefix [a, k] ([a, k'] @ [f]) \<longleftrightarrow> k = k'"
  by (auto simp: strict_prefix_def prefix_def)

lemma packaged_frame:
  assumes "packaged objs (strategy_key k)" "plain_key k" "plain_key k'" "k \<noteq> k'"
    "key_segments (strategy_key k') = Inr ps" "\<And>p. \<not> strict_prefix ps p \<Longrightarrow> objs' p = objs p"
  shows "packaged objs' (strategy_key k)"
proof -
  obtain qs where qs: "key_segments (strategy_key k) = Inr qs"
    "objs (qs @ [source_filename]) \<noteq> None" "objs (qs @ [config_filename]) \<noteq> None"
    using assms(1) by (auto simp: packaged_def)
  have "qs = [''strategies'', k]" "ps = [''strategies'', k']"
    using plain_segments assms(2,3,5) qs(1) by blast+
  then have "objs' (qs @ [f]) = objs (qs @ [f])" for f
    using assms(4,6) strict_prefix_two by metis
  with qs show ?thesis by (auto simp: packaged_def)
qed

lemma packagedI: "key_segments k = Inr ps \<Longrightarrow> objs (ps @ [source_filename]) = Some a
    \<Longrightarrow> objs (ps @ [config_filename]) = Some b \<Longrightarrow> packaged objs k"
  by (auto simp: packaged_def)

section \<open>Rows\<close>

lemma dash_runs_chars: "c \<in> set (dash_runs s) \<Longrightarrow> is_slug_char c \<or> c = CHR ''-''"
  by (induction s rule: dash_runs.induct) (auto split: if_splits)

lemma set_strip_char: "set (strip_char c s) \<subseteq> set s"
  by (auto simp: strip_char_def dest!: set_dropWhileD)

lemma generated_key_plain: "sep \<notin> set hex \<Longrightarrow> plain_key (generate_key nm hex)"
proof -
  assume hex: "sep \<notin> set hex"
  have "\<not> is_slug_char sep" by code_simp
  then have "sep \<notin> set (dash_runs s)" for s using dash_runs_chars [of sep s] by auto
  then have "sep \<notin> set (take 40 (strip_char (CHR ''-'') (dash_runs s)))" for s
    using set_strip_char set_take_subset by (metis subsetD)
  then show ?thesis using hex by (simp add: plain_key_def generate_key_def slug_def Let_def)
qed

definition core :: "catalogue_row \<Rightarrow> string option \<times> string option \<times> authored option" where
  "core row = (ct_storage row, ct_owner row, ct_authoring row)"

definition same_storage :: "rows \<Rightarrow> rows \<Rightarrow> bool" where
  "same_storage rows rows' \<longleftrightarrow> (\<forall>k. map_option core (dict_get rows' k) = map_option core (dict_get rows k))"

lemma same_storage_refl [simp]: "same_storage rows rows"
  by (simp add: same_storage_def)

lemma same_storage_trans: "same_storage a b \<Longrightarrow> same_storage b c \<Longrightarrow> same_storage a c"
  by (simp add: same_storage_def)

lemma same_storage_set: "dict_get rows k = Some row \<Longrightarrow> core row' = core row
    \<Longrightarrow> same_storage rows (dict_set k row' rows)"
  by (simp add: same_storage_def)

lemma backed_same: "backed objs rows \<Longrightarrow> same_storage rows rows' \<Longrightarrow> backed objs rows'"
  unfolding backed_def
proof (intro allI impI)
  fix k row'
  assume old: "\<forall>k row. dict_get rows k = Some row \<longrightarrow> plain_key k \<and>
      (\<forall>storage. ct_storage row = Some storage \<longrightarrow> storage = strategy_key k \<and> packaged objs storage)"
    and same: "same_storage rows rows'" and row': "dict_get rows' k = Some row'"
  from same row' obtain row where "dict_get rows k = Some row" "ct_storage row = ct_storage row'"
    by (cases "dict_get rows k") (auto simp: same_storage_def core_def dest!: spec [of _ k])
  with old show "plain_key k \<and> (\<forall>storage. ct_storage row' = Some storage \<longrightarrow>
      storage = strategy_key k \<and> packaged objs storage)" by metis
qed

lemma transact_fst: "fst (transact c a b) = a \<or> fst (transact c a b) = b"
  by (simp add: transact_def split: commit.splits)

lemma set_state_storage: "same_storage rows (fst (set_validation_state k status enabled run rows))"
  by (auto simp: set_validation_state_def core_def intro: same_storage_set split: option.splits)

lemma attach_storage: "same_storage rows (attach_validation_run k run rows)"
  by (auto simp: attach_validation_run_def core_def intro: same_storage_set split: option.splits)

lemma verdict_storage: "same_storage rows (write_verdict k run passed rows)"
  by (auto simp: write_verdict_def core_def intro: same_storage_set split: option.splits)

lemma mark_storage: "same_storage rows (mark_validation_unstarted k c rows)"
  using set_state_storage by (auto simp: mark_validation_unstarted_def transact_def split: commit.splits)

lemma begin_rows:
  assumes "begin_validation ans k rows = (rows', r)"
  shows "rows' = mark_validation_unstarted k (ua_mark ans) rows \<or>
    (\<exists>run rows1. (rows1 = rows \<or> (\<exists>p. rows1 = write_verdict k run p rows))
       \<and> (rows' = rows1 \<or> rows' = attach_validation_run k run rows1))"
proof (cases "ua_start ans")
  case (Inl x)
  with assms show ?thesis by (simp add: begin_validation_def)
next
  case (Inr run)
  define rows1 where "rows1 = (case ua_verdict ans of None \<Rightarrow> rows | Some p \<Rightarrow> write_verdict k run p rows)"
  have "rows' = fst (transact (ua_attach ans) rows1 (attach_validation_run k run rows1))"
    using assms Inr by (simp add: begin_validation_def Let_def rows1_def split_def)
  then have "rows' = rows1 \<or> rows' = attach_validation_run k run rows1" using transact_fst by metis
  moreover have "rows1 = rows \<or> (\<exists>p. rows1 = write_verdict k run p rows)"
    by (cases "ua_verdict ans") (auto simp: rows1_def)
  ultimately show ?thesis by blast
qed

lemma begin_rule:
  assumes "begin_validation ans k rows = (rows', r)" "P rows" "\<And>c. P (mark_validation_unstarted k c rows)"
    "\<And>run p. P (write_verdict k run p rows)" "\<And>run rows1. P rows1 \<Longrightarrow> P (attach_validation_run k run rows1)"
  shows "P rows'"
  using begin_rows [OF assms(1)] by (elim disjE exE conjE) (simp_all add: assms)

lemma begin_storage: "begin_validation ans k rows = (rows', r) \<Longrightarrow> same_storage rows rows'"
  by (erule begin_rule [where P = "same_storage rows"])
    (auto intro: mark_storage verdict_storage same_storage_trans [OF _ attach_storage])

lemma selectable_set: "selectable_if_active rows \<Longrightarrow>
    (ct_kind row = ''user'' \<Longrightarrow> (ct_enabled row \<longleftrightarrow> ct_status row = ''active''))
    \<Longrightarrow> selectable_if_active (dict_set k row rows)"
  by (auto simp: selectable_if_active_def)

lemma selectable_get: "selectable_if_active rows \<Longrightarrow> dict_get rows k = Some row \<Longrightarrow> ct_kind row = ''user''
    \<Longrightarrow> ct_enabled row \<longleftrightarrow> ct_status row = ''active''"
  by (simp add: selectable_if_active_def)

lemma selectable_verdict: "selectable_if_active rows \<Longrightarrow> selectable_if_active (write_verdict k run passed rows)"
  by (auto simp: write_verdict_def intro!: selectable_set split: option.splits)

lemma selectable_mark: "selectable_if_active rows \<Longrightarrow> selectable_if_active (mark_validation_unstarted k c rows)"
  by (auto simp: mark_validation_unstarted_def transact_def set_validation_state_def
      intro!: selectable_set split: option.splits commit.splits)

lemma selectable_attach: "selectable_if_active rows \<Longrightarrow> selectable_if_active (attach_validation_run k run rows)"
  by (auto simp: attach_validation_run_def intro!: selectable_set dest: selectable_get split: option.splits)

lemma selectable_adopt: "selectable_if_active rows \<Longrightarrow> selectable_if_active (adopt_staged_source k storage rows)"
  by (auto simp: adopt_staged_source_def intro!: selectable_set dest: selectable_get split: option.splits)

lemma selectable_begin: "selectable_if_active rows \<Longrightarrow> begin_validation ans k rows = (rows', r)
    \<Longrightarrow> selectable_if_active rows'"
  by (erule begin_rule) (auto intro: selectable_mark selectable_attach selectable_verdict)

lemma selectable_delete: "selectable_if_active rows \<Longrightarrow> selectable_if_active (fst (delete_row k owner rows))"
  by (auto simp: delete_row_def selectable_if_active_def split: option.splits)

lemma staged_keys: "(k, source) \<in> set (strategies_with_staged_source rows) \<Longrightarrow> \<exists>row. (k, row) \<in> set rows"
  by (auto simp: strategies_with_staged_source_def split: option.splits if_splits)

section \<open>Runs of the registry\<close>

datatype registry_op =
    Upload parser upload_answers string string string "authored option" "string option"
  | Upload_Draft dict_repr parser upload_answers string string strategy_draft "string option"
  | Remove bool commit string string
  | Read_Source string string
  | List_All bool bool
  | Verdict string string bool

fun registry_step :: "'s store_ops \<Rightarrow> (pyval \<Rightarrow> store_exn + string) \<Rightarrow> 's registry \<Rightarrow> registry_op \<Rightarrow> 's registry" where
  "registry_step ops dumps rt (Upload parse ans nm desc source auth owner) =
     fst (submit_strategy ops dumps parse ans nm desc source auth owner rt)"
| "registry_step ops dumps rt (Upload_Draft repr parse ans nm desc draft owner) =
     fst (submit_draft ops dumps repr parse ans nm desc draft owner rt)"
| "registry_step ops dumps rt (Remove in_use c key owner) = fst (delete_strategy ops in_use c key owner rt)"
| "registry_step ops dumps rt (Read_Source key owner) = fst (get_strategy_source ops key owner rt)"
| "registry_step ops dumps rt (List_All on_s3 all) = fst (list_strategies ops on_s3 all rt)"
| "registry_step ops dumps rt (Verdict key run passed) = rt\<lparr>rt_rows := write_verdict key run passed (rt_rows rt)\<rparr>"

text \<open>The suffix of a new key is hexadecimal; all the code needs is that it has no separator.\<close>

fun suffix_ok :: "registry_op \<Rightarrow> bool" where
  "suffix_ok (Upload _ ans _ _ _ _ _) = (sep \<notin> set (ua_hex ans))"
| "suffix_ok (Upload_Draft _ _ ans _ _ _ _) = (sep \<notin> set (ua_hex ans))"
| "suffix_ok _ = True"

section \<open>Operations over a store that keeps the contract\<close>

context strategy_store
begin

lemma store_keeps_backed:
  assumes "inv s" "backed (objects s) rows" "plain_key k"
    "store_strategy_source ops dumps s k source config = (s', r)"
  shows "inv s' \<and> backed (objects s') rows \<and>
    (\<forall>storage. r = Inr storage \<longrightarrow> storage = strategy_key k \<and> packaged (objects s') storage)"
proof (cases r)
  case (Inr storage)
  obtain ps a b where p: "storage = strategy_key k" "key_segments storage = Inr ps"
    "objects s' (ps @ [source_filename]) = Some a" "objects s' (ps @ [config_filename]) = Some b"
    "\<And>p. \<not> strict_prefix ps p \<Longrightarrow> objects s' p = objects s p" "inv s'"
    using package_stored [OF assms(1) assms(4) [unfolded Inr]] by blast
  have new: "packaged (objects s') (strategy_key k)" using packagedI p by metis
  have "packaged (objects s') (strategy_key k')" if "packaged (objects s) (strategy_key k')" "plain_key k'" for k'
    using packaged_frame [OF that assms(3) _ p(2) [unfolded p(1)] p(5)] new by blast
  then have "backed (objects s') rows" using backed_mono [OF assms(2)] by blast
  then show ?thesis using p new Inr by simp
next
  case (Inl x)
  note failed = package_failed [OF assms(1) assms(4) [unfolded Inl]]
  have "backed (objects s') rows"
  proof (cases "objects s' = objects s")
    case False
    then obtain ps where p: "key_segments (strategy_key k) = Inr ps"
      "\<And>p. strict_prefix ps p \<Longrightarrow> objects s p = None" "\<And>p. \<not> strict_prefix ps p \<Longrightarrow> objects s' p = objects s p"
      using failed by blast
    have "\<not> packaged (objects s) (strategy_key k)"
      using p(1,2) by (auto simp: packaged_def strict_prefix_def)
    then have "packaged (objects s') (strategy_key k')"
      if "packaged (objects s) (strategy_key k')" "plain_key k'" for k'
      using packaged_frame [OF that assms(3) _ p(1,3)] that by blast
    then show ?thesis using backed_mono [OF assms(2)] by blast
  qed (use assms(2) in simp)
  then show ?thesis using failed Inl by blast
qed

lemma discard_keeps_backed:
  assumes "inv s" "backed (objects s) rows" "plain_key k" "dict_get rows k = None"
  shows "inv (discard_stored_source ops s k) \<and> backed (objects (discard_stored_source ops s k)) rows"
proof -
  obtain s' r where d: "st_delete ops s (strategy_key k) = (s', r)" by fastforce
  then have s': "discard_stored_source ops s k = s'" by (simp add: discard_stored_source_def)
  have frame: "inv s' \<and> (objects s' = objects s \<or> (\<exists>ps. key_segments (strategy_key k) = Inr ps \<and>
      (\<forall>p. \<not> strict_prefix ps p \<longrightarrow> objects s' p = objects s p)))"
  proof (cases r)
    case (Inl x)
    note f = delete_failed [OF assms(1) d [unfolded Inl]]
    show ?thesis
    proof (cases "key_segments (strategy_key k)")
      case (Inl y)
      with f show ?thesis by auto
    next
      case (Inr ps)
      with f have "inv s'" "objects s' p = objects s p" if "\<not> strict_prefix ps p" for p
        using that by auto
      moreover from f have "inv s'" by blast
      ultimately show ?thesis using Inr by blast
    qed
  next
    case (Inr u)
    from delete_done [OF assms(1) d [unfolded Inr]] show ?thesis by auto
  qed
  have "packaged (objects s') (strategy_key k')"
    if "packaged (objects s) (strategy_key k')" "plain_key k'" "k' \<noteq> k" for k'
    using frame packaged_frame [OF that(1,2) assms(3) that(3)] that(1) by metis
  then have "backed (objects s') rows"
    using backed_mono [OF assms(2)] assms(4) by metis
  then show ?thesis using frame s' by simp
qed

definition registry_inv :: "'s registry \<Rightarrow> bool" where
  "registry_inv rt \<longleftrightarrow> inv (rt_store rt) \<and> backed (objects (rt_store rt)) (rt_rows rt) \<and> selectable_if_active (rt_rows rt)"

lemma reads_keep: "inv s \<Longrightarrow> st_get ops s k f = (s', r) \<Longrightarrow> inv s' \<and> objects s' = objects s"
  using get_reads by blast

lemma stored_package_keep:
  assumes "inv s" "stored_package ops s k = (s', r)"
  shows "inv s' \<and> objects s' = objects s"
proof -
  obtain s1 a where g: "st_get ops s k source_filename = (s1, a)" by fastforce
  obtain s2 b where h: "st_get ops s1 k config_filename = (s2, b)" by fastforce
  have "s' = s1 \<or> s' = s2" using assms(2) g h by (auto simp: stored_package_def split: sum.splits if_splits)
  then show ?thesis using reads_keep [OF assms(1) g] reads_keep [OF _ h] by metis
qed

lemma available_keep:
  assumes "inv s" "available_row ops on_s3 s row = (s', r)"
  shows "inv s' \<and> objects s' = objects s"
  using assms stored_package_keep
  by (auto simp: available_row_def package_available_def split: if_splits option.splits)

lemma available_rows_keep:
  assumes "inv s" "available_rows ops on_s3 s krs = (s', r)"
  shows "inv s' \<and> objects s' = objects s"
  using assms
proof (induction krs arbitrary: s s' r)
  case (Cons kr krs)
  obtain s1 a where g: "available_row ops on_s3 s (snd kr) = (s1, a)" by fastforce
  note 1 = available_keep [OF Cons.prems(1) g]
  obtain s2 b where h: "available_rows ops on_s3 s1 krs = (s2, b)" by fastforce
  have "s' = s1 \<or> s' = s2" using Cons.prems(2) g h by (auto split: sum.splits)
  then show ?case using 1 Cons.IH [OF conjunct1 [OF 1] h] by auto
qed simp

lemma migrate_keeps:
  assumes "registry_inv rt" "migrate_each ops dumps adopt rt pending = (rt', n)"
    "\<forall>(k, source)\<in>set pending. plain_key k"
  shows "registry_inv rt'"
  using assms
proof (induction pending arbitrary: rt rt' n)
  case (Cons p pending)
  obtain k source where p: "p = (k, source)" by fastforce
  obtain s r where st: "store_strategy_source ops dumps (rt_store rt) k source (build_config k) = (s, r)" by fastforce
  have plain: "plain_key k" using Cons.prems(3) p by auto
  note kept = store_keeps_backed [OF _ _ plain st, of "rt_rows rt"]
  have ok: "inv s" "backed (objects s) (rt_rows rt)" "selectable_if_active (rt_rows rt)"
    "r = Inr storage \<Longrightarrow> storage = strategy_key k \<and> packaged (objects s) storage" for storage
    using kept Cons.prems(1) by (auto simp: registry_inv_def)
  show ?case
  proof (cases r)
    case (Inl x)
    have "registry_inv (rt\<lparr>rt_store := s\<rparr>)" using ok by (simp add: registry_inv_def)
    then show ?thesis using Cons.IH Cons.prems(2,3) p st Inl by simp
  next
    case (Inr storage)
    define rows where "rows = fst (transact (adopt k) (rt_rows rt) (adopt_staged_source k storage (rt_rows rt)))"
    have "backed (objects s) (adopt_staged_source k storage (rt_rows rt))"
      using ok(2) ok(4) [OF Inr] plain by (auto simp: adopt_staged_source_def backed_def split: option.splits)
    then have "backed (objects s) rows \<and> selectable_if_active rows"
      using ok(2,3) selectable_adopt transact_fst unfolding rows_def by metis
    then have "registry_inv (rt\<lparr>rt_rows := rows, rt_store := s\<rparr>)" using ok(1) by (simp add: registry_inv_def)
    moreover have "\<exists>m. migrate_each ops dumps adopt (rt\<lparr>rt_rows := rows, rt_store := s\<rparr>) pending = (rt', m)"
      using Cons.prems(2) p st Inr by (simp add: rows_def Let_def split_def prod_eq_iff)
    ultimately show ?thesis using Cons.IH Cons.prems(3) by auto
  qed
qed simp

lemma migrate_staged_keeps:
  assumes "registry_inv rt" "migrate_staged_sources ops dumps adopt rt = (rt', n)"
  shows "registry_inv rt'"
proof (rule migrate_keeps [OF assms(1) assms(2) [unfolded migrate_staged_sources_def]], clarify)
  fix k source
  assume "(k, source) \<in> set (strategies_with_staged_source (rt_rows rt))"
  then obtain row where "(k, row) \<in> set (rt_rows rt)" using staged_keys by blast
  then obtain row' where "dict_get (rt_rows rt) k = Some row'"
    by (metis map_of_eq_None_iff not_None_eq fst_conv image_eqI)
  then show "plain_key k" using assms(1) by (auto simp: registry_inv_def backed_def)
qed

lemma create_keeps:
  assumes "backed objs rows" "selectable_if_active rows" "plain_key k" "storage = strategy_key k" "packaged objs storage"
    "create_strategy k (fresh_row nm desc storage auth owner) c rows = (rows', ok)"
  shows "backed objs rows'" "selectable_if_active rows'"
    "ok \<Longrightarrow> rows' = dict_set k (fresh_row nm desc storage auth owner) rows"
proof -
  let ?new = "dict_set k (fresh_row nm desc storage auth owner) rows"
  have "rows' = rows \<or> rows' = ?new"
    using assms(6) by (auto simp: create_strategy_def transact_def split: if_splits commit.splits)
  moreover have "backed objs ?new" "selectable_if_active ?new"
    using assms(1-5) by (auto simp: backed_def fresh_row_def intro!: selectable_set)
  ultimately show "backed objs rows'" "selectable_if_active rows'" using assms(1,2) by auto
  show "ok \<Longrightarrow> rows' = ?new"
    using assms(6) by (auto simp: create_strategy_def transact_def split: if_splits commit.splits)
qed

text \<open>What an upload goes through, case by case.\<close>

lemma submit_cases:
  assumes "registry_inv rt" "sep \<notin> set (ua_hex ans)"
    "submit_strategy ops dumps parse ans nm desc source auth owner rt = (rt', r)"
  shows "registry_inv rt' \<and> (\<forall>k run. r = Inr (k, run) \<longrightarrow> plain_key k \<and>
    (\<exists>s rows. store_strategy_source ops dumps s k source (build_config k) = (rt_store rt', Inr (strategy_key k))
       \<and> inv s \<and> begin_validation ans k (dict_set k (fresh_row nm desc (strategy_key k) auth owner) rows) = (rt_rows rt', Inr run)))"
proof (cases "scan_source parse source")
  case (Inl x)
  then show ?thesis using assms by (auto simp: submit_strategy_def)
next
  case (Inr cls)
  show ?thesis
  proof (cases "ua_readable ans")
    case False
    then show ?thesis using assms Inr by (auto simp: submit_strategy_def)
  next
    case True
    obtain rt1 n where m: "migrate_staged_sources ops dumps (ua_adopt ans) rt = (rt1, n)" by fastforce
    have inv1: "registry_inv rt1" by (rule migrate_staged_keeps [OF assms(1) m])
    define k where "k = generate_key nm (ua_hex ans)"
    have plain: "plain_key k" using assms(2) by (simp add: k_def generated_key_plain)
    obtain s a where st: "store_strategy_source ops dumps (rt_store rt1) k source (build_config k) = (s, a)" by fastforce
    have kept: "inv s" "backed (objects s) (rt_rows rt1)" "selectable_if_active (rt_rows rt1)"
      "a = Inr storage \<Longrightarrow> storage = strategy_key k \<and> packaged (objects s) storage" for storage
      using store_keeps_backed [OF _ _ plain st, of "rt_rows rt1"] inv1 by (auto simp: registry_inv_def)
    show ?thesis
    proof (cases a)
      case (Inl x)
      then have "rt' = rt1\<lparr>rt_store := s\<rparr> \<and> r = Inl (Store_Error x)"
        using assms(3) Inr True m st by (simp add: submit_strategy_def k_def Let_def)
      then show ?thesis using kept by (auto simp: registry_inv_def)
    next
      case storage: (Inr storage)
      obtain rows ok where c: "create_strategy k (fresh_row nm desc storage auth owner) (ua_create ans) (rt_rows rt1) = (rows, ok)"
        by fastforce
      note created = create_keeps [OF kept(2,3) plain conjunct1 [OF kept(4) [OF storage]] conjunct2 [OF kept(4) [OF storage]] c]
      show ?thesis
      proof (cases ok)
        case False
        then have "rt' = discard_unregistered_source ops (ua_verified ans) k (rt1\<lparr>rt_rows := rows, rt_store := s\<rparr>)
            \<and> r = Inl Database_Error"
          using assms(3) Inr True m st storage c by (simp add: submit_strategy_def k_def Let_def)
        then show ?thesis
          using kept(1) created discard_keeps_backed [OF kept(1) created(1) plain]
          by (simp add: registry_inv_def discard_unregistered_source_def)
      next
        case True
        obtain rows' b where v: "begin_validation ans k rows = (rows', b)" by fastforce
        have "rt' = rt1\<lparr>rt_store := s, rt_rows := rows'\<rparr> \<and> r = (case b of Inl x \<Rightarrow> Inl x | Inr run \<Rightarrow> Inr (k, run))"
          using assms(3) Inr \<open>ua_readable ans\<close> m st storage c v True
          by (auto simp: submit_strategy_def k_def Let_def split: sum.splits)
        moreover have "backed (objects s) rows'" "selectable_if_active rows'"
          using created(1,2) backed_same begin_storage [OF v] selectable_begin [OF _ v] by blast+
        ultimately show ?thesis
          using kept(1) kept(4) [OF storage] plain v st storage created(3) [OF True] inv1
          by (auto simp: registry_inv_def split: sum.splits)
      qed
    qed
  qed
qed

lemma delete_keeps:
  assumes "registry_inv rt" "delete_strategy ops in_use c k owner rt = (rt', r)"
  shows "registry_inv rt'"
proof -
  obtain rows removed where d: "delete_row k owner (rt_rows rt) = (rows, removed)" by fastforce
  obtain rows' ok where t: "transact c (rt_rows rt) rows = (rows', ok)" by fastforce
  have rows: "backed (objects (rt_store rt)) rows" "selectable_if_active rows"
    using assms(1) d selectable_delete [of "rt_rows rt" k owner]
    by (auto simp: registry_inv_def backed_def delete_row_def split: option.splits if_splits)
  have gone: "removed \<Longrightarrow> dict_get rows k = None \<and> plain_key k"
    using d assms(1) by (auto simp: delete_row_def registry_inv_def backed_def split: option.splits if_splits)
  have either: "rows' = rt_rows rt \<and> \<not> ok \<or> rows' = rows"
    using t by (auto simp: transact_def split: commit.splits)
  have keep: "backed (objects (rt_store rt)) rows'" "selectable_if_active rows'" "inv (rt_store rt)"
    using either rows assms(1) by (auto simp: registry_inv_def)
  show ?thesis
  proof (cases "removed \<and> \<not> in_use \<and> ok")
    case True
    then have "rows' = rows" using t by (auto simp: transact_def split: commit.splits)
    then show ?thesis
      using assms(2) d t True keep discard_keeps_backed [OF keep(3,1)] gone
      by (auto simp: delete_strategy_def registry_inv_def)
  next
    case False
    then have "rt' = rt \<or> rt' = rt\<lparr>rt_rows := rows'\<rparr>"
      using assms(2) d t by (auto simp: delete_strategy_def Let_def split: if_splits)
    then show ?thesis using assms(1) keep by (auto simp: registry_inv_def)
  qed
qed

lemma step_keeps: "registry_inv rt \<Longrightarrow> suffix_ok p \<Longrightarrow> registry_inv (registry_step ops dumps rt p)"
proof (cases p)
  case (Upload parse ans nm desc source auth owner)
  assume "registry_inv rt" "suffix_ok p"
  then show ?thesis using submit_cases Upload by (metis registry_step.simps(1) suffix_ok.simps(1) prod.collapse)
next
  case (Upload_Draft repr parse ans nm desc draft owner)
  assume "registry_inv rt" "suffix_ok p"
  then show ?thesis using Upload_Draft submit_cases
    by (auto simp: submit_draft_def split: sum.splits) (metis prod.collapse)
next
  case (Remove in_use c key owner)
  assume "registry_inv rt"
  then show ?thesis using Remove delete_keeps by (metis registry_step.simps(3) prod.collapse)
next
  case (Read_Source key owner)
  assume "registry_inv rt"
  then show ?thesis
    using Read_Source reads_keep
    by (auto simp: get_strategy_source_def registry_inv_def split: option.splits prod.splits sum.splits)
next
  case (List_All on_s3 every)
  assume "registry_inv rt"
  then show ?thesis
    using List_All available_rows_keep by (auto simp: list_strategies_def registry_inv_def split: prod.splits)
next
  case (Verdict key run passed)
  assume "registry_inv rt"
  then show ?thesis using Verdict backed_same verdict_storage selectable_verdict by (auto simp: registry_inv_def)
qed

lemma runs_keep: "registry_inv rt \<Longrightarrow> list_all suffix_ok ops_list \<Longrightarrow> registry_inv (foldl (registry_step ops dumps) rt ops_list)"
  by (rule machine.run_inv [where pre = suffix_ok]) (simp_all add: machine_def step_keeps)

lemma uploaded_reads_back:
  assumes "registry_inv rt" "sep \<notin> set (ua_hex ans)"
    "submit_strategy ops dumps parse ans nm desc source auth owner rt = (rt', Inr (k, run))"
    "get_strategy_source ops k reader rt' = (rt'', Inr found)"
  shows "found = (if owner = Some reader then Some \<lparr>ss_source = source, ss_authored = auth\<rparr> else None)"
proof -
  obtain s rows where plain: "plain_key k"
    and st: "store_strategy_source ops dumps s k source (build_config k) = (rt_store rt', Inr (strategy_key k))" "inv s"
    and v: "begin_validation ans k (dict_set k (fresh_row nm desc (strategy_key k) auth owner) rows) = (rt_rows rt', Inr run)"
    using submit_cases [OF assms(1-3)] by blast
  have "map_option core (dict_get (rt_rows rt') k) = Some (Some (strategy_key k), owner, auth)"
    using begin_storage [OF v] by (simp add: same_storage_def core_def fresh_row_def)
  then obtain row where row: "dict_get (rt_rows rt') k = Some row" "ct_owner row = owner"
    "ct_storage row = Some (strategy_key k)" "ct_authoring row = auth"
    by (cases "dict_get (rt_rows rt') k") (auto simp: core_def)
  have g: "given (Some (strategy_key k))" by (simp add: given_def strategy_key_def)
  obtain ps where ps: "key_segments (strategy_key k) = Inr ps"
    "objects (rt_store rt') (ps @ [source_filename]) = Some source" "inv (rt_store rt')"
    using package_stored [OF st(2) st(1)] by blast
  show ?thesis
  proof (cases "owner = Some reader")
    case False
    then show ?thesis using assms(4) row by (auto simp: get_strategy_source_def)
  next
    case True
    obtain s2 a where get: "st_get ops (rt_store rt') (strategy_key k) source_filename = (s2, a)" by fastforce
    have "a = Inr source \<or> (\<exists>x. a = Inl x \<and> x \<noteq> StoreKeyError)"
      using get_reads [OF ps(3) get] ps(1,2) by (cases a) auto
    then show ?thesis
      using assms(4) row g get True by (auto simp: get_strategy_source_def)
  qed
qed

definition loadable :: "bool \<Rightarrow> (string list \<Rightarrow> string option) \<Rightarrow> catalogue_row \<Rightarrow> bool" where
  "loadable on_s3 objs row \<longleftrightarrow>
     (case ct_storage row of
        Some k \<Rightarrow> if k = [] then \<not> on_s3 \<and> given (ct_class_path row) else packaged objs k
      | None \<Rightarrow> \<not> on_s3 \<and> given (ct_class_path row))"

lemma stored_package_answer:
  assumes "inv s" "stored_package ops s k = (s', Inr found)"
  shows "found = packaged (objects s) k"
proof -
  obtain s1 a where g: "st_get ops s k source_filename = (s1, a)" by fastforce
  obtain s2 b where h: "st_get ops s1 k config_filename = (s2, b)" by fastforce
  note r1 = get_reads [OF assms(1) g]
  then have "inv s1" by blast
  note r2 = get_reads [OF this h]
  show ?thesis
  proof (cases a)
    case (Inl x)
    then have "x = StoreKeyError" "\<not> found" using assms(2) g by (auto simp: stored_package_def split: if_splits)
    with r1 Inl show ?thesis by (auto simp: packaged_def)
  next
    case (Inr c)
    then show ?thesis
    proof (cases b)
      case (Inl x)
      then have "x = StoreKeyError" "\<not> found" using assms(2) g h Inr by (auto simp: stored_package_def split: if_splits)
      with r1 r2 Inl show ?thesis by (auto simp: packaged_def)
    next
      case b: (Inr d)
      then have "found" using assms(2) g h Inr by (auto simp: stored_package_def)
      with r1 r2 Inr b show ?thesis by (auto simp: packaged_def)
    qed
  qed
qed

lemma available_row_answer:
  assumes "inv s" "available_row ops on_s3 s row = (s', Inr found)"
  shows "found = loadable on_s3 (objects s) row"
  using assms stored_package_answer
  by (auto simp: available_row_def loadable_def package_available_def given_def split: if_splits option.splits)

lemma listed_exactly:
  assumes "inv s" "available_rows ops on_s3 s krs = (s', Inr items)"
  shows "items = filter (\<lambda>(k, row). loadable on_s3 (objects s) row) krs"
  using assms
proof (induction krs arbitrary: s s' items)
  case (Cons kr krs)
  obtain s1 a where g: "available_row ops on_s3 s (snd kr) = (s1, a)" by fastforce
  note k = available_keep [OF Cons.prems(1) g]
  obtain s2 b where h: "available_rows ops on_s3 s1 krs = (s2, b)" by fastforce
  obtain found rest where ab: "a = Inr found" "b = Inr rest" "items = (if found then kr # rest else rest)"
    using Cons.prems(2) g h by (auto split: sum.splits)
  have "rest = filter (\<lambda>(k, row). loadable on_s3 (objects s) row) krs"
    using Cons.IH [OF conjunct1 [OF k] h [unfolded ab]] k by simp
  moreover have "found = loadable on_s3 (objects s) (snd kr)"
    using available_row_answer [OF Cons.prems(1) g [unfolded ab]] .
  ultimately show ?case using ab(3) by (cases kr) simp
qed simp

end

section \<open>The registry on the bucket\<close>

text \<open>C8: Whatever uploads, drafts, deletions, reads, listings and worker verdicts happen, in whatever order,
  whichever transactions roll back or lose their reply and whichever requests to the bucket fail: every row
  that names a package names its own key, and both files of that package are in the bucket; and a user's
  strategy is selectable exactly when its status is active.\<close>

theorem registry_backed:
  assumes "s3_documented client stored" "backed (s3_objects stored base (rt_store rt)) (rt_rows rt)"
    "selectable_if_active (rt_rows rt)" "list_all suffix_ok history"
    "rt' = foldl (registry_step (s3_ops client base) dumps) rt history" "dict_get (rt_rows rt') k = Some row"
  shows "(\<forall>storage. ct_storage row = Some storage \<longrightarrow> storage = strategy_key k \<and>
      (\<exists>ps source config. key_segments storage = Inr ps
         \<and> s3_objects stored base (rt_store rt') (ps @ [source_filename]) = Some source
         \<and> s3_objects stored base (rt_store rt') (ps @ [config_filename]) = Some config))
    \<and> (ct_kind row = ''user'' \<longrightarrow> (ct_enabled row \<longleftrightarrow> ct_status row = ''active''))"
proof -
  have "s3_store.registry_inv stored base client rt"
    unfolding s3_store.registry_inv_def using assms(1-3) by blast
  then have "s3_store.registry_inv stored base client rt'"
    unfolding assms(5) by (rule s3_store.runs_keep) (rule assms(4))
  then have "backed (s3_objects stored base (rt_store rt')) (rt_rows rt')" "selectable_if_active (rt_rows rt')"
    by (simp_all add: s3_store.registry_inv_def)
  with assms(6) show ?thesis
    unfolding backed_def packaged_def selectable_if_active_def by blast
qed

definition demo_answers :: upload_answers where
  "demo_answers = \<lparr>ua_readable = True, ua_adopt = (\<lambda>_. Committed), ua_hex = ''0a1b2c3d'', ua_create = Committed,
     ua_verified = True, ua_start = Inr ''run'', ua_mark = Committed, ua_verdict = Some True, ua_attach = Committed\<rparr>"

definition demo_empty :: "(string, string) dict registry" where
  "demo_empty = \<lparr>rt_rows = [], rt_store = []\<rparr>"

definition demo_after :: "(string, string) dict registry" where
  "demo_after = \<lparr>rt_rows = [(''user-momo-0a1b2c3d'', (fresh_row ''Momo!'' ''d'' ''strategies/user-momo-0a1b2c3d/'' None (Some ''ann''))
      \<lparr>ct_status := ''active'', ct_enabled := True, ct_job := Some ''run''\<rparr>)],
     rt_store = [(''app/strategies/user-momo-0a1b2c3d/strategy.py'', ''plain''),
       (''app/strategies/user-momo-0a1b2c3d/config.json'', ''{}'' @ [CHR 0x0A])]\<rparr>"

lemma demo_uploaded:
  "submit_strategy (s3_ops demo_client ''app/'') demo_dumps demo_parse demo_answers ''Momo!'' ''d'' ''plain'' None
     (Some ''ann'') demo_empty = (demo_after, Inr (''user-momo-0a1b2c3d'', Some ''run''))"
  by code_simp

lemma demo_empty_ok: "backed objs (rt_rows demo_empty)" "selectable_if_active (rt_rows demo_empty)"
  "sep \<notin> set (ua_hex demo_answers)"
  by (simp_all add: demo_empty_def backed_def selectable_if_active_def demo_answers_def)

theorem registry_backed_witness:
  "\<exists>ps source config. key_segments ''strategies/user-momo-0a1b2c3d/'' = Inr ps
     \<and> s3_objects (\<lambda>s. dict_get s) ''app/'' (rt_store demo_after) (ps @ [source_filename]) = Some source
     \<and> s3_objects (\<lambda>s. dict_get s) ''app/'' (rt_store demo_after) (ps @ [config_filename]) = Some config"
proof -
  let ?history = "[Upload demo_parse demo_answers ''Momo!'' ''d'' ''plain'' None (Some ''ann'')]"
  have ok: "list_all suffix_ok ?history" using demo_empty_ok(3) by simp
  have history: "demo_after = foldl (registry_step (s3_ops demo_client ''app/'') demo_dumps) demo_empty ?history"
    by (simp add: demo_uploaded)
  obtain row where "dict_get (rt_rows demo_after) ''user-momo-0a1b2c3d'' = Some row"
    "ct_storage row = Some ''strategies/user-momo-0a1b2c3d/''"
    by (simp add: demo_after_def fresh_row_def)
  with registry_backed [OF demo_client_documented demo_empty_ok(1,2) ok history this(1)] show ?thesis by blast
qed

text \<open>C30: After an upload reports success its owner reads back exactly the source and the fragment it was made from, and
  any other reader is told there is nothing.\<close>

theorem upload_reads_back:
  assumes "s3_documented client stored" "backed (s3_objects stored base (rt_store rt)) (rt_rows rt)"
    "selectable_if_active (rt_rows rt)" "sep \<notin> set (ua_hex ans)"
    "submit_strategy (s3_ops client base) dumps parse ans nm desc source auth owner rt = (rt', Inr (k, run))"
    "get_strategy_source (s3_ops client base) k reader rt' = (rt'', Inr found)"
  shows "found = (if owner = Some reader then Some \<lparr>ss_source = source, ss_authored = auth\<rparr> else None)"
proof (rule s3_store.uploaded_reads_back [OF _ assms(4-6)])
  show "s3_store.registry_inv stored base client rt"
    unfolding s3_store.registry_inv_def using assms(1-3) by blast
qed

lemma demo_read: "get_strategy_source (s3_ops demo_client ''app/'') ''user-momo-0a1b2c3d'' ''ann'' demo_after
    = (demo_after, Inr (Some \<lparr>ss_source = ''plain'', ss_authored = None\<rparr>))"
  by code_simp

lemma demo_unread: "get_strategy_source (s3_ops demo_client ''app/'') ''user-momo-0a1b2c3d'' ''bob'' demo_after
    = (demo_after, Inr None)"
  by code_simp

theorem upload_reads_back_witness:
  "\<exists>rt k found missing.
    submit_strategy (s3_ops demo_client ''app/'') demo_dumps demo_parse demo_answers ''Momo!'' ''d'' ''plain'' None
      (Some ''ann'') demo_empty = (rt, Inr (k, Some ''run''))
    \<and> get_strategy_source (s3_ops demo_client ''app/'') k ''ann'' rt = (rt, Inr found)
    \<and> get_strategy_source (s3_ops demo_client ''app/'') k ''bob'' rt = (rt, Inr missing)
    \<and> found = Some \<lparr>ss_source = ''plain'', ss_authored = None\<rparr> \<and> missing = None"
proof -
  obtain found where found: "get_strategy_source (s3_ops demo_client ''app/'') ''user-momo-0a1b2c3d'' ''ann'' demo_after
      = (demo_after, Inr found)"
    using demo_read by blast
  obtain missing where missing: "get_strategy_source (s3_ops demo_client ''app/'') ''user-momo-0a1b2c3d'' ''bob'' demo_after
      = (demo_after, Inr missing)"
    using demo_unread by blast
  note uploaded = upload_reads_back [OF demo_client_documented demo_empty_ok demo_uploaded]
  have "found = Some \<lparr>ss_source = ''plain'', ss_authored = None\<rparr>"
    using uploaded [OF found] by simp
  moreover have "missing = None" using uploaded [OF missing] by simp
  ultimately show ?thesis using demo_uploaded found missing by blast
qed

text \<open>On the bucket the catalogue lists, in key order, exactly the rows it was asked for whose package is
  complete: an enabled strategy is never hidden while both its files are stored, and none is
  offered that a worker could not load.\<close>

theorem catalogue_lists_loadable:
  assumes "s3_documented client stored"
    "list_strategies (s3_ops client base) True every rt = (rt', Inr items)"
  shows "sorted (map fst items) \<and> set items = {(k, row). (k, row) \<in> set (rt_rows rt) \<and> (every \<or> ct_enabled row)
      \<and> (\<exists>storage. ct_storage row = Some storage \<and> storage \<noteq> []
          \<and> packaged (s3_objects stored base (rt_store rt)) storage)}"
proof -
  obtain s where "available_rows (s3_ops client base) True (rt_store rt) (list_rows every (rt_rows rt)) = (s, Inr items)"
    using assms(2) by (auto simp: list_strategies_def split: prod.splits)
  then have items: "items = filter (\<lambda>(k, row). s3_store.loadable True (s3_objects stored base (rt_store rt)) row)
      (list_rows every (rt_rows rt))"
    using s3_store.listed_exactly [OF assms(1)] by blast
  have "sorted (map fst items)"
    unfolding items list_rows_def by (intro sorted_filter) (simp add: sorted_filter)
  moreover have "s3_store.loadable True objs row \<longleftrightarrow>
      (\<exists>storage. ct_storage row = Some storage \<and> storage \<noteq> [] \<and> packaged objs storage)" for objs row
    by (auto simp: s3_store.loadable_def split: option.splits)
  ultimately show ?thesis unfolding items by (auto simp: list_rows_def)
qed

lemma demo_listed: "list_strategies (s3_ops demo_client ''app/'') True False demo_after = (demo_after, Inr (rt_rows demo_after))"
  by code_simp

theorem catalogue_lists_loadable_witness:
  "packaged (s3_objects (\<lambda>s. dict_get s) ''app/'' (rt_store demo_after)) ''strategies/user-momo-0a1b2c3d/''"
proof -
  obtain k row where kr: "rt_rows demo_after = [(k, row)]" "ct_storage row = Some ''strategies/user-momo-0a1b2c3d/''"
    by (simp add: demo_after_def fresh_row_def)
  then have "(k, row) \<in> set (rt_rows demo_after)" by simp
  with conjunct2 [OF catalogue_lists_loadable [OF demo_client_documented demo_listed]]
  have "\<exists>storage. ct_storage row = Some storage \<and> storage \<noteq> []
      \<and> packaged (s3_objects (\<lambda>s. dict_get s) ''app/'' (rt_store demo_after)) storage" by blast
  with kr(2) show ?thesis by simp
qed

end
