(* ===== verification/Daily_Loader.thy ===== *)
theory Daily_Loader
  imports Intraday
begin

text \<open>
  The daily database loader, \<open>fetch_historical_data\<close> of \<open>engine/core/utils.py\<close>, with its
  per-ticker cache \<open>engine/data/cache.py\<close>. Here \<open>pr_at\<close> is an instant in microseconds, and
  \<open>ny\<close> the wall clock of the exchange at an instant. A cache file holds bars, or is there and cannot be
  read; \<open>writable\<close> says which files can be written. Whether a query completes is \<open>db_up\<close>. An SQL \<open>DISTINCT ON\<close>
  among rows of one instant, and \<open>sort_values\<close> among equal timestamps, keep the table's order.
\<close>

section \<open>The three queries\<close>

definition trading_hours :: "(int \<Rightarrow> int) \<Rightarrow> int \<Rightarrow> bool" where
  "trading_hours ny t \<longleftrightarrow> 34200000000 \<le> ny t mod day_us \<and> ny t mod day_us \<le> 57600000000"

definition trade_date :: "(int \<Rightarrow> int) \<Rightarrow> int \<Rightarrow> int" where
  "trade_date ny t = ny t div day_us"

definition selected :: "(int \<Rightarrow> int) \<Rightarrow> string list \<Rightarrow> int \<Rightarrow> int \<Rightarrow> price_row list \<Rightarrow> price_row list" where
  "selected ny tickers a b rows =
     filter (\<lambda>r. pr_ticker r \<in> set tickers \<and> a \<le> pr_at r \<and> pr_at r \<le> b \<and> trading_hours ny (pr_at r)) rows"

definition bar_key :: "(int \<Rightarrow> int) \<Rightarrow> price_row \<Rightarrow> string \<times> int" where
  "bar_key ny r = (pr_ticker r, trade_date ny (pr_at r))"

definition bar_keys :: "(int \<Rightarrow> int) \<Rightarrow> price_row list \<Rightarrow> (string \<times> int) list" where
  "bar_keys ny rows = sort (remdups (map (bar_key ny) rows))"

definition group_of :: "(int \<Rightarrow> int) \<Rightarrow> string \<times> int \<Rightarrow> price_row list \<Rightarrow> price_row list" where
  "group_of ny k rows = filter (\<lambda>r. bar_key ny r = k) rows"

definition latest :: "price_row list \<Rightarrow> price_row" where
  "latest rows = last (sort_key pr_at rows)"

definition earliest :: "price_row list \<Rightarrow> price_row" where
  "earliest rows = hd (sort_key pr_at rows)"

definition close_query ::
  "(int \<Rightarrow> int) \<Rightarrow> string list \<Rightarrow> int \<Rightarrow> int \<Rightarrow> price_row list \<Rightarrow> (string \<times> int \<times> real option) list" where
  "close_query ny tickers a b rows =
     (let rs = selected ny tickers a b rows in
      map (\<lambda>k. let r = latest (group_of ny k rs) in (fst k, pr_at r, pr_close r)) (bar_keys ny rs))"

definition open_query ::
  "(int \<Rightarrow> int) \<Rightarrow> string list \<Rightarrow> int \<Rightarrow> int \<Rightarrow> price_row list \<Rightarrow> ((string \<times> int) \<times> real option) list" where
  "open_query ny tickers a b rows =
     (let rs = selected ny tickers a b rows in
      map (\<lambda>k. (k, pr_open (earliest (group_of ny k rs)))) (bar_keys ny rs))"

definition hlv_query ::
  "(int \<Rightarrow> int) \<Rightarrow> string list \<Rightarrow> int \<Rightarrow> int \<Rightarrow> price_row list
   \<Rightarrow> ((string \<times> int) \<times> real option \<times> real option \<times> real option) list" where
  "hlv_query ny tickers a b rows =
     (let rs = selected ny tickers a b rows in
      map (\<lambda>k. let g = group_of ny k rs in
         (k, agg (\<lambda>xs. Max (set xs)) (map pr_high g), agg (\<lambda>xs. Min (set xs)) (map pr_low g),
          agg sum_list (map pr_volume g))) (bar_keys ny rs))"

text \<open>The left joins on ticker and trade date, and the removal of bars without a close.\<close>

definition joined ::
  "(int \<Rightarrow> int) \<Rightarrow> ((string \<times> int) \<times> real option) list
   \<Rightarrow> ((string \<times> int) \<times> real option \<times> real option \<times> real option) list \<Rightarrow> string \<times> int \<times> real option \<Rightarrow> price_row" where
  "joined ny opens hlvs c =
     (case c of (ticker, t, close) \<Rightarrow>
        let k = (ticker, trade_date ny t);
            (high, low, volume) = (case map_of hlvs k of None \<Rightarrow> (None, None, None) | Some x \<Rightarrow> x)
        in \<lparr>pr_ticker = ticker, pr_at = t, pr_open = (case map_of opens k of None \<Rightarrow> None | Some x \<Rightarrow> x),
            pr_high = high, pr_low = low, pr_close = close, pr_volume = volume\<rparr>)"

definition fetch_from_db ::
  "database \<Rightarrow> (int \<Rightarrow> int) \<Rightarrow> string list \<Rightarrow> int \<Rightarrow> int \<Rightarrow> intraday_exn + price_row list" where
  "fetch_from_db db ny tickers a b =
     ebind (run_query db ''close'' tickers a b (close_query ny tickers a b)) (\<lambda>closes.
     ebind (run_query db ''open'' tickers a b (open_query ny tickers a b)) (\<lambda>opens.
     ebind (run_query db ''hlv'' tickers a b (hlv_query ny tickers a b)) (\<lambda>hlvs.
       Inr (filter (\<lambda>r. pr_close r \<noteq> None) (map (joined ny opens hlvs) closes)))))"

section \<open>The cache\<close>

type_synonym cache_files = "(string, price_row list option) dict"

text \<open>\<open>_path\<close>: one file per ticker, by a name without carets and slashes.\<close>

definition safe_name :: "string \<Rightarrow> string" where
  "safe_name ticker = map (\<lambda>c. if c = CHR ''^'' \<or> c = CHR ''/'' then CHR ''_'' else c) ticker"

definition cache_load :: "cache_files \<Rightarrow> string \<Rightarrow> price_row list" where
  "cache_load files ticker =
     (case dict_get files (safe_name ticker) of Some (Some rows) \<Rightarrow> rows | _ \<Rightarrow> [])"

definition cache_save :: "(string \<Rightarrow> bool) \<Rightarrow> string \<Rightarrow> price_row list \<Rightarrow> cache_files \<Rightarrow> cache_files" where
  "cache_save writable ticker rows files =
     (if rows = [] \<or> \<not> writable (safe_name ticker) then files
      else dict_set (safe_name ticker) (Some (sort_key pr_at rows)) files)"

definition missing_ranges :: "price_row list \<Rightarrow> int \<Rightarrow> int \<Rightarrow> (int \<times> int) list" where
  "missing_ranges cached start stop =
     (if cached = [] then [(start, stop)]
      else let lo = Min (set (map pr_at cached)); hi = Max (set (map pr_at cached))
           in (if start < lo then [(start, lo)] else []) @ (if stop > hi then [(hi, stop)] else []))"

fun first_per_timestamp :: "int list \<Rightarrow> price_row list \<Rightarrow> price_row list" where
  "first_per_timestamp seen [] = []"
| "first_per_timestamp seen (r # rs) =
     (if pr_at r \<in> set seen then first_per_timestamp seen rs
      else r # first_per_timestamp (pr_at r # seen) rs)"

definition merge_rows :: "price_row list \<Rightarrow> price_row list \<Rightarrow> price_row list" where
  "merge_rows cached new = (if new = [] then cached else sort_key pr_at (first_per_timestamp [] (cached @ new)))"

definition merge_and_save ::
  "(string \<Rightarrow> bool) \<Rightarrow> string \<Rightarrow> price_row list \<Rightarrow> price_row list \<Rightarrow> cache_files \<Rightarrow> cache_files \<times> price_row list" where
  "merge_and_save writable ticker cached new files =
     (if new = [] then (files, cached)
      else (cache_save writable ticker (merge_rows cached new) files, merge_rows cached new))"

section \<open>The loader\<close>

definition ticker_chunk :: nat where "ticker_chunk = 10"

definition slab_width :: int where "slab_width = 365 * day_us"

function slab_windows :: "int \<Rightarrow> int \<Rightarrow> (int \<times> int) list" where
  "slab_windows a b =
     (if a < b then (a, min (a + slab_width) b) # slab_windows (min (a + slab_width) b) b else [])"
  by pat_completeness auto
termination
  by (relation "measure (\<lambda>(a, b). nat (b - a))") (auto simp: slab_width_def min_def)

declare slab_windows.simps [simp del]

text \<open>The tickers that miss a range, per range, ranges in the order they first appear.\<close>

definition range_to_tickers :: "(string \<Rightarrow> price_row list) \<Rightarrow> int \<Rightarrow> int \<Rightarrow> string list \<Rightarrow> (int \<times> int, string list) dict" where
  "range_to_tickers caches start stop tickers =
     foldl (\<lambda>d (gap, t). dict_set gap (dict_or d gap [] @ [t]) d) []
       (concat (map (\<lambda>t. map (\<lambda>gap. (gap, t)) (missing_ranges (caches t) start stop)) tickers))"

definition fetch_jobs :: "(int \<times> int, string list) dict \<Rightarrow> ((int \<times> int) \<times> string list) list" where
  "fetch_jobs ranges =
     concat (map (\<lambda>((a, b), ts).
       concat (map (\<lambda>w. map (\<lambda>chunk. (w, chunk)) (chunks_of ticker_chunk ts)) (slab_windows a b))) ranges)"

type_synonym caches = "string \<Rightarrow> price_row list"

text \<open>Each ticker of the chunk takes its rows.\<close>

definition merge_ticker ::
  "(string \<Rightarrow> bool) \<Rightarrow> price_row list \<Rightarrow> caches \<times> cache_files \<Rightarrow> string \<Rightarrow> caches \<times> cache_files" where
  "merge_ticker writable fetched st t =
     (case merge_and_save writable t (fst st t) (filter (\<lambda>r. pr_ticker r = t) fetched) (snd st) of
        (files, rows) \<Rightarrow> ((fst st)(t := rows), files))"

fun run_jobs ::
  "database \<Rightarrow> (int \<Rightarrow> int) \<Rightarrow> (string \<Rightarrow> bool) \<Rightarrow> caches \<times> cache_files \<Rightarrow> ((int \<times> int) \<times> string list) list
   \<Rightarrow> (intraday_exn + caches) \<times> cache_files" where
  "run_jobs db ny writable st [] = (Inr (fst st), snd st)"
| "run_jobs db ny writable st (((a, b), chunk) # jobs) =
     (case fetch_from_db db ny chunk a b of
        Inl x \<Rightarrow> (Inl x, snd st)
      | Inr fetched \<Rightarrow>
          run_jobs db ny writable (if fetched = [] then st else foldl (merge_ticker writable fetched) st chunk) jobs)"

text \<open>The window ends a second before the midnight after its last day. Under the FMP source the rows come from the adapter
  instead and no cache is used; that branch is a request like the intraday loader's.\<close>

definition end_of_day :: "int \<Rightarrow> int" where
  "end_of_day t = t + (day_us - 1000000)"

definition fetch_historical_data ::
  "database \<Rightarrow> (int \<Rightarrow> int) \<Rightarrow> (string \<Rightarrow> bool) \<Rightarrow> string list \<Rightarrow> int \<Rightarrow> int \<Rightarrow> cache_files
   \<Rightarrow> (intraday_exn + price_row list) \<times> cache_files" where
  "fetch_historical_data db ny writable tickers start end_date files =
     (if tickers = [] then (Inr [], files)
      else let stop = end_of_day end_date;
               loaded = cache_load files
           in (case run_jobs db ny writable (loaded, files) (fetch_jobs (range_to_tickers loaded start stop tickers)) of
                 (Inl x, files') \<Rightarrow> (Inl x, files')
               | (Inr caches, files') \<Rightarrow>
                   (Inr (sort_key pr_at (concat (map (\<lambda>t. filter (\<lambda>r. start \<le> pr_at r \<and> pr_at r \<le> stop) (caches t)) tickers))),
                    files')))"

end
