(* ===== verification/Daily_Claims.thy ===== *)
theory Daily_Claims
  imports Daily_Loader "HOL-Library.Multiset"
begin

text \<open>
  What the daily loader promises: with an honest cache the answer is the one the database would give
  without a cache, and the cache stays honest. Then two histories that leave it dishonest.
\<close>

section \<open>Bars of a day\<close>

definition bar_of :: "string \<times> int \<Rightarrow> price_row list \<Rightarrow> price_row" where
  "bar_of k g = \<lparr>pr_ticker = fst k, pr_at = pr_at (latest g), pr_open = pr_open (earliest g),
     pr_high = agg (\<lambda>xs. Max (set xs)) (map pr_high g), pr_low = agg (\<lambda>xs. Min (set xs)) (map pr_low g),
     pr_close = pr_close (latest g), pr_volume = agg sum_list (map pr_volume g)\<rparr>"

lemma bar_of_ticker [simp]: "pr_ticker (bar_of k g) = fst k"
  by (simp add: bar_of_def)

text \<open>A ticker's rows of one trade date, within trading hours, and the bars they make.\<close>

definition session_rows_of :: "database \<Rightarrow> (int \<Rightarrow> int) \<Rightarrow> string \<Rightarrow> int \<Rightarrow> price_row list" where
  "session_rows_of db ny t d =
     filter (\<lambda>r. pr_ticker r = t \<and> trading_hours ny (pr_at r) \<and> trade_date ny (pr_at r) = d) (db_rows db)"

definition daily_bars :: "database \<Rightarrow> (int \<Rightarrow> int) \<Rightarrow> string \<Rightarrow> price_row list" where
  "daily_bars db ny t =
     filter (\<lambda>r. pr_close r \<noteq> None)
       (map (\<lambda>d. bar_of (t, d) (session_rows_of db ny t d))
         (sort (remdups (map (\<lambda>r. trade_date ny (pr_at r))
           (filter (\<lambda>r. pr_ticker r = t \<and> trading_hours ny (pr_at r)) (db_rows db))))))"

lemma latest_in: "g \<noteq> [] \<Longrightarrow> latest g \<in> set g"
  unfolding latest_def by (metis last_in_set set_sort length_0_conv length_sort)

lemma latest_max: "r \<in> set g \<Longrightarrow> pr_at r \<le> pr_at (latest g)"
proof -
  assume r: "r \<in> set g"
  then have ne: "sort_key pr_at g \<noteq> []" by (metis empty_iff list.set(1) set_sort)
  obtain i where i: "i < length (sort_key pr_at g)" "sort_key pr_at g ! i = r"
    using r by (metis in_set_conv_nth set_sort)
  have "sorted (map pr_at (sort_key pr_at g))" by simp
  then have "map pr_at (sort_key pr_at g) ! i \<le> map pr_at (sort_key pr_at g) ! (length g - 1)"
    using i(1) by (intro sorted_nth_mono) auto
  then show ?thesis using i ne by (simp add: latest_def last_conv_nth)
qed

lemma last_filter: "xs \<noteq> [] \<Longrightarrow> P (last xs) \<Longrightarrow> last (filter P xs) = last xs"
  by (cases xs rule: rev_cases) auto

lemma latest_at_top:
  assumes "\<forall>r\<in>set g. pr_at r \<le> a" "\<exists>r\<in>set g. pr_at r = a"
  shows "latest (filter (\<lambda>r. pr_at r = a) g) = latest g" "pr_at (latest g) = a"
proof -
  obtain r where r: "r \<in> set g" "pr_at r = a" using assms(2) by blast
  then have ne: "g \<noteq> []" by auto
  have top: "pr_at (latest g) = a"
    using latest_max [OF r(1)] latest_in [OF ne] assms(1) r(2) by force
  show "pr_at (latest g) = a" by (rule top)
  have "sort_key pr_at g \<noteq> []" using ne by (metis length_0_conv length_sort)
  then have "last (filter (\<lambda>r. pr_at r = a) (sort_key pr_at g)) = last (sort_key pr_at g)"
    using top by (intro last_filter) (simp_all add: latest_def)
  then show "latest (filter (\<lambda>r. pr_at r = a) g) = latest g"
    by (simp add: latest_def flip: filter_sort)
qed

section \<open>What one query gives\<close>

lemma map_of_map_same: "k \<in> set ks \<Longrightarrow> map_of (map (\<lambda>k. (k, f k)) ks) k = Some (f k)"
  by (induction ks) auto

lemma group_nonempty: "k \<in> set (bar_keys ny rs) \<longleftrightarrow> group_of ny k rs \<noteq> []"
  by (auto simp: bar_keys_def group_of_def filter_empty_conv)

lemma joined_bar:
  assumes "k \<in> set (bar_keys ny (selected ny ts a b rows))"
  shows "(let r = latest (group_of ny k (selected ny ts a b rows)) in
      joined ny (open_query ny ts a b rows) (hlv_query ny ts a b rows) (fst k, pr_at r, pr_close r))
    = bar_of k (group_of ny k (selected ny ts a b rows))"
proof -
  let ?g = "group_of ny k (selected ny ts a b rows)"
  have "latest ?g \<in> set ?g" using assms by (intro latest_in) (simp add: group_nonempty)
  then have "bar_key ny (latest ?g) = k" by (simp add: group_of_def)
  then have k: "(fst k, trade_date ny (pr_at (latest ?g))) = k" by (cases k) (auto simp: bar_key_def)
  show ?thesis
    using assms by (simp add: joined_def k Let_def open_query_def hlv_query_def map_of_map_same bar_of_def)
qed

lemma fetch_rows:
  assumes "fetch_from_db db ny ts a b = Inr fetched"
  shows "fetched = filter (\<lambda>r. pr_close r \<noteq> None)
    (map (\<lambda>k. bar_of k (group_of ny k (selected ny ts a b (db_rows db)))) (bar_keys ny (selected ny ts a b (db_rows db))))"
proof -
  have "fetched = filter (\<lambda>r. pr_close r \<noteq> None) (map (joined ny (open_query ny ts a b (db_rows db))
      (hlv_query ny ts a b (db_rows db))) (close_query ny ts a b (db_rows db)))"
    using assms by (auto simp: fetch_from_db_def run_query_def ebind_Inr_iff split: if_splits)
  then show ?thesis
    using joined_bar by (simp add: close_query_def Let_def o_def cong: map_cong)
qed

lemma group_selected: "group_of ny (t, d) (selected ny ts a b (db_rows db)) =
  (if t \<in> set ts then filter (\<lambda>r. a \<le> pr_at r \<and> pr_at r \<le> b) (session_rows_of db ny t d) else [])"
  by (auto simp: group_of_def selected_def session_rows_of_def bar_key_def intro!: filter_cong)

lemma fetched_iff:
  assumes "fetch_from_db db ny ts a b = Inr fetched" "t \<in> set ts"
  shows "x \<in> set (filter (\<lambda>r. pr_ticker r = t) fetched) \<longleftrightarrow>
    (\<exists>d. let g = filter (\<lambda>r. a \<le> pr_at r \<and> pr_at r \<le> b) (session_rows_of db ny t d)
         in g \<noteq> [] \<and> x = bar_of (t, d) g \<and> pr_close x \<noteq> None)"
proof -
  have "x \<in> set fetched \<longleftrightarrow> (\<exists>k. group_of ny k (selected ny ts a b (db_rows db)) \<noteq> []
      \<and> x = bar_of k (group_of ny k (selected ny ts a b (db_rows db))) \<and> pr_close x \<noteq> None)" for x
    unfolding fetch_rows [OF assms(1)] by (auto simp flip: group_nonempty)
  then have "x \<in> set (filter (\<lambda>r. pr_ticker r = t) fetched) \<longleftrightarrow>
      (\<exists>d. group_of ny (t, d) (selected ny ts a b (db_rows db)) \<noteq> []
      \<and> x = bar_of (t, d) (group_of ny (t, d) (selected ny ts a b (db_rows db))) \<and> pr_close x \<noteq> None)"
    by auto
  then show ?thesis using assms(2) by (simp add: group_selected Let_def)
qed

lemma daily_iff: "x \<in> set (daily_bars db ny t) \<longleftrightarrow>
  (\<exists>d. session_rows_of db ny t d \<noteq> [] \<and> x = bar_of (t, d) (session_rows_of db ny t d) \<and> pr_close x \<noteq> None)"
  by (auto simp: daily_bars_def session_rows_of_def filter_empty_conv)

lemma session_row_date: "r \<in> set (session_rows_of db ny t d) \<Longrightarrow> trade_date ny (pr_at r) = d"
  by (simp add: session_rows_of_def)

lemma daily_date:
  assumes "session_rows_of db ny t d \<noteq> []"
  shows "trade_date ny (pr_at (bar_of (t, d) (session_rows_of db ny t d))) = d"
  using session_row_date [OF latest_in [OF assms]] by (simp add: bar_of_def)

lemma daily_inj: "x \<in> set (daily_bars db ny t) \<Longrightarrow> y \<in> set (daily_bars db ny t) \<Longrightarrow> pr_at x = pr_at y \<Longrightarrow> x = y"
  unfolding daily_iff using daily_date by metis

lemma daily_distinct: "distinct (daily_bars db ny t)"
proof -
  define days where "days = remdups (map (\<lambda>r. trade_date ny (pr_at r)) (filter (\<lambda>r. pr_ticker r = t \<and> trading_hours ny (pr_at r)) (db_rows db)))"
  define bar where "bar = (\<lambda>d. bar_of (t, d) (session_rows_of db ny t d))"
  have dates: "trade_date ny (pr_at (bar d)) = d" if "d \<in> set days" for d
    unfolding bar_def using that
    by (intro daily_date) (auto simp: days_def session_rows_of_def filter_empty_conv)
  have "inj_on bar (set (sort days))"
    by (rule inj_on_inverseI [of _ "\<lambda>b. trade_date ny (pr_at b)"]) (simp add: dates)
  moreover have "distinct days" by (simp add: days_def)
  ultimately have "distinct (map bar (sort days))" by (simp add: distinct_map)
  then show ?thesis by (simp add: daily_bars_def flip: days_def bar_def)
qed

text \<open>An instant that does not cut a trading day of the ticker in two.\<close>

definition day_edge :: "database \<Rightarrow> (int \<Rightarrow> int) \<Rightarrow> string \<Rightarrow> int \<Rightarrow> bool" where
  "day_edge db ny t x \<longleftrightarrow> (\<forall>d. (\<forall>r\<in>set (session_rows_of db ny t d). pr_at r \<le> x)
     \<or> (\<forall>r\<in>set (session_rows_of db ny t d). x < pr_at r))"

text \<open>Between two edges a query gives the bars of the whole days, and for a day that ends at the left
  edge a bar with that day's own timestamp and close.\<close>

lemma window_cases:
  assumes "day_edge db ny t a" "day_edge db ny t b"
    "filter (\<lambda>r. a \<le> pr_at r \<and> pr_at r \<le> b) (session_rows_of db ny t d) \<noteq> []" (is "?g \<noteq> []")
  shows "?g = session_rows_of db ny t d \<or>
    (?g = filter (\<lambda>r. pr_at r = a) (session_rows_of db ny t d) \<and> (\<forall>r\<in>set (session_rows_of db ny t d). pr_at r \<le> a))"
proof -
  let ?s = "session_rows_of db ny t d"
  obtain r where r: "r \<in> set ?s" "a \<le> pr_at r" "pr_at r \<le> b"
    using assms(3) by (auto simp: filter_empty_conv)
  then have b: "\<forall>r\<in>set ?s. pr_at r \<le> b" using assms(2) by (fastforce simp: day_edge_def)
  show ?thesis
  proof (cases "\<forall>r\<in>set ?s. a < pr_at r")
    case True
    then have "?g = ?s" using b by (intro filter_True) auto
    then show ?thesis ..
  next
    case False
    then have a: "\<forall>r\<in>set ?s. pr_at r \<le> a" using assms(1) by (auto simp: day_edge_def)
    then have "?g = filter (\<lambda>r. pr_at r = a) ?s" using b by (intro filter_cong) auto
    with a show ?thesis by blast
  qed
qed

section \<open>Merging\<close>

lemma first_per_prefix: "distinct (map pr_at c) \<Longrightarrow> set (map pr_at c) \<inter> set seen = {} \<Longrightarrow>
  first_per_timestamp seen (c @ new) = c @ first_per_timestamp (rev (map pr_at c) @ seen) new"
  by (induction c arbitrary: seen) auto

lemma first_per_sub: "x \<in> set (first_per_timestamp seen rs) \<Longrightarrow> x \<in> set rs \<and> pr_at x \<notin> set seen"
  by (induction seen rs rule: first_per_timestamp.induct) (auto split: if_splits)

lemma first_per_distinct: "distinct (map pr_at (first_per_timestamp seen rs))"
  by (induction seen rs rule: first_per_timestamp.induct) (auto dest: first_per_sub)

lemma first_per_some: "r \<in> set rs \<Longrightarrow> pr_at r \<notin> set seen \<Longrightarrow>
  \<exists>x\<in>set (first_per_timestamp seen rs). pr_at x = pr_at r"
proof (induction seen rs rule: first_per_timestamp.induct)
  case (2 seen q rs)
  then show ?case by (cases "pr_at r = pr_at q") auto
qed simp

lemma merge_set: "distinct (map pr_at c) \<Longrightarrow>
  set (merge_rows c new) = set c \<union> set (first_per_timestamp (rev (map pr_at c)) new)"
  by (simp add: merge_rows_def first_per_prefix)

lemma merge_distinct:
  assumes "distinct (map pr_at c)"
  shows "distinct (map pr_at (merge_rows c new))"
proof -
  have "distinct (map pr_at (sort_key pr_at xs)) = distinct (map pr_at xs)" for xs :: "price_row list"
    by (simp add: distinct_map)
  then show ?thesis using assms by (simp add: merge_rows_def first_per_distinct)
qed

text \<open>What is known of a ticker's cached bars when the instants of \<open>cov\<close> have been fetched.\<close>

definition covers :: "database \<Rightarrow> (int \<Rightarrow> int) \<Rightarrow> string \<Rightarrow> price_row list \<Rightarrow> int set \<Rightarrow> bool" where
  "covers db ny t c cov \<longleftrightarrow> distinct (map pr_at c) \<and> set c \<subseteq> set (daily_bars db ny t) \<and> pr_at ` set c \<subseteq> cov
     \<and> (\<forall>b\<in>set (daily_bars db ny t). pr_at b \<in> cov \<longrightarrow> b \<in> set c)"

text \<open>A window that can be fetched next: no day is cut, and nothing new lies on its left end.\<close>

definition window_ok :: "database \<Rightarrow> (int \<Rightarrow> int) \<Rightarrow> string \<Rightarrow> int set \<Rightarrow> int \<times> int \<Rightarrow> bool" where
  "window_ok db ny t cov w \<longleftrightarrow> day_edge db ny t (fst w) \<and> day_edge db ny t (snd w)
     \<and> (fst w \<in> cov \<or> (\<forall>d. \<forall>r\<in>set (session_rows_of db ny t d). pr_at r \<noteq> fst w))"

lemma bar_of_close: "pr_close (bar_of k g) = pr_close (latest g)" "pr_at (bar_of k g) = pr_at (latest g)"
  by (simp_all add: bar_of_def)

lemma fetched_is_daily:
  assumes "fetch_from_db db ny ts a b = Inr fetched" "t \<in> set ts" "window_ok db ny t cov (a, b)" "covers db ny t c cov"
    and x: "x \<in> set (filter (\<lambda>r. pr_ticker r = t) fetched)" "pr_at x \<notin> pr_at ` set c"
  shows "x \<in> set (daily_bars db ny t)" "a \<le> pr_at x" "pr_at x \<le> b"
proof -
  obtain d where d: "filter (\<lambda>r. a \<le> pr_at r \<and> pr_at r \<le> b) (session_rows_of db ny t d) \<noteq> []"
      "x = bar_of (t, d) (filter (\<lambda>r. a \<le> pr_at r \<and> pr_at r \<le> b) (session_rows_of db ny t d))" "pr_close x \<noteq> None"
    using x(1) unfolding fetched_iff [OF assms(1,2)] Let_def by blast
  let ?g = "filter (\<lambda>r. a \<le> pr_at r \<and> pr_at r \<le> b) (session_rows_of db ny t d)"
  have "latest ?g \<in> set ?g" by (rule latest_in [OF d(1)])
  then show "a \<le> pr_at x" "pr_at x \<le> b" by (simp_all add: d(2) bar_of_def)
  have edges: "day_edge db ny t a" "day_edge db ny t b" using assms(3) by (simp_all add: window_ok_def)
  from window_cases [OF edges d(1)] show "x \<in> set (daily_bars db ny t)"
  proof
    assume "?g = session_rows_of db ny t d"
    then show ?thesis using d unfolding daily_iff by metis
  next
    let ?s = "session_rows_of db ny t d"
    assume g: "?g = filter (\<lambda>r. pr_at r = a) ?s \<and> (\<forall>r\<in>set ?s. pr_at r \<le> a)"
    then obtain r where r: "r \<in> set ?s" "pr_at r = a" using d(1) by (auto simp: filter_empty_conv)
    then have "a \<in> cov" using assms(3) by (auto simp: window_ok_def)
    have same: "latest ?g = latest ?s" "pr_at (latest ?s) = a"
      using latest_at_top [of ?s a] g r by auto
    have "bar_of (t, d) ?s \<in> set (daily_bars db ny t)"
      unfolding daily_iff using r d(2,3) same by (intro exI [of _ d]) (auto simp: bar_of_close)
    then have "bar_of (t, d) ?s \<in> set c"
      using assms(4) \<open>a \<in> cov\<close> same by (auto simp: covers_def bar_of_close)
    then have "pr_at (bar_of (t, d) ?s) \<in> pr_at ` set c" by (rule imageI)
    then show ?thesis using x(2) same d(2) by (simp add: bar_of_close)
  qed
qed

lemma daily_is_fetched:
  assumes "fetch_from_db db ny ts a b = Inr fetched" "t \<in> set ts" "window_ok db ny t cov (a, b)" "covers db ny t c cov"
    and y: "y \<in> set (daily_bars db ny t)" "a \<le> pr_at y" "pr_at y \<le> b"
  shows "y \<in> set c \<or> y \<in> set (filter (\<lambda>r. pr_ticker r = t) fetched)"
proof -
  obtain d where d: "session_rows_of db ny t d \<noteq> []" "y = bar_of (t, d) (session_rows_of db ny t d)" "pr_close y \<noteq> None"
    using y(1) unfolding daily_iff by blast
  let ?s = "session_rows_of db ny t d"
  let ?g = "filter (\<lambda>r. a \<le> pr_at r \<and> pr_at r \<le> b) ?s"
  have top: "latest ?s \<in> set ?s" "pr_at (latest ?s) = pr_at y" using latest_in [OF d(1)] d(2) by (simp_all add: bar_of_close)
  then have g: "?g \<noteq> []" using y by (force simp: filter_empty_conv)
  have edges: "day_edge db ny t a" "day_edge db ny t b" using assms(3) by (simp_all add: window_ok_def)
  from window_cases [OF edges g] show ?thesis
  proof
    assume "?g = ?s"
    then have "y \<in> set (filter (\<lambda>r. pr_ticker r = t) fetched)"
      unfolding fetched_iff [OF assms(1,2)] Let_def using g d(2,3) by (intro exI [of _ d]) simp
    then show ?thesis ..
  next
    assume "?g = filter (\<lambda>r. pr_at r = a) ?s \<and> (\<forall>r\<in>set ?s. pr_at r \<le> a)"
    then have "pr_at y = a" using top y(2) by force
    then have "a \<in> cov" using assms(3) top by (auto simp: window_ok_def)
    then show ?thesis using assms(4) y(1) \<open>pr_at y = a\<close> by (simp add: covers_def)
  qed
qed

lemma covers_step:
  assumes "fetch_from_db db ny ts a b = Inr fetched" "t \<in> set ts" "window_ok db ny t cov (a, b)" "covers db ny t c cov"
  shows "covers db ny t (merge_rows c (filter (\<lambda>r. pr_ticker r = t) fetched)) (cov \<union> {a..b})"
proof -
  let ?n = "filter (\<lambda>r. pr_ticker r = t) fetched" and ?D = "set (daily_bars db ny t)"
  let ?f = "first_per_timestamp (rev (map pr_at c)) ?n"
  have c: "distinct (map pr_at c)" "set c \<subseteq> ?D" "pr_at ` set c \<subseteq> cov" "\<forall>b\<in>?D. pr_at b \<in> cov \<longrightarrow> b \<in> set c"
    using assms(4) by (simp_all add: covers_def)
  have f: "x \<in> ?D \<and> a \<le> pr_at x \<and> pr_at x \<le> b" if "x \<in> set ?f" for x
    using first_per_sub [OF that] fetched_is_daily [OF assms, of x] by auto
  have m: "set (merge_rows c ?n) = set c \<union> set ?f" by (rule merge_set [OF c(1)])
  have "y \<in> set (merge_rows c ?n)" if y: "y \<in> ?D" "a \<le> pr_at y" "pr_at y \<le> b" for y
  proof (cases "y \<in> set c \<or> pr_at y \<in> pr_at ` set c")
    case True
    then obtain x where "x \<in> set c" "pr_at x = pr_at y" by fastforce
    then have "y \<in> set c" using c(2) daily_inj [OF y(1), of x] by auto
    then show ?thesis by (simp add: m)
  next
    case False
    then have "y \<in> set ?n" using daily_is_fetched [OF assms y] by blast
    then obtain x where "x \<in> set ?f" "pr_at x = pr_at y"
      using first_per_some [of y ?n "rev (map pr_at c)"] False by auto
    then have "y \<in> set ?f" using daily_inj [OF y(1), of x] f by auto
    then show ?thesis by (simp add: m)
  qed
  then have all: "y \<in> set (merge_rows c ?n)" if "y \<in> ?D" "pr_at y \<in> cov \<union> {a..b}" for y
    using that c(4) m by auto
  have "set (merge_rows c ?n) \<subseteq> ?D" using c(2) f by (auto simp: m)
  moreover have "pr_at ` set (merge_rows c ?n) \<subseteq> cov \<union> {a..b}" using c(3) f by (auto simp: m)
  ultimately show ?thesis
    unfolding covers_def using merge_distinct [OF c(1)] all by blast
qed

section \<open>A run of queries\<close>

lemma merge_ticker_caches:
  "fst (merge_ticker wr fetched st t) = (fst st)(t := merge_rows (fst st t) (filter (\<lambda>r. pr_ticker r = t) fetched))"
  by (auto simp: merge_ticker_def merge_and_save_def merge_rows_def split: prod.splits)

lemma merge_fold:
  "distinct ts \<Longrightarrow> fst (foldl (merge_ticker wr fetched) st ts) t =
     (if t \<in> set ts then merge_rows (fst st t) (filter (\<lambda>r. pr_ticker r = t) fetched) else fst st t)"
  by (induction ts arbitrary: st) (auto simp: merge_ticker_caches)

lemma load_save: "cache_load (cache_save wr t rows files) t' =
  (if rows \<noteq> [] \<and> wr (safe_name t) \<and> safe_name t' = safe_name t then sort_key pr_at rows else cache_load files t')"
  by (simp add: cache_load_def cache_save_def)

lemma sort_key_again: "sort_key f (sort_key f xs) = sort_key f xs"
  by (rule sort_key_id_if_sorted) simp

lemma first_per_nonempty: "first_per_timestamp [] rs = [] \<longleftrightarrow> rs = []"
  by (cases rs) simp_all

lemma sort_key_empty: "sort_key f xs = [] \<longleftrightarrow> xs = []"
  by (metis set_empty set_sort)

lemma merge_nonempty: "new \<noteq> [] \<Longrightarrow> merge_rows c new \<noteq> [] \<and> sort_key pr_at (merge_rows c new) = merge_rows c new"
  by (simp add: merge_rows_def sort_key_again sort_key_empty first_per_nonempty)

text \<open>A file that can be written holds the bars in memory; another is as it was.\<close>

definition files_follow :: "(string \<Rightarrow> bool) \<Rightarrow> cache_files \<Rightarrow> string set \<Rightarrow> caches \<times> cache_files \<Rightarrow> bool" where
  "files_follow wr files T st \<longleftrightarrow>
     (\<forall>t\<in>T. cache_load (snd st) t = (if wr (safe_name t) then fst st t else cache_load files t))"

lemma merge_ticker_follows:
  assumes "inj_on safe_name T" "t \<in> T" "files_follow wr files T st"
  shows "files_follow wr files T (merge_ticker wr fetched st t)"
proof -
  have "cache_load (snd (merge_ticker wr fetched st t)) u =
      (if wr (safe_name u) then fst (merge_ticker wr fetched st t) u else cache_load files u)" if "u \<in> T" for u
    using assms(3) that inj_onD [OF assms(1), of u t] assms(2)
      merge_nonempty [of "filter (\<lambda>r. pr_ticker r = t) fetched" "fst st t"]
    by (auto simp: files_follow_def merge_ticker_def merge_and_save_def load_save)
  then show ?thesis by (simp add: files_follow_def)
qed

lemma merge_fold_follows:
  "inj_on safe_name T \<Longrightarrow> set ts \<subseteq> T \<Longrightarrow> files_follow wr files T st \<Longrightarrow>
   files_follow wr files T (foldl (merge_ticker wr fetched) st ts)"
  by (induction ts arbitrary: st) (simp_all add: merge_ticker_follows)

definition windows_of :: "string \<Rightarrow> ((int \<times> int) \<times> string list) list \<Rightarrow> (int \<times> int) list" where
  "windows_of t jobs = map fst (filter (\<lambda>j. t \<in> set (snd j)) jobs)"

lemma windows_of_simps [simp]: "windows_of t [] = []"
  "windows_of t (j # jobs) = (if t \<in> set (snd j) then fst j # windows_of t jobs else windows_of t jobs)"
  "windows_of t (js @ jobs) = windows_of t js @ windows_of t jobs"
  by (simp_all add: windows_of_def)

definition span :: "(int \<times> int) list \<Rightarrow> int set" where
  "span ws = (\<Union>w\<in>set ws. {fst w..snd w})"

lemma span_simps [simp]: "span [] = {}" "span (w # ws) = {fst w..snd w} \<union> span ws" "span (ws @ vs) = span ws \<union> span vs"
  by (auto simp: span_def)

fun windows_ok :: "database \<Rightarrow> (int \<Rightarrow> int) \<Rightarrow> string \<Rightarrow> int set \<Rightarrow> (int \<times> int) list \<Rightarrow> bool" where
  "windows_ok db ny t cov [] = True"
| "windows_ok db ny t cov (w # ws) \<longleftrightarrow> window_ok db ny t cov w \<and> windows_ok db ny t (cov \<union> {fst w..snd w}) ws"

lemma run_jobs_covers:
  "run_jobs db ny wr st jobs = (Inr caches, files) \<Longrightarrow> list_all (\<lambda>j. distinct (snd j)) jobs \<Longrightarrow>
   covers db ny t (fst st t) cov \<Longrightarrow> windows_ok db ny t cov (windows_of t jobs) \<Longrightarrow>
   covers db ny t (caches t) (cov \<union> span (windows_of t jobs))"
proof (induction db ny wr st jobs arbitrary: cov rule: run_jobs.induct)
  case (1 db ny wr st)
  then show ?case by simp
next
  case (2 db ny wr st a b chunk jobs)
  obtain fetched where f: "fetch_from_db db ny chunk a b = Inr fetched"
    using 2(2) by (auto split: sum.splits)
  let ?st = "if fetched = [] then st else foldl (merge_ticker wr fetched) st chunk"
  have step: "fst ?st t = (if t \<in> set chunk then merge_rows (fst st t) (filter (\<lambda>r. pr_ticker r = t) fetched) else fst st t)"
    using 2(3) by (simp add: merge_fold merge_rows_def)
  have run: "run_jobs db ny wr ?st jobs = (Inr caches, files)" using 2(2) f by simp
  show ?case
  proof (cases "t \<in> set chunk")
    case True
    then have "covers db ny t (fst ?st t) (cov \<union> {a..b})"
      using covers_step [OF f True _ 2(4)] 2(5) step by simp
    then show ?thesis using 2(1) [OF f run, of "cov \<union> {a..b}"] 2(3,5) True by (simp add: Un_assoc)
  next
    case False
    then show ?thesis using 2(1) [OF f run, of cov] 2(3-5) step by simp
  qed
qed

lemma run_jobs_follow:
  "run_jobs db ny wr st jobs = (Inr caches, files') \<Longrightarrow> inj_on safe_name T \<Longrightarrow>
   list_all (\<lambda>j. set (snd j) \<subseteq> T) jobs \<Longrightarrow> files_follow wr files T st \<Longrightarrow> files_follow wr files T (caches, files')"
  by (induction db ny wr st jobs rule: run_jobs.induct) (auto simp: merge_fold_follows split: sum.splits if_splits)

section \<open>The windows a ticker's gaps are cut into\<close>

lemma windows_of_chunks:
  "0 < n \<Longrightarrow> distinct ts \<Longrightarrow> windows_of t (map (Pair w) (chunks_of n ts)) = (if t \<in> set ts then [w] else [])"
proof (induction n ts rule: chunks_of.induct)
  case (1 n ts)
  show ?case
  proof (cases "ts = []")
    case True
    then show ?thesis by (simp add: chunks_of.simps [of n "[]"])
  next
    case False
    have parts: "t \<in> set ts \<longleftrightarrow> t \<in> set (take n ts) \<or> t \<in> set (drop n ts)"
      "set (take n ts) \<inter> set (drop n ts) = {}"
      using 1(3) by (metis Un_iff append_take_drop_id set_append, metis append_take_drop_id distinct_append)
    show ?thesis
      using 1 False parts by (subst chunks_of.simps) auto
  qed
qed

lemma chunk_distinct: "distinct ts \<Longrightarrow> c \<in> set (chunks_of n ts) \<Longrightarrow> distinct c"
proof (induction n ts rule: chunks_of.induct)
  case (1 n ts)
  from 1(3) consider "ts \<noteq> []" "0 < n" "c = take n ts" | "ts \<noteq> []" "0 < n" "c \<in> set (chunks_of n (drop n ts))"
    by (subst (asm) chunks_of.simps) (auto split: if_splits)
  then show ?case using 1(1,2) by cases auto
qed

lemma windows_of_slabs:
  "distinct ts \<Longrightarrow> windows_of t (concat (map (\<lambda>w. map (\<lambda>chunk. (w, chunk)) (chunks_of ticker_chunk ts)) ws)) =
     (if t \<in> set ts then ws else [])"
  by (induction ws) (simp_all add: windows_of_chunks ticker_chunk_def)

lemma windows_of_jobs:
  "list_all (\<lambda>p. distinct (snd p)) d \<Longrightarrow> windows_of t (fetch_jobs d) =
     concat (map (\<lambda>(a, b). slab_windows a b) (map fst (filter (\<lambda>p. t \<in> set (snd p)) d)))"
  by (induction d) (auto simp: fetch_jobs_def windows_of_slabs split: prod.splits)

lemma jobs_chunks:
  assumes "list_all (\<lambda>p. distinct (snd p) \<and> set (snd p) \<subseteq> T) d"
  shows "list_all (\<lambda>j. distinct (snd j)) (fetch_jobs d)" "list_all (\<lambda>j. set (snd j) \<subseteq> T) (fetch_jobs d)"
  using assms chunk_distinct chunks_of_subset
  by (fastforce simp: fetch_jobs_def list_all_iff)+

text \<open>Who misses a range: exactly the tickers whose cache has that gap.\<close>

definition cached_span :: "price_row list \<Rightarrow> int set" where
  "cached_span c = (if c = [] then {} else {Min (set (map pr_at c))..Max (set (map pr_at c))})"

lemma cached_bounds:
  assumes "c \<noteq> []"
  obtains lo hi where "lo \<le> hi" "lo \<in> pr_at ` set c" "hi \<in> pr_at ` set c" "pr_at ` set c \<subseteq> {lo..hi}"
    "cached_span c = {lo..hi}"
    "missing_ranges c = (\<lambda>a b. (if a < lo then [(a, lo)] else []) @ (if b > hi then [(hi, b)] else []))"
proof (rule that)
  show "Min (set (map pr_at c)) \<le> Max (set (map pr_at c))" using assms by (intro Max_ge [OF _ Min_in]) simp_all
  show "Min (set (map pr_at c)) \<in> pr_at ` set c" using assms Min_in [of "set (map pr_at c)"] by simp
  show "Max (set (map pr_at c)) \<in> pr_at ` set c" using assms Max_in [of "set (map pr_at c)"] by simp
  show "pr_at ` set c \<subseteq> {Min (set (map pr_at c))..Max (set (map pr_at c))}" by auto
qed (simp_all only: missing_ranges_def cached_span_def assms if_False Let_def fun_eq_iff simp_thms)

lemma missing_distinct: "distinct (missing_ranges c a b)"
proof (cases "c = []")
  case False
  then obtain lo hi where lh: "lo \<le> hi" "lo \<in> pr_at ` set c" "hi \<in> pr_at ` set c" "pr_at ` set c \<subseteq> {lo..hi}" "cached_span c = {lo..hi}"
    "missing_ranges c = (\<lambda>a b. (if a < lo then [(a, lo)] else []) @ (if b > hi then [(hi, b)] else []))"
    by (rule cached_bounds)
  then show ?thesis unfolding lh(6) by auto
qed (simp add: missing_ranges_def)

definition gap_pairs :: "(string \<Rightarrow> price_row list) \<Rightarrow> int \<Rightarrow> int \<Rightarrow> string list \<Rightarrow> ((int \<times> int) \<times> string) list" where
  "gap_pairs caches a b tickers = concat (map (\<lambda>t. map (\<lambda>gap. (gap, t)) (missing_ranges (caches t) a b)) tickers)"

lemma gap_pairs_distinct: "distinct ts \<Longrightarrow> distinct (gap_pairs caches a b ts)"
  unfolding gap_pairs_def
  by (induction ts) (auto simp: distinct_map missing_distinct inj_on_def)

lemma grouping:
  "distinct (map fst d) \<Longrightarrow> distinct (map fst (foldl (\<lambda>d (g, t). dict_set g (dict_or d g [] @ [t]) d) d ps)) \<and>
   dict_or (foldl (\<lambda>d (g, t). dict_set g (dict_or d g [] @ [t]) d) d ps) k [] =
     dict_or d k [] @ map snd (filter (\<lambda>p. fst p = k) ps) \<and>
   fst ` set (foldl (\<lambda>d (g, t). dict_set g (dict_or d g [] @ [t]) d) d ps) = fst ` set d \<union> fst ` set ps"
  by (induction ps arbitrary: d) (auto split: prod.splits)

lemma ranges_entry:
  assumes "(g, ts) \<in> set (range_to_tickers caches a b tickers)"
  shows "ts = map snd (filter (\<lambda>p. fst p = g) (gap_pairs caches a b tickers))"
proof -
  let ?d = "range_to_tickers caches a b tickers"
  have d: "distinct (map fst ?d)" "dict_or ?d g [] = map snd (filter (\<lambda>p. fst p = g) (gap_pairs caches a b tickers))"
    using grouping [of "[]" "gap_pairs caches a b tickers" g]
    by (simp_all add: range_to_tickers_def gap_pairs_def dict_or_def [of "[]"])
  have "map_of ?d g = Some ts" using d(1) assms by (simp add: map_of_is_SomeI)
  then show ?thesis using d(2) by (simp add: dict_or_def)
qed

lemma ranges_keys: "fst ` set (range_to_tickers caches a b tickers) = fst ` set (gap_pairs caches a b tickers)"
  using grouping [of "[]" "gap_pairs caches a b tickers"] by (simp add: range_to_tickers_def gap_pairs_def)

lemma ranges_distinct: "distinct (map fst (range_to_tickers caches a b tickers))"
  using grouping [of "[]" "gap_pairs caches a b tickers"] by (simp add: range_to_tickers_def gap_pairs_def)

lemma ranges_shape:
  assumes "distinct tickers"
  shows "list_all (\<lambda>p. distinct (snd p) \<and> set (snd p) \<subseteq> set tickers) (range_to_tickers caches a b tickers)"
proof -
  have "distinct ts \<and> set ts \<subseteq> set tickers" if "(g, ts) \<in> set (range_to_tickers caches a b tickers)" for g ts
  proof -
    let ?ps = "filter (\<lambda>p. fst p = g) (gap_pairs caches a b tickers)"
    have "distinct ?ps" using gap_pairs_distinct [OF assms] by simp
    moreover have "inj_on snd (set ?ps)" by (auto simp: inj_on_def)
    ultimately have "distinct (map snd ?ps)" by (simp add: distinct_map)
    moreover have "set (map snd ?ps) \<subseteq> set tickers" by (auto simp: gap_pairs_def)
    ultimately show ?thesis using ranges_entry [OF that] by simp
  qed
  then show ?thesis unfolding list_all_iff by (metis prod.collapse)
qed

definition gaps_of :: "string \<Rightarrow> (int \<times> int, string list) dict \<Rightarrow> (int \<times> int) list" where
  "gaps_of t d = map fst (filter (\<lambda>p. t \<in> set (snd p)) d)"

lemma gaps_of_ranges:
  assumes "t \<in> set tickers"
  shows "set (gaps_of t (range_to_tickers caches a b tickers)) = set (missing_ranges (caches t) a b)" (is "?L = ?R")
proof -
  let ?d = "range_to_tickers caches a b tickers"
  have pair: "(g, t) \<in> set (gap_pairs caches a b tickers) \<longleftrightarrow> g \<in> ?R" for g
    using assms by (auto simp: gap_pairs_def)
  have "g \<in> ?L \<longleftrightarrow> g \<in> ?R" for g
  proof
    assume "g \<in> ?L"
    then obtain ts where ts: "(g, ts) \<in> set ?d" "t \<in> set ts" by (auto simp: gaps_of_def)
    have "(g, t) \<in> set (gap_pairs caches a b tickers)"
      using ts(2) unfolding ranges_entry [OF ts(1)] by auto
    then show "g \<in> ?R" by (simp add: pair)
  next
    assume "g \<in> ?R"
    then have g: "(g, t) \<in> set (gap_pairs caches a b tickers)" by (simp add: pair)
    then have "g \<in> fst ` set ?d" unfolding ranges_keys by force
    then obtain ts where ts: "(g, ts) \<in> set ?d" by auto
    then have "t \<in> set ts" using g ranges_entry [OF ts] by force
    then show "g \<in> ?L" using ts by (force simp: gaps_of_def)
  qed
  then show ?thesis by blast
qed

lemma windows_ok_append: "windows_ok db ny t cov (ws @ vs) \<longleftrightarrow>
  windows_ok db ny t cov ws \<and> windows_ok db ny t (cov \<union> span ws) vs"
  by (induction ws arbitrary: cov) (auto simp: Un_assoc)

lemma span_slabs: "span (slab_windows a b) = (if a < b then {a..b} else {})"
proof (induction a b rule: slab_windows.induct)
  case (1 a b)
  show ?case
    using 1 by (subst slab_windows.simps) (auto simp: slab_width_def min_def)
qed

definition clear_at :: "database \<Rightarrow> (int \<Rightarrow> int) \<Rightarrow> string \<Rightarrow> int \<Rightarrow> bool" where
  "clear_at db ny t x \<longleftrightarrow> (\<forall>d. \<forall>r\<in>set (session_rows_of db ny t d). pr_at r \<noteq> x)"

definition edged :: "database \<Rightarrow> (int \<Rightarrow> int) \<Rightarrow> string \<Rightarrow> (int \<times> int) list \<Rightarrow> bool" where
  "edged db ny t ws \<longleftrightarrow> (\<forall>w\<in>set ws. day_edge db ny t (fst w) \<and> day_edge db ny t (snd w))"

lemma slabs_ok: "edged db ny t (slab_windows a b) \<Longrightarrow> a \<in> cov \<or> clear_at db ny t a \<Longrightarrow>
  windows_ok db ny t cov (slab_windows a b)"
proof (induction a b arbitrary: cov rule: slab_windows.induct)
  case (1 a b)
  show ?case
  proof (cases "a < b")
    case True
    let ?m = "min (a + slab_width) b"
    have split: "slab_windows a b = (a, ?m) # slab_windows ?m b" using True by (subst slab_windows.simps) simp
    have "edged db ny t (slab_windows ?m b)" and head: "day_edge db ny t a" "day_edge db ny t ?m"
      using 1(2) unfolding split by (simp_all add: edged_def)
    moreover have "?m \<in> cov \<union> {a..?m}" using True by (auto simp: slab_width_def)
    ultimately have "windows_ok db ny t (cov \<union> {a..?m}) (slab_windows ?m b)" using 1(1) [OF True] by blast
    then show ?thesis using head 1(3) unfolding split by (simp add: window_ok_def clear_at_def)
  qed (simp add: slab_windows.simps [of a b])
qed

lemma gaps_ok:
  "list_all (\<lambda>(a, b). edged db ny t (slab_windows a b) \<and> (a \<in> cov \<or> clear_at db ny t a)) gs \<Longrightarrow>
   windows_ok db ny t cov (concat (map (\<lambda>(a, b). slab_windows a b) gs))"
proof (induction gs arbitrary: cov)
  case (Cons g gs)
  obtain a b where g: "g = (a, b)" by (cases g)
  have "windows_ok db ny t (cov \<union> span (slab_windows a b)) (concat (map (\<lambda>(a, b). slab_windows a b) gs))"
    using Cons.prems by (intro Cons.IH) (auto simp: list_all_iff)
  then show ?case using Cons.prems by (simp add: g windows_ok_append slabs_ok)
qed simp

lemma span_gaps: "span (concat (map (\<lambda>(a, b). slab_windows a b) gs)) = (\<Union>g\<in>set gs. if fst g < snd g then {fst g..snd g} else {})"
  by (induction gs) (auto simp: span_slabs split: prod.splits)

section \<open>The promise\<close>

text \<open>An honest cache of a ticker: bars of the database, and all of those between its first and its last.\<close>

definition honest :: "database \<Rightarrow> (int \<Rightarrow> int) \<Rightarrow> string \<Rightarrow> price_row list \<Rightarrow> bool" where
  "honest db ny t c \<longleftrightarrow> distinct (map pr_at c) \<and> set c \<subseteq> set (daily_bars db ny t) \<and>
     (\<forall>b\<in>set (daily_bars db ny t). (\<exists>x\<in>set c. pr_at x \<le> pr_at b) \<longrightarrow> (\<exists>y\<in>set c. pr_at b \<le> pr_at y) \<longrightarrow> b \<in> set c)"

definition cuts_no_day :: "database \<Rightarrow> (int \<Rightarrow> int) \<Rightarrow> string \<Rightarrow> price_row list \<Rightarrow> int \<Rightarrow> int \<Rightarrow> bool" where
  "cuts_no_day db ny t c start stop \<longleftrightarrow> list_all (\<lambda>(a, b). edged db ny t (slab_windows a b)) (missing_ranges c start stop)"

lemma honest_covers: "honest db ny t c \<Longrightarrow> covers db ny t c (cached_span c)"
proof -
  assume h: "honest db ny t c"
  have c: "distinct (map pr_at c)" "set c \<subseteq> set (daily_bars db ny t)" using h by (simp_all add: honest_def)
  show ?thesis
  proof (cases "c = []")
    case True
    then show ?thesis using c by (simp add: covers_def cached_span_def)
  next
    case False
    then obtain lo hi where lh: "lo \<le> hi" "lo \<in> pr_at ` set c" "hi \<in> pr_at ` set c" "pr_at ` set c \<subseteq> {lo..hi}" "cached_span c = {lo..hi}"
      "missing_ranges c = (\<lambda>a b. (if a < lo then [(a, lo)] else []) @ (if b > hi then [(hi, b)] else []))"
      by (rule cached_bounds)
    then have "\<forall>b\<in>set (daily_bars db ny t). pr_at b \<in> {lo..hi} \<longrightarrow> b \<in> set c"
      using h by (auto simp: honest_def)
    then show ?thesis using c lh(4,5) by (simp add: covers_def)
  qed
qed

lemma covers_honest:
  assumes "covers db ny t c cov" "\<And>x y z. x \<in> cov \<Longrightarrow> y \<in> cov \<Longrightarrow> x \<le> z \<Longrightarrow> z \<le> y \<Longrightarrow> z \<in> cov"
  shows "honest db ny t c"
proof -
  have "b \<in> set c" if "b \<in> set (daily_bars db ny t)" "x \<in> set c" "pr_at x \<le> pr_at b" "y \<in> set c" "pr_at b \<le> pr_at y" for b x y
    using assms(1) assms(2) [of "pr_at x" "pr_at y" "pr_at b"] that by (auto simp: covers_def)
  then show ?thesis using assms(1) by (auto simp: covers_def honest_def)
qed

text \<open>The cached span and the gaps make one interval, which holds the window asked for.\<close>

lemma gaps_span:
  assumes "start < stop"
  obtains lo hi where "lo \<le> start" "stop \<le> hi"
    "cached_span c \<union> (\<Union>g\<in>set (missing_ranges c start stop). if fst g < snd g then {fst g..snd g} else {}) = {lo..hi}"
proof (cases "c = []")
  case True
  then show thesis using assms by (intro that [of start stop]) (simp_all add: cached_span_def missing_ranges_def)
next
  case False
  then obtain lo hi where lh: "lo \<le> hi" "lo \<in> pr_at ` set c" "hi \<in> pr_at ` set c" "pr_at ` set c \<subseteq> {lo..hi}" "cached_span c = {lo..hi}"
    "missing_ranges c = (\<lambda>a b. (if a < lo then [(a, lo)] else []) @ (if b > hi then [(hi, b)] else []))"
    by (rule cached_bounds)
  then show thesis using assms by (intro that [of "min start lo" "max stop hi"]) (auto simp: min_def max_def)
qed

lemma gap_starts: "(a, b) \<in> set (missing_ranges c start stop) \<Longrightarrow> a = start \<or> a \<in> cached_span c"
proof (cases "c = []")
  case False
  then obtain lo hi where lh: "lo \<le> hi" "lo \<in> pr_at ` set c" "hi \<in> pr_at ` set c" "pr_at ` set c \<subseteq> {lo..hi}" "cached_span c = {lo..hi}"
    "missing_ranges c = (\<lambda>a b. (if a < lo then [(a, lo)] else []) @ (if b > hi then [(hi, b)] else []))"
    by (rule cached_bounds)
  then show "(a, b) \<in> set (missing_ranges c start stop) \<Longrightarrow> ?thesis" by (auto split: if_splits)
qed (simp add: missing_ranges_def)

text \<open>One ticker after all its windows have been fetched.\<close>

lemma ticker_done:
  assumes run: "run_jobs db ny wr (caches, files) (fetch_jobs (range_to_tickers caches start stop tickers)) = (Inr caches', files')"
    and t: "t \<in> set tickers" "distinct tickers" "start < stop"
    and "honest db ny t (caches t)" "cuts_no_day db ny t (caches t) start stop" "clear_at db ny t start"
  obtains lo hi where "covers db ny t (caches' t) {lo..hi}" "lo \<le> start" "stop \<le> hi"
proof -
  let ?d = "range_to_tickers caches start stop tickers" and ?m = "set (missing_ranges (caches t) start stop)"
  let ?c = "cached_span (caches t)"
  have shape: "list_all (\<lambda>p. distinct (snd p)) ?d" "list_all (\<lambda>j. distinct (snd j)) (fetch_jobs ?d)"
    using ranges_shape [OF t(2)] jobs_chunks(1) [OF ranges_shape [OF t(2)]] by (auto simp: list_all_iff)
  have ws: "windows_of t (fetch_jobs ?d) = concat (map (\<lambda>(a, b). slab_windows a b) (gaps_of t ?d))"
    unfolding gaps_of_def by (rule windows_of_jobs [OF shape(1)])
  have g: "set (gaps_of t ?d) = ?m" by (rule gaps_of_ranges [OF t(1)])
  have "list_all (\<lambda>(a, b). edged db ny t (slab_windows a b) \<and> (a \<in> ?c \<or> clear_at db ny t a)) (gaps_of t ?d)"
    using assms(6,7) gap_starts [of _ _ "caches t" start stop]
    by (fastforce simp: list_all_iff g cuts_no_day_def)
  then have "windows_ok db ny t ?c (windows_of t (fetch_jobs ?d))" unfolding ws by (rule gaps_ok)
  from run_jobs_covers [OF run shape(2) _ this] honest_covers [OF assms(5)]
  have cov: "covers db ny t (caches' t) (?c \<union> span (windows_of t (fetch_jobs ?d)))" by simp
  obtain lo hi where "lo \<le> start" "stop \<le> hi"
      "?c \<union> (\<Union>g\<in>?m. if fst g < snd g then {fst g..snd g} else {}) = {lo..hi}"
    by (rule gaps_span [OF t(3)])
  then show thesis using cov by (intro that [of lo hi]) (simp_all add: ws span_gaps g)
qed

lemma window_daily:
  assumes "covers db ny t c {lo..hi}" "lo \<le> start" "stop \<le> hi"
  shows "mset (filter (\<lambda>r. start \<le> pr_at r \<and> pr_at r \<le> stop) c) =
    mset (filter (\<lambda>r. start \<le> pr_at r \<and> pr_at r \<le> stop) (daily_bars db ny t))"
proof -
  have "distinct (map f xs) \<Longrightarrow> distinct xs" for f :: "price_row \<Rightarrow> int" and xs by (simp add: distinct_map)
  then have "distinct c" using assms(1) by (auto simp: covers_def)
  moreover note daily_distinct [of db ny t]
  moreover have "x \<in> set c \<longleftrightarrow> x \<in> set (daily_bars db ny t)" if "start \<le> pr_at x" "pr_at x \<le> stop" for x
    using assms that by (auto simp: covers_def)
  ultimately show ?thesis by (subst set_eq_iff_mset_eq_distinct [symmetric]) auto
qed

lemma mset_concat_cong: "(\<And>x. x \<in> set xs \<Longrightarrow> mset (f x) = mset (g x)) \<Longrightarrow> mset (concat (map f xs)) = mset (concat (map g xs))"
  by (induction xs) auto

text \<open>C9: with an honest cache per ticker (no two tickers sharing a file), a window that starts outside
  trading hours, and fetch windows that cut no trading session (\<open>cuts_no_day\<close>, which
  \<open>slab_cuts_session\<close> below shows is needed), the loader answers with exactly the bars the database would give for the window, in time order, whatever part came from the cache and
  whatever was fetched; and every cache file it leaves is honest again, so the next run may rely on it.\<close>

theorem cache_transparent:
  assumes "fetch_historical_data db ny writable tickers start end_date files = (Inr rows, files')"
    and "distinct tickers" "inj_on safe_name (set tickers)" "start \<le> end_date" "\<not> trading_hours ny start"
    and "\<forall>t\<in>set tickers. honest db ny t (cache_load files t)"
    and "\<forall>t\<in>set tickers. cuts_no_day db ny t (cache_load files t) start (end_of_day end_date)"
  shows "sorted (map pr_at rows)
    \<and> mset rows = mset (concat (map (\<lambda>t. filter (\<lambda>r. start \<le> pr_at r \<and> pr_at r \<le> end_of_day end_date) (daily_bars db ny t)) tickers))
    \<and> (\<forall>t\<in>set tickers. honest db ny t (cache_load files' t))"
proof (cases "tickers = []")
  case True
  then show ?thesis using assms(1) by (simp add: fetch_historical_data_def)
next
  case False
  let ?stop = "end_of_day end_date" and ?in = "\<lambda>r. start \<le> pr_at r \<and> pr_at r \<le> end_of_day end_date"
  obtain caches where run: "run_jobs db ny writable (cache_load files, files)
        (fetch_jobs (range_to_tickers (cache_load files) start ?stop tickers)) = (Inr caches, files')"
      and rows: "rows = sort_key pr_at (concat (map (\<lambda>t. filter ?in (caches t)) tickers))"
    using assms(1) False by (auto simp: fetch_historical_data_def Let_def split: prod.splits sum.splits)
  have "start < ?stop" using assms(4) by (simp add: end_of_day_def)
  moreover have "clear_at db ny t start" for t using assms(5) by (auto simp: clear_at_def session_rows_of_def)
  ultimately have cov: "\<exists>lo hi. covers db ny t (caches t) {lo..hi} \<and> lo \<le> start \<and> ?stop \<le> hi" if "t \<in> set tickers" for t
    using ticker_done [OF run that assms(2)] assms(6,7) that by metis
  have "mset (filter ?in (caches t)) = mset (filter ?in (daily_bars db ny t))" if "t \<in> set tickers" for t
    using cov [OF that] window_daily by blast
  then have "mset rows = mset (concat (map (\<lambda>t. filter ?in (daily_bars db ny t)) tickers))"
    unfolding rows by (simp add: mset_concat_cong)
  moreover have "files_follow writable files (set tickers) (caches, files')"
    by (rule run_jobs_follow [OF run assms(3) jobs_chunks(2) [OF ranges_shape [OF assms(2)]]])
       (simp add: files_follow_def)
  moreover have "honest db ny t (caches t)" if "t \<in> set tickers" for t
    using cov [OF that] by (elim exE conjE, intro covers_honest [of db ny t "caches t"]) auto
  ultimately show ?thesis using assms(6) by (simp add: rows files_follow_def)
qed

lemma day_edge_rows [code]: "day_edge db ny t x \<longleftrightarrow>
  list_all (\<lambda>r. list_all (\<lambda>q. (pr_at q \<le> x) = (pr_at r \<le> x)) (session_rows_of db ny t (trade_date ny (pr_at r))))
    (filter (\<lambda>r. pr_ticker r = t \<and> trading_hours ny (pr_at r)) (db_rows db))" (is "_ \<longleftrightarrow> ?rhs")
proof
  show ?rhs if "day_edge db ny t x"
    using that by (fastforce simp: day_edge_def list_all_iff session_rows_of_def)
  show "day_edge db ny t x" if ?rhs
    using that by (simp add: day_edge_def list_all_iff session_rows_of_def) (metis linorder_not_less)
qed

definition at_time :: "int \<Rightarrow> int \<Rightarrow> int" where
  "at_time d minute = d * day_us + minute * 60000000 + 18000000000"

definition tick :: "int \<Rightarrow> int \<Rightarrow> real \<Rightarrow> price_row" where
  "tick d minute x = \<lparr>pr_ticker = ''A'', pr_at = at_time d minute, pr_open = Some x, pr_high = Some x, pr_low = Some x,
     pr_close = Some x, pr_volume = Some 1\<rparr>"

definition new_york :: "int \<Rightarrow> int" where "new_york t = t - 18000000000"

definition two_days :: database where
  "two_days = \<lparr>db_rows = [tick 0 570 1, tick 0 960 2, tick 1 570 3, tick 1 960 4], db_up = (\<lambda>_ _ _ _. True)\<rparr>"

definition first_day_cached :: cache_files where
  "first_day_cached = [(''A'', Some [bar_of (''A'', 0) [tick 0 570 1, tick 0 960 2]])]"

lemma cache_transparent_witness:
  "case fetch_historical_data two_days new_york (\<lambda>_. True) [''A''] 0 day_us first_day_cached of
     (Inr rows, files') \<Rightarrow> length rows = 2
       \<and> mset rows = mset (filter (\<lambda>r. 0 \<le> pr_at r \<and> pr_at r \<le> end_of_day day_us) (daily_bars two_days new_york ''A''))
       \<and> honest two_days new_york ''A'' (cache_load files' ''A'')
   | (Inl _, _) \<Rightarrow> False"
proof -
  have shape: "case fetch_historical_data two_days new_york (\<lambda>_. True) [''A''] 0 day_us first_day_cached of
      (Inr rows, files') \<Rightarrow> length rows = 2 | (Inl _, _) \<Rightarrow> False"
    by code_simp
  then obtain rows files' where run:
      "fetch_historical_data two_days new_york (\<lambda>_. True) [''A''] 0 day_us first_day_cached = (Inr rows, files')"
      and two: "length rows = 2"
    by (auto split: prod.splits sum.splits)
  have cached: "\<forall>t\<in>set [''A'']. honest two_days new_york t (cache_load first_day_cached t)" by code_simp
  have edges: "\<forall>t\<in>set [''A'']. cuts_no_day two_days new_york t (cache_load first_day_cached t) 0 (end_of_day day_us)"
    by code_simp
  have outside: "\<not> trading_hours new_york 0" by code_simp
  show ?thesis
    using cache_transparent [OF run _ _ _ outside cached edges] two by (simp add: run)
qed

section \<open>Histories that leave the cache dishonest\<close>

text \<open>A range of more than a year is fetched slab by slab, and each slab is saved. When a later slab fails,
  what was saved lies on both sides of a hole, and \<open>missing_ranges\<close> looks only at the ends: the next run
  asks for nothing, and answers without the bars of the hole.\<close>

definition three_years :: database where
  "three_years = \<lparr>db_rows = [tick 100 960 1, tick 500 960 2, tick 1000 960 3], db_up = (\<lambda>_ _ _ _. True)\<rparr>"

definition flaky :: database where
  "flaky = three_years\<lparr>db_up := (\<lambda>_ _ a _. a \<noteq> slab_width)\<rparr>"

definition last_year_cached :: cache_files where
  "last_year_cached = [(''A'', Some [bar_of (''A'', 1000) [tick 1000 960 3]])]"

lemma failed_backfill_leaves_hole:
  "case fetch_historical_data flaky new_york (\<lambda>_. True) [''A''] 0 (1000 * day_us) last_year_cached of
     (failed, files) \<Rightarrow> failed = Inl (MarketDataUnavailable ''close'')
       \<and> map_sum id (map pr_at) (fst (fetch_historical_data three_years new_york (\<lambda>_. True) [''A''] 0 (1000 * day_us) files))
         = Inr [at_time 100 960, at_time 1000 960]
       \<and> map pr_at (daily_bars three_years new_york ''A'') = [at_time 100 960, at_time 500 960, at_time 1000 960]"
  by code_simp

text \<open>A run during the session caches the bar of the minute. The next run fetches from there and adds a second
  bar of the same day, whose open is the price of that minute; both stay.\<close>

definition at_two :: database where
  "at_two = \<lparr>db_rows = [tick 0 570 1, tick 0 840 2], db_up = (\<lambda>_ _ _ _. True)\<rparr>"

definition at_close :: database where
  "at_close = at_two\<lparr>db_rows := db_rows at_two @ [tick 0 960 3]\<rparr>"

lemma partial_day_twice:
  "map_sum id (map (\<lambda>r. (pr_at r, pr_open r))) (fst (fetch_historical_data at_close new_york (\<lambda>_. True) [''A''] 0 0
      (snd (fetch_historical_data at_two new_york (\<lambda>_. True) [''A''] 0 0 []))))
   = Inr [(at_time 0 840, Some 1), (at_time 0 960, Some 2)]"
  by code_simp

text \<open>The slabs start where the cache ends. When that was a short session, the first slab ends at the same hour
  a year later, in the middle of a full one, and that day gets two bars.\<close>

definition short_day :: database where
  "short_day = \<lparr>db_rows = [tick 0 780 1, tick 365 600 2, tick 365 780 3, tick 365 960 4], db_up = (\<lambda>_ _ _ _. True)\<rparr>"

lemma slab_cuts_session:
  "map_sum id (map (\<lambda>r. (pr_at r, pr_open r))) (fst (fetch_historical_data short_day new_york (\<lambda>_. True) [''A''] 0 (400 * day_us)
      (snd (fetch_historical_data short_day new_york (\<lambda>_. True) [''A''] 0 0 []))))
   = Inr [(at_time 0 780, Some 1), (at_time 365 780, Some 2), (at_time 365 960, Some 3)]"
  by code_simp

text \<open>Two tickers whose names differ in a slash and a caret share one file, and the second is answered with the bars of the first.\<close>

lemma one_file_two_tickers:
  "safe_name ''BF/B'' = safe_name ''BF^B'' \<and>
   map_sum id (map (\<lambda>r. (pr_ticker r, pr_at r))) (fst (fetch_historical_data
      \<lparr>db_rows = [], db_up = (\<lambda>_ _ _ _. True)\<rparr> new_york (\<lambda>_. True) [''BF^B''] 0 0
      [(safe_name ''BF/B'', Some [(tick 0 960 1)\<lparr>pr_ticker := ''BF/B''\<rparr>])]))
   = Inr [(''BF/B'', at_time 0 960)]"
  by code_simp

end
