(* ===== verification/Fmp.thy ===== *)
theory Fmp
  imports Intraday
begin

text \<open>
  The FMP client \<open>engine/data/fmp.py\<close>: requests with one retry, symbol and name search, daily
  history, and the adapter that remembers a run's history. The network is a parameter, \<open>reply\<close>
  of a request and the number of the attempt; so are the standard library's parsers of numbers and
  dates. Days are day numbers, timestamps New York wall clock in microseconds. Log lines and the
  advice texts are not modelled.
\<close>

section \<open>Requests\<close>

datatype fmp_request = Daily_Request string int int | Intraday_Request string string int int
  | Symbol_Request string int | Name_Request string int

text \<open>What one attempt gives: a list of objects, other JSON, an unreadable or oversized body, an HTTP
  error, no connection.\<close>

datatype http_reply = Rows "fmp_row list" | Not_Rows | Bad_Body | Http_Error int | No_Connection

datatype fmp_error = Fmp_Unavailable | Fmp_Symbol_Unknown | Fmp_Bad_Window | Fmp_Bad_Interval
  | Fmp_No_Data "string list" | Fmp_Intraday intraday_exn

record fmp_client =
  api_key :: string
  reply :: "fmp_request \<Rightarrow> nat \<Rightarrow> http_reply"
  parse_float :: "string \<Rightarrow> pyfloat option"
  parse_date :: "string \<Rightarrow> int option"
  parse_time :: "pyval \<Rightarrow> int option"

fun is_daily :: "fmp_request \<Rightarrow> bool" where
  "is_daily (Daily_Request _ _ _) = True"
| "is_daily _ = False"

text \<open>The body of the loop: \<open>None\<close> is \<open>continue\<close>.\<close>

fun read_reply :: "fmp_request \<Rightarrow> nat \<Rightarrow> http_reply \<Rightarrow> (fmp_error + fmp_row list) option" where
  "read_reply req i (Rows rows) = Some (Inr rows)"
| "read_reply req i Not_Rows = Some (Inl Fmp_Unavailable)"
| "read_reply req i Bad_Body = Some (Inl Fmp_Unavailable)"
| "read_reply req i (Http_Error code) =
     (if (code = 429 \<or> code \<ge> 500) \<and> i = 0 then None
      else if code = 404 \<and> is_daily req then Some (Inl Fmp_Symbol_Unknown)
      else Some (Inl Fmp_Unavailable))"
| "read_reply req i No_Connection = (if i = 0 then None else Some (Inl Fmp_Unavailable))"

fun request_attempts :: "fmp_client \<Rightarrow> fmp_request \<Rightarrow> nat list \<Rightarrow> (fmp_error + fmp_row list) option" where
  "request_attempts client req [] = None"
| "request_attempts client req (i # is) =
     (case read_reply req i (reply client req i) of
        Some r \<Rightarrow> Some r
      | None \<Rightarrow> request_attempts client req is)"

text \<open>\<open>FMPMarketData()\<close> refuses a missing key. The loop always returns or raises; the assertion after it is
  the last branch.\<close>

definition request_list :: "fmp_client \<Rightarrow> fmp_request \<Rightarrow> fmp_error + fmp_row list" where
  "request_list client req =
     (if strip (api_key client) = [] then Inl Fmp_Unavailable
      else case request_attempts client req [0, 1] of Some r \<Rightarrow> r | None \<Rightarrow> Inl Fmp_Unavailable)"

section \<open>Symbols\<close>

definition symbol_search_limit :: int where "symbol_search_limit = 100"

definition symbol_of :: "fmp_row \<Rightarrow> string option" where
  "symbol_of row = (case dict_get row ''symbol'' of Some (VStr s) \<Rightarrow> if strip s = [] then None else Some s | _ \<Rightarrow> None)"

definition checked_symbols :: "fmp_row list \<Rightarrow> fmp_error + fmp_row list" where
  "checked_symbols rows = (if list_ex (\<lambda>r. symbol_of r = None) rows then Inl Fmp_Unavailable else Inr rows)"

definition provider_symbols :: "fmp_client \<Rightarrow> string \<Rightarrow> int \<Rightarrow> fmp_error + fmp_row list" where
  "provider_symbols client query limit = ebind (request_list client (Symbol_Request query limit)) checked_symbols"

definition provider_names :: "fmp_client \<Rightarrow> string \<Rightarrow> int \<Rightarrow> fmp_error + fmp_row list" where
  "provider_names client query limit = ebind (request_list client (Name_Request query limit)) checked_symbols"

definition row_symbol :: "fmp_row \<Rightarrow> string" where
  "row_symbol row = upper (strip (the (symbol_of row)))"

definition symbol_exists :: "fmp_client \<Rightarrow> string \<Rightarrow> fmp_error + bool" where
  "symbol_exists client ticker =
     ebind (provider_symbols client ticker symbol_search_limit) (\<lambda>rows.
       if list_ex (\<lambda>r. row_symbol r = ticker) rows then Inr True
       else if int (length rows) \<ge> symbol_search_limit then Inl Fmp_Unavailable
       else Inr False)"

section \<open>History\<close>

definition intraday_intervals :: "string list" where
  "intraday_intervals = [''1min'', ''5min'', ''15min'', ''30min'', ''1hour'']"

definition provider_intraday :: "fmp_client \<Rightarrow> string \<Rightarrow> string \<Rightarrow> int \<Rightarrow> int \<Rightarrow> fmp_error + fmp_row list" where
  "provider_intraday client ticker interval start stop =
     (if interval \<notin> set intraday_intervals then Inl Fmp_Bad_Interval
      else request_list client (Intraday_Request ticker interval start stop))"

text \<open>One raw row of the daily history, at the midnight of its date.\<close>

definition parse_daily_row :: "fmp_client \<Rightarrow> string \<Rightarrow> fmp_row \<Rightarrow> py_exn + price_row" where
  "parse_daily_row client ticker raw =
     (case dict_get raw ''date'' of
        None \<Rightarrow> Inl KeyError
      | Some (VStr s) \<Rightarrow>
          (case parse_date client s of None \<Rightarrow> Inl ValueError
           | Some day \<Rightarrow>
               if dict_or raw ''symbol'' (VStr ticker) \<noteq> VStr ticker then Inl ValueError
               else
                 ebind (emap (read_number (parse_float client) raw) [''open'', ''high'', ''low'', ''close'']) (\<lambda>prices.
                 ebind (read_number (parse_float client) raw ''volume'') (\<lambda>volume.
                   if list_ex (\<lambda>p. \<not> isfinite p \<or> p \<le> 0) prices then Inl ValueError
                   else if \<not> isfinite volume \<or> volume < 0 then Inl ValueError
                   else Inr \<lparr>pr_ticker = ticker, pr_at = day * day_us, pr_open = Some (realval (prices ! 0)),
                             pr_high = Some (realval (prices ! 1)), pr_low = Some (realval (prices ! 2)),
                             pr_close = Some (realval (prices ! 3)), pr_volume = Some (realval volume)\<rparr>)))
      | Some _ \<Rightarrow> Inl TypeError)"

definition row_day :: "price_row \<Rightarrow> int" where
  "row_day r = pr_at r div day_us"

definition in_days :: "int \<Rightarrow> int \<Rightarrow> price_row list \<Rightarrow> price_row list" where
  "in_days start stop rows = filter (\<lambda>r. start \<le> row_day r \<and> row_day r \<le> stop) rows"

definition ticker_history :: "fmp_client \<Rightarrow> int \<Rightarrow> int \<Rightarrow> string \<Rightarrow> fmp_error + price_row list" where
  "ticker_history client start stop ticker =
     ebind (request_list client (Daily_Request ticker start stop)) (\<lambda>payload.
       case emap (parse_daily_row client ticker) payload of
         Inl _ \<Rightarrow> Inl Fmp_Unavailable
       | Inr rows \<Rightarrow> Inr (in_days start stop rows))"

definition get_historical_data :: "fmp_client \<Rightarrow> string list \<Rightarrow> int \<Rightarrow> int \<Rightarrow> fmp_error + price_row list" where
  "get_historical_data client tickers start stop =
     (if strip (api_key client) = [] then Inl Fmp_Unavailable
      else if start > stop then Inl Fmp_Bad_Window
      else ebind (emap (ticker_history client start stop) (wanted_tickers tickers)) (\<lambda>parts. Inr (concat parts)))"

fun keep_first :: "('a \<Rightarrow> 'k) \<Rightarrow> 'k list \<Rightarrow> 'a list \<Rightarrow> 'a list" where
  "keep_first key seen [] = []"
| "keep_first key seen (x # xs) =
     (if key x \<in> set seen then keep_first key seen xs else x # keep_first key (key x # seen) xs)"

definition at_four :: "price_row \<Rightarrow> price_row" where
  "at_four r = r\<lparr>pr_at := pr_at r + 57600000000\<rparr>"

definition missing_from :: "price_row list \<Rightarrow> string list \<Rightarrow> string list" where
  "missing_from rows wanted = filter (\<lambda>t. t \<notin> pr_ticker ` set rows) wanted"

definition fetch_daily_history :: "fmp_client \<Rightarrow> string list \<Rightarrow> int \<Rightarrow> int \<Rightarrow> bool \<Rightarrow> fmp_error + price_row list" where
  "fetch_daily_history client tickers start stop require_all =
     (let wanted = wanted_tickers tickers in
      ebind (get_historical_data client wanted start stop) (\<lambda>rows.
        if missing_from rows wanted \<noteq> [] \<and> require_all then Inl (Fmp_No_Data (missing_from rows wanted))
        else Inr (sort_key row_key (keep_first row_key [] (map at_four rows)))))"

section \<open>The adapter of a run\<close>

type_synonym 'k history_memo = "('k, int \<times> int \<times> price_row list) dict"

text \<open>The widest window remembered and wanted, when what is remembered does not hold the window.\<close>

definition widened :: "'k history_memo \<Rightarrow> int \<Rightarrow> int \<Rightarrow> 'k \<Rightarrow> (int \<times> int) option" where
  "widened memo start stop key =
     (case dict_get memo key of
        None \<Rightarrow> Some (start, stop)
      | Some (a, b, _) \<Rightarrow> if start < a \<or> stop > b then Some (min start a, max stop b) else None)"

definition needed :: "'k history_memo \<Rightarrow> int \<Rightarrow> int \<Rightarrow> 'k list \<Rightarrow> ('k \<times> int \<times> int) list" where
  "needed memo start stop keys =
     concat (map (\<lambda>k. case widened memo start stop k of None \<Rightarrow> [] | Some (a, b) \<Rightarrow> [(k, a, b)]) keys)"

text \<open>\<open>dict.update\<close> from the pool's results in order: those before a failed one are kept.\<close>

fun remember_each ::
  "('k \<Rightarrow> int \<Rightarrow> int \<Rightarrow> 'e + price_row list) \<Rightarrow> 'k history_memo \<Rightarrow> ('k \<times> int \<times> int) list
   \<Rightarrow> 'k history_memo \<times> ('e + unit)" where
  "remember_each fetch memo [] = (memo, Inr ())"
| "remember_each fetch memo ((k, a, b) # jobs) =
     (case fetch k a b of
        Inl e \<Rightarrow> (memo, Inl e)
      | Inr frame \<Rightarrow> remember_each fetch (dict_set k (a, b, frame) memo) jobs)"

definition remembered :: "'k history_memo \<Rightarrow> 'k \<Rightarrow> price_row list" where
  "remembered memo k = (case dict_get memo k of None \<Rightarrow> [] | Some (_, _, frame) \<Rightarrow> frame)"

definition get_daily_history ::
  "fmp_client \<Rightarrow> string history_memo \<Rightarrow> string list \<Rightarrow> int \<Rightarrow> int \<Rightarrow> bool
   \<Rightarrow> string history_memo \<times> (fmp_error + price_row list)" where
  "get_daily_history client memo tickers start stop require_all =
     (let wanted = wanted_tickers tickers;
          fetch = (\<lambda>t a b. fetch_daily_history client [t] a b False)
      in case remember_each fetch memo (needed memo start stop wanted) of
           (memo', Inl e) \<Rightarrow> (memo', Inl e)
         | (memo', Inr _) \<Rightarrow>
             let frames = map (\<lambda>t. in_days start stop (remembered memo' t)) wanted;
                 missing = filter (\<lambda>t. in_days start stop (remembered memo' t) = []) wanted
             in (memo', if missing \<noteq> [] \<and> require_all then Inl (Fmp_No_Data missing)
                        else Inr (sort_key row_key (concat frames))))"

text \<open>Intraday history: one fetch at a time, \<open>None\<close> when a window loop does not end.\<close>

definition intraday_source :: "fmp_client \<Rightarrow> fmp_source" where
  "intraday_source client = \<lparr>
     fmp_history = (\<lambda>ticker interval a b. map_sum (\<lambda>_. FmpUnavailable) id (provider_intraday client ticker interval a b)),
     fmp_fparse = parse_float client, fmp_read_date = parse_time client\<rparr>"

fun remember_intraday ::
  "fmp_client \<Rightarrow> int \<Rightarrow> (string \<times> int) history_memo \<Rightarrow> ((string \<times> int) \<times> int \<times> int) list
   \<Rightarrow> ((string \<times> int) history_memo \<times> (intraday_exn + unit)) option" where
  "remember_intraday client minutes memo [] = Some (memo, Inr ())"
| "remember_intraday client minutes memo ((k, a, b) # jobs) =
     (case fetch_fmp_intraday_bars (intraday_source client) [fst k] a b minutes of
        None \<Rightarrow> None
      | Some (Inl e) \<Rightarrow> Some (memo, Inl e)
      | Some (Inr frame) \<Rightarrow> remember_intraday client minutes (dict_set k (a, b, frame) memo) jobs)"

definition get_intraday_history ::
  "fmp_client \<Rightarrow> (string \<times> int) history_memo \<Rightarrow> string list \<Rightarrow> int \<Rightarrow> int \<Rightarrow> int
   \<Rightarrow> ((string \<times> int) history_memo \<times> (intraday_exn + price_row list)) option" where
  "get_intraday_history client memo tickers start stop minutes =
     (let keys = map (\<lambda>t. (t, minutes)) (wanted_tickers tickers) in
      map_option (\<lambda>(memo', r). (memo', ebind r (\<lambda>_.
          Inr (sort_key row_key (concat (map (\<lambda>k. in_days start stop (remembered memo' k)) keys))))))
        (remember_intraday client minutes memo (needed memo start stop keys)))"

end
