(* ===== verification/Market_Table.thy ===== *)
theory Market_Table
  imports Fmp
begin

text \<open>
  The queries on \<open>public.market_data\<close>, \<open>src/repositories/market_data.py\<close>. A bar's
  timestamp is an instant in microseconds; the exchange's clock and its inverse are parameters. The
  unique index on ticker and timestamp is the invariant \<open>indexed\<close> of the claims. The lateral
  joins and the index walk of the SQL texts are what they compute; \<open>limit_statement_time\<close> only
  bounds how long that may take.
\<close>

record market_bar =
  mb_row :: price_row
  mb_date :: "int option"
  mb_exchange :: string

abbreviation mb_ticker :: "market_bar \<Rightarrow> string" where "mb_ticker b \<equiv> pr_ticker (mb_row b)"

abbreviation mb_at :: "market_bar \<Rightarrow> int" where "mb_at b \<equiv> pr_at (mb_row b)"

type_synonym market_table = "market_bar list"

text \<open>New York's wall clock at an instant, and the instant of a wall clock time.\<close>

record exchange_clock =
  wall_at :: "int \<Rightarrow> int"
  instant_of :: "int \<Rightarrow> int"

section \<open>Ends of a ticker's history\<close>

definition bars_of :: "market_table \<Rightarrow> string \<Rightarrow> market_bar list" where
  "bars_of table ticker = sort_key mb_at (filter (\<lambda>b. mb_ticker b = ticker) table)"

definition latest_bar_date :: "market_table \<Rightarrow> string \<Rightarrow> int option" where
  "latest_bar_date table ticker =
     (if bars_of table ticker = [] then None else mb_date (last (bars_of table ticker)))"

definition earliest_bar_date :: "market_table \<Rightarrow> string \<Rightarrow> int option" where
  "earliest_bar_date table ticker =
     (if bars_of table ticker = [] then None else mb_date (hd (bars_of table ticker)))"

definition named :: "string list \<Rightarrow> string list" where
  "named tickers = map strip (filter (\<lambda>t. strip t \<noteq> []) tickers)"

fun earliest_latest :: "market_table \<Rightarrow> int option \<Rightarrow> string list \<Rightarrow> int option" where
  "earliest_latest table latest [] = latest"
| "earliest_latest table latest (t # ts) =
     (case latest_bar_date table t of
        None \<Rightarrow> None
      | Some d \<Rightarrow> earliest_latest table (Some (case latest of None \<Rightarrow> d | Some l \<Rightarrow> min l d)) ts)"

definition latest_market_data_date :: "market_table \<Rightarrow> string list \<Rightarrow> int option" where
  "latest_market_data_date table tickers = earliest_latest table None (named tickers)"

definition ticker_span :: "market_table \<Rightarrow> string \<Rightarrow> (int \<times> int) option" where
  "ticker_span table ticker =
     (case (earliest_bar_date table ticker, latest_bar_date table ticker) of
        (Some a, Some b) \<Rightarrow> Some (a, b)
      | _ \<Rightarrow> None)"

definition ticker_coverage :: "market_table \<Rightarrow> string list \<Rightarrow> (string, (int \<times> int) option) dict" where
  "ticker_coverage table tickers =
     foldl (\<lambda>coverage t. if t \<in> fst ` set coverage then coverage else dict_set t (ticker_span table t) coverage)
       [] (named tickers)"

definition loaded_tickers :: "market_table \<Rightarrow> string list" where
  "loaded_tickers table =
     sort (remdups (map (\<lambda>t. upper (strip t)) (filter (\<lambda>t. t \<noteq> []) (map mb_ticker table))))"

definition last_bar_dates :: "market_table \<Rightarrow> string list \<Rightarrow> (string, int) dict" where
  "last_bar_dates table tickers =
     foldl (\<lambda>d t. case latest_bar_date table t of None \<Rightarrow> d | Some day \<Rightarrow> dict_set t day d) [] tickers"

section \<open>Daily closes\<close>

text \<open>The last bar with a close between half past nine and four, not before \<open>since\<close>.\<close>

definition session_close_at :: "exchange_clock \<Rightarrow> market_table \<Rightarrow> string \<Rightarrow> int \<Rightarrow> int \<Rightarrow> real option" where
  "session_close_at clk table ticker since day =
     (let bars = filter (\<lambda>b. max since (instant_of clk (day * day_us + 34200000000)) \<le> mb_at b
                  \<and> mb_at b \<le> instant_of clk (day * day_us + 57600000000) \<and> pr_close (mb_row b) \<noteq> None)
                (bars_of table ticker)
      in if bars = [] then None else pr_close (mb_row (last bars)))"

definition daily_closes_of :: "exchange_clock \<Rightarrow> market_table \<Rightarrow> string \<Rightarrow> int \<Rightarrow> int \<Rightarrow> (int \<times> real) list" where
  "daily_closes_of clk table ticker since until_day =
     concat (map (\<lambda>day. case session_close_at clk table ticker since day of None \<Rightarrow> [] | Some x \<Rightarrow> [(day, x)])
       [wall_at clk since div day_us .. until_day])"

definition daily_closes ::
  "exchange_clock \<Rightarrow> market_table \<Rightarrow> (string, int \<times> int) dict \<Rightarrow> (string, (int \<times> real) list) dict" where
  "daily_closes clk table windows =
     concat (map (\<lambda>(t, since, until_day).
         case daily_closes_of clk table t since until_day of [] \<Rightarrow> [] | cs \<Rightarrow> [(t, cs)]) (sort_key fst windows))"

section \<open>The write of the backfill\<close>

definition insert_bar :: "market_table \<Rightarrow> market_bar \<Rightarrow> market_table" where
  "insert_bar table b =
     (if list_ex (\<lambda>x. mb_ticker x = mb_ticker b \<and> mb_at x = mb_at b) table then table else table @ [b])"

definition count_bars :: "market_table \<Rightarrow> string \<Rightarrow> int \<Rightarrow> int \<Rightarrow> int" where
  "count_bars table ticker a b = int (length (filter (\<lambda>x. mb_ticker x = ticker \<and> a \<le> mb_at x \<and> mb_at x \<le> b) table))"

definition insert_daily_bars :: "market_table \<Rightarrow> market_bar list \<Rightarrow> market_table \<times> int" where
  "insert_daily_bars table rows =
     (case rows of
        [] \<Rightarrow> (table, 0)
      | r # _ \<Rightarrow>
          let ticker = mb_ticker r; a = Min (set (map mb_at rows)); b = Max (set (map mb_at rows));
              before = count_bars table ticker a b; table' = foldl insert_bar table rows
          in (table', count_bars table' ticker a b - before))"

end
