(* ===== verification/Market_Data.thy ===== *)
theory Market_Data
  imports Market_Table
begin

text \<open>
  The market data service \<open>src/services/market_data.py\<close>, apart from the lookups that run in
  several threads (\<open>Symbol_Lookup\<close>): tickers and prefixes, the closes of a benchmark with FMP
  filling the gaps, suggestions from what is known and from the providers, coverage with the
  backfill of a new ticker. Whether a database request completes is an argument. The five-minute
  memo of provider spans and the schema check are not modelled.
\<close>

section \<open>Tickers\<close>

datatype service_error = Bad_Tickers | Bad_Symbol | Bad_Window | Window_Too_Long | Database_Unavailable
  | Provider_Error fmp_error | Unknown_Strategy

definition symbol_start :: "char \<Rightarrow> bool" where
  "symbol_start c \<longleftrightarrow> (CHR ''A'' \<le> c \<and> c \<le> CHR ''Z'') \<or> (CHR ''0'' \<le> c \<and> c \<le> CHR ''9'') \<or> c = CHR ''^''"

definition symbol_pattern :: "string \<Rightarrow> bool" where
  "symbol_pattern s \<longleftrightarrow> s \<noteq> [] \<and> symbol_start (hd s) \<and> length (tl s) \<le> 19
     \<and> list_all (\<lambda>c. symbol_start c \<or> c = CHR ''.'' \<or> c = CHR ''='' \<or> c = CHR ''-'') (tl s)"

definition normalize_tickers :: "string list \<Rightarrow> service_error + string list" where
  "normalize_tickers tickers =
     (if \<not> (1 \<le> length tickers \<and> length tickers \<le> 50) then Inl Bad_Tickers
      else let wanted = map (\<lambda>t. upper (strip t)) tickers
           in if list_ex (\<lambda>t. \<not> symbol_pattern t) wanted then Inl Bad_Symbol else Inr (first_occurrences wanted))"

definition normalize_search_query :: "string \<Rightarrow> service_error + string" where
  "normalize_search_query query =
     (let prefix = upper (strip query) in if symbol_pattern prefix then Inr prefix else Inl Bad_Symbol)"

section \<open>Caches with an expiry\<close>

text \<open>An \<open>OrderedDict\<close> from a key to a time and a value: \<open>move_to_end\<close>, and eviction from the front.\<close>

type_synonym ('k, 'v) expiring = "('k, int \<times> 'v) dict"

definition to_end :: "'k \<Rightarrow> ('k, 'v) dict \<Rightarrow> ('k, 'v) dict" where
  "to_end k d = (case dict_get d k of None \<Rightarrow> d | Some v \<Rightarrow> dict_del k d @ [(k, v)])"

definition evict :: "nat \<Rightarrow> ('k, 'v) dict \<Rightarrow> ('k, 'v) dict" where
  "evict limit d = drop (length d - limit) d"

definition cache_put :: "nat \<Rightarrow> 'k \<Rightarrow> int \<Rightarrow> 'v \<Rightarrow> ('k, 'v) expiring \<Rightarrow> ('k, 'v) expiring" where
  "cache_put limit k expires v d = evict limit (to_end k (dict_set k (expires, v) d))"

definition cache_find :: "('k, 'v) expiring \<Rightarrow> 'k \<Rightarrow> int \<Rightarrow> 'v option" where
  "cache_find d k now = (case dict_get d k of Some (expires, v) \<Rightarrow> if expires > now then Some v else None | None \<Rightarrow> None)"

lemma map_of_drop: "distinct (map fst d) \<Longrightarrow> map_of (drop n d) k = Some v \<Longrightarrow> map_of d k = Some v"
  by (rule map_of_is_SomeI) (auto dest: map_of_SomeD in_set_dropD)

lemma dict_del_keys: "map fst (dict_del k d) = filter (\<lambda>x. x \<noteq> k) (map fst d)"
  by (simp add: dict_del_def filter_map o_def)

lemma to_end_get [simp]: "distinct (map fst d) \<Longrightarrow> dict_get (to_end k d) j = dict_get d j"
  by (auto simp: to_end_def map_add_def split: option.splits)

lemma to_end_distinct: "distinct (map fst d) \<Longrightarrow> distinct (map fst (to_end k d))"
  by (auto simp: to_end_def dict_del_keys split: option.splits)

lemma cache_put_get:
  assumes "distinct (map fst d)" "dict_get (cache_put n k e v d) j = Some x"
  shows "dict_get (dict_set k (e, v) d) j = Some x"
  using map_of_drop [OF to_end_distinct [OF distinct_dict_set [OF assms(1)]], where k = j] assms(2)
  by (simp add: cache_put_def evict_def assms(1))

lemma cache_put_distinct: "distinct (map fst d) \<Longrightarrow> distinct (map fst (cache_put n k e v d))"
  by (simp add: cache_put_def evict_def to_end_distinct flip: drop_map)

lemma cache_put_length: "length (cache_put n k e v d) \<le> n"
  by (simp add: cache_put_def evict_def)

lemma dict_del_length: "distinct (map fst d) \<Longrightarrow> k \<in> fst ` set d \<Longrightarrow> Suc (length (dict_del k d)) = length d"
proof (induction d)
  case (Cons p d)
  show ?case
  proof (cases "fst p = k")
    case True
    have "k \<notin> fst ` set d" using Cons.prems(1) True by simp
    then have "fst x \<noteq> k" if "x \<in> set d" for x using imageI [OF that, of fst] by metis
    then have "filter (\<lambda>p. fst p \<noteq> k) d = d" by (intro filter_True) blast
    then show ?thesis using True by (simp add: dict_del_def)
  next
    case False
    then show ?thesis using Cons by (auto simp: dict_del_def)
  qed
qed simp

lemma to_end_length: "distinct (map fst d) \<Longrightarrow> length (to_end k d) = length d"
  using dict_del_length [of d k]
  by (auto simp: to_end_def split: option.splits dest!: map_of_SomeD) (metis image_eqI fst_conv)

section \<open>Closes\<close>

definition closes_max_span :: int where "closes_max_span = 366 * 15"

definition closes_edge_slack :: int where "closes_edge_slack = 4"

definition closes_max_hole :: int where "closes_max_hole = 7"

definition closes_fill_ttl :: int where "closes_fill_ttl = 3600"

definition closes_fill_cache_size :: nat where "closes_fill_cache_size = 64"

type_synonym fill_cache = "(string \<times> int \<times> int, (int, real) dict) expiring"

definition closes_cover :: "int list \<Rightarrow> int \<Rightarrow> int \<Rightarrow> bool" where
  "closes_cover days start stop \<longleftrightarrow> days \<noteq> []
     \<and> \<not> (hd days - start > closes_edge_slack \<or> stop - last days > closes_edge_slack)
     \<and> list_all (\<lambda>(earlier, later). later - earlier \<le> closes_max_hole) (zip days (tl days))"

definition close_dict :: "price_row list \<Rightarrow> (int, real) dict" where
  "close_dict rows =
     foldl (\<lambda>d r. case pr_close r of None \<Rightarrow> d | Some x \<Rightarrow> dict_set (row_day r) x d) [] rows"

text \<open>Seconds of the monotonic clock: \<open>now\<close> when the cache is read, \<open>later\<close> when the answer is stored.\<close>

definition fmp_closes ::
  "fmp_client \<Rightarrow> int \<Rightarrow> int \<Rightarrow> fill_cache \<Rightarrow> string \<Rightarrow> int \<Rightarrow> int \<Rightarrow> (service_error + (int, real) dict) \<times> fill_cache" where
  "fmp_closes client now later fills ticker start stop =
     (let key = (ticker, start, stop) in
      case cache_find fills key now of
        Some closes \<Rightarrow> (Inr closes, to_end key fills)
      | None \<Rightarrow>
          (case fetch_daily_history client [ticker] start stop False of
             Inl e \<Rightarrow> (if e = Fmp_Unavailable \<or> e = Fmp_Symbol_Unknown then Inr [] else Inl (Provider_Error e), fills)
           | Inr frame \<Rightarrow>
               (Inr (close_dict frame),
                cache_put closes_fill_cache_size key (later + closes_fill_ttl) (close_dict frame) fills)))"

definition merge_closes :: "int \<Rightarrow> int \<Rightarrow> (int, real) dict \<Rightarrow> (int, real) dict \<Rightarrow> (int, real) dict" where
  "merge_closes start stop fill stored =
     filter (\<lambda>(day, _). start \<le> day \<and> day \<le> stop) (dict_merge fill stored)"

definition closes_between ::
  "fmp_client \<Rightarrow> exchange_clock \<Rightarrow> (market_table option) \<Rightarrow> int \<Rightarrow> int \<Rightarrow> fill_cache \<Rightarrow> string \<Rightarrow> int \<Rightarrow> int
   \<Rightarrow> (service_error + (int \<times> real) list) \<times> fill_cache" where
  "closes_between client clk table now later fills ticker start stop =
     (case normalize_tickers [ticker] of
        Inl e \<Rightarrow> (Inl e, fills)
      | Inr wanted \<Rightarrow>
          if start > stop then (Inl Bad_Window, fills)
          else if stop - start > closes_max_span then (Inl Window_Too_Long, fills)
          else case table of
            None \<Rightarrow> (Inl Database_Unavailable, fills)
          | Some rows \<Rightarrow>
              let since = instant_of clk (start * day_us);
                  stored = dict_or (daily_closes clk rows [(hd wanted, since, stop)]) (hd wanted) []
              in if closes_cover (sort (map fst stored)) start stop then (Inr (sort_key fst stored), fills)
                 else (case fmp_closes client now later fills (hd wanted) start stop of
                     (Inl e, fills') \<Rightarrow> (Inl e, fills')
                   | (Inr fill, fills') \<Rightarrow> (Inr (sort_key fst (merge_closes start stop fill stored)), fills')))"

section \<open>Suggestions\<close>

datatype match_source = Database | Run | By_Fmp | By_Yahoo

record symbol_match =
  sm_symbol :: string
  sm_name :: "string option"
  sm_exchange :: "string option"
  sm_source :: match_source

definition search_results :: nat where "search_results = 10"

definition us_exchanges_fmp :: "string list" where "us_exchanges_fmp = [''NYSE'', ''NASDAQ'', ''AMEX'']"

definition us_exchanges_yahoo :: "string list" where
  "us_exchanges_yahoo = [''NYSE'', ''NASDAQ'', ''NYSEARCA'', ''NYSE AMERICAN'', ''AMEX'', ''BATS'']"

definition text_of :: "pyval option \<Rightarrow> string option" where
  "text_of v = (case v of Some (VStr s) \<Rightarrow> if strip s = [] then None else Some (strip s) | _ \<Rightarrow> None)"

text \<open>\<open>a or b\<close> on values of a row.\<close>

definition or_field :: "fmp_row \<Rightarrow> string \<Rightarrow> string \<Rightarrow> pyval option" where
  "or_field row a b = (case dict_get row a of Some v \<Rightarrow> if truthy v then Some v else dict_get row b | None \<Rightarrow> dict_get row b)"

definition to_match :: "match_source \<Rightarrow> fmp_row \<Rightarrow> symbol_match" where
  "to_match source row = \<lparr>sm_symbol = row_symbol row, sm_name = text_of (dict_get row ''name''),
     sm_exchange = text_of (or_field row ''exchangeFullName'' ''exchange''), sm_source = source\<rparr>"

definition is_us_listing :: "fmp_row \<Rightarrow> bool" where
  "is_us_listing row \<longleftrightarrow>
     (case dict_get row ''exchange'' of Some (VStr code) \<Rightarrow> upper (strip code) \<in> set us_exchanges_fmp | _ \<Rightarrow> False)
     \<and> (case dict_get row ''currency'' of None \<Rightarrow> True | Some VNone \<Rightarrow> True | Some (VStr s) \<Rightarrow> upper s = ''USD'' | _ \<Rightarrow> False)"

fun listed_once :: "string list \<Rightarrow> fmp_row list \<Rightarrow> fmp_row list" where
  "listed_once seen [] = []"
| "listed_once seen (row # rows) =
     (if row_symbol row \<in> set seen \<or> \<not> is_us_listing row then listed_once seen rows
      else row # listed_once (row_symbol row # seen) rows)"

definition fmp_search_page :: "fmp_client \<Rightarrow> string \<Rightarrow> fmp_error + symbol_match list \<times> bool" where
  "fmp_search_page client prefix =
     (if strip (api_key client) = [] then Inl Fmp_Unavailable
      else ebind (provider_symbols client prefix (int search_results + 1)) (\<lambda>by_symbol.
        ebind (if length prefix \<ge> 3 then provider_names client prefix (int search_results + 1) else Inr []) (\<lambda>by_name.
          let rows = listed_once [] (by_symbol @ by_name)
          in Inr (map (to_match By_Fmp) (take search_results rows), length rows > search_results))))"

definition starts_with :: "string \<Rightarrow> string \<Rightarrow> bool" where
  "starts_with prefix s \<longleftrightarrow> take (length prefix) s = prefix"

definition yahoo_listing :: "string \<Rightarrow> fmp_row \<Rightarrow> (string \<times> string) option" where
  "yahoo_listing prefix quot =
     (case (symbol_of quot, or_field quot ''exchDisp'' ''exchange'') of
        (Some s, Some (VStr e)) \<Rightarrow>
          if (dict_get quot ''quoteType'' = Some (VStr ''EQUITY'') \<or> dict_get quot ''quoteType'' = Some (VStr ''ETF''))
             \<and> upper (strip e) \<in> set us_exchanges_yahoo \<and> starts_with prefix (upper (strip s))
          then Some (upper (strip s), e) else None
      | _ \<Rightarrow> None)"

fun yahoo_rows :: "string \<Rightarrow> string list \<Rightarrow> fmp_row list \<Rightarrow> fmp_row list" where
  "yahoo_rows prefix seen [] = []"
| "yahoo_rows prefix seen (quot # quotes) =
     (case yahoo_listing prefix quot of
        None \<Rightarrow> yahoo_rows prefix seen quotes
      | Some (s, e) \<Rightarrow>
          if s \<in> set seen then yahoo_rows prefix seen quotes
          else [(''symbol'', VStr s),
                (''name'', case or_field quot ''shortname'' ''longname'' of None \<Rightarrow> VNone | Some v \<Rightarrow> v),
                (''exchange'', VStr e)] # yahoo_rows prefix (s # seen) quotes)"

definition yahoo_search_page :: "fmp_row list \<Rightarrow> string \<Rightarrow> symbol_match list \<times> bool" where
  "yahoo_search_page quotes prefix =
     (let rows = yahoo_rows prefix [] quotes
      in (map (to_match By_Yahoo) (take search_results rows), length rows > search_results))"

text \<open>Why each ticker is known: from the table when it can be read, then from saved reports.\<close>

definition load_known_tickers :: "bool \<Rightarrow> market_table option \<Rightarrow> string list \<Rightarrow> (string, match_source) dict" where
  "load_known_tickers from_fmp table run_tickers =
     (if from_fmp then []
      else let known = (case table of None \<Rightarrow> [] | Some rows \<Rightarrow> foldl (\<lambda>d t. dict_set t Database d) [] (loaded_tickers rows))
           in foldl (\<lambda>d t. if t \<in> fst ` set d then d else dict_set t Run d) known run_tickers)"

record search_response =
  sr_matches :: "symbol_match list"
  sr_truncated :: bool
  sr_provider_error :: bool

text \<open>The provider's page, or Yahoo's, or the fact that neither could answer.\<close>

definition provider_page ::
  "(fmp_error + symbol_match list \<times> bool) \<Rightarrow> (symbol_match list \<times> bool) option \<Rightarrow> bool \<Rightarrow> symbol_match list \<times> bool \<times> fmp_error option" where
  "provider_page fmp yahoo fallback =
     (case fmp of
        Inr (ms, truncated) \<Rightarrow> (ms, truncated, None)
      | Inl e \<Rightarrow>
          (case (fallback, yahoo) of
             (True, Some (ms, truncated)) \<Rightarrow> (ms, truncated, None)
           | _ \<Rightarrow> ([], False, Some e)))"

definition known_matches :: "(string, match_source) dict \<Rightarrow> string \<Rightarrow> symbol_match list" where
  "known_matches known prefix =
     map (\<lambda>(t, source). \<lparr>sm_symbol = t, sm_name = None, sm_exchange = None, sm_source = source\<rparr>)
       (filter (\<lambda>(t, _). starts_with prefix t) (sort_key fst known))"

definition search_symbols ::
  "(string, match_source) dict \<Rightarrow> (string \<Rightarrow> fmp_error + symbol_match list \<times> bool)
   \<Rightarrow> (string \<Rightarrow> (symbol_match list \<times> bool) option) \<Rightarrow> bool \<Rightarrow> string \<Rightarrow> service_error + search_response" where
  "search_symbols known fmp yahoo fallback query =
     ebind (normalize_search_query query) (\<lambda>prefix.
       let mine = known_matches known prefix in
       if length mine \<ge> search_results then
         Inr \<lparr>sr_matches = take search_results mine, sr_truncated = True, sr_provider_error = False\<rparr>
       else case provider_page (fmp prefix) (yahoo prefix) fallback of
         (ms, truncated, failed) \<Rightarrow>
           if failed \<noteq> None \<and> mine = [] then Inl (Provider_Error (the failed))
           else let merged = mine @ filter (\<lambda>m. sm_symbol m \<notin> sm_symbol ` set mine) ms
                in Inr \<lparr>sr_matches = take search_results merged,
                        sr_truncated = (truncated \<or> length merged > search_results), sr_provider_error = (failed \<noteq> None)\<rparr>)"

definition validate_tickers ::
  "(string, match_source) dict \<Rightarrow> (string \<Rightarrow> fmp_error + bool) \<Rightarrow> string list \<Rightarrow> service_error + (string \<times> bool) list" where
  "validate_tickers known exists tickers =
     ebind (normalize_tickers tickers) (\<lambda>wanted.
       case emap (\<lambda>t. if t \<in> fst ` set known then Inr (t, True) else ebind (exists t) (\<lambda>b. Inr (t, b))) wanted of
         Inl e \<Rightarrow> Inl (Provider_Error e)
       | Inr results \<Rightarrow> Inr results)"

section \<open>Coverage\<close>

definition fmp_span :: "fmp_client \<Rightarrow> int \<Rightarrow> string \<Rightarrow> fmp_error + (int \<times> int) option" where
  "fmp_span client as_of ticker =
     (case get_historical_data client [ticker] (- 25567) as_of of
        Inl Fmp_Symbol_Unknown \<Rightarrow> Inr None
      | Inl e \<Rightarrow> Inl e
      | Inr rows \<Rightarrow>
          Inr (if rows = [] then None else Some (Min (set (map row_day rows)), Max (set (map row_day rows)))))"

definition fmp_coverage :: "fmp_client \<Rightarrow> int \<Rightarrow> string list \<Rightarrow> fmp_error + (string, (int \<times> int) option) dict" where
  "fmp_coverage client today tickers =
     ebind (emap (\<lambda>t. ebind (fmp_span client (today - 1) t) (\<lambda>s. Inr (t, s))) tickers) (\<lambda>ps.
       Inr (foldl (\<lambda>d (t, s). dict_set t s d) [] ps))"

definition listing_exchange :: "fmp_client \<Rightarrow> string \<Rightarrow> fmp_error + string" where
  "listing_exchange client ticker =
     ebind (provider_symbols client ticker symbol_search_limit) (\<lambda>rows.
       Inr (case concat (map (\<lambda>row. if row_symbol row = ticker then
                (case text_of (dict_get row ''exchange'') of Some e \<Rightarrow> [upper e] | None \<Rightarrow> []) else []) rows) of
              [] \<Rightarrow> ''NASDAQ'' | e # _ \<Rightarrow> e))"

definition backfill_bar :: "exchange_clock \<Rightarrow> string \<Rightarrow> price_row \<Rightarrow> market_bar" where
  "backfill_bar clk exchange r =
     \<lparr>mb_row = r\<lparr>pr_at := instant_of clk (pr_at r),
         pr_volume := map_option (\<lambda>v. real_of_int (if v \<ge> 0 then \<lfloor>v\<rfloor> else \<lceil>v\<rceil>)) (pr_volume r)\<rparr>,
      mb_date = Some (row_day r), mb_exchange = exchange\<rparr>"

text \<open>A provider failure counts as nothing written; any other error ends the loop, with what was written kept.\<close>

definition backfill_rows :: "fmp_client \<Rightarrow> exchange_clock \<Rightarrow> int \<Rightarrow> int \<Rightarrow> string \<Rightarrow> fmp_error + market_bar list" where
  "backfill_rows client clk start stop t =
     ebind (fetch_daily_history client [t] start stop False) (\<lambda>frame.
     ebind (listing_exchange client t) (\<lambda>exchange. Inr (map (backfill_bar clk exchange) frame)))"

fun backfill_missing ::
  "fmp_client \<Rightarrow> exchange_clock \<Rightarrow> market_table \<Rightarrow> int \<Rightarrow> int \<Rightarrow> (string, int) dict \<Rightarrow> string list
   \<Rightarrow> (fmp_error + (string, int) dict) \<times> market_table" where
  "backfill_missing client clk table start stop written [] = (Inr written, table)"
| "backfill_missing client clk table start stop written (t # ts) =
     (case backfill_rows client clk start stop t of
        Inl e \<Rightarrow>
          if e = Fmp_Unavailable \<or> e = Fmp_Symbol_Unknown
          then backfill_missing client clk table start stop (dict_set t 0 written) ts else (Inl e, table)
      | Inr rows \<Rightarrow>
          (case insert_daily_bars table rows of
             (table', n) \<Rightarrow> backfill_missing client clk table' start stop (dict_set t n written) ts))"

definition backfill_window :: "int \<Rightarrow> (string, (int \<times> int) option) dict \<Rightarrow> int \<times> int" where
  "backfill_window today spans =
     (let present = concat (map (\<lambda>(_, s). case s of None \<Rightarrow> [] | Some w \<Rightarrow> [w]) spans) in
      if present = [] then (today - 1 - 730, today - 1)
      else (Min (set (map fst present)), Max (set (map snd present))))"

record coverage_response =
  cr_tickers :: "(string \<times> (int \<times> int) option) list"
  cr_window :: "(int \<times> int) option"
  cr_missing :: "string list"

definition coverage_response_of :: "(string, (int \<times> int) option) dict \<Rightarrow> coverage_response" where
  "coverage_response_of spans =
     (let missing = map fst (filter (\<lambda>(_, s). s = None) spans);
          windows = map (the \<circ> snd) (filter (\<lambda>(_, s). s \<noteq> None) spans);
          a = Max (set (map fst windows)); b = Min (set (map snd windows))
      in \<lparr>cr_tickers = spans,
          cr_window = (if windows \<noteq> [] \<and> missing = [] \<and> a \<le> b then Some (a, b) else None), cr_missing = missing\<rparr>)"

text \<open>Coverage from the table; \<open>today\<close> is the exchange's date.\<close>

definition database_coverage ::
  "fmp_client \<Rightarrow> exchange_clock \<Rightarrow> bool \<Rightarrow> int \<Rightarrow> market_table \<Rightarrow> string list
   \<Rightarrow> (service_error + coverage_response) \<times> market_table" where
  "database_coverage client clk backfill today table tickers =
     (let wanted = wanted_tickers tickers;
          spans = ticker_coverage table wanted;
          absent = map fst (filter (\<lambda>(_, s). s = None) spans)
      in if absent \<noteq> [] \<and> backfill then
           (case backfill_window today spans of (a, b) \<Rightarrow>
            (case backfill_missing client clk table a b [] absent of
               (Inl e, table') \<Rightarrow> (Inl (Provider_Error e), table')
             | (Inr written, table') \<Rightarrow>
                 (Inr (coverage_response_of
                    (if list_ex (\<lambda>(_, n). n \<noteq> 0) written then ticker_coverage table' wanted else spans)), table')))
         else (Inr (coverage_response_of spans), table))"

definition provider_coverage :: "fmp_client \<Rightarrow> int \<Rightarrow> string list \<Rightarrow> service_error + coverage_response" where
  "provider_coverage client today tickers =
     (case fmp_coverage client today (wanted_tickers tickers) of
        Inl e \<Rightarrow> Inl (Provider_Error e)
      | Inr spans \<Rightarrow> Inr (coverage_response_of spans))"

end
