(* ===== verification/Fmp_Claims.thy ===== *)
theory Fmp_Claims
  imports Fmp "HOL-Library.Multiset"
begin

text \<open>
  What the FMP client promises: at most two attempts and a verdict on a symbol only from a full answer;
  and that a run's adapter, whatever it has remembered, answers as a fresh download would.
\<close>

section \<open>Tickers\<close>

lemma is_space_upper [simp]: "is_space (upper_char c) = is_space c"
  by (auto simp: is_space_def upper_char_def Let_def of_char_of)

lemma upper_strip: "upper (strip s) = strip (upper s)"
proof -
  have drop: "dropWhile is_space (map upper_char xs) = map upper_char (dropWhile is_space xs)" for xs
    by (induction xs) auto
  show ?thesis by (simp add: strip_def upper_def drop rev_map)
qed

lemma dropWhile_again [simp]: "dropWhile P (dropWhile P xs) = dropWhile P xs"
  by (induction xs) auto

lemma dropWhile_rev: "dropWhile P xs = xs \<Longrightarrow> dropWhile P (rev (dropWhile P (rev xs))) = rev (dropWhile P (rev xs))"
proof (cases "dropWhile P (rev xs) = []")
  case False
  assume d: "dropWhile P xs = xs"
  have "xs \<noteq> []" using False by auto
  then have "\<not> P (hd xs)" using hd_dropWhile [of P xs] d by simp
  moreover obtain ys where "rev xs = ys @ dropWhile P (rev xs)" by (metis takeWhile_dropWhile_id)
  then have "xs = rev (dropWhile P (rev xs)) @ rev ys" by (metis rev_append rev_rev_ident)
  then have "hd (rev (dropWhile P (rev xs))) = hd xs" using False by (metis hd_append2 rev_is_Nil_conv)
  ultimately show ?thesis using False by (cases "rev (dropWhile P (rev xs))") auto
next
  case True
  then show ?thesis by (simp only: rev.simps dropWhile.simps)
qed

lemma strip_strip [simp]: "strip (strip s) = strip s"
  by (simp add: strip_def dropWhile_rev)

lemma upper_empty [simp]: "upper s = [] \<longleftrightarrow> s = []"
  by (simp add: upper_def)

lemma wanted_again: "t \<in> set (wanted_tickers ts) \<Longrightarrow> wanted_tickers [t] = [t]"
  by (auto simp: wanted_tickers_def first_occurrences_def simp flip: upper_strip)

lemma wanted_wanted [simp]: "wanted_tickers (wanted_tickers ts) = wanted_tickers ts"
proof -
  have "upper (strip t) = t \<and> strip t \<noteq> []" if "t \<in> set (wanted_tickers ts)" for t
    using wanted_again [OF that] by (auto simp: wanted_tickers_def first_occurrences_def split: if_splits)
  then have "map (\<lambda>t. upper (strip t)) (filter (\<lambda>t. strip t \<noteq> []) (wanted_tickers ts)) = wanted_tickers ts"
    by (simp add: map_idI cong: filter_cong)
  moreover have "distinct (wanted_tickers ts)" by (simp add: wanted_tickers_def first_occurrences_def)
  ultimately show ?thesis
    by (subst wanted_tickers_def) (simp add: first_occurrences_def distinct_remdups_id)
qed

lemma wanted_distinct [simp]: "distinct (wanted_tickers ts)"
  by (simp add: wanted_tickers_def first_occurrences_def)

section \<open>Sorting and deduplication\<close>

lemma filter_keep_first:
  "\<forall>x\<in>set xs. Q (key x) \<longrightarrow> (key x \<in> set s \<longleftrightarrow> key x \<in> set s') \<Longrightarrow>
   filter (\<lambda>x. Q (key x)) (keep_first key s xs) = keep_first key s' (filter (\<lambda>x. Q (key x)) xs)"
proof (induction xs arbitrary: s s')
  case (Cons x xs)
  have agree: "\<forall>y\<in>set xs. Q (key y) \<longrightarrow> (key y \<in> set (key x # s) \<longleftrightarrow> key y \<in> set (if Q (key x) then key x # s' else s'))"
    using Cons.prems by auto
  show ?case
    using Cons.prems Cons.IH [of s s'] Cons.IH [OF agree] by auto
qed simp

lemma keep_first_sub: "x \<in> set (keep_first key s xs) \<Longrightarrow> x \<in> set xs"
  by (induction key s xs rule: keep_first.induct) (auto split: if_splits)

lemma keep_first_empty: "keep_first key [] xs = [] \<longleftrightarrow> xs = []"
  by (cases xs) auto

lemma keep_first_append:
  "key ` set xs \<inter> key ` set ys = {} \<Longrightarrow> set s \<inter> key ` set ys = {} \<Longrightarrow>
   keep_first key s (xs @ ys) = keep_first key s xs @ keep_first key [] ys"
proof (induction key s xs rule: keep_first.induct)
  case (1 key seen)
  then show ?case using filter_keep_first [of ys "\<lambda>_. True" key seen "[]"] by auto
qed auto

lemma sort_concat: "sort_key f (concat (map (sort_key f) xss)) = sort_key f (concat xss)"
proof (rule properties_for_sort_key)
  show "mset (sort_key f (concat xss)) = mset (concat (map (sort_key f) xss))"
    by (simp add: mset_concat o_def)
  show "filter (\<lambda>x. f k = f x) (sort_key f (concat xss)) = filter (\<lambda>x. f k = f x) (concat (map (sort_key f) xss))" for k
  proof -
    have one: "filter (\<lambda>x. f k = f x) (sort_key f xs) = filter (\<lambda>x. f k = f x) xs" for xs
      using sort_key_stable [of f "f k" xs] by (simp add: eq_commute)
    show ?thesis by (simp add: one filter_concat o_def)
  qed
qed simp

section \<open>One ticker's history\<close>

text \<open>A provider that answers every request, with the days of one history per ticker.\<close>

definition steady :: "fmp_client \<Rightarrow> (string \<Rightarrow> price_row list) \<Rightarrow> bool" where
  "steady client history \<longleftrightarrow> strip (api_key client) \<noteq> [] \<and>
     (\<forall>t a b. a \<le> b \<longrightarrow> ticker_history client a b t = Inr (in_days a b (history t)))"

lemma parsed_row: "parse_daily_row client t raw = Inr r \<Longrightarrow> pr_ticker r = t \<and> pr_at r mod day_us = 0"
  by (auto simp: parse_daily_row_def ebind_Inr_iff split: option.splits pyval.splits if_splits)

lemma history_row: "ticker_history client a b t = Inr rows \<Longrightarrow> r \<in> set rows \<Longrightarrow> pr_ticker r = t \<and> pr_at r mod day_us = 0"
proof -
  assume "ticker_history client a b t = Inr rows" and r: "r \<in> set rows"
  then obtain payload parsed where "emap (parse_daily_row client t) payload = Inr parsed" "rows = in_days a b parsed"
    by (auto simp: ticker_history_def ebind_Inr_iff split: sum.splits) (metis sum.exhaust)
  then show ?thesis using r emap_from parsed_row by (fastforce simp: in_days_def)
qed

lemma steady_row:
  assumes "steady client history" "r \<in> set (history t)"
  shows "pr_ticker r = t" "pr_at r mod day_us = 0"
proof -
  have "ticker_history client (row_day r) (row_day r) t = Inr (in_days (row_day r) (row_day r) (history t))"
    using assms(1) by (simp add: steady_def)
  moreover have "r \<in> set (in_days (row_day r) (row_day r) (history t))" using assms(2) by (simp add: in_days_def)
  ultimately show "pr_ticker r = t" "pr_at r mod day_us = 0" using history_row by blast+
qed

text \<open>The bars of a ticker in a window.\<close>

definition window_bars :: "(string \<Rightarrow> price_row list) \<Rightarrow> int \<Rightarrow> int \<Rightarrow> string \<Rightarrow> price_row list" where
  "window_bars history a b t = keep_first row_key [] (map at_four (in_days a b (history t)))"

lemma emap_steady:
  "steady client history \<Longrightarrow> a \<le> b \<Longrightarrow>
   emap (ticker_history client a b) ts = Inr (map (\<lambda>t. in_days a b (history t)) ts)"
  by (rule emap_Inr) (simp add: steady_def)

lemma row_key_ticker: "snd (row_key r) = pr_ticker r"
  by (simp add: row_key_def)

lemma keep_first_tickers:
  assumes "distinct ts" "\<And>t r. r \<in> set (f t) \<Longrightarrow> pr_ticker r = t"
  shows "keep_first row_key [] (concat (map f ts)) = concat (map (\<lambda>t. keep_first row_key [] (f t)) ts)"
  using assms(1)
proof (induction ts)
  case (Cons t ts)
  have "row_key ` set (f t) \<inter> row_key ` set (concat (map f ts)) = {}"
    using Cons.prems assms(2) by (force simp: row_key_def)
  then show ?case using Cons by (simp add: keep_first_append)
qed simp

lemma direct_history:
  assumes "steady client history" "a \<le> b"
  shows "fetch_daily_history client ts a b req =
    (let wanted = wanted_tickers ts; missing = filter (\<lambda>t. window_bars history a b t = []) wanted
     in if missing \<noteq> [] \<and> req then Inl (Fmp_No_Data missing)
        else Inr (sort_key row_key (concat (map (window_bars history a b) wanted))))"
proof -
  let ?w = "wanted_tickers ts" and ?raw = "\<lambda>t. in_days a b (history t)"
  have tick: "pr_ticker r = t" if "r \<in> set (?raw t)" for r t
    using that steady_row [OF assms(1)] by (auto simp: in_days_def)
  have rows: "get_historical_data client ?w a b = Inr (concat (map ?raw ?w))"
    using assms emap_steady [OF assms] by (simp add: get_historical_data_def steady_def)
  have "pr_ticker ` set (concat (map ?raw ?w)) = {t \<in> set ?w. ?raw t \<noteq> []}"
  proof
    show "pr_ticker ` set (concat (map ?raw ?w)) \<subseteq> {t \<in> set ?w. ?raw t \<noteq> []}" using tick by fastforce
    have "t \<in> pr_ticker ` set (concat (map ?raw ?w))" if t: "t \<in> set ?w" "?raw t \<noteq> []" for t
    proof -
      have "hd (?raw t) \<in> set (?raw t)" using t(2) by (rule hd_in_set)
      then show ?thesis using t(1) tick by (intro image_eqI [of _ _ "hd (?raw t)"]) auto
    qed
    then show "{t \<in> set ?w. ?raw t \<noteq> []} \<subseteq> pr_ticker ` set (concat (map ?raw ?w))" by blast
  qed
  then have "missing_from (concat (map ?raw ?w)) ?w = filter (\<lambda>t. window_bars history a b t = []) ?w"
    by (auto simp: missing_from_def window_bars_def keep_first_empty intro!: filter_cong)
  moreover have "keep_first row_key [] (concat (map (\<lambda>t. map at_four (?raw t)) ?w)) = concat (map (window_bars history a b) ?w)"
    using tick by (subst keep_first_tickers) (auto simp: at_four_def window_bars_def [abs_def])
  moreover have "map at_four (concat (map ?raw ?w)) = concat (map (\<lambda>t. map at_four (?raw t)) ?w)"
    by (simp add: map_concat o_def)
  ultimately show ?thesis
    unfolding fetch_daily_history_def Let_def rows by simp
qed

lemma row_day_key: "row_day r = fst (row_key r) div day_us"
  by (simp add: row_day_def row_key_def)

lemma row_day_four: "pr_at r mod day_us = 0 \<Longrightarrow> row_day (at_four r) = row_day r"
  by (simp add: row_day_def at_four_def div_add1_eq [of "pr_at r"])

lemma window_bars_within:
  assumes "steady client history" "a \<le> start" "stop \<le> b"
  shows "in_days start stop (window_bars history a b t) = window_bars history start stop t"
proof -
  let ?Q = "\<lambda>k. start \<le> fst k div day_us \<and> fst k div day_us \<le> stop"
  have "in_days start stop (window_bars history a b t) =
      keep_first row_key [] (filter (\<lambda>r. ?Q (row_key r)) (map at_four (in_days a b (history t))))"
    unfolding in_days_def window_bars_def row_day_key by (rule filter_keep_first) simp
  also have "filter (\<lambda>r. ?Q (row_key r)) (map at_four (in_days a b (history t))) = map at_four (in_days start stop (history t))"
  proof -
    have "(a \<le> row_day r \<and> row_day r \<le> b \<and> ?Q (row_key (at_four r))) \<longleftrightarrow> start \<le> row_day r \<and> row_day r \<le> stop"
      if "r \<in> set (history t)" for r
      using row_day_four [OF steady_row(2) [OF assms(1) that]] assms(2,3) by (auto simp flip: row_day_key)
    then show ?thesis by (simp add: filter_map in_days_def o_def conj_assoc cong: filter_cong)
  qed
  finally show ?thesis by (simp add: window_bars_def)
qed

section \<open>What the adapter remembers\<close>

definition memo_ok :: "('k \<Rightarrow> int \<Rightarrow> int \<Rightarrow> price_row list) \<Rightarrow> 'k history_memo \<Rightarrow> bool" where
  "memo_ok bars memo \<longleftrightarrow> (\<forall>k a b frame. dict_get memo k = Some (a, b, frame) \<longrightarrow> a \<le> b \<and> frame = bars k a b)"

lemma remember_ok:
  "\<forall>(k, a, b)\<in>set jobs. fetch k a b = (if a \<le> b then Inr (bars k a b) else Inl e) \<Longrightarrow> memo_ok bars memo \<Longrightarrow>
   memo_ok bars (fst (remember_each fetch memo jobs))"
proof (induction fetch memo jobs rule: remember_each.induct)
  case (2 fetch memo k a b jobs)
  show ?case
  proof (cases "a \<le> b")
    case True
    then have "memo_ok bars (dict_set k (a, b, bars k a b) memo)" using 2(3) by (simp add: memo_ok_def)
    then show ?thesis using 2(1) [of "bars k a b"] 2(2) True by simp
  qed (use 2 in simp)
qed simp

lemma remember_done:
  "\<forall>(k, a, b)\<in>set jobs. a \<le> b \<and> fetch k a b = Inr (bars k a b) \<Longrightarrow> distinct (map fst jobs) \<Longrightarrow>
   snd (remember_each fetch memo jobs) = Inr () \<and>
   dict_get (fst (remember_each fetch memo jobs)) k =
     (case map_of jobs k of None \<Rightarrow> dict_get memo k | Some (a, b) \<Rightarrow> Some (a, b, bars k a b))"
proof (induction fetch memo jobs rule: remember_each.induct)
  case (2 fetch memo k' a b jobs)
  have "k' \<notin> fst ` set jobs" using 2(3) by simp
  then have "map_of jobs k' = None" by (simp add: map_of_eq_None_iff)
  then show ?case using 2 by (auto split: option.splits)
qed simp

lemma needed_cons: "needed memo start stop (k # ks) =
  (case widened memo start stop k of None \<Rightarrow> [] | Some (a, b) \<Rightarrow> [(k, a, b)]) @ needed memo start stop ks"
  by (simp add: needed_def)

lemma needed_keys: "set (map fst (needed memo start stop ks)) \<subseteq> set ks"
  by (induction ks) (auto simp: needed_cons needed_def [of _ _ _ "[]"] split: option.splits)

lemma needed_distinct: "distinct ks \<Longrightarrow> distinct (map fst (needed memo start stop ks))"
proof (induction ks)
  case (Cons k ks)
  then show ?case using needed_keys [of memo start stop ks] by (auto simp: needed_cons split: option.splits)
qed (simp add: needed_def)

lemma needed_of: "distinct ks \<Longrightarrow> k \<in> set ks \<Longrightarrow> map_of (needed memo start stop ks) k = widened memo start stop k"
proof (induction ks)
  case (Cons x ks)
  show ?case
  proof (cases "k = x")
    case True
    then have "map_of (needed memo start stop ks) k = None"
      using Cons.prems needed_keys [of memo start stop ks] by (auto simp: map_of_eq_None_iff)
    then show ?thesis using True by (auto simp: needed_cons split: option.splits)
  next
    case False
    then show ?thesis using Cons by (auto simp: needed_cons split: option.splits)
  qed
qed simp

lemma widened_holds:
  assumes "memo_ok bars memo"
  shows "case widened memo start stop k of
      None \<Rightarrow> (\<exists>a b. dict_get memo k = Some (a, b, bars k a b) \<and> a \<le> start \<and> stop \<le> b)
    | Some (a, b) \<Rightarrow> a \<le> start \<and> stop \<le> b \<and> (start \<le> stop \<longrightarrow> a \<le> b)"
  using assms by (auto simp: widened_def memo_ok_def split: option.splits)

lemma needed_job: "(k, a, b) \<in> set (needed memo start stop ks) \<Longrightarrow> k \<in> set ks \<and> widened memo start stop k = Some (a, b)"
  by (auto simp: needed_def split: option.splits)

lemma fetch_one:
  assumes "steady client history" "wanted_tickers [t] = [t]"
  shows "fetch_daily_history client [t] a b False =
    (if a \<le> b then Inr (sort_key row_key (window_bars history a b t)) else Inl Fmp_Bad_Window)"
proof (cases "a \<le> b")
  case True
  then show ?thesis using direct_history [OF assms(1) True, of "[t]" False] assms(2) by (simp add: Let_def)
next
  case False
  then show ?thesis
    using assms by (simp add: fetch_daily_history_def get_historical_data_def steady_def Let_def)
qed

abbreviation stored_bars :: "(string \<Rightarrow> price_row list) \<Rightarrow> string \<Rightarrow> int \<Rightarrow> int \<Rightarrow> price_row list" where
  "stored_bars history k a b \<equiv> sort_key row_key (window_bars history a b k)"

lemma adapter_memo:
  assumes "steady client history" "memo_ok (stored_bars history) memo"
  shows "memo_ok (stored_bars history) (fst (get_daily_history client memo ts start stop req))"
proof -
  let ?jobs = "needed memo start stop (wanted_tickers ts)"
  let ?fetch = "\<lambda>t a b. fetch_daily_history client [t] a b False"
  have "\<forall>(k, a, b)\<in>set ?jobs. ?fetch k a b = (if a \<le> b then Inr (stored_bars history k a b) else Inl Fmp_Bad_Window)"
    using fetch_one [OF assms(1) wanted_again] by (auto dest!: needed_job)
  then have "memo_ok (stored_bars history) (fst (remember_each ?fetch memo ?jobs))"
    by (rule remember_ok [OF _ assms(2)])
  then show ?thesis by (auto simp: get_daily_history_def Let_def split: prod.splits sum.splits)
qed

lemma adapter_answer:
  assumes "steady client history" "memo_ok (stored_bars history) memo" "start \<le> stop"
  shows "snd (get_daily_history client memo ts start stop req) = fetch_daily_history client ts start stop req"
proof -
  let ?w = "wanted_tickers ts" and ?fetch = "\<lambda>t a b. fetch_daily_history client [t] a b False"
  let ?jobs = "needed memo start stop ?w"
  obtain memo' r where run: "remember_each ?fetch memo ?jobs = (memo', r)" by fastforce
  have jobs: "\<forall>(k, a, b)\<in>set ?jobs. a \<le> b \<and> ?fetch k a b = Inr (stored_bars history k a b)"
  proof (clarify, goal_cases)
    case (1 k a b)
    then have k: "k \<in> set ?w" "widened memo start stop k = Some (a, b)" using needed_job by metis+
    then have "a \<le> b" using widened_holds [OF assms(2), where start = start and stop = stop and k = k] assms(3) by simp
    then show ?case using fetch_one [OF assms(1) wanted_again [OF k(1)]] by simp
  qed
  have after: "r = Inr ()" "dict_get memo' k =
      (case map_of ?jobs k of None \<Rightarrow> dict_get memo k | Some (a, b) \<Rightarrow> Some (a, b, stored_bars history k a b))" for k
    using remember_done [OF jobs needed_distinct [OF wanted_distinct], of memo k] run by simp_all
  have frame: "in_days start stop (remembered memo' t) = stored_bars history t start stop" if "t \<in> set ?w" for t
  proof -
    have "\<exists>a b. dict_get memo' t = Some (a, b, stored_bars history t a b) \<and> a \<le> start \<and> stop \<le> b"
      using widened_holds [OF assms(2), where start = start and stop = stop and k = t] after(2) [of t] needed_of [OF wanted_distinct that, of memo start stop]
      by (auto split: option.splits)
    then obtain a b where "dict_get memo' t = Some (a, b, stored_bars history t a b)" "a \<le> start" "stop \<le> b" by blast
    then show ?thesis
      using window_bars_within [OF assms(1), of a start stop b t]
      by (simp add: remembered_def in_days_def filter_sort)
  qed
  have empty: "in_days start stop (remembered memo' t) = [] \<longleftrightarrow> window_bars history start stop t = []" if "t \<in> set ?w" for t
    using frame [OF that] by (metis length_0_conv length_sort)
  have frames: "map (\<lambda>t. in_days start stop (remembered memo' t)) ?w = map (sort_key row_key) (map (window_bars history start stop) ?w)"
    using frame by simp
  have "snd (get_daily_history client memo ts start stop req) =
      (let missing = filter (\<lambda>t. window_bars history start stop t = []) ?w
       in if missing \<noteq> [] \<and> req then Inl (Fmp_No_Data missing)
          else Inr (sort_key row_key (concat (map (window_bars history start stop) ?w))))"
    unfolding get_daily_history_def Let_def run after(1) prod.case sum.case snd_conv frames sort_concat
    using empty by (simp cong: filter_cong)
  then show ?thesis by (simp add: direct_history [OF assms(1,3)] Let_def)
qed

text \<open>C11: however a run has used its FMP adapter before - any windows, any tickers, warmup or not - the daily
  history it answers for a window is exactly what a fresh download of that window would be, refusals included,
  when the provider serves one history per ticker.\<close>

theorem adapter_answers_as_provider:
  assumes "steady client history" "start \<le> stop"
  shows "snd (get_daily_history client
      (foldl (\<lambda>memo (ts, a, b, req). fst (get_daily_history client memo ts a b req)) [] past) ts start stop req)
    = fetch_daily_history client ts start stop req"
proof -
  have "memo_ok (stored_bars history) memo \<Longrightarrow>
      memo_ok (stored_bars history) (foldl (\<lambda>memo (ts, a, b, req). fst (get_daily_history client memo ts a b req)) memo past)" for memo
    by (induction past arbitrary: memo) (auto simp: adapter_memo [OF assms(1)])
  from this [of "[]"] show ?thesis by (intro adapter_answer [OF assms(1) _ assms(2)]) (simp add: memo_ok_def)
qed

definition raw_day :: "string \<Rightarrow> fmp_row" where
  "raw_day d = [(''date'', VStr d), (''open'', VInt 1), (''high'', VInt 2), (''low'', VInt 1), (''close'', VInt 2), (''volume'', VInt 5)]"

definition day_bar :: "int \<Rightarrow> price_row" where
  "day_bar d = \<lparr>pr_ticker = ''A'', pr_at = d * day_us, pr_open = Some 1, pr_high = Some 2, pr_low = Some 1,
     pr_close = Some 2, pr_volume = Some 5\<rparr>"

definition demo_days :: "(string \<times> int) list" where "demo_days = [(''2024-01-02'', 10), (''2024-01-05'', 13)]"

definition demo_client :: fmp_client where
  "demo_client = \<lparr>api_key = ''key'',
     reply = (\<lambda>req _. case req of
         Daily_Request t a b \<Rightarrow> Rows (if t = ''A'' then map (\<lambda>p. raw_day (fst p)) (filter (\<lambda>p. a \<le> snd p \<and> snd p \<le> b) demo_days) else [])
       | _ \<Rightarrow> Not_Rows),
     parse_float = (\<lambda>_. None), parse_date = dict_get demo_days, parse_time = (\<lambda>_. None)\<rparr>"

definition demo_history :: "string \<Rightarrow> price_row list" where
  "demo_history t = (if t = ''A'' then map (\<lambda>p. day_bar (snd p)) demo_days else [])"

lemma demo_row: "p \<in> set demo_days \<Longrightarrow> parse_daily_row demo_client ''A'' (raw_day (fst p)) = Inr (day_bar (snd p))"
proof -
  have "list_all (\<lambda>p. parse_daily_row demo_client ''A'' (raw_day (fst p)) = Inr (day_bar (snd p))) demo_days" by code_simp
  then show "p \<in> set demo_days \<Longrightarrow> ?thesis" by (simp add: list_all_iff)
qed

lemma demo_steady: "steady demo_client demo_history"
proof -
  have key: "strip (api_key demo_client) \<noteq> []" by code_simp
  have "ticker_history demo_client a b t = Inr (in_days a b (demo_history t))" for a b t
  proof -
    let ?ps = "if t = ''A'' then filter (\<lambda>p. a \<le> snd p \<and> snd p \<le> b) demo_days else []"
    have reply: "request_list demo_client (Daily_Request t a b) = Inr (map (\<lambda>p. raw_day (fst p)) ?ps)"
      using key by (simp add: request_list_def demo_client_def)
    have "emap (parse_daily_row demo_client t) (map (\<lambda>p. raw_day (fst p)) ?ps) = Inr (map (\<lambda>p. day_bar (snd p)) ?ps)"
      using emap_Inr [of ?ps "\<lambda>p. parse_daily_row demo_client t (raw_day (fst p))" "\<lambda>p. day_bar (snd p)"] demo_row
      by (auto simp: emap_map)
    moreover have "in_days a b (map (\<lambda>p. day_bar (snd p)) ?ps) = in_days a b (demo_history t)"
      by (auto simp: in_days_def demo_history_def filter_map o_def row_day_def day_bar_def)
    ultimately show ?thesis unfolding ticker_history_def reply by simp
  qed
  then show ?thesis using key by (simp add: steady_def)
qed

lemma adapter_answers_as_provider_witness:
  "fetch_daily_history demo_client [''a''] 10 13 True = Inr (map (\<lambda>d. at_four (day_bar d)) [10, 13]) \<and>
   snd (get_daily_history demo_client
      (foldl (\<lambda>memo (ts, a, b, req). fst (get_daily_history demo_client memo ts a b req)) []
        [([''A''], 12, 14, False), ([''A'', ''B''], 1, 3, True)]) [''a''] 10 13 True)
    = fetch_daily_history demo_client [''a''] 10 13 True"
proof -
  have "fetch_daily_history demo_client [''a''] 10 13 True = Inr (map (\<lambda>d. at_four (day_bar d)) [10, 13])" by code_simp
  moreover have "(10 :: int) \<le> 13" by simp
  ultimately show ?thesis
    using adapter_answers_as_provider [OF demo_steady, of 10 13 "[([''A''], 12, 14, False), ([''A'', ''B''], 1, 3, True)]" "[''a'']" True]
    by blast
qed

section \<open>Requests\<close>

text \<open>A verdict that a symbol is unknown needs a page that is not full.\<close>

lemma unknown_needs_full_answer:
  "symbol_exists client t = Inr False \<longleftrightarrow>
     (\<exists>rows. provider_symbols client t symbol_search_limit = Inr rows \<and> int (length rows) < symbol_search_limit
        \<and> (\<forall>r\<in>set rows. row_symbol r \<noteq> t))"
  by (auto simp: symbol_exists_def ebind_Inr_iff list_ex_iff)

text \<open>The retry always comes to an answer, and \<open>Fmp_Symbol_Unknown\<close> is a 404 to a history request.\<close>

lemma attempts_answer: "request_attempts client req [0, 1] \<noteq> None"
  by (cases "reply client req 0"; cases "reply client req 1") auto

lemma unknown_is_404:
  assumes "request_list client req = Inl Fmp_Symbol_Unknown"
  shows "is_daily req \<and> (\<exists>i\<in>{0, 1}. reply client req i = Http_Error 404)"
  using assms
  by (cases "reply client req 0"; cases "reply client req 1") (auto simp: request_list_def split: if_splits)

end
