(* ===== verification/Market_Claims.thy ===== *)
theory Market_Claims
  imports Market_Data Fmp_Claims
begin

text \<open>
  What the market data service promises: coverage describes the table it leaves, and a window is offered
  only when every ticker has bars on both sides of it; a benchmark's closes are the stored ones, with FMP's
  where the store has none; suggestions are a short page without repetition.
\<close>

section \<open>The table\<close>

definition indexed :: "market_table \<Rightarrow> bool" where
  "indexed table \<longleftrightarrow> distinct (map (\<lambda>b. (mb_ticker b, mb_at b)) table)"

lemma insert_bar_grows: "\<exists>new. insert_bar table b = table @ new \<and> set new \<subseteq> {b}"
  by (auto simp: insert_bar_def)

lemma insert_bar_indexed: "indexed table \<Longrightarrow> indexed (insert_bar table b)"
  by (auto simp: insert_bar_def indexed_def list_ex_iff)

lemma insert_fold:
  "\<exists>new. foldl insert_bar table rows = table @ new \<and> set new \<subseteq> set rows"
proof (induction rows arbitrary: table)
  case (Cons r rows)
  obtain n where n: "insert_bar table r = table @ n" "set n \<subseteq> {r}" using insert_bar_grows by blast
  obtain m where "foldl insert_bar (insert_bar table r) rows = insert_bar table r @ m" "set m \<subseteq> set rows"
    using Cons.IH by blast
  then show ?case using n by (intro exI [of _ "n @ m"]) auto
qed simp

lemma insert_fold_indexed: "indexed table \<Longrightarrow> indexed (foldl insert_bar table rows)"
  by (induction rows arbitrary: table) (simp_all add: insert_bar_indexed)

lemma count_append: "count_bars (table @ new) t a b = count_bars table t a b + count_bars new t a b"
  by (simp add: count_bars_def)

text \<open>The count of an insert: what it added, when all its bars are of one ticker.\<close>

lemma insert_unfold: "rows \<noteq> [] \<Longrightarrow> insert_daily_bars table rows =
  (foldl insert_bar table rows,
   count_bars (foldl insert_bar table rows) (mb_ticker (hd rows)) (Min (set (map mb_at rows))) (Max (set (map mb_at rows)))
   - count_bars table (mb_ticker (hd rows)) (Min (set (map mb_at rows))) (Max (set (map mb_at rows))))"
  by (cases rows) (simp_all add: insert_daily_bars_def Let_def)

lemma insert_counts:
  assumes "insert_daily_bars table rows = (table', n)" "\<forall>r\<in>set rows. mb_ticker r = t"
  obtains new where "table' = table @ new" "set new \<subseteq> set rows" "n = int (length new)"
proof (cases "rows = []")
  case True
  then show thesis using assms(1) that [of "[]"] by (simp add: insert_daily_bars_def)
next
  case False
  let ?a = "Min (set (map mb_at rows))" and ?b = "Max (set (map mb_at rows))"
  obtain new where new: "foldl insert_bar table rows = table @ new" "set new \<subseteq> set rows" using insert_fold by blast
  have t: "mb_ticker (hd rows) = t" using assms(2) False by simp
  have "mb_ticker x = t \<and> ?a \<le> mb_at x \<and> mb_at x \<le> ?b" if "x \<in> set new" for x
    using that new(2) assms(2) by auto
  then have "count_bars new t ?a ?b = int (length new)" by (simp add: count_bars_def)
  moreover have "table' = table @ new \<and> n = count_bars (table @ new) t ?a ?b - count_bars table t ?a ?b"
    using assms(1) unfolding insert_unfold [OF False] new(1) t by auto
  ultimately show thesis using new(2) that [of new] by (simp add: count_append)
qed

lemma insert_indexed: "indexed table \<Longrightarrow> indexed (fst (insert_daily_bars table rows))"
  by (cases "rows = []") (simp_all add: insert_unfold insert_fold_indexed, simp add: insert_daily_bars_def)

lemma keep_first_id: "x \<in> set (sort_key f (keep_first key s xs)) \<Longrightarrow> x \<in> set xs"
  by (auto dest: keep_first_sub)

lemma history_ticker:
  assumes "fetch_daily_history client [t] a b False = Inr frame" "wanted_tickers [t] = [t]" "r \<in> set frame"
  shows "pr_ticker r = t"
proof -
  obtain rows where rows: "ticker_history client a b t = Inr rows" "frame = sort_key row_key (keep_first row_key [] (map at_four rows))"
    using assms(1,2) by (auto simp: fetch_daily_history_def get_historical_data_def Let_def ebind_Inr_iff split: if_splits)
  then obtain q where "q \<in> set rows" "r = at_four q" using keep_first_id assms(3) by fastforce
  then show ?thesis using history_row [OF rows(1)] by (simp add: at_four_def)
qed

lemma backfill_rows_ticker:
  assumes "backfill_rows client clk a b t = Inr rows" "wanted_tickers [t] = [t]" "r \<in> set rows"
  shows "mb_ticker r = t"
proof -
  obtain frame exchange where "fetch_daily_history client [t] a b False = Inr frame" "rows = map (backfill_bar clk exchange) frame"
    using assms(1) by (auto simp: backfill_rows_def ebind_Inr_iff)
  then show ?thesis using history_ticker [of client t a b frame] assms(2,3) by (auto simp: backfill_bar_def)
qed

definition none_written :: "(string, int) dict \<Rightarrow> bool" where
  "none_written w \<longleftrightarrow> (\<forall>t n. dict_get w t = Some n \<longrightarrow> n = 0)"

lemma backfill_grows:
  assumes "\<forall>t\<in>set ts. wanted_tickers [t] = [t]" "distinct ts"
    "backfill_missing client clk table a b written ts = (res, table')"
  shows "\<exists>new. table' = table @ new \<and> (\<forall>x\<in>set new. mb_ticker x \<in> set ts) \<and> (indexed table \<longrightarrow> indexed table')
    \<and> (\<forall>w. res = Inr w \<longrightarrow> (\<forall>u. u \<notin> set ts \<longrightarrow> dict_get w u = dict_get written u) \<and> (none_written w \<longrightarrow> new = []))"
  using assms
proof (induction client clk table a b written ts arbitrary: res table' rule: backfill_missing.induct)
  case (1 client clk table a b written)
  then show ?case by (intro exI [of _ "[]"]) auto
next
  case (2 client clk table a b written t ts)
  show ?case
  proof (cases "backfill_rows client clk a b t")
    case (Inl e)
    show ?thesis
    proof (cases "e = Fmp_Unavailable \<or> e = Fmp_Symbol_Unknown")
      case True
      have "backfill_missing client clk table a b (dict_set t 0 written) ts = (res, table')"
        using 2(5) Inl True by simp
      from 2(1) [OF Inl True _ _ this] 2(3,4) show ?thesis by fastforce
    next
      case False
      then show ?thesis using 2(5) Inl by (intro exI [of _ "[]"]) auto
    qed
  next
    case (Inr rows)
    obtain t1 n where ins: "insert_daily_bars table rows = (t1, n)" by fastforce
    have t: "\<forall>r\<in>set rows. mb_ticker r = t" using backfill_rows_ticker [OF Inr] 2(3) by simp
    obtain new where new: "t1 = table @ new" "set new \<subseteq> set rows" "n = int (length new)"
      using insert_counts [OF ins t] .
    have "backfill_missing client clk t1 a b (dict_set t n written) ts = (res, table')" using 2(5) Inr ins by simp
    from 2(2) [OF Inr ins [symmetric] _ _ this] 2(3,4)
    obtain more_rows where m: "table' = t1 @ more_rows" "\<forall>x\<in>set more_rows. mb_ticker x \<in> set ts" "indexed t1 \<longrightarrow> indexed table'"
      "\<forall>w. res = Inr w \<longrightarrow> (\<forall>u. u \<notin> set ts \<longrightarrow> dict_get w u = dict_get (dict_set t n written) u) \<and> (none_written w \<longrightarrow> more_rows = [])"
      by auto
    have "new = [] \<and> more_rows = []" if "res = Inr w" "none_written w" for w
    proof -
      have "t \<notin> set ts" using 2(4) by simp
      then have "dict_get w t = Some n" using m(4) that(1) by simp
      then have "n = 0" using that(2) by (simp add: none_written_def)
      then show ?thesis using new(3) m(4) that by simp
    qed
    moreover have "indexed table \<longrightarrow> indexed table'" using m(3) insert_indexed [of table rows] ins by simp
    moreover have "\<forall>x\<in>set (new @ more_rows). mb_ticker x \<in> set (t # ts)" using new(2) t m(2) by auto
    ultimately show ?thesis using new(1) m(1,4) by (intro exI [of _ "new @ more_rows"]) auto
  qed
qed

section \<open>Coverage\<close>

lemma dict_set_fresh: "k \<notin> fst ` set d \<Longrightarrow> dict_set k v d = d @ [(k, v)]"
  by (induction k v d rule: dict_set.induct) auto

lemma wanted_named [simp]: "named (wanted_tickers ts) = wanted_tickers ts"
proof -
  have "strip t = t \<and> t \<noteq> []" if "t \<in> set (wanted_tickers ts)" for t
  proof -
    have "upper (strip t) = t" "strip t \<noteq> []"
      using wanted_again [OF that] by (auto simp: wanted_tickers_def first_occurrences_def split: if_splits)
    then show ?thesis by (metis strip_strip upper_strip upper_empty)
  qed
  then show ?thesis by (simp add: named_def map_idI cong: filter_cong)
qed

lemma coverage_fold:
  "distinct ts \<Longrightarrow> set ts \<inter> fst ` set acc = {} \<Longrightarrow>
   foldl (\<lambda>coverage t. if t \<in> fst ` set coverage then coverage else dict_set t (ticker_span table t) coverage) acc ts
     = acc @ map (\<lambda>t. (t, ticker_span table t)) ts"
proof (induction ts arbitrary: acc)
  case (Cons t ts)
  have "t \<notin> fst ` set acc" using Cons.prems by auto
  then have "dict_set t (ticker_span table t) acc = acc @ [(t, ticker_span table t)]" by (rule dict_set_fresh)
  then show ?case using Cons.prems \<open>t \<notin> fst ` set acc\<close> Cons.IH [of "acc @ [(t, ticker_span table t)]"] by auto
qed simp

lemma coverage_spans: "ticker_coverage table (wanted_tickers ts) = map (\<lambda>t. (t, ticker_span table t)) (wanted_tickers ts)"
  unfolding ticker_coverage_def wanted_named using coverage_fold [of "wanted_tickers ts" "[]"] by simp

text \<open>A window is offered exactly when every ticker has a span and they meet; it is where they meet.\<close>

lemma window_offered:
  "cr_window (coverage_response_of spans) = Some (a, b) \<longleftrightarrow>
     spans \<noteq> [] \<and> (\<forall>(t, s)\<in>set spans. \<exists>f l. s = Some (f, l) \<and> f \<le> a \<and> b \<le> l) \<and> a \<le> b
     \<and> (\<exists>(t, s)\<in>set spans. \<exists>l. s = Some (a, l)) \<and> (\<exists>(t, s)\<in>set spans. \<exists>f. s = Some (f, b))"
proof -
  define ws where "ws = map (the \<circ> snd) (filter (\<lambda>(_, s). s \<noteq> None) spans)"
  have ws: "w \<in> set ws \<longleftrightarrow> (\<exists>t. (t, Some w) \<in> set spans)" for w by (force simp: ws_def)
  have "cr_window (coverage_response_of spans) =
      (if ws \<noteq> [] \<and> map fst (filter (\<lambda>(_, s). s = None) spans) = [] \<and> Max (set (map fst ws)) \<le> Min (set (map snd ws))
       then Some (Max (set (map fst ws)), Min (set (map snd ws))) else None)"
    by (simp only: coverage_response_of_def Let_def ws_def coverage_response.simps)
  moreover have "map fst (filter (\<lambda>(_, s). s = None) spans) = [] \<longleftrightarrow> (\<forall>(t, s)\<in>set spans. s \<noteq> None)"
    by (auto simp: filter_empty_conv)
  ultimately have "cr_window (coverage_response_of spans) = Some (a, b) \<longleftrightarrow>
      ws \<noteq> [] \<and> (\<forall>(t, s)\<in>set spans. s \<noteq> None) \<and> a = Max (fst ` set ws) \<and> b = Min (snd ` set ws) \<and> a \<le> b"
    by (auto simp only: set_map option.inject prod.inject option.distinct split: if_splits)
  also have "\<dots> \<longleftrightarrow> ws \<noteq> [] \<and> (\<forall>(t, s)\<in>set spans. s \<noteq> None) \<and> a \<le> b
      \<and> (\<exists>w\<in>set ws. fst w = a) \<and> (\<forall>w\<in>set ws. fst w \<le> a) \<and> (\<exists>w\<in>set ws. snd w = b) \<and> (\<forall>w\<in>set ws. b \<le> snd w)"
    by (cases "ws = []") (auto simp: eq_commute [of a] eq_commute [of b] Max_eq_iff Min_eq_iff image_iff)
  also have "\<dots> \<longleftrightarrow> spans \<noteq> [] \<and> (\<forall>(t, s)\<in>set spans. \<exists>f l. s = Some (f, l) \<and> f \<le> a \<and> b \<le> l) \<and> a \<le> b
     \<and> (\<exists>(t, s)\<in>set spans. \<exists>l. s = Some (a, l)) \<and> (\<exists>(t, s)\<in>set spans. \<exists>f. s = Some (f, b))"
  proof -
    have "(\<forall>(t, s)\<in>set spans. \<exists>f l. s = Some (f, l) \<and> f \<le> a \<and> b \<le> l) \<longleftrightarrow>
        (\<forall>(t, s)\<in>set spans. s \<noteq> None) \<and> (\<forall>w\<in>set ws. fst w \<le> a) \<and> (\<forall>w\<in>set ws. b \<le> snd w)"
      unfolding Ball_def ws by (auto; metis option.exhaust prod.exhaust)
    moreover have "(\<exists>(t, s)\<in>set spans. \<exists>l. s = Some (a, l)) \<longleftrightarrow> (\<exists>w\<in>set ws. fst w = a)"
      unfolding Bex_def ws by auto
    moreover have "(\<exists>(t, s)\<in>set spans. \<exists>f. s = Some (f, b)) \<longleftrightarrow> (\<exists>w\<in>set ws. snd w = b)"
      unfolding Bex_def ws by auto
    moreover have "w \<in> set ws \<Longrightarrow> ws \<noteq> [] \<and> spans \<noteq> []" for w using ws [of w] by auto
    ultimately show ?thesis by blast
  qed
  finally show ?thesis .
qed

text \<open>C10: coverage from the database describes the table it leaves - with the backfilled bars when any were
  written - and only ever adds bars of tickers that had none, keeping the unique index; and it offers a
  window exactly when every ticker asked for has bars, the window being where all their spans meet.\<close>

theorem coverage_describes_table:
  assumes "database_coverage client clk backfill today table tickers = (Inr resp, table')"
  shows "cr_tickers resp = map (\<lambda>t. (t, ticker_span table' t)) (wanted_tickers tickers)
    \<and> (\<exists>new. table' = table @ new \<and> (\<forall>x\<in>set new. mb_ticker x \<in> set (wanted_tickers tickers) \<and> ticker_span table (mb_ticker x) = None))
    \<and> (indexed table \<longrightarrow> indexed table')
    \<and> (cr_window resp = Some (a, b) \<longleftrightarrow> a \<le> b \<and> wanted_tickers tickers \<noteq> []
        \<and> (\<forall>t\<in>set (wanted_tickers tickers). \<exists>f l. ticker_span table' t = Some (f, l) \<and> f \<le> a \<and> b \<le> l)
        \<and> (\<exists>t\<in>set (wanted_tickers tickers). \<exists>l. ticker_span table' t = Some (a, l))
        \<and> (\<exists>t\<in>set (wanted_tickers tickers). \<exists>f. ticker_span table' t = Some (f, b)))"
proof -
  let ?w = "wanted_tickers tickers"
  let ?spans = "\<lambda>table. map (\<lambda>t. (t, ticker_span table t)) ?w"
  let ?absent = "map fst (filter (\<lambda>(_, s). s = None) (?spans table))"
  have "resp = coverage_response_of (?spans table') \<and>
      (\<exists>new. table' = table @ new \<and> (\<forall>x\<in>set new. mb_ticker x \<in> set ?absent) \<and> (indexed table \<longrightarrow> indexed table'))"
  proof (cases "?absent \<noteq> [] \<and> backfill")
    case False
    then show ?thesis using assms by (auto simp: database_coverage_def Let_def coverage_spans)
  next
    case True
    obtain f l where win: "backfill_window today (?spans table) = (f, l)" by fastforce
    obtain res t1 where run: "backfill_missing client clk table f l [] ?absent = (res, t1)" by fastforce
    have sub: "set ?absent \<subseteq> set ?w" and dist: "distinct ?absent"
      by (auto simp: distinct_map inj_on_def distinct_filter filter_map o_def)
    have "\<forall>t\<in>set ?absent. wanted_tickers [t] = [t]" using sub wanted_again by blast
    from backfill_grows [OF this dist run] obtain new where new: "t1 = table @ new" "\<forall>x\<in>set new. mb_ticker x \<in> set ?absent"
        "indexed table \<longrightarrow> indexed t1" "\<forall>w. res = Inr w \<longrightarrow> none_written w \<longrightarrow> new = []" by blast
    obtain w where w: "res = Inr w" "table' = t1"
        "resp = coverage_response_of (if list_ex (\<lambda>(_, n). n \<noteq> 0) w then ?spans t1 else ?spans table)"
      using assms True win run unfolding database_coverage_def Let_def coverage_spans
      by (cases res) simp_all
    have "?spans table = ?spans t1" if "\<not> list_ex (\<lambda>(_, n). n \<noteq> 0) w"
    proof -
      have "none_written w" using that by (auto simp: none_written_def list_ex_iff dest: map_of_SomeD)
      then show ?thesis using new(1,4) w(1) by simp
    qed
    then have "resp = coverage_response_of (?spans t1)" using w(3) by presburger
    then show ?thesis using new(1-3) w(2) by blast
  qed
  then obtain new where resp: "resp = coverage_response_of (?spans table')" and
    new: "table' = table @ new" "\<forall>x\<in>set new. mb_ticker x \<in> set ?absent" "indexed table \<longrightarrow> indexed table'" by blast
  have "cr_tickers resp = ?spans table'" by (simp add: resp coverage_response_of_def Let_def)
  moreover have "\<forall>x\<in>set new. mb_ticker x \<in> set ?w \<and> ticker_span table (mb_ticker x) = None" using new(2) by auto
  moreover have "cr_window resp = Some (a, b) \<longleftrightarrow> a \<le> b \<and> ?w \<noteq> []
        \<and> (\<forall>t\<in>set ?w. \<exists>f l. ticker_span table' t = Some (f, l) \<and> f \<le> a \<and> b \<le> l)
        \<and> (\<exists>t\<in>set ?w. \<exists>l. ticker_span table' t = Some (a, l)) \<and> (\<exists>t\<in>set ?w. \<exists>f. ticker_span table' t = Some (f, b))"
    unfolding resp window_offered by auto
  ultimately show ?thesis using new(1,3) by blast
qed

definition listing_client :: fmp_client where
  "listing_client = demo_client\<lparr>reply := (\<lambda>req i. case req of
      Symbol_Request q n \<Rightarrow> Rows [[(''symbol'', VStr '' a''), (''exchange'', VStr ''nyse'')]]
    | _ \<Rightarrow> reply demo_client req i)\<rparr>"

definition demo_clock :: exchange_clock where
  "demo_clock = \<lparr>wall_at = (\<lambda>t. t - 18000000000), instant_of = (\<lambda>w. w + 18000000000)\<rparr>"

definition old_bar :: "int \<Rightarrow> market_bar" where
  "old_bar d = \<lparr>mb_row = (day_bar d)\<lparr>pr_ticker := ''B'', pr_at := d * day_us + 75600000000\<rparr>, mb_date = Some d, mb_exchange = ''NYSE''\<rparr>"

lemma coverage_describes_table_witness:
  "case database_coverage listing_client demo_clock True 20 [old_bar 9, old_bar 12] [''b'', ''A''] of
     (Inr resp, table') \<Rightarrow> cr_window resp = Some (10, 10) \<and> length table' = 3
       \<and> cr_tickers resp = map (\<lambda>t. (t, ticker_span table' t)) (wanted_tickers [''b'', ''A''])
   | _ \<Rightarrow> False"
proof -
  have shape: "case database_coverage listing_client demo_clock True 20 [old_bar 9, old_bar 12] [''b'', ''A''] of
     (Inr resp, table') \<Rightarrow> cr_window resp = Some (10, 10) \<and> length table' = 3 | _ \<Rightarrow> False"
    by code_simp
  then obtain resp table' where run:
      "database_coverage listing_client demo_clock True 20 [old_bar 9, old_bar 12] [''b'', ''A''] = (Inr resp, table')"
    by (auto split: prod.splits sum.splits)
  then show ?thesis using shape coverage_describes_table [OF run] by simp
qed

section \<open>Closes\<close>

text \<open>What is remembered of FMP's closes are answers FMP gave.\<close>

definition fills_ok :: "fmp_client \<Rightarrow> fill_cache \<Rightarrow> bool" where
  "fills_ok client fills \<longleftrightarrow> distinct (map fst fills) \<and> length fills \<le> closes_fill_cache_size \<and>
     (\<forall>t a b e v. dict_get fills (t, a, b) = Some (e, v) \<longrightarrow>
        (\<exists>frame. fetch_daily_history client [t] a b False = Inr frame \<and> v = close_dict frame))"

definition provider_closes :: "fmp_client \<Rightarrow> string \<Rightarrow> int \<Rightarrow> int \<Rightarrow> (int, real) dict" where
  "provider_closes client t a b = (case fetch_daily_history client [t] a b False of Inr frame \<Rightarrow> close_dict frame | Inl _ \<Rightarrow> [])"

lemma fmp_closes_ok:
  assumes "fills_ok client fills" "fmp_closes client now later fills t a b = (r, fills')"
  shows "fills_ok client fills'" "r = Inr closes \<Longrightarrow> closes = provider_closes client t a b"
proof -
  have d: "distinct (map fst fills)" "length fills \<le> closes_fill_cache_size"
    and honest: "\<And>t a b e v. dict_get fills (t, a, b) = Some (e, v) \<Longrightarrow>
        \<exists>frame. fetch_daily_history client [t] a b False = Inr frame \<and> v = close_dict frame"
    using assms(1) by (auto simp: fills_ok_def)
  show "fills_ok client fills'"
  proof (cases "cache_find fills (t, a, b) now")
    case (Some v)
    then have "fills' = to_end (t, a, b) fills" using assms(2) by (simp add: fmp_closes_def Let_def)
    then show ?thesis using d honest by (simp add: fills_ok_def to_end_distinct to_end_length)
  next
    case None
    show ?thesis
    proof (cases "fetch_daily_history client [t] a b False")
      case (Inl e)
      then show ?thesis using assms None by (simp add: fmp_closes_def Let_def)
    next
      case (Inr frame)
      then have f: "fills' = cache_put closes_fill_cache_size (t, a, b) (later + closes_fill_ttl) (close_dict frame) fills"
        using assms(2) None by (simp add: fmp_closes_def Let_def)
      have "\<exists>frame. fetch_daily_history client [u] x y False = Inr frame \<and> v = close_dict frame"
        if "dict_get fills' (u, x, y) = Some (e, v)" for u x y e v
        using cache_put_get [OF d(1) that [unfolded f]] honest Inr by (auto split: if_splits)
      moreover have "distinct (map fst fills')" "length fills' \<le> closes_fill_cache_size"
        by (simp_all add: f cache_put_distinct [OF d(1)] cache_put_length)
      ultimately show ?thesis by (simp add: fills_ok_def)
    qed
  qed
  show "r = Inr closes \<Longrightarrow> closes = provider_closes client t a b"
    using assms(2) honest
    by (fastforce simp: fmp_closes_def Let_def provider_closes_def cache_find_def split: option.splits sum.splits if_splits)
qed

section \<open>Stored closes\<close>

lemma closes_of_days:
  "map fst (daily_closes_of clk table t since b) =
     filter (\<lambda>d. session_close_at clk table t since d \<noteq> None) [wall_at clk since div day_us .. b]"
proof -
  have "map fst (concat (map (\<lambda>day. case session_close_at clk table t since day of None \<Rightarrow> [] | Some x \<Rightarrow> [(day, x)]) ds))
      = filter (\<lambda>d. session_close_at clk table t since d \<noteq> None) ds" for ds
    by (induction ds) (auto split: option.splits)
  then show ?thesis by (simp add: daily_closes_of_def)
qed

lemma sorted_upto_wrt: "sorted_wrt (<) [i .. j :: int]"
  by (simp add: sorted_wrt_iff_nth_less)

lemma closes_of_sorted: "sorted_wrt (<) (map fst (daily_closes_of clk table t since b))"
  unfolding closes_of_days by (rule sorted_wrt_filter) (rule sorted_upto_wrt)

lemma sorted_keys: "sorted_wrt (<) (map fst d) \<Longrightarrow> distinct (map fst d) \<and> sort_key fst d = (d :: (int \<times> 'a) list)"
  by (simp add: strict_sorted_iff sort_key_id_if_sorted)

lemma stored_closes:
  "dict_or (daily_closes clk rows [(t, since, b)]) t [] = daily_closes_of clk rows t since b"
  by (simp add: daily_closes_def dict_or_def split: list.splits)

lemma dict_merge_distinct: "distinct (map fst d) \<Longrightarrow> distinct (map fst (dict_merge d e))"
  unfolding dict_merge_def by (induction e arbitrary: d) simp_all

lemma close_dict_distinct: "distinct (map fst (close_dict rows))"
proof -
  have "distinct (map fst d) \<Longrightarrow> distinct (map fst (foldl (\<lambda>d r. case pr_close r of None \<Rightarrow> d | Some x \<Rightarrow> dict_set (row_day r) x d) d rows))" for d
    by (induction rows arbitrary: d) (auto split: option.splits)
  then show ?thesis by (simp add: close_dict_def)
qed

lemma map_of_keys: "map_of (filter (\<lambda>(k, _). P k) d) k = (if P k then map_of d k else None)"
  by (induction d) auto

lemma map_of_sort: "distinct (map fst d) \<Longrightarrow> map_of (sort_key fst d) k = map_of d k"
  by (rule map_of_eqI [THEN fun_cong]) (auto simp: distinct_map map_of_eq_Some_iff)

lemma closes_between_fills: "fills_ok client fills \<Longrightarrow> fills_ok client (snd (closes_between client clk db n l fills t a b))"
  using fmp_closes_ok(1) [of client fills n l]
  by (auto simp: closes_between_def Let_def split: sum.splits option.splits prod.splits)

lemma past_fills:
  "fills_ok client (foldl (\<lambda>fills (db, n, l, t, a, b). snd (closes_between client clk db n l fills t a b)) [] past)"
proof -
  have "fills_ok client fills \<Longrightarrow>
      fills_ok client (foldl (\<lambda>fills (db, n, l, t, a, b). snd (closes_between client clk db n l fills t a b)) fills past)" for fills
    by (induction past arbitrary: fills) (auto simp: closes_between_fills)
  moreover have "fills_ok client []" by (simp add: fills_ok_def)
  ultimately show ?thesis .
qed

lemma normalize_one: "normalize_tickers [t] = Inr w \<Longrightarrow> w = [upper (strip t)]"
  by (auto simp: normalize_tickers_def Let_def first_occurrences_def split: if_splits)

lemma map_of_rev_distinct: "distinct (map fst d) \<Longrightarrow> map_of (rev d) = map_of d"
  by (rule map_of_eqI) (auto simp: map_of_eq_Some_iff rev_map [symmetric])

lemma merged_closes:
  assumes "distinct (map fst fill)" "distinct (map fst stored)"
  shows "sorted_wrt (<) (map fst (sort_key fst (merge_closes a b fill stored)))"
    "dict_get (sort_key fst (merge_closes a b fill stored)) d =
      (if a \<le> d \<and> d \<le> b then (case dict_get stored d of Some x \<Rightarrow> Some x | None \<Rightarrow> dict_get fill d) else None)"
proof -
  have d: "distinct (map fst (merge_closes a b fill stored))"
    using dict_merge_distinct [OF assms(1), of stored] by (auto simp: merge_closes_def distinct_map intro: inj_on_subset)
  then show "sorted_wrt (<) (map fst (sort_key fst (merge_closes a b fill stored)))"
    by (simp add: strict_sorted_iff distinct_map)
  show "dict_get (sort_key fst (merge_closes a b fill stored)) d =
      (if a \<le> d \<and> d \<le> b then (case dict_get stored d of Some x \<Rightarrow> Some x | None \<Rightarrow> dict_get fill d) else None)"
    unfolding map_of_sort [OF d]
    by (simp add: merge_closes_def map_of_keys map_of_dict_merge map_of_rev_distinct [OF assms(2)])
qed

text \<open>the closes of a benchmark are one per day, in order, inside the window; a stored close is never
  replaced; a day without one takes FMP's close only when the store does not cover the window, and FMP's
  closes come from an answer of FMP for that ticker and window, however the fill cache was used before.
  When FMP cannot answer the stored closes stand alone. The cache never holds more than its 64 windows.\<close>

theorem closes_stored_first:
  assumes "closes_between client clk (Some rows) now later
      (foldl (\<lambda>fills (db, n, l, t, a, b). snd (closes_between client clk db n l fills t a b)) [] past) ticker start stop
      = (Inr points, fills)"
    and "wall_at clk (instant_of clk (start * day_us)) = start * day_us"
  shows "let t = upper (strip ticker); stored = daily_closes_of clk rows t (instant_of clk (start * day_us)) stop in
      sorted_wrt (<) (map fst points) \<and> length fills \<le> closes_fill_cache_size \<and>
      (\<forall>d. dict_get points d =
        (case dict_get stored d of
           Some x \<Rightarrow> Some x
         | None \<Rightarrow> if closes_cover (map fst stored) start stop \<or> \<not> (start \<le> d \<and> d \<le> stop) then None
                   else dict_get (provider_closes client t start stop) d))"
proof -
  let ?past = "foldl (\<lambda>fills (db, n, l, t, a, b). snd (closes_between client clk db n l fills t a b)) [] past"
  let ?t = "upper (strip ticker)" and ?since = "instant_of clk (start * day_us)"
  let ?stored = "daily_closes_of clk rows ?t ?since stop" and ?fill = "provider_closes client ?t start stop"
  have days: "start \<le> d \<and> d \<le> stop" if "dict_get ?stored d = Some x" for d x
  proof -
    have "d \<in> set (map fst ?stored)" using that by (force dest: map_of_SomeD)
    then show ?thesis by (simp add: closes_of_days assms(2))
  qed
  have sort: "sorted_wrt (<) (map fst ?stored)" "sort_key fst ?stored = ?stored" "sort (map fst ?stored) = map fst ?stored"
    using closes_of_sorted sorted_keys [OF closes_of_sorted] by (simp_all add: sorted_sort_id strict_sorted_iff)
  have distinct_stored: "distinct (map fst ?stored)" using sorted_keys [OF closes_of_sorted] by blast
  have fill: "distinct (map fst ?fill)" by (simp add: provider_closes_def close_dict_distinct split: sum.splits)
  have "fills_ok client fills" using closes_between_fills [OF past_fills] assms(1) by (metis snd_conv)
  then have size: "length fills \<le> closes_fill_cache_size" by (simp add: fills_ok_def)
  show ?thesis
  proof (cases "closes_cover (map fst ?stored) start stop")
    case True
    then have "points = ?stored"
      using assms(1) sort normalize_one [of ticker]
      by (auto simp: closes_between_def Let_def stored_closes split: sum.splits if_splits dest!: normalize_one)
    then show ?thesis using sort(1) size True by (simp add: Let_def split: option.splits)
  next
    case False
    obtain r where r: "fmp_closes client now later ?past ?t start stop = (Inr r, fills)"
        "points = sort_key fst (merge_closes start stop r ?stored)"
      using assms(1) sort False normalize_one [of ticker]
      by (auto simp: closes_between_def Let_def stored_closes split: sum.splits if_splits prod.splits dest!: normalize_one)
    have "r = ?fill" using fmp_closes_ok(2) [OF past_fills r(1)] by simp
    then show ?thesis
      using merged_closes [OF fill distinct_stored] r(2) size False days by (auto simp: Let_def split: option.splits)
  qed
qed

definition stored_bar :: market_bar where
  "stored_bar = \<lparr>mb_row = (day_bar 10)\<lparr>pr_at := 10 * day_us + 75600000000, pr_close := Some 9\<rparr>, mb_date = Some 10, mb_exchange = ''NYSE''\<rparr>"

lemma closes_stored_first_witness:
  "case closes_between demo_client demo_clock (Some [stored_bar]) 100 101
      (foldl (\<lambda>fills (db, n, l, t, a, b). snd (closes_between demo_client demo_clock db n l fills t a b)) []
         [(Some [], 1, 2, ''A'', 10, 20)]) ''a'' 10 20 of
     (Inr points, fills) \<Rightarrow> points = [(10, 9), (13, 2)] \<and> length fills \<le> closes_fill_cache_size
       \<and> (\<forall>d. dict_get points d =
            (case dict_get (daily_closes_of demo_clock [stored_bar] ''A'' (10 * day_us + 18000000000) 20) d of
               Some x \<Rightarrow> Some x
             | None \<Rightarrow> if closes_cover (map fst (daily_closes_of demo_clock [stored_bar] ''A'' (10 * day_us + 18000000000) 20)) 10 20
                 \<or> \<not> (10 \<le> d \<and> d \<le> 20) then None else dict_get (provider_closes demo_client ''A'' 10 20) d))
   | _ \<Rightarrow> False"
proof -
  let ?call = "closes_between demo_client demo_clock (Some [stored_bar]) 100 101
      (foldl (\<lambda>fills (db, n, l, t, a, b). snd (closes_between demo_client demo_clock db n l fills t a b)) []
         [(Some [], 1, 2, ''A'', 10, 20)]) ''a'' 10 20"
  have points: "case ?call of (Inr points, _) \<Rightarrow> points = [(10, 9), (13, 2)] | _ \<Rightarrow> False" by code_simp
  then obtain fills where run: "?call = (Inr [(10, 9), (13, 2)], fills)" by (auto split: prod.splits sum.splits)
  have wall: "wall_at demo_clock (instant_of demo_clock (10 * day_us)) = 10 * day_us" by code_simp
  have t: "upper (strip ''a'') = ''A''" by code_simp
  have since: "instant_of demo_clock (10 * day_us) = 10 * day_us + 18000000000" by (simp add: demo_clock_def)
  show ?thesis
    using closes_stored_first [OF run wall] unfolding run t since Let_def by simp
qed

section \<open>Suggestions\<close>

lemma listed_once_distinct:
  "distinct (map row_symbol (listed_once seen rows)) \<and> set (map row_symbol (listed_once seen rows)) \<inter> set seen = {}"
  by (induction seen rows rule: listed_once.induct) auto

text \<open>A page of suggestions: at most ten, none twice, the known ones first.\<close>

lemma suggestions_page:
  assumes "search_symbols known (fmp_search_page client) yahoo fallback query = Inr resp"
    "distinct (map fst known)" "\<And>q ms b. yahoo q = Some (ms, b) \<Longrightarrow> distinct (map sm_symbol ms)"
  shows "length (sr_matches resp) \<le> 10 \<and> distinct (map sm_symbol (sr_matches resp))
    \<and> (\<exists>k rest. sr_matches resp = take 10 (known_matches known (upper (strip query)) @ rest))"
proof -
  let ?prefix = "upper (strip query)"
  let ?mine = "known_matches known ?prefix"
  have prefix: "normalize_search_query query = Inr p \<Longrightarrow> p = ?prefix" for p
    by (auto simp: normalize_search_query_def Let_def split: if_splits)
  have syms: "map sm_symbol ?mine = filter (starts_with ?prefix) (map fst (sort_key fst known))"
    by (simp add: known_matches_def filter_map o_def case_prod_unfold)
  have mine: "distinct (map sm_symbol ?mine)"
    unfolding syms using assms(2) by (simp add: distinct_map)
  have page: "distinct (map sm_symbol ms)" if pg: "fmp_search_page client ?prefix = Inr (ms, b)" for ms b
  proof -
    obtain rows where "ms = map (to_match By_Fmp) (take search_results (listed_once [] rows))"
      using pg by (auto simp: fmp_search_page_def ebind_Inr_iff Let_def split: if_splits)
    then show ?thesis
      using listed_once_distinct [of "[]" rows] by (simp add: to_match_def o_def distinct_map take_map [symmetric] inj_on_subset [OF _ set_take_subset])
  qed
  have "\<exists>rest. sr_matches resp = take 10 (?mine @ rest) \<and> distinct (map sm_symbol (?mine @ rest))"
  proof (cases "length ?mine \<ge> search_results")
    case True
    then show ?thesis
      using assms(1) prefix mine by (intro exI [of _ "[]"]) (auto simp: search_symbols_def ebind_Inr_iff Let_def search_results_def)
  next
    case False
    obtain ms b e where pg: "provider_page (fmp_search_page client ?prefix) (yahoo ?prefix) fallback = (ms, b, e)"
      by (metis prod.exhaust)
    have "distinct (map sm_symbol ms)"
      using pg page assms(3) by (auto simp: provider_page_def split: sum.splits prod.splits option.splits bool.splits)
    then have d: "distinct (map sm_symbol (filter (\<lambda>m. sm_symbol m \<notin> sm_symbol ` set ?mine) ms))"
      by (simp add: distinct_map inj_on_def)
    have "sr_matches resp = take 10 (?mine @ filter (\<lambda>m. sm_symbol m \<notin> sm_symbol ` set ?mine) ms)"
      using assms(1) prefix False pg
      by (auto simp: search_symbols_def ebind_Inr_iff Let_def search_results_def split: if_splits)
    moreover have "distinct (map sm_symbol (?mine @ filter (\<lambda>m. sm_symbol m \<notin> sm_symbol ` set ?mine) ms))"
      using mine d by (auto simp: image_iff)
    ultimately show ?thesis by blast
  qed
  then obtain rest where rest: "sr_matches resp = take 10 (?mine @ rest)" "distinct (map sm_symbol (?mine @ rest))" by blast
  have "distinct (map sm_symbol (sr_matches resp))"
    unfolding rest(1) using distinct_take [OF rest(2), of 10] by (simp only: take_map)
  moreover have "length (sr_matches resp) \<le> 10" by (simp add: rest(1))
  ultimately show ?thesis using rest(1) by blast
qed

end
