(* ===== verification/Symbol_Lookup.thy ===== *)
theory Symbol_Lookup
  imports Market_Data
begin

text \<open>
  The symbol lookups of \<open>src/services/market_data.py\<close> that run in several threads,
  \<open>_fmp_symbol_exists\<close> and \<open>_remember_symbols\<close>, with the memo of known tickers. A caller
  is a number; an event is one section under \<open>_symbol_lock\<close>, one move of the semaphore, or one
  operation on a future, so a list of events is an interleaving. An event that cannot happen in a
  state leaves it as it is. What the provider answers is part of the event. Seconds of the clock.
\<close>

section \<open>The state\<close>

datatype lookup_phase = Absent | Waiting string nat | Leading string | Asking string
  | Answered string "fmp_error + bool" | Stored string bool | Published string "fmp_error + bool"
  | Returned string "fmp_error + bool"

record lookup_state =
  verdicts :: "(string, bool) expiring"
  lookups :: "(string, nat) dict"
  outcomes :: "nat \<Rightarrow> (fmp_error + bool) option"
  in_flight :: nat
  others :: nat
  seconds :: int
  callers :: "nat \<Rightarrow> lookup_phase"

datatype lookup_event = Begin nat string | Acquire nat | Answer nat string "fmp_error + bool" | Store nat
  | Publish nat | Leave nat | Await nat | Other_Acquire | Other_Release | Listed "string list" | Tick nat

definition symbol_requests :: nat where "symbol_requests = 4"

definition symbol_cache_size :: nat where "symbol_cache_size = 512"

definition verdict_ttl :: "bool \<Rightarrow> int" where "verdict_ttl b = (if b then 3600 else 300)"

definition lookup_start :: lookup_state where
  "lookup_start = \<lparr>verdicts = [], lookups = [], outcomes = (\<lambda>_. None), in_flight = 0, others = 0, seconds = 0,
     callers = (\<lambda>_. Absent)\<rparr>"

section \<open>The steps\<close>

definition phase_is :: "nat \<Rightarrow> lookup_phase \<Rightarrow> lookup_state \<Rightarrow> lookup_state" where
  "phase_is c p s = s\<lparr>callers := (callers s)(c := p)\<rparr>"

text \<open>The first locked section: a fresh verdict, someone else's lookup, or the lead.\<close>

definition begin_lookup :: "nat \<Rightarrow> string \<Rightarrow> lookup_state \<Rightarrow> lookup_state" where
  "begin_lookup c t s =
     (case cache_find (verdicts s) t (seconds s) of
        Some b \<Rightarrow> phase_is c (Returned t (Inr b)) (s\<lparr>verdicts := to_end t (verdicts s)\<rparr>)
      | None \<Rightarrow>
          (case dict_get (lookups s) t of
             Some f \<Rightarrow> phase_is c (Waiting t f) s
           | None \<Rightarrow> phase_is c (Leading t) (s\<lparr>lookups := dict_set t c (lookups s)\<rparr>)))"

definition remember_symbols :: "string list \<Rightarrow> lookup_state \<Rightarrow> lookup_state" where
  "remember_symbols symbols s =
     s\<lparr>verdicts := evict symbol_cache_size
         (foldl (\<lambda>d t. if t \<in> fst ` set (lookups s) then d else to_end t (dict_set t (seconds s + 3600, True) d))
            (verdicts s) symbols)\<rparr>"

definition publish :: "nat \<Rightarrow> string \<Rightarrow> fmp_error + bool \<Rightarrow> lookup_state \<Rightarrow> lookup_state" where
  "publish c t r s = phase_is c (Published t r) (s\<lparr>outcomes := (outcomes s)(c := Some r)\<rparr>)"

fun lookup_step :: "lookup_state \<Rightarrow> lookup_event \<Rightarrow> lookup_state" where
  "lookup_step s (Begin c t) = (if callers s c = Absent then begin_lookup c t s else s)"
| "lookup_step s (Acquire c) =
     (case callers s c of
        Leading t \<Rightarrow> if in_flight s < symbol_requests then phase_is c (Asking t) (s\<lparr>in_flight := in_flight s + 1\<rparr>) else s
      | _ \<Rightarrow> s)"
| "lookup_step s (Answer c t r) =
     (if callers s c = Asking t then phase_is c (Answered t r) (s\<lparr>in_flight := in_flight s - 1\<rparr>) else s)"
| "lookup_step s (Store c) =
     (case callers s c of
        Answered t (Inr b) \<Rightarrow>
          phase_is c (Stored t b) (s\<lparr>verdicts := cache_put symbol_cache_size t (seconds s + verdict_ttl b) b (verdicts s)\<rparr>)
      | _ \<Rightarrow> s)"
| "lookup_step s (Publish c) =
     (case callers s c of
        Stored t b \<Rightarrow> publish c t (Inr b) s
      | Answered t (Inl e) \<Rightarrow> publish c t (Inl e) s
      | _ \<Rightarrow> s)"
| "lookup_step s (Leave c) =
     (case callers s c of
        Published t r \<Rightarrow> phase_is c (Returned t r) (s\<lparr>lookups := dict_del t (lookups s)\<rparr>)
      | _ \<Rightarrow> s)"
| "lookup_step s (Await c) =
     (case callers s c of
        Waiting t f \<Rightarrow> (case outcomes s f of Some r \<Rightarrow> phase_is c (Returned t r) s | None \<Rightarrow> s)
      | _ \<Rightarrow> s)"
| "lookup_step s Other_Acquire =
     (if in_flight s < symbol_requests then s\<lparr>in_flight := in_flight s + 1, others := others s + 1\<rparr> else s)"
| "lookup_step s Other_Release =
     (if others s > 0 then s\<lparr>in_flight := in_flight s - 1, others := others s - 1\<rparr> else s)"
| "lookup_step s (Listed symbols) = remember_symbols symbols s"
| "lookup_step s (Tick n) = s\<lparr>seconds := seconds s + int n\<rparr>"

abbreviation lookup_run :: "lookup_event list \<Rightarrow> lookup_state" where
  "lookup_run es \<equiv> foldl lookup_step lookup_start es"

section \<open>The memo of known tickers\<close>

text \<open>\<open>known_tickers\<close> in its two locked halves, with the load between them, and its invalidation.\<close>

type_synonym known_memo = "(int \<times> (string, match_source) dict) option"

definition known_ttl :: int where "known_ttl = 300"

definition known_retry :: int where "known_retry = 30"

definition known_fresh :: "known_memo \<Rightarrow> int \<Rightarrow> (string, match_source) dict option" where
  "known_fresh memo now = (case memo of Some (expires, known) \<Rightarrow> if expires > now then Some known else None | None \<Rightarrow> None)"

definition known_store :: "int \<Rightarrow> (string, match_source) dict option \<Rightarrow> known_memo" where
  "known_store now loaded =
     (case loaded of Some known \<Rightarrow> Some (now + known_ttl, known) | None \<Rightarrow> Some (now + known_retry, []))"

definition invalidate_known_tickers :: "known_memo \<Rightarrow> known_memo" where
  "invalidate_known_tickers memo = None"

text \<open>A load that read the database before a report was saved stores what it read after the invalidation, and
  for five minutes no request reads again: the new ticker is not known.\<close>

lemma invalidation_lost:
  "let loaded = load_known_tickers False (Some []) [];
       after_invalidation = invalidate_known_tickers None;
       memo = known_store 10 (Some loaded)
   in known_fresh after_invalidation 9 = None \<and> known_fresh memo 309 = Some []
      \<and> load_known_tickers False (Some []) [''SPY''] = [(''SPY'', Run)]"
  by code_simp

end
