(* ===== verification/Symbol_Claims.thy ===== *)
theory Symbol_Claims
  imports Symbol_Lookup
begin

text \<open>
  The symbol lookup over all interleavings: one request per symbol at a time, at most four in all, no
  verdict that nobody gave, no caller left waiting.
\<close>

section \<open>Caches\<close>

lemma evict_get: "distinct (map fst d) \<Longrightarrow> dict_get (evict n d) k = Some v \<Longrightarrow> dict_get d k = Some v"
  by (simp add: evict_def map_of_drop)

lemma evict_distinct: "distinct (map fst d) \<Longrightarrow> distinct (map fst (evict n d))"
  by (simp add: evict_def flip: drop_map)

lemma evict_length: "length (evict n d) \<le> n"
  by (simp add: evict_def)

section \<open>Who works on a symbol\<close>

fun leads :: "lookup_phase \<Rightarrow> string option" where
  "leads (Leading t) = Some t"
| "leads (Asking t) = Some t"
| "leads (Answered t r) = Some t"
| "leads (Stored t b) = Some t"
| "leads (Published t r) = Some t"
| "leads _ = None"

definition leader_ok :: "lookup_state \<Rightarrow> bool" where
  "leader_ok s \<longleftrightarrow> distinct (map fst (lookups s)) \<and> (\<forall>t c. dict_get (lookups s) t = Some c \<longleftrightarrow> leads (callers s c) = Some t)"

definition asking :: "lookup_state \<Rightarrow> nat set" where
  "asking s = {c. \<exists>t. callers s c = Asking t}"

definition requests_ok :: "lookup_state \<Rightarrow> bool" where
  "requests_ok s \<longleftrightarrow> finite (asking s) \<and> in_flight s = card (asking s) + others s \<and> in_flight s \<le> symbol_requests"

definition verdicts_ok :: "lookup_state \<Rightarrow> bool" where
  "verdicts_ok s \<longleftrightarrow> distinct (map fst (verdicts s)) \<and> length (verdicts s) \<le> symbol_cache_size \<and>
     (\<forall>t e b. dict_get (verdicts s) t = Some (e, b) \<longrightarrow> e \<le> seconds s + verdict_ttl b)"

lemma phase_is_simps [simp]:
  "callers (phase_is c p s) = (callers s)(c := p)" "lookups (phase_is c p s) = lookups s"
  "outcomes (phase_is c p s) = outcomes s" "verdicts (phase_is c p s) = verdicts s"
  "in_flight (phase_is c p s) = in_flight s" "others (phase_is c p s) = others s" "seconds (phase_is c p s) = seconds s"
  by (simp_all add: phase_is_def)

lemma publish_simps [simp]:
  "callers (publish c t r s) = (callers s)(c := Published t r)" "lookups (publish c t r s) = lookups s"
  "outcomes (publish c t r s) = (outcomes s)(c := Some r)" "verdicts (publish c t r s) = verdicts s"
  "in_flight (publish c t r s) = in_flight s" "others (publish c t r s) = others s" "seconds (publish c t r s) = seconds s"
  by (simp_all add: publish_def)

lemma remember_simps [simp]:
  "callers (remember_symbols ts s) = callers s" "lookups (remember_symbols ts s) = lookups s"
  "outcomes (remember_symbols ts s) = outcomes s" "in_flight (remember_symbols ts s) = in_flight s"
  "others (remember_symbols ts s) = others s" "seconds (remember_symbols ts s) = seconds s"
  by (simp_all add: remember_symbols_def)

text \<open>What an event does to the caller it moves: one of these, and nothing else changes a phase.\<close>

definition moves :: "lookup_state \<Rightarrow> lookup_event \<Rightarrow> nat \<Rightarrow> lookup_phase \<Rightarrow> bool" where
  "moves s e c p \<longleftrightarrow>
     (case callers s c of
        Absent \<Rightarrow> (\<exists>t. (\<exists>b. p = Returned t (Inr b) \<and> (\<exists>x. dict_get (verdicts s) t = Some (x, b)))
                    \<or> (\<exists>f. p = Waiting t f \<and> dict_get (lookups s) t = Some f)
                    \<or> (p = Leading t \<and> dict_get (lookups s) t = None))
      | Leading t \<Rightarrow> e = Acquire c \<and> p = Asking t
      | Asking t \<Rightarrow> (\<exists>r. e = Answer c t r \<and> p = Answered t r)
      | Answered t r \<Rightarrow> (\<exists>b. r = Inr b \<and> p = Stored t b) \<or> (\<exists>x. r = Inl x \<and> p = Published t (Inl x))
      | Stored t b \<Rightarrow> p = Published t (Inr b)
      | Published t r \<Rightarrow> p = Returned t r
      | Waiting t f \<Rightarrow> (\<exists>r. outcomes s f = Some r \<and> p = Returned t r)
      | Returned t r \<Rightarrow> False)"

lemma moved:
  "callers (lookup_step s e) = (callers s)(c := p) \<Longrightarrow> moves s e c p \<Longrightarrow>
   callers (lookup_step s e) = callers s \<or> (\<exists>c p. callers (lookup_step s e) = (callers s)(c := p) \<and> moves s e c p)"
  by blast

lemma callers_step:
  "callers (lookup_step s e) = callers s \<or> (\<exists>c p. callers (lookup_step s e) = (callers s)(c := p) \<and> moves s e c p)"
proof (cases e)
  case (Begin c t)
  show ?thesis
  proof (cases "callers s c = Absent")
    case True
    show ?thesis
    proof (cases "cache_find (verdicts s) t (seconds s)")
      case (Some b)
      then have "moves s e c (Returned t (Inr b))"
        using True by (auto simp: moves_def cache_find_def split: option.splits if_splits)
      then show ?thesis by (intro moved [of s e c]) (simp_all add: Begin True begin_lookup_def Some)
    next
      case none: None
      show ?thesis
      proof (cases "dict_get (lookups s) t")
        case (Some f)
        then show ?thesis by (intro moved [of s e c "Waiting t f"]) (simp_all add: Begin True begin_lookup_def none moves_def)
      next
        case None
        then show ?thesis by (intro moved [of s e c "Leading t"]) (simp_all add: Begin True begin_lookup_def none moves_def)
      qed
    qed
  qed (simp add: Begin)
next
  case (Acquire c)
  then show ?thesis by (cases "callers s c") (auto simp: moves_def intro!: exI [of _ c])
next
  case (Answer c t r)
  then show ?thesis by (cases "callers s c") (auto simp: moves_def intro!: exI [of _ c])
next
  case (Store c)
  show ?thesis
  proof (cases "callers s c")
    case (Answered t r)
    then show ?thesis by (cases r) (auto simp: Store moves_def intro!: exI [of _ c])
  qed (simp_all add: Store)
next
  case (Publish c)
  show ?thesis
  proof (cases "callers s c")
    case (Answered t r)
    then show ?thesis by (cases r) (auto simp: Publish moves_def intro!: exI [of _ c])
  next
    case (Stored t b)
    then show ?thesis by (auto simp: Publish moves_def intro!: exI [of _ c])
  qed (simp_all add: Publish)
next
  case (Leave c)
  then show ?thesis by (cases "callers s c") (auto simp: moves_def intro!: exI [of _ c])
next
  case (Await c)
  show ?thesis
  proof (cases "callers s c")
    case (Waiting t f)
    then show ?thesis by (cases "outcomes s f") (auto simp: Await moves_def intro!: exI [of _ c])
  qed (simp_all add: Await)
qed simp_all

lemma leads_same:
  assumes "\<And>c t. e \<noteq> Begin c t" "\<And>c. e \<noteq> Leave c"
  shows "lookups (lookup_step s e) = lookups s \<and> leads (callers (lookup_step s e) x) = leads (callers s x)"
proof (cases e)
  case (Acquire c)
  then show ?thesis by (cases "callers s c") auto
next
  case (Store c)
  then show ?thesis by (cases "callers s c"; cases "\<exists>t r. callers s c = Answered t (Inr r)") (auto split: sum.splits)
next
  case (Publish c)
  then show ?thesis by (cases "callers s c") (auto split: sum.splits)
next
  case (Await c)
  then show ?thesis by (cases "callers s c") (auto split: option.splits)
qed (use assms in auto)

lemma leader_step: "leader_ok s \<Longrightarrow> leader_ok (lookup_step s e)"
proof -
  assume ok: "leader_ok s"
  consider (b) c t where "e = Begin c t" | (l) c where "e = Leave c" | (o) "\<And>c t. e \<noteq> Begin c t" "\<And>c. e \<noteq> Leave c"
    by blast
  then show ?thesis
  proof cases
    case b
    then show ?thesis
      using ok by (auto simp: leader_ok_def begin_lookup_def simp del: map_of_eq_Some_iff split: option.splits)
         (metis option.distinct(1))
  next
    case l
    show ?thesis
    proof (cases "callers s c")
      case (Published t r)
      have iff: "dict_get (lookups s) u = Some x \<longleftrightarrow> leads (callers s x) = Some u" for u x
        using ok by (simp add: leader_ok_def del: map_of_eq_Some_iff)
      then have "x = c" if "leads (callers s x) = Some t" for x
        using that Published by (metis leads.simps(5) option.inject)
      then have "dict_get (dict_del t (lookups s)) u = Some x \<longleftrightarrow> leads (((callers s)(c := Returned t r)) x) = Some u" for u x
        using iff Published by (auto simp del: map_of_eq_Some_iff)
      then show ?thesis
        using ok Published by (simp add: l leader_ok_def dict_del_keys del: map_of_eq_Some_iff)
    qed (use ok in \<open>simp_all add: l\<close>)
  next
    case o
    then show ?thesis using ok leads_same [OF o] by (simp add: leader_ok_def)
  qed
qed

text \<open>Outcomes are published once, by the lead.\<close>

definition outcome_ok :: "lookup_state \<Rightarrow> bool" where
  "outcome_ok s \<longleftrightarrow> (\<forall>c. case callers s c of
      Absent \<Rightarrow> outcomes s c = None | Leading t \<Rightarrow> outcomes s c = None | Asking t \<Rightarrow> outcomes s c = None
    | Answered t r \<Rightarrow> outcomes s c = None | Stored t b \<Rightarrow> outcomes s c = None
    | Published t r \<Rightarrow> outcomes s c = Some r
    | Waiting t f \<Rightarrow> outcomes s f \<noteq> None \<or> leads (callers s f) = Some t | Returned t r \<Rightarrow> True)"

lemma outcomes_step:
  "outcomes (lookup_step s e) = outcomes s \<or>
   (\<exists>c t r. callers (lookup_step s e) = (callers s)(c := Published t r) \<and> outcomes (lookup_step s e) = (outcomes s)(c := Some r)
      \<and> (callers s c = Answered t r \<and> (\<exists>x. r = Inl x) \<or> (\<exists>b. callers s c = Stored t b \<and> r = Inr b)))"
proof (cases e)
  case (Begin c t)
  then show ?thesis by (simp add: begin_lookup_def split: option.splits)
next
  case (Acquire c)
  then show ?thesis by (cases "callers s c") auto
next
  case (Store c)
  show ?thesis
  proof (cases "callers s c")
    case (Answered t r)
    then show ?thesis by (cases r) (simp_all add: Store)
  qed (simp_all add: Store)
next
  case (Publish c)
  show ?thesis
  proof (cases "callers s c")
    case (Answered t r)
    then show ?thesis
      by (cases r) (simp_all add: Publish, intro disjI2 exI [of _ c] exI [of _ t] exI [of _ r], simp)
  next
    case (Stored t b)
    then show ?thesis
      by (simp add: Publish, intro disjI2 exI [of _ c] exI [of _ t] exI [of _ "Inr b"], simp)
  qed (simp_all add: Publish)
next
  case (Leave c)
  then show ?thesis by (cases "callers s c") auto
next
  case (Await c)
  then show ?thesis by (cases "callers s c") (auto split: option.splits)
qed simp_all

text \<open>The condition on one caller, and what moves it.\<close>

definition caller_ok :: "(nat \<Rightarrow> lookup_phase) \<Rightarrow> (nat \<Rightarrow> (fmp_error + bool) option) \<Rightarrow> nat \<Rightarrow> bool" where
  "caller_ok ph out c \<longleftrightarrow> (case ph c of
      Published t r \<Rightarrow> out c = Some r
    | Waiting t f \<Rightarrow> out f \<noteq> None \<or> leads (ph f) = Some t
    | Returned t r \<Rightarrow> True
    | _ \<Rightarrow> out c = None)"

lemma outcome_ok_callers: "outcome_ok s \<longleftrightarrow> (\<forall>c. caller_ok (callers s) (outcomes s) c)"
  by (auto simp: outcome_ok_def caller_ok_def split: lookup_phase.splits)

text \<open>A lead is given up only once the outcome is there.\<close>

lemma caller_ok_moved:
  assumes ok: "\<forall>c. caller_ok ph out c"
    and p: "case p of Published t r \<Rightarrow> out' c = Some r | Waiting t f \<Rightarrow> f \<noteq> c \<and> (out' f \<noteq> None \<or> leads (ph f) = Some t)
      | Returned t r \<Rightarrow> True | _ \<Rightarrow> out' c = None"
    and keep: "leads (ph c) = leads p \<or> leads (ph c) = None \<or> out' c \<noteq> None"
    and out: "\<forall>x. x \<noteq> c \<longrightarrow> out' x = out x" "out c \<noteq> None \<longrightarrow> out' c \<noteq> None"
  shows "caller_ok (ph(c := p)) out' d"
proof (cases "d = c")
  case True
  then show ?thesis using p by (auto simp: caller_ok_def split: lookup_phase.splits)
next
  case False
  have d: "caller_ok ph out d" using ok by blast
  show ?thesis
  proof (cases "ph d")
    case (Waiting t f)
    then have "out f \<noteq> None \<or> leads (ph f) = Some t" using d by (simp add: caller_ok_def)
    then have "out' f \<noteq> None \<or> leads ((ph(c := p)) f) = Some t" using keep out by (cases "f = c") auto
    then show ?thesis using False Waiting by (simp add: caller_ok_def)
  qed (use d False out in \<open>simp_all add: caller_ok_def\<close>)
qed

lemma caller_ok_returned:
  assumes "\<forall>c. caller_ok ph out c" "leads (ph c) = None \<or> (\<exists>t r. ph c = Published t r)"
  shows "caller_ok (ph(c := Returned t' r')) out d"
proof (rule caller_ok_moved [OF assms(1)])
  show "leads (ph c) = leads (Returned t' r') \<or> leads (ph c) = None \<or> out c \<noteq> None"
    using assms(1) [rule_format, of c] assms(2) by (auto simp: caller_ok_def)
qed simp_all

lemma outcome_step:
  assumes "outcome_ok s" "leader_ok s"
  shows "outcome_ok (lookup_step s e)"
proof -
  have ok: "\<forall>c. caller_ok (callers s) (outcomes s) c" using assms(1) by (simp add: outcome_ok_callers)
  note this_ok = ok [rule_format]
  have "caller_ok (callers (lookup_step s e)) (outcomes (lookup_step s e)) d" for d
  proof (cases e)
    case (Begin c t)
    show ?thesis
    proof (cases "callers s c = Absent")
      case True
      then have none: "outcomes s c = None" using this_ok [of c] by (simp add: caller_ok_def)
      show ?thesis
      proof (cases "cache_find (verdicts s) t (seconds s)")
        case (Some b)
        then show ?thesis using caller_ok_returned [OF ok, of c] True by (simp add: Begin begin_lookup_def)
      next
        case miss: None
        show ?thesis
        proof (cases "dict_get (lookups s) t")
          case (Some f)
          then have "leads (callers s f) = Some t" using assms(2) by (simp add: leader_ok_def del: map_of_eq_Some_iff)
          then have "caller_ok ((callers s)(c := Waiting t f)) (outcomes s) d"
            using True none by (intro caller_ok_moved [OF ok]) auto
          then show ?thesis using True miss Some by (simp add: Begin begin_lookup_def)
        next
          case None
          then have "caller_ok ((callers s)(c := Leading t)) (outcomes s) d"
            using True none by (intro caller_ok_moved [OF ok]) auto
          then show ?thesis using True miss None by (simp add: Begin begin_lookup_def)
        qed
      qed
    qed (simp add: Begin this_ok)
  next
    case (Acquire c)
    then show ?thesis
      using this_ok this_ok [of c]
      by (cases "callers s c") (auto intro!: caller_ok_moved [OF ok] simp: caller_ok_def [of _ _ c])
  next
    case (Answer c t r)
    then show ?thesis
      using this_ok this_ok [of c] by (auto intro!: caller_ok_moved [OF ok] simp: caller_ok_def [of _ _ c])
  next
    case (Store c)
    show ?thesis
    proof (cases "callers s c")
      case (Answered t r)
      then show ?thesis
        using this_ok this_ok [of c]
        by (cases r) (auto intro!: caller_ok_moved [OF ok] simp: Store caller_ok_def [of _ _ c])
    qed (simp_all add: Store this_ok)
  next
    case (Publish c)
    show ?thesis
    proof (cases "callers s c")
      case (Answered t r)
      then show ?thesis using this_ok by (cases r) (auto intro!: caller_ok_moved [OF ok] simp: Publish)
    next
      case (Stored t b)
      then show ?thesis using this_ok by (auto intro!: caller_ok_moved [OF ok] simp: Publish)
    qed (simp_all add: Publish this_ok)
  next
    case (Leave c)
    then show ?thesis
      using this_ok caller_ok_returned [OF ok, of c] by (cases "callers s c") auto
  next
    case (Await c)
    then show ?thesis
      using this_ok caller_ok_returned [OF ok, of c] by (cases "callers s c") (auto split: option.splits)
  qed (simp_all add: this_ok)
  then show ?thesis by (simp add: outcome_ok_callers)
qed

section \<open>Requests and verdicts\<close>

lemma asking_same:
  assumes "\<And>c. e \<noteq> Acquire c" "\<And>c t r. e \<noteq> Answer c t r"
  shows "asking (lookup_step s e) = asking s"
  using callers_step [of s e]
proof
  assume "\<exists>c p. callers (lookup_step s e) = (callers s)(c := p) \<and> moves s e c p"
  then obtain c p where cp: "callers (lookup_step s e) = (callers s)(c := p)" "moves s e c p" by blast
  then have "\<nexists>t. p = Asking t" "\<nexists>t. callers s c = Asking t"
    using assms by (auto simp: moves_def split: lookup_phase.splits)
  then show ?thesis using cp(1) by (auto simp: asking_def)
qed (simp add: asking_def)

lemma flight_same:
  assumes "\<And>c. e \<noteq> Acquire c" "\<And>c t r. e \<noteq> Answer c t r" "e \<noteq> Other_Acquire" "e \<noteq> Other_Release"
  shows "in_flight (lookup_step s e) = in_flight s \<and> others (lookup_step s e) = others s"
  using assms by (cases e) (auto simp: begin_lookup_def split: option.splits lookup_phase.splits sum.splits)

lemma requests_step: "requests_ok s \<Longrightarrow> requests_ok (lookup_step s e)"
proof -
  assume ok: "requests_ok s"
  consider (acq) c where "e = Acquire c" | (ans) c t r where "e = Answer c t r" | (oa) "e = Other_Acquire" | (orel) "e = Other_Release"
    | (rest) "\<And>c. e \<noteq> Acquire c" "\<And>c t r. e \<noteq> Answer c t r" "e \<noteq> Other_Acquire" "e \<noteq> Other_Release"
    by blast
  then show ?thesis
  proof cases
    case acq
    show ?thesis
    proof (cases "callers s c")
      case (Leading t)
      then have "asking (phase_is c (Asking t) (s\<lparr>in_flight := in_flight s + 1\<rparr>)) = insert c (asking s)" "c \<notin> asking s"
        by (auto simp: asking_def)
      then show ?thesis using ok Leading by (simp add: acq requests_ok_def)
    qed (simp_all add: acq ok)
  next
    case ans
    show ?thesis
    proof (cases "callers s c = Asking t")
      case True
      then have a: "asking (phase_is c (Answered t r) (s\<lparr>in_flight := in_flight s - 1\<rparr>)) = asking s - {c}" "c \<in> asking s"
        by (auto simp: asking_def)
      have fin: "finite (asking s)" using ok by (simp add: requests_ok_def)
      then have "0 < card (asking s)" using a(2) card_gt_0_iff by blast
      then show ?thesis using ok True a fin unfolding ans requests_ok_def
        by (simp del: One_nat_def add: card_Diff_singleton; linarith)
    qed (simp add: ans ok)
  next
    case rest
    then show ?thesis using ok asking_same flight_same by (simp add: requests_ok_def)
  qed (use ok in \<open>auto simp: requests_ok_def asking_def\<close>)
qed

text \<open>A verdict in the cache, with an upper bound on what is left of its life, and with who gave it.\<close>

definition verdict_cache :: "(string \<Rightarrow> bool \<Rightarrow> bool) \<Rightarrow> int \<Rightarrow> (string, bool) expiring \<Rightarrow> bool" where
  "verdict_cache T now d \<longleftrightarrow> distinct (map fst d) \<and>
     (\<forall>t e b. dict_get d t = Some (e, b) \<longrightarrow> e \<le> now + verdict_ttl b \<and> T t b)"

lemma cache_set: "verdict_cache T now d \<Longrightarrow> T t b \<Longrightarrow> e \<le> now + verdict_ttl b \<Longrightarrow> verdict_cache T now (dict_set t (e, b) d)"
  by (auto simp: verdict_cache_def simp del: map_of_eq_Some_iff)

lemma cache_to_end: "verdict_cache T now d \<Longrightarrow> verdict_cache T now (to_end t d)"
  by (simp add: verdict_cache_def to_end_distinct del: map_of_eq_Some_iff)

lemma cache_evict: "verdict_cache T now d \<Longrightarrow> verdict_cache T now (evict n d)"
proof -
  assume d: "verdict_cache T now d"
  then have "distinct (map fst d)" by (simp add: verdict_cache_def)
  then show ?thesis
    unfolding verdict_cache_def using evict_distinct [of d n] evict_get [of d n] d [unfolded verdict_cache_def] by fast
qed

lemma cache_listed:
  "verdict_cache T now d \<Longrightarrow> \<forall>t\<in>set ts. T t True \<Longrightarrow>
   verdict_cache T now (foldl (\<lambda>d t. if t \<in> L then d else to_end t (dict_set t (now + 3600, True) d)) d ts)"
proof (induction ts arbitrary: d)
  case (Cons t ts)
  have "verdict_cache T now (to_end t (dict_set t (now + 3600, True) d))"
    using Cons.prems by (intro cache_to_end cache_set) (simp_all add: verdict_ttl_def)
  then show ?case using Cons by simp
qed simp

fun says :: "lookup_phase \<Rightarrow> (string \<times> bool) option" where
  "says (Answered t (Inr b)) = Some (t, b)"
| "says (Stored t b) = Some (t, b)"
| "says (Published t (Inr b)) = Some (t, b)"
| "says (Returned t (Inr b)) = Some (t, b)"
| "says _ = None"

lemma says_result [simp]:
  "says (Answered u r) = Some (t, b) \<longleftrightarrow> u = t \<and> r = Inr b"
  "says (Published u r) = Some (t, b) \<longleftrightarrow> u = t \<and> r = Inr b"
  "says (Returned u r) = Some (t, b) \<longleftrightarrow> u = t \<and> r = Inr b"
  by (cases r; simp)+

definition backed :: "(string \<Rightarrow> bool \<Rightarrow> bool) \<Rightarrow> lookup_state \<Rightarrow> bool" where
  "backed T s \<longleftrightarrow> verdict_cache T (seconds s) (verdicts s) \<and> length (verdicts s) \<le> symbol_cache_size \<and>
     (\<forall>c t b. says (callers s c) = Some (t, b) \<longrightarrow> T t b) \<and>
     (\<forall>c t f b. callers s c = Waiting t f \<longrightarrow> outcomes s f = Some (Inr b) \<longrightarrow> T t b)"

text \<open>Whoever says a verdict after an event has it from the cache, a future, its own answer, or said it before.\<close>

lemma moves_says:
  assumes "moves s e c p" "says p = Some (t, b)"
  shows "says (callers s c) = Some (t, b) \<or> (\<exists>x. dict_get (verdicts s) t = Some (x, b))
    \<or> (e = Answer c t (Inr b) \<and> callers s c = Asking t) \<or> (\<exists>f. callers s c = Waiting t f \<and> outcomes s f = Some (Inr b))"
proof (cases "callers s c")
  case (Published u r)
  then show ?thesis using assms by (cases r) (simp_all add: moves_def)
qed (use assms in \<open>auto simp: moves_def\<close>)

lemma verdicts_step:
  assumes "verdict_cache T (seconds s) (verdicts s)" "length (verdicts s) \<le> symbol_cache_size"
    "\<And>c t b. says (callers s c) = Some (t, b) \<Longrightarrow> T t b"
    "\<And>ts. e = Listed ts \<Longrightarrow> \<forall>t\<in>set ts. T t True"
  shows "verdict_cache T (seconds (lookup_step s e)) (verdicts (lookup_step s e))
    \<and> length (verdicts (lookup_step s e)) \<le> symbol_cache_size"
proof (cases e)
  case (Begin c t)
  have "distinct (map fst (verdicts s))" using assms(1) by (simp add: verdict_cache_def)
  then show ?thesis
    using assms(1,2) by (simp add: Begin begin_lookup_def cache_to_end to_end_length split: option.splits)
next
  case (Acquire c)
  then show ?thesis using assms(1,2) by (cases "callers s c") auto
next
  case (Store c)
  show ?thesis
  proof (cases "callers s c")
    case (Answered t r)
    show ?thesis
    proof (cases r)
      case (Inr b)
      have "T t b" using assms(3) [of c t b] Answered Inr by simp
      then have "verdict_cache T (seconds s) (cache_put symbol_cache_size t (seconds s + verdict_ttl b) b (verdicts s))"
        unfolding cache_put_def using assms(1) by (intro cache_evict cache_to_end cache_set) simp_all
      then show ?thesis by (simp add: Store Answered Inr cache_put_length)
    qed (use Answered assms(1,2) in \<open>simp add: Store\<close>)
  qed (use assms(1,2) in \<open>simp_all add: Store\<close>)
next
  case (Publish c)
  then show ?thesis using assms(1,2) by (cases "callers s c") (auto split: sum.splits)
next
  case (Leave c)
  then show ?thesis using assms(1,2) by (cases "callers s c") auto
next
  case (Await c)
  then show ?thesis using assms(1,2) by (cases "callers s c") (auto split: option.splits)
next
  case (Listed ts)
  have "verdict_cache T (seconds s) (verdicts (remember_symbols ts s))"
    unfolding remember_symbols_def using assms(1) assms(4) [OF Listed] by (simp, intro cache_evict cache_listed)
  then show ?thesis by (simp add: Listed) (simp add: remember_symbols_def evict_length)
next
  case (Tick n)
  then show ?thesis using assms(1,2) by (fastforce simp: verdict_cache_def simp del: map_of_eq_Some_iff)
qed (use assms(1,2) in simp_all)

lemma backed_step:
  assumes "backed T s" "outcome_ok s" "leader_ok s"
    and asked: "\<And>c t b. e = Answer c t (Inr b) \<Longrightarrow> callers s c = Asking t \<Longrightarrow> T t b"
    and listed: "\<And>ts. e = Listed ts \<Longrightarrow> \<forall>t\<in>set ts. T t True"
  shows "backed T (lookup_step s e)"
proof -
  have cache: "verdict_cache T (seconds s) (verdicts s)" "length (verdicts s) \<le> symbol_cache_size"
    and said: "\<And>c t b. says (callers s c) = Some (t, b) \<Longrightarrow> T t b"
    and waiting: "\<And>c t f b. callers s c = Waiting t f \<Longrightarrow> outcomes s f = Some (Inr b) \<Longrightarrow> T t b"
    using assms(1) by (simp_all add: backed_def)
  have cached: "T t b" if "dict_get (verdicts s) t = Some (x, b)" for t x b
    using cache(1) that by (simp add: verdict_cache_def del: map_of_eq_Some_iff)
  let ?s = "lookup_step s e"
  have new_said: "T t b" if "says (callers ?s c) = Some (t, b)" for c t b
    using callers_step [of s e]
  proof
    assume "\<exists>d p. callers ?s = (callers s)(d := p) \<and> moves s e d p"
    then obtain d p where dp: "callers ?s = (callers s)(d := p)" "moves s e d p" by blast
    show ?thesis
    proof (cases "c = d")
      case True
      then have "says p = Some (t, b)" using that dp by simp
      from moves_says [OF dp(2) this] show ?thesis using said cached asked waiting by blast
    qed (use that dp said in simp)
  qed (use that said in simp)
  have published: "T t b" if f: "outcomes s f = Some (Inr b)" "leads (callers s f) = Some t" for f t b
  proof -
    have "caller_ok (callers s) (outcomes s) f" using assms(2) by (simp add: outcome_ok_callers)
    then have "callers s f = Published t (Inr b)" using f by (cases "callers s f") (auto simp: caller_ok_def)
    then show ?thesis using said [of f t b] by simp
  qed
  have new_waiting: "T t b" if w: "callers ?s c = Waiting t f" "outcomes ?s f = Some (Inr b)" for c t f b
  proof -
    have lead: "outcomes s f \<noteq> None \<or> leads (callers s f) = Some t" if "callers s c = Waiting t f"
      using assms(2) that by (auto simp: outcome_ok_def dest: spec [of _ c])
    have before: "callers s c = Waiting t f \<or> dict_get (lookups s) t = Some f"
      using callers_step [of s e]
    proof
      assume "\<exists>d p. callers ?s = (callers s)(d := p) \<and> moves s e d p"
      then obtain d p where dp: "callers ?s = (callers s)(d := p)" "moves s e d p" by blast
      show ?thesis
      proof (cases "c = d")
        case True
        then have "p = Waiting t f" using dp(1) w(1) by simp
        then show ?thesis using dp(2) by (auto simp: moves_def split: lookup_phase.splits)
      qed (use w(1) dp(1) in simp)
    qed (use w(1) in simp)
    then have lead': "outcomes s f \<noteq> None \<or> leads (callers s f) = Some t"
      using lead assms(3) by (auto simp: leader_ok_def simp del: map_of_eq_Some_iff)
    from outcomes_step [of s e] show ?thesis
    proof
      assume "outcomes ?s = outcomes s"
      then show ?thesis using w(2) before waiting published assms(3)
        by (auto simp: leader_ok_def simp del: map_of_eq_Some_iff)
    next
      assume "\<exists>d u r. callers ?s = (callers s)(d := Published u r) \<and> outcomes ?s = (outcomes s)(d := Some r)
        \<and> (callers s d = Answered u r \<and> (\<exists>x. r = Inl x) \<or> (\<exists>b. callers s d = Stored u b \<and> r = Inr b))"
      then obtain d u r where d: "callers ?s = (callers s)(d := Published u r)" "outcomes ?s = (outcomes s)(d := Some r)"
        "callers s d = Answered u r \<and> (\<exists>x. r = Inl x) \<or> (\<exists>b. callers s d = Stored u b \<and> r = Inr b)" by blast
      show ?thesis
      proof (cases "d = f")
        case True
        have "r = Inr b" using w(2) d(2) True by simp
        then have st: "callers s f = Stored u b" using d(3) True by auto
        then have "outcomes s f = None" using assms(2) by (auto simp: outcome_ok_def dest: spec [of _ f])
        then have "u = t" using lead' st by simp
        then show ?thesis using said [of f t b] st by simp
      next
        case False
        then have "callers s c = Waiting t f" "outcomes s f = Some (Inr b)" using w d by (auto split: if_splits)
        then show ?thesis by (rule waiting)
      qed
    qed
  qed
  show ?thesis
    unfolding backed_def using verdicts_step [where T = T, OF cache] said listed new_said new_waiting by blast
qed

section \<open>The promise\<close>

text \<open>A verdict given: the provider answered it to a caller who was asking, or listed the symbol on a page.\<close>

definition given_verdict :: "lookup_event list \<Rightarrow> string \<Rightarrow> bool \<Rightarrow> bool" where
  "given_verdict es t b \<longleftrightarrow>
     (\<exists>before c after. es = before @ Answer c t (Inr b) # after \<and> callers (lookup_run before) c = Asking t)
     \<or> (b \<and> (\<exists>ts. Listed ts \<in> set es \<and> t \<in> set ts))"

lemma given_more: "given_verdict es t b \<Longrightarrow> given_verdict (es @ [e]) t b"
  unfolding given_verdict_def by fastforce

lemma symbols_backed_mono: "backed T s \<Longrightarrow> (\<And>t b. T t b \<Longrightarrow> T' t b) \<Longrightarrow> backed T' s"
  unfolding backed_def verdict_cache_def by blast

lemma lookup_invariants:
  "leader_ok (lookup_run es) \<and> outcome_ok (lookup_run es) \<and> requests_ok (lookup_run es) \<and> backed (given_verdict es) (lookup_run es)"
proof (induction es rule: rev_induct)
  case Nil
  show ?case
    by (simp add: lookup_start_def leader_ok_def outcome_ok_def requests_ok_def asking_def symbol_requests_def backed_def
        verdict_cache_def)
next
  case (snoc e es)
  let ?T = "given_verdict (es @ [e])"
  have "backed ?T (lookup_run es)" using snoc.IH by (blast intro: symbols_backed_mono given_more)
  moreover have "?T t b" if "e = Answer c t (Inr b)" "callers (lookup_run es) c = Asking t" for c t b
    unfolding given_verdict_def using that by blast
  moreover have "\<forall>t\<in>set ts. ?T t True" if "e = Listed ts" for ts
    unfolding given_verdict_def using that by auto
  ultimately have "backed ?T (lookup_step (lookup_run es) e)"
    using snoc.IH by (intro backed_step) blast+
  then show ?case using snoc.IH leader_step outcome_step requests_step by simp
qed

text \<open>C19: however the callers' lookups interleave, at most four requests are out and at most one per symbol; a
  verdict returned was the provider's answer to somebody asking for that symbol, or, for a symbol that exists,
  a listing on a page; whoever waits waits for a finished lookup or for one still being made; and no
  cached verdict outlives its hour, or five minutes for an unknown symbol, in a cache of at most 512.\<close>

theorem symbol_lookup_single_flight:
  "finite (asking (lookup_run es)) \<and> card (asking (lookup_run es)) \<le> 4
   \<and> (\<forall>c d t. callers (lookup_run es) c = Asking t \<longrightarrow> callers (lookup_run es) d = Asking t \<longrightarrow> c = d)
   \<and> (\<forall>c t b. callers (lookup_run es) c = Returned t (Inr b) \<longrightarrow> given_verdict es t b)
   \<and> (\<forall>c t f. callers (lookup_run es) c = Waiting t f \<longrightarrow>
        outcomes (lookup_run es) f \<noteq> None \<or> leads (callers (lookup_run es) f) = Some t)
   \<and> (\<forall>t x b. dict_get (verdicts (lookup_run es)) t = Some (x, b) \<longrightarrow> x \<le> seconds (lookup_run es) + verdict_ttl b)
   \<and> length (verdicts (lookup_run es)) \<le> 512"
proof -
  let ?s = "lookup_run es"
  have ok: "leader_ok ?s" "outcome_ok ?s" "requests_ok ?s" "backed (given_verdict es) ?s"
    using lookup_invariants [of es] by simp_all
  have "finite (asking ?s) \<and> card (asking ?s) \<le> 4" using ok(3) by (simp add: requests_ok_def symbol_requests_def)
  moreover have "c = d" if "callers ?s c = Asking t" "callers ?s d = Asking t" for c d t
  proof -
    have "dict_get (lookups ?s) t = Some c" "dict_get (lookups ?s) t = Some d"
      using ok(1) that by (simp_all add: leader_ok_def del: map_of_eq_Some_iff)
    then show ?thesis by simp
  qed
  moreover have "given_verdict es t b" if "callers ?s c = Returned t (Inr b)" for c t b
  proof -
    have "says (callers ?s c) = Some (t, b)" using that by simp
    then show ?thesis using ok(4) unfolding backed_def by blast
  qed
  moreover have "outcomes ?s f \<noteq> None \<or> leads (callers ?s f) = Some t" if "callers ?s c = Waiting t f" for c t f
    using ok(2) that by (auto simp: outcome_ok_def dest: spec [of _ c])
  moreover have "x \<le> seconds ?s + verdict_ttl b" if "dict_get (verdicts ?s) t = Some (x, b)" for t x b
    using ok(4) that by (simp add: backed_def verdict_cache_def del: map_of_eq_Some_iff)
  moreover have "length (verdicts ?s) \<le> 512" using ok(4) by (simp add: backed_def symbol_cache_size_def)
  ultimately show ?thesis by blast
qed

definition two_callers :: "lookup_event list" where
  "two_callers = [Begin 1 ''A'', Begin 2 ''A'', Acquire 2, Acquire 1, Answer 1 ''A'' (Inr True), Store 1, Begin 3 ''A'',
     Publish 1, Await 2, Leave 1, Tick 3600, Begin 4 ''A'']"

lemma symbol_lookup_single_flight_witness:
  "callers (lookup_run two_callers) 2 = Returned ''A'' (Inr True) \<and> callers (lookup_run two_callers) 3 = Returned ''A'' (Inr True)
   \<and> callers (lookup_run two_callers) 4 = Leading ''A'' \<and> given_verdict two_callers ''A'' True"
proof -
  have "callers (lookup_run two_callers) 2 = Returned ''A'' (Inr True)"
    "callers (lookup_run two_callers) 3 = Returned ''A'' (Inr True)" "callers (lookup_run two_callers) 4 = Leading ''A''"
    by code_simp+
  then show ?thesis using symbol_lookup_single_flight [of two_callers] by blast
qed

end
