(* ===== verification/Purged_Folds.thy ===== *)
theory Purged_Folds
  imports Prelude
begin

text \<open>
  Purged k-fold cross-validation, \<open>engine/analytics/purged_kfold.py\<close>. Times are integers; a
  sample is its feature time and the time its label ends. \<open>split\<close> is a generator: what it
  yields and, when a fold is empty, the error that ends it.
\<close>

datatype embargo = Fraction real | Duration int | Other_Embargo

datatype fold_error = Too_Few_Splits | No_Labels | Not_Sorted | Bad_Embargo | Length_Mismatch | Index_Out_Of_Range

record purged_kfold =
  pk_splits :: int
  pk_samples :: "(int \<times> int) list"
  pk_embargo :: embargo

text \<open>\<open>__init__\<close>; the declared default of the embargo is a string.\<close>

definition default_embargo :: embargo where "default_embargo = Other_Embargo"

definition purged_kfold_init :: "int \<Rightarrow> (int \<times> int) list option \<Rightarrow> embargo \<Rightarrow> fold_error + purged_kfold" where
  "purged_kfold_init n_splits t1 embargo =
     (if n_splits < 2 then Inl Too_Few_Splits
      else case t1 of
        None \<Rightarrow> Inl No_Labels
      | Some samples \<Rightarrow>
          if \<not> sorted (map fst samples) then Inl Not_Sorted
          else if (case embargo of Fraction x \<Rightarrow> \<not> (0 \<le> x \<and> x \<le> 1) | Duration _ \<Rightarrow> False | Other_Embargo \<Rightarrow> True)
          then Inl Bad_Embargo
          else Inr \<lparr>pk_splits = n_splits, pk_samples = samples, pk_embargo = embargo\<rparr>)"

definition fold_sizes :: "nat \<Rightarrow> nat \<Rightarrow> nat list" where
  "fold_sizes n k = replicate (n mod k) (n div k + 1) @ replicate (k - n mod k) (n div k)"

text \<open>Start and stop of each fold: the running sums of the sizes.\<close>

fun fold_bounds :: "nat \<Rightarrow> nat list \<Rightarrow> (nat \<times> nat) list" where
  "fold_bounds a [] = []"
| "fold_bounds a (size_here # sizes) = (a, a + size_here) # fold_bounds (a + size_here) sizes"

definition embargo_positions :: "embargo \<Rightarrow> (int \<times> int) list \<Rightarrow> int \<Rightarrow> nat \<Rightarrow> nat \<Rightarrow> bool" where
  "embargo_positions embargo samples label_end stop i =
     (case embargo of
        Duration td \<Rightarrow> fst (samples ! i) > label_end \<and> fst (samples ! i) \<le> label_end + td
      | Fraction x \<Rightarrow> stop \<le> i \<and> i < min (stop + nat \<lceil>x * real (length samples)\<rceil>) (length samples)
      | Other_Embargo \<Rightarrow> False)"

definition purged_train :: "embargo \<Rightarrow> (int \<times> int) list \<Rightarrow> nat \<Rightarrow> nat \<Rightarrow> nat list" where
  "purged_train embargo samples start stop =
     (let test_start = fst (samples ! start);
          label_end = Max (set (map snd (drop start (take stop samples))));
          overlap = (\<lambda>i. fst (samples ! i) \<le> label_end \<and> test_start \<le> snd (samples ! i))
      in filter (\<lambda>i. \<not> ((start \<le> i \<and> i < stop) \<or> overlap i \<or> embargo_positions embargo samples label_end stop i))
           [0..<length samples])"

fun split_folds ::
  "embargo \<Rightarrow> (int \<times> int) list \<Rightarrow> (nat \<times> nat) list \<Rightarrow> (nat list \<times> nat list) list \<times> fold_error option" where
  "split_folds embargo samples [] = ([], None)"
| "split_folds embargo samples ((start, stop) # folds) =
     (if start \<ge> length samples then ([], Some Index_Out_Of_Range)
      else let train = purged_train embargo samples start stop;
               (yields, failed) = split_folds embargo samples folds
           in (if train = [] then yields else (train, [start..<stop]) # yields, failed))"

definition purged_split :: "purged_kfold \<Rightarrow> nat \<Rightarrow> (nat list \<times> nat list) list \<times> fold_error option" where
  "purged_split kf n =
     (if length (pk_samples kf) \<noteq> n then ([], Some Length_Mismatch)
      else split_folds (pk_embargo kf) (pk_samples kf) (fold_bounds 0 (fold_sizes n (nat (pk_splits kf)))))"

definition t1_from_horizon :: "int list \<Rightarrow> int \<Rightarrow> (int \<times> int) list" where
  "t1_from_horizon feature_times horizon = map (\<lambda>t. (t, t + horizon)) feature_times"

section \<open>No leak\<close>

lemma sum_fold_sizes: "0 < k \<Longrightarrow> sum_list (fold_sizes n k) = n"
proof -
  assume k: "0 < k"
  then have "n mod k \<le> k" by simp
  then have "n mod k * (n div k + 1) + (k - n mod k) * (n div k) = n mod k + k * (n div k)"
    by (simp add: diff_mult_distrib algebra_simps)
  then show ?thesis by (simp add: fold_sizes_def sum_list_replicate)
qed

lemma bounds_cover: "concat (map (\<lambda>(a, b). [a..<b]) (fold_bounds a sizes)) = [a..<a + sum_list sizes]"
proof (induction sizes arbitrary: a)
  case (Cons x sizes)
  have "[a..<a + x] @ [a + x..<a + (x + sum_list sizes)] = [a..<a + (x + sum_list sizes)]"
    by (metis upt_add_eq_append add.assoc le_add1)
  then show ?case using Cons by (simp add: add.assoc)
qed simp

lemma split_yields:
  "(train, test) \<in> set (fst (split_folds embargo samples folds)) \<Longrightarrow>
   \<exists>start stop. (start, stop) \<in> set folds \<and> start < length samples \<and> test = [start..<stop]
     \<and> train = purged_train embargo samples start stop \<and> train \<noteq> []"
proof (induction embargo samples folds rule: split_folds.induct)
  case (2 embargo samples a b folds)
  obtain yields failed where rest: "split_folds embargo samples folds = (yields, failed)" by fastforce
  show ?case
  proof (cases "a < length samples")
    case True
    then consider "train = purged_train embargo samples a b" "test = [a..<b]" "train \<noteq> []" | "(train, test) \<in> set yields"
      using 2(2) rest by (auto simp: Let_def split: if_splits)
    then show ?thesis
    proof cases
      case 1
      then show ?thesis using True by (intro exI [of _ a] exI [of _ b]) simp
    next
      case 2
      then show ?thesis using "2.IH" [of "purged_train embargo samples a b"] rest True by fastforce
    qed
  qed (use 2(2) in simp)
qed simp

lemma bounds_inside: "(x, y) \<in> set (fold_bounds a sizes) \<Longrightarrow> a \<le> x \<and> x \<le> y \<and> y \<le> a + sum_list sizes"
  by (induction sizes arbitrary: a) fastforce+

text \<open>A sample that is kept shares no instant with a test sample's interval.\<close>

lemma train_disjoint:
  assumes "sorted (map fst samples)" "stop \<le> length samples" "i \<in> set (purged_train embargo samples start stop)"
    and j: "start \<le> j" "j < stop"
  shows "i < length samples \<and> \<not> (start \<le> i \<and> i < stop) \<and>
    (fst (samples ! i) > snd (samples ! j) \<or> snd (samples ! i) < fst (samples ! j))"
proof -
  let ?fold = "set (map snd (drop start (take stop samples)))"
  have "snd (samples ! j) \<in> ?fold"
  proof -
    have "drop start (take stop samples) ! (j - start) = samples ! j" "j - start < length (drop start (take stop samples))"
      using j assms(2) by simp_all
    then show ?thesis by (metis length_map nth_map nth_mem)
  qed
  then have top: "snd (samples ! j) \<le> Max ?fold" by (intro Max_ge) simp_all
  have "map fst samples ! start \<le> map fst samples ! j" using assms(1,2) j by (intro sorted_nth_mono) auto
  then have "fst (samples ! start) \<le> fst (samples ! j)" using j assms(2) by simp
  then show ?thesis using assms(3) top by (auto simp: purged_train_def Let_def)
qed

lemma slice_map: "b \<le> length xs \<Longrightarrow> map (\<lambda>k. f (xs ! k)) [a..<b] = map f (drop a (take b xs))"
  by (rule nth_equalityI) simp_all

text \<open>C20: no training sample of a purged split overlaps a test sample - their label intervals share no
  instant - nor lies in the embargo after the test fold; training and test are disjoint, and the folds
  tested are pieces of the samples in order that together are all of them.\<close>

theorem purged_folds_no_leak:
  assumes "purged_kfold_init n_splits (Some samples) embargo = Inr kf"
    and "(train, test) \<in> set (fst (purged_split kf n))"
  shows "concat (map (\<lambda>(a, b). [a..<b]) (fold_bounds 0 (fold_sizes n (nat n_splits)))) = [0..<n]
    \<and> (\<exists>start stop. (start, stop) \<in> set (fold_bounds 0 (fold_sizes n (nat n_splits))) \<and> test = [start..<stop])
    \<and> set train \<inter> set test = {} \<and> set train \<subseteq> {..<n}
    \<and> (\<forall>i\<in>set train. \<forall>j\<in>set test. fst (samples ! i) > snd (samples ! j) \<or> snd (samples ! i) < fst (samples ! j))
    \<and> (\<forall>i\<in>set train. \<forall>j\<in>set test. case embargo of
         Duration td \<Rightarrow> fst (samples ! i) \<le> Max (set (map (\<lambda>k. snd (samples ! k)) test))
           \<or> Max (set (map (\<lambda>k. snd (samples ! k)) test)) + td < fst (samples ! i)
       | Fraction x \<Rightarrow> i < j \<or> last test + nat \<lceil>x * real n\<rceil> < i
       | Other_Embargo \<Rightarrow> True)"
proof -
  have kf: "kf = \<lparr>pk_splits = n_splits, pk_samples = samples, pk_embargo = embargo\<rparr>" "sorted (map fst samples)" "2 \<le> n_splits"
    using assms(1) by (auto simp: purged_kfold_init_def split: if_splits)
  have n: "length samples = n"
    and yield: "(train, test) \<in> set (fst (split_folds embargo samples (fold_bounds 0 (fold_sizes n (nat n_splits)))))"
    using assms(2) by (auto simp: purged_split_def kf(1) split: if_splits)
  have sum: "sum_list (fold_sizes n (nat n_splits)) = n" using kf(3) by (intro sum_fold_sizes) simp
  obtain start stop where fold: "(start, stop) \<in> set (fold_bounds 0 (fold_sizes n (nat n_splits)))" "start < length samples"
      "test = [start..<stop]" "train = purged_train embargo samples start stop"
    using split_yields [OF yield] by blast
  have stop: "stop \<le> length samples" using bounds_inside [OF fold(1)] sum n by simp
  have apart: "i < n \<and> \<not> (start \<le> i \<and> i < stop) \<and> (fst (samples ! i) > snd (samples ! j) \<or> snd (samples ! i) < fst (samples ! j))"
    if "i \<in> set train" "j \<in> set test" for i j
    using train_disjoint [OF kf(2) stop, of i embargo start j] that fold(3,4) n by simp
  have top: "Max (set (map (\<lambda>k. snd (samples ! k)) test)) = Max (set (map snd (drop start (take stop samples))))"
    unfolding fold(3) slice_map [OF stop] by simp
  have emb: "\<not> embargo_positions embargo samples (Max (set (map (\<lambda>k. snd (samples ! k)) test))) stop i" "i < n"
      "\<not> (start \<le> i \<and> i < stop)" if "i \<in> set train" for i
    using that n unfolding top fold(4) by (simp_all add: purged_train_def Let_def)
  have "case embargo of
         Duration td \<Rightarrow> fst (samples ! i) \<le> Max (set (map (\<lambda>k. snd (samples ! k)) test))
           \<or> Max (set (map (\<lambda>k. snd (samples ! k)) test)) + td < fst (samples ! i)
       | Fraction x \<Rightarrow> i < j \<or> last test + nat \<lceil>x * real n\<rceil> < i | Other_Embargo \<Rightarrow> True"
    if "i \<in> set train" "j \<in> set test" for i j
  proof -
    have "start < stop" "start \<le> j" using that(2) fold(3) by simp_all
    then have "last test = stop - 1" using fold(3) by (simp add: last_conv_nth)
    then show ?thesis
      using emb [OF that(1)] n \<open>start < stop\<close> \<open>start \<le> j\<close>
      by (auto simp: embargo_positions_def not_less simp del: set_map split: embargo.splits)
  qed
  moreover have "set train \<inter> set test = {}" using apart fold(3) by fastforce
  moreover have "set train \<subseteq> {..<n}" using emb(2) by blast
  moreover have "concat (map (\<lambda>(a, b). [a..<b]) (fold_bounds 0 (fold_sizes n (nat n_splits)))) = [0..<n]"
    using bounds_cover [of 0 "fold_sizes n (nat n_splits)"] sum by simp
  ultimately show ?thesis using apart fold(1,3) by blast
qed

definition six_samples :: "(int \<times> int) list" where
  "six_samples = t1_from_horizon [0, 10, 20, 30, 40, 50] 12"

definition six_folds :: purged_kfold where
  "six_folds = \<lparr>pk_splits = 3, pk_samples = six_samples, pk_embargo = Duration 9\<rparr>"

lemma purged_folds_no_leak_witness:
  "fst (purged_split six_folds 6) = [([4, 5], [0, 1]), ([0], [2, 3]), ([0, 1, 2], [4, 5])] \<and>
   (fst (six_samples ! 4) > snd (six_samples ! 1) \<or> snd (six_samples ! 4) < fst (six_samples ! 1)) \<and>
   set [4, 5] \<inter> set [0, 1 :: nat] = {}"
proof -
  have init: "purged_kfold_init 3 (Some six_samples) (Duration 9) = Inr six_folds"
    unfolding purged_kfold_init_def six_folds_def by code_simp
  have split: "fst (purged_split six_folds 6) = [([4, 5], [0, 1]), ([0], [2, 3]), ([0, 1, 2], [4, 5])]" by code_simp
  then have "([4, 5], [0, 1]) \<in> set (fst (purged_split six_folds 6))" by simp
  note leak = purged_folds_no_leak [OF init this]
  have "(4 :: nat) \<in> set [4, 5]" "(1 :: nat) \<in> set [0, 1]" by simp_all
  with leak split show ?thesis by blast
qed

text \<open>The declared default of the embargo is the text of its type: a splitter made without one is refused. With fewer
  samples than splits the generator fails at the first empty fold, and a fold whose training set is purged away is
  skipped although \<open>get_n_splits\<close> counts it.\<close>

lemma default_embargo_refused: "purged_kfold_init n (Some samples) default_embargo \<noteq> Inr kf"
  by (simp add: purged_kfold_init_def default_embargo_def)

lemma few_samples_fail:
  "purged_split \<lparr>pk_splits = 3, pk_samples = [(0, 0), (5, 5)], pk_embargo = Duration 0\<rparr> 2
     = ([([1], [0]), ([0], [1])], Some Index_Out_Of_Range)"
  by code_simp

lemma fold_skipped:
  "purged_split \<lparr>pk_splits = 2, pk_samples = [(0, 9), (1, 2)], pk_embargo = Duration 0\<rparr> 2 = ([], None)"
  by code_simp

end
