(* ===== verification/Cscv.thy ===== *)
theory Cscv
  imports Prelude
begin

text \<open>
  Combinatorially symmetric cross-validation, \<open>engine/analytics/cscv.py\<close>: the probability of backtest
  overfitting of a matrix of returns, one row per period and one column per strategy. The metric is the
  function's argument; \<open>np.polyfit\<close> and \<open>np.argsort\<close>, whose order among equal values numpy leaves open, are
  parameters, and so is whether scipy can be imported, which decides how ties are ranked. Square root and
  logarithm are the real ones.
\<close>

datatype cscv_error = S_Odd | S_Small | Few_Strategies | Few_Periods

definition real_mean :: "real list \<Rightarrow> real" where
  "real_mean xs = sum_list xs / real (length xs)"

text \<open>The default metric, on returns that \<open>coerce_matrix\<close> has made finite.\<close>

definition annualized_sharpe :: "real list \<Rightarrow> real" where
  "annualized_sharpe arr =
     (if length arr < 2 then 0
      else let mu = real_mean arr;
               sd = sqrt (sum_list (map (\<lambda>x. (x - mu)\<^sup>2) arr) / real (length arr - 1))
           in if sd \<le> 0 then 0 else mu / sd * sqrt 252)"

text \<open>\<open>np.nan_to_num(arr, nan=0, posinf=0, neginf=0)\<close>.\<close>

definition coerce_matrix :: "pyfloat list list \<Rightarrow> real list list" where
  "coerce_matrix rows = map (map (\<lambda>x. if isfinite x then realval x else 0)) rows"

definition average_rank :: "real list \<Rightarrow> real \<Rightarrow> real" where
  "average_rank xs x = real (length (filter (\<lambda>y. y < x) xs)) + (real (length (filter (\<lambda>y. y = x) xs)) + 1) / 2"

text \<open>\<open>_rank_array\<close>: scipy's average ranks, or without scipy the ordinal ranks of two argsorts.\<close>

definition ordinal_ranks :: "(real list \<Rightarrow> nat list) \<Rightarrow> real list \<Rightarrow> real list" where
  "ordinal_ranks argsort xs = map (\<lambda>i. real i + 1) (argsort (map real (argsort xs)))"

definition rank_array :: "bool \<Rightarrow> (real list \<Rightarrow> nat list) \<Rightarrow> real list \<Rightarrow> real list" where
  "rank_array scipy argsort xs = (if scipy then map (average_rank xs) xs else ordinal_ranks argsort xs)"

definition safe_logit :: "real \<Rightarrow> real" where
  "safe_logit p = (let q = min (max p (1 / 10 ^ 12)) (1 - 1 / 10 ^ 12) in ln (q / (1 - q)))"

definition argmax :: "real list \<Rightarrow> nat" where
  "argmax xs = length (takeWhile (\<lambda>x. x \<noteq> Max (set xs)) xs)"

definition real_median :: "real list \<Rightarrow> real" where
  "real_median xs =
     (let ys = sort xs; n = length xs in
      if odd n then ys ! (n div 2) else (ys ! (n div 2 - 1) + ys ! (n div 2)) / 2)"

text \<open>\<open>itertools.combinations\<close>, in its order.\<close>

fun combinations :: "nat \<Rightarrow> 'a list \<Rightarrow> 'a list list" where
  "combinations 0 xs = [[]]"
| "combinations (Suc k) [] = []"
| "combinations (Suc k) (x # xs) = map ((#) x) (combinations k xs) @ combinations (Suc k) xs"

definition block_rows :: "nat \<Rightarrow> nat \<Rightarrow> nat list" where
  "block_rows width s = [s * width..<(s + 1) * width]"

definition rows_of :: "nat \<Rightarrow> nat list \<Rightarrow> nat list" where
  "rows_of width blocks = concat (map (block_rows width) blocks)"

definition test_blocks :: "nat \<Rightarrow> nat list \<Rightarrow> nat list" where
  "test_blocks s train = filter (\<lambda>b. b \<notin> set train) [0..<s]"

definition scores :: "(real list \<Rightarrow> real) \<Rightarrow> real list list \<Rightarrow> nat \<Rightarrow> nat list \<Rightarrow> real list" where
  "scores metric m n rows = map (\<lambda>j. metric (map (\<lambda>i. m ! i ! j) rows)) [0..<n]"

record split_result =
  sp_logit :: real
  sp_is_best :: real
  sp_oos_best :: real
  sp_oos_median :: real

definition split_of ::
  "(real list \<Rightarrow> real list) \<Rightarrow> (real list \<Rightarrow> real) \<Rightarrow> real list list \<Rightarrow> nat \<Rightarrow> nat \<Rightarrow> nat \<Rightarrow> nat list \<Rightarrow> split_result" where
  "split_of ranks metric m n s width train =
     (let r_is = scores metric m n (rows_of width train);
          r_oos = scores metric m n (rows_of width (test_blocks s train));
          best = argmax r_is
      in \<lparr>sp_logit = safe_logit (ranks r_oos ! best / (real n + 1)), sp_is_best = r_is ! best,
          sp_oos_best = r_oos ! best, sp_oos_median = real_median r_oos\<rparr>)"

record cscv_result =
  cs_pbo :: real
  cs_slope :: real
  cs_intercept :: real
  cs_r_squared :: real
  cs_cdf :: "real list"
  cs_oos_sorted :: "real list"
  cs_median_sorted :: "real list"
  cs_prob_loss :: real
  cs_combinations :: nat
  cs_strategies :: nat
  cs_periods :: nat
  cs_block_size :: nat
  cs_logits :: "real list"

definition fraction_of :: "('a \<Rightarrow> bool) \<Rightarrow> 'a list \<Rightarrow> real" where
  "fraction_of P xs = real (length (filter P xs)) / real (length xs)"

definition r_squared :: "real list \<Rightarrow> real list \<Rightarrow> real \<Rightarrow> real \<Rightarrow> real" where
  "r_squared xs ys slope intercept =
     (let total = sum_list (map (\<lambda>y. (y - real_mean ys)\<^sup>2) ys);
          residual = sum_list (map (\<lambda>(x, y). (y - (intercept + slope * x))\<^sup>2) (zip xs ys))
      in if total > 0 then 1 - residual / total else 0)"

definition cscv_pbo ::
  "bool \<Rightarrow> (real list \<Rightarrow> nat list) \<Rightarrow> (real list \<Rightarrow> real list \<Rightarrow> real \<times> real) \<Rightarrow> pyfloat list list \<Rightarrow> nat \<Rightarrow> nat \<Rightarrow> (real list \<Rightarrow> real) \<Rightarrow> real
   \<Rightarrow> cscv_error + cscv_result" where
  "cscv_pbo scipy argsort polyfit matrix n s metric threshold =
     (if odd s then Inl S_Odd
      else if s < 4 then Inl S_Small
      else if n < 4 then Inl Few_Strategies
      else if length matrix div s < 2 then Inl Few_Periods
      else let width = length matrix div s;
               m = take (width * s) (coerce_matrix matrix);
               splits = map (split_of (rank_array scipy argsort) metric m n s width) (combinations (s div 2) [0..<s]);
               logits = map sp_logit splits;
               is_arr = map sp_is_best splits; oos = map sp_oos_best splits;
               (slope, intercept) = polyfit is_arr oos
           in Inr \<lparr>cs_pbo = fraction_of (\<lambda>x. x \<le> 0) logits,
                cs_slope = slope, cs_intercept = intercept, cs_r_squared = r_squared is_arr oos slope intercept,
                cs_cdf = map (\<lambda>i. real i / real (length splits)) [1..<length splits + 1],
                cs_oos_sorted = sort oos, cs_median_sorted = sort (map sp_oos_median splits),
                cs_prob_loss = fraction_of (\<lambda>x. x < threshold) oos,
                cs_combinations = length splits, cs_strategies = n, cs_periods = width * s,
                cs_block_size = width, cs_logits = logits\<rparr>)"

section \<open>Combinations\<close>

lemma length_combinations: "length (combinations k xs) = length xs choose k"
  by (induction k xs rule: combinations.induct) auto

lemma in_combinations:
  "sorted_wrt (<) (xs :: nat list) \<Longrightarrow>
   c \<in> set (combinations k xs) \<longleftrightarrow> sorted_wrt (<) c \<and> set c \<subseteq> set xs \<and> length c = k"
proof (induction k xs arbitrary: c rule: combinations.induct)
  case (3 k x xs)
  have xs: "sorted_wrt (<) xs" "\<forall>y\<in>set xs. x < y" using "3.prems" by simp_all
  show ?case
  proof
    assume "c \<in> set (combinations (Suc k) (x # xs))"
    then show "sorted_wrt (<) c \<and> set c \<subseteq> set (x # xs) \<and> length c = Suc k"
      using "3.IH" xs by auto blast+
  next
    assume c: "sorted_wrt (<) c \<and> set c \<subseteq> set (x # xs) \<and> length c = Suc k"
    then obtain y ys where y: "c = y # ys" by (cases c) auto
    show "c \<in> set (combinations (Suc k) (x # xs))"
    proof (cases "y = x")
      case True
      then have "set ys \<subseteq> set xs" using c y by auto
      then have "ys \<in> set (combinations k xs)" using "3.IH"(1) [OF xs(1)] c y by simp
      then show ?thesis using y True by simp
    next
      case False
      then have "y \<in> set xs" using c y by auto
      then have "x < y" using xs(2) by blast
      then have "set c \<subseteq> set xs" using c y by fastforce
      then have "c \<in> set (combinations (Suc k) xs)" using "3.IH"(2) [OF xs(1)] c by simp
      then show ?thesis by simp
    qed
  qed
qed auto

lemma combinations_distinct: "sorted_wrt (<) (xs :: nat list) \<Longrightarrow> distinct (combinations k xs)"
proof (induction k xs rule: combinations.induct)
  case (3 k x xs)
  have xs: "sorted_wrt (<) xs" "x \<notin> set xs" using "3.prems" by auto
  then have "x # c \<notin> set (combinations (Suc k) xs)" for c
    using in_combinations [OF xs(1), of "x # c" "Suc k"] by auto
  then show ?case using 3 xs by (auto simp: distinct_map inj_on_def)
qed simp_all

lemma safe_logit_sign: "safe_logit p \<le> 0 \<longleftrightarrow> p \<le> 1 / 2"
proof -
  define q where "q = min (max p (1 / 10 ^ 12)) (1 - 1 / 10 ^ 12 :: real)"
  have q: "0 < q" "q < 1" by (auto simp: q_def min_def max_def)
  have "safe_logit p = ln (q / (1 - q))" by (simp only: safe_logit_def Let_def q_def)
  then have "safe_logit p \<le> 0 \<longleftrightarrow> q / (1 - q) \<le> 1" using q by simp
  also have "\<dots> \<longleftrightarrow> q \<le> 1 / 2" using q by (simp add: field_simps)
  also have "\<dots> \<longleftrightarrow> p \<le> 1 / 2" by (auto simp: q_def min_def max_def)
  finally show ?thesis .
qed

section \<open>Blocks and rows\<close>

lemma in_rows_of: "0 < w \<Longrightarrow> i \<in> set (rows_of w bs) \<longleftrightarrow> i div w \<in> set bs"
proof -
  assume w: "0 < w"
  have "i \<in> set (block_rows w b) \<longleftrightarrow> i div w = b" for b
  proof
    assume "i \<in> set (block_rows w b)"
    then have "w * b \<le> i" "i < w * Suc b" by (simp_all add: block_rows_def mult.commute)
    then show "i div w = b" by (rule div_nat_eqI)
  next
    assume "i div w = b"
    then have "i = w * b + i mod w" "i mod w < w" using mult_div_mod_eq [of w i] w by simp_all
    then show "i \<in> set (block_rows w b)" by (simp add: block_rows_def algebra_simps)
  qed
  then show ?thesis by (auto simp: rows_of_def)
qed

lemma length_rows_of: "length (rows_of w bs) = w * length bs"
  by (induction bs) (simp_all add: rows_of_def block_rows_def)

lemma test_blocks_choice:
  assumes "c \<in> set (combinations (s div 2) [0..<s])" "even s"
  shows "test_blocks s c \<in> set (combinations (s div 2) [0..<s])"
proof -
  have up: "sorted_wrt (<) [0..<s]" by simp
  have c: "sorted_wrt (<) c" "set c \<subseteq> {..<s}" "length c = s div 2"
    using assms(1) unfolding in_combinations [OF up] by auto
  have "distinct c" using c(1) by (simp add: strict_sorted_iff)
  then have "card (set c) = s div 2" using c(3) by (simp add: distinct_card)
  moreover have "set (test_blocks s c) = {..<s} - set c" by (auto simp: test_blocks_def)
  ultimately have "card (set (test_blocks s c)) = s - s div 2"
    using c(2) by (simp add: card_Diff_subset)
  moreover have "distinct (test_blocks s c)" by (simp add: test_blocks_def)
  ultimately have "length (test_blocks s c) = s div 2" using assms(2) by (auto simp: distinct_card)
  then show ?thesis
    unfolding in_combinations [OF up] by (auto simp: test_blocks_def intro: sorted_wrt_filter)
qed

lemma fraction_bounds: "0 \<le> fraction_of P xs \<and> fraction_of P xs \<le> 1"
  by (auto simp: fraction_of_def divide_le_eq length_filter_le)

section \<open>Ranks\<close>

text \<open>What numpy documents of \<open>argsort\<close>: a permutation of the positions that sorts the values.\<close>

definition argsorts :: "(real list \<Rightarrow> nat list) \<Rightarrow> bool" where
  "argsorts argsort \<longleftrightarrow>
     (\<forall>xs. distinct (argsort xs) \<and> set (argsort xs) = {..<length xs} \<and> sorted (map ((!) xs) (argsort xs)))"

lemma argsort_length: "argsorts argsort \<Longrightarrow> length (argsort xs) = length xs"
  by (metis argsorts_def card_lessThan distinct_card)

lemma argsort_twice:
  assumes "argsorts argsort" "i < length xs"
  defines "p \<equiv> argsort xs" and "q \<equiv> argsort (map real (argsort xs))"
  shows "p ! (q ! i) = i" "q ! i < length xs" "distinct p" "distinct q" "length p = length xs" "length q = length xs"
proof -
  have p: "distinct p" "set p = {..<length xs}" using assms(1) by (simp_all add: p_def argsorts_def)
  have len: "length p = length xs" using argsort_length [OF assms(1)] by (simp add: p_def)
  have q: "distinct q" "set q = {..<length xs}" "sorted (map ((!) (map real p)) q)"
    using assms(1) len by (auto simp: q_def p_def argsorts_def)
  have lenq: "length q = length xs" using argsort_length [OF assms(1)] len by (simp add: q_def p_def)
  have "(map real p) ! a = real (p ! a)" if "a \<in> set q" for a using that q(2) len by simp
  then have "map ((!) (map real p)) q = map (\<lambda>a. real (p ! a)) q" by (intro map_cong) simp_all
  then have "sorted (map ((!) p) q)" using q(3) by (simp add: sorted_iff_nth_mono)
  moreover have "distinct (map ((!) p) q)"
    using p(1) q(1,2) len by (auto simp: distinct_map inj_on_def nth_eq_iff_index_eq)
  moreover have "set (map ((!) p) q) = {..<length xs}"
  proof -
    have "set (map ((!) p) q) = (!) p ` {0..<length p}" by (simp only: set_map q(2) len atLeast0LessThan)
    also have "\<dots> = set p" by (simp add: nth_image)
    finally show ?thesis by (simp only: p(2))
  qed
  ultimately have "map ((!) p) q = [0..<length xs]"
    by (intro sorted_distinct_set_unique) (auto simp: atLeast0LessThan)
  then have "map ((!) p) q ! i = [0..<length xs] ! i" by simp
  then show "p ! (q ! i) = i" using assms(2) lenq by simp
  show "q ! i < length xs" using q(2) assms(2) lenq nth_mem by fastforce
  show "distinct p" "distinct q" by (fact p(1) q(1))+
  show "length p = length xs" "length q = length xs" by (fact len lenq)+
qed

lemma ordinal_rank_bounds:
  assumes "argsorts argsort" "i < length xs"
  shows "real (length (filter (\<lambda>y. y < xs ! i) xs)) + 1 \<le> ordinal_ranks argsort xs ! i"
    and "ordinal_ranks argsort xs ! i \<le> real (length (filter (\<lambda>y. y \<le> xs ! i) xs))"
proof -
  let ?p = "argsort xs" and ?q = "argsort (map real (argsort xs))"
  note tw = argsort_twice [OF assms(1)]
  have rank: "ordinal_ranks argsort xs ! i = real (?q ! i) + 1"
    using tw(6) [OF assms(2)] assms(2) by (simp add: ordinal_ranks_def)
  have sorted: "xs ! (?p ! a) \<le> xs ! (?p ! b)" if "a \<le> b" "b < length xs" for a b
    using assms(1) that tw(5) [OF assms(2)] by (auto simp: argsorts_def sorted_iff_nth_mono)
  have before: "?q ! j < ?q ! i" if "j < length xs" "xs ! j < xs ! i" for j
    using sorted [of "?q ! i" "?q ! j"] tw(1,2) [OF that(1)] tw(1,2) [OF assms(2)] that(2) by fastforce
  have "card ((!) ?q ` {j. j < length xs \<and> xs ! j < xs ! i}) = card {j. j < length xs \<and> xs ! j < xs ! i}"
    using tw(4,6) [OF assms(2)] by (intro card_image inj_onI) (auto simp: nth_eq_iff_index_eq)
  moreover have "(!) ?q ` {j. j < length xs \<and> xs ! j < xs ! i} \<subseteq> {..<?q ! i}" using before by auto
  ultimately have "card {j. j < length xs \<and> xs ! j < xs ! i} \<le> ?q ! i"
    using card_mono [of "{..<?q ! i}" "(!) ?q ` {j. j < length xs \<and> xs ! j < xs ! i}"] by simp
  then show "real (length (filter (\<lambda>y. y < xs ! i) xs)) + 1 \<le> ordinal_ranks argsort xs ! i"
    by (simp add: rank length_filter_conv_card)
  have "card ((!) ?p ` {..?q ! i}) = Suc (?q ! i)"
    using tw(2,3,5) [OF assms(2)] by (subst card_image) (auto intro!: inj_onI simp: nth_eq_iff_index_eq)
  moreover have "set ?p = {..<length xs}"
    using assms(1) by (simp add: argsorts_def)
  then have "?p ! m < length xs" if "m \<le> ?q ! i" for m
    using that tw(2,5) [OF assms(2)] nth_mem [of m ?p] by fastforce
  then have "(!) ?p ` {..?q ! i} \<subseteq> {j. j < length xs \<and> xs ! j \<le> xs ! i}"
    using sorted [OF _ tw(2) [OF assms(2)]] tw(1) [OF assms(2)] by auto
  ultimately have "Suc (?q ! i) \<le> card {j. j < length xs \<and> xs ! j \<le> xs ! i}"
    using card_mono [of "{j. j < length xs \<and> xs ! j \<le> xs ! i}" "(!) ?p ` {..?q ! i}"] by simp
  then show "ordinal_ranks argsort xs ! i \<le> real (length (filter (\<lambda>y. y \<le> xs ! i) xs))"
    by (simp add: rank length_filter_conv_card)
qed

lemma at_most_split:
  "length (filter (\<lambda>y. y \<le> x) xs) = length (filter (\<lambda>y. y < x) xs) + length (filter (\<lambda>y. y = x) xs)" for x :: real
  by (induction xs) auto

text \<open>Either way the rank lies between the first and the last place the ties could take; scipy's is midway.\<close>

definition ranked :: "bool \<Rightarrow> real list \<Rightarrow> nat \<Rightarrow> real \<Rightarrow> bool" where
  "ranked scipy xs i r \<longleftrightarrow>
     (let first = real (length (filter (\<lambda>y. y < xs ! i) xs)) + 1; final = real (length (filter (\<lambda>y. y \<le> xs ! i) xs))
      in first \<le> r \<and> r \<le> final \<and> (scipy \<longrightarrow> r = (first + final) / 2))"

lemma rank_array_ranked:
  assumes "argsorts argsort" "i < length xs"
  shows "ranked scipy xs i (rank_array scipy argsort xs ! i)"
proof (cases scipy)
  case True
  have "filter (\<lambda>y. y = xs ! i) xs \<noteq> []" using assms(2) by (auto simp: filter_empty_conv)
  then have "1 \<le> length (filter (\<lambda>y. y = xs ! i) xs)" by (simp add: Suc_le_eq)
  then show ?thesis using True assms(2)
    by (simp add: ranked_def rank_array_def average_rank_def at_most_split field_simps)
next
  case False
  then show ?thesis using ordinal_rank_bounds [OF assms] by (simp add: ranked_def rank_array_def)
qed

lemma argmax_less: "xs \<noteq> [] \<Longrightarrow> argmax xs < length xs"
proof -
  assume "xs \<noteq> []"
  then have "Max (set xs) \<in> set xs" by simp
  then have "takeWhile (\<lambda>x. x \<noteq> Max (set xs)) xs \<noteq> xs" by (metis (mono_tags, lifting) takeWhile_eq_all_conv)
  then show ?thesis unfolding argmax_def
    by (metis length_takeWhile_le le_neq_implies_less takeWhile_eq_take take_all_iff order_refl)
qed

lemma length_scores [simp]: "length (scores metric m n rows) = n"
  by (simp add: scores_def)

text \<open>C21: every half of the blocks is trained on exactly once and its other half - itself one of the halves -
  tested on: the two share no row and together are all rows used. There are as many splits as halves, and
  the probability of overfitting is the share of splits whose best strategy in sample ranks at or below the
  middle out of sample. Its rank lies between the first and the last place that its ties could take, midway
  when scipy is there and anywhere between when it is not.\<close>

theorem cscv_symmetric:
  assumes "cscv_pbo scipy argsort polyfit matrix n s metric threshold = Inr r" "argsorts argsort"
  shows "cs_combinations r = s choose (s div 2) \<and> distinct (combinations (s div 2) [0..<s])
    \<and> cs_periods r = cs_block_size r * s \<and> cs_periods r \<le> length matrix \<and> 2 \<le> cs_block_size r
    \<and> (\<forall>train\<in>set (combinations (s div 2) [0..<s]).
        test_blocks s train \<in> set (combinations (s div 2) [0..<s])
        \<and> set (rows_of (cs_block_size r) train) \<inter> set (rows_of (cs_block_size r) (test_blocks s train)) = {}
        \<and> set (rows_of (cs_block_size r) train) \<union> set (rows_of (cs_block_size r) (test_blocks s train)) = {..<cs_periods r}
        \<and> length (rows_of (cs_block_size r) train) = length (rows_of (cs_block_size r) (test_blocks s train)))
    \<and> cs_pbo r = fraction_of (\<lambda>train.
        let m = take (cs_periods r) (coerce_matrix matrix);
            oos = scores metric m n (rows_of (cs_block_size r) (test_blocks s train));
            best = argmax (scores metric m n (rows_of (cs_block_size r) train))
        in 2 * rank_array scipy argsort oos ! best \<le> real n + 1) (combinations (s div 2) [0..<s])
    \<and> (\<forall>train\<in>set (combinations (s div 2) [0..<s]).
        let m = take (cs_periods r) (coerce_matrix matrix);
            oos = scores metric m n (rows_of (cs_block_size r) (test_blocks s train));
            best = argmax (scores metric m n (rows_of (cs_block_size r) train))
        in ranked scipy oos best (rank_array scipy argsort oos ! best))
    \<and> 0 \<le> cs_pbo r \<and> cs_pbo r \<le> 1"
proof -
  let ?w = "length matrix div s" and ?combos = "combinations (s div 2) [0..<s]"
  let ?m = "take (?w * s) (coerce_matrix matrix)"
  have ok: "even s" "\<not> s < 4" "2 \<le> ?w" "\<not> n < 4" using assms(1) by (auto simp: cscv_pbo_def split: if_splits)
  have r: "cs_block_size r = ?w" "cs_periods r = ?w * s" "cs_combinations r = length ?combos"
      "cs_pbo r = fraction_of (\<lambda>x. x \<le> 0) (map sp_logit (map (split_of (rank_array scipy argsort) metric ?m n s ?w) ?combos))"
    using assms(1) by (auto simp: cscv_pbo_def Let_def split: if_splits prod.splits)
  have up: "sorted_wrt (<) [0..<s]" by simp
  have "test_blocks s c \<in> set ?combos \<and> set (rows_of ?w c) \<inter> set (rows_of ?w (test_blocks s c)) = {}
      \<and> set (rows_of ?w c) \<union> set (rows_of ?w (test_blocks s c)) = {..<?w * s}
      \<and> length (rows_of ?w c) = length (rows_of ?w (test_blocks s c))" if c: "c \<in> set ?combos" for c
  proof -
    have t: "test_blocks s c \<in> set ?combos" by (rule test_blocks_choice [OF c ok(1)])
    have len: "length c = s div 2" "length (test_blocks s c) = s div 2" "set c \<subseteq> {..<s}"
      using c t unfolding in_combinations [OF up] by auto
    have w: "0 < ?w" using ok(3) by simp
    have "i div ?w < s \<longleftrightarrow> i < ?w * s" for i using w by (simp add: less_mult_imp_div_less div_less_iff_less_mult mult.commute)
    then have "set (rows_of ?w c) \<union> set (rows_of ?w (test_blocks s c)) = {..<?w * s}"
      using len(3) by (auto simp: in_rows_of [OF w] test_blocks_def)
    moreover have "set (rows_of ?w c) \<inter> set (rows_of ?w (test_blocks s c)) = {}"
      by (auto simp: in_rows_of [OF w] test_blocks_def)
    ultimately show ?thesis using t len(1,2) by (simp add: length_rows_of)
  qed
  moreover have "cs_pbo r = fraction_of (\<lambda>train.
        let m = ?m; oos = scores metric m n (rows_of ?w (test_blocks s train));
            best = argmax (scores metric m n (rows_of ?w train))
        in 2 * rank_array scipy argsort oos ! best \<le> real n + 1) ?combos"
  proof -
    have half: "x / (real n + 1) \<le> 1 / 2 \<longleftrightarrow> 2 * x \<le> real n + 1" for x by (simp add: field_simps)
    show ?thesis
      by (simp only: r(4) fraction_of_def filter_map length_map o_def split_of_def Let_def split_result.simps safe_logit_sign half)
  qed
  moreover have "ranked scipy (scores metric ?m n test) (argmax (scores metric ?m n train))
      (rank_array scipy argsort (scores metric ?m n test) ! argmax (scores metric ?m n train))" for test train
  proof -
    have "scores metric ?m n train \<noteq> []" using ok(4) by (auto simp flip: length_greater_0_conv)
    from argmax_less [OF this] show ?thesis by (intro rank_array_ranked [OF assms(2)]) simp
  qed
  moreover have "cs_pbo r \<le> 1" "0 \<le> cs_pbo r" by (simp_all only: r(4) fraction_bounds)
  moreover have "?w * s \<le> length matrix" by simp
  ultimately show ?thesis
    using ok(3) combinations_distinct [OF up] unfolding r by (simp add: length_combinations)
qed

definition demo_returns :: "pyfloat list list" where
  "demo_returns = map (map Fin) [[1, 0, 0, 2], [1, 0, 1, 0], [0, 3, 1, 0], [0, 1, 0, 0], [2, 0, 1, 0], [0, 0, 1, 1], [0, 1, 0, 0], [3, 1, 0, 0], [5, 5, 5, 5]]"

definition stable_argsort :: "real list \<Rightarrow> nat list" where
  "stable_argsort xs = sort_key ((!) xs) [0..<length xs]"

lemma stable_argsort_sorts: "argsorts stable_argsort"
  by (simp add: argsorts_def stable_argsort_def atLeast0LessThan)

lemma demo_share:
  "fraction_of (\<lambda>train.
      let m = take 8 (coerce_matrix demo_returns);
          oos = scores sum_list m 4 (rows_of 2 (test_blocks 4 train));
          best = argmax (scores sum_list m 4 (rows_of 2 train))
      in 2 * rank_array False stable_argsort oos ! best \<le> real 4 + 1) (combinations (4 div 2) [0..<4]) = 5 / 6"
  by code_simp

text \<open>scipy is not among the requirements, and it matters: on the same returns, one of them not zero, the tied
  ranks give another probability of overfitting.\<close>

definition tied_returns :: "real list list" where
  "tied_returns = [0, 0, 0, 1] # replicate 7 [0, 0, 0, 0]"

lemma ties_depend_on_scipy:
  "map (\<lambda>scipy. fraction_of (\<lambda>train.
      let oos = scores sum_list tied_returns 4 (rows_of 2 (test_blocks 4 train));
          best = argmax (scores sum_list tied_returns 4 (rows_of 2 train))
      in 2 * rank_array scipy stable_argsort oos ! best \<le> real 4 + 1) (combinations (4 div 2) [0..<4])) [True, False]
    = [1, 1 / 2]"
  by code_simp

lemma cscv_symmetric_witness:
  "case cscv_pbo False stable_argsort (\<lambda>_ _. (0, 0)) demo_returns 4 4 sum_list 0 of
     Inr r \<Rightarrow> cs_combinations r = 6 \<and> cs_periods r = 8 \<and> cs_pbo r = 5 / 6 | Inl _ \<Rightarrow> False"
proof -
  have len: "length demo_returns = 9" by code_simp
  obtain r where run: "cscv_pbo False stable_argsort (\<lambda>_ _. (0, 0)) demo_returns 4 4 sum_list 0 = Inr r"
    by (simp add: cscv_pbo_def len Let_def)
  have shape: "cs_block_size r = 2" "cs_periods r = 8" using run by (auto simp: cscv_pbo_def len Let_def)
  have choose: "4 choose 2 = (6 :: nat)" by code_simp
  show ?thesis using cscv_symmetric [OF run stable_argsort_sorts] demo_share by (simp add: run shape choose)
qed

end
