(* ===== verification/Columns.thy ===== *)
theory Columns
  imports Prelude
begin

text \<open>
  The column operations of pandas and numpy that the analytics modules use, as their manuals describe
  them: a column is a list of floats, NaN marks a missing value. An operation is \<open>causal\<close> when each
  entry of its result depends on the entries up to it only; the locale \<open>causal_series\<close> says what
  follows from that, and the lemmas \<open>causal\<close> build such operations.
\<close>

named_theorems causal_intros "operations that are causal"

section \<open>Values\<close>

text \<open>Division of numpy: by zero it yields an infinity or NaN.\<close>

fun np_div :: "pyfloat \<Rightarrow> pyfloat \<Rightarrow> pyfloat" where
  "np_div NaN _ = NaN"
| "np_div _ NaN = NaN"
| "np_div (Fin a) (Fin b) = (if b \<noteq> 0 then Fin (a / b) else if a > 0 then PInf else if a < 0 then NInf else NaN)"
| "np_div (Fin _) _ = Fin 0"
| "np_div PInf (Fin b) = (if b \<ge> 0 then PInf else NInf)"
| "np_div NInf (Fin b) = (if b \<ge> 0 then NInf else PInf)"
| "np_div _ _ = NaN"

fun forward_fill :: "pyfloat \<Rightarrow> pyfloat list \<Rightarrow> pyfloat list" where
  "forward_fill prev [] = []"
| "forward_fill prev (x # xs) = (let y = (if x = NaN then prev else x) in y # forward_fill y xs)"

definition backward_fill :: "pyfloat list \<Rightarrow> pyfloat list" where
  "backward_fill xs = rev (forward_fill NaN (rev xs))"

definition dropna :: "pyfloat list \<Rightarrow> pyfloat list" where
  "dropna = filter (\<lambda>x. x \<noteq> NaN)"

text \<open>\<open>pct_change().dropna()\<close> of a filled series.\<close>

definition pct_changes :: "pyfloat list \<Rightarrow> pyfloat list" where
  "pct_changes xs = dropna (map (\<lambda>(p, x). np_div x p - 1) (zip xs (tl xs)))"

definition series_mean :: "pyfloat list \<Rightarrow> pyfloat" where
  "series_mean xs = np_div (foldl (+) 0 xs) (Fin (real (length xs)))"

text \<open>\<open>std()\<close> with one degree of freedom; an infinity among the values makes it NaN.\<close>

definition series_std :: "pyfloat list \<Rightarrow> pyfloat" where
  "series_std xs =
     (if length xs < 2 \<or> \<not> list_all isfinite xs then NaN
      else let mu = (\<Sum>x\<leftarrow>xs. realval x) / real (length xs)
           in Fin (sqrt ((\<Sum>x\<leftarrow>xs. (realval x - mu)\<^sup>2) / real (length xs - 1))))"

text \<open>\<open>cumprod()\<close> of values that are not missing.\<close>

fun cumprod :: "pyfloat \<Rightarrow> pyfloat list \<Rightarrow> pyfloat list" where
  "cumprod acc [] = []"
| "cumprod acc (x # xs) = (acc * x) # cumprod (acc * x) xs"

definition fillna :: "pyfloat \<Rightarrow> pyfloat list \<Rightarrow> pyfloat list" where
  "fillna v = map (\<lambda>x. if x = NaN then v else x)"

section \<open>Operations that read the past\<close>

definition histories :: "'a list \<Rightarrow> 'a list list" where
  "histories xs = map (\<lambda>i. take (i + 1) xs) [0..<length xs]"

definition along :: "('a list \<Rightarrow> 'b) \<Rightarrow> 'a list \<Rightarrow> 'b list" where
  "along h xs = map h (histories xs)"

definition window_of :: "nat \<Rightarrow> 'a list \<Rightarrow> 'a list" where
  "window_of w xs = drop (length xs - w) xs"

text \<open>\<open>rolling(w, min_periods=w)\<close>: no value before the window is full, nor with a gap in it.\<close>

definition rolling :: "nat \<Rightarrow> (pyfloat list \<Rightarrow> pyfloat) \<Rightarrow> pyfloat list \<Rightarrow> pyfloat list" where
  "rolling w f = along (\<lambda>h. if length h < w \<or> \<not> list_all isfinite (window_of w h) then NaN else f (window_of w h))"

definition shifted :: "nat \<Rightarrow> 'a \<Rightarrow> 'a list \<Rightarrow> 'a list" where
  "shifted k x0 = along (\<lambda>h. if length h \<le> k then x0 else h ! (length h - 1 - k))"

definition series_diff :: "pyfloat list \<Rightarrow> pyfloat list" where
  "series_diff xs = map2 (-) xs (shifted 1 NaN xs)"

text \<open>\<open>pct_change(k)\<close> of a filled column.\<close>

definition pct_change :: "nat \<Rightarrow> pyfloat list \<Rightarrow> pyfloat list" where
  "pct_change k xs = map2 (\<lambda>x p. np_div x p - 1) xs (shifted k NaN xs)"

section \<open>Causality\<close>

definition causal :: "('a list \<Rightarrow> 'b list) \<Rightarrow> bool" where
  "causal f \<longleftrightarrow> (\<forall>xs. length (f xs) = length xs) \<and> (\<forall>n xs. f (take n xs) = take n (f xs))"

lemma causalI: "(\<And>xs. length (f xs) = length xs) \<Longrightarrow> (\<And>n xs. f (take n xs) = take n (f xs)) \<Longrightarrow> causal f"
  by (simp add: causal_def)

locale causal_series =
  fixes f :: "'a list \<Rightarrow> 'b list"
  assumes causal: "causal f"
begin

lemma keeps_length: "length (f xs) = length xs"
  using causal by (simp add: causal_def)

lemma prefixed: "f (take n xs) = take n (f xs)"
  using causal by (simp add: causal_def)

lemma same_past: "take n xs = take n ys \<Longrightarrow> take n (f xs) = take n (f ys)"
  by (metis prefixed)

lemma appended: "f (xs @ ys) = f xs @ drop (length xs) (f (xs @ ys))"
  using prefixed [of "length xs" "xs @ ys"] by (metis append_eq_conv_conj append_take_drop_id)

end

lemma causal_length: "causal f \<Longrightarrow> length (f xs) = length xs"
  by (simp add: causal_def)

lemma causal_take: "causal f \<Longrightarrow> f (take n xs) = take n (f xs)"
  by (simp add: causal_def)

lemma causal_id [causal_intros]: "causal (\<lambda>xs. xs)"
  by (simp add: causal_def)

lemma causal_map [causal_intros]: "causal f \<Longrightarrow> causal (\<lambda>xs. map g (f xs))"
  by (simp add: causal_def take_map)

lemma causal_zip [causal_intros]: "causal f \<Longrightarrow> causal g \<Longrightarrow> causal (\<lambda>xs. zip (f xs) (g xs))"
  by (simp add: causal_def take_zip)

lemma causal_compose: "causal f \<Longrightarrow> causal g \<Longrightarrow> causal (\<lambda>xs. f (g xs))"
  by (simp add: causal_def)

lemma take_histories: "take n (histories xs) = histories (take n xs)"
proof (rule nth_equalityI)
  fix i assume "i < length (take n (histories xs))"
  then show "take n (histories xs) ! i = histories (take n xs) ! i" by (auto simp: histories_def)
qed (simp add: histories_def)

lemma causal_along: "causal (along h)"
proof (rule causalI)
  show "along h (take n xs) = take n (along h xs)" for n xs
    by (simp add: along_def take_map take_histories)
qed (simp add: along_def histories_def)

lemma causal_past [causal_intros]: "causal f \<Longrightarrow> causal (\<lambda>xs. along h (f xs))"
  by (rule causal_compose [OF causal_along])

lemma causal_rolling [causal_intros]: "causal f \<Longrightarrow> causal (\<lambda>xs. rolling w g (f xs))"
  unfolding rolling_def by (rule causal_past)

lemma causal_shifted [causal_intros]: "causal f \<Longrightarrow> causal (\<lambda>xs. shifted k x0 (f xs))"
  unfolding shifted_def by (rule causal_past)

lemma causal_pct_change [causal_intros]: "causal f \<Longrightarrow> causal (\<lambda>xs. pct_change k (f xs))"
  unfolding pct_change_def by (intro causal_intros)

lemma causal_diff [causal_intros]: "causal f \<Longrightarrow> causal (\<lambda>xs. series_diff (f xs))"
  unfolding series_diff_def by (intro causal_intros)

lemma causal_fill [causal_intros]:
  assumes "causal f"
  shows "causal (\<lambda>xs. forward_fill p (f xs))"
proof -
  have "length (forward_fill p ys) = length ys" "forward_fill p (take n ys) = take n (forward_fill p ys)" for n ys
    by (induction ys arbitrary: p n) (simp_all add: Let_def take_Cons split: nat.split)
  then have "causal (forward_fill p)" by (intro causalI)
  then show ?thesis using assms by (rule causal_compose)
qed

lemma causal_fillna [causal_intros]: "causal f \<Longrightarrow> causal (\<lambda>xs. fillna v (f xs))"
  unfolding fillna_def by (rule causal_map)

lemma causal_cumprod [causal_intros]:
  assumes "causal f"
  shows "causal (\<lambda>xs. cumprod a (f xs))"
proof -
  have "length (cumprod a ys) = length ys" "cumprod a (take n ys) = take n (cumprod a ys)" for n ys
    by (induction ys arbitrary: a n) (simp_all add: take_Cons split: nat.split)
  then have "causal (cumprod a)" by (intro causalI)
  then show ?thesis using assms by (rule causal_compose)
qed

text \<open>A table made of a column operation per column.\<close>

definition tabulate :: "nat \<Rightarrow> (nat \<Rightarrow> 'a list \<Rightarrow> 'b list) \<Rightarrow> 'a list \<Rightarrow> 'b list list" where
  "tabulate width F m = map (\<lambda>i. map (\<lambda>j. F j m ! i) [0..<width]) [0..<length m]"

lemma causal_tabulate [causal_intros]:
  assumes "\<And>j. causal (F j)" "causal f"
  shows "causal (\<lambda>m. tabulate width F (f m))"
proof -
  have "causal (tabulate width F)"
  proof (rule causalI)
    fix n and m :: "'a list"
    show "tabulate width F (take n m) = take n (tabulate width F m)"
    proof (rule nth_equalityI)
      fix i assume "i < length (tabulate width F (take n m))"
      then have "i < n" "i < length m" by (simp_all add: tabulate_def)
      then show "tabulate width F (take n m) ! i = take n (tabulate width F m) ! i"
        using causal_take [OF assms(1)] by (simp add: tabulate_def)
    qed (simp add: tabulate_def)
  qed (simp add: tabulate_def)
  then show ?thesis using assms(2) by (rule causal_compose)
qed

interpretation shifted: causal_series "shifted k x0"
  by unfold_locales (rule causal_shifted [OF causal_id])

end
