(* ===== verification/Run_Metrics.thy ===== *)
theory Run_Metrics
  imports Columns
begin

text \<open>
  The headline figures of a run, \<open>compute_metrics_dict\<close> and its helpers in
  \<open>engine/analytics/reporting.py\<close>. A performance frame is a list of samples, an instant in
  microseconds (\<open>None\<close> for \<open>NaT\<close>) and a value (NaN when it is missing); no frame is the empty list.
  \<open>day\<close> is the calendar day of an instant in the zone of the frame. Rows with the same timestamp
  keep their order when they are sorted. Powers are the one place where a finite float result
  overflows here, because Python raises there.
\<close>

section \<open>Series\<close>

record sample =
  sm_at :: "int option"
  sm_value :: pyfloat

text \<open>\<open>resample("D").last()\<close> of rows in time order: every day from the first to the last, with the
  day's last value.\<close>

definition daily_last :: "(int \<Rightarrow> int) \<Rightarrow> (int \<times> pyfloat) list \<Rightarrow> pyfloat list" where
  "daily_last day rows =
     (if rows = [] then []
      else map (\<lambda>d. case filter (\<lambda>r. day (fst r) = d \<and> snd r \<noteq> NaN) rows of [] \<Rightarrow> NaN | rs \<Rightarrow> snd (last rs))
             [day (fst (hd rows))..day (fst (last rows))])"

definition timed :: "sample list \<Rightarrow> (int \<times> pyfloat) list" where
  "timed perf = sort_key fst (map (\<lambda>s. (the (sm_at s), sm_value s)) (filter (\<lambda>s. sm_at s \<noteq> None) perf))"

definition utc_day :: "int \<Rightarrow> int" where
  "utc_day t = t div day_us"

section \<open>The figures\<close>

definition compute_max_drawdown :: "pyfloat list \<Rightarrow> pyfloat" where
  "compute_max_drawdown portfolio_values =
     (if length portfolio_values < 2 then 0
      else let arr = backward_fill (forward_fill NaN portfolio_values)
           in if \<not> list_all isfinite arr then 0
              else let xs = map (\<lambda>x. if realval x \<le> 0 then 1 / 10 ^ 9 else realval x) arr;
                       peaks = map (\<lambda>i. Max (set (take (i + 1) xs))) [0..<length xs]
                   in Fin (Min (set (map (\<lambda>(x, p). (x - p) / p) (zip xs peaks)))))"

definition compute_sharpe_ratio :: "(int \<Rightarrow> int) \<Rightarrow> sample list \<Rightarrow> pyfloat" where
  "compute_sharpe_ratio day perf =
     (let returns = pct_changes (forward_fill NaN (daily_last day (timed perf))); sd = series_std returns in
      if length returns < 2 then 0
      else if feq sd 0 \<or> sd = NaN then 0
      else np_div (series_mean returns) sd * Fin (sqrt 252))"

definition daily_returns :: "sample list \<Rightarrow> pyfloat list" where
  "daily_returns perf =
     pct_changes (forward_fill NaN (daily_last utc_day (timed (filter (\<lambda>s. sm_value s \<noteq> NaN) perf))))"

definition compute_volatility :: "sample list \<Rightarrow> pyfloat" where
  "compute_volatility perf =
     (let returns = daily_returns perf; vol = series_std returns * Fin (sqrt 252) in
      if length returns < 2 then 0 else if isfinite vol then vol else 0)"

definition compute_sortino_ratio :: "sample list \<Rightarrow> pyfloat" where
  "compute_sortino_ratio perf =
     (let returns = daily_returns perf; downside = filter (\<lambda>x. x < 0) returns; dev = series_std downside;
          sortino = np_div (series_mean returns) dev * Fin (sqrt 252)
      in if length returns < 2 then 0
         else if downside = [] then 0
         else if feq dev 0 \<or> \<not> isfinite dev then 0
         else if isfinite sortino then sortino else 0)"

text \<open>\<open>b ** e\<close> of Python floats, for a positive exponent: a result that no float can hold raises, and a
  negative base with an exponent that is not whole gives a complex number.\<close>

datatype py_number = Float_Number pyfloat | Complex_Number

definition float_limit :: real where "float_limit = 2 ^ 1024 - 2 ^ 970"

definition py_pow :: "real \<Rightarrow> real \<Rightarrow> py_exn + py_number" where
  "py_pow b e =
     (let size = \<bar>b\<bar> powr e; whole = (e = of_int \<lfloor>e\<rfloor>) in
      if float_limit \<le> size then Inl OverflowError
      else if b < 0 \<and> \<not> whole then Inr Complex_Number
      else Inr (Float_Number (Fin (if b < 0 \<and> odd \<lfloor>e\<rfloor> then - size else size))))"

definition growth_inputs :: "sample list \<Rightarrow> (pyfloat \<times> pyfloat \<times> real) option" where
  "growth_inputs perf =
     (let rows = timed (filter (\<lambda>s. sm_value s \<noteq> NaN) perf) in
      if length rows < 2 then None
      else Some (snd (hd rows), snd (last rows), real_of_int (fst (last rows) - fst (hd rows)) / real_of_int day_us))"

definition compute_annual_return :: "sample list \<Rightarrow> py_exn + py_number" where
  "compute_annual_return perf =
     (case growth_inputs perf of None \<Rightarrow> Inr (Float_Number 0)
      | Some (start_value, end_value, elapsed_days) \<Rightarrow>
          if \<not> isfinite start_value \<or> \<not> isfinite end_value \<or> start_value \<le> 0 then Inr (Float_Number 0)
          else if elapsed_days \<le> 0 then Inr (Float_Number 0)
          else ebind (py_pow (realval end_value / realval start_value) (365.25 / elapsed_days)) (\<lambda>p.
            case p of
              Complex_Number \<Rightarrow> Inr Complex_Number
            | Float_Number x \<Rightarrow> Inr (Float_Number (if isfinite (x - 1) then x - 1 else 0))))"

definition number_float :: "py_number \<Rightarrow> py_exn + pyfloat" where
  "number_float n = (case n of Complex_Number \<Rightarrow> Inl TypeError | Float_Number x \<Rightarrow> Inr x)"

record metrics_dict =
  md_total_return :: pyfloat
  md_cagr :: pyfloat
  md_sharpe :: pyfloat
  md_sortino :: pyfloat
  md_max_drawdown :: pyfloat
  md_volatility :: pyfloat
  md_win_rate :: "pyfloat option"
  md_profit_factor :: "pyfloat option"
  md_total_trades :: "int option"

definition no_metrics :: metrics_dict where
  "no_metrics = \<lparr>md_total_return = 0, md_cagr = 0, md_sharpe = 0, md_sortino = 0, md_max_drawdown = 0,
     md_volatility = 0, md_win_rate = None, md_profit_factor = None, md_total_trades = None\<rparr>"

definition compute_metrics_dict :: "(int \<Rightarrow> int) \<Rightarrow> sample list \<Rightarrow> pyfloat \<Rightarrow> py_exn + metrics_dict" where
  "compute_metrics_dict day perf initial_capital =
     (let values = dropna (map sm_value perf) in
      if values = [] then Inr no_metrics
      else let total = truediv (last values) initial_capital - 1;
               metrics = (if 0 < initial_capital then no_metrics\<lparr>md_total_return := (if isfinite total then total else 0)\<rparr>
                          else no_metrics)
           in ebind (compute_annual_return perf) (\<lambda>growth.
              ebind (number_float growth) (\<lambda>cagr.
              Inr (metrics\<lparr>md_cagr := cagr, md_sharpe := compute_sharpe_ratio day perf,
                     md_sortino := compute_sortino_ratio perf, md_max_drawdown := compute_max_drawdown values,
                     md_volatility := compute_volatility perf\<rparr>))))"

text \<open>The summary table of the engine's own report: the four figures it formats, or the error that ends the
  report. A complex return cannot be formatted as a percentage. No rows make an empty table.\<close>

definition aggregate_final_metrics ::
  "(int \<Rightarrow> int) \<Rightarrow> sample list \<Rightarrow> py_exn + (pyfloat \<times> pyfloat \<times> pyfloat \<times> pyfloat) option" where
  "aggregate_final_metrics day perf =
     (if perf = [] then Inr None
      else ebind (compute_annual_return perf) (\<lambda>growth.
           case growth of
             Complex_Number \<Rightarrow> Inl ValueError
           | Float_Number r \<Rightarrow>
               Inr (Some (sm_value (last perf), compute_max_drawdown (map sm_value perf), r, compute_sharpe_ratio day perf))))"

end
