(* ===== verification/Run_Metrics_Claims.thy ===== *)
theory Run_Metrics_Claims
  imports Run_Metrics
begin

text \<open>
  What the figures of a run promise: whenever they are produced each is a finite number in its range, and
  exactly two things keep them from being produced, a final equity below zero and a growth that no float
  can hold once it is annualised.
\<close>

lemma np_div_finite: "isfinite a \<Longrightarrow> isfinite b \<Longrightarrow> \<not> feq b 0 \<Longrightarrow> isfinite (np_div a b)"
  by (cases a; cases b) (auto simp: zero_Fin)

lemma sum_finite: "isfinite a \<Longrightarrow> list_all isfinite xs \<Longrightarrow> isfinite (foldl (+) a xs)"
  by (induction xs arbitrary: a) simp_all

lemma isfinite_zero [simp]: "isfinite 0"
  by (simp add: zero_Fin)

lemma mean_finite: "list_all isfinite xs \<Longrightarrow> xs \<noteq> [] \<Longrightarrow> isfinite (series_mean xs)"
  unfolding series_mean_def by (rule np_div_finite) (auto simp: sum_finite zero_Fin)

lemma std_not_NaN: "series_std xs \<noteq> NaN \<Longrightarrow> list_all isfinite xs \<and> xs \<noteq> [] \<and> isfinite (series_std xs) \<and> 0 \<le> realval (series_std xs)"
  by (auto simp: series_std_def Let_def split: if_splits intro!: real_sqrt_ge_zero divide_nonneg_nonneg sum_list_nonneg)

lemma sharpe_finite: "isfinite (compute_sharpe_ratio day perf)"
proof -
  have "isfinite (np_div (series_mean xs) (series_std xs) * Fin (sqrt 252))"
    if "\<not> feq (series_std xs) 0" "series_std xs \<noteq> NaN" for xs
    using std_not_NaN [OF that(2)] that(1) by (simp add: np_div_finite mean_finite)
  then show ?thesis unfolding compute_sharpe_ratio_def Let_def by simp
qed

lemma sortino_finite: "isfinite (compute_sortino_ratio perf)"
  unfolding compute_sortino_ratio_def Let_def by simp

lemma volatility_range: "isfinite (compute_volatility perf) \<and> 0 \<le> realval (compute_volatility perf)"
proof -
  have "isfinite (if isfinite v then v else 0) \<and> 0 \<le> realval (if isfinite v then v else 0)"
    if "v = series_std xs * Fin (sqrt 252)" for v and xs
  proof (cases "series_std xs = NaN")
    case False
    then obtain r where "series_std xs = Fin r" "0 \<le> r" using std_not_NaN [OF False] by (auto simp: isfinite_iff)
    then show ?thesis using that by simp
  qed (use that in \<open>simp add: zero_Fin\<close>)
  then show ?thesis unfolding compute_volatility_def Let_def by (simp add: zero_Fin)
qed

lemma max_prefix:
  assumes "i < length xs" "\<forall>x\<in>set xs. (0::real) < x"
  shows "0 < Max (set (take (i + 1) xs))" "xs ! i \<le> Max (set (take (i + 1) xs))"
proof -
  have m: "xs ! i \<in> set (take (i + 1) xs)" using assms(1) by (auto simp: in_set_conv_nth intro!: exI [of _ i])
  then show "xs ! i \<le> Max (set (take (i + 1) xs))" by simp
  moreover have "0 < xs ! i" using assms by simp
  ultimately show "0 < Max (set (take (i + 1) xs))" by linarith
qed

lemma falls_range:
  assumes "\<forall>x\<in>set xs. (0::real) < x"
    and "d \<in> set (map (\<lambda>(x, p). (x - p) / p) (zip xs (map (\<lambda>i. Max (set (take (i + 1) xs))) [0..<length xs])))"
  shows "-1 < d \<and> d \<le> 0"
proof -
  obtain i where i: "i < length xs" "d = (xs ! i - Max (set (take (i + 1) xs))) / Max (set (take (i + 1) xs))"
    using assms(2) by (auto simp: set_zip)
  have "0 < xs ! i" using assms(1) i(1) nth_mem by blast
  then show ?thesis using max_prefix [OF i(1) assms(1)] unfolding i(2) by (simp add: field_simps)
qed

lemma drawdown_range: "\<exists>d. compute_max_drawdown vs = Fin d \<and> -1 < d \<and> d \<le> 0"
proof (cases "length vs < 2 \<or> \<not> list_all isfinite (backward_fill (forward_fill NaN vs))")
  case False
  let ?arr = "backward_fill (forward_fill NaN vs)"
  define xs where "xs = map (\<lambda>x. if realval x \<le> 0 then 1 / 10 ^ 9 else realval x) ?arr"
  let ?dd = "map (\<lambda>(x, p). (x - p) / p) (zip xs (map (\<lambda>i. Max (set (take (i + 1) xs))) [0..<length xs]))"
  have ff: "length (forward_fill p ys) = length ys" for p ys by (induction ys arbitrary: p) (simp_all add: Let_def)
  have "length xs = length vs" by (simp add: xs_def backward_fill_def ff)
  then have "length ?dd \<noteq> 0" using False by (simp del: length_0_conv)
  then have "Min (set ?dd) \<in> set ?dd" by (intro Min_in) (simp_all only: List.finite_set set_empty length_0_conv not_False_eq_True)
  moreover have "\<forall>x\<in>set xs. 0 < x" by (auto simp: xs_def)
  ultimately have "-1 < Min (set ?dd) \<and> Min (set ?dd) \<le> 0" by (rule falls_range [rotated])
  moreover have "compute_max_drawdown vs = Fin (Min (set ?dd))"
    using False unfolding compute_max_drawdown_def Let_def xs_def by simp
  ultimately show ?thesis by blast
qed (auto simp: compute_max_drawdown_def Let_def zero_Fin)

lemma py_pow_cases:
  obtains "py_pow b e = Inl OverflowError" "float_limit \<le> \<bar>b\<bar> powr e"
  | "py_pow b e = Inr Complex_Number" "b < 0" "e \<noteq> of_int \<lfloor>e\<rfloor>"
  | x where "py_pow b e = Inr (Float_Number x)"
  unfolding py_pow_def Let_def by (cases "float_limit \<le> \<bar>b\<bar> powr e"; cases "b < 0 \<and> e \<noteq> of_int \<lfloor>e\<rfloor>") auto

lemma annual_return_cases:
  "(\<exists>x. compute_annual_return perf = Inr (Float_Number x) \<and> isfinite x)
   \<or> (\<exists>a b t. growth_inputs perf = Some (Fin a, Fin b, t) \<and> 0 < a \<and> 0 < t
       \<and> (compute_annual_return perf = Inl OverflowError \<and> float_limit \<le> \<bar>b / a\<bar> powr (365.25 / t)
          \<or> compute_annual_return perf = Inr Complex_Number \<and> b < 0 \<and> 365.25 / t \<notin> \<int>))"
proof (cases "growth_inputs perf")
  case None
  then show ?thesis by (simp add: compute_annual_return_def)
next
  case (Some g)
  obtain s e t where g: "g = (s, e, t)" by (cases g)
  show ?thesis
  proof (cases "isfinite s \<and> isfinite e \<and> \<not> s \<le> 0 \<and> \<not> t \<le> 0")
    case False
    then show ?thesis using Some g by (auto simp: compute_annual_return_def)
  next
    case True
    then obtain a b where ab: "s = Fin a" "e = Fin b" "0 < a" "0 < t" by (auto simp: isfinite_iff zero_Fin)
    let ?p = "365.25 / t"
    have ar: "compute_annual_return perf = ebind (py_pow (b / a) ?p) (\<lambda>p. case p of
              Complex_Number \<Rightarrow> Inr Complex_Number
            | Float_Number x \<Rightarrow> Inr (Float_Number (if isfinite (x - 1) then x - 1 else 0)))"
      using Some g ab by (simp add: compute_annual_return_def zero_Fin)
    consider "py_pow (b / a) ?p = Inl OverflowError" "float_limit \<le> \<bar>b / a\<bar> powr ?p"
      | "py_pow (b / a) ?p = Inr Complex_Number" "b / a < 0" "?p \<noteq> of_int \<lfloor>?p\<rfloor>"
      | x where "py_pow (b / a) ?p = Inr (Float_Number x)"
      by (rule py_pow_cases)
    then show ?thesis
    proof cases
      case 1
      then show ?thesis using Some g ab by (intro disjI2 exI [of _ a] exI [of _ b] exI [of _ t]) (simp add: ar)
    next
      case 2
      have "b < 0" using 2(2) ab(3) by (simp add: divide_less_0_iff)
      moreover have "?p \<notin> \<int>" using 2(3) by (auto elim!: Ints_cases)
      ultimately show ?thesis
        using Some g ab 2(1) by (intro disjI2 exI [of _ a] exI [of _ b] exI [of _ t]) (simp add: ar)
    next
      case (3 x)
      then show ?thesis by (intro disjI1) (auto simp: ar)
    qed
  qed
qed


section \<open>The property\<close>

text \<open>C23: for every performance frame and capital, the figures of a run are finite numbers, the drawdown
  above minus one and at most zero, the volatility not negative, the round-trip figures left open; or the
  frame makes no figures at all, with a \<open>TypeError\<close> for a run whose last value is below zero and whose
  annualising exponent is not whole, or an \<open>OverflowError\<close> for a growth beyond every float.\<close>

theorem metrics_in_range:
  "case compute_metrics_dict day perf capital of
     Inr m \<Rightarrow> list_all isfinite [md_total_return m, md_cagr m, md_sharpe m, md_sortino m, md_max_drawdown m, md_volatility m]
       \<and> -1 < realval (md_max_drawdown m) \<and> realval (md_max_drawdown m) \<le> 0 \<and> 0 \<le> realval (md_volatility m)
       \<and> md_win_rate m = None \<and> md_profit_factor m = None \<and> md_total_trades m = None
   | Inl e \<Rightarrow> (\<exists>a b t. growth_inputs perf = Some (Fin a, Fin b, t) \<and> 0 < a \<and> 0 < t \<and>
       (e = TypeError \<and> b < 0 \<and> 365.25 / t \<notin> \<int> \<or> e = OverflowError \<and> float_limit \<le> \<bar>b / a\<bar> powr (365.25 / t)))"
proof (cases "dropna (map sm_value perf) = []")
  case True
  then show ?thesis by (simp add: compute_metrics_dict_def no_metrics_def zero_Fin)
next
  case False
  let ?vals = "dropna (map sm_value perf)"
  obtain d where d: "compute_max_drawdown ?vals = Fin d" "-1 < d" "d \<le> 0" using drawdown_range by blast
  let ?start = "if 0 < capital then no_metrics\<lparr>md_total_return :=
      (if isfinite (truediv (last ?vals) capital - 1) then truediv (last ?vals) capital - 1 else 0)\<rparr> else no_metrics"
  have start: "isfinite (md_total_return ?start)" "md_win_rate ?start = None" "md_profit_factor ?start = None" "md_total_trades ?start = None"
    by (simp_all add: no_metrics_def)
  have run: "compute_metrics_dict day perf capital = ebind (compute_annual_return perf) (\<lambda>growth.
      ebind (number_float growth) (\<lambda>cagr. Inr (?start\<lparr>md_cagr := cagr, md_sharpe := compute_sharpe_ratio day perf,
        md_sortino := compute_sortino_ratio perf, md_max_drawdown := compute_max_drawdown ?vals,
        md_volatility := compute_volatility perf\<rparr>)))"
    using False by (simp add: compute_metrics_dict_def Let_def)
  consider x where "compute_annual_return perf = Inr (Float_Number x)" "isfinite x"
    | a b t where "growth_inputs perf = Some (Fin a, Fin b, t)" "0 < a" "0 < t"
        "compute_annual_return perf = Inl OverflowError \<and> float_limit \<le> \<bar>b / a\<bar> powr (365.25 / t)
          \<or> compute_annual_return perf = Inr Complex_Number \<and> b < 0 \<and> 365.25 / t \<notin> \<int>"
    using annual_return_cases [of perf] by blast
  then show ?thesis
  proof cases
    case (1 x)
    then show ?thesis unfolding run
      using start d by (simp add: number_float_def sharpe_finite sortino_finite volatility_range del: split_paired_Ex)
  next
    case (2 a b t)
    from 2(4) show ?thesis
    proof
      assume o: "compute_annual_return perf = Inl OverflowError \<and> float_limit \<le> \<bar>b / a\<bar> powr (365.25 / t)"
      then have "compute_metrics_dict day perf capital = Inl OverflowError" unfolding run by simp
      then show ?thesis using 2(1-3) o by (simp only: sum.case) blast
    next
      assume c: "compute_annual_return perf = Inr Complex_Number \<and> b < 0 \<and> 365.25 / t \<notin> \<int>"
      then have "compute_metrics_dict day perf capital = Inl TypeError" unfolding run by (simp add: number_float_def)
      then show ?thesis using 2(1-3) c by (simp only: sum.case) blast
    qed
  qed
qed

text \<open>Both errors happen: an account that is short and ends below zero, and a gain of a tenth within one hour.
  And the ratio of Sortino is zero when there was one losing day, not only when there was none.\<close>

definition short_squeeze :: "sample list" where
  "short_squeeze = [\<lparr>sm_at = Some 0, sm_value = Fin 100\<rparr>, \<lparr>sm_at = Some (10 * day_us), sm_value = Fin (-50)\<rparr>]"

definition good_hour :: "sample list" where
  "good_hour = [\<lparr>sm_at = Some 0, sm_value = Fin 100\<rparr>, \<lparr>sm_at = Some hour_us, sm_value = Fin 110\<rparr>]"

lemma negative_equity_raises: "compute_metrics_dict utc_day short_squeeze (Fin 100) = Inl TypeError"
proof -
  have g: "growth_inputs short_squeeze = Some (Fin 100, Fin (-50), 10)" by (simp add: growth_inputs_def timed_def short_squeeze_def)
  have "(1 / 2) powr (1461 / 40) \<le> (1 :: real)" by (rule powr_le1) simp_all
  then have "\<not> float_limit \<le> (1 / 2) powr (1461 / 40)" by (simp add: float_limit_def)
  moreover have "\<lfloor>1461 / 40 :: real\<rfloor> = 36" by (simp add: floor_eq_iff)
  ultimately have "py_pow (- 1 / 2) (1461 / 40) = Inr Complex_Number" by (simp add: py_pow_def)
  then have "compute_annual_return short_squeeze = Inr Complex_Number" by (simp add: compute_annual_return_def g zero_Fin)
  moreover have "dropna (map sm_value short_squeeze) \<noteq> []" by (simp add: dropna_def short_squeeze_def)
  ultimately show ?thesis by (simp add: compute_metrics_dict_def number_float_def Let_def)
qed

lemma tenth_doubles: "(2 :: real) ^ n \<le> (11 / 10) powr (8 * real n)"
proof -
  have "(2 :: real) ^ n \<le> ((11 / 10) ^ 8) ^ n" by (rule power_mono) (simp_all add: power_divide)
  also have "\<dots> = (11 / 10) ^ (8 * n)" by (rule power_mult [symmetric])
  also have "\<dots> = (11 / 10) powr real (8 * n)" by (rule powr_realpow [symmetric]) simp
  finally show ?thesis by simp
qed

lemma good_hour_raises: "compute_metrics_dict utc_day good_hour (Fin 100) = Inl OverflowError"
proof -
  have g: "growth_inputs good_hour = Some (Fin 100, Fin 110, 1 / 24)" by (simp add: growth_inputs_def timed_def good_hour_def)
  have "(2 :: real) ^ 1024 \<le> (11 / 10) powr (8 * real 1024)" by (rule tenth_doubles)
  also have "\<dots> \<le> (11 / 10) powr 8766" by (rule powr_mono) simp_all
  finally have "float_limit \<le> (11 / 10) powr 8766" by (simp add: float_limit_def)
  then have "py_pow (11 / 10) 8766 = Inl OverflowError" by (simp add: py_pow_def)
  then have "compute_annual_return good_hour = Inl OverflowError" by (simp add: compute_annual_return_def g zero_Fin)
  moreover have "dropna (map sm_value good_hour) \<noteq> []" by (simp add: dropna_def good_hour_def)
  ultimately show ?thesis by (simp add: compute_metrics_dict_def Let_def)
qed

lemma one_loss_no_sortino: "length (filter (\<lambda>x. x < 0) (daily_returns perf)) = 1 \<Longrightarrow> compute_sortino_ratio perf = 0"
  by (simp add: compute_sortino_ratio_def series_std_def Let_def)

end
