(* ===== verification/Fast_Mode.thy ===== *)
theory Fast_Mode
  imports Columns
begin

text \<open>
  The vectorized path of the engine: the adapters of \<open>engine/analytics/vector_strategy_adapters.py\<close>,
  which turn a table of closes into target weights, and \<open>_run_fast_vectorized\<close> of
  \<open>engine/core/backtest_engine.py\<close> with \<open>run_from_returns\<close> of
  \<open>engine/analytics/vectorized_backtest.py\<close>, which turn them into a curve. A table is a list of rows,
  one per day, a value per ticker. The exponentially weighted mean of pandas is the argument \<open>ewm\<close> (its
  \<open>alpha\<close>, its \<open>min_periods\<close>). The benchmark, the overlay of earlier years, the Monte Carlo paths and the
  risk figures are written to files only and are not modelled.
\<close>

section \<open>Indicator columns\<close>

type_synonym ewm_op = "real \<Rightarrow> nat \<Rightarrow> pyfloat list \<Rightarrow> pyfloat list"

text \<open>\<open>clip(lower=0)\<close> and \<open>-clip(upper=0)\<close>.\<close>

definition gain_part :: "pyfloat \<Rightarrow> pyfloat" where
  "gain_part x = (if x < 0 then 0 else x)"

definition loss_part :: "pyfloat \<Rightarrow> pyfloat" where
  "loss_part x = - (if 0 < x then 0 else x)"

definition vector_strength :: "ewm_op \<Rightarrow> nat \<Rightarrow> pyfloat list \<Rightarrow> pyfloat list" where
  "vector_strength ewm period delta =
     (let avg_gain = ewm (1 / real period) period (map gain_part delta);
          avg_loss = ewm (1 / real period) period (map loss_part delta);
          rs = map2 (\<lambda>g l. np_div g (if feq l 0 then NaN else l)) avg_gain avg_loss
      in fillna (Fin 50) (map (\<lambda>r. Fin 100 - np_div (Fin 100) (1 + r)) rs))"

definition vector_rsi :: "ewm_op \<Rightarrow> nat \<Rightarrow> pyfloat list \<Rightarrow> pyfloat list" where
  "vector_rsi ewm period price = vector_strength ewm period (series_diff price)"

definition vector_rmi :: "ewm_op \<Rightarrow> nat \<Rightarrow> nat \<Rightarrow> pyfloat list \<Rightarrow> pyfloat list" where
  "vector_rmi ewm period momentum_period price =
     vector_strength ewm period (map2 (-) price (shifted momentum_period NaN price))"

definition between :: "pyfloat \<Rightarrow> real \<Rightarrow> real \<Rightarrow> bool" where
  "between x a b \<longleftrightarrow> Fin a < x \<and> x < Fin b"

section \<open>Adapters\<close>

text \<open>One where the signal enters, zero where it leaves, else what it was; zero before the first signal. An
  entry is assigned before an exit.\<close>

definition held_state :: "(bool \<times> bool) list \<Rightarrow> pyfloat list" where
  "held_state signals =
     fillna 0 (forward_fill NaN (map (\<lambda>(enter, leave). if leave then 0 else if enter then 1 else NaN) signals))"

definition momentum_column :: "ewm_op \<Rightarrow> pyfloat list \<Rightarrow> pyfloat list" where
  "momentum_column ewm close =
     (let sma_fast = rolling 14 series_mean close; sma_slow = rolling 28 series_mean close;
          dma = shifted 7 NaN (rolling 14 series_mean close);
          rsi = vector_rsi ewm 14 close; rmi = vector_rmi ewm 14 14 close
      in held_state (map (\<lambda>((f, s), d, r, m).
           let bullish = s < f \<and> s < d; bearish = f < s \<and> d < s;
               oversold = between r 10 30 \<or> between m 10 30; overbought = between r 70 90 \<or> between m 70 90;
               enter = bullish \<or> oversold
           in (enter, (bearish \<or> overbought) \<and> \<not> enter))
         (zip (zip sma_fast sma_slow) (zip dma (zip rsi rmi)))))"

definition vol_momentum_column :: "pyfloat list \<Rightarrow> pyfloat list" where
  "vol_momentum_column close =
     (let threshold = map (\<lambda>v. v * Fin (sqrt 20) * Fin 1.5) (rolling 20 series_std (pct_change 1 close))
      in held_state (map2 (\<lambda>r t. (t < r, r < - t)) (pct_change 20 close) threshold))"

definition zscore_20 :: "pyfloat list \<Rightarrow> pyfloat list" where
  "zscore_20 close =
     map (\<lambda>((c, m), s). np_div (c - m) (c * (if feq s 0 then NaN else s)))
       (zip (zip close (rolling 20 series_mean close)) (rolling 20 series_std (pct_change 1 close)))"

text \<open>\<open>vix\<close> is the column of the volatility index, when the table has one; that column itself is never in
  the volatile regime, and its state is overwritten with zero.\<close>

definition regime_column :: "nat option \<Rightarrow> nat \<Rightarrow> pyfloat list list \<Rightarrow> pyfloat list" where
  "regime_column vix j m =
     (let close = map (\<lambda>row. row ! j) m;
          high = (case vix of None \<Rightarrow> map (\<lambda>_. False) m | Some v \<Rightarrow> map (\<lambda>row. v \<noteq> j \<and> Fin 18 < row ! v) m);
          state = held_state (map (\<lambda>((h, mom), z).
            (h \<and> z < - 1 \<or> \<not> h \<and> Fin 0.002 < mom, h \<and> 1 < z \<or> \<not> h \<and> mom < - Fin 0.002))
              (zip (zip high (pct_change 5 close)) (zscore_20 close)))
      in if vix = Some j then map (\<lambda>_. 0) state else state)"

definition trend_up :: "pyfloat list \<Rightarrow> bool list" where
  "trend_up close = map2 (\<lambda>f s. s < f) (rolling 20 series_mean close) (rolling 50 series_mean close)"

definition risk_off_tickers :: "string list \<Rightarrow> bool list" where
  "risk_off_tickers tickers =
     (let off = map (\<lambda>t. take 3 t = ''TLT'') tickers in
      if list_ex id off \<or> off = [] then off else replicate (length off - 1) False @ [True])"

definition count_true :: "bool list \<Rightarrow> nat" where
  "count_true bs = length (filter id bs)"

definition rotate_row :: "bool list \<Rightarrow> bool list \<Rightarrow> pyfloat list" where
  "rotate_row off up =
     (let on_count = count_true (map2 (\<lambda>q u. \<not> q \<and> u) off up); off_count = count_true (map2 (\<and>) off up);
          use_on = off_count \<le> on_count
      in map2 (\<lambda>q u. if u \<and> q \<noteq> use_on then 1 else 0) off up)"

definition normalise_active_weights :: "bool list \<Rightarrow> pyfloat list" where
  "normalise_active_weights active =
     (let n = count_true active in map (\<lambda>a. if n = 0 then 0 else if a then Fin (1 / real n) else 0) active)"

definition weights_of_states :: "pyfloat list list \<Rightarrow> pyfloat list list" where
  "weights_of_states = map (\<lambda>row. normalise_active_weights (map (\<lambda>x. 0 < x) row))"

datatype vector_adapter = VolMomentum | MomentumStrategy | RegimeAdaptiveStrategy | TrendRotateStrategy

fun adapter_for :: "string \<Rightarrow> vector_adapter option" where
  "adapter_for name =
     (if name = ''VolMomentum'' then Some VolMomentum
      else if name = ''MomentumStrategy'' then Some MomentumStrategy
      else if name = ''RegimeAdaptiveStrategy'' then Some RegimeAdaptiveStrategy
      else if name = ''TrendRotateStrategy'' then Some TrendRotateStrategy else None)"

definition column_of :: "nat \<Rightarrow> 'a list list \<Rightarrow> 'a list" where
  "column_of j m = map (\<lambda>row. row ! j) m"

definition ticker_position :: "string \<Rightarrow> string list \<Rightarrow> nat option" where
  "ticker_position t tickers = find (\<lambda>j. tickers ! j = t) [0..<length tickers]"

definition adapter_states :: "ewm_op \<Rightarrow> vector_adapter \<Rightarrow> string list \<Rightarrow> pyfloat list list \<Rightarrow> pyfloat list list" where
  "adapter_states ewm adapter tickers m =
     (case adapter of
        VolMomentum \<Rightarrow> tabulate (length tickers) (\<lambda>j m. vol_momentum_column (column_of j m)) m
      | MomentumStrategy \<Rightarrow> tabulate (length tickers) (\<lambda>j m. momentum_column ewm (column_of j m)) m
      | RegimeAdaptiveStrategy \<Rightarrow> tabulate (length tickers) (regime_column (ticker_position ''^VIX'' tickers)) m
      | TrendRotateStrategy \<Rightarrow> map (rotate_row (risk_off_tickers tickers))
          (tabulate (length tickers) (\<lambda>j m. trend_up (column_of j m)) m))"

definition target_weights :: "ewm_op \<Rightarrow> vector_adapter \<Rightarrow> string list \<Rightarrow> pyfloat list list \<Rightarrow> pyfloat list list" where
  "target_weights ewm adapter tickers m = weights_of_states (adapter_states ewm adapter tickers m)"


section \<open>The engine's daily closes\<close>

text \<open>A bar of the table: its instant, the New York day of that instant is \<open>ny_day\<close>. A close that is not a
  number reads as NaN.\<close>

record bar_close =
  bc_ticker :: string
  bc_at :: int
  bc_close :: pyfloat

record daily_close =
  dc_day :: int
  dc_at :: int
  dc_ticker :: string
  dc_close :: pyfloat

text \<open>The query: per ticker and New York day the last bar within the two instants, in the order of ticker
  and day; then rows without a close are dropped. The bounds are the dates at midnight UTC.\<close>

definition fetch_fast_daily :: "(int \<Rightarrow> int) \<Rightarrow> bar_close list \<Rightarrow> string list \<Rightarrow> int \<Rightarrow> int \<Rightarrow> daily_close list" where
  "fetch_fast_daily ny_day bars tickers start_day end_day =
     (let asked = filter (\<lambda>b. bc_ticker b \<in> set tickers \<and> start_day * day_us \<le> bc_at b \<and> bc_at b \<le> end_day * day_us) bars;
          groups = sort (remdups (map (\<lambda>b. (bc_ticker b, ny_day (bc_at b))) asked));
          newest = (\<lambda>g. last (sort_key bc_at (filter (\<lambda>b. (bc_ticker b, ny_day (bc_at b)) = g) asked)))
      in map (\<lambda>b. \<lparr>dc_day = ny_day (bc_at b), dc_at = bc_at b, dc_ticker = bc_ticker b, dc_close = bc_close b\<rparr>)
           (filter (\<lambda>b. bc_close b \<noteq> NaN) (map newest groups)))"

type_synonym close_table = "(int \<times> pyfloat list) list"

text \<open>\<open>pivot_table(aggfunc="last")\<close>, forward filled.\<close>

definition pivot_closes :: "daily_close list \<Rightarrow> string list \<Rightarrow> close_table" where
  "pivot_closes rows tickers =
     (let quoted = filter (\<lambda>r. dc_close r \<noteq> NaN) rows;
          days = sort (remdups (map dc_day quoted));
          cell = (\<lambda>d t. case filter (\<lambda>r. dc_day r = d \<and> dc_ticker r = t) quoted of [] \<Rightarrow> NaN | rs \<Rightarrow> dc_close (last rs));
          raw = map (\<lambda>d. map (cell d) tickers) days
      in zip days (tabulate (length tickers) (\<lambda>j m. forward_fill NaN (column_of j m)) raw))"

text \<open>The tickers of the portfolio that have a price, and the days on which one of them has.\<close>

definition selected_tickers :: "daily_close list \<Rightarrow> string list \<Rightarrow> string list" where
  "selected_tickers rows tickers = filter (\<lambda>t. t \<in> dc_ticker ` set (filter (\<lambda>r. dc_close r \<noteq> NaN) rows)) tickers"

definition close_matrix :: "daily_close list \<Rightarrow> string list \<Rightarrow> close_table" where
  "close_matrix rows tickers =
     filter (\<lambda>(d, row). list_ex (\<lambda>x. x \<noteq> NaN) row) (pivot_closes rows (selected_tickers rows tickers))"

section \<open>The curve\<close>

definition row_sum :: "pyfloat list \<Rightarrow> pyfloat" where
  "row_sum xs = foldl (+) 0 (dropna xs)"

definition row_mean :: "pyfloat list \<Rightarrow> pyfloat" where
  "row_mean xs = series_mean (dropna xs)"

definition daily_return_rows :: "nat \<Rightarrow> pyfloat list list \<Rightarrow> pyfloat list list" where
  "daily_return_rows width m =
     tabulate width (\<lambda>j m. map (\<lambda>x. if isfinite x then x else 0) (pct_change 1 (column_of j m))) m"

text \<open>\<open>weights.diff().abs().sum(axis=1)\<close>; what is missing does not count, so the sum is never missing and
  the \<open>fillna\<close> after it has nothing to fill.\<close>

definition turnover :: "nat \<Rightarrow> pyfloat list list \<Rightarrow> pyfloat list" where
  "turnover width weights =
     map2 (\<lambda>w p. let s = row_sum (map2 (\<lambda>x y. abs (x - y)) w p) in if s = NaN then row_sum (map abs w) else s)
       weights (shifted 1 (replicate width NaN) weights)"

record fast_point =
  fp_day :: int
  fp_reference :: pyfloat
  fp_value :: pyfloat
  fp_pnl :: pyfloat
  fp_turnover :: pyfloat

text \<open>What the engine computes for one day of the whole table.\<close>

record fast_day =
  fd_day :: int
  fd_closes :: "pyfloat list"
  fd_weights :: "pyfloat list"
  fd_gross :: pyfloat

definition fast_days :: "ewm_op \<Rightarrow> vector_adapter \<Rightarrow> string list \<Rightarrow> close_table \<Rightarrow> fast_day list" where
  "fast_days ewm adapter tickers table =
     (let m = map snd table; width = length tickers;
          weights = target_weights ewm adapter tickers m;
          lagged = shifted 1 (replicate width 0) weights;
          gross = map2 (\<lambda>w r. row_sum (map2 (*) w r)) lagged (daily_return_rows width m)
      in map (\<lambda>((d, c), w, g). \<lparr>fd_day = d, fd_closes = c, fd_weights = w, fd_gross = g\<rparr>)
           (zip table (zip weights gross)))"

text \<open>The requested window, with the turnover of the window alone.\<close>

definition fast_curve :: "pyfloat \<Rightarrow> pyfloat \<Rightarrow> nat \<Rightarrow> fast_day list \<Rightarrow> fast_point list" where
  "fast_curve slippage capital width days =
     (let turn = turnover width (map fd_weights days);
          strategy = fillna 0 (map2 (\<lambda>x t. fd_gross x - t * slippage) days turn);
          cum = cumprod 1 (map (\<lambda>r. 1 + r) strategy)
      in map (\<lambda>((x, t), c). \<lparr>fp_day = fd_day x, fp_reference = row_mean (fd_closes x), fp_value = c * capital,
                              fp_pnl = c - 1, fp_turnover = t\<rparr>)
           (zip (zip days turn) cum))"

text \<open>\<open>_run_fast_vectorized\<close>: an empty curve stands for each of its early returns, which leave no frame.\<close>

definition run_fast_vectorized ::
  "ewm_op \<Rightarrow> string \<Rightarrow> string list \<Rightarrow> daily_close list \<Rightarrow> int \<Rightarrow> int \<Rightarrow> pyfloat \<Rightarrow> pyfloat \<Rightarrow> fast_point list" where
  "run_fast_vectorized ewm name tickers historical start_day end_day slippage capital =
     (case adapter_for name of None \<Rightarrow> [] | Some adapter \<Rightarrow>
        let selected = selected_tickers historical tickers;
            days = fast_days ewm adapter selected (close_matrix historical tickers)
        in fast_curve slippage capital (length selected) (filter (\<lambda>x. start_day \<le> fd_day x \<and> fd_day x \<le> end_day) days))"

end
