(* ===== verification/Fast_Claims.thy ===== *)
theory Fast_Claims
  imports Fast_Mode "HOL-Library.Sublist"
begin

text \<open>
  What fast mode promises: a day of its curve is made from closes up to that day, positions are taken
  after the close that gives the signal, and the weights of a day are long only and never borrowed.
\<close>

section \<open>Nothing reads the future\<close>

lemma causal_column [causal_intros]: "causal f \<Longrightarrow> causal (\<lambda>m. column_of j (f m))"
  unfolding column_of_def by (rule causal_map)

lemma causal_map2 [causal_intros]: "causal f \<Longrightarrow> causal g \<Longrightarrow> causal (\<lambda>xs. map2 h (f xs) (g xs))"
  by (intro causal_intros)

lemma causal_held [causal_intros]: "causal f \<Longrightarrow> causal (\<lambda>xs. held_state (f xs))"
  unfolding held_state_def by (intro causal_intros)

lemma causal_strength:
  assumes "\<And>a n. causal (ewm a n)" "causal f"
  shows "causal (\<lambda>xs. vector_strength ewm period (f xs))"
  unfolding vector_strength_def Let_def by (intro causal_intros causal_compose [OF assms(1)] assms(2))

lemma causal_rsi: "(\<And>a n. causal (ewm a n)) \<Longrightarrow> causal f \<Longrightarrow> causal (\<lambda>xs. vector_rsi ewm period (f xs))"
  unfolding vector_rsi_def by (intro causal_strength causal_intros)

lemma causal_rmi: "(\<And>a n. causal (ewm a n)) \<Longrightarrow> causal f \<Longrightarrow> causal (\<lambda>xs. vector_rmi ewm period k (f xs))"
  unfolding vector_rmi_def by (intro causal_strength causal_intros)

lemma causal_momentum: "(\<And>a n. causal (ewm a n)) \<Longrightarrow> causal f \<Longrightarrow> causal (\<lambda>xs. momentum_column ewm (f xs))"
  unfolding momentum_column_def Let_def by (intro causal_intros causal_rsi causal_rmi)

lemma causal_vol: "causal f \<Longrightarrow> causal (\<lambda>xs. vol_momentum_column (f xs))"
  unfolding vol_momentum_column_def Let_def by (intro causal_intros)

lemma causal_zscore [causal_intros]: "causal f \<Longrightarrow> causal (\<lambda>xs. zscore_20 (f xs))"
  unfolding zscore_20_def by (intro causal_intros)

lemma causal_if [causal_intros]: "causal f \<Longrightarrow> causal g \<Longrightarrow> causal (\<lambda>x. if P then f x else g x)"
  by (cases P) simp_all

lemma causal_option [causal_intros]:
  "causal f \<Longrightarrow> (\<And>v. causal (g v)) \<Longrightarrow> causal (\<lambda>x. case z of None \<Rightarrow> f x | Some v \<Rightarrow> g v x)"
  by (cases z) simp_all

lemma causal_regime: "causal (regime_column vix j)"
  unfolding regime_column_def Let_def by (intro causal_intros)

lemma causal_trend [causal_intros]: "causal f \<Longrightarrow> causal (\<lambda>xs. trend_up (f xs))"
  unfolding trend_up_def by (intro causal_intros)

lemma causal_states:
  assumes "\<And>a n. causal (ewm a n)"
  shows "causal (adapter_states ewm adapter tickers)"
  unfolding adapter_states_def
  by (cases adapter; simp) (intro causal_intros causal_vol causal_momentum causal_regime assms)+


lemma causal_weights [causal_intros]:
  assumes "\<And>a n. causal (ewm a n)" "causal f"
  shows "causal (\<lambda>m. target_weights ewm adapter tickers (f m))"
proof -
  have "causal (target_weights ewm adapter tickers)"
    unfolding target_weights_def weights_of_states_def by (intro causal_intros causal_states assms(1))
  then show ?thesis using assms(2) by (rule causal_compose)
qed

lemma causal_returns [causal_intros]: "causal f \<Longrightarrow> causal (\<lambda>m. daily_return_rows width (f m))"
  unfolding daily_return_rows_def by (intro causal_intros)

lemma causal_turnover [causal_intros]: "causal f \<Longrightarrow> causal (\<lambda>m. turnover width (f m))"
  unfolding turnover_def by (intro causal_intros)

lemma causal_fast_days:
  assumes "\<And>a n. causal (ewm a n)"
  shows "causal (fast_days ewm adapter tickers)"
  unfolding fast_days_def Let_def by (intro causal_intros assms)

lemma causal_fast_curve: "causal (fast_curve slippage capital width)"
  unfolding fast_curve_def Let_def by (intro causal_intros)

lemma causal_prefix: "causal f \<Longrightarrow> prefix xs ys \<Longrightarrow> prefix (f xs) (f ys)"
  by (metis append_eq_conv_conj causal_take prefix_def take_is_prefix)


text \<open>The days inside a window of the first days of a table.\<close>

abbreviation in_window :: "int \<Rightarrow> int \<Rightarrow> fast_day list \<Rightarrow> fast_day list" where
  "in_window a b days \<equiv> filter (\<lambda>x. a \<le> fd_day x \<and> fd_day x \<le> b) days"

lemma shifted_nth: "i < length xs \<Longrightarrow> shifted (Suc 0) x0 xs ! i = (if i = 0 then x0 else xs ! (i - 1))"
  by (auto simp: shifted_def along_def histories_def)

lemma shifted_length [simp]: "length (shifted k x0 xs) = length xs"
  by (rule shifted.keeps_length)

lemma returns_length [simp]: "length (daily_return_rows w m) = length m"
  by (rule causal_length) (intro causal_intros)

lemma weights_length:
  assumes "\<And>a n. causal (ewm a n)"
  shows "length (target_weights ewm adapter tickers m) = length m"
  by (rule causal_length) (intro causal_intros assms)

lemma fast_day_nth:
  assumes "\<And>a n. causal (ewm a n)" "i < length table"
  shows "fast_days ewm adapter tickers table ! i =
    \<lparr>fd_day = fst (table ! i), fd_closes = snd (table ! i),
     fd_weights = target_weights ewm adapter tickers (map snd table) ! i,
     fd_gross = row_sum (map2 (*)
       (if i = 0 then replicate (length tickers) 0 else target_weights ewm adapter tickers (map snd table) ! (i - 1))
       (daily_return_rows (length tickers) (map snd table) ! i))\<rparr>"
  using assms(2) weights_length [OF assms(1)] by (simp add: fast_days_def Let_def shifted_nth case_prod_beta)

section \<open>Cutting the history\<close>

text \<open>The closes known at the end of a day.\<close>

definition known :: "int \<Rightarrow> daily_close list \<Rightarrow> daily_close list" where
  "known day rows = filter (\<lambda>r. dc_day r \<le> day) rows"

lemma sorted_filter_take:
  fixes f :: "'a \<Rightarrow> int"
  shows "sorted (map f xs) \<Longrightarrow> filter (\<lambda>x. f x \<le> a) xs = take (length (filter (\<lambda>x. f x \<le> a) xs)) xs"
proof (induction xs)
  case (Cons x xs)
  show ?case
  proof (cases "f x \<le> a")
    case False
    then have "filter (\<lambda>x. f x \<le> a) xs = []" using Cons.prems by (force simp: filter_empty_conv)
    then show ?thesis using False by simp
  qed (use Cons in simp)
qed simp

lemma length_tabulate [simp]: "length (tabulate w (\<lambda>j m. forward_fill NaN (column_of j m)) m) = length m"
  by (rule causal_length) (intro causal_intros)

lemma days_of_pivot: "map fst (pivot_closes rows ts) = sort (remdups (map dc_day (filter (\<lambda>r. dc_close r \<noteq> NaN) rows)))"
  by (simp add: pivot_closes_def Let_def)

lemma pivot_known: "pivot_closes (known day rows) ts = filter (\<lambda>(d, row). d \<le> day) (pivot_closes rows ts)"
proof -
  let ?q = "filter (\<lambda>r. dc_close r \<noteq> NaN) rows" and ?fill = "\<lambda>j m. forward_fill NaN (column_of j m)"
  let ?days = "sort (remdups (map dc_day ?q))" and ?n = "length (filter (\<lambda>d. d \<le> day) (sort (remdups (map dc_day ?q))))"
  let ?cell = "\<lambda>q d t. case filter (\<lambda>r. dc_day r = d \<and> dc_ticker r = t) q of [] \<Rightarrow> NaN | rs \<Rightarrow> dc_close (last rs)"
  let ?T = "tabulate (length ts) ?fill (map (\<lambda>d. map (?cell ?q d) ts) ?days)"
  have q: "filter (\<lambda>r. dc_close r \<noteq> NaN) (known day rows) = filter (\<lambda>r. dc_day r \<le> day) ?q"
    by (simp add: known_def conj_commute)
  have cut: "filter (\<lambda>d. d \<le> day) ?days = take ?n ?days"
    using sorted_filter_take [of "\<lambda>d. d" ?days day] by simp
  have days: "sort (remdups (map dc_day (filter (\<lambda>r. dc_day r \<le> day) ?q))) = take ?n ?days"
  proof -
    have "map dc_day (filter (\<lambda>r. dc_day r \<le> day) ?q) = filter (\<lambda>d. d \<le> day) (map dc_day ?q)"
      by (simp only: filter_map comp_def)
    then show ?thesis unfolding cut [symmetric] by (simp only: filter_sort remdups_filter)
  qed
  have cell: "?cell (filter (\<lambda>r. dc_day r \<le> day) ?q) d t = ?cell ?q d t" if "d \<le> day" for d t
  proof -
    have "filter (\<lambda>r. dc_day r = d \<and> dc_ticker r = t) (filter (\<lambda>r. dc_day r \<le> day) ?q) = filter (\<lambda>r. dc_day r = d \<and> dc_ticker r = t) ?q"
      unfolding filter_filter by (rule filter_cong) (use that in auto)
    then show ?thesis by (simp only:)
  qed
  have early: "\<forall>d\<in>set (take ?n ?days). d \<le> day" unfolding cut [symmetric] by simp
  have raw: "map (\<lambda>d. map (?cell (filter (\<lambda>r. dc_day r \<le> day) ?q) d) ts) (take ?n ?days) = take ?n (map (\<lambda>d. map (?cell ?q d) ts) ?days)"
    unfolding take_map by (rule map_cong [OF refl], rule map_cong [OF refl], rule cell) (use early in blast)
  have "pivot_closes (known day rows) ts = zip (take ?n ?days) (tabulate (length ts) ?fill (take ?n (map (\<lambda>d. map (?cell ?q d) ts) ?days)))"
    unfolding pivot_closes_def Let_def q days raw ..
  also have "\<dots> = take ?n (pivot_closes rows ts)"
    by (subst causal_take [where f = "tabulate (length ts) ?fill"]) (intro causal_intros, simp add: pivot_closes_def Let_def take_zip)
  also have "?n = length (filter (\<lambda>x. fst x \<le> day) (pivot_closes rows ts))"
    unfolding days_of_pivot [symmetric, of rows ts] by (simp add: filter_map comp_def)
  also have "take (length (filter (\<lambda>x. fst x \<le> day) (pivot_closes rows ts))) (pivot_closes rows ts) = filter (\<lambda>x. fst x \<le> day) (pivot_closes rows ts)"
    by (rule sorted_filter_take [symmetric]) (simp add: days_of_pivot)
  finally show ?thesis unfolding case_prod_unfold .
qed

lemma matrix_known:
  "selected_tickers (known day rows) tickers = selected_tickers rows tickers \<Longrightarrow>
   close_matrix (known day rows) tickers = filter (\<lambda>x. fst x \<le> day) (close_matrix rows tickers)"
  by (simp add: close_matrix_def pivot_known case_prod_unfold conj_commute)

lemma matrix_sorted: "sorted (map fst (close_matrix rows tickers))"
  unfolding close_matrix_def by (rule sorted_filter) (simp add: days_of_pivot)

lemma fast_days_days:
  "(\<And>a n. causal (ewm a n)) \<Longrightarrow> map fd_day (fast_days ewm adapter tickers table) = map fst table"
  using causal_length [OF causal_fast_days, of ewm adapter tickers table]
  by (intro nth_equalityI) (simp_all add: fast_day_nth)

lemma fast_curve_days: "map fp_day (fast_curve slippage capital width days) = map fd_day days"
proof -
  have "length (cumprod 1 xs) = length xs" for xs by (rule causal_length [OF causal_cumprod [OF causal_id]])
  moreover have "length (turnover width ws) = length ws" for ws by (rule causal_length [OF causal_turnover [OF causal_id]])
  ultimately show ?thesis
    by (intro nth_equalityI) (simp_all add: fast_curve_def Let_def fillna_def case_prod_beta)
qed

text \<open>A function of lists that does not look ahead and keeps the days, applied to the elements up to a day.\<close>

lemma causal_filter:
  fixes day_in :: "'a \<Rightarrow> int" and day_out :: "'b \<Rightarrow> int"
  assumes "causal f" "map day_out (f xs) = map day_in xs" "sorted (map day_in xs)"
  shows "f (filter (\<lambda>x. day_in x \<le> a) xs) = filter (\<lambda>y. day_out y \<le> a) (f xs)"
proof -
  have "length (filter (\<lambda>y. day_out y \<le> a) (f xs)) = length (filter (\<lambda>d. d \<le> a) (map day_out (f xs)))"
    by (simp add: filter_map comp_def)
  also have "\<dots> = length (filter (\<lambda>x. day_in x \<le> a) xs)" unfolding assms(2) by (simp add: filter_map comp_def)
  finally have n: "length (filter (\<lambda>y. day_out y \<le> a) (f xs)) = length (filter (\<lambda>x. day_in x \<le> a) xs)" .
  have "f (filter (\<lambda>x. day_in x \<le> a) xs) = f (take (length (filter (\<lambda>x. day_in x \<le> a) xs)) xs)"
    using sorted_filter_take [OF assms(3)] by metis
  also have "\<dots> = take (length (filter (\<lambda>y. day_out y \<le> a) (f xs))) (f xs)"
    unfolding n by (rule causal_take [OF assms(1)])
  also have "\<dots> = filter (\<lambda>y. day_out y \<le> a) (f xs)"
    by (rule sorted_filter_take [symmetric]) (simp add: assms(2,3))
  finally show ?thesis .
qed

text \<open>C24: a fast run that knew the closes up to a day only gives the same curve up to that day, for each of
  the four adapters and any moving average that reads the past, provided the columns are the same: every
  ticker that ever has a close has one by then. And the return of a day is earned by the weights of the day
  before, on that day's change of the closes. Without the condition on the columns the first half fails:
  see \<open>late_ticker_rotates\<close>.\<close>

theorem fast_no_lookahead:
  assumes "\<And>a n. causal (ewm a n)" "selected_tickers (known day historical) tickers = selected_tickers historical tickers"
  shows "run_fast_vectorized ewm name tickers (known day historical) start_day end_day slippage capital
      = filter (\<lambda>p. fp_day p \<le> day) (run_fast_vectorized ewm name tickers historical start_day end_day slippage capital)
    \<and> (case adapter_for name of None \<Rightarrow> run_fast_vectorized ewm name tickers historical start_day end_day slippage capital = []
       | Some adapter \<Rightarrow>
          let selected = selected_tickers historical tickers; table = close_matrix historical tickers;
              days = fast_days ewm adapter selected table
          in (i + 1 < length table \<longrightarrow> fd_gross (days ! (i + 1)) =
              row_sum (map2 (*) (fd_weights (days ! i)) (daily_return_rows (length selected) (map snd table) ! (i + 1)))))"
proof (cases "adapter_for name")
  case None
  then show ?thesis by (simp add: run_fast_vectorized_def)
next
  case (Some adapter)
  let ?T = "selected_tickers historical tickers" and ?m = "close_matrix historical tickers"
  let ?days = "fast_days ewm adapter ?T" and ?curve = "fast_curve slippage capital (length ?T)"
  have "?days (filter (\<lambda>x. fst x \<le> day) ?m) = filter (\<lambda>x. fd_day x \<le> day) (?days ?m)"
    by (rule causal_filter [OF causal_fast_days [OF assms(1)] fast_days_days [OF assms(1)] matrix_sorted])
  then have "in_window start_day end_day (?days (filter (\<lambda>x. fst x \<le> day) ?m))
      = filter (\<lambda>x. fd_day x \<le> day) (in_window start_day end_day (?days ?m))"
    by (simp add: conj_commute)
  moreover have "sorted (map fd_day (in_window start_day end_day (?days ?m)))"
    by (rule sorted_filter) (simp add: fast_days_days [OF assms(1)] matrix_sorted)
  then have "?curve (filter (\<lambda>x. fd_day x \<le> day) (in_window start_day end_day (?days ?m)))
      = filter (\<lambda>p. fp_day p \<le> day) (?curve (in_window start_day end_day (?days ?m)))"
    by (rule causal_filter [OF causal_fast_curve fast_curve_days])
  ultimately show ?thesis
    using Some by (simp add: run_fast_vectorized_def Let_def assms(2) matrix_known fast_day_nth [OF assms(1)])
qed

text \<open>The columns are chosen from the whole history. Where no ticker is a bond fund, the rotating strategy
  takes the last column for the refuge; a ticker whose first close lies in the future is a column already, so
  the weights of both tickers that are rising today depend on it.\<close>

lemma late_ticker_rotates:
  "rotate_row (risk_off_tickers [''A'', ''B'']) [True, True] = [1, 0]"
  "rotate_row (risk_off_tickers [''A'', ''B'', ''C'']) [True, True, False] = [1, 1, 0]"
  by code_simp+

section \<open>Weights\<close>

lemma row_sum_Fin: "row_sum (map Fin rs) = Fin (sum_list rs)"
proof -
  have "foldl (+) (Fin a) (map Fin rs) = Fin (a + sum_list rs)" for a by (induction rs arbitrary: a) (simp_all add: add.assoc)
  moreover have "dropna (map Fin rs) = map Fin rs" by (simp add: dropna_def filter_map comp_def)
  ultimately show ?thesis by (simp add: row_sum_def zero_Fin)
qed

lemma sum_active: "(\<Sum>a\<leftarrow>active. if a then c else 0) = real (count_true active) * c"
  by (induction active) (simp_all add: count_true_def algebra_simps)

lemma normalise_sums:
  obtains rs where "normalise_active_weights active = map Fin rs" "\<forall>r\<in>set rs. 0 \<le> r"
    "sum_list rs = (if True \<in> set active then 1 else 0)"
proof
  let ?n = "count_true active" and ?rs = "map (\<lambda>a. if count_true active = 0 then 0 else if a then 1 / real (count_true active) else 0) active"
  show "normalise_active_weights active = map Fin ?rs" by (auto simp: normalise_active_weights_def Let_def zero_Fin)
  show "\<forall>r\<in>set ?rs. 0 \<le> r" by auto
  have "?n = 0 \<longleftrightarrow> True \<notin> set active" by (auto simp: count_true_def filter_empty_conv)
  then show "sum_list ?rs = (if True \<in> set active then 1 else 0)" using sum_active [of "1 / real ?n" active] by (cases "?n = 0") simp_all
qed

text \<open>C25: on every day the weights of every adapter are numbers that are not negative and add up to one, or are
  all zero: fast mode never sells short and never invests more than the account.\<close>

theorem fast_weights_long_only:
  "list_all (\<lambda>row. list_all (\<lambda>w. isfinite w \<and> 0 \<le> realval w) row \<and> (row_sum row = 1 \<or> row_sum row = 0))
     (target_weights ewm adapter tickers m)"
proof -
  have "list_all (\<lambda>w. isfinite w \<and> 0 \<le> realval w) (normalise_active_weights active)
      \<and> (row_sum (normalise_active_weights active) = 1 \<or> row_sum (normalise_active_weights active) = 0)" for active
  proof -
    obtain rs where "normalise_active_weights active = map Fin rs" "\<forall>r\<in>set rs. 0 \<le> r"
        "sum_list rs = (if True \<in> set active then 1 else 0)" by (rule normalise_sums)
    then show ?thesis by (simp add: list_all_iff row_sum_Fin one_Fin zero_Fin)
  qed
  then show ?thesis by (simp add: target_weights_def weights_of_states_def list_all_iff)
qed

section \<open>What the curve leaves out\<close>

text \<open>The turnover of the first day in the window is zero whatever is bought on it: the sum over missing
  differences is zero, and the \<open>fillna\<close> that was to charge the entry has nothing to fill.\<close>

lemma entry_costs_nothing:
  assumes "fast_curve slippage capital width days = p # rest"
  shows "fp_turnover p = 0"
proof -
  let ?ws = "map fd_weights days"
  have ne: "days \<noteq> []" using assms by (auto simp: fast_curve_def Let_def)
  have len: "length (turnover width ?ws) = length days"
    using causal_length [OF causal_turnover [OF causal_id], of width ?ws] by simp
  have "map2 (\<lambda>x y. abs (x - y)) w (replicate k NaN) = replicate (min (length w) k) NaN" for w k
  proof (rule nth_equalityI)
    fix i assume "i < length (map2 (\<lambda>x y. abs (x - y)) w (replicate k NaN))"
    then show "map2 (\<lambda>x y. abs (x - y)) w (replicate k NaN) ! i = replicate (min (length w) k) NaN ! i"
      by (cases "w ! i") (simp_all add: minus_pyfloat_def)
  qed simp
  then have zero: "row_sum (map2 (\<lambda>x y. abs (x - y)) w (replicate k NaN)) = 0" for w k
    by (simp add: row_sum_def dropna_def)
  have "shifted 1 (replicate width NaN) ?ws ! 0 = replicate width NaN" using ne by (simp add: shifted_nth del: One_nat_def add: One_nat_def)
  then have "turnover width ?ws ! 0 = 0"
    using ne by (simp add: turnover_def zero) (simp add: zero_Fin)
  moreover have "fast_curve slippage capital width days ! 0 = p" using assms by simp
  then have "fp_turnover p = turnover width ?ws ! 0"
    using ne len causal_length [OF causal_cumprod [OF causal_id]] by (auto simp: fast_curve_def Let_def fillna_def)
  ultimately show ?thesis by simp
qed

text \<open>A bar of the last day that was asked for is never read: the query ends at that day's midnight UTC.\<close>

lemma last_day_not_fetched:
  assumes "\<And>t. ny_day t = b \<Longrightarrow> b * day_us < t"
  shows "\<forall>r\<in>set (fetch_fast_daily ny_day bars tickers a b). dc_day r \<noteq> b"
proof
  fix r assume "r \<in> set (fetch_fast_daily ny_day bars tickers a b)"
  then obtain g where g: "g \<in> (\<lambda>x. (bc_ticker x, ny_day (bc_at x))) ` {x \<in> set bars. bc_ticker x \<in> set tickers \<and> a * day_us \<le> bc_at x \<and> bc_at x \<le> b * day_us}"
      "r = (let x = last (sort_key bc_at (filter (\<lambda>x. (bc_ticker x, ny_day (bc_at x)) = g)
              (filter (\<lambda>b'. bc_ticker b' \<in> set tickers \<and> a * day_us \<le> bc_at b' \<and> bc_at b' \<le> b * day_us) bars)))
            in \<lparr>dc_day = ny_day (bc_at x), dc_at = bc_at x, dc_ticker = bc_ticker x, dc_close = bc_close x\<rparr>)"
    by (auto simp: fetch_fast_daily_def Let_def)
  let ?f = "filter (\<lambda>x. (bc_ticker x, ny_day (bc_at x)) = g)
      (filter (\<lambda>b'. bc_ticker b' \<in> set tickers \<and> a * day_us \<le> bc_at b' \<and> bc_at b' \<le> b * day_us) bars)"
  have "sort_key bc_at ?f \<noteq> []" using g(1) by (auto simp: filter_empty_conv simp flip: set_empty)
  from last_in_set [OF this] have "bc_at (last (sort_key bc_at ?f)) \<le> b * day_us" by simp
  then show "dc_day r \<noteq> b" using assms [of "bc_at (last (sort_key bc_at ?f))"] by (auto simp: g(2) Let_def)
qed

section \<open>An example\<close>

definition one_rally :: close_table where
  "one_rally = [(1, [Fin 100]), (2, [Fin 100]), (3, [Fin 100]), (4, [Fin 100]), (5, [Fin 100]), (6, [Fin 110]), (7, [Fin 121])]"

definition no_smoothing :: ewm_op where "no_smoothing = (\<lambda>_ _ xs. xs)"

lemma rolling_short:
  assumes "length xs < w"
  shows "rolling w g xs = replicate (length xs) NaN"
  by (rule nth_equalityI) (use assms in \<open>simp_all add: rolling_def along_def histories_def\<close>)

lemma rally_states:
  "adapter_states no_smoothing RegimeAdaptiveStrategy [''A''] (map snd one_rally) = [[0], [0], [0], [0], [0], [1], [1]]"
proof -
  have z: "zscore_20 (column_of 0 (map snd one_rally)) = replicate 7 NaN"
  proof -
    have len: "length (column_of 0 (map snd one_rally)) = 7" by (simp add: column_of_def one_rally_def)
    moreover have "length (pct_change 1 (column_of 0 (map snd one_rally))) = 7"
      using causal_length [OF causal_pct_change [OF causal_id]] len by metis
    ultimately show ?thesis
      by (simp add: zscore_20_def rolling_short) (simp add: column_of_def one_rally_def eval_nat_numeral minus_pyfloat_def)
  qed
  have "regime_column None 0 (map snd one_rally) = held_state (map (\<lambda>((h, mom), z).
      (h \<and> z < - 1 \<or> \<not> h \<and> Fin 0.002 < mom, h \<and> 1 < z \<or> \<not> h \<and> mom < - Fin 0.002))
      (zip (zip (map (\<lambda>_. False) one_rally) (pct_change 5 (column_of 0 (map snd one_rally)))) (replicate 7 NaN)))"
    using z by (simp add: regime_column_def column_of_def Let_def comp_def)
  also have "\<dots> = [0, 0, 0, 0, 0, 1, 1]" by code_simp
  finally have "regime_column None 0 (map snd one_rally) = [0, 0, 0, 0, 0, 1, 1]" .
  moreover have "ticker_position ''^VIX'' [''A''] = None" by code_simp
  ultimately show ?thesis by (simp add: adapter_states_def tabulate_def one_rally_def upt_rec)
qed

lemma rally_days:
  "fast_days no_smoothing RegimeAdaptiveStrategy [''A''] one_rally =
     map (\<lambda>((d, c), w, g). \<lparr>fd_day = d, fd_closes = c, fd_weights = w, fd_gross = g\<rparr>)
       (zip one_rally (zip [[0], [0], [0], [0], [0], [1], [1]] [0, 0, 0, 0, 0, 0, Fin (1 / 10)]))"
proof -
  have w: "target_weights no_smoothing RegimeAdaptiveStrategy [''A''] (map snd one_rally) = [[0], [0], [0], [0], [0], [1], [1]]"
    unfolding target_weights_def rally_states by code_simp
  have g: "map2 (\<lambda>w r. row_sum (map2 (*) w r)) (shifted 1 (replicate (length [''A'']) 0) [[0], [0], [0], [0], [0], [1], [1]])
      (daily_return_rows (length [''A'']) (map snd one_rally)) = [0, 0, 0, 0, 0, 0, Fin (1 / 10)]"
    by code_simp
  show ?thesis unfolding fast_days_def Let_def w g ..
qed

definition rally_rows :: "daily_close list" where
  "rally_rows = map (\<lambda>(d, row). \<lparr>dc_day = d, dc_at = d, dc_ticker = ''A'', dc_close = hd row\<rparr>) one_rally"

definition rally_run :: "daily_close list \<Rightarrow> fast_point list" where
  "rally_run rows = run_fast_vectorized no_smoothing ''RegimeAdaptiveStrategy'' [''A''] rows 2 9 (Fin (1 / 100)) (Fin 1000)"

lemma rally_run_days: "rally_run rally_rows = fast_curve (Fin (1 / 100)) (Fin 1000) 1
   (in_window 2 9 (fast_days no_smoothing RegimeAdaptiveStrategy [''A''] one_rally))"
proof -
  have "selected_tickers rally_rows [''A''] = [''A'']" "close_matrix rally_rows [''A''] = one_rally"
    "adapter_for ''RegimeAdaptiveStrategy'' = Some RegimeAdaptiveStrategy" by code_simp+
  then show ?thesis by (simp add: rally_run_def run_fast_vectorized_def)
qed

lemma fast_no_lookahead_witness:
  "map (\<lambda>p. (fp_day p, fp_value p, fp_turnover p)) (rally_run (known 6 rally_rows))
     = [(2, Fin 1000, 0), (3, Fin 1000, 0), (4, Fin 1000, 0), (5, Fin 1000, 0), (6, Fin 990, 1)]
   \<and> map (\<lambda>p. (fp_day p, fp_value p, fp_turnover p)) (rally_run rally_rows)
     = [(2, Fin 1000, 0), (3, Fin 1000, 0), (4, Fin 1000, 0), (5, Fin 1000, 0), (6, Fin 990, 1), (7, Fin 1089, 0)]"
proof -
  have ewm: "causal (no_smoothing a n)" for a n by (simp add: no_smoothing_def causal_def)
  have same: "selected_tickers (known 6 rally_rows) [''A''] = selected_tickers rally_rows [''A'']" by code_simp
  have whole: "rally_run rally_rows = map (\<lambda>(d, x, v, g, t). \<lparr>fp_day = d, fp_reference = x, fp_value = v, fp_pnl = g, fp_turnover = t\<rparr>)
     [(2, Fin 100, Fin 1000, Fin 0, 0), (3, Fin 100, Fin 1000, Fin 0, 0), (4, Fin 100, Fin 1000, Fin 0, 0),
      (5, Fin 100, Fin 1000, Fin 0, 0), (6, Fin 110, Fin 990, Fin (- (1 / 100)), 1), (7, Fin 121, Fin 1089, Fin (89 / 1000), 0)]"
    unfolding rally_run_days rally_days by code_simp
  moreover have "rally_run (known 6 rally_rows) = filter (\<lambda>p. fp_day p \<le> 6) (rally_run rally_rows)"
    unfolding rally_run_def by (rule fast_no_lookahead [where ewm = no_smoothing, OF ewm same, THEN conjunct1])
  ultimately show ?thesis by simp
qed

text \<open>The same position, entered on the first day of the window, is charged nothing.\<close>

lemma rally_entry_free:
  "map (\<lambda>p. (fp_day p, fp_value p)) (fast_curve (Fin (1 / 100)) (Fin 1000) 1
     (in_window 6 9 (fast_days no_smoothing RegimeAdaptiveStrategy [''A''] one_rally))) = [(6, Fin 1000), (7, Fin 1100)]"
  unfolding rally_days by code_simp

lemma sorted_fill: "sorted_wrt (\<lambda>x y. x \<noteq> NaN \<longrightarrow> y \<noteq> NaN) (forward_fill p xs) \<and> (p \<noteq> NaN \<longrightarrow> NaN \<notin> set (forward_fill p xs))"
  by (induction xs arbitrary: p) (auto simp: Let_def)

lemma fill_sorted: "sorted_wrt (\<lambda>x y. x \<noteq> NaN \<longrightarrow> y \<noteq> NaN) xs \<Longrightarrow> forward_fill NaN xs = xs"
proof -
  have keep: "NaN \<notin> set ys \<Longrightarrow> forward_fill p ys = ys" for p ys
    by (induction ys arbitrary: p) (auto simp: Let_def)
  show "sorted_wrt (\<lambda>x y. x \<noteq> NaN \<longrightarrow> y \<noteq> NaN) xs \<Longrightarrow> forward_fill NaN xs = xs"
    by (induction xs) (auto simp: Let_def keep)
qed

text \<open>What an adapter does to the table before it looks at it changes nothing: the engine has already sorted
  and filled it, and dropped the days without any close.\<close>

lemma adapter_preparation:
  "filter (\<lambda>(d, row). list_ex (\<lambda>x. x \<noteq> NaN) row) (close_matrix rows tickers) = close_matrix rows tickers"
  "j < length (selected_tickers rows tickers) \<Longrightarrow>
   forward_fill NaN (column_of j (map snd (close_matrix rows tickers))) = column_of j (map snd (close_matrix rows tickers))"
proof -
  show "filter (\<lambda>(d, row). list_ex (\<lambda>x. x \<noteq> NaN) row) (close_matrix rows tickers) = close_matrix rows tickers"
    by (simp add: close_matrix_def)
  assume j: "j < length (selected_tickers rows tickers)"
  have filled: "sorted_wrt (\<lambda>x y. snd x ! j \<noteq> NaN \<longrightarrow> snd y ! j \<noteq> NaN) (zip ds (tabulate w (\<lambda>j m. forward_fill NaN (column_of j m)) m))"
    if "length ds = length m" "j < w" for ds :: "int list" and w m
  proof -
    define T where "T = tabulate w (\<lambda>j m. forward_fill NaN (column_of j m)) m"
    have "column_of j T = forward_fill NaN (column_of j m)"
      unfolding T_def using that(2) causal_length [OF causal_fill [OF causal_column [OF causal_id]], of NaN j m]
      by (intro nth_equalityI) (simp_all add: column_of_def tabulate_def)
    then have "sorted_wrt (\<lambda>x y. x \<noteq> NaN \<longrightarrow> y \<noteq> NaN) (map (\<lambda>row. row ! j) T)"
      using sorted_fill [of NaN "column_of j m"] by (simp add: column_of_def [of j T])
    then have "sorted_wrt (\<lambda>x y. x ! j \<noteq> NaN \<longrightarrow> y ! j \<noteq> NaN) T" by (simp only: sorted_wrt_map)
    then have "sorted_wrt (\<lambda>x y. x ! j \<noteq> NaN \<longrightarrow> y ! j \<noteq> NaN) (tabulate w (\<lambda>j m. forward_fill NaN (column_of j m)) m)"
      by (simp only: T_def)
    then show ?thesis using that(1) by (simp add: sorted_wrt_iff_nth_less tabulate_def)
  qed
  have "sorted_wrt (\<lambda>x y. snd x ! j \<noteq> NaN \<longrightarrow> snd y ! j \<noteq> NaN) (close_matrix rows tickers)"
    unfolding close_matrix_def pivot_closes_def Let_def by (intro sorted_wrt_filter filled) (use j in simp_all)
  then show "forward_fill NaN (column_of j (map snd (close_matrix rows tickers))) = column_of j (map snd (close_matrix rows tickers))"
    by (intro fill_sorted) (simp add: column_of_def sorted_wrt_map)
qed
end
