(* ===== verification/Benchmark.thy ===== *)
theory Benchmark
  imports Prelude
begin

text \<open>
  The buy-and-hold benchmark of a run, \<open>engine/analytics/reporting.py\<close>: the weights it takes from a
  configuration and the account it values at each observed quote. The wall clock of the exchange is
  read by \<open>localize\<close>, which lists the instants that show a wall time: none in the hour that is
  skipped in spring, two in the hour that is repeated in autumn. Instants are microseconds.
\<close>

section \<open>Weights\<close>

text \<open>\<open>float(weight)\<close>, with the errors the caller translates.\<close>

definition weight_entry :: "(string \<Rightarrow> pyfloat option) \<Rightarrow> string \<times> pyval \<Rightarrow> py_exn + string \<times> pyfloat" where
  "weight_entry fparse e =
     (case py_float fparse (snd e) of
        Inl x \<Rightarrow> Inl (if x = TypeError \<or> x = ValueError then ValueError else x)
      | Inr w \<Rightarrow> Inr (fst e, w))"

definition checked_weights :: "(string \<Rightarrow> pyfloat option) \<Rightarrow> (string, pyval) dict \<Rightarrow> py_exn + (string, pyfloat) dict" where
  "checked_weights fparse raw =
     ebind (emap (weight_entry fparse) raw) (\<lambda>weights.
       if list_ex (\<lambda>(t, w). \<not> isfinite w \<or> w < 0) weights then Inl ValueError else Inr weights)"

definition benchmark_weights ::
  "(string \<Rightarrow> pyfloat option) \<Rightarrow> pyval \<Rightarrow> string list option \<Rightarrow> py_exn + (string, pyfloat) dict" where
  "benchmark_weights fparse portfolio_weights tickers =
     (let universe = (case (tickers, portfolio_weights) of
                        (None, VDict d) \<Rightarrow> map fst d
                      | _ \<Rightarrow> first_occurrences (case tickers of None \<Rightarrow> [] | Some ts \<Rightarrow> ts))
      in if universe = [] then Inr []
         else case portfolio_weights of
                VNone \<Rightarrow> Inr (map (\<lambda>t. (t, Fin (1 / real (length universe)))) universe)
              | VDict d \<Rightarrow> checked_weights fparse (map (\<lambda>t. (t, dict_or d t (VFloat 0))) universe)
              | VList ws \<Rightarrow> if length ws = length universe then checked_weights fparse (zip universe ws) else Inl ValueError
              | _ \<Rightarrow> Inl ValueError)"

section \<open>Timestamps\<close>

text \<open>A value of a timestamp column: a wall time without a zone, an instant, or \<open>NaT\<close>.\<close>

datatype stamp = Wall_Time int | Instant int | Not_A_Time

datatype bench_error = Bench_Raised py_exn | Unlocalizable

definition market_timestamp :: "(int \<Rightarrow> int list) \<Rightarrow> stamp \<Rightarrow> bench_error + int" where
  "market_timestamp localize s =
     (case s of
        Not_A_Time \<Rightarrow> Inl (Bench_Raised ValueError)
      | Instant t \<Rightarrow> Inr t
      | Wall_Time w \<Rightarrow> (case localize w of [t] \<Rightarrow> Inr t | _ \<Rightarrow> Inl Unlocalizable))"

text \<open>A column of dates: what cannot be placed becomes \<open>NaT\<close>. A column of objects is parsed one by
  one; there an impossible wall time is an error that the parser does not catch.\<close>

definition market_timestamps :: "(int \<Rightarrow> int list) \<Rightarrow> bool \<Rightarrow> stamp list \<Rightarrow> bench_error + int option list" where
  "market_timestamps localize dates stamps =
     (if dates then Inr (map (\<lambda>s. case market_timestamp localize s of Inr t \<Rightarrow> Some t | Inl _ \<Rightarrow> None) stamps)
      else emap (\<lambda>s. case market_timestamp localize s of
                       Inr t \<Rightarrow> Inr (Some t)
                     | Inl Unlocalizable \<Rightarrow> Inl Unlocalizable
                     | Inl (Bench_Raised _) \<Rightarrow> Inr None) stamps)"

section \<open>The account\<close>

record price_frame =
  pf_columns :: "string list"
  pf_dates :: bool
  pf_stamps :: "stamp list"
  pf_tickers :: "string list"
  pf_closes :: "pyfloat list"

record observation =
  ob_time :: int
  ob_ticker :: string
  ob_close :: real

definition valid_quote :: "string list \<Rightarrow> int option \<times> string \<times> pyfloat \<Rightarrow> bool" where
  "valid_quote tickers q \<longleftrightarrow> (case q of (t, k, c) \<Rightarrow> k \<in> set tickers \<and> t \<noteq> None \<and> isfinite c \<and> 0 < c)"

definition in_bounds :: "int option \<Rightarrow> int option \<Rightarrow> observation \<Rightarrow> bool" where
  "in_bounds start stop r \<longleftrightarrow>
     (case start of None \<Rightarrow> True | Some a \<Rightarrow> a \<le> ob_time r) \<and>
     (case stop of None \<Rightarrow> True | Some b \<Rightarrow> ob_time r \<le> b)"

definition observed_rows ::
  "string list \<Rightarrow> int option \<Rightarrow> int option \<Rightarrow> (int option \<times> string \<times> pyfloat) list \<Rightarrow> observation list" where
  "observed_rows tickers start stop quotes =
     keep_last (\<lambda>r. (ob_time r, ob_ticker r))
       (sort_key ob_time (filter (in_bounds start stop)
         (map (\<lambda>(t, k, c). \<lparr>ob_time = the t, ob_ticker = k, ob_close = realval c\<rparr>)
           (filter (valid_quote tickers) quotes))))"

text \<open>\<open>groupby("ticker")["close_price"].transform("first")\<close>.\<close>

definition first_price :: "observation list \<Rightarrow> string \<Rightarrow> real" where
  "first_price rows k = (case find (\<lambda>r. ob_ticker r = k) rows of Some r \<Rightarrow> ob_close r | None \<Rightarrow> 0)"

definition row_pnl :: "real \<Rightarrow> (string \<Rightarrow> real) \<Rightarrow> observation list \<Rightarrow> observation \<Rightarrow> real" where
  "row_pnl capital weight rows r =
     capital * weight (ob_ticker r) * (ob_close r / first_price rows (ob_ticker r) - 1)"

text \<open>\<open>groupby("ticker")["pnl"].diff().fillna(0.0)\<close>, beside the row's time.\<close>

fun pnl_changes :: "(observation \<Rightarrow> real) \<Rightarrow> (string \<Rightarrow> real option) \<Rightarrow> observation list \<Rightarrow> (int \<times> real) list" where
  "pnl_changes pnl prev [] = []"
| "pnl_changes pnl prev (r # rs) =
     (ob_time r, case prev (ob_ticker r) of None \<Rightarrow> 0 | Some p \<Rightarrow> pnl r - p) #
     pnl_changes pnl (prev(ob_ticker r \<mapsto> pnl r)) rs"

text \<open>\<open>groupby("timestamp")["change"].sum()\<close>, then \<open>cumsum()\<close>.\<close>

definition grouped_sums :: "(int \<times> real) list \<Rightarrow> (int \<times> real) list" where
  "grouped_sums xs = map (\<lambda>t. (t, \<Sum>x\<leftarrow>filter (\<lambda>x. fst x = t) xs. snd x)) (sort (remdups (map fst xs)))"

fun running_totals :: "real \<Rightarrow> (int \<times> real) list \<Rightarrow> (int \<times> real) list" where
  "running_totals acc [] = []"
| "running_totals acc ((t, c) # xs) = (t, acc + c) # running_totals (acc + c) xs"

record bench_point =
  bp_time :: int
  bp_value :: real
  bp_return :: real

record bench_metadata =
  bm_weights :: "(string, pyfloat) dict"
  bm_initial :: real
  bm_cash_weight :: real
  bm_first :: int
  bm_last :: int
  bm_entries :: "(string, int) dict"
  bm_last_prices :: "(string, int) dict"
  bm_missing :: "string list"
  bm_delayed :: "string list"
  bm_complete :: bool
  bm_rows :: nat
  bm_counts :: "(string, nat) dict"

definition tickers_of :: "observation list \<Rightarrow> string list" where
  "tickers_of rows = sort (remdups (map ob_ticker rows))"

definition weight_of :: "(string, pyfloat) dict \<Rightarrow> string \<Rightarrow> real" where
  "weight_of weights k = realval (dict_or weights k 0)"

definition benchmark_metadata :: "real \<Rightarrow> (string, pyfloat) dict \<Rightarrow> observation list \<Rightarrow> bench_metadata" where
  "benchmark_metadata capital weights rows =
     (let times = (\<lambda>k. map ob_time (filter (\<lambda>r. ob_ticker r = k) rows));
          keys = tickers_of rows; entries = map (\<lambda>k. (k, hd (times k))) keys;
          missing = filter (\<lambda>k. weight_of weights k \<noteq> 0 \<and> k \<notin> set keys) (map fst weights);
          delayed = map fst (filter (\<lambda>(k, t). weight_of weights k \<noteq> 0 \<and> t > ob_time (hd rows)) entries)
      in \<lparr>bm_weights = weights, bm_initial = capital,
          bm_cash_weight = 1 - (\<Sum>w\<leftarrow>map snd weights. realval w),
          bm_first = ob_time (hd rows), bm_last = ob_time (last rows),
          bm_entries = filter (\<lambda>(k, t). weight_of weights k \<noteq> 0) entries,
          bm_last_prices = map (\<lambda>k. (k, last (times k))) keys,
          bm_missing = missing, bm_delayed = delayed, bm_complete = (missing = [] \<and> delayed = []),
          bm_rows = length rows, bm_counts = map (\<lambda>k. (k, length (times k))) keys\<rparr>)"

definition bound_of :: "(int \<Rightarrow> int list) \<Rightarrow> stamp option \<Rightarrow> bench_error + int option" where
  "bound_of localize s = (case s of None \<Rightarrow> Inr None
     | Some x \<Rightarrow> (case market_timestamp localize x of Inl e \<Rightarrow> Inl e | Inr t \<Rightarrow> Inr (Some t)))"

definition bench_raising :: "py_exn + 'a \<Rightarrow> bench_error + 'a" where
  "bench_raising r = (case r of Inl e \<Rightarrow> Inl (Bench_Raised e) | Inr x \<Rightarrow> Inr x)"

definition buy_and_hold_points :: "real \<Rightarrow> (string, pyfloat) dict \<Rightarrow> observation list \<Rightarrow> bench_point list" where
  "buy_and_hold_points capital weights rows =
     map (\<lambda>(t, v). \<lparr>bp_time = t, bp_value = capital + v, bp_return = (capital + v) / capital - 1\<rparr>)
       (running_totals 0 (grouped_sums (pnl_changes (row_pnl capital (weight_of weights) rows) Map.empty rows)))"

text \<open>\<open>None\<close> is the empty frame, which carries no metadata.\<close>

definition buy_and_hold_benchmark ::
  "(string \<Rightarrow> pyfloat option) \<Rightarrow> (int \<Rightarrow> int list) \<Rightarrow> price_frame option \<Rightarrow> pyfloat \<Rightarrow> (string, pyval) dict
   \<Rightarrow> stamp option \<Rightarrow> stamp option \<Rightarrow> bench_error + (bench_point list \<times> bench_metadata) option" where
  "buy_and_hold_benchmark fparse localize data capital portfolio_weights start stop =
     (case data of None \<Rightarrow> Inr None | Some frame \<Rightarrow>
        if pf_stamps frame = [] then Inr None
        else if \<not> isfinite capital \<or> capital \<le> 0 then Inl (Bench_Raised ValueError)
        else ebind (bench_raising (benchmark_weights fparse (VDict portfolio_weights) (Some (map fst portfolio_weights)))) (\<lambda>weights.
        if \<not> {''timestamp'', ''ticker'', ''close_price''} \<subseteq> set (pf_columns frame) then Inl (Bench_Raised ValueError)
        else ebind (market_timestamps localize (pf_dates frame) (pf_stamps frame)) (\<lambda>times.
        ebind (bound_of localize start) (\<lambda>from.
        ebind (bound_of localize stop) (\<lambda>till.
          let rows = observed_rows (map fst weights) from till (zip times (zip (pf_tickers frame) (pf_closes frame)))
          in if rows = [] then Inr None
             else Inr (Some (buy_and_hold_points (realval capital) weights rows,
                             benchmark_metadata (realval capital) weights rows)))))))"

end
