(* ===== verification/Run_Single.thy ===== *)
theory Run_Single
  imports Runner Run_Metrics Benchmark Fast_Mode Report Bar_Interval Executor_Pairing
begin

text \<open>
  One run from request to result: \<open>engine/run_single.py\<close> and the set-up, the single-class run and the
  fast-mode stub of \<open>engine/core/backtest_engine.py\<close>. What the interpreter does when it imports the
  strategy's module, and what the strategy's constructor builds or raises, are part of the record
  \<open>strategy_class\<close> and of \<open>imported\<close>; the data source is \<open>market\<close>. The engine is strict, as
  \<open>run_single\<close> makes it. Dates are day numbers. The texts of messages are left out, and so are the
  provenance records of a finished run.
\<close>

section \<open>Errors and requests\<close>

datatype engine_error = Unsupported_Mode | Bad_Slippage | Bad_Commission | Fast_With_Commission | Fast_With_Gate
  | Bad_Bar_Size | Fast_With_Intraday | No_Vector_Adapter | Window_Too_Large | No_Daily_Records | Invalid_Performance
  | Unobserved_Day | No_Market_Data

datatype run_exn = Cancelled | Engine_Error engine_error | Python_Error py_exn | Bad_Local_Time | Config_Missing
  | Import_Failed | Load_Failed

record run_request =
  rn_class_path :: string
  rn_start :: int
  rn_end :: int
  rn_capital :: pyfloat
  rn_mode :: string
  rn_params :: "(string, pyval) dict"
  rn_slippage :: pyfloat
  rn_commission :: pyfloat
  rn_gate :: "sentiment_gate option"
  rn_cancel :: "nat \<Rightarrow> bool"

text \<open>A portfolio that its constructor has built: what the event loop reads of it, the bars its loader
  answers with, and the weights and tickers the benchmark is made of.\<close>

record 'u portfolio =
  po_env :: "'u run_env"
  po_initial :: "executor \<Rightarrow> 'u run_state"
  po_fetch :: "loop_exn + bar list"
  po_weights :: pyval
  po_tickers :: "string list"

record 'u strategy_class =
  sc_name :: string
  sc_config :: "(py_exn + (string, pyval) dict) option"
  sc_build :: "(string, pyval) dict \<Rightarrow> run_exn + 'u portfolio"

datatype 'u imported = Import_Raises | No_Such_Class | Not_A_Strategy | Imported "'u strategy_class"

text \<open>The source of bars: whether it is the remote provider, what fetching ahead then answers, the daily bars of
  the table, and the New York calendar.\<close>

record market =
  mk_fmp :: bool
  mk_prefetch :: "(string, pyval) dict \<Rightarrow> run_exn option"
  mk_daily :: "string list \<Rightarrow> int \<Rightarrow> int \<Rightarrow> run_exn + daily_close list"
  mk_years_back :: "int \<Rightarrow> int"
  mk_ny_day :: "int \<Rightarrow> int"
  mk_localize :: "int \<Rightarrow> int list"
  mk_ewm :: ewm_op

text \<open>The standard library's parsers, and \<open>str\<close> of a value.\<close>

record text_ops =
  tx_float :: "string \<Rightarrow> pyfloat option"
  tx_int :: "pyval \<Rightarrow> py_exn + int"
  tx_str :: "pyval \<Rightarrow> string"

section \<open>The strategy class\<close>

text \<open>\<open>partition(":")\<close>, or \<open>rpartition(".")\<close> when there is no colon.\<close>

definition split_class_path :: "string \<Rightarrow> py_exn + string \<times> string" where
  "split_class_path class_path =
     (let path = strip class_path;
          (module_name, class_name) =
            (if CHR '':'' \<in> set path
             then (takeWhile (\<lambda>c. c \<noteq> CHR '':'') path, tl (dropWhile (\<lambda>c. c \<noteq> CHR '':'') path))
             else if CHR ''.'' \<in> set path
             then (rev (tl (dropWhile (\<lambda>c. c \<noteq> CHR ''.'') (rev path))), rev (takeWhile (\<lambda>c. c \<noteq> CHR ''.'') (rev path)))
             else ([], path))
      in if path = [] \<or> module_name = [] \<or> class_name = [] then Inl ValueError else Inr (module_name, class_name))"

definition load_strategy_class ::
  "(string \<Rightarrow> string \<Rightarrow> 'u imported) \<Rightarrow> string \<Rightarrow> run_exn + 'u strategy_class" where
  "load_strategy_class importer class_path =
     (case split_class_path class_path of
        Inl e \<Rightarrow> Inl (Python_Error e)
      | Inr (m, c) \<Rightarrow>
          (case importer m c of
             Import_Raises \<Rightarrow> Inl Import_Failed
           | No_Such_Class \<Rightarrow> Inl (Python_Error ValueError)
           | Not_A_Strategy \<Rightarrow> Inl (Python_Error TypeError)
           | Imported s \<Rightarrow> Inr s))"

definition strategy_config :: "'u strategy_class \<Rightarrow> (string, pyval) dict \<Rightarrow> (string, pyval) dict" where
  "strategy_config s params =
     dict_merge (case sc_config s of Some (Inr config) \<Rightarrow> config | _ \<Rightarrow> []) params"

section \<open>Refusals before anything is loaded\<close>

definition python :: "py_exn + 'a \<Rightarrow> run_exn + 'a" where
  "python r = (case r of Inl e \<Rightarrow> Inl (Python_Error e) | Inr x \<Rightarrow> Inr x)"

definition refuse :: "engine_error \<Rightarrow> bool \<Rightarrow> run_exn + unit" where
  "refuse e ok = guard_e (Engine_Error e) ok"

definition bar_seconds_of :: "(string, pyval) dict \<Rightarrow> pyval" where
  "bar_seconds_of config = dict_or config ''BAR_INTERVAL_SECONDS'' (VInt daily_bar_seconds)"

definition reject_unsupported_bar_interval :: "(string, pyval) dict \<Rightarrow> string \<Rightarrow> run_exn + unit" where
  "reject_unsupported_bar_interval params mode =
     (case is_intraday (bar_seconds_of params) of
        Inl _ \<Rightarrow> Inl (Engine_Error Bad_Bar_Size)
      | Inr intraday \<Rightarrow> refuse Fast_With_Intraday (\<not> (intraday \<and> mode = ''fast'')))"

text \<open>\<open>len\<close> of a configured value.\<close>

definition py_len :: "pyval \<Rightarrow> py_exn + int" where
  "py_len v = (case v of VList xs \<Rightarrow> Inr (int (length xs)) | VStr s \<Rightarrow> Inr (int (length s))
                       | VDict d \<Rightarrow> Inr (int (length d)) | _ \<Rightarrow> Inl TypeError)"

definition reject_oversized_intraday_window ::
  "text_ops \<Rightarrow> 'u strategy_class \<Rightarrow> run_request \<Rightarrow> run_exn + unit" where
  "reject_oversized_intraday_window tx s request =
     (let config = strategy_config s (rn_params request); bars = bar_seconds_of config in
      ebind (python (is_intraday bars)) (\<lambda>intraday.
      if \<not> intraday then Inr ()
      else ebind (python (tx_int tx (dict_or config ''LOOKBACK_DAYS'' (VInt 30)))) (\<lambda>lookback.
           ebind (python (py_len (dict_or config ''TICKERS'' (VList [])))) (\<lambda>n.
           ebind (python (bar_minutes bars)) (\<lambda>minutes.
             refuse Window_Too_Large (check_intraday_size n (rn_start request - lookback) (rn_end request) minutes))))))"

definition fast_mode_supported :: "'u strategy_class \<Rightarrow> bool" where
  "fast_mode_supported s \<longleftrightarrow> adapter_for (sc_name s) \<noteq> None"

text \<open>The checks at the head of \<open>run_single\<close>, in their order.\<close>

definition check_request ::
  "text_ops \<Rightarrow> (string \<Rightarrow> string \<Rightarrow> 'u imported) \<Rightarrow> string \<Rightarrow> run_request \<Rightarrow> run_exn + 'u strategy_class" where
  "check_request tx importer mode request =
     ebind (refuse Unsupported_Mode (mode \<in> {''event'', ''fast''})) (\<lambda>_.
     ebind (refuse Bad_Slippage (isfinite (rn_slippage request) \<and> 0 \<le> rn_slippage request \<and> rn_slippage request < 1)) (\<lambda>_.
     ebind (refuse Bad_Commission (isfinite (rn_commission request) \<and> \<not> rn_commission request < 0)) (\<lambda>_.
     ebind (refuse Fast_With_Commission (\<not> (mode = ''fast'' \<and> \<not> feq (rn_commission request) 0))) (\<lambda>_.
     ebind (refuse Fast_With_Gate (\<not> (mode = ''fast'' \<and> rn_gate request \<noteq> None))) (\<lambda>_.
     ebind (reject_unsupported_bar_interval (rn_params request) mode) (\<lambda>_.
     ebind (load_strategy_class importer (rn_class_path request)) (\<lambda>s.
     ebind (reject_oversized_intraday_window tx s request) (\<lambda>_.
     ebind (refuse No_Vector_Adapter (mode = ''fast'' \<longrightarrow> fast_mode_supported s)) (\<lambda>_.
       Inr s)))))))))"


section \<open>The engine\<close>

text \<open>\<open>setup\<close> repeats three of the checks.\<close>

definition engine_setup :: "string \<Rightarrow> run_request \<Rightarrow> py_exn + unit" where
  "engine_setup mode request =
     ebind (guard_e ValueError (isfinite (rn_commission request) \<and> \<not> rn_commission request < 0)) (\<lambda>_.
     ebind (guard_e ValueError (\<not> (mode = ''fast'' \<and> \<not> feq (rn_commission request) 0))) (\<lambda>_.
       guard_e ValueError (\<not> (mode = ''fast'' \<and> rn_gate request \<noteq> None))))"

text \<open>The configuration file beside the class, with the request's parameters laid over it.\<close>

definition engine_config :: "'u strategy_class \<Rightarrow> (string, pyval) dict \<Rightarrow> run_exn + (string, pyval) dict" where
  "engine_config s params =
     (case sc_config s of
        None \<Rightarrow> Inl Config_Missing
      | Some (Inl e) \<Rightarrow> Inl (Python_Error e)
      | Some (Inr config) \<Rightarrow> Inr (dict_merge config params))"

text \<open>\<open>_build_fast_portfolio_stub\<close>: the tickers of a fast run, and the weights of its benchmark.\<close>

definition fast_stub :: "text_ops \<Rightarrow> (string, pyval) dict \<Rightarrow> py_exn + string list \<times> (string, pyfloat) dict" where
  "fast_stub tx config =
     (let raw_id = dict_or config ''PORTFOLIO_ID'' VNone;
          portfolio_id = (if raw_id = VNone then [] else strip (tx_str tx raw_id))
      in if portfolio_id = [] then Inl ValueError
         else case dict_or config ''TICKERS'' VNone of
                VList raw \<Rightarrow>
                  (let names = filter (\<lambda>t. t \<noteq> []) (map (\<lambda>t. strip (tx_str tx t)) raw) in
                   if raw = [] \<or> names = [] then Inl ValueError
                   else ebind (benchmark_weights (tx_float tx) (dict_or config ''WEIGHTS'' VNone) (Some names))
                          (\<lambda>weights. Inr (names, weights)))
              | _ \<Rightarrow> Inl ValueError)"

text \<open>What the engine leaves behind for \<open>run_single\<close>: performance, prices and weights; \<open>rd_day\<close> is the calendar
  day in the zone of its timestamps.\<close>

record run_data =
  rd_perf :: "(int \<times> pyfloat) list"
  rd_frame :: price_frame
  rd_weights :: "(string, pyfloat) dict"
  rd_start :: stamp
  rd_fills :: "fill list"
  rd_marks :: "(string, pyfloat) dict"
  rd_day :: "int \<Rightarrow> int"

definition frame_of :: "(int \<times> string \<times> pyfloat) list \<Rightarrow> price_frame" where
  "frame_of rows =
     \<lparr>pf_columns = [''timestamp'', ''ticker'', ''close_price''], pf_dates = True,
      pf_stamps = map (\<lambda>(t, k, c). Instant t) rows, pf_tickers = map (\<lambda>(t, k, c). k) rows, pf_closes = map (\<lambda>(t, k, c). c) rows\<rparr>"

text \<open>\<open>_fast_mode_perf\<close>: a day's value at the last quote observed on it.\<close>

definition fast_mode_perf :: "(int \<Rightarrow> int) \<Rightarrow> daily_close list \<Rightarrow> fast_point list \<Rightarrow> run_exn + (int \<times> pyfloat) list" where
  "fast_mode_perf ny_day prices points =
     emap (\<lambda>p. case filter (\<lambda>r. ny_day (dc_at r) = fp_day p) prices of
                 [] \<Rightarrow> Inl (Engine_Error Unobserved_Day)
               | rs \<Rightarrow> Inr (Max (set (map dc_at rs)), fp_value p)) points"

definition run_fast :: "text_ops \<Rightarrow> market \<Rightarrow> 'u strategy_class \<Rightarrow> run_request \<Rightarrow> run_exn + run_data" where
  "run_fast tx mk s request =
     ebind (engine_config s (rn_params request)) (\<lambda>config.
     ebind (python (fast_stub tx config)) (\<lambda>(names, weights).
     ebind (mk_daily mk names (mk_years_back mk (rn_start request)) (rn_end request)) (\<lambda>prices.
       let points = run_fast_vectorized (mk_ewm mk) (sc_name s) names prices (rn_start request) (rn_end request)
                      (rn_slippage request) (rn_capital request)
       in if points = [] then Inl (if prices = [] then Engine_Error No_Market_Data else Engine_Error No_Daily_Records)
          else ebind (fast_mode_perf (mk_ny_day mk) prices points) (\<lambda>perf.
            Inr \<lparr>rd_perf = perf, rd_frame = frame_of (map (\<lambda>r. (dc_at r, dc_ticker r, dc_close r)) prices),
                 rd_weights = weights, rd_start = Wall_Time (rn_start request * day_us), rd_fills = [], rd_marks = [],
                 rd_day = mk_ny_day mk\<rparr>))))"

definition loop_error :: "loop_exn \<Rightarrow> run_exn" where
  "loop_error x = (case x of RunCancelled \<Rightarrow> Cancelled | NoMarketData \<Rightarrow> Engine_Error No_Market_Data | Raised e \<Rightarrow> Python_Error e)"

definition perf_samples :: "perf_row list \<Rightarrow> (int \<times> pyfloat) list" where
  "perf_samples rows = map (\<lambda>r. (pr_time (pf_record r), pr_value (pf_record r))) rows"

definition samples_of :: "(int \<times> pyfloat) list \<Rightarrow> sample list" where
  "samples_of perf = map (\<lambda>(t, v). \<lparr>sm_at = Some t, sm_value = v\<rparr>) perf"

text \<open>The event mode, from construction to the report. The loop polls for cancellation after two polls of its
  callers. A table of figures that cannot be made ends the report, and with it the run. Beside the outcome, the
  progress reported on the way, each percentage with its stage.\<close>

type_synonym progress_report = "int \<times> string"

definition event_result :: "text_ops \<Rightarrow> 'u portfolio \<Rightarrow> int \<Rightarrow> (perf_row list \<times> 'u run_state) option \<Rightarrow> run_exn + run_data" where
  "event_result tx p midnight res =
     (case res of
        None \<Rightarrow>
          ebind (python (benchmark_weights (tx_float tx) (po_weights p) (Some (po_tickers p)))) (\<lambda>_.
            Inl (Engine_Error No_Market_Data))
      | Some (rows, st) \<Rightarrow>
          ebind (python (aggregate_final_metrics utc_day (samples_of (perf_samples rows)))) (\<lambda>_.
          ebind (python (benchmark_weights (tx_float tx) (po_weights p) (Some (po_tickers p)))) (\<lambda>weights.
            Inr \<lparr>rd_perf = perf_samples rows,
                 rd_frame = frame_of (case po_fetch p of Inr bars \<Rightarrow> map (\<lambda>b. (bar_time b, bar_ticker b, close_of b)) (sort_key bar_time bars) | Inl _ \<Rightarrow> []),
                 rd_weights = weights, rd_start = Instant midnight, rd_fills = trade_log (rs_executor st),
                 rd_marks = rs_final_prices st, rd_day = utc_day\<rparr>)))"

definition run_event ::
  "text_ops \<Rightarrow> market \<Rightarrow> 'u strategy_class \<Rightarrow> run_request \<Rightarrow> progress_report list \<times> (run_exn + run_data)" where
  "run_event tx mk s request =
     (case engine_config s (rn_params request) of Inl e \<Rightarrow> ([], Inl e) | Inr config \<Rightarrow>
        let loading = (if mk_fmp mk then [(0, ''loading FMP data'')] else []) in
        (case (if mk_fmp mk then mk_prefetch mk config else None) of Some e \<Rightarrow> (loading, Inl e) | None \<Rightarrow>
           (case sc_build s config of Inl e \<Rightarrow> (loading, Inl e) | Inr p \<Rightarrow>
              let midnight = hd (mk_localize mk (rn_start request * day_us));
                  env = (po_env p)\<lparr>re_start := midnight, re_strict := True, re_cancel := (\<lambda>k. rn_cancel request (k + 1))\<rparr>;
                  made = make_executor (rn_capital request) (po_tickers p) (Fin 2) (rn_slippage request) None [] []
                           (rn_commission request) (rn_gate request)
              in (loading @ run_progress env (rn_cancel request 1) (po_fetch p) made (po_initial p),
                  case run_backtest env (rn_cancel request 1) (po_fetch p) (rn_capital request) made (po_initial p) of
                    Inl x \<Rightarrow> Inl (loop_error x)
                  | Inr res \<Rightarrow> event_result tx p midnight res))))"

definition engine_run ::
  "text_ops \<Rightarrow> market \<Rightarrow> string \<Rightarrow> 'u strategy_class \<Rightarrow> run_request \<Rightarrow> progress_report list \<times> (run_exn + run_data)" where
  "engine_run tx mk mode s request =
     (if rn_cancel request 0 then ([], Inl Cancelled)
      else if mode = ''fast'' then ([], run_fast tx mk s request) else run_event tx mk s request)"

section \<open>The result\<close>

text \<open>\<open>_equity_curve\<close>: each sample with the benchmark's last mark at or before it, labelled by its New York
  date, after a baseline on the first date.\<close>

definition mark_asof :: "(int \<times> real) list \<Rightarrow> int \<Rightarrow> real option" where
  "mark_asof marks t = (case filter (\<lambda>m. fst m \<le> t) marks of [] \<Rightarrow> None | ms \<Rightarrow> Some (snd (last ms)))"

definition equity_curve ::
  "(int \<Rightarrow> int) \<Rightarrow> (int \<times> pyfloat) list \<Rightarrow> (int \<times> real) list \<Rightarrow> real \<Rightarrow> run_exn + equity_point list" where
  "equity_curve ny_day perf marks capital =
     (if perf = [] then Inr []
      else if \<not> list_all (\<lambda>(t, v). isfinite v) perf then Inl (Engine_Error Invalid_Performance)
      else let quotes = keep_last fst (sort_key fst marks);
               points = map (\<lambda>(t, v). \<lparr>ep_date = ny_day t, ep_equity = v, ep_benchmark = map_option Fin (mark_asof quotes t)\<rparr>)
                          (sort_key fst perf)
           in Inr (\<lparr>ep_date = ep_date (hd points), ep_equity = Fin capital,
                    ep_benchmark = (if ep_benchmark (hd points) = None then None else Some (Fin capital))\<rparr> # points))"

record run_result =
  rz_status :: string
  rz_error :: "run_exn option"
  rz_metrics :: "metrics_dict option"
  rz_curve :: "equity_point list"
  rz_fills :: "fill list"
  rz_final :: "pyfloat option"
  rz_marks :: "(string, pyfloat) dict"

definition bench_exn :: "bench_error \<Rightarrow> run_exn" where
  "bench_exn e = (case e of Bench_Raised x \<Rightarrow> Python_Error x | Unlocalizable \<Rightarrow> Bad_Local_Time)"

text \<open>After the engine: the benchmark, the curve and the figures. In event mode the report has already made the
  benchmark from the same arguments; an empty one leaves the curve without marks.\<close>

definition finish_run :: "text_ops \<Rightarrow> market \<Rightarrow> run_request \<Rightarrow> run_data \<Rightarrow> run_exn + run_result" where
  "finish_run tx mk request d =
     (if rd_perf d = [] then Inl (Engine_Error No_Market_Data)
      else case buy_and_hold_benchmark (tx_float tx) (mk_localize mk) (Some (rd_frame d)) (rn_capital request)
                  (map (\<lambda>(k, w). (k, VFloat w)) (rd_weights d)) (Some (rd_start d))
                  (Some (Instant (Max (set (map fst (rd_perf d)))))) of
             Inl e \<Rightarrow> Inl (bench_exn e)
           | Inr bench \<Rightarrow>
               (let marks = (case bench of None \<Rightarrow> [] | Some (points, _) \<Rightarrow> map (\<lambda>p. (bp_time p, bp_value p)) points) in
                ebind (equity_curve (mk_ny_day mk) (rd_perf d) marks (realval (rn_capital request))) (\<lambda>curve.
                ebind (python (compute_metrics_dict (rd_day d) (samples_of (rd_perf d)) (rn_capital request))) (\<lambda>metrics.
                  Inr \<lparr>rz_status = ''completed'', rz_error = None, rz_metrics = Some metrics, rz_curve = curve,
                       rz_fills = rd_fills d, rz_final = Some (ep_equity (last curve)), rz_marks = rd_marks d\<rparr>))))"

definition ended :: "run_exn \<Rightarrow> run_result" where
  "ended e =
     \<lparr>rz_status = (if e = Cancelled then ''cancelled'' else ''failed''), rz_error = Some e, rz_metrics = None,
      rz_curve = [], rz_fills = [], rz_final = None, rz_marks = []\<rparr>"

text \<open>What \<open>run_single\<close> does outside itself: it opens and closes the adapter and reports progress, its own and
  that of the engine and the event loop.\<close>

datatype run_effect = Adapter_Opened | Progress_Reported int string | Adapter_Closed

definition with_adapter :: "progress_report list \<Rightarrow> run_effect list" where
  "with_adapter reports = Adapter_Opened # map (\<lambda>(pct, stage). Progress_Reported pct stage) reports @ [Adapter_Closed]"

definition run_mode :: "run_request \<Rightarrow> string" where
  "run_mode request = strip (lower (if rn_mode request = [] then ''event'' else rn_mode request))"

definition run_single ::
  "text_ops \<Rightarrow> (string \<Rightarrow> string \<Rightarrow> 'u imported) \<Rightarrow> market \<Rightarrow> (run_exn + unit) \<Rightarrow> run_request \<Rightarrow> run_effect list \<times> run_result" where
  "run_single tx importer mk adapter request =
     (let mode = run_mode request in
      case check_request tx importer mode request of
        Inl e \<Rightarrow> ([], ended e)
      | Inr s \<Rightarrow>
          (case adapter of
             Inl e \<Rightarrow> ([], ended e)
           | Inr _ \<Rightarrow>
               (case python (engine_setup mode request) of
                  Inl e \<Rightarrow> (with_adapter [], ended e)
                | Inr _ \<Rightarrow>
                    (let (reports, outcome) = engine_run tx mk mode s request;
                         sofar = (0, ''starting'') # reports
                     in case ebind outcome (finish_run tx mk request) of
                          Inl e \<Rightarrow> (with_adapter sofar, ended e)
                        | Inr r \<Rightarrow> (with_adapter (sofar @ [(100, ''completed'')]), r)))))"

end
