(* ===== verification/Benchmark_Claims.thy ===== *)
theory Benchmark_Claims
  imports Benchmark
begin

text \<open>
  What the benchmark promises: at every quote its value is the account that bought each ticker once, at
  its first quote, with its share of the capital, and has held those shares since.
\<close>

section \<open>Running sums of groups\<close>

lemma running_totals_times: "map fst (running_totals acc xs) = map fst xs"
  by (induction acc xs rule: running_totals.induct) simp_all

lemma running_totals_value:
  "sorted_wrt (<) (map fst xs) \<Longrightarrow> (t, v) \<in> set (running_totals acc xs) \<Longrightarrow>
   v = acc + (\<Sum>x\<leftarrow>filter (\<lambda>x. fst x \<le> t) xs. snd x)"
proof (induction acc xs rule: running_totals.induct)
  case (2 acc s c xs)
  show ?case
  proof (cases "(t, v) = (s, acc + c)")
    case True
    then have "filter (\<lambda>x. fst x \<le> t) xs = []" using 2 by (fastforce simp: filter_empty_conv)
    then show ?thesis using True by simp
  next
    case False
    then have m: "(t, v) \<in> set (running_totals (acc + c) xs)" using "2.prems"(2) by auto
    then have "t \<in> set (map fst xs)" using running_totals_times [of "acc + c" xs] by (metis fst_conv image_eqI list.set_map)
    then have "s \<le> t" using 2 by auto
    then show ?thesis using 2(1) [OF _ m] "2.prems"(1) by simp
  qed
qed simp

lemma grouped_sums_sorted: "sorted_wrt (<) (map fst (grouped_sums xs))"
  by (simp add: grouped_sums_def comp_def strict_sorted_iff)

lemma grouped_sums_upto:
  "(\<Sum>g\<leftarrow>filter (\<lambda>g. fst g \<le> t) (grouped_sums xs). snd g) = (\<Sum>x\<leftarrow>filter (\<lambda>x. fst x \<le> t) xs. snd x)"
proof -
  let ?ts = "filter (\<lambda>s. s \<le> t) (sort (remdups (map fst xs)))"
  have "(\<Sum>x\<leftarrow>filter (\<lambda>x. fst x \<le> t) xs. snd x) =
      (\<Sum>s\<leftarrow>?ts. \<Sum>x\<leftarrow>filter (\<lambda>x. fst x = s) (filter (\<lambda>x. fst x \<le> t) xs). snd x)"
    by (rule sum_list_group) (auto simp: list_all_iff)
  also have "\<dots> = (\<Sum>s\<leftarrow>?ts. \<Sum>x\<leftarrow>filter (\<lambda>x. fst x = s) xs. snd x)"
    by (intro arg_cong [where f = sum_list] map_cong refl, simp, intro arg_cong [where f = "\<lambda>ys. sum_list (map snd ys)"] filter_cong refl) auto
  finally show ?thesis by (simp add: grouped_sums_def filter_map comp_def)
qed

section \<open>Profit and loss telescopes\<close>

definition marked :: "(observation \<Rightarrow> real) \<Rightarrow> (string \<Rightarrow> real option) \<Rightarrow> observation list \<Rightarrow> string \<Rightarrow> real option" where
  "marked pnl prev rows = foldl (\<lambda>m r. m(ob_ticker r \<mapsto> pnl r)) prev rows"

definition or_zero :: "real option \<Rightarrow> real" where
  "or_zero x = (case x of None \<Rightarrow> 0 | Some v \<Rightarrow> v)"

lemma changes_telescope:
  assumes "finite K"
  shows "ob_ticker ` set rows \<subseteq> K \<Longrightarrow>
    (\<forall>a r b. rows = a @ r # b \<longrightarrow> prev (ob_ticker r) = None \<longrightarrow> ob_ticker r \<notin> ob_ticker ` set a \<longrightarrow> pnl r = 0) \<Longrightarrow>
    (\<Sum>x\<leftarrow>pnl_changes pnl prev rows. snd x) =
    (\<Sum>k\<in>K. or_zero (marked pnl prev rows k)) - (\<Sum>k\<in>K. or_zero (prev k))"
proof (induction rows arbitrary: prev)
  case Nil
  show ?case by (simp add: marked_def)
next
  case (Cons r rs)
  let ?p = "prev(ob_ticker r \<mapsto> pnl r)"
  have first: "prev (ob_ticker r) = None \<Longrightarrow> pnl r = 0" using Cons.prems(2) [rule_format, of "[]" r rs] by simp
  have later: "\<forall>a x b. rs = a @ x # b \<longrightarrow> ?p (ob_ticker x) = None \<longrightarrow> ob_ticker x \<notin> ob_ticker ` set a \<longrightarrow> pnl x = 0"
  proof (intro allI impI)
    fix a x b assume "rs = a @ x # b" "?p (ob_ticker x) = None" "ob_ticker x \<notin> ob_ticker ` set a"
    then show "pnl x = 0" using Cons.prems(2) [rule_format, of "r # a" x b] by (auto split: if_splits)
  qed
  have IH: "(\<Sum>x\<leftarrow>pnl_changes pnl ?p rs. snd x) =
      (\<Sum>k\<in>K. or_zero (marked pnl ?p rs k)) - (\<Sum>k\<in>K. or_zero (?p k))"
    by (rule Cons.IH [OF _ later]) (use Cons.prems(1) in simp)
  have k: "ob_ticker r \<in> K" using Cons.prems(1) by simp
  have "(\<Sum>k\<in>K. or_zero (?p k)) = (\<Sum>k\<in>K. or_zero (prev k)) + (pnl r - or_zero (prev (ob_ticker r)))"
    by (simp add: sum.remove [OF assms k] or_zero_def)
  moreover have "marked pnl prev (r # rs) = marked pnl ?p rs" by (simp add: marked_def)
  moreover have "(\<Sum>x\<leftarrow>pnl_changes pnl prev (r # rs). snd x) =
      (pnl r - or_zero (prev (ob_ticker r))) + (\<Sum>x\<leftarrow>pnl_changes pnl ?p rs. snd x)"
    using first by (simp add: or_zero_def split: option.split)
  ultimately show ?case using IH by simp
qed

lemma pnl_changes_upto:
  "sorted (map ob_time rows) \<Longrightarrow>
   filter (\<lambda>x. fst x \<le> t) (pnl_changes pnl prev rows) = pnl_changes pnl prev (filter (\<lambda>r. ob_time r \<le> t) rows)"
proof (induction rows arbitrary: prev)
  case (Cons r rs)
  have rest: "filter (\<lambda>x. fst x \<le> t) (pnl_changes pnl p ys) = []" if "\<forall>y\<in>set ys. \<not> ob_time y \<le> t" for p and ys
    using that by (induction ys arbitrary: p) auto
  have none: "\<forall>y\<in>set rs. \<not> ob_time y \<le> t" if "\<not> ob_time r \<le> t"
    using that Cons.prems by fastforce
  show ?case
  proof (cases "ob_time r \<le> t")
    case True
    then show ?thesis using Cons by simp
  next
    case False
    then show ?thesis using rest [OF none] none by (simp add: filter_empty_conv)
  qed
qed simp

lemma marked_last:
  "marked pnl prev rows k =
    (case filter (\<lambda>r. ob_ticker r = k) rows of [] \<Rightarrow> prev k | rs \<Rightarrow> Some (pnl (last rs)))"
proof (induction rows rule: rev_induct)
  case (snoc r rows)
  have "marked pnl prev (rows @ [r]) k = (if ob_ticker r = k then Some (pnl r) else marked pnl prev rows k)"
    by (simp add: marked_def)
  then show ?case using snoc by (auto split: list.splits)
qed (simp add: marked_def)

section \<open>The account\<close>

text \<open>What a ticker's quotes up to \<open>t\<close> say: the first price and the latest.\<close>

definition quotes_upto :: "observation list \<Rightarrow> int \<Rightarrow> string \<Rightarrow> real list" where
  "quotes_upto rows t k = map ob_close (filter (\<lambda>r. ob_time r \<le> t \<and> ob_ticker r = k) rows)"

text \<open>Cash not yet spent, and the shares bought at each first price at their latest price.\<close>

definition fixed_shares_account :: "real \<Rightarrow> (string, pyfloat) dict \<Rightarrow> observation list \<Rightarrow> int \<Rightarrow> real" where
  "fixed_shares_account capital weights rows t =
     (let bought = filter (\<lambda>k. quotes_upto rows t k \<noteq> []) (map fst weights);
          shares = (\<lambda>k. capital * weight_of weights k / hd (quotes_upto rows t k))
      in (capital - (\<Sum>k\<leftarrow>bought. shares k * hd (quotes_upto rows t k))) +
         (\<Sum>k\<leftarrow>bought. shares k * last (quotes_upto rows t k)))"

lemma find_first: "find P rows = Some r \<longleftrightarrow> (\<exists>rs. filter P rows = r # rs)"
  by (induction rows) auto

lemma first_price_hd:
  assumes "sorted (map ob_time rows)" "quotes_upto rows t k \<noteq> []"
  shows "first_price rows k = hd (quotes_upto rows t k)"
  using assms
proof (induction rows)
  case (Cons r rs)
  show ?case
  proof (cases "ob_ticker r = k")
    case True
    have "ob_time r \<le> t" using Cons.prems True by (auto simp: quotes_upto_def filter_empty_conv split: if_splits)
    then show ?thesis using True by (simp add: first_price_def quotes_upto_def)
  next
    case False
    then show ?thesis using Cons by (simp add: first_price_def quotes_upto_def)
  qed
qed (simp add: quotes_upto_def)


lemma observed_sorted: "sorted (map ob_time (observed_rows tickers start stop quotes))"
proof -
  have sub: "sorted (map f (keep_last key xs))" if "sorted (map f xs)" for f :: "observation \<Rightarrow> int" and key :: "observation \<Rightarrow> int \<times> string" and xs
    using that keep_last_subset [of key] by (induction xs) auto
  show ?thesis unfolding observed_rows_def by (rule sub) simp
qed

lemma observed_valid:
  assumes "r \<in> set (observed_rows tickers start stop quotes)"
  shows "ob_ticker r \<in> set tickers" "0 < ob_close r" "in_bounds start stop r"
proof -
  have "r \<in> set (filter (in_bounds start stop)
         (map (\<lambda>(t, k, c). \<lparr>ob_time = the t, ob_ticker = k, ob_close = realval c\<rparr>) (filter (valid_quote tickers) quotes)))"
    using assms keep_last_subset by (fastforce simp: observed_rows_def)
  then show "ob_ticker r \<in> set tickers" "0 < ob_close r" "in_bounds start stop r"
    by (auto simp: valid_quote_def isfinite_iff zero_Fin)
qed

lemma account_is_marked:
  fixes weights :: "(string, pyfloat) dict"
  assumes rows: "sorted (map ob_time rows)" "\<And>r. r \<in> set rows \<Longrightarrow> ob_ticker r \<in> fst ` set weights \<and> 0 < ob_close r"
    and "distinct (map fst weights)"
  shows "capital + (\<Sum>x\<leftarrow>filter (\<lambda>x. fst x \<le> t) (pnl_changes (row_pnl capital (weight_of weights) rows) Map.empty rows). snd x)
    = fixed_shares_account capital weights rows t"
proof -
  let ?pnl = "row_pnl capital (weight_of weights) rows"
  let ?till = "filter (\<lambda>r. ob_time r \<le> t) rows"
  let ?q = "quotes_upto rows t" and ?w = "weight_of weights"
  let ?K = "set (map fst weights)"
  have zero: "?pnl r = 0" if "?till = a @ r # b" "ob_ticker r \<notin> ob_ticker ` set a" for a r b
  proof -
    have "r \<in> set rows" using that(1) by (metis filter_is_subset in_set_conv_decomp subsetD)
    then have pos: "0 < ob_close r" using rows(2) by blast
    have "filter (\<lambda>x. ob_ticker x = ob_ticker r) a = []" using that(2) by (simp add: filter_empty_conv) (metis imageI)
    then have q: "?q (ob_ticker r) = ob_close r # map ob_close (filter (\<lambda>x. ob_ticker x = ob_ticker r) b)"
      using arg_cong [OF that(1), of "\<lambda>xs. map ob_close (filter (\<lambda>x. ob_ticker x = ob_ticker r) xs)"]
      by (simp add: quotes_upto_def)
    then have "first_price rows (ob_ticker r) = ob_close r" using first_price_hd [OF rows(1), of t "ob_ticker r"] by simp
    then show ?thesis using pos by (simp add: row_pnl_def)
  qed
  have "(\<Sum>x\<leftarrow>pnl_changes ?pnl Map.empty ?till. snd x) =
      (\<Sum>k\<in>?K. or_zero (marked ?pnl Map.empty ?till k)) - (\<Sum>k\<in>?K. or_zero (Map.empty k))"
    by (rule changes_telescope) (use rows(2) zero in auto)
  also have "\<dots> = (\<Sum>k\<in>?K. if ?q k = [] then 0 else capital * ?w k * (last (?q k) / hd (?q k) - 1))"
  proof -
    have "or_zero (marked ?pnl Map.empty ?till k) = (if ?q k = [] then 0 else capital * ?w k * (last (?q k) / hd (?q k) - 1))" for k
    proof (cases "?q k = []")
      case True
      then have "filter (\<lambda>r. ob_ticker r = k) ?till = []" by (simp add: quotes_upto_def)
      then show ?thesis using True by (simp add: marked_last or_zero_def)
    next
      case False
      let ?f = "filter (\<lambda>r. ob_ticker r = k) ?till"
      have f: "?f \<noteq> []" "?q k = map ob_close ?f" using False by (auto simp: quotes_upto_def)
      have "ob_ticker (last ?f) = k" using last_in_set [OF f(1)] by simp
      moreover have "marked ?pnl Map.empty ?till k = Some (?pnl (last ?f))"
        using f(1) by (cases ?f) (simp_all add: marked_last)
      ultimately show ?thesis
        using False f first_price_hd [OF rows(1) False] by (simp add: or_zero_def row_pnl_def last_map)
    qed
    then show ?thesis by (simp add: or_zero_def)
  qed
  also have "\<dots> = (\<Sum>k\<leftarrow>filter (\<lambda>k. ?q k \<noteq> []) (map fst weights). capital * ?w k * (last (?q k) / hd (?q k) - 1))"
    using assms(3) by (simp add: sum_list_distinct_conv_sum_set sum.If_cases Int_def conj_commute Collect_conj_eq [symmetric])
  also have "\<dots> = (\<Sum>k\<leftarrow>filter (\<lambda>k. ?q k \<noteq> []) (map fst weights). capital * ?w k / hd (?q k) * last (?q k))
      - (\<Sum>k\<leftarrow>filter (\<lambda>k. ?q k \<noteq> []) (map fst weights). capital * ?w k / hd (?q k) * hd (?q k))"
  proof -
    have "capital * ?w k * (last (?q k) / hd (?q k) - 1) = capital * ?w k / hd (?q k) * last (?q k) - capital * ?w k / hd (?q k) * hd (?q k)"
      if "k \<in> set (filter (\<lambda>k. ?q k \<noteq> []) (map fst weights))" for k
    proof -
      have "\<forall>x\<in>set (?q k). 0 < x" using rows(2) by (auto simp: quotes_upto_def)
      then have "0 < hd (?q k)" using that by simp
      then show ?thesis by (simp add: algebra_simps)
    qed
    then show ?thesis unfolding sum_list_subtractf [symmetric] by (intro arg_cong [where f = sum_list] map_cong refl) blast
  qed
  finally show ?thesis unfolding pnl_changes_upto [OF rows(1)] fixed_shares_account_def Let_def by linarith
qed

section \<open>Weights\<close>

lemma first_occurrences_distinct [simp]: "distinct (first_occurrences xs)"
  by (simp add: first_occurrences_def)

lemma weight_entries: "emap (weight_entry fparse) raw = Inr ws \<Longrightarrow> map fst ws = map fst raw"
  by (induction raw arbitrary: ws) (auto simp: ebind_Inr_iff weight_entry_def split: sum.splits)

lemma checked_weights_sound:
  assumes "checked_weights fparse raw = Inr ws"
  shows "map fst ws = map fst raw" "\<And>k w. (k, w) \<in> set ws \<Longrightarrow> isfinite w \<and> 0 \<le> realval w"
proof -
  have ws: "emap (weight_entry fparse) raw = Inr ws" "\<not> list_ex (\<lambda>(t, w). \<not> isfinite w \<or> w < 0) ws"
    using assms by (auto simp: checked_weights_def ebind_Inr_iff split: if_splits)
  show "map fst ws = map fst raw" by (rule weight_entries [OF ws(1)])
  fix k w assume "(k, w) \<in> set ws"
  then show "isfinite w \<and> 0 \<le> realval w" using ws(2) by (cases w) (auto simp: list_ex_iff zero_Fin)
qed

lemma benchmark_weights_sound:
  assumes "benchmark_weights fparse pw (Some tickers) = Inr ws"
  shows "map fst ws = first_occurrences tickers" "\<And>k w. (k, w) \<in> set ws \<Longrightarrow> isfinite w \<and> 0 \<le> realval w"
proof -
  let ?u = "first_occurrences tickers"
  consider "?u = []" "ws = []" | "ws = map (\<lambda>t. (t, Fin (1 / real (length ?u)))) ?u"
    | raw where "checked_weights fparse raw = Inr ws" "map fst raw = ?u"
  proof (cases "?u = []")
    case True
    then show ?thesis using assms that(1) by (simp add: benchmark_weights_def)
  next
    case False
    then show ?thesis using assms that(2,3) by (cases pw) (auto simp: benchmark_weights_def comp_def Let_def split: if_splits)
  qed
  then have "map fst ws = ?u \<and> (\<forall>(k, w)\<in>set ws. isfinite w \<and> 0 \<le> realval w)"
  proof cases
    case (3 raw)
    then show ?thesis using checked_weights_sound [OF 3(1)] by auto
  qed (auto simp: comp_def)
  then show "map fst ws = ?u" "\<And>k w. (k, w) \<in> set ws \<Longrightarrow> isfinite w \<and> 0 \<le> realval w" by auto
qed

lemma sum_filter_le: "(\<And>x. x \<in> set xs \<Longrightarrow> 0 \<le> f x) \<Longrightarrow> (\<Sum>x\<leftarrow>filter P xs. f x) \<le> (\<Sum>x\<leftarrow>xs. f x :: real)"
  by (induction xs) (simp_all add: add_increasing)

lemma weight_of_listed: "distinct (map fst ws) \<Longrightarrow> (k, w) \<in> set ws \<Longrightarrow> weight_of ws k = realval w"
  by (simp add: weight_of_def dict_or_def)

lemma account_nonnegative:
  assumes rows: "\<And>r. r \<in> set rows \<Longrightarrow> 0 < ob_close r" and "0 < capital"
    and ws: "distinct (map fst ws)" "\<And>k w. (k, w) \<in> set ws \<Longrightarrow> isfinite w \<and> 0 \<le> realval w"
    and cash: "(\<Sum>w\<leftarrow>map snd ws. realval w) \<le> 1"
  shows "0 \<le> fixed_shares_account capital ws rows t"
proof -
  let ?b = "filter (\<lambda>k. quotes_upto rows t k \<noteq> []) (map fst ws)"
  let ?h = "\<lambda>k. hd (quotes_upto rows t k)" and ?l = "\<lambda>k. last (quotes_upto rows t k)"
  have w: "0 \<le> weight_of ws k" if "k \<in> set (map fst ws)" for k
    using that ws weight_of_listed [OF ws(1)] by fastforce
  have pos: "0 < ?h k" "0 < ?l k" if "k \<in> set ?b" for k
  proof -
    have "\<forall>x\<in>set (quotes_upto rows t k). 0 < x" using rows by (auto simp: quotes_upto_def)
    then show "0 < ?h k" "0 < ?l k" using that by simp_all
  qed
  have "(\<Sum>k\<leftarrow>?b. weight_of ws k) \<le> (\<Sum>k\<leftarrow>map fst ws. weight_of ws k)"
    by (rule sum_filter_le) (rule w)
  also have "\<dots> = (\<Sum>w\<leftarrow>map snd ws. realval w)"
    using weight_of_listed [OF ws(1)] by (simp add: comp_def) (intro arg_cong [where f = sum_list] map_cong refl, auto)
  finally have "capital * (\<Sum>k\<leftarrow>?b. weight_of ws k) \<le> capital" using cash assms(2) by simp
  moreover have "(\<Sum>k\<leftarrow>?b. capital * weight_of ws k / ?h k * ?h k) = (\<Sum>k\<leftarrow>?b. capital * weight_of ws k)"
    using pos by (intro arg_cong [where f = sum_list] map_cong refl) fastforce
  moreover have "0 \<le> (\<Sum>k\<leftarrow>?b. capital * weight_of ws k / ?h k * ?l k)"
  proof (rule sum_list_nonneg)
    fix x assume "x \<in> set (map (\<lambda>k. capital * weight_of ws k / ?h k * ?l k) ?b)"
    then obtain k where "k \<in> set ?b" "x = capital * weight_of ws k / ?h k * ?l k" by auto
    then show "0 \<le> x" using pos [of k] w [of k] assms(2) by simp
  qed
  ultimately show ?thesis by (simp add: fixed_shares_account_def Let_def sum_list_const_mult)
qed

section \<open>The property\<close>

text \<open>The rows a benchmark is made of, and what its points say of them.\<close>

definition benchmark_rows :: "int option \<Rightarrow> int option \<Rightarrow> (string, pyfloat) dict \<Rightarrow> observation list \<Rightarrow> bool" where
  "benchmark_rows from till weights rows \<longleftrightarrow>
     sorted (map ob_time rows) \<and> list_all (in_bounds from till) rows \<and> rows \<noteq> [] \<and> distinct (map fst weights) \<and>
     list_all (\<lambda>r. ob_ticker r \<in> fst ` set weights \<and> 0 < ob_close r) rows \<and>
     list_all (\<lambda>w. isfinite w \<and> 0 \<le> realval w) (map snd weights)"

lemma points_are_account:
  assumes "benchmark_rows from till weights rows"
  shows "set (map bp_time (buy_and_hold_points capital weights rows)) = ob_time ` set rows"
    "sorted_wrt (<) (map bp_time (buy_and_hold_points capital weights rows))"
    "p \<in> set (buy_and_hold_points capital weights rows) \<Longrightarrow> bp_value p = fixed_shares_account capital weights rows (bp_time p)"
    "p \<in> set (buy_and_hold_points capital weights rows) \<Longrightarrow> bp_return p = bp_value p / capital - 1"
proof -
  let ?c = "pnl_changes (row_pnl capital (weight_of weights) rows) Map.empty rows"
  let ?points = "buy_and_hold_points capital weights rows"
  have sorted: "sorted (map ob_time rows)" and dist: "distinct (map fst weights)"
    and valid: "\<And>r. r \<in> set rows \<Longrightarrow> ob_ticker r \<in> fst ` set weights \<and> 0 < ob_close r"
    using assms by (auto simp: benchmark_rows_def list_all_iff)
  have change_times: "map fst (pnl_changes f m xs) = map ob_time xs" for f m xs
    by (induction xs arbitrary: m) simp_all
  have times: "map bp_time ?points = map fst (grouped_sums ?c)"
    by (simp add: buy_and_hold_points_def comp_def case_prod_beta running_totals_times)
  show "set (map bp_time ?points) = ob_time ` set rows"
    unfolding times by (simp only: grouped_sums_def map_map comp_def fst_conv map_ident change_times set_sort set_remdups set_map)
  show "sorted_wrt (<) (map bp_time ?points)" unfolding times by (rule grouped_sums_sorted)
  assume "p \<in> set ?points"
  then obtain v where v: "(bp_time p, v) \<in> set (running_totals 0 (grouped_sums ?c))" "bp_value p = capital + v"
      "bp_return p = (capital + v) / capital - 1"
    by (auto simp: buy_and_hold_points_def)
  have "v = (\<Sum>x\<leftarrow>filter (\<lambda>x. fst x \<le> bp_time p) ?c. snd x)"
    using running_totals_value [OF grouped_sums_sorted v(1)] by (simp add: grouped_sums_upto)
  then show "bp_value p = fixed_shares_account capital weights rows (bp_time p)"
    using v(2) account_is_marked [OF sorted valid dist, of capital "bp_time p"] by simp
  show "bp_return p = bp_value p / capital - 1" using v by simp
qed

section \<open>What the quotes say\<close>

type_synonym quote = "int option \<times> string \<times> pyfloat"

definition frame_quotes :: "int option list \<Rightarrow> price_frame \<Rightarrow> quote list" where
  "frame_quotes moments frame = zip moments (zip (pf_tickers frame) (pf_closes frame))"

text \<open>The moments inside the bounds at which a ticker has a positive finite price, and that price: of several
  quotes of one moment the last one counts.\<close>

definition quote_times :: "int option \<Rightarrow> int option \<Rightarrow> quote list \<Rightarrow> string \<Rightarrow> int set" where
  "quote_times a b quotes k =
     set (map (\<lambda>(s, j, c). the s)
       (filter (\<lambda>(s, j, c). s \<noteq> None \<and> j = k \<and> isfinite c \<and> 0 < c \<and> pred_option (\<lambda>x. x \<le> the s) a \<and> pred_option (\<lambda>y. the s \<le> y) b) quotes))"

definition price_at :: "quote list \<Rightarrow> string \<Rightarrow> int \<Rightarrow> real" where
  "price_at quotes k t =
     last (map (\<lambda>(s, j, c). realval c) (filter (\<lambda>(s, j, c). s = Some t \<and> j = k \<and> isfinite c \<and> 0 < c) quotes))"

text \<open>The account that buys each ticker at its first price for its share of the capital and holds what it
  bought, at a moment: cash not yet spent, and the shares at their latest price.\<close>

definition held_value ::
  "real \<Rightarrow> (string, pyfloat) dict \<Rightarrow> int option \<Rightarrow> int option \<Rightarrow> quote list \<Rightarrow> int \<Rightarrow> real" where
  "held_value capital weights a b quotes t =
     (let times = quote_times a b quotes; price = price_at quotes;
          bought = filter (\<lambda>k. \<exists>s\<in>times k. s \<le> t) (map fst weights);
          shares = (\<lambda>k. capital * weight_of weights k / price k (Min (times k)))
      in (capital - (\<Sum>k\<leftarrow>bought. shares k * price k (Min (times k)))) +
         (\<Sum>k\<leftarrow>bought. shares k * price k (Max {s \<in> times k. s \<le> t})))"

lemma keep_last_is_last: "x \<in> set (keep_last key xs) \<Longrightarrow> x = last (filter (\<lambda>y. key y = key x) xs)"
proof (induction xs)
  case (Cons a xs)
  have later: "x = last (filter (\<lambda>y. key y = key x) (a # xs))" if "x \<in> set (keep_last key xs)"
  proof -
    have "x \<in> set (filter (\<lambda>y. key y = key x) xs)" using that keep_last_subset [of key xs] by auto
    then have "filter (\<lambda>y. key y = key x) xs \<noteq> []" by (metis empty_iff list.set(1))
    then show ?thesis using Cons.IH [OF that] by simp
  qed
  show ?case
  proof (cases "key a \<in> key ` set xs")
    case False
    then have none: "filter (\<lambda>y. key y = key a) xs = []" by (simp add: filter_empty_conv) (metis imageI)
    consider "x = a" | "x \<in> set (keep_last key xs)" using Cons.prems False by auto
    then show ?thesis
    proof cases
      case 1
      then show ?thesis using none by simp
    qed (rule later)
  qed (use Cons.prems later in simp)
qed simp

lemma sort_key_same: "\<forall>x\<in>set xs. f x = c \<Longrightarrow> sort_key f xs = xs"
proof (rule sort_key_id_if_sorted)
  show "\<forall>x\<in>set xs. f x = c \<Longrightarrow> sorted (map f xs)" by (induction xs) auto
qed

lemma keep_last_keys: "key ` set (keep_last key xs) = key ` set xs"
  by (induction xs) auto

lemma keyed: "t \<in> f ` set (filter (\<lambda>r. g r = k) xs) \<longleftrightarrow> (t, k) \<in> (\<lambda>r. (f r, g r)) ` set xs"
  by (induction xs) auto

text \<open>The observations of one ticker, in time order: one for each moment, at the price of that moment.\<close>

lemma observed_of_ticker:
  fixes tickers a b quotes k
  assumes "k \<in> set tickers"
  defines "rows \<equiv> filter (\<lambda>r. ob_ticker r = k) (observed_rows tickers a b quotes)"
  shows "sorted_wrt (<) (map ob_time rows)" "set (map ob_time rows) = quote_times a b quotes k"
    "\<And>r. r \<in> set rows \<Longrightarrow> ob_close r = price_at quotes k (ob_time r)"
proof -
  let ?key = "\<lambda>r. (ob_time r, ob_ticker r)" and ?mk = "\<lambda>(t, k, c). \<lparr>ob_time = the t, ob_ticker = k, ob_close = realval c\<rparr>"
  let ?obs = "filter (in_bounds a b) (map ?mk (filter (valid_quote tickers) quotes))"
  let ?all = "keep_last ?key (sort_key ob_time ?obs)"
  have rows: "rows = filter (\<lambda>r. ob_ticker r = k) ?all" by (simp add: rows_def observed_rows_def)
  have "sorted (map ob_time rows)"
    unfolding rows_def by (rule sorted_filter) (rule observed_sorted)
  moreover have "distinct (map ob_time rows)"
  proof -
    have "distinct (map ?key rows)" unfolding rows
      by (rule distinct_map_filter) (rule keep_last_distinct)
    then have d: "distinct rows" "inj_on ?key (set rows)" by (simp_all add: distinct_map)
    have "inj_on ob_time (set rows)"
    proof (rule inj_onI)
      fix x y assume xy: "x \<in> set rows" "y \<in> set rows" "ob_time x = ob_time y"
      have "ob_ticker x = k" "ob_ticker y = k" using xy(1,2) unfolding rows_def by simp_all
      then show "x = y" using inj_onD [OF d(2) _ xy(1,2)] xy(3) by simp
    qed
    then show ?thesis using d(1) by (simp add: distinct_map)
  qed
  ultimately show "sorted_wrt (<) (map ob_time rows)" by (simp add: strict_sorted_iff)
  have "(t, k) \<in> ?key ` set ?all \<longleftrightarrow> (t, k) \<in> ?key ` set ?obs" for t by (simp only: keep_last_keys set_sort)
  then have mine: "t \<in> ob_time ` set rows \<longleftrightarrow> (t, k) \<in> ?key ` set ?obs" for t
    unfolding rows keyed by simp
  have quoted: "(t, k) \<in> ?key ` set (filter (in_bounds a b) (map ?mk (filter (valid_quote tickers) qs)))
      \<longleftrightarrow> t \<in> quote_times a b qs k" for t qs
  proof (induction qs)
    case (Cons q qs)
    obtain s j c where q: "q = (s, j, c)" by (cases q)
    have "(t, k) \<in> ?key ` set (filter (in_bounds a b) (map ?mk (filter (valid_quote tickers) [q]))) \<longleftrightarrow> t \<in> quote_times a b [q] k"
      using assms(1) by (cases s; cases a; cases b) (auto simp: q quote_times_def valid_quote_def in_bounds_def)
    moreover have "quote_times a b (q # qs) k = quote_times a b [q] k \<union> quote_times a b qs k"
      by (auto simp: quote_times_def)
    moreover have "filter (in_bounds a b) (map ?mk (filter (valid_quote tickers) (q # qs))) =
        filter (in_bounds a b) (map ?mk (filter (valid_quote tickers) [q])) @ filter (in_bounds a b) (map ?mk (filter (valid_quote tickers) qs))"
      by simp
    ultimately show ?case using Cons.IH by (simp only: set_append image_Un Un_iff)
  qed (simp add: quote_times_def)
  show "set (map ob_time rows) = quote_times a b quotes k"
    by (rule set_eqI) (simp only: set_map mine quoted)
  fix r assume "r \<in> set rows"
  then have r: "r \<in> set ?all" "ob_ticker r = k" unfolding rows by auto
  have bounds: "in_bounds a b r"
    using r(1) keep_last_subset [of ?key "sort_key ob_time ?obs"] by auto
  let ?same = "\<lambda>y. ?key y = ?key r"
  have "filter ?same (sort_key ob_time ?obs) = sort_key ob_time (filter ?same ?obs)" by (rule filter_sort)
  also have "\<dots> = filter ?same ?obs"
    by (rule sort_key_same [where c = "ob_time r"]) simp
  finally have "r = last (filter ?same ?obs)" using keep_last_is_last [OF r(1)] by simp
  moreover have "r \<in> set (filter ?same ?obs)"
    using r(1) keep_last_subset [of ?key "sort_key ob_time ?obs"] by auto
  then have "filter ?same ?obs \<noteq> []" by (metis empty_iff list.set(1))
  ultimately have "ob_close r = last (map ob_close (filter ?same ?obs))" by (simp add: last_map)
  moreover have "map ob_close (filter ?same (filter (in_bounds a b) (map ?mk (filter (valid_quote tickers) qs)))) =
      map (\<lambda>(s, j, c). realval c) (filter (\<lambda>(s, j, c). s = Some (ob_time r) \<and> j = k \<and> isfinite c \<and> 0 < c) qs)" for qs
    using assms(1) r(2) bounds by (induction qs) (auto simp: valid_quote_def in_bounds_def split: option.splits)
  ultimately show "ob_close r = price_at quotes k (ob_time r)" by (simp add: price_at_def)
qed

lemma sorted_ends:
  fixes f :: "'a \<Rightarrow> int"
  assumes "sorted_wrt (<) (map f xs)" "xs \<noteq> []"
  shows "f (hd xs) = Min (f ` set xs)" "f (last xs) = Max (f ` set xs)"
proof -
  have "sorted (map f xs)" using assms(1) by (simp add: strict_sorted_iff)
  then have "\<forall>x\<in>set xs. f (hd xs) \<le> f x" "\<forall>x\<in>set xs. f x \<le> f (last xs)"
    using assms(2) by (induction xs) auto
  then show "f (hd xs) = Min (f ` set xs)" "f (last xs) = Max (f ` set xs)"
    using assms(2) by (auto intro!: Min_eqI [symmetric] Max_eqI [symmetric])
qed

lemma Min_below: "finite T \<Longrightarrow> \<exists>s\<in>T. s \<le> t \<Longrightarrow> Min {s \<in> T. s \<le> t} = Min T" for T :: "int set"
proof (rule Min_eqI)
  assume T: "finite T" "\<exists>s\<in>T. s \<le> t"
  then obtain s where s: "s \<in> T" "s \<le> t" by blast
  have "Min T \<in> T" "Min T \<le> s" using T(1) s(1) by (auto intro: Min_in Min_le)
  then show "Min T \<in> {s \<in> T. s \<le> t}" using s(2) by simp
qed auto

lemma observed_account:
  "fixed_shares_account capital weights (observed_rows (map fst weights) a b quotes) t = held_value capital weights a b quotes t"
proof -
  let ?rows = "observed_rows (map fst weights) a b quotes" and ?T = "quote_times a b quotes"
  have q: "(quotes_upto ?rows t k \<noteq> [] \<longleftrightarrow> (\<exists>s\<in>?T k. s \<le> t))
      \<and> (quotes_upto ?rows t k \<noteq> [] \<longrightarrow> hd (quotes_upto ?rows t k) = price_at quotes k (Min (?T k))
        \<and> last (quotes_upto ?rows t k) = price_at quotes k (Max {s \<in> ?T k. s \<le> t}))" if "k \<in> set (map fst weights)" for k
  proof -
    let ?mine = "filter (\<lambda>r. ob_ticker r = k) ?rows" let ?upto = "filter (\<lambda>r. ob_time r \<le> t) ?mine"
    note obs = observed_of_ticker [OF that, where a = a and b = b and quotes = quotes]
    have upto: "quotes_upto ?rows t k = map ob_close ?upto" by (simp add: quotes_upto_def conj_commute)
    have T: "?T k = ob_time ` set ?mine" using obs(2) by simp
    have some: "?upto \<noteq> [] \<longleftrightarrow> (\<exists>s\<in>?T k. s \<le> t)" unfolding T by (auto simp: filter_empty_conv)
    have "hd (quotes_upto ?rows t k) = price_at quotes k (Min (?T k))
        \<and> last (quotes_upto ?rows t k) = price_at quotes k (Max {s \<in> ?T k. s \<le> t})" if ne: "?upto \<noteq> []"
    proof -
      have strict: "sorted_wrt (<) (map ob_time ?upto)"
        using obs(1) unfolding sorted_wrt_map by (rule sorted_wrt_filter)
      have "set ?upto \<subseteq> set ?mine" by auto
      then have ends: "hd ?upto \<in> set ?mine" "last ?upto \<in> set ?mine" using ne hd_in_set last_in_set by blast+
      have "ob_time ` set ?upto = {s \<in> ?T k. s \<le> t}" unfolding T by auto
      then have times: "ob_time (hd ?upto) = Min {s \<in> ?T k. s \<le> t}" "ob_time (last ?upto) = Max {s \<in> ?T k. s \<le> t}"
        using sorted_ends [OF strict ne] by simp_all
      have "finite (?T k)" unfolding T by simp
      then have "Min {s \<in> ?T k. s \<le> t} = Min (?T k)"
        using some ne by (intro Min_below) blast+
      then show ?thesis using ne times obs(3) [OF ends(1)] obs(3) [OF ends(2)] by (simp add: upto hd_map last_map)
    qed
    then show ?thesis using some by (simp add: upto)
  qed
  have bought: "filter (\<lambda>k. quotes_upto ?rows t k \<noteq> []) (map fst weights) = filter (\<lambda>k. \<exists>s\<in>?T k. s \<le> t) (map fst weights)"
    by (rule filter_cong [OF refl]) (use q in blast)
  have sums: "(\<Sum>k\<leftarrow>filter (\<lambda>k. \<exists>s\<in>?T k. s \<le> t) (map fst weights). g k (hd (quotes_upto ?rows t k)) (last (quotes_upto ?rows t k)))
      = (\<Sum>k\<leftarrow>filter (\<lambda>k. \<exists>s\<in>?T k. s \<le> t) (map fst weights). g k (price_at quotes k (Min (?T k))) (price_at quotes k (Max {s \<in> ?T k. s \<le> t})))"
    for g :: "string \<Rightarrow> real \<Rightarrow> real \<Rightarrow> real"
  proof (intro arg_cong [where f = sum_list] map_cong refl)
    fix k assume "k \<in> set (filter (\<lambda>k. \<exists>s\<in>?T k. s \<le> t) (map fst weights))"
    then have k: "k \<in> set (map fst weights)" "\<exists>s\<in>?T k. s \<le> t" unfolding set_filter by blast+
    then show "g k (hd (quotes_upto ?rows t k)) (last (quotes_upto ?rows t k))
        = g k (price_at quotes k (Min (?T k))) (price_at quotes k (Max {s \<in> ?T k. s \<le> t}))"
      using q [OF k(1)] by simp
  qed
  show ?thesis
    unfolding fixed_shares_account_def held_value_def Let_def bought
    using sums [of "\<lambda>k h l. capital * weight_of weights k / h * h"] sums [of "\<lambda>k h l. capital * weight_of weights k / h * l"]
    by simp
qed

lemma observed_times:
  "ob_time ` set (observed_rows tickers a b quotes) = (\<Union>k\<in>set tickers. quote_times a b quotes k)"
proof -
  have "ob_time ` set (observed_rows tickers a b quotes) =
      (\<Union>k\<in>set tickers. ob_time ` set (filter (\<lambda>r. ob_ticker r = k) (observed_rows tickers a b quotes)))"
    using observed_valid(1) by fastforce
  also have "\<dots> = (\<Union>k\<in>set tickers. quote_times a b quotes k)"
    using observed_of_ticker(2) by (intro SUP_cong refl) simp
  finally show ?thesis .
qed

lemma benchmark_cases:
  assumes "buy_and_hold_benchmark fparse localize (Some frame) (Fin capital) config start stop = Inr bench" "pf_stamps frame \<noteq> []"
  obtains weights moments "from" till where "0 < capital"
    "benchmark_weights fparse (VDict config) (Some (map fst config)) = Inr weights"
    "market_timestamps localize (pf_dates frame) (pf_stamps frame) = Inr moments"
    "bound_of localize start = Inr from" "bound_of localize stop = Inr till"
    "case bench of
       None \<Rightarrow> observed_rows (map fst weights) from till (frame_quotes moments frame) = []
     | Some (points, meta) \<Rightarrow> benchmark_rows from till weights (observed_rows (map fst weights) from till (frame_quotes moments frame))
         \<and> points = buy_and_hold_points capital weights (observed_rows (map fst weights) from till (frame_quotes moments frame))"
proof -
  let ?rows = "\<lambda>weights moments from till. observed_rows (map fst weights) from till (zip moments (zip (pf_tickers frame) (pf_closes frame)))"
  have "0 < capital" using assms by (simp add: buy_and_hold_benchmark_def zero_Fin split: if_splits)
  have "\<exists>weights moments from till. benchmark_weights fparse (VDict config) (Some (map fst config)) = Inr weights
      \<and> market_timestamps localize (pf_dates frame) (pf_stamps frame) = Inr moments
      \<and> bound_of localize start = Inr from \<and> bound_of localize stop = Inr till
      \<and> (if ?rows weights moments from till = [] then bench = None
         else \<exists>meta. bench = Some (buy_and_hold_points capital weights (?rows weights moments from till), meta))"
    using assms by (simp add: buy_and_hold_benchmark_def ebind_Inr_iff bench_raising_def Let_def split: if_splits sum.splits) blast+
  then obtain weights moments "from" till where parts:
      "benchmark_weights fparse (VDict config) (Some (map fst config)) = Inr weights"
      "market_timestamps localize (pf_dates frame) (pf_stamps frame) = Inr moments"
      "bound_of localize start = Inr from" "bound_of localize stop = Inr till"
      "if ?rows weights moments from till = [] then bench = None
         else \<exists>meta. bench = Some (buy_and_hold_points capital weights (?rows weights moments from till), meta)"
    by blast
  have "distinct (map fst weights)" "\<And>k w. (k, w) \<in> set weights \<Longrightarrow> isfinite w \<and> 0 \<le> realval w"
    using benchmark_weights_sound [OF parts(1)] by simp_all
  then have "benchmark_rows from till weights (?rows weights moments from till)" if "?rows weights moments from till \<noteq> []"
    using that observed_sorted observed_valid by (fastforce simp: benchmark_rows_def list_all_iff)
  then show ?thesis using that [OF \<open>0 < capital\<close> parts(1-4)] parts(5) by (auto simp: frame_quotes_def split: if_splits)
qed

text \<open>C22: a benchmark that is produced has one point for each moment inside the bounds asked for at which a ticker
  of its weights has a price in the frame, in increasing order. Its value there is the account that bought each
  ticker once, at its first price, for its share of the capital and has only held those shares, each at its
  latest price; what is not yet bought is cash. When the weights leave no financing, the value is never
  negative. Moments and prices are read off the frame's own quotes.\<close>

theorem benchmark_holds_fixed_shares:
  assumes "buy_and_hold_benchmark fparse localize (Some frame) (Fin capital) config start stop = Inr (Some (points, meta))"
  shows "\<exists>weights moments from till.
    benchmark_weights fparse (VDict config) (Some (map fst config)) = Inr weights
    \<and> market_timestamps localize (pf_dates frame) (pf_stamps frame) = Inr moments
    \<and> bound_of localize start = Inr from \<and> bound_of localize stop = Inr till
    \<and> points \<noteq> [] \<and> sorted_wrt (<) (map bp_time points)
    \<and> set (map bp_time points) = (\<Union>k\<in>set (map fst weights). quote_times from till (frame_quotes moments frame) k)
    \<and> (\<forall>p\<in>set points. bp_value p = held_value capital weights from till (frame_quotes moments frame) (bp_time p)
         \<and> bp_return p = bp_value p / capital - 1
         \<and> ((\<Sum>w\<leftarrow>map snd weights. realval w) \<le> 1 \<longrightarrow> 0 \<le> bp_value p))"
proof -
  have "pf_stamps frame \<noteq> []" using assms by (auto simp: buy_and_hold_benchmark_def)
  from assms this obtain weights moments "from" till where parts: "0 < capital"
      "benchmark_weights fparse (VDict config) (Some (map fst config)) = Inr weights"
      "market_timestamps localize (pf_dates frame) (pf_stamps frame) = Inr moments"
      "bound_of localize start = Inr from" "bound_of localize stop = Inr till"
      "case Some (points, meta) of None \<Rightarrow> observed_rows (map fst weights) from till (frame_quotes moments frame) = []
       | Some (points, meta) \<Rightarrow> benchmark_rows from till weights (observed_rows (map fst weights) from till (frame_quotes moments frame))
         \<and> points = buy_and_hold_points capital weights (observed_rows (map fst weights) from till (frame_quotes moments frame))"
    by (rule benchmark_cases)
  let ?rows = "observed_rows (map fst weights) from till (frame_quotes moments frame)"
  have b: "benchmark_rows from till weights ?rows" "points = buy_and_hold_points capital weights ?rows"
    using parts(6) by simp_all
  have rows: "\<And>r. r \<in> set ?rows \<Longrightarrow> 0 < ob_close r" "distinct (map fst weights)" "?rows \<noteq> []"
      "\<And>k w. (k, w) \<in> set weights \<Longrightarrow> isfinite w \<and> 0 \<le> realval w"
    using b(1) by (auto simp: benchmark_rows_def list_all_iff)
  note account = points_are_account [OF b(1), where capital = capital, folded b(2)]
  have "0 \<le> fixed_shares_account capital weights ?rows t" if "(\<Sum>w\<leftarrow>map snd weights. realval w) \<le> 1" for t
    by (rule account_nonnegative [OF rows(1) parts(1) rows(2,4) that])
  then have vals: "\<forall>p\<in>set points. bp_value p = held_value capital weights from till (frame_quotes moments frame) (bp_time p)
         \<and> bp_return p = bp_value p / capital - 1
         \<and> ((\<Sum>w\<leftarrow>map snd weights. realval w) \<le> 1 \<longrightarrow> 0 \<le> bp_value p)"
    using account(3,4) by (simp add: observed_account)
  have times: "set (map bp_time points) = (\<Union>k\<in>set (map fst weights). quote_times from till (frame_quotes moments frame) k)"
    unfolding account(1) by (rule observed_times)
  have "points \<noteq> []"
  proof
    assume "points = []"
    then have "ob_time ` set ?rows = {}" using account(1) by simp
    then show False using rows(3) by simp
  qed
  with parts(2-5) account(2) times vals show ?thesis by blast
qed

definition demo_quotes :: price_frame where
  "demo_quotes = \<lparr>pf_columns = [''timestamp'', ''ticker'', ''close_price''], pf_dates = True,
     pf_stamps = [Instant 1, Instant 3, Wall_Time 2, Instant 3, Not_A_Time],
     pf_tickers = [''A'', ''A'', ''B'', ''B'', ''B''], pf_closes = [Fin 10, Fin 12, Fin 5, Fin 4, Fin 9]\<rparr>"

definition demo_benchmark :: "bench_error + (bench_point list \<times> bench_metadata) option" where
  "demo_benchmark = buy_and_hold_benchmark (\<lambda>_. None) (\<lambda>w. [w]) (Some demo_quotes) (Fin 100)
     [(''A'', VFloat (Fin (1/2))), (''B'', VFloat (Fin (1/4)))] None (Some (Instant 9))"

definition demo_points :: "bench_point list" where
  "demo_points = [\<lparr>bp_time = 1, bp_value = 100, bp_return = 0\<rparr>, \<lparr>bp_time = 2, bp_value = 100, bp_return = 0\<rparr>,
     \<lparr>bp_time = 3, bp_value = 105, bp_return = 1 / 20\<rparr>]"

lemma benchmark_holds_fixed_shares_witness:
  "map (\<lambda>p. (bp_time p, bp_value p)) demo_points =
     map (\<lambda>t. (t, held_value 100 [(''A'', Fin (1/2)), (''B'', Fin (1/4))] None (Some 9)
       (frame_quotes [Some 1, Some 3, Some 2, Some 3, None] demo_quotes) t)) [1, 2, 3]
   \<and> (\<exists>meta. demo_benchmark = Inr (Some (demo_points, meta)) \<and> bm_delayed meta = [''B'']
        \<and> bm_cash_weight meta = 1 / 4 \<and> \<not> bm_complete meta)"
proof -
  have run: "(case demo_benchmark of Inr (Some (ps, meta)) \<Rightarrow> ps = demo_points \<and> bm_delayed meta = [''B'']
        \<and> bm_cash_weight meta = 1 / 4 \<and> \<not> bm_complete meta | _ \<Rightarrow> False)"
    by code_simp
  then obtain meta where meta: "demo_benchmark = Inr (Some (demo_points, meta))" "bm_delayed meta = [''B'']"
      "bm_cash_weight meta = 1 / 4" "\<not> bm_complete meta"
    by (simp split: sum.splits option.splits prod.splits)
  have set_up: "benchmark_weights (\<lambda>_. None) (VDict [(''A'', VFloat (Fin (1/2))), (''B'', VFloat (Fin (1/4)))])
        (Some (map fst [(''A'', VFloat (Fin (1/2))), (''B'', VFloat (Fin (1/4)))])) = Inr [(''A'', Fin (1/2)), (''B'', Fin (1/4))]"
      "market_timestamps (\<lambda>w. [w]) (pf_dates demo_quotes) (pf_stamps demo_quotes) = Inr [Some 1, Some 3, Some 2, Some 3, None]"
      "bound_of (\<lambda>w. [w]) None = Inr None" "bound_of (\<lambda>w. [w]) (Some (Instant 9)) = Inr (Some 9)"
    by code_simp+
  from benchmark_holds_fixed_shares [OF meta(1) [unfolded demo_benchmark_def], unfolded set_up]
  have "\<forall>p\<in>set demo_points. bp_value p = held_value 100 [(''A'', Fin (1/2)), (''B'', Fin (1/4))] None (Some 9)
       (frame_quotes [Some 1, Some 3, Some 2, Some 3, None] demo_quotes) (bp_time p)"
    by auto
  then have "map (\<lambda>p. (bp_time p, bp_value p)) demo_points =
     map (\<lambda>t. (t, held_value 100 [(''A'', Fin (1/2)), (''B'', Fin (1/4))] None (Some 9)
       (frame_quotes [Some 1, Some 3, Some 2, Some 3, None] demo_quotes) t)) [1, 2, 3]"
    by (simp add: demo_points_def)
  then show ?thesis using meta by blast
qed
end
