(* ===== verification/Run_Single_Claims.thy ===== *)
theory Run_Single_Claims
  imports Run_Single Runner_Claims Benchmark_Claims Fast_Claims
begin

text \<open>
  What a run promises its caller: it always ends in one of three ways with the adapter closed, it refuses
  what it cannot do before it opens anything, and the curve of a completed run is the engine's samples
  beside the account that bought and held.
\<close>

section \<open>Marks as of a sample\<close>

lemma keep_last_distinct_id: "distinct (map key xs) \<Longrightarrow> keep_last key xs = xs"
  by (induction xs) auto

lemma account_between:
  assumes "\<And>r. r \<in> set rows \<Longrightarrow> ob_time r \<le> t \<longleftrightarrow> ob_time r \<le> t'"
  shows "fixed_shares_account capital weights rows t = fixed_shares_account capital weights rows t'"
proof -
  have "quotes_upto rows t = quotes_upto rows t'"
    using assms by (intro ext) (auto simp: quotes_upto_def intro!: arg_cong [where f = "map ob_close"] filter_cong)
  then show ?thesis by (simp add: fixed_shares_account_def)
qed

lemma last_is_top: "sorted (map f xs) \<Longrightarrow> x \<in> set xs \<Longrightarrow> f x \<le> f (last xs)"
  by (induction xs rule: rev_induct) (auto simp: sorted_append)

definition observed_mark :: "real \<Rightarrow> (string, pyfloat) dict \<Rightarrow> observation list \<Rightarrow> int \<Rightarrow> real option" where
  "observed_mark capital weights rows t =
     (if list_ex (\<lambda>r. ob_time r \<le> t) rows then Some (fixed_shares_account capital weights rows t) else None)"

text \<open>The buy-and-hold account of some quotes at a moment; before the first price of any of its tickers it is
  unknown.\<close>

definition held_mark ::
  "real \<Rightarrow> (string, pyfloat) dict \<Rightarrow> int option \<Rightarrow> int option \<Rightarrow> quote list \<Rightarrow> int \<Rightarrow> real option" where
  "held_mark capital weights a b quotes t =
     (if \<exists>k\<in>set (map fst weights). \<exists>s\<in>quote_times a b quotes k. s \<le> t
      then Some (held_value capital weights a b quotes t) else None)"

lemma observed_mark_held:
  "observed_mark capital weights (observed_rows (map fst weights) a b quotes) t = held_mark capital weights a b quotes t"
proof -
  have "list_ex (\<lambda>r. ob_time r \<le> t) (observed_rows (map fst weights) a b quotes) \<longleftrightarrow>
      (\<exists>s\<in>ob_time ` set (observed_rows (map fst weights) a b quotes). s \<le> t)"
    by (simp add: list_ex_iff)
  also have "\<dots> \<longleftrightarrow> (\<exists>k\<in>set (map fst weights). \<exists>s\<in>quote_times a b quotes k. s \<le> t)"
    unfolding observed_times by blast
  finally show ?thesis by (simp only: observed_mark_def held_mark_def observed_account)
qed

lemma mark_is_account:
  assumes rows: "benchmark_rows from till weights rows"
    and marks: "marks = map (\<lambda>p. (bp_time p, bp_value p)) (buy_and_hold_points capital weights rows)"
  shows "mark_asof (keep_last fst (sort_key fst marks)) t = observed_mark capital weights rows t"
proof -
  let ?points = "buy_and_hold_points capital weights rows"
  note account = points_are_account [OF rows, where capital = capital]
  have times: "map fst marks = map bp_time ?points" by (simp add: marks comp_def)
  have strict: "sorted_wrt (<) (map fst marks)" unfolding times by (rule account(2))
  then have "keep_last fst (sort_key fst marks) = marks"
    by (simp add: strict_sorted_iff sort_key_id_if_sorted keep_last_distinct_id)
  moreover have "mark_asof marks t = observed_mark capital weights rows t"
  proof (cases "filter (\<lambda>m. fst m \<le> t) marks")
    case Nil
    then have "\<forall>x\<in>set (map fst marks). \<not> x \<le> t" by (auto simp: filter_empty_conv)
    then have "\<not> list_ex (\<lambda>r. ob_time r \<le> t) rows" unfolding times account(1) by (auto simp: list_ex_iff)
    then show ?thesis using Nil by (simp add: mark_asof_def observed_mark_def)
  next
    case (Cons m ms)
    let ?f = "filter (\<lambda>m. fst m \<le> t) marks" and ?l = "last (filter (\<lambda>m. fst m \<le> t) marks)"
    have l: "?l \<in> set ?f" using Cons by (intro last_in_set) simp
    then obtain p where p: "p \<in> set ?points" "?l = (bp_time p, bp_value p)" "bp_time p \<le> t" by (auto simp: marks)
    have sorted: "sorted (map fst ?f)" using strict by (simp add: strict_sorted_iff sorted_filter)
    have top: "fst x \<le> fst ?l" if "x \<in> set ?f" for x by (rule last_is_top [OF sorted that])
    have same: "ob_time r \<le> t \<longleftrightarrow> ob_time r \<le> bp_time p" if "r \<in> set rows" for r
    proof
      assume "ob_time r \<le> t"
      moreover have "ob_time r \<in> set (map fst marks)" unfolding times account(1) using that by simp
      then obtain x where "x \<in> set marks" "fst x = ob_time r" by auto
      ultimately have "fst x \<le> fst ?l" by (intro top) simp
      then show "ob_time r \<le> bp_time p" using p(2) \<open>fst x = ob_time r\<close> by simp
    qed (use p(3) in simp)
    have "fixed_shares_account capital weights rows t = fixed_shares_account capital weights rows (bp_time p)"
      by (rule account_between) (rule same)
    then have "fixed_shares_account capital weights rows t = bp_value p" using account(3) [OF p(1)] by simp
    moreover have "bp_time p \<in> ob_time ` set rows" unfolding account(1) [symmetric] using p(1) by simp
    then have "list_ex (\<lambda>r. ob_time r \<le> t) rows" using p(3) by (auto simp: list_ex_iff)
    ultimately show ?thesis using Cons p(2) by (simp add: mark_asof_def observed_mark_def)
  qed
  ultimately show ?thesis by simp
qed

section \<open>The curve of a completed run\<close>

lemma completed_parts:
  assumes "run_single tx importer mk adapter request = (effects, r)" "rz_status r = ''completed''"
  obtains s reports d where "check_request tx importer (run_mode request) request = Inr s"
    "engine_run tx mk (run_mode request) s request = (reports, Inr d)" "finish_run tx mk request d = Inr r"
  using assms by (auto simp: run_single_def Let_def ended_def ebind_Inr_iff ebind_Inl_iff split: sum.splits if_splits prod.splits)

text \<open>The weights the engine hands over are ones that \<open>benchmark_weights\<close> has made, so making them again
  changes nothing; and there are prices wherever there are samples.\<close>

lemma reweigh:
  assumes "distinct (map fst ws)" "\<And>k w. (k, w) \<in> set ws \<Longrightarrow> isfinite w \<and> 0 \<le> realval w"
  shows "benchmark_weights fparse (VDict (map (\<lambda>(k, w). (k, VFloat w)) ws)) (Some (map fst (map (\<lambda>(k, w). (k, VFloat w)) ws))) = Inr ws"
proof -
  let ?d = "map (\<lambda>(k, w). (k, VFloat w)) ws"
  have keys: "map fst ?d = map fst ws" by (simp add: comp_def case_prod_beta)
  have once: "first_occurrences (map fst ws) = map fst ws"
    using assms(1) by (simp add: first_occurrences_def distinct_remdups_id)
  have eq: "map (\<lambda>t. (t, dict_or ?d t (VFloat 0))) (map fst ws) = ?d"
  proof -
    have "dict_or ?d k (VFloat 0) = VFloat w" if "(k, w) \<in> set ws" for k w
    proof -
      have "(k, VFloat w) \<in> set ?d" using that by force
      moreover have "distinct (map fst ?d)" unfolding keys by (rule assms(1))
      ultimately show ?thesis by (simp only: dict_or_def) simp
    qed
    then show ?thesis by (auto simp: comp_def)
  qed
  have "emap (weight_entry fparse) (map (\<lambda>(k, w). (k, VFloat w)) xs) = Inr xs" for xs
    by (induction xs) (auto simp: weight_entry_def)
  moreover have "\<not> list_ex (\<lambda>(t, w). \<not> isfinite w \<or> w < 0) ws"
    using assms(2) by (fastforce simp: list_ex_iff isfinite_iff zero_Fin)
  ultimately have checked: "checked_weights fparse ?d = Inr ws" by (simp add: checked_weights_def)
  show ?thesis
    unfolding benchmark_weights_def keys Let_def prod.case option.case pyval.case once eq checked by simp
qed

lemma fast_weights:
  "fast_stub tx config = Inr (names, weights) \<Longrightarrow> \<exists>fp pw ts. benchmark_weights fp pw (Some ts) = Inr weights"
  by (auto simp: fast_stub_def Let_def ebind_Inr_iff split: pyval.splits if_splits)

lemma fast_engine_data:
  assumes "run_fast tx mk s request = Inr d"
  shows "\<exists>fp pw ts. benchmark_weights fp pw (Some ts) = Inr (rd_weights d)"
    "\<exists>rows. rows \<noteq> [] \<and> rd_frame d = frame_of rows"
proof -
  obtain config where config: "ebind (python (fast_stub tx config)) (\<lambda>(names, weights).
     ebind (mk_daily mk names (mk_years_back mk (rn_start request)) (rn_end request)) (\<lambda>prices.
       let points = run_fast_vectorized (mk_ewm mk) (sc_name s) names prices (rn_start request) (rn_end request)
                      (rn_slippage request) (rn_capital request)
       in if points = [] then Inl (if prices = [] then Engine_Error No_Market_Data else Engine_Error No_Daily_Records)
          else ebind (fast_mode_perf (mk_ny_day mk) prices points) (\<lambda>perf.
            Inr \<lparr>rd_perf = perf, rd_frame = frame_of (map (\<lambda>r. (dc_at r, dc_ticker r, dc_close r)) prices),
                 rd_weights = weights, rd_start = Wall_Time (rn_start request * day_us), rd_fills = [], rd_marks = [],
                 rd_day = mk_ny_day mk\<rparr>))) = Inr d"
    using assms unfolding run_fast_def ebind_Inr_iff by blast
  obtain names weights prices points perf where d: "fast_stub tx config = Inr (names, weights)" "points \<noteq> []"
      "fast_mode_perf (mk_ny_day mk) prices points = Inr perf" "rd_weights d = weights"
      "rd_frame d = frame_of (map (\<lambda>r. (dc_at r, dc_ticker r, dc_close r)) prices)"
  proof (cases "fast_stub tx config")
    case (Inr nw)
    obtain names weights where nw: "nw = (names, weights)" by (cases nw)
    obtain prices where "mk_daily mk names (mk_years_back mk (rn_start request)) (rn_end request) = Inr prices"
      using config by (cases "mk_daily mk names (mk_years_back mk (rn_start request)) (rn_end request)") (auto simp: Inr nw python_def)
    then show ?thesis using config that [OF _ _ _ _ _] by (auto simp: Inr nw python_def Let_def ebind_Inr_iff split: if_splits)
  qed (use config in \<open>simp add: python_def\<close>)
  show "\<exists>fp pw ts. benchmark_weights fp pw (Some ts) = Inr (rd_weights d)" using fast_weights [OF d(1)] d(4) by simp
  obtain p ps where "points = p # ps" using d(2) by (cases points) auto
  then have "prices \<noteq> []" using d(3) by (auto simp: fast_mode_perf_def)
  then show "\<exists>rows. rows \<noteq> [] \<and> rd_frame d = frame_of rows" using d(5) by blast
qed

lemma run_backtest_bars:
  "run_backtest env cancelled fetched capital made initial = Inr (Some (rows, st)) \<Longrightarrow> \<exists>bars. fetched = Inr bars \<and> bars \<noteq> []"
  by (auto simp: run_backtest_def Let_def prepare_data_def ebind_def split: sum.splits if_splits option.splits)

lemma event_engine_data:
  fixes s :: "'u strategy_class"
  assumes "run_event tx mk s request = (reports, Inr d)"
  shows "\<exists>fp pw ts. benchmark_weights fp pw (Some ts) = Inr (rd_weights d)"
    "\<exists>rows. rows \<noteq> [] \<and> rd_frame d = frame_of rows"
proof -
  obtain p :: "'u portfolio" and midnight res where ev: "event_result tx p midnight res = Inr d"
    and bars: "\<And>rows st. res = Some (rows, st) \<Longrightarrow> \<exists>bars. po_fetch p = Inr bars \<and> bars \<noteq> []"
  proof -
    obtain config where config: "engine_config s (rn_params request) = Inr config"
      using assms by (cases "engine_config s (rn_params request)") (simp_all add: run_event_def)
    have ahead: "(if mk_fmp mk then mk_prefetch mk config else None) = None"
      using assms by (cases "if mk_fmp mk then mk_prefetch mk config else None") (simp_all add: run_event_def config Let_def)
    obtain p where p: "sc_build s config = Inr p"
      using assms ahead by (cases "sc_build s config") (simp_all add: run_event_def config Let_def)
    let ?midnight = "hd (mk_localize mk (rn_start request * day_us))"
    let ?run = "run_backtest ((po_env p)\<lparr>re_start := ?midnight, re_strict := True, re_cancel := (\<lambda>k. rn_cancel request (k + 1))\<rparr>)
        (rn_cancel request 1) (po_fetch p) (rn_capital request)
        (make_executor (rn_capital request) (po_tickers p) (Fin 2) (rn_slippage request) None [] [] (rn_commission request) (rn_gate request))
        (po_initial p)"
    have out: "(case ?run of Inl x \<Rightarrow> Inl (loop_error x) | Inr res \<Rightarrow> event_result tx p ?midnight res) = Inr d"
      using assms ahead by (simp add: run_event_def config p Let_def)
    then obtain res where res: "?run = Inr res" by (cases ?run) simp_all
    have "\<exists>bars. po_fetch p = Inr bars \<and> bars \<noteq> []" if "res = Some (rows, st)" for rows st
      by (rule run_backtest_bars) (use res that in simp)
    moreover have "event_result tx p ?midnight res = Inr d" using out unfolding res by simp
    ultimately show ?thesis by (intro that)
  qed
  obtain rows st where res: "res = Some (rows, st)"
    using ev by (auto simp: event_result_def ebind_Inr_iff split: option.splits prod.splits)
  from bars [OF res] obtain bars where b: "po_fetch p = Inr bars" "bars \<noteq> []" by blast
  have "sort_key bar_time bars \<noteq> []" using b(2) by (metis set_empty set_sort)
  with ev res b(1) show "\<exists>rows. rows \<noteq> [] \<and> rd_frame d = frame_of rows"
    by (auto simp: event_result_def ebind_Inr_iff)
  have "benchmark_weights (tx_float tx) (po_weights p) (Some (po_tickers p)) = Inr (rd_weights d)"
    using ev res by (auto simp: event_result_def ebind_Inr_iff python_def split: sum.splits)
  then show "\<exists>fp pw ts. benchmark_weights fp pw (Some ts) = Inr (rd_weights d)" by blast
qed

lemma engine_data:
  assumes "engine_run tx mk mode s request = (reports, Inr d)"
  obtains fp pw ts rows where "benchmark_weights fp pw (Some ts) = Inr (rd_weights d)" "rows \<noteq> []" "rd_frame d = frame_of rows"
proof -
  have "(\<exists>fp pw ts. benchmark_weights fp pw (Some ts) = Inr (rd_weights d)) \<and> (\<exists>rows. rows \<noteq> [] \<and> rd_frame d = frame_of rows)"
  proof (cases "mode = ''fast''")
    case True
    then have "run_fast tx mk s request = Inr d" using assms by (simp add: engine_run_def split: if_splits)
    from fast_engine_data [OF this] show ?thesis by blast
  next
    case False
    then have "run_event tx mk s request = (reports, Inr d)" using assms by (simp add: engine_run_def split: if_splits)
    from event_engine_data [OF this] show ?thesis by blast
  qed
  then show thesis using that by blast
qed


text \<open>The curve of a completed run, beside what it is made of.\<close>

definition curve_of :: "(int \<Rightarrow> int) \<Rightarrow> (int \<times> pyfloat) list \<Rightarrow> (int \<Rightarrow> real option) \<Rightarrow> equity_point list" where
  "curve_of ny_day perf mark = map (\<lambda>(t, v). \<lparr>ep_date = ny_day t, ep_equity = v, ep_benchmark = map_option Fin (mark t)\<rparr>) perf"

text \<open>The moments of the frame's rows, all of them instants.\<close>

lemma frame_moments: "market_timestamps wall_instants (pf_dates (frame_of rows)) (pf_stamps (frame_of rows)) = Inr (map (\<lambda>(t, k, c). Some t) rows)"
  by (simp add: market_timestamps_def frame_of_def market_timestamp_def comp_def case_prod_beta)

text \<open>The account beside the curve: the engine's weights and frame, from the start of the run to the last sample.\<close>

definition beside :: "real \<Rightarrow> int option \<Rightarrow> int option list \<Rightarrow> run_data \<Rightarrow> int \<Rightarrow> real option" where
  "beside capital a moments d =
     held_mark capital (rd_weights d) a (Some (Max (set (map fst (rd_perf d))))) (frame_quotes moments (rd_frame d))"

lemma finish_curve:
  assumes "finish_run tx mk request d = Inr r" "rn_capital request = Fin capital"
    and weights: "benchmark_weights fp pw (Some ts) = Inr (rd_weights d)" and frame: "rows \<noteq> []" "rd_frame d = frame_of rows"
  obtains base points "from" moments where "rz_curve r = base # points" "points \<noteq> []"
    "bound_of (mk_localize mk) (Some (rd_start d)) = Inr from"
    "market_timestamps (mk_localize mk) (pf_dates (rd_frame d)) (pf_stamps (rd_frame d)) = Inr moments"
    "points = curve_of (mk_ny_day mk) (sort_key fst (rd_perf d)) (beside capital from moments d)"
    "ep_equity base = Fin capital" "ep_date base = ep_date (hd points)"
    "list_all (\<lambda>p. isfinite (ep_equity p)) points" "rz_final r = Some (ep_equity (last points))" "rz_fills r = rd_fills d"
    "compute_metrics_dict (rd_day d) (samples_of (rd_perf d)) (Fin capital) = Inr (the (rz_metrics r))"
proof -
  let ?till = "Max (set (map fst (rd_perf d)))" and ?config = "map (\<lambda>(k, w). (k, VFloat w)) (rd_weights d)"
  let ?bench = "buy_and_hold_benchmark (tx_float tx) (mk_localize mk) (Some (rd_frame d)) (Fin capital) ?config
      (Some (rd_start d)) (Some (Instant ?till))"
  have perf: "rd_perf d \<noteq> []" using assms(1) by (auto simp: finish_run_def)
  obtain bench where bench: "?bench = Inr bench" using assms(1,2) by (cases ?bench) (auto simp: finish_run_def split: if_splits)
  let ?marks = "case bench of None \<Rightarrow> [] | Some (points, _) \<Rightarrow> map (\<lambda>p. (bp_time p, bp_value p)) points"
  have run: "ebind (equity_curve (mk_ny_day mk) (rd_perf d) ?marks capital) (\<lambda>curve.
      ebind (python (compute_metrics_dict (rd_day d) (samples_of (rd_perf d)) (Fin capital))) (\<lambda>metrics.
        Inr \<lparr>rz_status = ''completed'', rz_error = None, rz_metrics = Some metrics, rz_curve = curve,
             rz_fills = rd_fills d, rz_final = Some (ep_equity (last curve)), rz_marks = rd_marks d\<rparr>)) = Inr r"
    using assms(1,2) bench perf by (simp add: finish_run_def Let_def)
  note sound = benchmark_weights_sound [OF weights]
  have stamps: "pf_stamps (rd_frame d) \<noteq> []" using frame by (simp add: frame_of_def)
  have dist: "distinct (map fst (rd_weights d))" using sound(1) by simp
  have again: "benchmark_weights (tx_float tx) (VDict ?config) (Some (map fst ?config)) = Inr (rd_weights d)"
    by (rule reweigh [OF dist sound(2)])
  have till: "bound_of (mk_localize mk) (Some (Instant ?till)) = Inr (Some ?till)"
    by (simp add: bound_of_def market_timestamp_def)
  obtain "from" moments where parts: "bound_of (mk_localize mk) (Some (rd_start d)) = Inr from"
      "market_timestamps (mk_localize mk) (pf_dates (rd_frame d)) (pf_stamps (rd_frame d)) = Inr moments"
      "case bench of
         None \<Rightarrow> observed_rows (map fst (rd_weights d)) from (Some ?till) (frame_quotes moments (rd_frame d)) = []
       | Some (points, meta) \<Rightarrow>
           benchmark_rows from (Some ?till) (rd_weights d)
             (observed_rows (map fst (rd_weights d)) from (Some ?till) (frame_quotes moments (rd_frame d)))
           \<and> points = buy_and_hold_points capital (rd_weights d)
               (observed_rows (map fst (rd_weights d)) from (Some ?till) (frame_quotes moments (rd_frame d)))"
    by (rule benchmark_cases [OF bench stamps], unfold again till sum.inject) blast
  let ?rows = "observed_rows (map fst (rd_weights d)) from (Some ?till) (frame_quotes moments (rd_frame d))"
  have mark: "mark_asof (keep_last fst (sort_key fst ?marks)) t = beside capital from moments d t" for t
  proof (cases bench)
    case None
    then have "?rows = []" using parts(3) by simp
    then have "observed_mark capital (rd_weights d) ?rows t = None" by (simp add: observed_mark_def)
    then show ?thesis using None by (simp only: observed_mark_held beside_def) (simp add: mark_asof_def)
  next
    case (Some b)
    obtain points meta where b: "b = (points, meta)" by (cases b)
    have made: "benchmark_rows from (Some ?till) (rd_weights d) ?rows" "points = buy_and_hold_points capital (rd_weights d) ?rows"
      using parts(3) unfolding Some b option.case prod.case by blast+
    have "?marks = map (\<lambda>p. (bp_time p, bp_value p)) points" unfolding Some b by simp
    from mark_is_account [OF made(1) this [unfolded made(2)]]
    show ?thesis by (simp only: observed_mark_held beside_def)
  qed
  let ?points = "curve_of (mk_ny_day mk) (sort_key fst (rd_perf d)) (beside capital from moments d)"
  from run obtain curve metrics where curve: "equity_curve (mk_ny_day mk) (rd_perf d) ?marks capital = Inr curve"
    and metrics: "compute_metrics_dict (rd_day d) (samples_of (rd_perf d)) (Fin capital) = Inr metrics"
    and r: "r = \<lparr>rz_status = ''completed'', rz_error = None, rz_metrics = Some metrics, rz_curve = curve,
             rz_fills = rd_fills d, rz_final = Some (ep_equity (last curve)), rz_marks = rd_marks d\<rparr>"
    by (auto simp: ebind_Inr_iff python_def split: sum.splits)
  have fin: "list_all (\<lambda>(t, v). isfinite v) (rd_perf d)" using curve perf by (auto simp: equity_curve_def split: if_splits)
  have c: "curve = \<lparr>ep_date = ep_date (hd ?points), ep_equity = Fin capital,
      ep_benchmark = (if ep_benchmark (hd ?points) = None then None else Some (Fin capital))\<rparr> # ?points"
    using curve perf fin by (simp add: equity_curve_def Let_def curve_of_def mark)
  have "sort_key fst (rd_perf d) \<noteq> []" using perf by (metis set_empty set_sort)
  then have ne: "?points \<noteq> []" by (simp add: curve_of_def)
  have "list_all (\<lambda>p. isfinite (ep_equity p)) ?points" using fin by (auto simp: curve_of_def list_all_iff)
  then show ?thesis
    using that [OF _ ne parts(1,2) refl] metrics ne by (simp add: r c)
qed


text \<open>C2: when a run of a finite capital is reported as completed, its request passed every check, the engine
  returned data, and the curve is a baseline at the starting capital on the date of the first sample followed by
  the engine's samples in time order, each a finite number beside the value that the buy-and-hold account has at
  that moment: the account of the engine's own weights on the prices of the frame it traded on, from the start of
  the run to its last sample, unknown before the first of those prices. Its final equity is the last sample, its
  fills are the engine's, and its figures were made from the same samples.\<close>

theorem completed_run_curve:
  assumes "run_single tx importer mk adapter request = (effects, r)" "rz_status r = ''completed''"
    and "rn_capital request = Fin capital"
  shows "\<exists>s reports d base from moments.
    check_request tx importer (run_mode request) request = Inr s
    \<and> engine_run tx mk (run_mode request) s request = (reports, Inr d)
    \<and> bound_of (mk_localize mk) (Some (rd_start d)) = Inr from
    \<and> market_timestamps (mk_localize mk) (pf_dates (rd_frame d)) (pf_stamps (rd_frame d)) = Inr moments
    \<and> rz_curve r = base # curve_of (mk_ny_day mk) (sort_key fst (rd_perf d))
        (held_mark capital (rd_weights d) from (Some (Max (set (map fst (rd_perf d))))) (frame_quotes moments (rd_frame d)))
    \<and> ep_equity base = Fin capital \<and> ep_date base = ep_date (rz_curve r ! 1)
    \<and> list_all (\<lambda>p. isfinite (ep_equity p)) (rz_curve r)
    \<and> rz_final r = Some (ep_equity (last (rz_curve r))) \<and> rz_fills r = rd_fills d
    \<and> compute_metrics_dict (rd_day d) (samples_of (rd_perf d)) (Fin capital) = Inr (the (rz_metrics r))"
proof -
  obtain s reports d where sd: "check_request tx importer (run_mode request) request = Inr s"
      "engine_run tx mk (run_mode request) s request = (reports, Inr d)" "finish_run tx mk request d = Inr r"
    by (rule completed_parts [OF assms(1,2)])
  obtain fp pw ts rows where data: "benchmark_weights fp pw (Some ts) = Inr (rd_weights d)" "rows \<noteq> []" "rd_frame d = frame_of rows"
    by (rule engine_data [OF sd(2)])
  obtain base points "from" moments where c: "rz_curve r = base # points" "points \<noteq> []"
      "bound_of (mk_localize mk) (Some (rd_start d)) = Inr from"
      "market_timestamps (mk_localize mk) (pf_dates (rd_frame d)) (pf_stamps (rd_frame d)) = Inr moments"
      "points = curve_of (mk_ny_day mk) (sort_key fst (rd_perf d)) (beside capital from moments d)"
      "ep_equity base = Fin capital" "ep_date base = ep_date (hd points)"
      "list_all (\<lambda>p. isfinite (ep_equity p)) points" "rz_final r = Some (ep_equity (last points))" "rz_fills r = rd_fills d"
      "compute_metrics_dict (rd_day d) (samples_of (rd_perf d)) (Fin capital) = Inr (the (rz_metrics r))"
    by (rule finish_curve [OF sd(3) assms(3) data])
  have "ep_date base = ep_date (rz_curve r ! 1)" "ep_equity (last (rz_curve r)) = ep_equity (last points)"
    "list_all (\<lambda>p. isfinite (ep_equity p)) (rz_curve r)"
    using c(1,2,6,7,8) by (simp_all add: hd_conv_nth)
  then show ?thesis using sd(1,2) c(1,3,4,5,6,9,10,11) unfolding beside_def by metis
qed

section \<open>Every run ends\<close>

lemma engine_error_mode: "finish_run tx mk request d = Inr r \<Longrightarrow> rz_status r = ''completed'' \<and> rz_error r = None"
  by (auto simp: finish_run_def Let_def ebind_Inr_iff split: sum.splits if_splits)

lemma ended_facts [simp]:
  "rz_status (ended e) \<noteq> ''completed''" "rz_error (ended e) = Some e" "rz_curve (ended e) = []" "rz_fills (ended e) = []"
  "rz_metrics (ended e) = None" "rz_status (ended e) = ''failed'' \<longleftrightarrow> e \<noteq> Cancelled"
  "rz_status (ended e) = ''cancelled'' \<longleftrightarrow> e = Cancelled"
  by (simp_all add: ended_def)

section \<open>Progress\<close>

text \<open>Percentages from 0 to 100 that never fall, none of them under the stage that ends a run.\<close>

definition steady :: "progress_report list \<Rightarrow> bool" where
  "steady reports \<longleftrightarrow> sorted (map fst reports) \<and> (\<forall>(pct, stage)\<in>set reports. 0 \<le> pct \<and> pct \<le> 100 \<and> stage \<noteq> ''completed'')"

lemma steady_start: "steady reports \<Longrightarrow> stage \<noteq> ''completed'' \<Longrightarrow> steady ((0, stage) # reports)"
  by (auto simp: steady_def)

lemma steady_loop: "steady (map (\<lambda>p. (p, ''simulating'')) (event_loop_progress env rows st))"
proof -
  let ?tss = "loop_timestamps env rows"
  let ?st = "st\<lparr>rs_records := [], rs_final_prices := [], rs_last_poll := None, rs_pct := -1\<rparr>"
  have pct: "rs_pct ?st = -1" by simp
  have "sorted_wrt (<) (event_loop_progress env rows st) \<and> (\<forall>p\<in>set (event_loop_progress env rows st). 0 \<le> p \<and> p \<le> 100)"
  proof (cases "rows = [] \<or> ?tss = []")
    case False
    then have n: "0 < length ?tss" by simp
    have "0 \<le> int 1 * 100 div int (length ?tss)" using n by (simp add: pos_imp_zdiv_nonneg_iff)
    then have "rs_pct ?st \<le> int 1 * 100 div int (length ?tss)" unfolding pct by linarith
    from loop_progress_rises [OF n _ this, of ?tss env rows] show ?thesis
      using False unfolding event_loop_progress_def Let_def pct by fastforce
  qed (auto simp: event_loop_progress_def)
  then show ?thesis by (auto simp: steady_def comp_def strict_sorted_iff)
qed

lemma steady_run: "steady (run_progress env cancelled fetched made initial)"
proof -
  have "steady (map (\<lambda>p. (p, ''simulating'')) (event_loop_progress env rows st) @ (if q then [] else [(100, ''writing report'')]))"
    for rows q and env :: "'a run_env" and st
    using steady_loop [of env rows st] by (auto simp: steady_def sorted_append)
  from this [where q = True] this [where q = False] show ?thesis
    by (auto simp: run_progress_def split: sum.splits option.splits intro!: steady_start) (simp_all add: steady_def)
qed

lemma steady_engine: "engine_run tx mk mode s request = (reports, outcome) \<Longrightarrow> steady reports"
proof -
  have none: "steady []" by (simp add: steady_def)
  show "engine_run tx mk mode s request = (reports, outcome) \<Longrightarrow> steady reports"
    by (auto simp: engine_run_def run_event_def Let_def none split: if_splits sum.splits option.splits prod.splits
        intro!: steady_start steady_run)
qed

text \<open>C3: a run always comes back as completed, failed or cancelled, and names its error exactly when it did not
  complete. What fails a check of the request, among them fast mode with a commission, a news gate, intraday bars or
  a strategy without an adapter, fails before anything is opened; after that the adapter is opened first and closed
  last. In between, the engine's and the loop's reports included, the percentages reported are within 0 to 100 and
  never fall, and the stage \<open>completed\<close> is reported, as the last one, exactly for a completed run. (A run that
  fails while its report is written has reported 100 before, under that stage.)\<close>

theorem run_single_settles:
  assumes "run_single tx importer mk adapter request = (effects, r)"
  shows "rz_status r \<in> {''completed'', ''failed'', ''cancelled''}
    \<and> (rz_error r = None \<longleftrightarrow> rz_status r = ''completed'')
    \<and> (rz_status r \<noteq> ''completed'' \<longrightarrow> rz_curve r = [] \<and> rz_fills r = [] \<and> rz_metrics r = None)
    \<and> (case check_request tx importer (run_mode request) request of
         Inl e \<Rightarrow> effects = [] \<and> rz_error r = Some e
       | Inr s \<Rightarrow> effects = [] \<and> adapter \<noteq> Inr () \<and> rz_status r \<noteq> ''completed''
           \<or> (\<exists>reports. effects = Adapter_Opened # map (\<lambda>(pct, stage). Progress_Reported pct stage) reports @ [Adapter_Closed]
               \<and> sorted (map fst reports) \<and> (\<forall>pct\<in>set (map fst reports). 0 \<le> pct \<and> pct \<le> 100)
               \<and> (if rz_status r = ''completed'' then \<exists>sofar. reports = sofar @ [(100, ''completed'')] \<and> ''completed'' \<notin> set (map snd sofar)
                  else ''completed'' \<notin> set (map snd reports))))
    \<and> (run_mode request = ''fast'' \<and> (\<not> feq (rn_commission request) 0 \<or> rn_gate request \<noteq> None)
        \<longrightarrow> effects = [] \<and> rz_status r = ''failed'')"
proof -
  let ?shape = "\<lambda>reports. effects = Adapter_Opened # map (\<lambda>(pct, stage). Progress_Reported pct stage) reports @ [Adapter_Closed]
      \<and> sorted (map fst reports) \<and> (\<forall>pct\<in>set (map fst reports). 0 \<le> pct \<and> pct \<le> 100)
      \<and> (if rz_status r = ''completed'' then \<exists>sofar. reports = sofar @ [(100, ''completed'')] \<and> ''completed'' \<notin> set (map snd sofar)
         else ''completed'' \<notin> set (map snd reports))"
  have failed: "?shape reports" if "effects = with_adapter reports" "steady reports" "r = ended e" for reports e
    using that by (auto simp: with_adapter_def steady_def)
  have finished: "?shape (sofar @ [(100, ''completed'')])"
    if "effects = with_adapter (sofar @ [(100, ''completed'')])" "steady sofar" "rz_status r = ''completed''" for sofar
    using that by (auto simp: with_adapter_def steady_def sorted_append)
  have fast: "\<exists>e. check_request tx importer (run_mode request) request = Inl (Engine_Error e)"
    if "run_mode request = ''fast''" "\<not> feq (rn_commission request) 0 \<or> rn_gate request \<noteq> None"
    using that unfolding check_request_def refuse_def guard_e_def by auto
  have all: "rz_status r \<in> {''completed'', ''failed'', ''cancelled''} \<and> (rz_error r = None \<longleftrightarrow> rz_status r = ''completed'')
    \<and> (rz_status r \<noteq> ''completed'' \<longrightarrow> rz_curve r = [] \<and> rz_fills r = [] \<and> rz_metrics r = None)
    \<and> (case check_request tx importer (run_mode request) request of
         Inl e \<Rightarrow> effects = [] \<and> r = ended e
       | Inr s \<Rightarrow> effects = [] \<and> adapter \<noteq> Inr () \<and> rz_status r \<noteq> ''completed'' \<or> (\<exists>reports. ?shape reports))"
  proof (cases "check_request tx importer (run_mode request) request")
    case (Inl e)
    then show ?thesis using assms by (auto simp: run_single_def Let_def)
  next
    case (Inr s)
    obtain reports outcome where engine: "engine_run tx mk (run_mode request) s request = (reports, outcome)"
      by (cases "engine_run tx mk (run_mode request) s request")
    have steady: "steady ((0, ''starting'') # reports)" by (rule steady_start [OF steady_engine [OF engine]]) simp
    consider e where "adapter = Inl e" "effects = []" "r = ended e"
      | e where "effects = with_adapter []" "r = ended e"
      | e where "effects = with_adapter ((0, ''starting'') # reports)" "r = ended e"
      | d where "effects = with_adapter (((0, ''starting'') # reports) @ [(100, ''completed'')])" "finish_run tx mk request d = Inr r"
      using assms Inr by (auto simp: run_single_def Let_def engine ebind_Inr_iff split: sum.splits)
    then show ?thesis
    proof cases
      case 2
      have "steady []" by (simp add: steady_def)
      then have ex: "\<exists>reports. ?shape reports" using failed [OF 2(1) _ 2(2)] by blast
      show ?thesis unfolding Inr sum.case by (intro conjI disjI2 ex) (use 2(2) in simp_all)
    next
      case 3
      then have ex: "\<exists>reports. ?shape reports" using failed [OF 3(1) steady 3(2)] by blast
      show ?thesis unfolding Inr sum.case by (intro conjI disjI2 ex) (use 3(2) in simp_all)
    next
      case (4 d)
      note ok = engine_error_mode [OF 4(2)]
      have ex: "\<exists>reports. ?shape reports" using finished [OF 4(1) steady] ok by blast
      show ?thesis unfolding Inr sum.case by (intro conjI disjI2 ex) (use ok in simp_all)
    qed (use Inr in simp)
  qed
  have early: "run_mode request = ''fast'' \<and> (\<not> feq (rn_commission request) 0 \<or> rn_gate request \<noteq> None)
      \<longrightarrow> effects = [] \<and> rz_status r = ''failed''"
  proof (intro impI)
    assume "run_mode request = ''fast'' \<and> (\<not> feq (rn_commission request) 0 \<or> rn_gate request \<noteq> None)"
    then obtain e where "check_request tx importer (run_mode request) request = Inl (Engine_Error e)" using fast by blast
    then show "effects = [] \<and> rz_status r = ''failed''" using all by simp
  qed
  show ?thesis
  proof (cases "check_request tx importer (run_mode request) request")
    case (Inl e)
    then show ?thesis using all early by simp
  next
    case (Inr s)
    then show ?thesis using all early unfolding Inr sum.case by blast
  qed
qed

section \<open>An example\<close>

definition demo_at :: int where "demo_at = 3 * day_us + 5"

definition one_close :: daily_close where
  "one_close = \<lparr>dc_day = 3, dc_at = demo_at, dc_ticker = ''A'', dc_close = Fin 50\<rparr>"

definition demo_class :: "nat strategy_class" where
  "demo_class = \<lparr>sc_name = ''RegimeAdaptiveStrategy'',
     sc_config = Some (Inr [(''PORTFOLIO_ID'', VStr ''p''), (''TICKERS'', VList [VStr ''A''])]), sc_build = (\<lambda>_. Inl Load_Failed)\<rparr>"

definition demo_text :: text_ops where
  "demo_text = \<lparr>tx_float = (\<lambda>_. None), tx_int = (\<lambda>_. Inl TypeError), tx_str = (\<lambda>v. case v of VStr s \<Rightarrow> s | _ \<Rightarrow> [])\<rparr>"

definition demo_market :: market where
  "demo_market = \<lparr>mk_fmp = False, mk_prefetch = (\<lambda>_. None), mk_daily = (\<lambda>_ _ _. Inr [one_close]), mk_years_back = (\<lambda>d. d),
     mk_ny_day = (\<lambda>t. t div day_us), mk_localize = (\<lambda>w. [w]), mk_ewm = no_smoothing\<rparr>"

definition demo_request :: run_request where
  "demo_request = \<lparr>rn_class_path = ''m:C'', rn_start = 2, rn_end = 4, rn_capital = Fin 1000, rn_mode = '' FAST'', rn_params = [],
     rn_slippage = Fin 0, rn_commission = Fin 0, rn_gate = None, rn_cancel = (\<lambda>_. False)\<rparr>"

definition demo_import :: "string \<Rightarrow> string \<Rightarrow> nat imported" where
  "demo_import m c = (if m = ''m'' \<and> c = ''C'' then Imported demo_class else Import_Raises)"

lemma demo_mode: "run_mode demo_request = ''fast''"
  by code_simp

lemma demo_checked: "check_request demo_text demo_import ''fast'' demo_request = Inr demo_class"
proof -
  have path: "split_class_path ''m:C'' = Inr (''m'', ''C'')" by code_simp
  have bars: "is_intraday (VInt daily_bar_seconds) = Inr False" by code_simp
  have s: "adapter_for ''RegimeAdaptiveStrategy'' \<noteq> None" by simp
  show ?thesis
    by (simp add: check_request_def refuse_def demo_request_def reject_unsupported_bar_interval_def bar_seconds_of_def dict_or_def
        load_strategy_class_def path demo_import_def reject_oversized_intraday_window_def strategy_config_def python_def
        demo_class_def bars fast_mode_supported_def dict_merge_def Let_def zero_Fin one_Fin del: adapter_for.simps) simp
qed

lemma demo_fast:
  "run_fast_vectorized no_smoothing ''RegimeAdaptiveStrategy'' [''A''] [one_close] 2 4 (Fin 0) (Fin 1000) =
     [\<lparr>fp_day = 3, fp_reference = Fin 50, fp_value = Fin 1000, fp_pnl = Fin 0, fp_turnover = Fin 0\<rparr>]"
proof -
  have sel: "selected_tickers [one_close] [''A''] = [''A'']" by code_simp
  have mat: "close_matrix [one_close] [''A''] = [(3, [Fin 50])]" by code_simp
  have vix: "ticker_position ''^VIX'' [''A''] = None" by code_simp
  have z: "zscore_20 [Fin 50] = [NaN]" by (simp add: zscore_20_def rolling_short minus_pyfloat_def pct_change_def)
  have states: "adapter_states no_smoothing RegimeAdaptiveStrategy [''A''] [[Fin 50]] = [[0]]"
    by (simp add: adapter_states_def vix tabulate_def regime_column_def z pct_change_def shifted_def along_def histories_def
        held_state_def fillna_def upt_rec minus_pyfloat_def)
  have w: "target_weights no_smoothing RegimeAdaptiveStrategy [''A''] [[Fin 50]] = [[0]]"
    unfolding target_weights_def states by code_simp
  have g: "map2 (\<lambda>w r. row_sum (map2 (*) w r)) (shifted 1 (replicate (length [''A'']) 0) [[0]])
      (daily_return_rows (length [''A'']) [[Fin 50]]) = [0]" by code_simp
  have days: "fast_days no_smoothing RegimeAdaptiveStrategy [''A''] [(3, [Fin 50])] =
      [\<lparr>fd_day = 3, fd_closes = [Fin 50], fd_weights = [0], fd_gross = 0\<rparr>]"
    unfolding fast_days_def Let_def list.map snd_conv w g by simp
  have "fast_curve (Fin 0) (Fin 1000) 1 [\<lparr>fd_day = 3, fd_closes = [Fin 50], fd_weights = [0], fd_gross = 0\<rparr>] =
     [\<lparr>fp_day = 3, fp_reference = Fin 50, fp_value = Fin 1000, fp_pnl = Fin 0, fp_turnover = Fin 0\<rparr>]" by code_simp
  then show ?thesis by (simp add: run_fast_vectorized_def Let_def sel mat days)
qed

definition demo_data :: run_data where
  "demo_data = \<lparr>rd_perf = [(demo_at, Fin 1000)], rd_frame = frame_of [(demo_at, ''A'', Fin 50)],
     rd_weights = [(''A'', Fin 1)], rd_start = Wall_Time (2 * day_us), rd_fills = [], rd_marks = [], rd_day = (\<lambda>t. t div day_us)\<rparr>"

lemma demo_engine: "engine_run demo_text demo_market ''fast'' demo_class demo_request = ([], Inr demo_data)"
proof -
  have stub: "fast_stub demo_text [(''PORTFOLIO_ID'', VStr ''p''), (''TICKERS'', VList [VStr ''A''])] = Inr ([''A''], [(''A'', Fin 1)])"
    by code_simp
  have perf: "fast_mode_perf (\<lambda>t. t div day_us) [one_close]
      [\<lparr>fp_day = 3, fp_reference = Fin 50, fp_value = Fin 1000, fp_pnl = Fin 0, fp_turnover = Fin 0\<rparr>] = Inr [(demo_at, Fin 1000)]"
    by code_simp
  show ?thesis
    by (simp add: engine_run_def run_fast_def engine_config_def demo_class_def demo_request_def dict_merge_def stub python_def
        demo_market_def demo_fast perf demo_data_def Let_def one_close_def [symmetric])
       (simp add: one_close_def)
qed

lemma finish_intro:
  assumes "rd_perf d \<noteq> []"
    "buy_and_hold_benchmark (tx_float tx) (mk_localize mk) (Some (rd_frame d)) (rn_capital request)
       (map (\<lambda>(k, w). (k, VFloat w)) (rd_weights d)) (Some (rd_start d)) (Some (Instant (Max (set (map fst (rd_perf d)))))) = Inr (Some (ps, meta))"
    "equity_curve (mk_ny_day mk) (rd_perf d) (map (\<lambda>p. (bp_time p, bp_value p)) ps) (realval (rn_capital request)) = Inr curve"
    "compute_metrics_dict (rd_day d) (samples_of (rd_perf d)) (rn_capital request) = Inr m"
  shows "finish_run tx mk request d = Inr \<lparr>rz_status = ''completed'', rz_error = None, rz_metrics = Some m, rz_curve = curve,
           rz_fills = rd_fills d, rz_final = Some (ep_equity (last curve)), rz_marks = rd_marks d\<rparr>"
  using assms by (simp add: finish_run_def python_def del: set_map)

lemma demo_finish:
  "\<exists>r. finish_run demo_text demo_market demo_request demo_data = Inr r \<and> rz_final r = Some (Fin 1000)
     \<and> map ep_benchmark (rz_curve r) = [Some (Fin 1000), Some (Fin 1000)] \<and> map ep_date (rz_curve r) = [3, 3]"
proof -
  let ?b = "buy_and_hold_benchmark (tx_float demo_text) (mk_localize demo_market) (Some (rd_frame demo_data)) (rn_capital demo_request)
      (map (\<lambda>(k, w). (k, VFloat w)) (rd_weights demo_data)) (Some (rd_start demo_data))
      (Some (Instant (Max (set (map fst (rd_perf demo_data))))))"
  have "case ?b of Inr (Some (ps, meta)) \<Rightarrow> map (\<lambda>p. (bp_time p, bp_value p)) ps = [(demo_at, 1000)] | _ \<Rightarrow> False"
    unfolding demo_market_def market.simps by code_simp
  then obtain ps meta where b: "?b = Inr (Some (ps, meta))" "map (\<lambda>p. (bp_time p, bp_value p)) ps = [(demo_at, 1000)]"
    by (cases ?b) (auto split: option.splits)
  let ?curve = "[\<lparr>ep_date = 3, ep_equity = Fin 1000, ep_benchmark = Some (Fin 1000)\<rparr>, \<lparr>ep_date = 3, ep_equity = Fin 1000, ep_benchmark = Some (Fin 1000)\<rparr>]"
  have curve: "equity_curve (mk_ny_day demo_market) (rd_perf demo_data) (map (\<lambda>p. (bp_time p, bp_value p)) ps) (realval (rn_capital demo_request)) = Inr ?curve"
    unfolding b(2) demo_market_def market.simps by code_simp
  have "compute_annual_return (samples_of (rd_perf demo_data)) = Inr (Float_Number 0)"
    by (simp add: compute_annual_return_def growth_inputs_def timed_def samples_of_def demo_data_def)
  then have "\<exists>m. compute_metrics_dict (rd_day demo_data) (samples_of (rd_perf demo_data)) (rn_capital demo_request) = Inr m"
    by (simp add: compute_metrics_dict_def number_float_def Let_def)
  then obtain m where m: "compute_metrics_dict (rd_day demo_data) (samples_of (rd_perf demo_data)) (rn_capital demo_request) = Inr m" ..
  have "rd_perf demo_data \<noteq> []" by (simp add: demo_data_def)
  from finish_intro [OF this b(1) curve m] show ?thesis by simp
qed

definition demo_result :: run_result where
  "demo_result = snd (run_single demo_text demo_import demo_market (Inr ()) demo_request)"

lemma demo_run:
  "run_single demo_text demo_import demo_market (Inr ()) demo_request =
     ([Adapter_Opened, Progress_Reported 0 ''starting'', Progress_Reported 100 ''completed'', Adapter_Closed], demo_result)"
  "rz_status demo_result = ''completed''" "rz_final demo_result = Some (Fin 1000)" "map ep_date (rz_curve demo_result) = [3, 3]"
proof -
  from demo_finish obtain r where all: "finish_run demo_text demo_market demo_request demo_data = Inr r \<and> rz_final r = Some (Fin 1000)
     \<and> map ep_benchmark (rz_curve r) = [Some (Fin 1000), Some (Fin 1000)] \<and> map ep_date (rz_curve r) = [3, 3]" ..
  note r = all [THEN conjunct1] all [THEN conjunct2, THEN conjunct1] all [THEN conjunct2, THEN conjunct2, THEN conjunct2]
  have ready: "engine_setup ''fast'' demo_request = Inr ()" by (simp add: engine_setup_def demo_request_def zero_Fin)
  have run: "run_single demo_text demo_import demo_market (Inr ()) demo_request =
      ([Adapter_Opened, Progress_Reported 0 ''starting'', Progress_Reported 100 ''completed'', Adapter_Closed], r)"
    using r(1) by (simp add: run_single_def Let_def demo_mode demo_checked ready python_def demo_engine with_adapter_def)
  then have "demo_result = r" by (simp add: demo_result_def)
  then show "run_single demo_text demo_import demo_market (Inr ()) demo_request =
     ([Adapter_Opened, Progress_Reported 0 ''starting'', Progress_Reported 100 ''completed'', Adapter_Closed], demo_result)"
    "rz_status demo_result = ''completed''" "rz_final demo_result = Some (Fin 1000)" "map ep_date (rz_curve demo_result) = [3, 3]"
    using run r engine_error_mode [OF r(1)] by simp_all
qed

lemma completed_run_curve_witness:
  "(\<exists>base from. bound_of (mk_localize demo_market) (Some (rd_start demo_data)) = Inr from
      \<and> rz_curve demo_result = base # curve_of (mk_ny_day demo_market) [(demo_at, Fin 1000)]
          (held_mark 1000 [(''A'', Fin 1)] from (Some demo_at) [(Some demo_at, ''A'', Fin 50)])
      \<and> ep_equity base = Fin 1000) \<and> map ep_date (rz_curve demo_result) = [3, 3]"
proof -
  have "rn_capital demo_request = Fin 1000" by (simp add: demo_request_def)
  from completed_run_curve [OF demo_run(1,2) this]
  obtain s reports d base "from" moments where c: "check_request demo_text demo_import (run_mode demo_request) demo_request = Inr s"
      "engine_run demo_text demo_market (run_mode demo_request) s demo_request = (reports, Inr d)"
      "bound_of (mk_localize demo_market) (Some (rd_start d)) = Inr from"
      "market_timestamps (mk_localize demo_market) (pf_dates (rd_frame d)) (pf_stamps (rd_frame d)) = Inr moments"
      "ep_equity base = Fin 1000"
      "rz_curve demo_result = base # curve_of (mk_ny_day demo_market) (sort_key fst (rd_perf d))
        (held_mark 1000 (rd_weights d) from (Some (Max (set (map fst (rd_perf d))))) (frame_quotes moments (rd_frame d)))"
    by blast
  then have d: "d = demo_data" by (simp add: demo_mode demo_checked demo_engine)
  have rd: "rd_perf d = [(demo_at, Fin 1000)]" "rd_weights d = [(''A'', Fin 1)]" "rd_frame d = frame_of [(demo_at, ''A'', Fin 50)]"
    by (simp_all add: d demo_data_def)
  then have "moments = [Some demo_at]" using c(4) by (simp add: frame_moments)
  then have "frame_quotes moments (rd_frame d) = [(Some demo_at, ''A'', Fin 50)]"
    by (simp add: rd frame_quotes_def frame_of_def)
  then have "rz_curve demo_result = base # curve_of (mk_ny_day demo_market) [(demo_at, Fin 1000)]
      (held_mark 1000 [(''A'', Fin 1)] from (Some demo_at) [(Some demo_at, ''A'', Fin 50)])"
    using c(6) by (simp add: rd)
  then show ?thesis using c(3,5) d demo_run(4) by blast
qed

definition gated_request :: run_request where
  "gated_request = demo_request\<lparr>rn_commission := Fin (1 / 100)\<rparr>"

lemma run_single_settles_witness:
  "rz_status (snd (run_single demo_text demo_import demo_market (Inr ()) gated_request)) = ''failed''
   \<and> fst (run_single demo_text demo_import demo_market (Inr ()) gated_request) = []
   \<and> (\<exists>reports. fst (run_single demo_text demo_import demo_market (Inr ()) demo_request)
         = Adapter_Opened # map (\<lambda>(pct, stage). Progress_Reported pct stage) reports @ [Adapter_Closed]
       \<and> (\<exists>sofar. reports = sofar @ [(100, ''completed'')]))
   \<and> rz_error demo_result = None"
proof -
  have "run_mode gated_request = run_mode demo_request" by (simp add: gated_request_def run_mode_def)
  then have g: "run_mode gated_request = ''fast''" "\<not> feq (rn_commission gated_request) 0"
    by (simp_all add: demo_mode) (simp add: gated_request_def zero_Fin)
  obtain e r where er: "run_single demo_text demo_import demo_market (Inr ()) gated_request = (e, r)" by fastforce
  from run_single_settles [OF er] g have "e = [] \<and> rz_status r = ''failed''" by blast
  moreover have checked: "check_request demo_text demo_import (run_mode demo_request) demo_request = Inr demo_class"
    by (simp add: demo_mode demo_checked)
  note settled = run_single_settles [OF demo_run(1), unfolded checked sum.case demo_run(2)]
  have "rz_error demo_result = None" using settled by blast
  moreover have "\<exists>reports. [Adapter_Opened, Progress_Reported 0 ''starting'', Progress_Reported 100 ''completed'', Adapter_Closed]
         = Adapter_Opened # map (\<lambda>(pct, stage). Progress_Reported pct stage) reports @ [Adapter_Closed]
       \<and> (\<exists>sofar. reports = sofar @ [(100, ''completed'')])"
    using settled demo_run(2) by (simp only: if_True simp_thms) blast
  ultimately show ?thesis unfolding er demo_run(1) fst_conv snd_conv by blast
qed
end
