(* ===== verification/Gate_Loader.thy ===== *)
theory Gate_Loader
  imports Sentiment_Gate
begin

text \<open>
  \<open>src/workers/sentiment_gate_loader.py\<close>: the article scores of a gated run, read before the engine
  starts. The news table is a function from a ticker to its rows; \<open>None\<close> is a query that fails.
  Dates are day numbers and moments microseconds of naive UTC. The property is that the rows left
  in the database could not have changed a decision of the gate.
\<close>

section \<open>Reading the scores\<close>

datatype gate_error = Gate_Unavailable | Gate_Refused py_exn

record news_row =
  nw_published :: int
  nw_score :: "real option"

definition lookback :: int where "lookback = sentiment_window + vendor_timezone_embargo"

definition lookahead :: int where "lookahead = vendor_timezone_embargo"

text \<open>\<open>datetime.combine(start, time.min)\<close> and \<open>datetime.combine(end, time.max)\<close>, widened.\<close>

definition scores_from :: "int \<Rightarrow> int" where "scores_from start_day = start_day * day_us - lookback"

definition scores_to :: "int \<Rightarrow> int" where "scores_to end_day = end_day * day_us + (day_us - 1) + lookahead"

definition scored_rows :: "(int \<Rightarrow> bool) \<Rightarrow> news_row list \<Rightarrow> (int \<times> real) list" where
  "scored_rows keep rows =
     map (\<lambda>r. (nw_published r, the (nw_score r))) (filter (\<lambda>r. nw_score r \<noteq> None \<and> keep (nw_published r)) rows)"

definition read_scores ::
  "(string \<Rightarrow> news_row list option) \<Rightarrow> string list \<Rightarrow> int \<Rightarrow> int \<Rightarrow> gate_error + (string, (int \<times> real) list) dict" where
  "read_scores news tickers a b =
     emap (\<lambda>t. case news t of
                 None \<Rightarrow> Inl Gate_Unavailable
               | Some rows \<Rightarrow> Inr (t, scored_rows (\<lambda>p. a \<le> p \<and> p \<le> b) rows)) tickers"

definition gate_tickers :: "string list \<Rightarrow> string list" where
  "gate_tickers tickers = first_occurrences (map (\<lambda>t. upper (strip t)) tickers)"

text \<open>\<open>online\<close> is whether a read-only engine could be made.\<close>

definition load_sentiment_gate ::
  "bool \<Rightarrow> (string \<Rightarrow> news_row list option) \<Rightarrow> pyfloat \<Rightarrow> string list \<Rightarrow> int \<Rightarrow> int \<Rightarrow> gate_error + sentiment_gate" where
  "load_sentiment_gate online news th tickers start_day end_day =
     ebind (guard_e Gate_Unavailable online) (\<lambda>_.
     ebind (read_scores news (gate_tickers tickers) (scores_from start_day) (scores_to end_day)) (\<lambda>arts.
       case make_gate th arts of Inl e \<Rightarrow> Inl (Gate_Refused e) | Inr g \<Rightarrow> Inr g))"

section \<open>What is left in the database\<close>

definition all_scores :: "(string \<Rightarrow> news_row list option) \<Rightarrow> string list \<Rightarrow> (string, (int \<times> real) list) dict" where
  "all_scores news tickers =
     map (\<lambda>t. (t, scored_rows (\<lambda>_. True) (case news t of None \<Rightarrow> [] | Some rows \<Rightarrow> rows))) tickers"

lemma read_scores_Inr:
  assumes "read_scores news tickers a b = Inr arts"
  shows "arts = map (\<lambda>t. (t, scored_rows (\<lambda>p. a \<le> p \<and> p \<le> b) (case news t of None \<Rightarrow> [] | Some rows \<Rightarrow> rows))) tickers"
  using assms
  by (induction tickers arbitrary: arts) (auto simp: read_scores_def ebind_Inr_iff split: option.splits)

lemma filter_scored_rows: "filter (\<lambda>p. keep (fst p)) (scored_rows (\<lambda>_. True) rows) = scored_rows keep rows"
  by (induction rows) (auto simp: scored_rows_def)

lemma map_of_rev_map:
  "map_of (rev (map (\<lambda>t. (f t, h t)) ts)) u = map_option h (find (\<lambda>t. f t = u) (rev ts))"
proof (induction ts rule: rev_induct)
  case (snoc t ts)
  then show ?case by auto
qed simp

text \<open>Sorting and then keeping what the moment sees is the same on a cut list as on the whole one.\<close>

lemma window_scores_cut:
  assumes "\<And>p. now - sentiment_window \<le> available_at p \<Longrightarrow> available_at p < now \<Longrightarrow> keep p"
  shows "window_scores (sort (map (\<lambda>(p, s). (available_at p, s)) (filter (\<lambda>r. keep (fst r)) rows))) now =
    window_scores (sort (map (\<lambda>(p, s). (available_at p, s)) rows)) now"
proof -
  let ?seen = "\<lambda>q. now - sentiment_window \<le> fst q \<and> fst q < now" and ?m = "map (\<lambda>(p, s). (available_at p, s))"
  have "filter ?seen (sort (?m (filter (\<lambda>r. keep (fst r)) rows))) = sort (filter ?seen (?m (filter (\<lambda>r. keep (fst r)) rows)))"
    by (rule filter_sort)
  also have "filter ?seen (?m (filter (\<lambda>r. keep (fst r)) rows)) = filter ?seen (?m rows)"
    using assms by (induction rows) auto
  also have "sort (filter ?seen (?m rows)) = filter ?seen (sort (?m rows))" by (rule filter_sort [symmetric])
  finally show ?thesis by (simp add: window_scores_def)
qed

lemma moment_in_reach:
  assumes "start_day * day_us \<le> now" "now \<le> end_day * day_us + day_us + 2 * vendor_timezone_embargo"
    and "now - sentiment_window \<le> available_at p" "available_at p < now"
  shows "scores_from start_day \<le> p \<and> p \<le> scores_to end_day"
  using assms by (simp add: scores_from_def scores_to_def lookback_def lookahead_def available_at_def)

lemma loaded_parts:
  assumes "load_sentiment_gate online news th tickers start_day end_day = Inr g"
  obtains arts where "read_scores news (gate_tickers tickers) (scores_from start_day) (scores_to end_day) = Inr arts"
    "make_gate th arts = Inr g"
proof (cases "read_scores news (gate_tickers tickers) (scores_from start_day) (scores_to end_day)")
  case (Inl e)
  with assms show ?thesis by (simp add: load_sentiment_gate_def ebind_Inr_iff)
next
  case (Inr arts)
  with assms have "(case make_gate th arts of Inl e \<Rightarrow> Inl (Gate_Refused e) | Inr g \<Rightarrow> Inr g) = Inr g"
    by (simp add: load_sentiment_gate_def ebind_Inr_iff)
  with Inr show ?thesis by (intro that) (auto split: sum.splits)
qed

text \<open>C26: a gated run decides as if it had read every article ever scored for its tickers: at each moment from
  the start of its first day to ten hours after its last (which covers that session's evening in New
  York), score and verdict of the loaded gate are those of the gate over the whole news table.\<close>

theorem loaded_gate_complete:
  assumes "load_sentiment_gate online news th tickers start_day end_day = Inr g"
    and "make_gate th (all_scores news (gate_tickers tickers)) = Inr whole"
    and "start_day * day_us \<le> to_naive_utc m"
    and "to_naive_utc m \<le> end_day * day_us + day_us + 2 * vendor_timezone_embargo"
  shows "score_at g t m = score_at whole t m \<and> (blocks_long_entry g t m \<longleftrightarrow> blocks_long_entry whole t m)"
proof -
  let ?ts = "gate_tickers tickers" and ?rows = "\<lambda>t. case news t of None \<Rightarrow> [] | Some rows \<Rightarrow> rows"
  let ?keep = "\<lambda>p. scores_from start_day \<le> p \<and> p \<le> scores_to end_day"
  obtain arts where arts: "read_scores news ?ts (scores_from start_day) (scores_to end_day) = Inr arts" "make_gate th arts = Inr g"
    by (rule loaded_parts [OF assms(1)])
  note cut = read_scores_Inr [OF arts(1)]
  have ord: "ordered_articles arts u = map_option (\<lambda>t. sort (map (\<lambda>(p, s). (available_at p, s)) (scored_rows ?keep (?rows t)))) (find (\<lambda>t. upper t = u) (rev ?ts))"
    for u by (simp add: ordered_articles_def cut comp_def case_prod_beta map_of_rev_map option.map_comp)
  have ord': "ordered_articles (all_scores news ?ts) u =
      map_option (\<lambda>t. sort (map (\<lambda>(p, s). (available_at p, s)) (scored_rows (\<lambda>_. True) (?rows t)))) (find (\<lambda>t. upper t = u) (rev ?ts))"
    for u by (simp add: ordered_articles_def all_scores_def comp_def case_prod_beta map_of_rev_map option.map_comp)
  have win: "window_scores (sort (map (\<lambda>(p, s). (available_at p, s)) (scored_rows ?keep rows))) (to_naive_utc m) =
      window_scores (sort (map (\<lambda>(p, s). (available_at p, s)) (scored_rows (\<lambda>_. True) rows))) (to_naive_utc m)" for rows
    unfolding filter_scored_rows [of ?keep, symmetric]
    by (rule window_scores_cut) (rule moment_in_reach [OF assms(3,4)])
  have s: "score_at g t m = score_at whole t m"
    by (simp add: score_at_mean [OF arts(2)] score_at_mean [OF assms(2)] ord ord' win split: option.splits)
  moreover have "threshold g = threshold whole" using make_gate_Inr [OF arts(2)] make_gate_Inr [OF assms(2)] by simp
  ultimately show ?thesis by (simp add: blocks_long_entry_def)
qed

text \<open>A row of the day before the run, one far outside its reach, and one without a score.\<close>

definition demo_news :: "string \<Rightarrow> news_row list option" where
  "demo_news t = Some [\<lparr>nw_published = 2 * day_us, nw_score = Some (- 1 / 4)\<rparr>,
     \<lparr>nw_published = 99 * day_us, nw_score = Some 1\<rparr>, \<lparr>nw_published = 2 * day_us, nw_score = None\<rparr>]"

lemma loaded_gate_complete_witness:
  "\<exists>g whole. load_sentiment_gate True demo_news (Fin (- 1 / 2)) [''a''] 3 3 = Inr g \<and>
     make_gate (Fin (- 1 / 2)) (all_scores demo_news (gate_tickers [''a''])) = Inr whole \<and>
     score_at g ''A'' \<lparr>wall = 4 * day_us - hour_us, utc_offset = None\<rparr> =
     score_at whole ''A'' \<lparr>wall = 4 * day_us - hour_us, utc_offset = None\<rparr>"
proof -
  let ?m = "\<lparr>wall = 4 * day_us - hour_us, utc_offset = None\<rparr>"
  have built: "\<exists>g. make_gate (Fin (- 1 / 2)) arts = Inr g" for arts
    by (simp add: make_gate_def threshold_min_def threshold_max_def)
  have "\<exists>arts. read_scores demo_news ts a b = Inr arts" for ts a b
    unfolding read_scores_def by (rule exI, rule emap_Inr) (simp add: demo_news_def)
  then obtain arts where "read_scores demo_news (gate_tickers [''a'']) (scores_from 3) (scores_to 3) = Inr arts" by blast
  moreover obtain g where "make_gate (Fin (- 1 / 2)) arts = Inr g" using built by blast
  ultimately have g: "load_sentiment_gate True demo_news (Fin (- 1 / 2)) [''a''] 3 3 = Inr g"
    by (simp add: load_sentiment_gate_def)
  obtain whole where whole: "make_gate (Fin (- 1 / 2)) (all_scores demo_news (gate_tickers [''a''])) = Inr whole"
    using built by blast
  have "3 * day_us \<le> to_naive_utc ?m" "to_naive_utc ?m \<le> 3 * day_us + day_us + 2 * vendor_timezone_embargo"
    by (simp_all add: to_naive_utc_def vendor_timezone_embargo_def)
  from loaded_gate_complete [OF g whole this] g whole show ?thesis by blast
qed

end
