(* ===== verification/Spec2Isabelle.thy ===== *)
theory Spec2Isabelle
  imports Submission_Claims Run_Table_Claims Report_Account Indicators_Claims Order_Interface_Claims Runner_Claims
    Strategy_Store_Claims Intraday_Claims Authoring_Claims Registry_Claims Daily_Claims Market_Claims Symbol_Claims Purged_Folds Cscv
    Run_Metrics_Claims Fast_Claims Run_Single_Claims Gate_Loader
begin

text \<open>
  A verification library for the backtest visualizer: a Python backtesting engine
  (\<open>engine/\<close>) and the web service around it (\<open>src/\<close>, the package of that name).

  \<^bold>\<open>How the program works.\<close> A student submits a run (\<open>services/backtests.py\<close>): the
  request is checked field by field, written to the run table
  (\<open>repositories/runs.py\<close>) and handed to the job manager
  (\<open>workers/job_manager.py\<close>), which queues it for a pool of worker processes. A worker
  (\<open>workers/run_job.py\<close>, \<open>workers/report_job.py\<close>) claims the row, materializes the uploaded
  strategy from the store (\<open>integrations/strategy_store.py\<close>), loads bars
  (\<open>engine/data/intraday.py\<close>) and drives the event loop (\<open>engine/core/runner.py\<close>). At each
  bar the loop updates the marks, feeds the indicators, shows the strategy a window that ends at the
  bar, and samples the account. The strategy trades through
  \<open>strategies/order_interface.py\<close>, which sizes by target weight and calls the simulated broker
  (\<open>engine/core/executor.py\<close>) with its costs and news gate. The results become a report
  (\<open>services/reporting.py\<close>, \<open>services/trade_pairing.py\<close>) that is stored; the boot repair
  (\<open>workers/reconciler.py\<close>) fails what a dead worker left behind.

  \<^bold>\<open>Theories, in the order the data flows.\<close>
  \<^item> Prelude: floats with NaN and infinities, \<open>pyval\<close> (decoded JSON), exceptions,
    dictionaries as association lists, lemmas on them.
  \<^item> Cost_Model (\<open>core/cost_model.py\<close>; locale \<open>execution_price\<close>), Sentiment_Gate
    (\<open>core/sentiment_gate.py\<close>; locale \<open>entry_gate\<close>), Executor (\<open>core/executor.py\<close>: the
    record \<open>executor\<close> is \<open>BacktestExecutor\<close>, one function per method). Executor_Sizing proves the
    account invariant and what sizing returns, Executor_Trades the handlers under it,
    Executor_Claims the properties: a broker whose account is the sum of its fills, trades that
    are paid for exactly, cash never overdrawn, targets never passed, gated positions never longer.
  \<^item> Order_Interface (\<open>order_interface.py\<close>, \<open>market_data_api.py\<close>,
    \<open>portfolio_interface.py\<close>) and its claims: selling and closing only reduce.
  \<^item> Indicators (\<open>engine/indicators/\<close>, \<open>services/technical_indicators.py\<close>) and
    its claims: a streaming indicator is the batch formula of the dashboard on the closes so far.
  \<^item> Runner (\<open>core/runner.py\<close>, the poll of \<open>portfolio_BASE/strategy.py\<close>),
    Runner_Frame (a step reads the past only) and Runner_Claims: no look-ahead, a closed equity
    curve, every bar fed once, every run comes to an end.
  \<^item> Bar_Interval (\<open>data/bar_interval.py\<close>), Intraday (\<open>data/intraday.py\<close>) and its
    claims: window loops end and cover, bars are labelled once they are known, and a store too coarse
    for the asked bars is refused.
  \<^item> Trade_Pairing, Trade_Pairing_Books, Trade_Pairing_Claims
    (\<open>services/trade_pairing.py\<close>): first in first out, nothing lost in shares or cash.
    Executor_Pairing joins it to the broker: the log always pairs, and what is left open is the
    broker's book.
  \<^item> Report, Report_Claims, Report_Account (\<open>services/reporting.py\<close> and the row builders of
    \<open>run_job.py\<close>): one equity row per day, drawdown, rates, and figures that explain the change
    of the account.
  \<^item> Job_Manager and its claims (\<open>workers/job_manager.py\<close>): the life of a job over all
    interleavings, terminal states are final, cancellation wins, only successes are stored.
  \<^item> Run_Table and its claims (\<open>repositories/runs.py\<close>, the statements of \<open>run_job.py\<close>,
    \<open>reconciler.py\<close>): a run leaves the queue once and an ended run stays ended.
  \<^item> Run_Controls (\<open>services/run_controls.py\<close>), Submission and its claims
    (\<open>services/backtests.py\<close>): what an accepted request puts in the queue.
  \<^item> Strategy_Store (\<open>strategy_store.py\<close>, \<open>strategy_validation/packaging.py\<close>),
    Strategy_Store_Contract (locale \<open>strategy_store\<close>), its interpretations
    Strategy_Store_Local (a disk tree) and Strategy_Store_Bucket (an S3 client that behaves as
    documented), and Strategy_Store_Claims: round trip, all or nothing, nothing written outside.
  \<^item> Scanner and its claims (\<open>strategy_validation/scanning.py\<close>, \<open>source_policy.py\<close> and
    \<open>compatibility.py\<close>): an accepted file is clean at every depth, and the compatibility check never
    passes a file that the scan refuses.
  \<^item> Authoring and its claims (\<open>strategy_validation/authoring.py\<close>): problems are placed on the
    member's own lines, and a draft that passes is the generated class.
  \<^item> Registry and its claims (\<open>repositories/strategies.py\<close>, \<open>services/strategies.py\<close>): over any
    interpretation of \<open>strategy_store\<close>, a row that names a package has it in the store.
  \<^item> Daily_Loader and its claims (\<open>core/utils.py\<close>, \<open>data/cache.py\<close>): with an honest cache the
    answer is the one without a cache; four histories show how it stops being honest.
  \<^item> Fmp and its claims (\<open>data/fmp.py\<close>): one retry, a verdict only from a full answer, and a run's
    adapter that answers as a fresh download.
  \<^item> Market_Table (\<open>repositories/market_data.py\<close>), Market_Data and Market_Claims
    (\<open>services/market_data.py\<close>): coverage describes the table, a benchmark's closes prefer the stored ones.
    Symbol_Lookup and its claims: the locked lookups of that service, as events over a shared state.
  \<^item> Purged_Folds (\<open>analytics/purged_kfold.py\<close>): no training label overlaps a test fold or its
    embargo. Cscv (\<open>analytics/cscv.py\<close>): a probability of overfitting, symmetric in the splits.
  \<^item> Benchmark and its claims (\<open>analytics/reporting.py\<close>): the buy-and-hold account, shares bought
    once and held. Run_Metrics and its claims (the same file): figures in their ranges, and the two
    inputs on which Python's powers raise.
  \<^item> Columns (pandas column operations; locale \<open>causal_series\<close>), Fast_Mode and Fast_Claims
    (\<open>analytics/vector_strategy_adapters.py\<close>, \<open>core/backtest_engine.py\<close>,
    \<open>analytics/vectorized_backtest.py\<close>): fast mode reads the past only, is long only, and what its
    turnover leaves out.
  \<^item> Run_Single and its claims (\<open>engine/run_single.py\<close>, \<open>core/backtest_engine.py\<close>): one run over
    the parts above, from the checks of the request to the curve, benchmark and figures.
  \<^item> Gate_Loader (\<open>workers/sentiment_gate_loader.py\<close>): a gated run loads every article that could change
    a decision of its gate.

  \<^bold>\<open>Conventions.\<close> A float is an exact real, an infinity or NaN: no rounding, and no overflow of
  finite results. A Python integer is an \<open>int\<close>; strings are ASCII. An exception is the left side of
  \<open>py_exn + 'a\<close> or of the component's own error type; a handler that mutates state before it raises
  returns the new state beside the error. Dictionaries keep insertion order. Dates are day
  numbers, instants microseconds. Threads interleave at locked sections, processes at SQL
  statements. Logging and the text of messages are left out.

  \<^bold>\<open>Parameters.\<close> Code outside the repository is an argument of the definitions that call it:
  the ISO date and float parsers, time-zone rules and the clock, market-data answers, the order
  manager's pump, the S3 client, \<open>Path.resolve\<close>, \<open>json.dumps\<close>, the network, and whether a
  database query completes. The student's strategy is a \<open>script\<close>: the calls it makes, given what
  it can see. What a property needs of such an argument is a named hypothesis, and its witness
  instantiates it.

  \<^bold>\<open>Loops.\<close> Structural recursion wherever the code iterates over data; the \<open>while\<close> loops over
  time windows are \<open>partial_function (option)\<close>, and \<open>window_loops_return\<close> proves that they
  return. No definition uses fuel.
  Loops whose recursion is not structural (the two queues of the scanner, the growth of names, the
  slabs of a query and its chunks) are \<open>function\<close>s with a measure, so they are total.

  \<^bold>\<open>Not modelled\<close>, and why:
  \<^item> The web routes, schemas, configuration, sign-in, table declarations, maintenance scripts and
    the command line: glue around libraries, with no logic of their own.
  \<^item> The Yahoo client and the database adapter: one request, one connection pool.
  \<^item> The news pages, example reports and exports: they copy and format rows.
  \<^item> The bundled strategies: they are clients of the engine, covered by the script parameter.
  \<^item> What the engine writes to files only: the minute frame, the rolling, monthly and risk statistics of
    \<open>generate_backtest_report\<close>, the signals of the vectorized command line, the overlay of earlier
    years and the Monte Carlo paths.
  \<^item> The live data path of \<open>StrategyBase\<close>, which a backtest never reaches, and the parts of
    \<open>run_job.py\<close> and \<open>report_job.py\<close> that only time, log or spawn.
\<close>

end
